(* ===== verification/Prelude.thy ===== *)
theory Prelude
  imports Main "HOL-Library.Word" "HOL-Library.Char_ord" "HOL-Library.List_Lexorder"
    "HOL-Library.AList"
begin

text \<open>
  Shared vocabulary of the development: results of fallible code, the string operations of the
  Go standard library that the modelled packages call, the comparison-driven sorting and searching
  of package \<^verbatim>\<open>slices\<close>, Go's truncating remainder, and the generic lemmas on lists, options and
  maps that the component theories use through the collections declared here.

  Go strings are byte sequences, modelled as \<^typ>\<open>string\<close>.  The case mapping is that of ASCII,
  which is what \<^verbatim>\<open>strings.ToLower\<close> computes on the host names, client identifiers and keywords of
  the program; multi-byte UTF-8 sequences are left unchanged by the model.
\<close>

section \<open>Results and collections\<close>

type_synonym ('e, 'a) result = "'e + 'a"

named_theorems go_simps "unfolding rules of the small helper definitions"
named_theorems inv_intros "introduction rules for invariants of operations"

fun bind_result :: "('e, 'a) result \<Rightarrow> ('a \<Rightarrow> ('e, 'b) result) \<Rightarrow> ('e, 'b) result" where
  "bind_result (Inl e) f = Inl e"
| "bind_result (Inr a) f = f a"

lemma bind_result_Inr_iff:
  "bind_result r f = Inr b \<longleftrightarrow> (\<exists>a. r = Inr a \<and> f a = Inr b)"
  by (cases r) auto

lemma bind_result_Inl_iff:
  "bind_result r f = Inl e \<longleftrightarrow> r = Inl e \<or> (\<exists>a. r = Inr a \<and> f a = Inl e)"
  by (cases r) auto

section \<open>Strings\<close>

definition ascii_lower :: "char \<Rightarrow> char" where
  "ascii_lower c = (if 65 \<le> (of_char c :: nat) \<and> (of_char c :: nat) \<le> 90
                    then char_of ((of_char c :: nat) + 32) else c)"

definition to_lower :: "string \<Rightarrow> string" where
  "to_lower s = map ascii_lower s"

lemma ascii_lower_idem [simp]: "ascii_lower (ascii_lower c) = ascii_lower c"
proof (cases "65 \<le> (of_char c :: nat) \<and> (of_char c :: nat) \<le> 90")
  case True
  then have "(of_char (char_of ((of_char c :: nat) + 32) :: char) :: nat) = of_char c + 32"
    by simp
  with True show ?thesis by (simp add: ascii_lower_def)
qed (auto simp: ascii_lower_def)

lemma to_lower_idem [simp]: "to_lower (to_lower s) = to_lower s"
  by (simp add: to_lower_def comp_def)

lemma to_lower_Nil [simp]: "to_lower [] = []"
  by (simp add: to_lower_def)

lemma to_lower_eq_Nil [simp]: "to_lower s = [] \<longleftrightarrow> s = []"
  by (simp add: to_lower_def)

lemma length_to_lower [simp]: "length (to_lower s) = length s"
  by (simp add: to_lower_def)

lemma to_lower_append [simp]: "to_lower (s @ t) = to_lower s @ to_lower t"
  by (simp add: to_lower_def)

text \<open>\<^verbatim>\<open>strings.HasSuffix\<close>, \<^verbatim>\<open>strings.HasPrefix\<close>, \<^verbatim>\<open>strings.TrimSuffix\<close>,
  \<^verbatim>\<open>strings.Split\<close> on a one-byte separator, \<^verbatim>\<open>strings.Join\<close> and \<^verbatim>\<open>strings.FieldsFunc\<close>.\<close>

definition has_suffix :: "string \<Rightarrow> string \<Rightarrow> bool" where
  "has_suffix s t \<longleftrightarrow> length t \<le> length s \<and> drop (length s - length t) s = t"

definition has_prefix :: "string \<Rightarrow> string \<Rightarrow> bool" where
  "has_prefix s t \<longleftrightarrow> take (length t) s = t"

definition trim_suffix :: "string \<Rightarrow> string \<Rightarrow> string" where
  "trim_suffix s t = (if has_suffix s t then take (length s - length t) s else s)"

fun split_on :: "char \<Rightarrow> string \<Rightarrow> string list" where
  "split_on c [] = [[]]"
| "split_on c (x # xs) =
     (if x = c then [] # split_on c xs
      else (case split_on c xs of [] \<Rightarrow> [[x]] | p # ps \<Rightarrow> (x # p) # ps))"

fun join_with :: "string \<Rightarrow> string list \<Rightarrow> string" where
  "join_with sep [] = []"
| "join_with sep [x] = x"
| "join_with sep (x # y # zs) = x @ sep @ join_with sep (y # zs)"

lemma length_dropWhile_less [termination_simp]: "length (dropWhile p xs) < Suc (length xs)"
  by (simp add: less_Suc_eq_le length_dropWhile_le)

fun fields_func :: "(char \<Rightarrow> bool) \<Rightarrow> string \<Rightarrow> string list" where
  "fields_func p [] = []"
| "fields_func p (x # xs) =
     (if p x then fields_func p xs
      else (x # takeWhile (\<lambda>c. \<not> p c) xs) # fields_func p (dropWhile (\<lambda>c. \<not> p c) xs))"

lemma has_suffix_iff: "has_suffix s t \<longleftrightarrow> (\<exists>u. s = u @ t)"
proof
  assume "has_suffix s t"
  then have "s = take (length s - length t) s @ t"
    unfolding has_suffix_def by (metis append_take_drop_id)
  then show "\<exists>u. s = u @ t" by blast
qed (auto simp: has_suffix_def)

lemma has_prefix_iff: "has_prefix s t \<longleftrightarrow> (\<exists>u. s = t @ u)"
proof
  assume "has_prefix s t"
  then have "s = t @ drop (length t) s"
    unfolding has_prefix_def by (metis append_take_drop_id)
  then show "\<exists>u. s = t @ u" by blast
qed (auto simp: has_prefix_def)

lemma split_on_nonempty [simp]: "split_on c s \<noteq> []"
  by (induction s) (auto split: list.splits)

lemma join_split_on: "join_with [c] (split_on c s) = s"
proof (induction s)
  case (Cons x xs)
  obtain p ps where ps: "split_on c xs = p # ps"
    using split_on_nonempty by (metis neq_Nil_conv)
  with Cons show ?case by (cases ps) auto
qed simp

section \<open>Sorting and searching with a comparison function\<close>

text \<open>
  \<^verbatim>\<open>slices.SortFunc\<close> returns a permutation in ascending order of \<^term>\<open>cmp\<close>.  The model is the
  insertion sort the library runs on slices of at most 12 elements; the properties of the
  development use only what \<open>preorder_cmp\<close> below derives, which every correct sort provides.
\<close>

fun insert_cmp :: "('a \<Rightarrow> 'a \<Rightarrow> int) \<Rightarrow> 'a \<Rightarrow> 'a list \<Rightarrow> 'a list" where
  "insert_cmp cmp x [] = [x]"
| "insert_cmp cmp x (y # ys) = (if cmp x y \<le> 0 then x # y # ys else y # insert_cmp cmp x ys)"

fun sort_cmp :: "('a \<Rightarrow> 'a \<Rightarrow> int) \<Rightarrow> 'a list \<Rightarrow> 'a list" where
  "sort_cmp cmp [] = []"
| "sort_cmp cmp (x # xs) = insert_cmp cmp x (sort_cmp cmp xs)"

definition cmp_le :: "('a \<Rightarrow> 'a \<Rightarrow> int) \<Rightarrow> 'a \<Rightarrow> 'a \<Rightarrow> bool" where
  "cmp_le cmp x y \<longleftrightarrow> cmp x y \<le> 0"

text \<open>A comparison function that is a total preorder, as \<^verbatim>\<open>slices.SortFunc\<close> requires.\<close>

locale preorder_cmp =
  fixes cmp :: "'a \<Rightarrow> 'a \<Rightarrow> int"
  assumes cmp_total: "cmp x y \<le> 0 \<or> cmp y x \<le> 0"
    and cmp_trans: "cmp x y \<le> 0 \<Longrightarrow> cmp y z \<le> 0 \<Longrightarrow> cmp x z \<le> 0"
begin

lemma set_insert_cmp [simp]: "set (insert_cmp cmp x ys) = insert x (set ys)"
  by (induction ys) auto

lemma set_sort_cmp [simp]: "set (sort_cmp cmp xs) = set xs"
  by (induction xs) auto

lemma length_insert_cmp [simp]: "length (insert_cmp cmp x ys) = Suc (length ys)"
  by (induction ys) auto

lemma length_sort_cmp [simp]: "length (sort_cmp cmp xs) = length xs"
  by (induction xs) auto

lemma sorted_insert_cmp:
  "sorted_wrt (cmp_le cmp) ys \<Longrightarrow> sorted_wrt (cmp_le cmp) (insert_cmp cmp x ys)"
proof (induction ys)
  case (Cons y ys)
  show ?case
  proof (cases "cmp x y \<le> 0")
    case True
    with Cons.prems show ?thesis by (auto simp: cmp_le_def intro: cmp_trans)
  next
    case False
    with cmp_total have "cmp y x \<le> 0" by blast
    with False Cons show ?thesis by (auto simp: cmp_le_def)
  qed
qed simp

lemma sorted_sort_cmp: "sorted_wrt (cmp_le cmp) (sort_cmp cmp xs)"
  by (induction xs) (simp_all add: sorted_insert_cmp)

end

text \<open>
  \<^verbatim>\<open>slices.BinarySearchFunc\<close>: the leftmost index whose element does not compare below the
  target, and whether the element there compares equal to it.
\<close>

function bsearch_loop :: "('a \<Rightarrow> 'a \<Rightarrow> int) \<Rightarrow> 'a list \<Rightarrow> 'a \<Rightarrow> nat \<Rightarrow> nat \<Rightarrow> nat" where
  "bsearch_loop cmp xs t i j =
     (if i < j then
        let h = (i + j) div 2 in
        if cmp (xs ! h) t < 0 then bsearch_loop cmp xs t (h + 1) j
        else bsearch_loop cmp xs t i h
      else i)"
  by pat_completeness auto
termination
  by (relation "measure (\<lambda>(cmp, xs, t, i, j). j - i)") auto

declare bsearch_loop.simps [simp del]

lemma bsearch_loop_done [simp]: "\<not> i < j \<Longrightarrow> bsearch_loop cmp xs t i j = i"
  by (subst bsearch_loop.simps) simp

definition binary_search :: "('a \<Rightarrow> 'a \<Rightarrow> int) \<Rightarrow> 'a list \<Rightarrow> 'a \<Rightarrow> nat \<times> bool" where
  "binary_search cmp xs t =
     (let i = bsearch_loop cmp xs t 0 (length xs)
      in (i, i < length xs \<and> cmp (xs ! i) t = 0))"

lemma bsearch_loop_bounds:
  "i \<le> j \<Longrightarrow> i \<le> bsearch_loop cmp xs t i j \<and> bsearch_loop cmp xs t i j \<le> j"
proof (induction cmp xs t i j rule: bsearch_loop.induct)
  case (1 cmp xs t i j)
  show ?case
  proof (cases "i < j")
    case True
    then have "(i + j) div 2 + 1 \<le> j" and "i \<le> (i + j) div 2" and "(i + j) div 2 \<le> j"
      by linarith+
    with True 1 show ?thesis
      by (subst (1 2) bsearch_loop.simps) (auto simp: Let_def)
  next
    case False
    with 1(3) show ?thesis by simp
  qed
qed

text \<open>On a list on which \<open>cmp _ t < 0\<close> is a prefix property, the search ends at its border.\<close>

lemma bsearch_loop_border:
  assumes "i \<le> j" and "j \<le> length xs"
    and "\<And>a b. a \<le> b \<Longrightarrow> b < length xs \<Longrightarrow> cmp (xs ! b) t < 0 \<Longrightarrow> cmp (xs ! a) t < 0"
    and "\<And>k. k < i \<Longrightarrow> cmp (xs ! k) t < 0"
    and "\<And>k. j \<le> k \<Longrightarrow> k < length xs \<Longrightarrow> \<not> cmp (xs ! k) t < 0"
  shows "(\<forall>k < bsearch_loop cmp xs t i j. cmp (xs ! k) t < 0) \<and>
    (\<forall>k. bsearch_loop cmp xs t i j \<le> k \<and> k < length xs \<longrightarrow> \<not> cmp (xs ! k) t < 0)"
  using assms
proof (induction cmp xs t i j rule: bsearch_loop.induct)
  case (1 cmp xs t i j)
  define h where "h = (i + j) div 2"
  show ?case
  proof (cases "i < j")
    case False
    with "1.prems" show ?thesis by simp
  next
    case ij: True
    then have h: "i \<le> h" "h < j" unfolding h_def by linarith+
    with "1.prems"(2) have hl: "h < length xs" by linarith
    show ?thesis
    proof (cases "cmp (xs ! h) t < 0")
      case True
      then have "\<And>k. k < h + 1 \<Longrightarrow> cmp (xs ! k) t < 0"
        using "1.prems"(3) [OF _ hl True] by auto
      with "1.IH"(1) [OF ij h_def True] h True ij "1.prems"(2,3,5) show ?thesis
        by (simp add: bsearch_loop.simps [of cmp xs t i j] Let_def flip: h_def)
    next
      case False
      then have "\<And>k. h \<le> k \<Longrightarrow> k < length xs \<Longrightarrow> \<not> cmp (xs ! k) t < 0"
        using "1.prems"(3) by blast
      with "1.IH"(2) [OF ij h_def False] h False ij "1.prems"(2,3,4) hl show ?thesis
        by (simp add: bsearch_loop.simps [of cmp xs t i j] Let_def flip: h_def)
    qed
  qed
qed

section \<open>Arithmetic\<close>

text \<open>Go's \<open>%\<close> on signed integers truncates towards zero.\<close>

definition go_rem :: "int \<Rightarrow> int \<Rightarrow> int" where
  "go_rem a b = (if 0 \<le> a then a mod \<bar>b\<bar> else - ((- a) mod \<bar>b\<bar>))"

lemma go_rem_nonneg: "0 \<le> a \<Longrightarrow> 0 < b \<Longrightarrow> go_rem a b = a mod b"
  by (simp add: go_rem_def)

section \<open>Maps\<close>

text \<open>Storing the same value under a list of keys, and deleting a list of keys.\<close>

definition put_all :: "'k list \<Rightarrow> 'v \<Rightarrow> ('k \<rightharpoonup> 'v) \<Rightarrow> ('k \<rightharpoonup> 'v)" where
  "put_all ks v m = fold (\<lambda>k m. m(k \<mapsto> v)) ks m"

definition del_all :: "'k list \<Rightarrow> ('k \<rightharpoonup> 'v) \<Rightarrow> ('k \<rightharpoonup> 'v)" where
  "del_all ks m = fold (\<lambda>k m. m(k := None)) ks m"

lemma put_all_apply: "put_all ks v m k = (if k \<in> set ks then Some v else m k)"
  by (induction ks arbitrary: m) (auto simp: put_all_def)

lemma del_all_apply: "del_all ks m k = (if k \<in> set ks then None else m k)"
  by (induction ks arbitrary: m) (auto simp: del_all_def)

text \<open>
  A Go map that the program iterates over or measures is an association list with distinct keys;
  its order stands for Go's unspecified iteration order.
\<close>

type_synonym ('k, 'v) gomap = "('k \<times> 'v) list"

abbreviation gm_get :: "('k, 'v) gomap \<Rightarrow> ('k \<rightharpoonup> 'v)" where
  "gm_get \<equiv> map_of"

abbreviation gm_put :: "'k \<Rightarrow> 'v \<Rightarrow> ('k, 'v) gomap \<Rightarrow> ('k, 'v) gomap" where
  "gm_put \<equiv> AList.update"

abbreviation gm_del :: "'k \<Rightarrow> ('k, 'v) gomap \<Rightarrow> ('k, 'v) gomap" where
  "gm_del \<equiv> AList.delete"

definition gm_wf :: "('k, 'v) gomap \<Rightarrow> bool" where
  "gm_wf m \<longleftrightarrow> distinct (map fst m)"

definition gm_put_all :: "'k list \<Rightarrow> 'v \<Rightarrow> ('k, 'v) gomap \<Rightarrow> ('k, 'v) gomap" where
  "gm_put_all ks v m = fold (\<lambda>k. gm_put k v) ks m"

definition gm_del_all :: "'k list \<Rightarrow> ('k, 'v) gomap \<Rightarrow> ('k, 'v) gomap" where
  "gm_del_all ks m = fold gm_del ks m"

lemma gm_wf_Nil [simp]: "gm_wf []"
  by (simp add: gm_wf_def)

lemma gm_wf_put [simp]: "gm_wf m \<Longrightarrow> gm_wf (gm_put k v m)"
  by (simp add: gm_wf_def distinct_update)

lemma gm_wf_del [simp]: "gm_wf m \<Longrightarrow> gm_wf (gm_del k m)"
  by (simp add: gm_wf_def distinct_delete)

lemma gm_wf_put_all [simp]: "gm_wf m \<Longrightarrow> gm_wf (gm_put_all ks v m)"
  by (induction ks arbitrary: m) (auto simp: gm_put_all_def)

lemma gm_wf_del_all [simp]: "gm_wf m \<Longrightarrow> gm_wf (gm_del_all ks m)"
  by (induction ks arbitrary: m) (auto simp: gm_del_all_def)

lemma gm_get_put [simp]: "gm_get (gm_put k v m) = (gm_get m)(k \<mapsto> v)"
  by (simp add: update_conv')

lemma gm_get_del [simp]: "gm_get (gm_del k m) = (gm_get m)(k := None)"
  by (simp add: delete_conv')

lemma gm_get_put_all: "gm_get (gm_put_all ks v m) k = (if k \<in> set ks then Some v else gm_get m k)"
  by (induction ks arbitrary: m) (auto simp: gm_put_all_def)

lemma gm_get_del_all: "gm_get (gm_del_all ks m) k = (if k \<in> set ks then None else gm_get m k)"
  by (induction ks arbitrary: m) (auto simp: gm_del_all_def)

lemma gm_get_iff: "gm_wf m \<Longrightarrow> gm_get m k = Some v \<longleftrightarrow> (k, v) \<in> set m"
  by (simp add: gm_wf_def)

lemma gm_size: "gm_wf m \<Longrightarrow> length m = card (dom (gm_get m))"
  by (simp add: gm_wf_def dom_map_of_conv_image_fst distinct_card flip: set_map)

text \<open>The first element of a list on which a partial function is defined.\<close>

fun find_some :: "('a \<Rightarrow> 'b option) \<Rightarrow> 'a list \<Rightarrow> 'b option" where
  "find_some f [] = None"
| "find_some f (x # xs) = (case f x of Some y \<Rightarrow> Some y | None \<Rightarrow> find_some f xs)"

lemma find_some_None [simp]: "find_some f xs = None \<longleftrightarrow> (\<forall>x \<in> set xs. f x = None)"
  by (induction xs) (auto split: option.splits)

lemma find_some_SomeD: "find_some f xs = Some y \<Longrightarrow> \<exists>x \<in> set xs. f x = Some y"
  by (induction xs) (auto split: option.splits)

end
