(* ===== verification/NetIP.thy ===== *)
theory NetIP
  imports Prelude "HOL-Library.Product_Lexorder"
begin

text \<open>
  The part of the Go standard library's \<^verbatim>\<open>net/netip\<close> and \<^verbatim>\<open>net\<close> that the program relies on: IP
  addresses with IPv6 zones, prefixes and their matching, the total order on addresses, hardware
  addresses, and the parsing and printing of all of them.  The constructors follow the library:
  \<^term>\<open>ZeroAddr\<close> is the zero value \<^verbatim>\<open>netip.Addr{}\<close>, and the zone of \<^term>\<open>Addr6\<close> is empty when absent.
\<close>

section \<open>Addresses\<close>

datatype addr = ZeroAddr | Addr4 "32 word" | Addr6 "128 word" string

type_synonym mac = "8 word list"

fun is4 :: "addr \<Rightarrow> bool" where
  "is4 (Addr4 _) = True"
| "is4 _ = False"

fun is6 :: "addr \<Rightarrow> bool" where
  "is6 (Addr6 _ _) = True"
| "is6 _ = False"

definition is_valid :: "addr \<Rightarrow> bool" where
  "is_valid a \<longleftrightarrow> a \<noteq> ZeroAddr"

fun addr_zone :: "addr \<Rightarrow> string" where
  "addr_zone (Addr6 _ z) = z"
| "addr_zone _ = []"

fun with_zone :: "string \<Rightarrow> addr \<Rightarrow> addr" where
  "with_zone z (Addr6 w _) = Addr6 w z"
| "with_zone z a = a"

fun bit_len :: "addr \<Rightarrow> nat" where
  "bit_len ZeroAddr = 0"
| "bit_len (Addr4 _) = 32"
| "bit_len (Addr6 _ _) = 128"

fun addr_num :: "addr \<Rightarrow> int" where
  "addr_num ZeroAddr = 0"
| "addr_num (Addr4 w) = uint w"
| "addr_num (Addr6 w _) = uint w"

text \<open>\<^verbatim>\<open>Addr.Unmap\<close> turns an IPv4-mapped IPv6 address into the IPv4 address.\<close>

fun is4in6 :: "addr \<Rightarrow> bool" where
  "is4in6 (Addr6 w _) \<longleftrightarrow> drop_bit 32 w = 0xffff"
| "is4in6 _ = False"

fun unmap :: "addr \<Rightarrow> addr" where
  "unmap (Addr6 w z) = (if is4in6 (Addr6 w z) then Addr4 (ucast w) else Addr6 w z)"
| "unmap a = a"

text \<open>The 16-byte form of an address, and its 4-byte form, if it has one.\<close>

fun word16 :: "addr \<Rightarrow> 128 word" where
  "word16 ZeroAddr = 0"
| "word16 (Addr4 w) = 0xFFFF00000000 + ucast w"
| "word16 (Addr6 w _) = w"

definition word4 :: "addr \<Rightarrow> 32 word option" where
  "word4 a = (case unmap a of Addr4 w \<Rightarrow> Some w | _ \<Rightarrow> None)"

lemma with_zone_idem [simp]: "with_zone z (with_zone z' a) = with_zone z a"
  by (cases a) auto

lemma bit_len_with_zone [simp]: "bit_len (with_zone z a) = bit_len a"
  by (cases a) auto

lemma is4_with_zone [simp]: "is4 (with_zone z a) = is4 a"
  by (cases a) auto

section \<open>The order on addresses\<close>

definition cmp_ord :: "'a::linorder \<Rightarrow> 'a \<Rightarrow> int" where
  "cmp_ord x y = (if x < y then - 1 else if x = y then 0 else 1)"

lemma cmp_ord_le [simp]: "cmp_ord x y \<le> 0 \<longleftrightarrow> x \<le> y"
  by (auto simp: cmp_ord_def)

lemma cmp_ord_less [simp]: "cmp_ord x y < 0 \<longleftrightarrow> x < y"
  by (auto simp: cmp_ord_def)

lemma cmp_ord_eq [simp]: "cmp_ord x y = 0 \<longleftrightarrow> x = y"
  by (auto simp: cmp_ord_def)

text \<open>\<^verbatim>\<open>Addr.Compare\<close>: by bit length, then by value, then by zone.\<close>

definition addr_compare :: "addr \<Rightarrow> addr \<Rightarrow> int" where
  "addr_compare a b =
     (if bit_len a < bit_len b then - 1
      else if bit_len a > bit_len b then 1
      else if addr_num a < addr_num b then - 1
      else if addr_num a > addr_num b then 1
      else cmp_ord (addr_zone a) (addr_zone b))"

definition addr_key :: "addr \<Rightarrow> nat \<times> int \<times> string" where
  "addr_key a = (bit_len a, addr_num a, addr_zone a)"

lemma addr_key_inj: "addr_key a = addr_key b \<Longrightarrow> a = b"
  by (cases a; cases b) (auto simp: addr_key_def word_uint_eq_iff)

instantiation addr :: linorder
begin

definition less_eq_addr :: "addr \<Rightarrow> addr \<Rightarrow> bool" where
  "less_eq_addr a b \<longleftrightarrow> addr_key a \<le> addr_key b"

definition less_addr :: "addr \<Rightarrow> addr \<Rightarrow> bool" where
  "less_addr a b \<longleftrightarrow> addr_key a < addr_key b"

instance
  by standard (auto simp: less_eq_addr_def less_addr_def dest: addr_key_inj)

end

lemma addr_compare_ord: "addr_compare a b = cmp_ord a b"
  by (auto simp: addr_compare_def cmp_ord_def less_addr_def addr_key_def less_prod_def
      intro: addr_key_inj)

section \<open>Prefixes\<close>

text \<open>
  A prefix keeps its address and number of bits.  The library's zero value has the zero address
  and reports \<open>-1\<close> bits; it is the only invalid prefix the program can build.
\<close>

datatype prefix = Prefix (pfx_addr: addr) (pfx_bits: int)

definition zero_prefix :: prefix where
  "zero_prefix = Prefix ZeroAddr (-1)"

definition prefix_from :: "addr \<Rightarrow> int \<Rightarrow> prefix" where
  "prefix_from a n =
     Prefix (with_zone [] a) (if a \<noteq> ZeroAddr \<and> 0 \<le> n \<and> n \<le> int (bit_len a) then n else - 1)"

definition prefix_valid :: "prefix \<Rightarrow> bool" where
  "prefix_valid p \<longleftrightarrow> 0 \<le> pfx_bits p \<and> pfx_addr p \<noteq> ZeroAddr"

fun prefix_contains :: "prefix \<Rightarrow> addr \<Rightarrow> bool" where
  "prefix_contains (Prefix (Addr4 p) n) (Addr4 a) \<longleftrightarrow>
     0 \<le> n \<and> drop_bit (32 - nat n) (xor a p) = 0"
| "prefix_contains (Prefix (Addr6 p _) n) (Addr6 a z) \<longleftrightarrow>
     0 \<le> n \<and> z = [] \<and> drop_bit (128 - nat n) (xor a p) = 0"
| "prefix_contains _ _ = False"

lemma prefix_contains_bit_len: "prefix_contains p a \<Longrightarrow> bit_len (pfx_addr p) = bit_len a"
  by (induction p a rule: prefix_contains.induct) auto

lemma xor_eq_zero: "xor a b = 0 \<Longrightarrow> a = (b :: 'a::len word)"
  by (metis xor.assoc xor.right_neutral xor_self_eq)

lemma prefix_contains_full:
  "prefix_contains (prefix_from a (int (bit_len a))) b \<Longrightarrow> addr_num b = addr_num a"
  by (cases a; cases b) (auto simp: prefix_from_def dest: xor_eq_zero)

instantiation prefix :: linorder
begin

definition prefix_key :: "prefix \<Rightarrow> int \<times> addr" where
  "prefix_key p = (- pfx_bits p, pfx_addr p)"

definition less_eq_prefix :: "prefix \<Rightarrow> prefix \<Rightarrow> bool" where
  "less_eq_prefix a b \<longleftrightarrow> prefix_key a \<le> prefix_key b"

definition less_prefix :: "prefix \<Rightarrow> prefix \<Rightarrow> bool" where
  "less_prefix a b \<longleftrightarrow> prefix_key a < prefix_key b"

instance
proof
  fix x y :: prefix
  show "x < y \<longleftrightarrow> x \<le> y \<and> \<not> y \<le> x"
    by (auto simp: less_eq_prefix_def less_prefix_def)
  show "x \<le> y \<Longrightarrow> y \<le> x \<Longrightarrow> x = y"
    by (cases x; cases y) (auto simp: less_eq_prefix_def prefix_key_def)
qed (auto simp: less_eq_prefix_def)

end

section \<open>Parsing\<close>

definition digit_val :: "char \<Rightarrow> nat option" where
  "digit_val c = (let n = (of_char c :: nat) in if 48 \<le> n \<and> n \<le> 57 then Some (n - 48) else None)"

definition hex_val :: "char \<Rightarrow> nat option" where
  "hex_val c = (let n = (of_char c :: nat) in
     if 48 \<le> n \<and> n \<le> 57 then Some (n - 48)
     else if 97 \<le> n \<and> n \<le> 102 then Some (n - 87)
     else if 65 \<le> n \<and> n \<le> 70 then Some (n - 55) else None)"

text \<open>
  \<^verbatim>\<open>parseIPv4Fields\<close>: the value and the number of digits of the current octet, and the octets
  already read.  An octet is non-empty, has no leading zero and is at most 255; there are four.
\<close>

fun ipv4_fields :: "string \<Rightarrow> nat \<Rightarrow> nat \<Rightarrow> nat list \<Rightarrow> nat list option" where
  "ipv4_fields [] val dl acc =
     (if length acc = 3 \<and> dl \<noteq> 0 then Some (acc @ [val]) else None)"
| "ipv4_fields (c # cs) val dl acc =
     (case digit_val c of
        Some d \<Rightarrow>
          if dl = 1 \<and> val = 0 then None
          else if 255 < val * 10 + d then None
          else ipv4_fields cs (val * 10 + d) (dl + 1) acc
      | None \<Rightarrow>
          if c = CHR ''.'' \<and> dl \<noteq> 0 \<and> length acc \<noteq> 3 then ipv4_fields cs 0 0 (acc @ [val])
          else None)"

definition be_num :: "nat list \<Rightarrow> int" where
  "be_num bs = foldl (\<lambda>n b. n * 256 + int b) 0 bs"

definition parse_ipv4 :: "string \<Rightarrow> addr option" where
  "parse_ipv4 s = map_option (\<lambda>fs. Addr4 (of_int (be_num fs))) (ipv4_fields s 0 0 [])"

text \<open>One group of hexadecimal digits: its value, its number of digits and the rest.\<close>

fun hex_group :: "string \<Rightarrow> nat \<Rightarrow> nat \<Rightarrow> nat \<times> nat \<times> string" where
  "hex_group [] acc off = (acc, off, [])"
| "hex_group (c # cs) acc off =
     (case hex_val c of None \<Rightarrow> (acc, off, c # cs)
      | Some d \<Rightarrow> hex_group cs (acc * 16 + d) (off + 1))"

lemma hex_group_length: "length (snd (snd (hex_group s a n))) \<le> length s"
  by (induction s arbitrary: a n) (auto split: option.splits intro: le_SucI)

lemma hex_group_progress: "fst (snd (hex_group s a n)) \<noteq> n \<Longrightarrow> length (snd (snd (hex_group s a n))) < length s"
  using hex_group_length by (cases s) (auto split: option.splits simp: less_Suc_eq_le)

text \<open>
  The loop of \<^verbatim>\<open>parseIPv6\<close> on the bytes read so far and the position of the ellipsis.  It ends
  with the bytes, the ellipsis and the rest of the input.
\<close>

function ipv6_loop :: "string \<Rightarrow> nat list \<Rightarrow> nat option \<Rightarrow> (nat list \<times> nat option \<times> string) option" where
  "ipv6_loop s bs ell =
     (if 16 \<le> length bs then Some (bs, ell, s)
      else case hex_group s 0 0 of (acc, off, rest) \<Rightarrow>
        if off = 0 \<or> 4 < off then None
        else if rest \<noteq> [] \<and> hd rest = CHR ''.'' then
          if ell = None \<and> length bs \<noteq> 12 \<or> 16 < length bs + 4 then None
          else map_option (\<lambda>fs. (bs @ fs, ell, [])) (ipv4_fields s 0 0 [])
        else
          let bs' = bs @ [acc div 256, acc mod 256] in
          if rest = [] then Some (bs', ell, [])
          else if hd rest \<noteq> CHR '':'' \<or> tl rest = [] then None
          else if hd (tl rest) = CHR '':'' then
            if ell \<noteq> None then None
            else if tl (tl rest) = [] then Some (bs', Some (length bs'), [])
            else ipv6_loop (tl (tl rest)) bs' (Some (length bs'))
          else ipv6_loop (tl rest) bs' ell)"
  by pat_completeness auto
termination
  by (relation "measure (\<lambda>(s, bs, ell). 16 - length bs)") auto

declare ipv6_loop.simps [simp del]

definition ipv6_expand :: "nat list \<times> nat option \<times> string \<Rightarrow> nat list option" where
  "ipv6_expand r =
     (case r of (bs, ell, rest) \<Rightarrow>
        if rest \<noteq> [] then None
        else if length bs < 16 then
          (case ell of None \<Rightarrow> None
           | Some e \<Rightarrow> Some (take e bs @ replicate (16 - length bs) 0 @ drop e bs))
        else if ell \<noteq> None then None else Some bs)"

definition parse_ipv6 :: "string \<Rightarrow> addr option" where
  "parse_ipv6 s =
     (let body = takeWhile (\<lambda>c. c \<noteq> CHR ''%'') s;
          after = dropWhile (\<lambda>c. c \<noteq> CHR ''%'') s;
          zone = tl after
      in if after \<noteq> [] \<and> zone = [] then None
         else if has_prefix body ''::'' then
           (if drop 2 body = [] then Some (Addr6 0 zone)
            else map_option (\<lambda>bs. Addr6 (of_int (be_num bs)) zone)
                   (Option.bind (ipv6_loop (drop 2 body) [] (Some 0)) ipv6_expand))
         else map_option (\<lambda>bs. Addr6 (of_int (be_num bs)) zone)
                (Option.bind (ipv6_loop body [] None) ipv6_expand))"

text \<open>\<^verbatim>\<open>netip.ParseAddr\<close> dispatches on the first of the three separators.\<close>

definition parse_addr :: "string \<Rightarrow> addr option" where
  "parse_addr s =
     (case find (\<lambda>c. c \<in> {CHR ''.'', CHR '':'', CHR ''%''}) s of
        Some c \<Rightarrow> if c = CHR ''.'' then parse_ipv4 s
                   else if c = CHR '':'' then parse_ipv6 s else None
      | None \<Rightarrow> None)"

fun decimal :: "string \<Rightarrow> nat \<Rightarrow> nat option" where
  "decimal [] acc = Some acc"
| "decimal (c # cs) acc =
     (case digit_val c of None \<Rightarrow> None | Some d \<Rightarrow> decimal cs (acc * 10 + d))"

text \<open>
  \<^verbatim>\<open>netip.ParsePrefix\<close>: the address before the last slash, without a zone, and the number of
  bits after it, without sign or leading zero.
\<close>

definition parse_prefix :: "string \<Rightarrow> prefix option" where
  "parse_prefix s =
     (let parts = split_on (CHR ''/'') s in
      if length parts < 2 then None
      else case parse_addr (join_with ''/'' (butlast parts)) of
        None \<Rightarrow> None
      | Some a \<Rightarrow>
          if addr_zone a \<noteq> [] then None
          else
            let bits = last parts in
            if bits = [] \<or> 1 < length bits \<and> digit_val (hd bits) \<in> {None, Some 0} then None
            else case decimal bits 0 of
              None \<Rightarrow> None
            | Some n \<Rightarrow> if bit_len a < n then None else Some (prefix_from a (int n)))"

text \<open>\<^verbatim>\<open>net.ParseMAC\<close>: 6, 8 or 20 bytes in colon, hyphen or dot notation.\<close>

definition hex2 :: "string \<Rightarrow> nat option" where
  "hex2 s = (case s of [a, b] \<Rightarrow>
       (case (hex_val a, hex_val b) of (Some x, Some y) \<Rightarrow> Some (x * 16 + y) | _ \<Rightarrow> None)
     | _ \<Rightarrow> None)"

definition hex4 :: "string \<Rightarrow> nat list option" where
  "hex4 s = (if length s \<noteq> 4 then None
     else case (hex2 (take 2 s), hex2 (drop 2 s)) of
       (Some x, Some y) \<Rightarrow> Some [x, y] | _ \<Rightarrow> None)"

fun all_some :: "'a option list \<Rightarrow> 'a list option" where
  "all_some [] = Some []"
| "all_some (None # xs) = None"
| "all_some (Some x # xs) = map_option ((#) x) (all_some xs)"

definition parse_mac :: "string \<Rightarrow> mac option" where
  "parse_mac s =
     (if length s < 14 then None
      else
        let sep = s ! 2;
            bytes = (if sep = CHR '':'' \<or> sep = CHR ''-'' then all_some (map hex2 (split_on sep s))
                     else if s ! 4 = CHR ''.'' then
                       map_option concat (all_some (map hex4 (split_on (CHR ''.'') s)))
                     else None)
        in case bytes of
             None \<Rightarrow> None
           | Some bs \<Rightarrow> if length bs \<in> {6, 8, 20} then Some (map of_nat bs) else None)"

text \<open>\<^verbatim>\<open>hex.DecodeString\<close>.\<close>

definition hex_bytes :: "string \<Rightarrow> nat list option" where
  "hex_bytes s =
     (if odd (length s) then None
      else all_some (map (\<lambda>i. hex2 [s ! (2 * i), s ! (2 * i + 1)]) [0..<length s div 2]))"

text \<open>The 16-byte form of an address, which \<^verbatim>\<open>net.ParseIP\<close> returns.\<close>

fun as16 :: "addr \<Rightarrow> addr" where
  "as16 (Addr4 w) = Addr6 (0xFFFF00000000 + ucast w) []"
| "as16 a = with_zone [] a"

definition net_ParseIP :: "string \<Rightarrow> addr option" where
  "net_ParseIP s =
     (case parse_addr s of None \<Rightarrow> None | Some ip \<Rightarrow> if addr_zone ip \<noteq> [] then None else Some (as16 ip))"

definition parse_uint :: "nat \<Rightarrow> string \<Rightarrow> nat option" where
  "parse_uint bits s =
     (if s = [] then None
      else case decimal s 0 of Some n \<Rightarrow> if n < 2 ^ bits then Some n else None | None \<Rightarrow> None)"

section \<open>Printing\<close>

definition digit_char :: "nat \<Rightarrow> char" where
  "digit_char n = (if n < 10 then char_of (48 + n) else char_of (87 + n))"

fun num_string :: "nat \<Rightarrow> nat \<Rightarrow> string" where
  "num_string base n =
     (if base < 2 \<or> n < base then [digit_char n]
      else num_string base (n div base) @ [digit_char (n mod base)])"

declare num_string.simps [simp del]

definition dec_int :: "int \<Rightarrow> string" where
  "dec_int i = (if i < 0 then ''-'' @ num_string 10 (nat (- i)) else num_string 10 (nat i))"

definition octets :: "nat \<Rightarrow> int \<Rightarrow> nat list" where
  "octets k n = map (\<lambda>i. nat (n div 256 ^ (k - 1 - i) mod 256)) [0..<k]"

definition ipv4_string :: "32 word \<Rightarrow> string" where
  "ipv4_string w = join_with ''.'' (map (num_string 10) (octets 4 (uint w)))"

definition groups16 :: "128 word \<Rightarrow> nat list" where
  "groups16 w = map (\<lambda>i. nat (uint w div 65536 ^ (7 - i) mod 65536)) [0..<8]"

text \<open>The first longest run of at least two zero groups, as a start and an end.\<close>

definition zero_run :: "nat list \<Rightarrow> nat \<Rightarrow> nat" where
  "zero_run gs i = length (takeWhile (\<lambda>g. g = 0) (drop i gs))"

definition best_run :: "nat list \<Rightarrow> (nat \<times> nat) option" where
  "best_run gs =
     fold (\<lambda>i best. let l = zero_run gs i in
             if 2 \<le> l \<and> (case best of None \<Rightarrow> True | Some (s, e) \<Rightarrow> e - s < l)
             then Some (i, i + l) else best) [0..<length gs] None"

definition ipv6_string :: "128 word \<Rightarrow> string \<Rightarrow> string" where
  "ipv6_string w z =
     (let gs = groups16 w;
          hex = map (num_string 16) gs;
          body = (if drop_bit 32 w = 0xffff then ''::ffff:'' @ ipv4_string (ucast w)
                  else case best_run gs of
                    None \<Rightarrow> join_with '':'' hex
                  | Some (s, e) \<Rightarrow> join_with '':'' (take s hex) @ ''::'' @ join_with '':'' (drop e hex))
      in if z = [] then body else body @ ''%'' @ z)"

fun addr_string :: "addr \<Rightarrow> string" where
  "addr_string ZeroAddr = ''invalid IP''"
| "addr_string (Addr4 w) = ipv4_string w"
| "addr_string (Addr6 w z) = ipv6_string w z"

definition prefix_string :: "prefix \<Rightarrow> string" where
  "prefix_string p =
     (if prefix_valid p then addr_string (pfx_addr p) @ ''/'' @ num_string 10 (nat (pfx_bits p))
      else ''invalid Prefix'')"

definition mac_string :: "mac \<Rightarrow> string" where
  "mac_string m =
     join_with '':'' (map (\<lambda>b. [digit_char (unat b div 16), digit_char (unat b mod 16)]) m)"

end
