(* ===== verification/Schedule.thy ===== *)
theory Schedule
  imports Prelude
begin

text \<open>
  Package \<^verbatim>\<open>internal/schedule\<close>: the weekly schedule with one range per day, its validation, its
  configuration forms (YAML and JSON) and the test whether an instant is inside it.

  Durations and instants are integers of nanoseconds (\<^verbatim>\<open>time.Duration\<close>, and the Unix time of a
  \<^verbatim>\<open>time.Time\<close>).  A location is its name and the lookup of the zone in force at a Unix second: the
  offset from UTC and the first and the first excluded second of that zone's period.  The civil date
  of an instant is its day number since 1 January 1970, which determines year, month and day.
  \<open>load_location\<close> stands for the time-zone database read by \<^verbatim>\<open>time.LoadLocation\<close>.
\<close>

section \<open>Data\<close>

type_synonym duration = int
type_synonym instant = int

definition second_ns :: int where "second_ns = 1000000000"
definition minute_ns :: int where "minute_ns = 60000000000"
definition hour_ns :: int where "hour_ns = 3600000000000"

definition maxDayRange :: duration where
  "maxDayRange = 24 * hour_ns"

lemmas duration_defs = second_ns_def minute_ns_def hour_ns_def maxDayRange_def

record location =
  loc_name :: string
  loc_lookup :: "int \<Rightarrow> int \<times> int \<times> int"

record day_range =
  dr_start :: duration
  dr_end :: duration

record weekly =
  w_location :: location
  w_days :: "day_range list"

definition empty_day :: day_range where
  "empty_day = \<lparr>dr_start = 0, dr_end = 0\<rparr>"

definition EmptyWeekly :: "location \<Rightarrow> weekly" where
  "EmptyWeekly local_loc = \<lparr>w_location = local_loc, w_days = replicate 7 empty_day\<rparr>"

definition FullWeekly :: "location \<Rightarrow> weekly" where
  "FullWeekly local_loc =
     (let fullDay = \<lparr>dr_start = 0, dr_end = maxDayRange\<rparr>
      in \<lparr>w_location = local_loc, w_days = replicate 7 fullDay\<rparr>)"

definition weekly_Clone :: "weekly option \<Rightarrow> weekly option" where
  "weekly_Clone w = map_option (\<lambda>w. \<lparr>w_location = w_location w, w_days = w_days w\<rparr>) w"

section \<open>Containment\<close>

definition dr_contains :: "day_range \<Rightarrow> duration \<Rightarrow> bool" where
  "dr_contains r offset \<longleftrightarrow> dr_start r \<le> offset \<and> offset < dr_end r"

definition zone_offset :: "location \<Rightarrow> int \<Rightarrow> int" where
  "zone_offset loc sec = fst (loc_lookup loc sec)"

text \<open>The day number and the weekday of an instant in a location; day 0 was a Thursday.\<close>

definition local_day :: "location \<Rightarrow> instant \<Rightarrow> int" where
  "local_day loc t = (t div second_ns + zone_offset loc (t div second_ns)) div 86400"

definition weekday :: "int \<Rightarrow> nat" where
  "weekday day = nat ((day + 4) mod 7)"

text \<open>
  \<^verbatim>\<open>time.Date\<close> at midnight of a day: it looks the zone up at the local reading, and again at the
  resulting UTC second when that falls outside the period of the zone found first.
\<close>

definition midnight :: "location \<Rightarrow> int \<Rightarrow> instant" where
  "midnight loc day =
     (let unix = day * 86400; (off, start, stop) = loc_lookup loc unix
      in if off = 0 then unix * second_ns
         else
           let utc = unix - off;
               off' = (if utc < start \<or> stop \<le> utc then zone_offset loc utc else off)
           in (unix - off') * second_ns)"

definition weekly_Contains :: "weekly \<Rightarrow> instant \<Rightarrow> bool" where
  "weekly_Contains w t =
     (let day = local_day (w_location w) t;
          dr = w_days w ! weekday day;
          offset = t - midnight (w_location w) day
      in dr_contains dr offset)"

section \<open>Validation\<close>

datatype day_error =
    StartNegative | EndNegative | StartNotBeforeEnd | StartTooLate | EndTooLate
  | StartNotRounded | EndNotRounded

definition truncate_to :: "duration \<Rightarrow> duration \<Rightarrow> duration" where
  "truncate_to d m = (if m \<le> 0 then d else d - go_rem d m)"

definition dr_validate :: "day_range \<Rightarrow> (day_error, unit) result" where
  "dr_validate r =
     (if r = empty_day then Inr ()
      else if dr_start r < 0 then Inl StartNegative
      else if dr_end r < 0 then Inl EndNegative
      else if dr_end r \<le> dr_start r then Inl StartNotBeforeEnd
      else if maxDayRange \<le> dr_start r then Inl StartTooLate
      else if maxDayRange < dr_end r then Inl EndTooLate
      else Inr ())"

definition weekly_validate :: "day_range \<Rightarrow> (day_error, unit) result" where
  "weekly_validate r =
     (case dr_validate r of
        Inl e \<Rightarrow> Inl e
      | Inr _ \<Rightarrow>
          if truncate_to (dr_start r) minute_ns \<noteq> dr_start r then Inl StartNotRounded
          else if truncate_to (dr_end r) minute_ns \<noteq> dr_end r then Inl EndNotRounded
          else Inr ())"

section \<open>Configuration forms\<close>

datatype schedule_error = BadTimeZone string | BadWeekday nat day_error

record day_config =
  dc_start :: duration
  dc_end :: duration

record weekly_config_yaml =
  wy_time_zone :: string
  wy_sunday :: day_config
  wy_monday :: day_config
  wy_tuesday :: day_config
  wy_wednesday :: day_config
  wy_thursday :: day_config
  wy_friday :: day_config
  wy_saturday :: day_config

record weekly_config_json =
  wj_sunday :: "day_config option"
  wj_monday :: "day_config option"
  wj_tuesday :: "day_config option"
  wj_wednesday :: "day_config option"
  wj_thursday :: "day_config option"
  wj_friday :: "day_config option"
  wj_saturday :: "day_config option"
  wj_time_zone :: string

text \<open>The loop over the days, from weekday \<open>i\<close> on, that stops at the first bad range.\<close>

fun validate_days :: "nat \<Rightarrow> day_range list \<Rightarrow> (schedule_error, day_range list) result" where
  "validate_days i [] = Inr []"
| "validate_days i (r # rs) =
     (case weekly_validate r of
        Inl e \<Rightarrow> Inl (BadWeekday i e)
      | Inr _ \<Rightarrow> (case validate_days (Suc i) rs of Inl e \<Rightarrow> Inl e | Inr ds \<Rightarrow> Inr (r # ds)))"

definition range_of_config :: "day_config \<Rightarrow> day_range" where
  "range_of_config d = \<lparr>dr_start = dc_start d, dr_end = dc_end d\<rparr>"

definition config_of_range :: "day_range \<Rightarrow> day_config" where
  "config_of_range r = \<lparr>dc_start = dr_start r, dc_end = dr_end r\<rparr>"

definition weekly_UnmarshalYAML ::
  "(string \<rightharpoonup> location) \<Rightarrow> weekly_config_yaml \<Rightarrow> (schedule_error, weekly) result" where
  "weekly_UnmarshalYAML load_location conf =
     (case load_location (wy_time_zone conf) of
        None \<Rightarrow> Inl (BadTimeZone (wy_time_zone conf))
      | Some loc \<Rightarrow>
          (let days = [wy_sunday conf, wy_monday conf, wy_tuesday conf, wy_wednesday conf,
                       wy_thursday conf, wy_friday conf, wy_saturday conf]
           in case validate_days 0 (map range_of_config days) of
                Inl e \<Rightarrow> Inl e
              | Inr ds \<Rightarrow> Inr \<lparr>w_location = loc, w_days = ds\<rparr>))"

definition range_of_json :: "day_config option \<Rightarrow> day_range" where
  "range_of_json d = (case d of None \<Rightarrow> empty_day | Some c \<Rightarrow> range_of_config c)"

definition weekly_UnmarshalJSON ::
  "(string \<rightharpoonup> location) \<Rightarrow> weekly_config_json \<Rightarrow> (schedule_error, weekly) result" where
  "weekly_UnmarshalJSON load_location conf =
     (case load_location (wj_time_zone conf) of
        None \<Rightarrow> Inl (BadTimeZone (wj_time_zone conf))
      | Some loc \<Rightarrow>
          (let days = [wj_sunday conf, wj_monday conf, wj_tuesday conf, wj_wednesday conf,
                       wj_thursday conf, wj_friday conf, wj_saturday conf]
           in case validate_days 0 (map range_of_json days) of
                Inl e \<Rightarrow> Inl e
              | Inr ds \<Rightarrow> Inr \<lparr>w_location = loc, w_days = ds\<rparr>))"

definition toDayConfigJSON :: "day_range \<Rightarrow> day_config option" where
  "toDayConfigJSON r = (if r = empty_day then None else Some (config_of_range r))"

definition weekly_MarshalJSON :: "weekly \<Rightarrow> weekly_config_json" where
  "weekly_MarshalJSON w =
     \<lparr>wj_sunday = toDayConfigJSON (w_days w ! 0), wj_monday = toDayConfigJSON (w_days w ! 1),
      wj_tuesday = toDayConfigJSON (w_days w ! 2), wj_wednesday = toDayConfigJSON (w_days w ! 3),
      wj_thursday = toDayConfigJSON (w_days w ! 4), wj_friday = toDayConfigJSON (w_days w ! 5),
      wj_saturday = toDayConfigJSON (w_days w ! 6), wj_time_zone = loc_name (w_location w)\<rparr>"

definition weekly_MarshalYAML :: "weekly \<Rightarrow> weekly_config_yaml" where
  "weekly_MarshalYAML w =
     \<lparr>wy_time_zone = loc_name (w_location w), wy_sunday = config_of_range (w_days w ! 0),
      wy_monday = config_of_range (w_days w ! 1), wy_tuesday = config_of_range (w_days w ! 2),
      wy_wednesday = config_of_range (w_days w ! 3), wy_thursday = config_of_range (w_days w ! 4),
      wy_friday = config_of_range (w_days w ! 5), wy_saturday = config_of_range (w_days w ! 6)\<rparr>"

section \<open>Well-formed schedules\<close>

text \<open>A range the code accepts: empty, or non-empty inside one day and on whole minutes.\<close>

definition day_ok :: "day_range \<Rightarrow> bool" where
  "day_ok r \<longleftrightarrow> r = empty_day \<or>
     0 \<le> dr_start r \<and> dr_start r < dr_end r \<and> dr_end r \<le> maxDayRange \<and>
     minute_ns dvd dr_start r \<and> minute_ns dvd dr_end r"

definition weekly_wf :: "weekly \<Rightarrow> bool" where
  "weekly_wf w \<longleftrightarrow> length (w_days w) = 7 \<and> list_all day_ok (w_days w)"

lemma truncate_to_id: "0 \<le> d \<Longrightarrow> truncate_to d minute_ns = d \<longleftrightarrow> minute_ns dvd d"
  by (auto simp: truncate_to_def minute_ns_def go_rem_nonneg dvd_eq_mod_eq_0)

lemma weekly_validate_iff: "weekly_validate r = Inr () \<longleftrightarrow> day_ok r"
proof -
  have "truncate_to 0 minute_ns = 0" by (simp add: truncate_to_def go_rem_def)
  then show ?thesis
    by (auto simp: weekly_validate_def dr_validate_def day_ok_def truncate_to_id empty_day_def
        split: if_splits)
qed

lemma validate_days_Inr: "validate_days i rs = Inr ds \<longleftrightarrow> ds = rs \<and> list_all day_ok rs"
proof (induction rs arbitrary: i ds)
  case (Cons r rs)
  show ?case
  proof (cases "weekly_validate r")
    case (Inl e)
    then have "\<not> day_ok r" using weekly_validate_iff [of r] by auto
    with Inl show ?thesis by simp
  next
    case (Inr u)
    then have "day_ok r" using weekly_validate_iff [of r] by simp
    with Inr Cons.IH [of "Suc i"] show ?thesis
      by (cases "validate_days (Suc i) rs") auto
  qed
qed auto

declare validate_days.simps [simp del]

lemma weekly_locations [simp]:
  "w_location (FullWeekly loc) = loc" "w_location (EmptyWeekly loc) = loc"
  by (simp_all add: FullWeekly_def EmptyWeekly_def Let_def)

lemma weekly_wf_Empty [simp]: "weekly_wf (EmptyWeekly loc)"
  by (simp add: weekly_wf_def EmptyWeekly_def day_ok_def list_all_iff)

lemma weekly_wf_Full [simp]: "weekly_wf (FullWeekly loc)"
  by (simp add: weekly_wf_def FullWeekly_def day_ok_def list_all_iff duration_defs)

lemma seven_nths: "length xs = 7 \<Longrightarrow> xs = [xs!0, xs!1, xs!2, xs!3, xs!4, xs!5, xs!6]"
  by (simp add: list_eq_iff_nth_eq less_Suc_eq numeral_eq_Suc)

lemma range_config_roundtrip [simp]: "range_of_config (config_of_range r) = r"
  by (simp add: range_of_config_def config_of_range_def)

lemma range_json_roundtrip [simp]: "range_of_json (toDayConfigJSON r) = r"
  by (simp add: range_of_json_def toDayConfigJSON_def)

lemma weekday_less: "weekday d < 7"
  by (simp add: weekday_def nat_less_iff)

section \<open>Locations with one zone\<close>

text \<open>
  A location with a fixed offset from UTC, such as UTC itself: its single zone covers all time.
  There an instant is inside a schedule exactly when its wall-clock time of day is.
\<close>

definition fixed_location :: "location \<Rightarrow> int \<Rightarrow> bool" where
  "fixed_location loc off \<longleftrightarrow>
     (\<forall>s. fst (loc_lookup loc s) = off \<and> fst (snd (loc_lookup loc s)) \<le> s - off \<and>
          s - off < snd (snd (loc_lookup loc s)))"

definition wall_clock :: "int \<Rightarrow> instant \<Rightarrow> duration" where
  "wall_clock off t = (t + off * second_ns) mod (24 * hour_ns)"

lemma fixed_midnight:
  assumes "fixed_location loc off"
  shows "midnight loc day = (day * 86400 - off) * second_ns"
proof -
  obtain a s e where l: "loc_lookup loc (day * 86400) = (a, s, e)" by (cases "loc_lookup loc (day * 86400)")
  with assms have "a = off" "s \<le> day * 86400 - off" "day * 86400 - off < e"
    unfolding fixed_location_def by (metis fst_conv snd_conv)+
  with l show ?thesis by (simp add: midnight_def Let_def)
qed

lemma fixed_offset_of_day:
  assumes "fixed_location loc off"
  shows "t - midnight loc (local_day loc t) = wall_clock off t"
    and "local_day loc t = (t + off * second_ns) div (24 * hour_ns)"
proof -
  have z: "zone_offset loc s = off" for s
    using assms by (simp add: zone_offset_def fixed_location_def)
  have d: "t div second_ns + off = (t + off * second_ns) div second_ns"
    by (simp add: second_ns_def)
  have day: "local_day loc t = (t + off * second_ns) div (24 * hour_ns)"
    unfolding local_day_def z d
    by (simp add: second_ns_def hour_ns_def div_mult2_eq [symmetric] zdiv_zmult2_eq [symmetric])
  show "local_day loc t = (t + off * second_ns) div (24 * hour_ns)" by (rule day)
  have "t - midnight loc (local_day loc t) =
      (t + off * second_ns) - (t + off * second_ns) div (24 * hour_ns) * (86400 * second_ns)"
    unfolding fixed_midnight [OF assms] day by (simp add: algebra_simps)
  also have "\<dots> = wall_clock off t"
    unfolding wall_clock_def by (simp add: second_ns_def hour_ns_def minus_div_mult_eq_mod)
  finally show "t - midnight loc (local_day loc t) = wall_clock off t" .
qed

lemma wall_clock_bounds: "0 \<le> wall_clock off t \<and> wall_clock off t < maxDayRange"
  by (simp add: wall_clock_def duration_defs)

section \<open>Properties\<close>

text \<open>Decoding a YAML schedule succeeds exactly when its time zone is known and every day range is
  empty or a non-empty range of whole minutes within the day; the decoded schedule then has the seven
  ranges of the configuration in order, so a schedule in the program is always well formed.\<close>

theorem unmarshal_yaml_iff:
  "weekly_UnmarshalYAML load_location conf = Inr w \<longleftrightarrow>
     load_location (wy_time_zone conf) = Some (w_location w) \<and>
     w_days w = map range_of_config [wy_sunday conf, wy_monday conf, wy_tuesday conf,
       wy_wednesday conf, wy_thursday conf, wy_friday conf, wy_saturday conf] \<and>
     weekly_wf w"
proof -
  let ?rs = "map range_of_config [wy_sunday conf, wy_monday conf, wy_tuesday conf,
       wy_wednesday conf, wy_thursday conf, wy_friday conf, wy_saturday conf]"
  have "weekly_UnmarshalYAML load_location conf = Inr w \<longleftrightarrow>
      load_location (wy_time_zone conf) = Some (w_location w) \<and>
      validate_days 0 ?rs = Inr (w_days w)"
    by (cases w) (auto simp: weekly_UnmarshalYAML_def Let_def split: option.splits sum.splits)
  also have "validate_days 0 ?rs = Inr (w_days w) \<longleftrightarrow> w_days w = ?rs \<and> weekly_wf w"
    by (auto simp: validate_days_Inr weekly_wf_def)
  finally show ?thesis by blast
qed

text \<open>A well-formed schedule survives being written to the configuration and read back, in the
  YAML and in the JSON form, given that the time-zone database knows its location by name.\<close>

theorem weekly_config_roundtrip:
  assumes "weekly_wf w" and "load_location (loc_name (w_location w)) = Some (w_location w)"
  shows "weekly_UnmarshalYAML load_location (weekly_MarshalYAML w) = Inr w \<and>
    weekly_UnmarshalJSON load_location (weekly_MarshalJSON w) = Inr w"
proof -
  have l: "length (w_days w) = 7" and ok: "list_all day_ok (w_days w)"
    using assms(1) by (simp_all add: weekly_wf_def)
  have v: "validate_days 0 [w_days w ! 0, w_days w ! 1, w_days w ! 2, w_days w ! 3,
      w_days w ! 4, w_days w ! 5, w_days w ! 6] = Inr (w_days w)"
    using ok seven_nths [OF l] by (simp add: validate_days_Inr)
  then show ?thesis
    using assms(2) by (simp add: weekly_UnmarshalYAML_def weekly_MarshalYAML_def
        weekly_UnmarshalJSON_def weekly_MarshalJSON_def)
qed

text \<open>C37: In a location with a fixed offset from UTC, an instant is inside a schedule exactly when its
  wall-clock time of day lies in the range of its weekday; in particular a full schedule contains
  every instant and an empty one none.\<close>

theorem weekly_contains_wall_clock:
  assumes "fixed_location (w_location w) off"
  shows "(weekly_Contains w t \<longleftrightarrow>
      (let dr = w_days w ! weekday ((t + off * second_ns) div (24 * hour_ns))
       in dr_start dr \<le> wall_clock off t \<and> wall_clock off t < dr_end dr)) \<and>
    weekly_Contains (FullWeekly (w_location w)) t \<and>
    \<not> weekly_Contains (EmptyWeekly (w_location w)) t"
proof -
  note day = fixed_offset_of_day [OF assms, of t]
  have eq: "weekly_Contains v t \<longleftrightarrow>
      dr_contains (w_days v ! weekday ((t + off * second_ns) div (24 * hour_ns))) (wall_clock off t)"
    if "w_location v = w_location w" for v
    unfolding weekly_Contains_def Let_def that day(1) by (simp only: day(2))
  show ?thesis
    using eq [of w] eq [of "FullWeekly (w_location w)"] eq [of "EmptyWeekly (w_location w)"]
      wall_clock_bounds [of off t] weekday_less
    by (simp add: FullWeekly_def EmptyWeekly_def Let_def dr_contains_def empty_day_def)
qed

text \<open>The zone of Greenwich, and one that leaves an offset of one hour at 01:00 UTC of day 0, so that
  its local day 0 lasts 25 hours: from 23:00 UTC of the day before to midnight UTC.\<close>

definition utc_location :: location where
  "utc_location = \<lparr>loc_name = ''UTC'', loc_lookup = (\<lambda>s. (0, s, s + 1))\<rparr>"

definition dst_location :: location where
  "dst_location = \<lparr>loc_name = ''DST'',
     loc_lookup = (\<lambda>s. if s < 3600 then (3600, - 31536000, 3600) else (0, 3600, 31536000))\<rparr>"

theorem weekly_config_roundtrip_witness:
  "weekly_UnmarshalYAML (\<lambda>_. Some utc_location) (weekly_MarshalYAML (FullWeekly utc_location)) =
     Inr (FullWeekly utc_location)"
  using weekly_config_roundtrip [of "FullWeekly utc_location" "\<lambda>_. Some utc_location"]
  by simp

theorem weekly_contains_witness:
  "fixed_location utc_location 0 \<and> weekly_Contains (FullWeekly utc_location) 1700000000123456789"
proof -
  have f: "fixed_location utc_location 0" by (simp add: fixed_location_def utc_location_def)
  with weekly_contains_wall_clock [of "FullWeekly utc_location" 0 1700000000123456789]
  show ?thesis unfolding weekly_locations by blast
qed

text \<open>On a day that daylight saving makes 25 hours long, the time since midnight passes 24 hours,
  the largest end a range may have: during the last hour of that day no well-formed schedule contains
  the instant, not even the full one, although it is still the day the range is for.\<close>

theorem dst_day_last_hour_uncovered:
  assumes "weekly_wf w" and "w_location w = dst_location"
    and "82800 * second_ns \<le> t" and "t < 86400 * second_ns"
  shows "local_day dst_location t = 0 \<and> \<not> weekly_Contains w t"
proof -
  have "82800 \<le> t div second_ns" "t div second_ns < 86400"
    using assms(3,4) by (auto simp: second_ns_def)
  then have day: "local_day dst_location t = 0"
    by (simp add: local_day_def zone_offset_def dst_location_def)
  have mid: "midnight dst_location 0 = - 3600 * second_ns"
    by (simp add: midnight_def dst_location_def)
  have late: "maxDayRange \<le> t - midnight dst_location 0"
    using assms(3) by (simp add: mid duration_defs)
  have "day_ok (w_days w ! weekday 0)"
    using assms(1) weekday_less [of 0] by (simp add: weekly_wf_def list_all_length)
  then have "dr_end (w_days w ! weekday 0) \<le> maxDayRange"
    by (auto simp: day_ok_def empty_day_def duration_defs)
  with late day show ?thesis by (simp add: weekly_Contains_def Let_def assms(2) dr_contains_def)
qed

theorem dst_day_witness:
  "weekly_wf (FullWeekly dst_location) \<and>
     \<not> weekly_Contains (FullWeekly dst_location) (83000 * second_ns)"
  using dst_day_last_hour_uncovered [of "FullWeekly dst_location" "83000 * second_ns"]
  by (simp add: second_ns_def)

end
