(* ===== verification/FilterTypes.thy ===== *)
theory FilterTypes
  imports NetIP Schedule
begin

text \<open>
  The data of package \<^verbatim>\<open>internal/filtering\<close> that the other packages share: reasons and results of
  a check, the filtering settings of a client, the blocked-services configuration with the functions
  on it (\<^verbatim>\<open>blocked.go\<close>), and the safe-search settings (\<^verbatim>\<open>safesearch.go\<close>).

  The rules and engines of the third-party module \<^verbatim>\<open>urlfilter\<close> are opaque to the program.  A network
  rule is its text, its list, its exception flag, its \<^verbatim>\<open>$dnsrewrite\<close> data and the function by which
  it matches a host; a matched result is the record of the rules that the engine found.
\<close>

section \<open>Record types and values\<close>

type_synonym qtype = nat
type_synonym list_id = int

definition TypeA :: qtype where "TypeA = 1"
definition TypeCNAME :: qtype where "TypeCNAME = 5"
definition TypeSOA :: qtype where "TypeSOA = 6"
definition TypePTR :: qtype where "TypePTR = 12"
definition TypeMX :: qtype where "TypeMX = 15"
definition TypeTXT :: qtype where "TypeTXT = 16"
definition TypeAAAA :: qtype where "TypeAAAA = 28"
definition TypeSRV :: qtype where "TypeSRV = 33"
definition TypeSVCB :: qtype where "TypeSVCB = 64"
definition TypeHTTPS :: qtype where "TypeHTTPS = 65"

lemmas qtype_defs = TypeA_def TypeCNAME_def TypeSOA_def TypePTR_def TypeMX_def TypeTXT_def
  TypeAAAA_def TypeSRV_def TypeSVCB_def TypeHTTPS_def

type_synonym rcode = nat

definition RcodeSuccess :: rcode where "RcodeSuccess = 0"
definition RcodeServerFailure :: rcode where "RcodeServerFailure = 2"
definition RcodeNameError :: rcode where "RcodeNameError = 3"
definition RcodeNotImplemented :: rcode where "RcodeNotImplemented = 4"
definition RcodeRefused :: rcode where "RcodeRefused = 5"

lemmas rcode_defs = RcodeSuccess_def RcodeServerFailure_def RcodeNameError_def
  RcodeNotImplemented_def RcodeRefused_def

text \<open>A \<^verbatim>\<open>rules.RRValue\<close> is one of the values that rewrite rules and the hosts file produce.\<close>

datatype rr_value =
    RVAddr addr
  | RVString string
  | RVMX nat string
  | RVSVCB nat string "(string \<times> string) list"
  | RVSRV nat nat nat string

section \<open>Reasons and results\<close>

datatype reason =
    NotFilteredNotFound | NotFilteredAllowList | NotFilteredError
  | FilteredBlockList | FilteredSafeBrowsing | FilteredParental | FilteredInvalid
  | FilteredSafeSearch | FilteredBlockedService
  | Rewritten | RewrittenAutoHosts | RewrittenRule

definition reason_Matched :: "reason \<Rightarrow> bool" where
  "reason_Matched r \<longleftrightarrow> r \<noteq> NotFilteredNotFound"

definition reason_In :: "reason \<Rightarrow> reason list \<Rightarrow> bool" where
  "reason_In r reasons \<longleftrightarrow> r \<in> set reasons"

fun reason_String :: "reason \<Rightarrow> string" where
  "reason_String NotFilteredNotFound = ''NotFilteredNotFound''"
| "reason_String NotFilteredAllowList = ''NotFilteredWhiteList''"
| "reason_String NotFilteredError = ''NotFilteredError''"
| "reason_String FilteredBlockList = ''FilteredBlackList''"
| "reason_String FilteredSafeBrowsing = ''FilteredSafeBrowsing''"
| "reason_String FilteredParental = ''FilteredParental''"
| "reason_String FilteredInvalid = ''FilteredInvalid''"
| "reason_String FilteredSafeSearch = ''FilteredSafeSearch''"
| "reason_String FilteredBlockedService = ''FilteredBlockedService''"
| "reason_String Rewritten = ''Rewrite''"
| "reason_String RewrittenAutoHosts = ''RewriteEtcHosts''"
| "reason_String RewrittenRule = ''RewriteRule''"

record result_rule =
  rr_text :: string
  rr_ip :: addr
  rr_list :: list_id

record dns_rewrite_result =
  drr_response :: "(qtype \<times> rr_value list) list option"
  drr_rcode :: rcode

record filter_result =
  fr_dnsrewrite :: "dns_rewrite_result option"
  fr_canon_name :: string
  fr_service :: string
  fr_ip_list :: "addr list"
  fr_rules :: "result_rule list"
  fr_reason :: reason
  fr_filtered :: bool

definition empty_result :: filter_result where
  "empty_result = \<lparr>fr_dnsrewrite = None, fr_canon_name = [], fr_service = [], fr_ip_list = [],
     fr_rules = [], fr_reason = NotFilteredNotFound, fr_filtered = False\<rparr>"

lemma empty_result_simps [simp]:
  "fr_dnsrewrite empty_result = None" "fr_canon_name empty_result = []"
  "fr_service empty_result = []" "fr_ip_list empty_result = []" "fr_rules empty_result = []"
  "fr_reason empty_result = NotFilteredNotFound" "\<not> fr_filtered empty_result"
  by (simp_all add: empty_result_def)

section \<open>Rules of package urlfilter\<close>

record dns_rewrite =
  dw_cname :: string
  dw_rcode :: rcode
  dw_rrtype :: qtype
  dw_value :: rr_value

record network_rule =
  nr_text :: string
  nr_list :: list_id
  nr_whitelist :: bool
  nr_rewrite :: dns_rewrite
  nr_match :: "string \<Rightarrow> bool"

record host_rule =
  hr_text :: string
  hr_list :: list_id
  hr_ip :: addr

text \<open>
  A \<^verbatim>\<open>urlfilter.DNSResult\<close>: the network rule found, the host rules by address family (\<^term>\<open>None\<close> for a
  nil slice) and the rules with \<^verbatim>\<open>$dnsrewrite\<close> data.
\<close>

record dns_result =
  res_network_rule :: "network_rule option"
  res_host_rules_v4 :: "host_rule list option"
  res_host_rules_v6 :: "host_rule list option"
  res_dns_rewrites :: "network_rule list"

record dns_request =
  req_hostname :: string
  req_client_tags :: "string list"
  req_client_ip :: addr
  req_client_name :: string
  req_dnstype :: qtype

type_synonym dns_engine = "dns_request \<Rightarrow> dns_result \<times> bool"

section \<open>Safe search and blocked services\<close>

type_synonym safe_search = "string \<Rightarrow> qtype \<Rightarrow> (string, filter_result) result"

record safe_search_config =
  ssc_enabled :: bool
  ssc_bing :: bool
  ssc_duckduckgo :: bool
  ssc_ecosia :: bool
  ssc_google :: bool
  ssc_pixabay :: bool
  ssc_yandex :: bool
  ssc_youtube :: bool

record service_entry =
  se_name :: string
  se_rules :: "network_rule list"

record blocked_services =
  bs_schedule :: "weekly option"
  bs_ids :: "string list"

definition blocked_services_Clone :: "blocked_services option \<Rightarrow> blocked_services option" where
  "blocked_services_Clone s =
     map_option (\<lambda>s. \<lparr>bs_schedule = weekly_Clone (bs_schedule s), bs_ids = bs_ids s\<rparr>) s"

lemma weekly_Clone_id [simp]: "weekly_Clone w = w"
  by (cases w) (simp_all add: weekly_Clone_def)

lemma blocked_services_Clone_id [simp]: "blocked_services_Clone s = s"
  by (cases s) (simp_all add: blocked_services_Clone_def)

text \<open>The map from service names to rules is a package variable of the program.\<close>

type_synonym service_rules = "(string, network_rule list) gomap"

fun blocked_services_Validate ::
  "service_rules \<Rightarrow> string list \<Rightarrow> (string, unit) result" where
  "blocked_services_Validate rules [] = Inr ()"
| "blocked_services_Validate rules (i # ids) =
     (case gm_get rules i of None \<Rightarrow> Inl i | Some _ \<Rightarrow> blocked_services_Validate rules ids)"

lemma blocked_services_Validate_ok:
  "blocked_services_Validate rules ids = Inr () \<longleftrightarrow> set ids \<subseteq> dom (gm_get rules)"
  by (induction ids) (auto split: option.splits)

section \<open>Client settings\<close>

record settings =
  st_client_name :: string
  st_client_ip :: addr
  st_client_tags :: "string list"
  st_services_rules :: "service_entry list"
  st_blocked_services :: "blocked_services option"
  st_protection :: bool
  st_filtering :: bool
  st_safesearch :: bool
  st_safebrowsing :: bool
  st_parental :: bool
  st_client_safesearch :: "safe_search option"

text \<open>\<^verbatim>\<open>ApplyBlockedServicesList\<close> skips the names that are not services.\<close>

fun ApplyBlockedServicesList :: "service_rules \<Rightarrow> string list \<Rightarrow> settings \<Rightarrow> settings" where
  "ApplyBlockedServicesList rules [] st = st"
| "ApplyBlockedServicesList rules (n # ns) st =
     (case gm_get rules n of
        None \<Rightarrow> ApplyBlockedServicesList rules ns st
      | Some rs \<Rightarrow> ApplyBlockedServicesList rules ns
          (st\<lparr>st_services_rules := st_services_rules st @ [\<lparr>se_name = n, se_rules = rs\<rparr>]\<rparr>))"

text \<open>
  \<^verbatim>\<open>ApplyBlockedServices\<close> replaces the service rules by those of the configured services, unless the
  pause schedule contains the current time.  \<^term>\<open>None\<close> is the nil dereference of a configuration
  without blocked services or without a schedule.
\<close>

definition ApplyBlockedServices ::
  "blocked_services option \<Rightarrow> service_rules \<Rightarrow> instant \<Rightarrow> settings \<Rightarrow> settings option" where
  "ApplyBlockedServices conf rules now st =
     (let st' = st\<lparr>st_services_rules := []\<rparr> in
      case conf of
        None \<Rightarrow> None
      | Some bsvc \<Rightarrow>
          (case bs_schedule bsvc of
             None \<Rightarrow> None
           | Some w \<Rightarrow>
               Some (if \<not> weekly_Contains w now then ApplyBlockedServicesList rules (bs_ids bsvc) st'
                     else st')))"

lemma ApplyBlockedServicesList_rules:
  "st_services_rules (ApplyBlockedServicesList rules ns st) =
     st_services_rules st @
       map (\<lambda>n. \<lparr>se_name = n, se_rules = the (gm_get rules n)\<rparr>) (filter (\<lambda>n. gm_get rules n \<noteq> None) ns)"
  by (induction ns arbitrary: st) (auto split: option.splits)

lemma ApplyBlockedServicesList_frame [simp]:
  "st_protection (ApplyBlockedServicesList rules ns st) = st_protection st"
  "st_filtering (ApplyBlockedServicesList rules ns st) = st_filtering st"
  "st_safesearch (ApplyBlockedServicesList rules ns st) = st_safesearch st"
  "st_safebrowsing (ApplyBlockedServicesList rules ns st) = st_safebrowsing st"
  "st_parental (ApplyBlockedServicesList rules ns st) = st_parental st"
  "st_client_name (ApplyBlockedServicesList rules ns st) = st_client_name st"
  "st_client_ip (ApplyBlockedServicesList rules ns st) = st_client_ip st"
  "st_client_tags (ApplyBlockedServicesList rules ns st) = st_client_tags st"
  "st_blocked_services (ApplyBlockedServicesList rules ns st) = st_blocked_services st"
  "st_client_safesearch (ApplyBlockedServicesList rules ns st) = st_client_safesearch st"
  by (induction ns arbitrary: st; auto split: option.splits)+

end
