(* ===== verification/Rewrites.thy ===== *)
theory Rewrites
  imports FilterTypes
begin

text \<open>
  Legacy DNS rewrites of package \<^verbatim>\<open>internal/filtering\<close>: the entries, their normalisation, matching
  and priority (\<^verbatim>\<open>rewrites.go\<close>), the resolution loop that follows canonical names
  (\<open>processRewrites\<close> of \<^verbatim>\<open>filtering.go\<close>) and the API handlers that edit the list
  (\<^verbatim>\<open>rewritehttp.go\<close>).  Requests arrive decoded; the handlers return the new list of entries.
\<close>

section \<open>Entries\<close>

record legacy_rewrite =
  rw_domain :: string
  rw_answer :: string
  rw_ip :: addr
  rw_type :: qtype

definition rw_equal :: "legacy_rewrite \<Rightarrow> legacy_rewrite \<Rightarrow> bool" where
  "rw_equal rw other \<longleftrightarrow> rw_domain rw = rw_domain other \<and> rw_answer rw = rw_answer other"

definition matchesQType :: "legacy_rewrite \<Rightarrow> qtype \<Rightarrow> bool" where
  "matchesQType rw qt \<longleftrightarrow>
     (if rw_type rw = TypeCNAME then True
      else if qt \<noteq> TypeA \<and> qt \<noteq> TypeAAAA then False
      else rw_type rw = qt \<or> rw_ip rw = ZeroAddr)"

definition rw_normalize :: "legacy_rewrite option \<Rightarrow> (string, legacy_rewrite) result" where
  "rw_normalize rwo =
     (case rwo of
        None \<Rightarrow> Inl ''nil rewrite entry''
      | Some rw0 \<Rightarrow>
          (let rw = rw0\<lparr>rw_domain := to_lower (rw_domain rw0)\<rparr> in
           if rw_answer rw = ''AAAA'' then Inr (rw\<lparr>rw_ip := ZeroAddr, rw_type := TypeAAAA\<rparr>)
           else if rw_answer rw = ''A'' then Inr (rw\<lparr>rw_ip := ZeroAddr, rw_type := TypeA\<rparr>)
           else case parse_addr (rw_answer rw) of
                  None \<Rightarrow> Inr (rw\<lparr>rw_type := TypeCNAME\<rparr>)
                | Some ip \<Rightarrow>
                    Inr (rw\<lparr>rw_ip := ip, rw_type := (if is4 ip then TypeA else TypeAAAA)\<rparr>)))"

definition isWildcard :: "string \<Rightarrow> bool" where
  "isWildcard pat \<longleftrightarrow> 1 < length pat \<and> pat ! 0 = CHR ''*'' \<and> pat ! 1 = CHR ''.''"

definition matchDomainWildcard :: "string \<Rightarrow> string \<Rightarrow> bool" where
  "matchDomainWildcard host wildcard \<longleftrightarrow> isWildcard wildcard \<and> has_suffix host (tl wildcard)"

definition rw_Compare :: "legacy_rewrite \<Rightarrow> legacy_rewrite \<Rightarrow> int" where
  "rw_Compare rw b =
     (if rw_type rw = TypeCNAME \<and> rw_type b \<noteq> TypeCNAME then - 1
      else if rw_type rw \<noteq> TypeCNAME \<and> rw_type b = TypeCNAME then 1
      else
        let aIsWld = isWildcard (rw_domain rw); bIsWld = isWildcard (rw_domain b) in
        if aIsWld = bIsWld then int (length (rw_domain b)) - int (length (rw_domain rw))
        else if aIsWld then 1 else - 1)"

text \<open>The loop of \<^verbatim>\<open>prepareRewrites\<close> over the entries, from index \<open>i\<close> on.\<close>

fun prepareRewrites :: "nat \<Rightarrow> legacy_rewrite option list \<Rightarrow> (nat \<times> string, legacy_rewrite list) result" where
  "prepareRewrites i [] = Inr []"
| "prepareRewrites i (r # rs) =
     (case rw_normalize r of
        Inl e \<Rightarrow> Inl (i, e)
      | Inr rw \<Rightarrow> (case prepareRewrites (Suc i) rs of Inl e \<Rightarrow> Inl e | Inr rws \<Rightarrow> Inr (rw # rws)))"

section \<open>Finding rewrites\<close>

definition rw_matches :: "string \<Rightarrow> legacy_rewrite \<Rightarrow> bool" where
  "rw_matches host e \<longleftrightarrow> rw_domain e = host \<or> matchDomainWildcard host (rw_domain e)"

text \<open>The loop that cuts the sorted slice at its first wildcard, keeping at least one entry.\<close>

definition cut_wildcards :: "legacy_rewrite list \<Rightarrow> legacy_rewrite list" where
  "cut_wildcards rws =
     (let i = length (takeWhile (\<lambda>r. \<not> isWildcard (rw_domain r)) rws)
      in if i < length rws then take (max 1 i) rws else rws)"

definition findRewrites ::
  "legacy_rewrite list \<Rightarrow> string \<Rightarrow> qtype \<Rightarrow> legacy_rewrite list \<times> bool" where
  "findRewrites entries host qtype =
     (let hits = filter (rw_matches host) entries;
          rewrites = filter (\<lambda>e. matchesQType e qtype) hits;
          matched = (hits \<noteq> [])
      in if rewrites = [] then ([], matched)
         else (cut_wildcards (sort_cmp rw_Compare rewrites), matched))"

fun setRewriteResult :: "filter_result \<Rightarrow> legacy_rewrite list \<Rightarrow> qtype \<Rightarrow> filter_result" where
  "setRewriteResult res [] qtype = res"
| "setRewriteResult res (rw # rws) qtype =
     (if rw_type rw = qtype \<and> (qtype = TypeA \<or> qtype = TypeAAAA) then
        if rw_ip rw = ZeroAddr then res\<lparr>fr_reason := NotFilteredNotFound\<rparr>
        else setRewriteResult (res\<lparr>fr_ip_list := fr_ip_list res @ [rw_ip rw]\<rparr>) rws qtype
      else setRewriteResult res rws qtype)"

definition cloneRewrites :: "legacy_rewrite list \<Rightarrow> legacy_rewrite list" where
  "cloneRewrites entries =
     map (\<lambda>rw. \<lparr>rw_domain = rw_domain rw, rw_answer = rw_answer rw, rw_ip = rw_ip rw,
                 rw_type = rw_type rw\<rparr>) entries"

lemma set_sort_cmp_any: "set (sort_cmp cmp xs) = set xs"
proof (induction xs)
  case (Cons x xs)
  have "set (insert_cmp cmp x ys) = insert x (set ys)" for ys by (induction ys) auto
  with Cons show ?case by simp
qed simp

lemma cut_wildcards_subset: "set (cut_wildcards rws) \<subseteq> set rws"
  by (auto simp: cut_wildcards_def Let_def dest: in_set_takeD split: if_splits)

lemma findRewrites_subset:
  "r \<in> set (fst (findRewrites entries host qtype)) \<Longrightarrow>
     r \<in> set entries \<and> rw_matches host r \<and> matchesQType r qtype"
  by (auto simp: findRewrites_def Let_def set_sort_cmp_any dest!: subsetD [OF cut_wildcards_subset]
      split: if_splits)

section \<open>Following canonical names\<close>

text \<open>
  The outcomes of the loop of \<^verbatim>\<open>processRewrites\<close>: the early return of an unfiltered result, the
  early return on a loop of names with the last canonical name, and the normal end with the name,
  the canonical name and the rewrites found last.
\<close>

datatype rewrite_outcome =
    RwUnfiltered
  | RwLoop string
  | RwEnd string "legacy_rewrite list"

function rewrite_loop ::
  "legacy_rewrite list \<Rightarrow> qtype \<Rightarrow> string \<Rightarrow> string \<Rightarrow> string list \<Rightarrow> string \<Rightarrow> rewrite_outcome" where
  "rewrite_loop entries qtype origHost host cnames canon =
     (case findRewrites entries host qtype of (rws, matched) \<Rightarrow>
      if matched \<and> rws \<noteq> [] \<and> rw_type (hd rws) = TypeCNAME then
        let rwPat = rw_domain (hd rws); rwAns = rw_answer (hd rws) in
        if origHost = rwAns \<or> rwPat = rwAns then RwUnfiltered
        else if host = rwAns \<and> isWildcard rwPat then RwEnd host rws
        else if rwAns \<in> set cnames then RwLoop canon
        else rewrite_loop entries qtype origHost rwAns (rwAns # cnames) rwAns
      else RwEnd canon rws)"
  by pat_completeness auto
termination
proof (relation "measure (\<lambda>(entries, qtype, orig, host, cnames, canon).
    card (rw_answer ` set entries - set cnames))", goal_cases)
  case (2 entries qtype origHost host cnames canon rws matched rwPat rwAns)
  then have "hd rws \<in> set entries"
    using findRewrites_subset [of "hd rws" entries host qtype]
    by (cases "findRewrites entries host qtype") auto
  with 2 have "rwAns \<in> rw_answer ` set entries - set cnames" by auto
  then have "rw_answer ` set entries - set (rwAns # cnames) \<subset> rw_answer ` set entries - set cnames"
    by auto
  then show ?case by (auto intro: psubset_card_mono)
qed simp

declare rewrite_loop.simps [simp del]

definition processRewrites :: "legacy_rewrite list \<Rightarrow> string \<Rightarrow> qtype \<Rightarrow> filter_result" where
  "processRewrites entries host qtype =
     (if \<not> snd (findRewrites entries host qtype) then empty_result
      else
        let res = empty_result\<lparr>fr_reason := Rewritten\<rparr> in
        case rewrite_loop entries qtype host host [] [] of
          RwUnfiltered \<Rightarrow> empty_result
        | RwLoop canon \<Rightarrow> res\<lparr>fr_canon_name := canon\<rparr>
        | RwEnd canon rewrites \<Rightarrow> setRewriteResult (res\<lparr>fr_canon_name := canon\<rparr>) rewrites qtype)"

section \<open>Handlers\<close>

record rewrite_json =
  rj_domain :: string
  rj_answer :: string

definition rewrite_of_json :: "rewrite_json \<Rightarrow> legacy_rewrite" where
  "rewrite_of_json j =
     \<lparr>rw_domain = rj_domain j, rw_answer = rj_answer j, rw_ip = ZeroAddr, rw_type = 0\<rparr>"

definition handleRewriteList :: "legacy_rewrite list \<Rightarrow> rewrite_json list" where
  "handleRewriteList entries =
     map (\<lambda>e. \<lparr>rj_domain = rw_domain e, rj_answer = rw_answer e\<rparr>) entries"

definition handleRewriteAdd ::
  "rewrite_json \<Rightarrow> legacy_rewrite list \<Rightarrow> (string, legacy_rewrite list) result" where
  "handleRewriteAdd j entries =
     (case rw_normalize (Some (rewrite_of_json j)) of
        Inl e \<Rightarrow> Inl e
      | Inr rw \<Rightarrow> Inr (entries @ [rw]))"

definition handleRewriteDelete :: "rewrite_json \<Rightarrow> legacy_rewrite list \<Rightarrow> legacy_rewrite list" where
  "handleRewriteDelete j entries =
     (let entDel = rewrite_of_json j in filter (\<lambda>ent. \<not> rw_equal ent entDel) entries)"

definition handleRewriteUpdate ::
  "rewrite_json \<Rightarrow> rewrite_json \<Rightarrow> legacy_rewrite list \<Rightarrow> (string, legacy_rewrite list) result" where
  "handleRewriteUpdate target update entries =
     (let rwDel = rewrite_of_json target in
      case rw_normalize (Some (rewrite_of_json update)) of
        Inl e \<Rightarrow> Inl e
      | Inr rwAdd \<Rightarrow>
          (let index = length (takeWhile (\<lambda>e. \<not> rw_equal rwDel e) entries) in
           if index = length entries then Inl ''target rule not found''
           else Inr (entries[index := rwAdd])))"

section \<open>Priorities of the entries found\<close>

interpretation rwcmp: preorder_cmp rw_Compare
proof
  fix x y z :: legacy_rewrite
  show "rw_Compare x y \<le> 0 \<or> rw_Compare y x \<le> 0"
    by (auto simp: rw_Compare_def Let_def)
  show "rw_Compare x y \<le> 0 \<Longrightarrow> rw_Compare y z \<le> 0 \<Longrightarrow> rw_Compare x z \<le> 0"
    by (auto simp: rw_Compare_def Let_def split: if_splits)
qed

abbreviation rw_candidate :: "string \<Rightarrow> qtype \<Rightarrow> legacy_rewrite \<Rightarrow> bool" where
  "rw_candidate host qtype e \<equiv> rw_matches host e \<and> matchesQType e qtype"

lemma findRewrites_matched:
  "snd (findRewrites entries host qtype) \<longleftrightarrow> (\<exists>e \<in> set entries. rw_matches host e)"
  by (auto simp: findRewrites_def Let_def filter_empty_conv)

lemma cut_wildcards_Nil [simp]: "cut_wildcards [] = []"
  by (simp add: cut_wildcards_def)

lemma cut_wildcards_Cons: "cut_wildcards (r # rws) = r # (if isWildcard (rw_domain r) then [] else
    takeWhile (\<lambda>r. \<not> isWildcard (rw_domain r)) rws)"
proof -
  let ?p = "\<lambda>r. \<not> isWildcard (rw_domain r)"
  have "takeWhile ?p rws = rws" if "\<not> length (takeWhile ?p rws) < length rws"
    using that takeWhile_eq_take [of ?p rws] length_takeWhile_le [of ?p rws] by simp
  then show ?thesis
    by (auto simp: cut_wildcards_def Let_def simp flip: takeWhile_eq_take intro: sym)
qed

lemma cut_wildcards_exact: "\<forall>r \<in> set rws. \<not> isWildcard (rw_domain r) \<Longrightarrow> cut_wildcards rws = rws"
  by (cases rws) (auto simp: cut_wildcards_Cons takeWhile_eq_all_conv)

lemma findRewrites_eq:
  "fst (findRewrites entries host qtype) =
     cut_wildcards (sort_cmp rw_Compare (filter (rw_candidate host qtype) entries))"
  by (simp add: findRewrites_def Let_def cut_wildcards_def conj_commute)

lemma findRewrites_hd_least:
  assumes "e \<in> set entries" "rw_candidate host qtype e"
  shows "fst (findRewrites entries host qtype) \<noteq> [] \<and>
    rw_Compare (hd (fst (findRewrites entries host qtype))) e \<le> 0"
proof -
  let ?c = "filter (rw_candidate host qtype) entries"
  let ?s = "sort_cmp rw_Compare ?c"
  have e: "e \<in> set ?s" using assms by (simp only: rwcmp.set_sort_cmp) simp
  then obtain r rs where s: "?s = r # rs" by (cases ?s) auto
  have "cmp_le rw_Compare r x" if "x \<in> set rs" for x
    using rwcmp.sorted_sort_cmp [of ?c] that unfolding s by simp
  with e have "rw_Compare r e \<le> 0"
    using rwcmp.cmp_total [of r r] by (auto simp: s cmp_le_def)
  then show ?thesis unfolding findRewrites_eq s by (simp add: cut_wildcards_Cons)
qed

lemma findRewrites_wildcard_single:
  assumes "r \<in> set (fst (findRewrites entries host qtype))" "isWildcard (rw_domain r)"
  shows "fst (findRewrites entries host qtype) = [r]"
proof -
  let ?s = "sort_cmp rw_Compare (filter (rw_candidate host qtype) entries)"
  show ?thesis
    using assms unfolding findRewrites_eq
    by (cases ?s) (auto simp: cut_wildcards_Cons dest: set_takeWhileD split: if_splits)
qed



text \<open>A wildcard CNAME entry hides every exact address entry for the same name: if no exact
  CNAME entry matches, the only rewrite found is a wildcard one.\<close>

theorem wildcard_cname_beats_exact:
  assumes "e \<in> set entries" "rw_matches host e" "rw_type e = TypeCNAME"
    and "\<forall>x \<in> set entries. rw_type x = TypeCNAME \<and> rw_matches host x \<longrightarrow> isWildcard (rw_domain x)"
  shows "\<exists>w. fst (findRewrites entries host qtype) = [w] \<and> isWildcard (rw_domain w) \<and>
    rw_type w = TypeCNAME"
proof -
  let ?found = "fst (findRewrites entries host qtype)"
  have "rw_candidate host qtype e" using assms(2,3) by (simp add: matchesQType_def)
  from findRewrites_hd_least [OF assms(1) this]
  have "?found \<noteq> []" and le: "rw_Compare (hd ?found) e \<le> 0" by auto
  from le assms(3) have cn: "rw_type (hd ?found) = TypeCNAME"
    by (auto simp: rw_Compare_def split: if_splits)
  have "hd ?found \<in> set ?found" using \<open>?found \<noteq> []\<close> by simp
  with cn assms(4) have wl: "isWildcard (rw_domain (hd ?found))"
    using findRewrites_subset by blast
  from findRewrites_wildcard_single [OF \<open>hd ?found \<in> set ?found\<close> this] cn wl show ?thesis by auto
qed

theorem wildcard_cname_beats_exact_witness:
  "\<exists>w. fst (findRewrites [\<lparr>rw_domain = ''a.b'', rw_answer = ''1.2.3.4'', rw_ip = Addr4 0x01020304, rw_type = 1\<rparr>,
      \<lparr>rw_domain = ''*.b'', rw_answer = ''c'', rw_ip = ZeroAddr, rw_type = 5\<rparr>] ''a.b'' 1) = [w] \<and>
    isWildcard (rw_domain w) \<and> rw_type w = TypeCNAME"
proof (rule wildcard_cname_beats_exact)
  let ?w = "\<lparr>rw_domain = ''*.b'', rw_answer = ''c'', rw_ip = ZeroAddr, rw_type = 5\<rparr>"
  show "?w \<in> set [\<lparr>rw_domain = ''a.b'', rw_answer = ''1.2.3.4'', rw_ip = Addr4 0x01020304, rw_type = 1\<rparr>, ?w]"
    by simp
qed (simp_all add: rw_matches_def matchDomainWildcard_def isWildcard_def has_suffix_def qtype_defs)

section \<open>The resolution loop\<close>

text \<open>One step from a name to the answer of the CNAME entry found first for it.\<close>

inductive cname_step :: "legacy_rewrite list \<Rightarrow> qtype \<Rightarrow> string \<Rightarrow> string \<Rightarrow> bool"
  for entries qtype where
  cname_stepI: "fst (findRewrites entries host qtype) = rw # rws \<Longrightarrow> rw_type rw = TypeCNAME \<Longrightarrow>
    cname_step entries qtype host (rw_answer rw)"

lemma rewrite_loop_reach:
  "(\<forall>h rws. rewrite_loop entries qtype orig host cnames canon = RwEnd h rws \<longrightarrow>
      (\<exists>g. (cname_step entries qtype)\<^sup>*\<^sup>* host g \<and> (h = g \<or> h = canon \<and> g = host) \<and>
           rws = fst (findRewrites entries g qtype))) \<and>
   (\<forall>h. rewrite_loop entries qtype orig host cnames canon = RwLoop h \<longrightarrow>
      h = canon \<or> (cname_step entries qtype)\<^sup>*\<^sup>* host h)"
proof (induction entries qtype orig host cnames canon rule: rewrite_loop.induct)
  case (1 entries qtype orig host cnames canon)
  obtain rws m where f: "findRewrites entries host qtype = (rws, m)" by force
  show ?case
  proof (cases "m \<and> rws \<noteq> [] \<and> rw_type (hd rws) = TypeCNAME")
    case False
    then show ?thesis by (subst (1 2) rewrite_loop.simps) (auto simp: f)
  next
    case True
    then have st: "cname_step entries qtype host (rw_answer (hd rws))"
      using cname_stepI [of entries host qtype "hd rws" "tl rws"] f by simp
    show ?thesis
      using True 1 [OF f [symmetric] True refl refl] st f
      by (subst (1 2) rewrite_loop.simps)
        (auto simp: Let_def intro: converse_rtranclp_into_rtranclp)
  qed
qed

lemma setRewriteResult_frame [simp]:
  "fr_canon_name (setRewriteResult res rws qtype) = fr_canon_name res"
  by (induction res rws qtype rule: setRewriteResult.induct) auto

lemma setRewriteResult_ips:
  "set (fr_ip_list (setRewriteResult res rws qtype)) \<subseteq>
     set (fr_ip_list res) \<union> rw_ip ` {r \<in> set rws. rw_type r = qtype \<and> rw_ip r \<noteq> ZeroAddr}"
  by (induction res rws qtype rule: setRewriteResult.induct) auto

lemma setRewriteResult_all:
  assumes "qtype = TypeA \<or> qtype = TypeAAAA" "\<forall>r \<in> set rws. rw_type r = qtype \<longrightarrow> rw_ip r \<noteq> ZeroAddr"
  shows "setRewriteResult res rws qtype =
    res\<lparr>fr_ip_list := fr_ip_list res @ map rw_ip (filter (\<lambda>r. rw_type r = qtype) rws)\<rparr>"
  using assms by (induction res rws qtype rule: setRewriteResult.induct) auto

lemma setRewriteResult_exception:
  assumes "qtype = TypeA \<or> qtype = TypeAAAA" "r \<in> set rws" "rw_type r = qtype" "rw_ip r = ZeroAddr"
  shows "fr_reason (setRewriteResult res rws qtype) = NotFilteredNotFound"
  using assms by (induction res rws qtype rule: setRewriteResult.induct) auto


abbreviation rw_example :: "legacy_rewrite list" where
  "rw_example \<equiv>
     [\<lparr>rw_domain = ''a'', rw_answer = ''b'', rw_ip = ZeroAddr, rw_type = 5\<rparr>,
      \<lparr>rw_domain = ''b'', rw_answer = ''1.2.3.4'', rw_ip = Addr4 0x01020304, rw_type = 1\<rparr>]"

lemmas rw_eval = processRewrites_def findRewrites_def rewrite_loop.simps rw_matches_def
  matchDomainWildcard_def isWildcard_def matchesQType_def qtype_defs cut_wildcards_def
  rw_Compare_def Let_def empty_result_def has_suffix_def


text \<open>For a name that only exact entries match, and none of them a CNAME, an A or AAAA question
  is answered by the addresses of all its entries of that type, unless one of them is the exception
  that lets the question through to the upstream.\<close>

theorem processRewrites_addresses:
  assumes "qtype = TypeA \<or> qtype = TypeAAAA"
    and "\<exists>e \<in> set entries. rw_matches host e"
    and "\<forall>e \<in> set entries. rw_matches host e \<longrightarrow>
           rw_type e \<noteq> TypeCNAME \<and> \<not> isWildcard (rw_domain e)"
  shows "let res = processRewrites entries host qtype;
             own = filter (\<lambda>e. rw_matches host e \<and> rw_type e = qtype) entries
         in if \<exists>e \<in> set own. rw_ip e = ZeroAddr then fr_reason res = NotFilteredNotFound
            else fr_reason res = Rewritten \<and> fr_canon_name res = [] \<and>
                 set (fr_ip_list res) = rw_ip ` set own"
proof -
  let ?c = "filter (rw_candidate host qtype) entries"
  let ?found = "fst (findRewrites entries host qtype)"
  let ?own = "filter (\<lambda>e. rw_matches host e \<and> rw_type e = qtype) entries"
  have found: "?found = sort_cmp rw_Compare ?c"
    unfolding findRewrites_eq
    by (rule cut_wildcards_exact) (use assms(3) in \<open>auto simp: rwcmp.set_sort_cmp\<close>)
  then have set_found: "set ?found = set ?c" by (simp only: rwcmp.set_sort_cmp)
  have own: "{r \<in> set ?found. rw_type r = qtype} = set ?own"
    using assms(1) unfolding set_found by (auto simp: matchesQType_def)
  have "\<not> (?found \<noteq> [] \<and> rw_type (hd ?found) = TypeCNAME)"
    using assms(3) set_found hd_in_set [of ?found] by fastforce
  then have "rewrite_loop entries qtype host host [] [] = RwEnd [] ?found"
    by (subst rewrite_loop.simps) (auto simp: case_prod_beta)
  then have res: "processRewrites entries host qtype =
      setRewriteResult (empty_result\<lparr>fr_reason := Rewritten, fr_canon_name := []\<rparr>) ?found qtype"
    using assms(2) by (simp add: processRewrites_def findRewrites_matched Let_def)
  show ?thesis
  proof (cases "\<exists>e \<in> set ?own. rw_ip e = ZeroAddr")
    case True
    then obtain e where "e \<in> set ?found" "rw_type e = qtype" "rw_ip e = ZeroAddr"
      using own by blast
    from setRewriteResult_exception [OF assms(1) this] True show ?thesis
      unfolding Let_def res by simp
  next
    case False
    then have "\<forall>r \<in> set ?found. rw_type r = qtype \<longrightarrow> rw_ip r \<noteq> ZeroAddr" using own by blast
    from setRewriteResult_all [OF assms(1) this] False own [symmetric] show ?thesis
      unfolding Let_def res by (auto simp: image_iff)
  qed
qed

theorem processRewrites_addresses_witness:
  "fr_reason (processRewrites rw_example ''b'' 1) = Rewritten \<and>
   set (fr_ip_list (processRewrites rw_example ''b'' 1)) = {Addr4 0x01020304}"
  using processRewrites_addresses [of 1 rw_example "''b''"]
  by (simp add: rw_matches_def matchDomainWildcard_def isWildcard_def qtype_defs Let_def)

section \<open>Editing the list\<close>

text \<open>Deleting an entry through the API with the same domain and answer it was added with removes
  it from the list exactly when the domain was spelt in lower case; otherwise the new entry survives.\<close>

theorem rewrite_add_delete:
  assumes "handleRewriteAdd j entries = Inr entries'"
  shows "if rj_domain j = to_lower (rj_domain j)
    then handleRewriteDelete j entries' = handleRewriteDelete j entries
    else handleRewriteDelete j entries' = handleRewriteDelete j entries @ [last entries'] \<and>
         length entries' = Suc (length entries)"
proof -
  from assms obtain rw where rw: "rw_normalize (Some (rewrite_of_json j)) = Inr rw"
    "entries' = entries @ [rw]"
    by (auto simp: handleRewriteAdd_def split: sum.splits)
  from rw(1) have "rw_domain rw = to_lower (rj_domain j) \<and> rw_answer rw = rj_answer j"
    by (auto simp: rw_normalize_def rewrite_of_json_def Let_def split: if_splits option.splits)
  then show ?thesis
    by (auto simp: rw(2) handleRewriteDelete_def rw_equal_def rewrite_of_json_def)
qed

theorem rewrite_add_delete_witness:
  "handleRewriteDelete \<lparr>rj_domain = ''Ab'', rj_answer = ''A''\<rparr>
     [\<lparr>rw_domain = ''ab'', rw_answer = ''A'', rw_ip = ZeroAddr, rw_type = 1\<rparr>] =
   [\<lparr>rw_domain = ''ab'', rw_answer = ''A'', rw_ip = ZeroAddr, rw_type = 1\<rparr>]"
proof -
  let ?j = "\<lparr>rj_domain = ''Ab'', rj_answer = ''A''\<rparr>"
  let ?rw = "\<lparr>rw_domain = ''ab'', rw_answer = ''A'', rw_ip = ZeroAddr, rw_type = 1\<rparr>"
  have "handleRewriteAdd ?j [] = Inr [?rw]"
    by code_simp
  moreover have "rj_domain ?j \<noteq> to_lower (rj_domain ?j)" "handleRewriteDelete ?j [] = []" by code_simp+
  ultimately show ?thesis using rewrite_add_delete [of ?j "[]" "[?rw]"] by simp
qed

end
