(* ===== verification/Filtering.thy ===== *)
theory Filtering
  imports Rewrites
begin

text \<open>
  The filter of package \<^verbatim>\<open>internal/filtering\<close>: its configuration and state, the checks of a host
  name in the order in which \<^verbatim>\<open>New\<close> registers them, and their composition \<open>CheckHost\<close>
  (\<^verbatim>\<open>filtering.go\<close>), with the hosts-file check (\<^verbatim>\<open>hosts.go\<close>), the \<^verbatim>\<open>$dnsrewrite\<close> rules
  (\<^verbatim>\<open>dnsrewrite.go\<close>), the safe search check (\<^verbatim>\<open>safesearch.go\<close>) and the settings of a request
  (\<open>ApplyAdditionalFiltering\<close> of \<^verbatim>\<open>filter.go\<close>).

  The rule engines of module \<^verbatim>\<open>urlfilter\<close>, the hosts storage and the reverse-name parser of module
  \<^verbatim>\<open>golibs\<close> and the hash-prefix services are arguments of the model: fields of the filter or
  parameters of the definitions that call them.
\<close>

section \<open>State\<close>

datatype blocking_mode =
    BlockingModeCustomIP | BlockingModeDefault | BlockingModeNullIP | BlockingModeNXDOMAIN
  | BlockingModeREFUSED

record hosts_storage =
  hs_by_addr :: "addr \<Rightarrow> string list"
  hs_by_name :: "string \<Rightarrow> addr list"

text \<open>A hash-prefix checker returns whether to block and an error, if any.\<close>

type_synonym checker = "string \<Rightarrow> bool \<times> string option"

text \<open>
  The fields of \<^verbatim>\<open>Config\<close> that checks and settings read.  The rule lists, the user rules and the
  refresh interval are in the state of theory \<open>FilterLists\<close>; sizes of caches, server addresses and
  paths are read only while services outside the model are set up.  Likewise \<open>dns_filter\<close> leaves out
  the locks, channels and buffers of \<^verbatim>\<open>DNSFilter\<close>.
\<close>

record filter_config =
  fc_blocking_ipv4 :: addr
  fc_blocking_ipv6 :: addr
  fc_blocked_services :: "blocked_services option"
  fc_etc_hosts :: "hosts_storage option"
  fc_disabled_until :: "instant option"
  fc_safe_search :: safe_search_config
  fc_blocking_mode :: blocking_mode
  fc_parental_host :: string
  fc_safebrowsing_host :: string
  fc_rewrites :: "legacy_rewrite list"
  fc_enabled :: bool
  fc_blocked_ttl :: "32 word"
  fc_parental :: bool
  fc_safebrowsing :: bool
  fc_protection :: bool

record dns_filter =
  df_conf :: filter_config
  df_engine :: "dns_engine option"
  df_engine_allow :: "dns_engine option"
  df_safe_search :: "safe_search option"
  df_safebrowsing_checker :: checker
  df_parental_checker :: checker
  df_apply_client :: "string \<Rightarrow> addr \<Rightarrow> settings \<Rightarrow> settings"

text \<open>The identifiers of the built-in lists.\<close>

definition URLFilterIDCustom :: list_id where "URLFilterIDCustom = 0"
definition URLFilterIDEtcHosts :: list_id where "URLFilterIDEtcHosts = - 1"
definition URLFilterIDBlockedService :: list_id where "URLFilterIDBlockedService = - 2"
definition URLFilterIDParentalControl :: list_id where "URLFilterIDParentalControl = - 3"
definition URLFilterIDSafeBrowsing :: list_id where "URLFilterIDSafeBrowsing = - 4"
definition URLFilterIDSafeSearch :: list_id where "URLFilterIDSafeSearch = - 5"

definition update_conf :: "(filter_config \<Rightarrow> filter_config) \<Rightarrow> dns_filter \<Rightarrow> dns_filter" where
  "update_conf f d = d\<lparr>df_conf := f (df_conf d)\<rparr>"

definition SetEnabled :: "bool \<Rightarrow> dns_filter \<Rightarrow> dns_filter" where
  "SetEnabled e = update_conf (\<lambda>c. c\<lparr>fc_enabled := e\<rparr>)"

definition filter_Settings :: "dns_filter \<Rightarrow> settings" where
  "filter_Settings d =
     \<lparr>st_client_name = [], st_client_ip = ZeroAddr, st_client_tags = [], st_services_rules = [],
      st_blocked_services = None, st_protection = False, st_filtering = fc_enabled (df_conf d),
      st_safesearch = ssc_enabled (fc_safe_search (df_conf d)),
      st_safebrowsing = fc_safebrowsing (df_conf d), st_parental = fc_parental (df_conf d),
      st_client_safesearch = None\<rparr>"

definition ProtectionStatus :: "dns_filter \<Rightarrow> bool \<times> instant option" where
  "ProtectionStatus d = (fc_protection (df_conf d), fc_disabled_until (df_conf d))"

definition SetProtectionStatus :: "bool \<Rightarrow> instant option \<Rightarrow> dns_filter \<Rightarrow> dns_filter" where
  "SetProtectionStatus status until =
     update_conf (\<lambda>c. c\<lparr>fc_protection := status, fc_disabled_until := until\<rparr>)"

definition SetProtectionEnabled :: "bool \<Rightarrow> dns_filter \<Rightarrow> dns_filter" where
  "SetProtectionEnabled status = update_conf (\<lambda>c. c\<lparr>fc_protection := status\<rparr>)"

definition SetBlockingMode :: "blocking_mode \<Rightarrow> addr \<Rightarrow> addr \<Rightarrow> dns_filter \<Rightarrow> dns_filter" where
  "SetBlockingMode mode ip4 ip6 =
     update_conf (\<lambda>c.
       let c = c\<lparr>fc_blocking_mode := mode\<rparr> in
       if mode = BlockingModeCustomIP then c\<lparr>fc_blocking_ipv4 := ip4, fc_blocking_ipv6 := ip6\<rparr> else c)"

definition get_BlockingMode :: "dns_filter \<Rightarrow> blocking_mode \<times> addr \<times> addr" where
  "get_BlockingMode d =
     (fc_blocking_mode (df_conf d), fc_blocking_ipv4 (df_conf d), fc_blocking_ipv6 (df_conf d))"

definition SetBlockedResponseTTL :: "32 word \<Rightarrow> dns_filter \<Rightarrow> dns_filter" where
  "SetBlockedResponseTTL ttl = update_conf (\<lambda>c. c\<lparr>fc_blocked_ttl := ttl\<rparr>)"

definition BlockedResponseTTL :: "dns_filter \<Rightarrow> 32 word" where
  "BlockedResponseTTL d = fc_blocked_ttl (df_conf d)"

definition SafeBrowsingBlockHost :: "dns_filter \<Rightarrow> string" where
  "SafeBrowsingBlockHost d = fc_safebrowsing_host (df_conf d)"

definition ParentalBlockHost :: "dns_filter \<Rightarrow> string" where
  "ParentalBlockHost d = fc_parental_host (df_conf d)"

section \<open>Results of matched rules\<close>

datatype uf_rule = NetRule network_rule | HostRule host_rule

fun rule_text :: "uf_rule \<Rightarrow> string" where
  "rule_text (NetRule r) = nr_text r"
| "rule_text (HostRule r) = hr_text r"

fun rule_list :: "uf_rule \<Rightarrow> list_id" where
  "rule_list (NetRule r) = nr_list r"
| "rule_list (HostRule r) = hr_list r"

definition makeResult :: "uf_rule list \<Rightarrow> reason \<Rightarrow> filter_result" where
  "makeResult matchedRules reason = empty_result\<lparr>
     fr_rules := map (\<lambda>mr. \<lparr>rr_text = rule_text mr, rr_ip = ZeroAddr, rr_list = rule_list mr\<rparr>) matchedRules,
     fr_reason := reason, fr_filtered := (reason = FilteredBlockList)\<rparr>"

definition hostRulesToRules :: "host_rule list option \<Rightarrow> uf_rule list" where
  "hostRulesToRules hrs = (case hrs of None \<Rightarrow> [] | Some rs \<Rightarrow> map HostRule rs)"

text \<open>The length of a slice that may be nil.\<close>

definition slice_list :: "'a list option \<Rightarrow> 'a list" where
  "slice_list xs = (case xs of None \<Rightarrow> [] | Some ys \<Rightarrow> ys)"

definition matchHostProcessAllowList :: "dns_result \<Rightarrow> (string, filter_result) result" where
  "matchHostProcessAllowList dnsres =
     (let matchedRules =
        (case res_network_rule dnsres of
           Some r \<Rightarrow> [NetRule r]
         | None \<Rightarrow>
             if slice_list (res_host_rules_v4 dnsres) \<noteq> [] then hostRulesToRules (res_host_rules_v4 dnsres)
             else if slice_list (res_host_rules_v6 dnsres) \<noteq> [] then hostRulesToRules (res_host_rules_v6 dnsres)
             else [])
      in if matchedRules = [] then Inl ''invalid dns result: rules are empty''
         else Inr (makeResult matchedRules NotFilteredAllowList))"

definition hostResultForOtherQType :: "dns_result \<Rightarrow> filter_result" where
  "hostResultForOtherQType dnsres =
     (case slice_list (res_host_rules_v4 dnsres) of
        r # _ \<Rightarrow> makeResult [HostRule r] FilteredBlockList
      | [] \<Rightarrow>
          (case slice_list (res_host_rules_v6 dnsres) of
             r # _ \<Rightarrow> makeResult [HostRule r] FilteredBlockList
           | [] \<Rightarrow> empty_result))"

text \<open>A blocking result of host rules carries the address of each rule.\<close>

definition host_rules_result :: "host_rule list \<Rightarrow> filter_result" where
  "host_rules_result hrs =
     (let res = makeResult (hostRulesToRules (Some hrs)) FilteredBlockList
      in res\<lparr>fr_rules := map2 (\<lambda>r hr. r\<lparr>rr_ip := hr_ip hr\<rparr>) (fr_rules res) hrs\<rparr>)"

definition matchHostProcessDNSResult :: "qtype \<Rightarrow> dns_result \<Rightarrow> filter_result" where
  "matchHostProcessDNSResult qtype dnsres =
     (case res_network_rule dnsres of
        Some r \<Rightarrow> makeResult [NetRule r]
          (if nr_whitelist r then NotFilteredAllowList else FilteredBlockList)
      | None \<Rightarrow>
          (case (if qtype = TypeA then res_host_rules_v4 dnsres
                 else if qtype = TypeAAAA then res_host_rules_v6 dnsres else None) of
             Some hrs \<Rightarrow> host_rules_result hrs
           | None \<Rightarrow> hostResultForOtherQType dnsres))"

section \<open>Rules with a dnsrewrite modifier\<close>

definition nr_result_rule :: "network_rule \<Rightarrow> result_rule" where
  "nr_result_rule nr = \<lparr>rr_text = nr_text nr, rr_ip = ZeroAddr, rr_list = nr_list nr\<rparr>"

definition append_response ::
  "qtype \<Rightarrow> rr_value \<Rightarrow> (qtype, rr_value list) gomap \<Rightarrow> (qtype, rr_value list) gomap" where
  "append_response t v resp =
     gm_put t ((case gm_get resp t of None \<Rightarrow> [] | Some vs \<Rightarrow> vs) @ [v]) resp"

text \<open>The loop over the rules, with the response and the rules collected so far.\<close>

fun processDNSRewrites_loop ::
  "network_rule list \<Rightarrow> (qtype, rr_value list) gomap \<Rightarrow> result_rule list \<Rightarrow> filter_result" where
  "processDNSRewrites_loop [] resp rls =
     empty_result\<lparr>fr_dnsrewrite := Some \<lparr>drr_response = Some resp, drr_rcode = RcodeSuccess\<rparr>,
                  fr_rules := rls, fr_reason := RewrittenRule\<rparr>"
| "processDNSRewrites_loop (nr # nrs) resp rls =
     (let dr = nr_rewrite nr in
      if dw_cname dr \<noteq> [] then
        empty_result\<lparr>fr_rules := [nr_result_rule nr], fr_reason := RewrittenRule,
                     fr_canon_name := dw_cname dr\<rparr>
      else if dw_rcode dr = RcodeSuccess then
        processDNSRewrites_loop nrs (append_response (dw_rrtype dr) (dw_value dr) resp)
          (rls @ [nr_result_rule nr])
      else
        empty_result\<lparr>fr_dnsrewrite := Some \<lparr>drr_response = None, drr_rcode = dw_rcode dr\<rparr>,
                     fr_rules := [nr_result_rule nr], fr_reason := RewrittenRule\<rparr>)"

definition processDNSRewrites :: "network_rule list \<Rightarrow> filter_result" where
  "processDNSRewrites dnsr = processDNSRewrites_loop dnsr [] []"

definition processDNSResultRewrites :: "dns_result \<Rightarrow> string \<Rightarrow> filter_result" where
  "processDNSResultRewrites dnsres host =
     (let dnsr = res_dns_rewrites dnsres in
      if dnsr = [] then empty_result
      else
        let res = processDNSRewrites dnsr in
        if fr_reason res = RewrittenRule \<and> fr_canon_name res = host then empty_result else res)"

section \<open>The checks\<close>

type_synonym host_check = "string \<Rightarrow> qtype \<Rightarrow> settings \<Rightarrow> (string, filter_result) result"

definition hosts_rule :: "addr \<Rightarrow> string \<Rightarrow> result_rule" where
  "hosts_rule a name =
     \<lparr>rr_text = addr_string a @ '' '' @ name, rr_ip = ZeroAddr, rr_list = URLFilterIDEtcHosts\<rparr>"

text \<open>
  \<open>rev_addr\<close> stands for \<^verbatim>\<open>netutil.IPFromReversedAddr\<close>, which parses an ARPA name.
\<close>

definition hostsRewrites ::
  "(string \<Rightarrow> addr option) \<Rightarrow> qtype \<Rightarrow> string \<Rightarrow> hosts_storage \<Rightarrow>
   rr_value list \<times> result_rule list \<times> bool" where
  "hostsRewrites rev_addr qtype host hs =
     (if qtype = TypePTR then
        (case rev_addr host of
           None \<Rightarrow> ([], [], False)
         | Some a \<Rightarrow>
             (let names = hs_by_addr hs a
              in (map RVString names, map (hosts_rule a) names, names \<noteq> [])))
      else if qtype = TypeA \<or> qtype = TypeAAAA then
        (let addrs = hs_by_name hs host;
             isValidProto = (if qtype = TypeA then is4 else is6)
         in (map RVAddr (filter isValidProto addrs), map (\<lambda>a. hosts_rule a host) addrs, addrs \<noteq> []))
      else ([], [], False))"

definition matchSysHosts :: "(string \<Rightarrow> addr option) \<Rightarrow> dns_filter \<Rightarrow> host_check" where
  "matchSysHosts rev_addr d host qtype setts =
     (case fc_etc_hosts (df_conf d) of
        None \<Rightarrow> Inr empty_result
      | Some hs \<Rightarrow>
          if \<not> st_filtering setts then Inr empty_result
          else
            (case hostsRewrites rev_addr qtype host hs of (vals, rs, matched) \<Rightarrow>
               Inr (if \<not> matched then empty_result
                    else empty_result\<lparr>
                      fr_dnsrewrite := Some \<lparr>drr_response = Some [(qtype, vals)], drr_rcode = RcodeSuccess\<rparr>,
                      fr_rules := rs, fr_reason := RewrittenAutoHosts\<rparr>)))"

definition matchHost :: "dns_filter \<Rightarrow> host_check" where
  "matchHost d host rrtype setts =
     (if \<not> st_filtering setts then Inr empty_result
      else
        let ufReq = \<lparr>req_hostname = host, req_client_tags = st_client_tags setts,
              req_client_ip = st_client_ip setts, req_client_name = st_client_name setts,
              req_dnstype = rrtype\<rparr>;
            allowed = (if st_protection setts then map_option (\<lambda>e. e ufReq) (df_engine_allow d) else None)
        in case allowed of
             Some (dnsres, True) \<Rightarrow> matchHostProcessAllowList dnsres
           | _ \<Rightarrow>
             (case df_engine d of
                None \<Rightarrow> Inr empty_result
              | Some engine \<Rightarrow>
                  (case engine ufReq of (dnsres, matchedEngine) \<Rightarrow>
                   let dnsRWRes = processDNSResultRewrites dnsres host in
                   Inr (if fr_reason dnsRWRes \<noteq> NotFilteredNotFound then dnsRWRes
                        else if \<not> matchedEngine then empty_result
                        else if \<not> st_protection setts then empty_result
                        else matchHostProcessDNSResult rrtype dnsres))))"

definition service_result :: "service_entry \<Rightarrow> network_rule \<Rightarrow> filter_result" where
  "service_result s r = empty_result\<lparr>fr_reason := FilteredBlockedService, fr_filtered := True,
     fr_service := se_name s, fr_rules := [nr_result_rule r]\<rparr>"

definition matchBlockedServicesRules :: host_check where
  "matchBlockedServicesRules host qtype setts =
     Inr (if \<not> st_protection setts then empty_result
          else
            case find_some (\<lambda>s. map_option (service_result s) (find (\<lambda>r. nr_match r host) (se_rules s)))
                   (st_services_rules setts) of
              None \<Rightarrow> empty_result
            | Some res \<Rightarrow> res)"

definition hash_prefix_check :: "bool \<Rightarrow> filter_result \<Rightarrow> checker \<Rightarrow> string \<Rightarrow> (string, filter_result) result" where
  "hash_prefix_check enabled res chk host =
     (if \<not> enabled then Inr empty_result
      else case chk host of
             (_, Some e) \<Rightarrow> Inl e
           | (block, None) \<Rightarrow> Inr (if block then res else empty_result))"

definition checkSafeBrowsing :: "dns_filter \<Rightarrow> host_check" where
  "checkSafeBrowsing d host qtype setts =
     hash_prefix_check (st_protection setts \<and> st_safebrowsing setts)
       (empty_result\<lparr>
          fr_rules := [\<lparr>rr_text = ''adguard-malware-shavar'', rr_ip = ZeroAddr,
                        rr_list = URLFilterIDSafeBrowsing\<rparr>],
          fr_reason := FilteredSafeBrowsing, fr_filtered := True\<rparr>)
       (df_safebrowsing_checker d) host"

definition checkParental :: "dns_filter \<Rightarrow> host_check" where
  "checkParental d host qtype setts =
     hash_prefix_check (st_protection setts \<and> st_parental setts)
       (empty_result\<lparr>
          fr_rules := [\<lparr>rr_text = ''parental CATEGORY_BLACKLISTED'', rr_ip = ZeroAddr,
                        rr_list = URLFilterIDParentalControl\<rparr>],
          fr_reason := FilteredParental, fr_filtered := True\<rparr>)
       (df_parental_checker d) host"

definition checkSafeSearch :: "dns_filter \<Rightarrow> host_check" where
  "checkSafeSearch d host qtype setts =
     (case df_safe_search d of
        None \<Rightarrow> Inr empty_result
      | Some ss \<Rightarrow>
          if \<not> st_protection setts \<or> \<not> st_safesearch setts then Inr empty_result
          else (case st_client_safesearch setts of
                  Some css \<Rightarrow> css host qtype
                | None \<Rightarrow> ss host qtype))"

section \<open>Checking a host\<close>

definition hostCheckers :: "(string \<Rightarrow> addr option) \<Rightarrow> dns_filter \<Rightarrow> (string \<times> host_check) list" where
  "hostCheckers rev_addr d =
     [(''hosts container'', matchSysHosts rev_addr d), (''filtering'', matchHost d),
      (''blocked services'', matchBlockedServicesRules), (''safe browsing'', checkSafeBrowsing d),
      (''parental'', checkParental d), (''safe search'', checkSafeSearch d)]"

fun run_checkers ::
  "(string \<times> host_check) list \<Rightarrow> string \<Rightarrow> qtype \<Rightarrow> settings \<Rightarrow> (string \<times> string, filter_result) result" where
  "run_checkers [] host qtype setts = Inr empty_result"
| "run_checkers ((name, check) # hcs) host qtype setts =
     (case check host qtype setts of
        Inl e \<Rightarrow> Inl (name, e)
      | Inr res \<Rightarrow> if reason_Matched (fr_reason res) then Inr res else run_checkers hcs host qtype setts)"

definition CheckHost ::
  "(string \<Rightarrow> addr option) \<Rightarrow> dns_filter \<Rightarrow> string \<Rightarrow> qtype \<Rightarrow> settings \<Rightarrow>
   (string \<times> string, filter_result) result" where
  "CheckHost rev_addr d host0 qtype setts =
     (if host0 = [] then Inr empty_result
      else
        let host = to_lower host0;
            res = (if st_filtering setts then processRewrites (fc_rewrites (df_conf d)) host qtype
                   else empty_result)
        in if st_filtering setts \<and> fr_reason res = Rewritten then Inr res
           else run_checkers (hostCheckers rev_addr d) host qtype setts)"

definition CheckHostRules ::
  "dns_filter \<Rightarrow> string \<Rightarrow> qtype \<Rightarrow> settings \<Rightarrow> (string, filter_result) result" where
  "CheckHostRules d host rrtype setts = matchHost d (to_lower host) rrtype setts"

section \<open>Settings of a request\<close>

text \<open>
  \<^term>\<open>None\<close> is the nil dereference of blocked services without a schedule.
\<close>

definition ApplyAdditionalFiltering ::
  "service_rules \<Rightarrow> instant \<Rightarrow> dns_filter \<Rightarrow> addr \<Rightarrow> string \<Rightarrow> settings \<Rightarrow> settings option" where
  "ApplyAdditionalFiltering rules now d cliAddr clientID setts =
     (case ApplyBlockedServices (fc_blocked_services (df_conf d)) rules now
             (setts\<lparr>st_client_ip := cliAddr\<rparr>) of
        None \<Rightarrow> None
      | Some setts1 \<Rightarrow>
          (let setts2 = df_apply_client d clientID cliAddr setts1 in
           case st_blocked_services setts2 of
             None \<Rightarrow> Some setts2
           | Some svcs \<Rightarrow> ApplyBlockedServices (Some svcs) rules now setts2))"

section \<open>Verdicts\<close>

definition filtering_reasons :: "reason list" where
  "filtering_reasons = [FilteredBlockList, FilteredSafeBrowsing, FilteredParental, FilteredSafeSearch,
     FilteredBlockedService]"

text \<open>A result whose flag agrees with its reason, as safe search implementations return.\<close>

definition verdict_ok :: "filter_result \<Rightarrow> bool" where
  "verdict_ok r \<longleftrightarrow> fr_filtered r = (fr_reason r \<in> set filtering_reasons)"

lemma verdict_ok_empty [simp]: "verdict_ok empty_result"
  by (simp add: verdict_ok_def filtering_reasons_def)

lemma verdict_ok_makeResult: "reason \<in> {FilteredBlockList, NotFilteredAllowList} \<Longrightarrow> verdict_ok (makeResult rs reason)"
  by (auto simp: verdict_ok_def filtering_reasons_def makeResult_def)

lemma verdict_ok_host_rules [simp]: "verdict_ok (host_rules_result hrs)"
  by (simp add: verdict_ok_def filtering_reasons_def host_rules_result_def makeResult_def Let_def)

lemma verdict_ok_DNSResult [simp]: "verdict_ok (matchHostProcessDNSResult qtype dnsres)"
  by (auto simp: matchHostProcessDNSResult_def hostResultForOtherQType_def
      intro: verdict_ok_makeResult split: option.splits list.splits)

lemma processDNSRewrites_loop_reason:
  "fr_reason (processDNSRewrites_loop nrs resp rls) = RewrittenRule \<and>
   \<not> fr_filtered (processDNSRewrites_loop nrs resp rls)"
  by (induction nrs resp rls rule: processDNSRewrites_loop.induct) (auto simp: Let_def)

lemma processDNSResultRewrites_unfiltered [simp]:
  "\<not> fr_filtered (processDNSResultRewrites dnsres host)"
  "verdict_ok (processDNSResultRewrites dnsres host)"
  by (simp_all add: processDNSResultRewrites_def processDNSRewrites_def Let_def
      processDNSRewrites_loop_reason verdict_ok_def filtering_reasons_def)

lemma setRewriteResult_unfiltered [simp]:
  "fr_filtered (setRewriteResult res rws qtype) = fr_filtered res"
  by (induction res rws qtype rule: setRewriteResult.induct) auto

lemma processRewrites_unfiltered [simp]: "\<not> fr_filtered (processRewrites entries host qtype)"
  by (simp add: processRewrites_def Let_def split: rewrite_outcome.split)

lemma matchSysHosts_total: "\<exists>r. matchSysHosts rev_addr d host qtype setts = Inr r \<and> \<not> fr_filtered r \<and> verdict_ok r"
  by (auto simp: matchSysHosts_def verdict_ok_def filtering_reasons_def split: option.splits prod.splits)

lemma matchHost_verdict: "matchHost d host qtype setts = Inr r \<Longrightarrow> verdict_ok r"
  by (auto simp: matchHost_def Let_def matchHostProcessAllowList_def verdict_ok_makeResult
      split: if_splits option.splits prod.splits bool.splits)

lemma matchHost_unprotected:
  "\<not> st_protection setts \<Longrightarrow> \<exists>r. matchHost d host qtype setts = Inr r \<and> \<not> fr_filtered r"
  by (auto simp: matchHost_def Let_def split: option.splits prod.splits)

lemma matchBlockedServicesRules_verdict:
  "matchBlockedServicesRules host qtype setts = Inr r \<Longrightarrow> verdict_ok r"
  by (auto simp: matchBlockedServicesRules_def verdict_ok_def filtering_reasons_def service_result_def
      dest!: find_some_SomeD split: if_splits option.splits)

lemma hash_prefix_verdict:
  "verdict_ok res \<Longrightarrow> hash_prefix_check en res chk host = Inr r \<Longrightarrow> verdict_ok r"
  by (auto simp: hash_prefix_check_def split: if_splits option.splits prod.splits)

lemma check_hash_verdict:
  "checkSafeBrowsing d host qtype setts = Inr r \<Longrightarrow> verdict_ok r"
  "checkParental d host qtype setts = Inr r \<Longrightarrow> verdict_ok r"
  unfolding checkSafeBrowsing_def checkParental_def
  by (erule hash_prefix_verdict [rotated], simp add: verdict_ok_def filtering_reasons_def)+

lemma run_checkers_verdict:
  assumes "\<forall>(n, c) \<in> set hcs. \<forall>r. c host qtype setts = Inr r \<longrightarrow> verdict_ok r"
    and "run_checkers hcs host qtype setts = Inr r"
  shows "verdict_ok r"
  using assms by (induction hcs) (auto split: sum.splits if_splits)

text \<open>C4: When protection is off for a client, checking a host never fails and never blocks it.\<close>

theorem protection_off_never_blocks:
  assumes "\<not> st_protection setts"
  shows "\<exists>r. CheckHost rev_addr d host qtype setts = Inr r \<and> \<not> fr_filtered r"
proof -
  let ?h = "to_lower host"
  obtain r1 where r1: "matchSysHosts rev_addr d ?h qtype setts = Inr r1" "\<not> fr_filtered r1"
    using matchSysHosts_total by blast
  obtain r2 where r2: "matchHost d ?h qtype setts = Inr r2" "\<not> fr_filtered r2"
    using matchHost_unprotected [OF assms] by blast
  have "\<exists>r. run_checkers (hostCheckers rev_addr d) ?h qtype setts = Inr r \<and> \<not> fr_filtered r"
    using assms r1 r2
    by (auto simp: hostCheckers_def matchBlockedServicesRules_def checkSafeBrowsing_def
        checkParental_def checkSafeSearch_def hash_prefix_check_def reason_Matched_def split: option.split)
  then show ?thesis by (simp add: CheckHost_def Let_def)
qed

text \<open>C3: If the safe search in use returns results whose flag agrees with their reason, so does every
  check of a host: the result is marked as filtered exactly when its reason is one of blocking.\<close>

theorem CheckHost_verdict:
  assumes "CheckHost rev_addr d host qtype setts = Inr r"
    and "\<And>ss h t x. df_safe_search d = Some ss \<or> st_client_safesearch setts = Some ss \<Longrightarrow>
           ss h t = Inr x \<Longrightarrow> verdict_ok x"
  shows "verdict_ok r"
proof -
  let ?h = "to_lower host"
  have ss: "checkSafeSearch d ?h qtype setts = Inr x \<Longrightarrow> verdict_ok x" for x
    using assms(2) by (auto simp: checkSafeSearch_def split: option.splits if_splits)
  have sh: "matchSysHosts rev_addr d ?h qtype setts = Inr x \<Longrightarrow> verdict_ok x" for x
    using matchSysHosts_total [of rev_addr d ?h qtype setts] by auto
  have "run_checkers (hostCheckers rev_addr d) ?h qtype setts = Inr r \<Longrightarrow> verdict_ok r"
    by (erule run_checkers_verdict [rotated])
      (auto simp: hostCheckers_def intro: ss sh matchHost_verdict matchBlockedServicesRules_verdict
        check_hash_verdict)
  moreover have "fr_reason (processRewrites e ?h qtype) = Rewritten \<Longrightarrow>
      verdict_ok (processRewrites e ?h qtype)" for e
    by (simp add: verdict_ok_def filtering_reasons_def)
  ultimately show ?thesis using assms(1)
    by (auto simp: CheckHost_def Let_def split: if_splits)
qed

lemma allowlist_result:
  assumes "res_network_rule dnsres \<noteq> None \<or> slice_list (res_host_rules_v4 dnsres) \<noteq> [] \<or>
    slice_list (res_host_rules_v6 dnsres) \<noteq> []"
  shows "\<exists>r. matchHostProcessAllowList dnsres = Inr r \<and> fr_reason r = NotFilteredAllowList \<and>
    \<not> fr_filtered r \<and> fr_rules r \<noteq> []"
  using assms
  by (cases "res_network_rule dnsres"; cases "res_host_rules_v4 dnsres"; cases "res_host_rules_v6 dnsres")
    (auto simp: matchHostProcessAllowList_def makeResult_def hostRulesToRules_def slice_list_def)


text \<open>A rule that decides alone, and its result.\<close>

definition decisive :: "network_rule \<Rightarrow> bool" where
  "decisive r \<longleftrightarrow> dw_cname (nr_rewrite r) \<noteq> [] \<or> dw_rcode (nr_rewrite r) \<noteq> RcodeSuccess"

lemma processDNSRewrites_loop_decisive:
  "find decisive nrs = Some r \<Longrightarrow>
   processDNSRewrites_loop nrs resp rls = processDNSRewrites_loop [r] resp rls \<and> decisive r"
proof (induction nrs arbitrary: resp rls)
  case (Cons nr nrs)
  then show ?case
    by (cases "decisive nr") (auto simp: Let_def decisive_def)
qed simp

lemma append_response_get:
  "slice_list (gm_get (append_response t v resp) t') =
     slice_list (gm_get resp t') @ (if t' = t then [v] else [])"
  by (auto simp: append_response_def slice_list_def)

lemma processDNSRewrites_loop_collect:
  "find decisive nrs = None \<Longrightarrow>
   \<exists>resp'. processDNSRewrites_loop nrs resp rls =
       empty_result\<lparr>fr_dnsrewrite := Some \<lparr>drr_response = Some resp', drr_rcode = RcodeSuccess\<rparr>,
         fr_rules := rls @ map nr_result_rule nrs, fr_reason := RewrittenRule\<rparr> \<and>
     (\<forall>t. slice_list (gm_get resp' t) = slice_list (gm_get resp t) @
        map (dw_value \<circ> nr_rewrite) (filter (\<lambda>r. dw_rrtype (nr_rewrite r) = t) nrs))"
proof (induction nrs arbitrary: resp rls)
  case (Cons nr nrs)
  then have nr: "\<not> decisive nr" and "find decisive nrs = None" by (auto split: if_splits)
  from Cons.IH [OF this(2), of "append_response (dw_rrtype (nr_rewrite nr)) (dw_value (nr_rewrite nr)) resp"
      "rls @ [nr_result_rule nr]"]
  show ?case using nr by (auto simp: Let_def decisive_def append_response_get)
qed auto

text \<open>Rules that rewrite a response are applied in order: the first one that names a canonical
  name or a code other than success decides alone; if there is none, the answer has success and, for
  every record type, the values of all rules of that type in the order of the rules.\<close>

theorem processDNSRewrites_spec:
  "case find decisive nrs of
     Some r \<Rightarrow>
       fr_rules (processDNSRewrites nrs) = [nr_result_rule r] \<and>
       fr_canon_name (processDNSRewrites nrs) = dw_cname (nr_rewrite r) \<and>
       fr_dnsrewrite (processDNSRewrites nrs) =
         (if dw_cname (nr_rewrite r) \<noteq> [] then None
          else Some \<lparr>drr_response = None, drr_rcode = dw_rcode (nr_rewrite r)\<rparr>)
   | None \<Rightarrow>
       fr_rules (processDNSRewrites nrs) = map nr_result_rule nrs \<and>
       fr_canon_name (processDNSRewrites nrs) = [] \<and>
       (\<exists>resp. fr_dnsrewrite (processDNSRewrites nrs) =
           Some \<lparr>drr_response = Some resp, drr_rcode = RcodeSuccess\<rparr> \<and>
         (\<forall>t. slice_list (gm_get resp t) =
            map (dw_value \<circ> nr_rewrite) (filter (\<lambda>r. dw_rrtype (nr_rewrite r) = t) nrs)))"
proof (cases "find decisive nrs")
  case None
  from processDNSRewrites_loop_collect [OF this, of "[]" "[]"] None show ?thesis
    by (auto simp: processDNSRewrites_def slice_list_def)
next
  case (Some r)
  from processDNSRewrites_loop_decisive [OF this, of "[]" "[]"] Some show ?thesis
    by (auto simp: processDNSRewrites_def Let_def decisive_def)
qed

section \<open>Witnesses\<close>

text \<open>A filter that blocks every name through its block engine and through both hash-prefix services,
  has a safe search that finds nothing, and allows one name; used at the concrete inputs below.\<close>

definition sample_rule :: "string \<Rightarrow> network_rule" where
  "sample_rule t = \<lparr>nr_text = t, nr_list = 1, nr_whitelist = False,
     nr_rewrite = \<lparr>dw_cname = [], dw_rcode = 0, dw_rrtype = 0, dw_value = RVString []\<rparr>,
     nr_match = (\<lambda>h. h = t)\<rparr>"

definition sample_engine :: "(string \<Rightarrow> bool) \<Rightarrow> dns_engine" where
  "sample_engine p req =
     (\<lparr>res_network_rule = (if p (req_hostname req) then Some (sample_rule (req_hostname req)) else None),
       res_host_rules_v4 = None, res_host_rules_v6 = None, res_dns_rewrites = []\<rparr>, p (req_hostname req))"

definition sample_filter :: dns_filter where
  "sample_filter =
     \<lparr>df_conf = \<lparr>fc_blocking_ipv4 = ZeroAddr, fc_blocking_ipv6 = ZeroAddr, fc_blocked_services = None,
        fc_etc_hosts = None, fc_disabled_until = None,
        fc_safe_search = \<lparr>ssc_enabled = False, ssc_bing = False, ssc_duckduckgo = False,
          ssc_ecosia = False, ssc_google = False, ssc_pixabay = False, ssc_yandex = False,
          ssc_youtube = False\<rparr>,
        fc_blocking_mode = BlockingModeDefault, fc_parental_host = [], fc_safebrowsing_host = [],
        fc_rewrites = [], fc_enabled = True, fc_blocked_ttl = 0, fc_parental = True,
        fc_safebrowsing = True, fc_protection = True\<rparr>,
      df_engine = Some (sample_engine (\<lambda>_. True)),
      df_engine_allow = Some (sample_engine (\<lambda>h. h = ''ok'')),
      df_safe_search = Some (\<lambda>_ _. Inr empty_result),
      df_safebrowsing_checker = (\<lambda>_. (True, None)), df_parental_checker = (\<lambda>_. (True, None)),
      df_apply_client = (\<lambda>_ _ st. st)\<rparr>"

definition sample_settings :: "bool \<Rightarrow> settings" where
  "sample_settings prot = (filter_Settings sample_filter)\<lparr>st_protection := prot\<rparr>"

lemmas sample_defs = sample_settings_def sample_filter_def sample_engine_def sample_rule_def
  filter_Settings_def

theorem protection_off_witness:
  "\<not> st_protection (sample_settings False) \<and>
   (\<exists>r. CheckHost (\<lambda>_. None) sample_filter ''ads'' TypeA (sample_settings False) = Inr r \<and> \<not> fr_filtered r)"
  using protection_off_never_blocks [of "sample_settings False" "\<lambda>_. None" sample_filter "''ads''" TypeA]
  by (simp add: sample_settings_def)

lemma sample_blocks:
  "CheckHost (\<lambda>_. None) sample_filter ''ads'' TypeA (sample_settings True) =
     Inr (makeResult [NetRule (sample_rule ''ads'')] FilteredBlockList)"
proof -
  have l: "to_lower ''ads'' = ''ads''" by code_simp
  have rw: "processRewrites [] ''ads'' TypeA = empty_result"
    by (simp add: processRewrites_def findRewrites_def)
  show ?thesis
    by (simp add: CheckHost_def l rw sample_defs hostCheckers_def matchSysHosts_def matchHost_def
        processDNSResultRewrites_def matchHostProcessDNSResult_def reason_Matched_def makeResult_def)
qed

theorem CheckHost_verdict_witness:
  "verdict_ok (makeResult [NetRule (sample_rule ''ads'')] FilteredBlockList)"
  by (rule CheckHost_verdict [OF sample_blocks]) (auto simp: sample_defs)


end
