(* ===== verification/Cache.thy ===== *)
theory Cache
  imports Prelude
begin

text \<open>
  The cache of module \<^verbatim>\<open>golibs\<close> that the safe search and the hash-prefix filters use.  It is not in the
  repository and therefore an argument, of which the filters rely on what \<open>cache_laws\<close> states: a lookup gives
  nothing or the value stored last under exactly that key.  The order in which entries are forgotten is left open.
\<close>

record ('c, 'k, 'v) cache_ops =
  cache_get :: "'c \<Rightarrow> 'k \<Rightarrow> 'v option"
  cache_set :: "'k \<Rightarrow> 'v \<Rightarrow> 'c \<Rightarrow> 'c"
  cache_del :: "'k \<Rightarrow> 'c \<Rightarrow> 'c"
  cache_clear :: "'c \<Rightarrow> 'c"

definition cache_laws :: "('c, 'k, 'v) cache_ops \<Rightarrow> bool" where
  "cache_laws ops \<longleftrightarrow>
     (\<forall>c k v k' w. cache_get ops (cache_set ops k v c) k' = Some w \<longrightarrow>
        (if k' = k then w = v else cache_get ops c k' = Some w)) \<and>
     (\<forall>c k k' w. cache_get ops (cache_del ops k c) k' = Some w \<longrightarrow>
        k' \<noteq> k \<and> cache_get ops c k' = Some w) \<and>
     (\<forall>c k. cache_get ops (cache_clear ops c) k = None)"

lemma cache_set_cases:
  "cache_laws ops \<Longrightarrow> cache_get ops (cache_set ops k v c) k' = Some w \<Longrightarrow>
   k' = k \<and> w = v \<or> cache_get ops c k' = Some w"
  unfolding cache_laws_def by metis

text \<open>A property of all entries is kept by storing an entry with it.\<close>

definition all_cached :: "('c, 'k, 'v) cache_ops \<Rightarrow> ('k \<Rightarrow> 'v \<Rightarrow> bool) \<Rightarrow> 'c \<Rightarrow> bool" where
  "all_cached ops P c \<longleftrightarrow> (\<forall>k v. cache_get ops c k = Some v \<longrightarrow> P k v)"

lemma all_cachedD: "all_cached ops P c \<Longrightarrow> cache_get ops c k = Some v \<Longrightarrow> P k v"
  by (simp add: all_cached_def)

lemma all_cached_set: "cache_laws ops \<Longrightarrow> all_cached ops P c \<Longrightarrow> P k v \<Longrightarrow> all_cached ops P (cache_set ops k v c)"
  unfolding all_cached_def using cache_set_cases by metis

text \<open>A cache that never forgets, as a function.\<close>

definition map_cache :: "('k \<rightharpoonup> 'v, 'k, 'v) cache_ops" where
  "map_cache = \<lparr>cache_get = (\<lambda>c. c), cache_set = (\<lambda>k v c. c(k \<mapsto> v)),
     cache_del = (\<lambda>k c. c(k := None)), cache_clear = (\<lambda>_ _. None)\<rparr>"

lemma map_cache_laws: "cache_laws map_cache"
  by (simp add: cache_laws_def map_cache_def)

end
