(* ===== verification/SafeSearch.thy ===== *)
theory SafeSearch
  imports Filtering Cache
begin

text \<open>
  Package \<^verbatim>\<open>internal/filtering/safesearch\<close>: the default safe search filter, which turns the
  \<^verbatim>\<open>$dnsrewrite\<close> rules of the enabled search services into results and keeps them in a cache with an
  expiry time (\<^verbatim>\<open>safesearch.go\<close>).

  Not under the repository, and therefore arguments: the rule engine built from a text
  (\<open>mk_engine\<close>), the names of record types of module \<^verbatim>\<open>miekg/dns\<close> (\<open>type_string\<close>) and the LRU cache
  of module \<^verbatim>\<open>golibs\<close>, of which the filter relies on what \<open>cache_laws\<close> states: a lookup returns
  nothing or the value stored last under exactly that key.  The rule texts are embedded files.
\<close>

section \<open>The cache\<close>

text \<open>A cached value is the expiry time in seconds, kept in four bytes, and the encoded result.\<close>

type_synonym cached = "32 word \<times> filter_result"

section \<open>The filter\<close>

record 'c safesearch =
  ss_engine :: "dns_engine option"
  ss_cache :: 'c
  ss_cache_ttl :: int

text \<open>\<^term>\<open>None\<close> is the panic on a service that is not in the list.\<close>

definition isServiceProtected :: "safe_search_config \<Rightarrow> string \<Rightarrow> bool option" where
  "isServiceProtected s service =
     (if service = ''bing'' then Some (ssc_bing s)
      else if service = ''duckduckgo'' then Some (ssc_duckduckgo s)
      else if service = ''ecosia'' then Some (ssc_ecosia s)
      else if service = ''google'' then Some (ssc_google s)
      else if service = ''pixabay'' then Some (ssc_pixabay s)
      else if service = ''yandex'' then Some (ssc_yandex s)
      else if service = ''youtube'' then Some (ssc_youtube s)
      else None)"

fun protected_rules :: "safe_search_config \<Rightarrow> (string, string) gomap \<Rightarrow> string option" where
  "protected_rules conf [] = Some []"
| "protected_rules conf ((service, serviceRules) # rest) =
     (case isServiceProtected conf service of
        None \<Rightarrow> None
      | Some p \<Rightarrow> map_option (\<lambda>t. (if p then serviceRules else []) @ t) (protected_rules conf rest))"

text \<open>The outer \<^term>\<open>None\<close> is the panic of \<^term>\<open>isServiceProtected\<close>.\<close>

definition resetEngine ::
  "(list_id \<Rightarrow> string \<Rightarrow> (string, dns_engine) result) \<Rightarrow> (string, string) gomap \<Rightarrow> list_id \<Rightarrow>
   safe_search_config \<Rightarrow> 'c safesearch \<Rightarrow> (string, 'c safesearch) result option" where
  "resetEngine mk_engine safeSearchRules listID conf ss =
     (if \<not> ssc_enabled conf then Some (Inr ss)
      else case protected_rules conf safeSearchRules of
             None \<Rightarrow> None
           | Some text \<Rightarrow>
               Some (case mk_engine listID text of
                       Inl e \<Rightarrow> Inl e
                     | Inr engine \<Rightarrow> Inr (ss\<lparr>ss_engine := Some engine\<rparr>)))"

definition NewDefault ::
  "(list_id \<Rightarrow> string \<Rightarrow> (string, dns_engine) result) \<Rightarrow> (string, string) gomap \<Rightarrow> 'c \<Rightarrow> int \<Rightarrow>
   safe_search_config \<Rightarrow> (string, 'c safesearch) result option" where
  "NewDefault mk_engine safeSearchRules empty_cache cacheTTL conf =
     resetEngine mk_engine safeSearchRules URLFilterIDSafeSearch conf
       \<lparr>ss_engine = None, ss_cache = empty_cache, ss_cache_ttl = cacheTTL\<rparr>"

definition searchHost :: "dns_engine option \<Rightarrow> string \<Rightarrow> qtype \<Rightarrow> dns_rewrite option" where
  "searchHost eng host qtype =
     (case eng of
        None \<Rightarrow> None
      | Some engine \<Rightarrow>
          (case res_dns_rewrites (fst (engine
              \<lparr>req_hostname = to_lower host, req_client_tags = [], req_client_ip = ZeroAddr,
               req_client_name = [], req_dnstype = qtype\<rparr>)) of
             [] \<Rightarrow> None
           | r # _ \<Rightarrow> Some (nr_rewrite r)))"

definition newResult :: "dns_rewrite \<Rightarrow> qtype \<Rightarrow> (string, filter_result) result" where
  "newResult rewrite qtype =
     (let res = empty_result\<lparr>fr_reason := FilteredSafeSearch, fr_filtered := True\<rparr> in
      if dw_rrtype rewrite = qtype then
        (case dw_value rewrite of
           RVAddr ip \<Rightarrow>
             if ip = ZeroAddr then Inl ''expected ip rewrite value''
             else Inr (res\<lparr>fr_rules := [\<lparr>rr_text = [], rr_ip = ip, rr_list = URLFilterIDSafeSearch\<rparr>]\<rparr>)
         | _ \<Rightarrow> Inl ''expected ip rewrite value'')
      else Inr (res\<lparr>fr_canon_name := dw_cname rewrite\<rparr>))"

definition cache_key :: "(qtype \<Rightarrow> string) \<Rightarrow> qtype \<Rightarrow> string \<Rightarrow> string" where
  "cache_key type_string qtype host = type_string qtype @ '' '' @ host"

text \<open>Times are Unix seconds; the conversion to \<^verbatim>\<open>uint32\<close> wraps.\<close>

definition setCacheResult ::
  "('c, string, cached) cache_ops \<Rightarrow> (qtype \<Rightarrow> string) \<Rightarrow> int \<Rightarrow> string \<Rightarrow> qtype \<Rightarrow> filter_result \<Rightarrow> 'c safesearch \<Rightarrow>
   'c safesearch" where
  "setCacheResult ops type_string now host qtype res ss =
     ss\<lparr>ss_cache := cache_set ops (cache_key type_string qtype host)
          (word_of_int (now + ss_cache_ttl ss), res) (ss_cache ss)\<rparr>"

definition getCachedResult ::
  "('c, string, cached) cache_ops \<Rightarrow> (qtype \<Rightarrow> string) \<Rightarrow> int \<Rightarrow> string \<Rightarrow> qtype \<Rightarrow> 'c safesearch \<Rightarrow>
   filter_result option \<times> 'c safesearch" where
  "getCachedResult ops type_string now host qtype ss =
     (case cache_get ops (ss_cache ss) (cache_key type_string qtype host) of
        None \<Rightarrow> (None, ss)
      | Some (expire, res) \<Rightarrow>
          if expire \<le> word_of_int now then (None, ss\<lparr>ss_cache := cache_del ops host (ss_cache ss)\<rparr>)
          else (Some res, ss))"

definition ss_CheckHost ::
  "('c, string, cached) cache_ops \<Rightarrow> (qtype \<Rightarrow> string) \<Rightarrow> int \<Rightarrow> string \<Rightarrow> qtype \<Rightarrow> 'c safesearch \<Rightarrow>
   (string, filter_result) result \<times> 'c safesearch" where
  "ss_CheckHost ops type_string now host qtype ss =
     (if qtype \<notin> {TypeA, TypeAAAA, TypeHTTPS} then (Inr empty_result, ss)
      else case getCachedResult ops type_string now host qtype ss of
        (Some res, ss1) \<Rightarrow> (Inr res, ss1)
      | (None, ss1) \<Rightarrow>
          (case searchHost (ss_engine ss1) host qtype of
             None \<Rightarrow> (Inr empty_result, ss1)
           | Some rewrite \<Rightarrow>
               (case newResult rewrite qtype of
                  Inl e \<Rightarrow> (Inl e, ss1)
                | Inr res \<Rightarrow> (Inr res, setCacheResult ops type_string now host qtype res ss1))))"

definition ss_Update ::
  "('c, string, cached) cache_ops \<Rightarrow> (list_id \<Rightarrow> string \<Rightarrow> (string, dns_engine) result) \<Rightarrow> (string, string) gomap \<Rightarrow>
   safe_search_config \<Rightarrow> 'c safesearch \<Rightarrow> (string option \<times> 'c safesearch) option" where
  "ss_Update ops mk_engine safeSearchRules conf ss =
     (case resetEngine mk_engine safeSearchRules URLFilterIDSafeSearch conf ss of
        None \<Rightarrow> None
      | Some (Inl e) \<Rightarrow> Some (Some e, ss)
      | Some (Inr ss1) \<Rightarrow> Some (None, ss1\<lparr>ss_cache := cache_clear ops (ss_cache ss1)\<rparr>))"

section \<open>The cache is transparent\<close>

definition ss_types :: "qtype set" where
  "ss_types = {TypeA, TypeAAAA, TypeHTTPS}"

lemma cache_laws_set:
  assumes "cache_laws ops" "cache_get ops (cache_set ops k v c) k' = Some w"
  shows "if k' = k then w = v else cache_get ops c k' = Some w"
  using assms unfolding cache_laws_def by blast

lemma cache_laws_del:
  assumes "cache_laws ops" "cache_get ops (cache_del ops k c) k' = Some w"
  shows "cache_get ops c k' = Some w"
  using assms unfolding cache_laws_def by blast

lemma cache_laws_clear: "cache_laws ops \<Longrightarrow> cache_get ops (cache_clear ops c) k = None"
  unfolding cache_laws_def by blast

text \<open>The reference: the same check without a cache.\<close>

definition ss_check_plain :: "dns_engine option \<Rightarrow> string \<Rightarrow> qtype \<Rightarrow> (string, filter_result) result" where
  "ss_check_plain eng host qtype =
     (if qtype \<notin> {TypeA, TypeAAAA, TypeHTTPS} then Inr empty_result
      else case searchHost eng host qtype of
        None \<Rightarrow> Inr empty_result
      | Some rewrite \<Rightarrow> newResult rewrite qtype)"

text \<open>The record types that are looked up have different names without a blank.\<close>

definition type_names_ok :: "(qtype \<Rightarrow> string) \<Rightarrow> bool" where
  "type_names_ok ts \<longleftrightarrow>
     inj_on ts ss_types \<and> (\<forall>t \<in> ss_types. CHR '' '' \<notin> set (ts t))"

text \<open>Every entry of the cache is what the current engine answers.\<close>

definition cache_inv :: "('c, string, cached) cache_ops \<Rightarrow> (qtype \<Rightarrow> string) \<Rightarrow> 'c safesearch \<Rightarrow> bool" where
  "cache_inv ops ts ss \<longleftrightarrow>
     (\<forall>t \<in> ss_types. \<forall>h e r.
        cache_get ops (ss_cache ss) (cache_key ts t h) = Some (e, r) \<longrightarrow>
        ss_check_plain (ss_engine ss) h t = Inr r)"

lemma cache_invD:
  "cache_inv ops ts ss \<Longrightarrow> cache_get ops (ss_cache ss) (cache_key ts t h) = Some (e, r) \<Longrightarrow>
   t \<in> ss_types \<Longrightarrow> ss_check_plain (ss_engine ss) h t = Inr r"
  unfolding cache_inv_def by blast

lemma cache_key_inj:
  assumes "type_names_ok ts" "t \<in> ss_types" "t' \<in> ss_types"
    and "cache_key ts t h = cache_key ts t' h'"
  shows "t = t' \<and> h = h'"
proof -
  have tw: "takeWhile (\<lambda>c. c \<noteq> CHR '' '') (s @ '' '' @ h) = s" if "CHR '' '' \<notin> set s" for s h :: string
    using that by (induction s) auto
  have "ts t = takeWhile (\<lambda>c. c \<noteq> CHR '' '') (cache_key ts t h)"
    unfolding cache_key_def by (rule tw [symmetric]) (use assms(1,2) in \<open>simp add: type_names_ok_def\<close>)
  also have "\<dots> = takeWhile (\<lambda>c. c \<noteq> CHR '' '') (cache_key ts t' h')" by (simp only: assms(4))
  also have "\<dots> = ts t'"
    unfolding cache_key_def by (rule tw) (use assms(1,3) in \<open>simp add: type_names_ok_def\<close>)
  finally have "ts t = ts t'" .
  moreover from this assms(4) have "h = h'" by (simp add: cache_key_def)
  ultimately show ?thesis using assms(1-3) by (auto simp: type_names_ok_def dest: inj_onD)
qed

lemma cache_inv_del:
  "cache_laws ops \<Longrightarrow> cache_inv ops ts ss \<Longrightarrow>
   cache_inv ops ts (ss\<lparr>ss_cache := cache_del ops k (ss_cache ss)\<rparr>)"
  unfolding cache_inv_def by (auto dest: cache_laws_del)

lemma cache_inv_set:
  assumes "cache_laws ops" "type_names_ok ts" "t \<in> ss_types"
    and "cache_inv ops ts ss" "ss_check_plain (ss_engine ss) h t = Inr r"
  shows "cache_inv ops ts (setCacheResult ops ts now h t r ss)"
  unfolding cache_inv_def
proof (intro ballI allI impI)
  fix t' h' e' r'
  let ?ss = "setCacheResult ops ts now h t r ss"
  assume t': "t' \<in> ss_types"
    and get: "cache_get ops (ss_cache ?ss) (cache_key ts t' h') = Some (e', r')"
  note law = cache_laws_set [OF assms(1), of "cache_key ts t h"
    "(word_of_int (now + ss_cache_ttl ss), r)" "ss_cache ss" "cache_key ts t' h'" "(e', r')"]
  show "ss_check_plain (ss_engine ?ss) h' t' = Inr r'"
  proof (cases "cache_key ts t' h' = cache_key ts t h")
    case True
    with law get have "r' = r" by (simp add: setCacheResult_def)
    with cache_key_inj [OF assms(2) t' assms(3) True] assms(5) show ?thesis
      by (simp add: setCacheResult_def)
  next
    case False
    with law get have "cache_get ops (ss_cache ss) (cache_key ts t' h') = Some (e', r')"
      by (simp add: setCacheResult_def)
    from cache_invD [OF assms(4) this t'] show ?thesis by (simp add: setCacheResult_def)
  qed
qed

lemma getCachedResult_inv:
  assumes "cache_laws ops" "cache_inv ops ts ss" "t \<in> ss_types"
    and "getCachedResult ops ts now h t ss = (ro, ss1)"
  shows "cache_inv ops ts ss1 \<and> ss_engine ss1 = ss_engine ss \<and>
    (\<forall>r. ro = Some r \<longrightarrow> ss_check_plain (ss_engine ss) h t = Inr r)"
  using assms cache_invD [OF assms(2) _ assms(3)]
  by (auto simp: getCachedResult_def cache_inv_del split: option.splits if_splits prod.splits)

lemmas ss_CheckHost_eq = ss_CheckHost_def [folded ss_types_def]
lemmas ss_check_plain_eq = ss_check_plain_def [folded ss_types_def]

text \<open>C34: The cache of safe search results never changes an answer.  In every state whose cached
  results are those of its engine, a check answers as the engine alone would, at every time and with any
  cache that forgets at will, and leaves a state with the same property and the same engine.\<close>

theorem safesearch_cache_transparent:
  assumes "cache_laws ops" "type_names_ok ts" "cache_inv ops ts ss"
  shows "fst (ss_CheckHost ops ts now host qtype ss) = ss_check_plain (ss_engine ss) host qtype \<and>
    cache_inv ops ts (snd (ss_CheckHost ops ts now host qtype ss)) \<and>
    ss_engine (snd (ss_CheckHost ops ts now host qtype ss)) = ss_engine ss"
proof (cases "qtype \<in> ss_types")
  case False
  with assms show ?thesis by (simp add: ss_CheckHost_eq ss_check_plain_eq)
next
  case True
  obtain ro ss1 where g: "getCachedResult ops ts now host qtype ss = (ro, ss1)" by force
  note inv = getCachedResult_inv [OF assms(1,3) True g]
  show ?thesis
  proof (cases ro)
    case (Some r)
    with g inv True show ?thesis by (simp add: ss_CheckHost_eq)
  next
    case None
    show ?thesis
    proof (cases "searchHost (ss_engine ss) host qtype")
      case None
      with \<open>ro = None\<close> g inv True show ?thesis
        by (simp add: ss_CheckHost_eq ss_check_plain_eq)
    next
      case (Some rw)
      have plain: "ss_check_plain (ss_engine ss1) host qtype = newResult rw qtype"
        using inv Some True by (simp add: ss_check_plain_eq)
      show ?thesis
      proof (cases "newResult rw qtype")
        case (Inl e)
        with plain Some \<open>ro = None\<close> g inv True show ?thesis by (simp add: ss_CheckHost_eq)
      next
        case (Inr res)
        with plain have "cache_inv ops ts (setCacheResult ops ts now host qtype res ss1)"
          using cache_inv_set [OF assms(1,2) True] inv by simp
        with Inr plain Some \<open>ro = None\<close> g inv True show ?thesis
          by (simp add: ss_CheckHost_eq setCacheResult_def)
      qed
    qed
  qed
qed

text \<open>Updating the settings empties the cache and keeps the state consistent; settings that are
  switched off leave the previous engine in place, so that the filter goes on rewriting names as
  before.\<close>

theorem safesearch_update:
  assumes "cache_laws ops" "cache_inv ops ts ss"
    and "ss_Update ops mk_engine rules conf ss = Some (err, ss')"
  shows "cache_inv ops ts ss' \<and>
    (err = None \<longrightarrow> (\<forall>k. cache_get ops (ss_cache ss') k = None)) \<and>
    (\<not> ssc_enabled conf \<longrightarrow> err = None \<and> ss_engine ss' = ss_engine ss)"
proof -
  from assms(3) consider (fail) e where "err = Some e" "ss' = ss"
    | (ok) ss1 where "err = None" "ss' = ss1\<lparr>ss_cache := cache_clear ops (ss_cache ss1)\<rparr>"
    by (auto simp: ss_Update_def split: option.splits sum.splits)
  then have "cache_inv ops ts ss' \<and> (err = None \<longrightarrow> (\<forall>k. cache_get ops (ss_cache ss') k = None))"
    using assms(1,2) by cases (auto simp: cache_inv_def cache_laws_clear)
  moreover have "err = None \<and> ss_engine ss' = ss_engine ss" if "\<not> ssc_enabled conf"
    using assms(3) that by (auto simp: ss_Update_def resetEngine_def)
  ultimately show ?thesis by blast
qed

section \<open>Witnesses\<close>

definition sample_types :: "qtype \<Rightarrow> string" where
  "sample_types t = (if t = TypeA then ''A'' else if t = TypeAAAA then ''AAAA'' else ''HTTPS'')"

definition sample_ss_engine :: dns_engine where
  "sample_ss_engine req =
     (\<lparr>res_network_rule = None, res_host_rules_v4 = None, res_host_rules_v6 = None,
       res_dns_rewrites = [(sample_rule ''r'')\<lparr>nr_rewrite := \<lparr>dw_cname = ''safe'', dw_rcode = 0,
         dw_rrtype = 0, dw_value = RVString []\<rparr>\<rparr>]\<rparr>, False)"

abbreviation sample_ss :: "(string \<rightharpoonup> cached) safesearch" where
  "sample_ss \<equiv> \<lparr>ss_engine = Some sample_ss_engine, ss_cache = (\<lambda>_. None), ss_cache_ttl = 60\<rparr>"

lemma sample_types_ok: "type_names_ok sample_types"
  by (simp add: type_names_ok_def ss_types_def sample_types_def qtype_defs)

lemma sample_ss_inv: "cache_inv map_cache sample_types sample_ss"
  by (simp add: cache_inv_def map_cache_def)

theorem safesearch_cache_transparent_witness:
  "fst (ss_CheckHost map_cache sample_types 0 ''search'' TypeA
      (snd (ss_CheckHost map_cache sample_types 0 ''search'' TypeA sample_ss))) =
   ss_check_plain (Some sample_ss_engine) ''search'' TypeA"
  using safesearch_cache_transparent [OF map_cache_laws sample_types_ok sample_ss_inv]
    safesearch_cache_transparent [OF map_cache_laws sample_types_ok,
      of "snd (ss_CheckHost map_cache sample_types 0 ''search'' TypeA sample_ss)"] by simp

abbreviation no_safesearch :: safe_search_config where
  "no_safesearch \<equiv> \<lparr>ssc_enabled = False, ssc_bing = False, ssc_duckduckgo = False, ssc_ecosia = False,
     ssc_google = False, ssc_pixabay = False, ssc_yandex = False, ssc_youtube = False\<rparr>"

theorem safesearch_update_witness:
  "\<exists>ss'. ss_Update map_cache (\<lambda>_ _. Inl ''bad'') [] no_safesearch sample_ss = Some (None, ss') \<and>
     ss_engine ss' = Some sample_ss_engine"
proof -
  have "ss_Update map_cache (\<lambda>_ _. Inl ''bad'') [] no_safesearch sample_ss = Some (None, sample_ss)"
    by (simp add: ss_Update_def resetEngine_def map_cache_def)
  from safesearch_update [OF map_cache_laws sample_ss_inv this] this show ?thesis by auto
qed

end
