(* ===== verification/RuleParser.thy ===== *)
theory RuleParser
  imports NetIP
begin

text \<open>
  The parser of rule lists, \<^verbatim>\<open>internal/filtering/rulelist/parser.go\<close>: it copies the rules of a list
  to a destination, one per line and trimmed, counts them, sums them up and picks the title.  The
  parts of the standard library that it uses are modelled with it: the line scanner of \<^verbatim>\<open>bufio\<close> with
  its limit on the length of a line, \<^verbatim>\<open>bytes.TrimSpace\<close> with the white space of Unicode in UTF-8, and
  the CRC-32 of \<^verbatim>\<open>hash/crc32\<close>.  The destination is the text written so far; its failures are an
  argument.
\<close>

section \<open>Standard library\<close>

text \<open>The UTF-8 encodings of the code points that \<^verbatim>\<open>unicode.IsSpace\<close> accepts.\<close>

definition space_seqs :: "string list" where
  "space_seqs =
     [[CHR 0x09], [CHR 0x0A], [CHR 0x0B], [CHR 0x0C], [CHR 0x0D], [CHR 0x20],
      [CHR 0xC2, CHR 0x85], [CHR 0xC2, CHR 0xA0], [CHR 0xE1, CHR 0x9A, CHR 0x80]] @
     map (\<lambda>b. [CHR 0xE2, CHR 0x80, b])
       [CHR 0x80, CHR 0x81, CHR 0x82, CHR 0x83, CHR 0x84, CHR 0x85, CHR 0x86,
        CHR 0x87, CHR 0x88, CHR 0x89, CHR 0x8A, CHR 0xA8, CHR 0xA9, CHR 0xAF] @
     [[CHR 0xE2, CHR 0x81, CHR 0x9F], [CHR 0xE3, CHR 0x80, CHR 0x80]]"

lemma space_seqs_nonempty: "w \<in> set space_seqs \<Longrightarrow> w \<noteq> []"
  by (auto simp: space_seqs_def)

text \<open>Removing white space from the front; the end is the front of the reversed text.\<close>

function trim_front :: "string list \<Rightarrow> string \<Rightarrow> string" where
  "trim_front ws s =
     (case find (\<lambda>w. w \<noteq> [] \<and> has_prefix s w) ws of
        None \<Rightarrow> s
      | Some w \<Rightarrow> trim_front ws (drop (length w) s))"
  by pat_completeness auto
termination
  by (relation "measure (\<lambda>(ws, s). length s)")
    (auto simp: find_Some_iff has_prefix_iff)

declare trim_front.simps [simp del]

definition TrimSpace :: "string \<Rightarrow> string" where
  "TrimSpace s = rev (trim_front (map rev space_seqs) (rev (trim_front space_seqs s)))"

text \<open>The lines of \<^verbatim>\<open>bufio.ScanLines\<close>: one carriage return at the end is dropped, and so is an empty
  last line.  A line that does not fit into the buffer stops the scan.\<close>

definition MaxScanTokenSize :: nat where
  "MaxScanTokenSize = 64 * 1024"

definition drop_cr :: "string \<Rightarrow> string" where
  "drop_cr l = (if l \<noteq> [] \<and> last l = CHR 0x0D then butlast l else l)"

definition raw_lines :: "string \<Rightarrow> string list" where
  "raw_lines s = (let ls = split_on CHR 0x0A s in if last ls = [] then butlast ls else ls)"

definition crc_bit :: "32 word \<Rightarrow> 32 word" where
  "crc_bit c = (if bit c 0 then xor (drop_bit 1 c) 0xEDB88320 else drop_bit 1 c)"

definition crc_byte :: "32 word \<Rightarrow> char \<Rightarrow> 32 word" where
  "crc_byte crc b =
     xor ((crc_bit ^^ 8) (xor (and crc 0xFF) (of_nat (of_char b)))) (drop_bit 8 crc)"

definition crc32_update :: "32 word \<Rightarrow> string \<Rightarrow> 32 word" where
  "crc32_update crc bs = not (foldl crc_byte (not crc) bs)"

lemma crc32_update_append: "crc32_update (crc32_update c a) b = crc32_update c (a @ b)"
  by (simp add: crc32_update_def)

section \<open>The parser\<close>

record parser =
  p_title :: string
  p_rulesCount :: nat
  p_written :: nat
  p_checksum :: "32 word"
  p_titleFound :: bool

record parse_result =
  pr_title :: string
  pr_rulesCount :: nat
  pr_bytesWritten :: nat
  pr_checksum :: "32 word"

datatype parse_error = ErrHTML | ErrBinary nat nat char | ErrWrite string | ErrTooLong

definition NewParser :: parser where
  "NewParser = \<lparr>p_title = [], p_rulesCount = 0, p_written = 0, p_checksum = 0, p_titleFound = False\<rparr>"

definition parser_result :: "parser \<Rightarrow> parse_result" where
  "parser_result p = \<lparr>pr_title = p_title p, pr_rulesCount = p_rulesCount p,
     pr_bytesWritten = p_written p, pr_checksum = p_checksum p\<rparr>"

definition hasPrefixFold :: "string \<Rightarrow> string \<Rightarrow> bool" where
  "hasPrefixFold b prefix \<longleftrightarrow>
     length prefix \<le> length b \<and> to_lower (take (length prefix) b) = to_lower prefix"

definition isHTMLLine :: "string \<Rightarrow> bool" where
  "isHTMLLine line \<longleftrightarrow> hasPrefixFold line ''<html'' \<or> hasPrefixFold line ''<!doctype''"

definition likelyBinary :: "char \<Rightarrow> bool" where
  "likelyBinary c \<longleftrightarrow>
     (let b = (of_char c :: nat) in (b < 32 \<or> b = 127) \<and> b \<noteq> 10 \<and> b \<noteq> 13 \<and> b \<noteq> 9)"

text \<open>\<^verbatim>\<open>slices.IndexFunc\<close>, with \<^term>\<open>None\<close> for \<open>-1\<close>.\<close>

definition index_of :: "('a \<Rightarrow> bool) \<Rightarrow> 'a list \<Rightarrow> nat option" where
  "index_of p xs =
     (let i = length (takeWhile (\<lambda>x. \<not> p x) xs) in if i < length xs then Some i else None)"

definition parseLine :: "string \<Rightarrow> nat option \<times> bool" where
  "parseLine line =
     (if line = [] \<or> hd line = CHR ''#'' \<or> hd line = CHR ''!'' then (None, False)
      else let badIdx = index_of likelyBinary line in (badIdx, badIdx = None))"

definition parseLineTitle :: "string \<Rightarrow> parser \<Rightarrow> (nat option \<times> bool) \<times> parser" where
  "parseLineTitle line p =
     (if line = [] \<or> hd line = CHR ''#'' then ((None, False), p)
      else if hd line \<noteq> CHR ''!'' then
        (let badIdx = index_of likelyBinary line in ((badIdx, badIdx = None), p))
      else if \<not> has_prefix line ''! Title: '' then ((None, False), p)
      else
        let title = TrimSpace (drop (length ''! Title: '') line) in
        ((None, False), if title \<noteq> [] then p\<lparr>p_title := title, p_titleFound := True\<rparr> else p))"

text \<open>\<^verbatim>\<open>bytes.Index\<close>; the needle always occurs where the parser calls it.\<close>

fun str_index :: "string \<Rightarrow> string \<Rightarrow> nat" where
  "str_index [] t = 0"
| "str_index (c # s) t = (if has_prefix (c # s) t then 0 else Suc (str_index s t))"

text \<open>
  A failing write returns the number of bytes written and an error; \<open>wfail\<close> gives it for the text
  written so far and the new piece, \<^term>\<open>None\<close> meaning that all of it was written.
\<close>

type_synonym write_failure = "string \<Rightarrow> string \<Rightarrow> (nat \<times> string) option"

definition processLine ::
  "write_failure \<Rightarrow> string \<Rightarrow> nat \<Rightarrow> parser \<Rightarrow> string \<Rightarrow> parse_error option \<times> parser \<times> string" where
  "processLine wfail line lineNum p out =
     (let trimmed = TrimSpace line in
      if p_written p = 0 \<and> isHTMLLine trimmed then (Some ErrHTML, p, out)
      else
        case (if p_titleFound p then (parseLine trimmed, p) else parseLineTitle trimmed p) of
          ((Some badIdx, _), p1) \<Rightarrow>
            (Some (ErrBinary lineNum (badIdx + str_index line trimmed + 1) (trimmed ! badIdx)), p1, out)
        | ((None, False), p1) \<Rightarrow> (None, p1, out)
        | ((None, True), p1) \<Rightarrow>
            (let p2 = p1\<lparr>p_rulesCount := p_rulesCount p1 + 1,
                         p_checksum := crc32_update (p_checksum p1) trimmed\<rparr>;
                 chunk = trimmed @ [CHR 0x0A]
             in case wfail out chunk of
                  None \<Rightarrow> (None, p2\<lparr>p_written := p_written p2 + length chunk\<rparr>, out @ chunk)
                | Some (n, e) \<Rightarrow>
                    (Some (ErrWrite e), p2\<lparr>p_written := p_written p2 + n\<rparr>, out @ take n chunk)))"

fun parse_lines ::
  "write_failure \<Rightarrow> string list \<Rightarrow> nat \<Rightarrow> parser \<Rightarrow> string \<Rightarrow> parse_error option \<times> parser \<times> string" where
  "parse_lines wfail [] lineNum p out = (None, p, out)"
| "parse_lines wfail (l # ls) lineNum p out =
     (if MaxScanTokenSize \<le> length l then (Some ErrTooLong, p, out)
      else case processLine wfail (drop_cr l) lineNum p out of
        (Some e, p1, out1) \<Rightarrow> (Some e, p1, out1)
      | (None, p1, out1) \<Rightarrow> parse_lines wfail ls (lineNum + 1) p1 out1)"

text \<open>\<open>Parse\<close> returns its result, the error and what was written to the destination.\<close>

definition Parse :: "write_failure \<Rightarrow> string \<Rightarrow> parse_result \<times> parse_error option \<times> string" where
  "Parse wfail src =
     (case parse_lines wfail (raw_lines src) 1 NewParser [] of
        (err, p, out) \<Rightarrow> (parser_result p, err, out))"

section \<open>Trimming\<close>

lemma trim_front_suffix: "\<exists>u. s = u @ trim_front ws s"
proof (induction ws s rule: trim_front.induct)
  case (1 ws s)
  show ?case
  proof (cases "find (\<lambda>w. w \<noteq> [] \<and> has_prefix s w) ws")
    case None
    then show ?thesis by (subst trim_front.simps) simp
  next
    case (Some w)
    then have "s = w @ drop (length w) s" by (auto simp: find_Some_iff has_prefix_iff)
    moreover obtain u where "drop (length w) s = u @ trim_front ws (drop (length w) s)"
      using 1 [OF Some] by blast
    ultimately have "s = (w @ u) @ trim_front ws (drop (length w) s)" by simp
    moreover have "trim_front ws s = trim_front ws (drop (length w) s)"
      using Some by (subst trim_front.simps) simp
    ultimately show ?thesis by metis
  qed
qed

lemma trim_front_fix: "w \<in> set ws \<Longrightarrow> w \<noteq> [] \<Longrightarrow> \<not> has_prefix (trim_front ws s) w"
proof (induction ws s rule: trim_front.induct)
  case (1 ws s)
  then show ?case
    by (subst trim_front.simps) (auto simp: find_None_iff split: option.split)
qed

lemma trim_front_id: "(\<And>w. w \<in> set ws \<Longrightarrow> w \<noteq> [] \<Longrightarrow> \<not> has_prefix s w) \<Longrightarrow> trim_front ws s = s"
  by (subst trim_front.simps) (auto simp: find_Some_iff split: option.split)

lemma TrimSpace_parts: "\<exists>u v. s = u @ TrimSpace s @ v"
proof -
  obtain u where u: "s = u @ trim_front space_seqs s" using trim_front_suffix by blast
  obtain v where "rev (trim_front space_seqs s) = v @ rev (TrimSpace s)"
    unfolding TrimSpace_def using trim_front_suffix by (metis rev_rev_ident)
  then have "trim_front space_seqs s = TrimSpace s @ rev v" by (metis rev_append rev_rev_ident)
  with u show ?thesis by metis
qed

lemma TrimSpace_idem [simp]: "TrimSpace (TrimSpace s) = TrimSpace s"
proof -
  let ?u = "trim_front space_seqs s"
  obtain v where "rev ?u = v @ rev (TrimSpace s)"
    unfolding TrimSpace_def using trim_front_suffix by (metis rev_rev_ident)
  then have u: "?u = TrimSpace s @ rev v" by (metis rev_append rev_rev_ident)
  have "\<not> has_prefix (TrimSpace s) w" if "w \<in> set space_seqs" for w
    using trim_front_fix [OF that space_seqs_nonempty [OF that], of s] u
    by (metis append.assoc has_prefix_iff)
  then have front: "trim_front space_seqs (TrimSpace s) = TrimSpace s" by (blast intro: trim_front_id)
  have "trim_front (map rev space_seqs) (rev (TrimSpace s)) = rev (TrimSpace s)"
    unfolding TrimSpace_def rev_rev_ident by (rule trim_front_id) (rule trim_front_fix)
  then show ?thesis by (subst TrimSpace_def) (simp add: front)
qed

lemma TrimSpace_set: "set (TrimSpace s) \<subseteq> set s"
  using TrimSpace_parts [of s] by (metis set_append sup_ge1 sup_ge2 order_trans)

lemma TrimSpace_length: "length (TrimSpace s) \<le> length s"
  using TrimSpace_parts [of s] by (metis le_add1 le_add2 length_append order_trans)

lemma TrimSpace_no_cr [simp]: "drop_cr (TrimSpace s) = TrimSpace s"
proof -
  have cr: "[CHR 0x0D] \<in> set (map rev space_seqs)" by code_simp
  have "\<not> has_prefix (rev (TrimSpace s)) [CHR 0x0D]"
    unfolding TrimSpace_def rev_rev_ident using trim_front_fix [OF cr] by simp
  then have "TrimSpace s \<noteq> [] \<Longrightarrow> last (TrimSpace s) \<noteq> CHR 0x0D"
    by (cases "TrimSpace s" rule: rev_cases) (auto simp: has_prefix_def)
  then show ?thesis by (auto simp: drop_cr_def)
qed

section \<open>What the parser computes\<close>

definition is_rule :: "string \<Rightarrow> bool" where
  "is_rule l \<longleftrightarrow> l \<noteq> [] \<and> hd l \<noteq> CHR ''#'' \<and> hd l \<noteq> CHR ''!'' \<and> (\<forall>c \<in> set l. \<not> likelyBinary c)"

text \<open>The rules of a text: its trimmed lines that are rules.\<close>

definition rules_of :: "string \<Rightarrow> string list" where
  "rules_of src = filter is_rule (map (TrimSpace \<circ> drop_cr) (raw_lines src))"

definition write_rules :: "string list \<Rightarrow> string" where
  "write_rules rs = concat (map (\<lambda>l. l @ [CHR 0x0A]) rs)"

abbreviation no_failure :: write_failure where
  "no_failure \<equiv> \<lambda>_ _. None"

lemma index_of_None: "index_of P xs = None \<longleftrightarrow> (\<forall>x \<in> set xs. \<not> P x)"
proof -
  have "\<not> length (takeWhile (\<lambda>x. \<not> P x) xs) < length xs \<longleftrightarrow> (\<forall>x \<in> set xs. \<not> P x)"
    by (induction xs) auto
  then show ?thesis by (auto simp: index_of_def Let_def)
qed

lemma parseLine_rule: "parseLine l = (None, b) \<Longrightarrow> b = is_rule l"
  by (auto simp: parseLine_def is_rule_def Let_def index_of_None split: if_splits)

lemma parseLineTitle_rule:
  "parseLineTitle l p = ((None, b), p1) \<Longrightarrow>
   b = is_rule l \<and> p_rulesCount p1 = p_rulesCount p \<and> p_written p1 = p_written p \<and>
   p_checksum p1 = p_checksum p"
  by (auto simp: parseLineTitle_def is_rule_def Let_def index_of_None split: if_splits)

lemma processLine_ok:
  assumes "processLine no_failure line n p out = (None, p1, out1)"
  shows "\<not> (p_written p = 0 \<and> isHTMLLine (TrimSpace line)) \<and>
    (let rs = filter is_rule [TrimSpace line] in
     out1 = out @ write_rules rs \<and> p_rulesCount p1 = p_rulesCount p + length rs \<and>
     p_written p1 = p_written p + length (write_rules rs) \<and>
     p_checksum p1 = foldl crc32_update (p_checksum p) rs)"
proof -
  let ?t = "TrimSpace line"
  obtain bi b p0 where parsed: "(if p_titleFound p then (parseLine ?t, p) else parseLineTitle ?t p) = ((bi, b), p0)"
    by (metis surj_pair)
  with assms have bi: "bi = None" and html: "\<not> (p_written p = 0 \<and> isHTMLLine ?t)"
    by (auto simp: processLine_def Let_def split: if_splits option.splits)
  from parsed bi have p0: "b = is_rule ?t" "p_rulesCount p0 = p_rulesCount p"
    "p_written p0 = p_written p" "p_checksum p0 = p_checksum p"
    using parseLine_rule parseLineTitle_rule by (auto split: if_splits)
  from assms parsed bi html p0 show ?thesis
    by (cases b) (auto simp: processLine_def Let_def write_rules_def)
qed

lemma parse_lines_ok:
  "parse_lines no_failure ls n p out = (None, p1, out1) \<Longrightarrow>
   (let rs = filter is_rule (map (TrimSpace \<circ> drop_cr) ls) in
    out1 = out @ write_rules rs \<and> p_rulesCount p1 = p_rulesCount p + length rs \<and>
    p_written p1 = p_written p + length (write_rules rs) \<and>
    p_checksum p1 = foldl crc32_update (p_checksum p) rs \<and>
    (p_written p = 0 \<and> rs \<noteq> [] \<longrightarrow> \<not> isHTMLLine (hd rs)) \<and>
    (\<forall>l \<in> set ls. length l < MaxScanTokenSize))"
proof (induction ls arbitrary: n p out)
  case (Cons l ls)
  from Cons.prems obtain p0 out0 where one: "processLine no_failure (drop_cr l) n p out = (None, p0, out0)"
    and rest: "parse_lines no_failure ls (n + 1) p0 out0 = (None, p1, out1)"
    and len: "length l < MaxScanTokenSize"
    by (auto split: if_splits prod.splits option.splits)
  from processLine_ok [OF one] Cons.IH [OF rest] len show ?case
    by (auto simp: Let_def write_rules_def split: if_splits)
qed (simp add: write_rules_def)

lemma foldl_crc: "foldl crc32_update c rs = crc32_update c (concat rs)"
proof (induction rs arbitrary: c)
  case Nil
  show ?case by (simp add: crc32_update_def)
qed (simp add: crc32_update_append)

lemma parse_fields:
  assumes "Parse no_failure src = (r, None, out)"
  shows "out = write_rules (rules_of src) \<and> pr_rulesCount r = length (rules_of src) \<and>
    pr_bytesWritten r = length out \<and> pr_checksum r = crc32_update 0 (concat (rules_of src))"
proof -
  obtain p where "parse_lines no_failure (raw_lines src) 1 NewParser [] = (None, p, out)"
    and "r = parser_result p"
    using assms by (auto simp: Parse_def split: prod.splits)
  from this(2) parse_lines_ok [OF this(1)] show ?thesis
    by (simp add: Let_def NewParser_def parser_result_def rules_of_def foldl_crc)
qed

section \<open>Reading back\<close>

lemma processLine_rule:
  assumes "is_rule l" "TrimSpace l = l" "p_written p = 0 \<longrightarrow> \<not> isHTMLLine l"
  shows "\<exists>p1 out1. processLine no_failure l n p out = (None, p1, out1) \<and> p_written p1 \<noteq> 0"
proof -
  have "index_of likelyBinary l = None" using assms(1) by (simp add: index_of_None is_rule_def)
  with assms show ?thesis
    by (auto simp: processLine_def Let_def parseLine_def parseLineTitle_def is_rule_def)
qed

lemma parse_lines_rules:
  assumes "\<forall>l \<in> set rs. is_rule l \<and> TrimSpace l = l \<and> drop_cr l = l \<and> length l < MaxScanTokenSize"
    and "p_written p = 0 \<and> rs \<noteq> [] \<longrightarrow> \<not> isHTMLLine (hd rs)"
  shows "\<exists>p1 out1. parse_lines no_failure rs n p out = (None, p1, out1)"
  using assms
proof (induction rs arbitrary: n p out)
  case (Cons l rs)
  then obtain p0 out0 where l: "processLine no_failure l n p out = (None, p0, out0)" "p_written p0 \<noteq> 0"
    using processLine_rule [of l p n out] by auto
  with Cons show ?case by simp
qed simp

lemma split_on_lines:
  "\<forall>l \<in> set rs. c \<notin> set l \<Longrightarrow> split_on c (concat (map (\<lambda>l. l @ [c]) rs)) = rs @ [[]]"
proof (induction rs)
  case (Cons l rs)
  have "split_on c (l @ c # s) = l # split_on c s" if "c \<notin> set l" for s
    using that by (induction l) auto
  with Cons show ?case by simp
qed simp

lemma split_on_sep: "l \<in> set (split_on c s) \<Longrightarrow> c \<notin> set l"
proof (induction s arbitrary: l)
  case (Cons x s)
  obtain q qs where q: "split_on c s = q # qs" using split_on_nonempty by (metis neq_Nil_conv)
  with Cons show ?case by (auto split: if_splits)
qed simp

lemma raw_lines_write: "\<forall>l \<in> set rs. CHR 0x0A \<notin> set l \<Longrightarrow> raw_lines (write_rules rs) = rs"
  by (simp add: raw_lines_def write_rules_def split_on_lines Let_def)

lemma rule_no_newline:
  assumes "l \<in> set (rules_of src)"
  shows "CHR 0x0A \<notin> set l"
proof -
  obtain r where r: "r \<in> set (raw_lines src)" "l = TrimSpace (drop_cr r)"
    using assms by (auto simp: rules_of_def)
  then have "CHR 0x0A \<notin> set r"
    by (auto simp: raw_lines_def Let_def dest: in_set_butlastD split_on_sep split: if_splits)
  then show ?thesis
    using r(2) TrimSpace_set [of "drop_cr r"] by (auto simp: drop_cr_def dest: in_set_butlastD split: if_splits)
qed

lemma rules_of_write: "rules_of (write_rules (rules_of src)) = rules_of src"
proof -
  have "filter is_rule (map (TrimSpace \<circ> drop_cr) (rules_of src)) = rules_of src"
    by (rule trans [OF filter_True map_idI]) (auto simp: rules_of_def)
  then show ?thesis
    by (subst rules_of_def) (simp add: raw_lines_write rule_no_newline)
qed

lemma parse_again:
  assumes "Parse no_failure src = (r, None, out)"
  shows "\<exists>r'. Parse no_failure out = (r', None, out) \<and> pr_rulesCount r' = pr_rulesCount r \<and>
    pr_bytesWritten r' = pr_bytesWritten r \<and> pr_checksum r' = pr_checksum r"
proof -
  obtain p where pl: "parse_lines no_failure (raw_lines src) 1 NewParser [] = (None, p, out)"
    using assms by (auto simp: Parse_def split: prod.splits)
  note ok = parse_lines_ok [OF pl, unfolded Let_def, folded rules_of_def]
  have out: "out = write_rules (rules_of src)" using ok by simp
  have raw: "raw_lines out = rules_of src" unfolding out by (simp add: raw_lines_write rule_no_newline)
  have short: "length l < MaxScanTokenSize" if l: "l \<in> set (rules_of src)" for l
  proof -
    obtain x where "x \<in> set (raw_lines src)" "l = TrimSpace (drop_cr x)" using l by (auto simp: rules_of_def)
    then show ?thesis
      using ok TrimSpace_length [of "drop_cr x"] by (fastforce simp: drop_cr_def split: if_splits)
  qed
  have "\<forall>l \<in> set (rules_of src). is_rule l \<and> TrimSpace l = l \<and> drop_cr l = l \<and> length l < MaxScanTokenSize"
    using short by (auto simp: rules_of_def)
  moreover have "p_written NewParser = 0 \<and> rules_of src \<noteq> [] \<longrightarrow> \<not> isHTMLLine (hd (rules_of src))"
    using ok by (simp add: NewParser_def)
  ultimately obtain p1 out1 where re: "parse_lines no_failure (raw_lines out) 1 NewParser [] = (None, p1, out1)"
    using parse_lines_rules unfolding raw by metis
  then have P: "Parse no_failure out = (parser_result p1, None, out1)" by (simp add: Parse_def)
  note ok1 = parse_lines_ok [OF re, unfolded Let_def, folded rules_of_def]
  have "r = parser_result p" using assms pl by (simp add: Parse_def)
  with P ok ok1 show ?thesis
    by (simp add: out rules_of_write parser_result_def)
qed

text \<open>A destination that reports no error is one that never fails.\<close>

lemma processLine_write_ok:
  "processLine wfail l n p out = (None, p1, out1) \<Longrightarrow> processLine no_failure l n p out = (None, p1, out1)"
  by (auto simp: processLine_def Let_def split: if_splits prod.splits option.splits bool.splits)

lemma parse_lines_write_ok:
  "parse_lines wfail ls n p out = (None, p1, out1) \<Longrightarrow> parse_lines no_failure ls n p out = (None, p1, out1)"
proof (induction ls arbitrary: n p out)
  case (Cons l ls)
  then obtain p0 out0 where "processLine wfail (drop_cr l) n p out = (None, p0, out0)"
    "parse_lines wfail ls (n + 1) p0 out0 = (None, p1, out1)" "length l < MaxScanTokenSize"
    by (auto split: if_splits prod.splits option.splits)
  with Cons.IH processLine_write_ok show ?case by fastforce
qed simp

lemma parse_write_ok: "Parse wfail src = (r, None, out) \<Longrightarrow> Parse no_failure src = (r, None, out)"
  by (auto simp: Parse_def dest: parse_lines_write_ok split: prod.splits)

text \<open>C30: Parsing a rule list that has no error writes exactly its rules, which are the trimmed lines that
  are neither empty nor comments, one per line; it counts them and the bytes written, and its checksum is
  the CRC-32 of all rules put together.\<close>

theorem parse_functional:
  assumes "Parse wfail src = (r, None, out)"
  shows "out = write_rules (rules_of src) \<and> pr_rulesCount r = length (rules_of src) \<and>
    pr_bytesWritten r = length out \<and> pr_checksum r = crc32_update 0 (concat (rules_of src))"
  by (rule parse_fields [OF parse_write_ok [OF assms]])

text \<open>C31: A stored rule list survives being read again.  The text that a parse without an error wrote
  is itself parsed without an error into the same text, with the same number of rules and bytes and the
  same checksum; only the title, a comment, is gone.\<close>

theorem parse_reparse:
  assumes "Parse wfail src = (r, None, out)"
  shows "\<exists>r'. Parse no_failure out = (r', None, out) \<and> pr_rulesCount r' = pr_rulesCount r \<and>
    pr_bytesWritten r' = pr_bytesWritten r \<and> pr_checksum r' = pr_checksum r"
  using parse_again [OF parse_write_ok [OF assms]] .

section \<open>Witnesses\<close>

text \<open>A list of one comment and one rule.\<close>

definition sample_list :: string where
  "sample_list = ''! c'' @ [CHR 0x0A] @ '' a''"

lemma sample_list_parse:
  "\<exists>r. Parse no_failure sample_list = (r, None, ''a'' @ [CHR 0x0A]) \<and> pr_rulesCount r = 1"
proof -
  have raw: "raw_lines sample_list = [''! c'', '' a'']" by code_simp
  have c: "processLine no_failure (drop_cr ''! c'') (Suc 0) NewParser [] = (None, NewParser, [])" by code_simp
  have r: "processLine no_failure (drop_cr '' a'') (Suc (Suc 0)) NewParser [] =
      (None, NewParser\<lparr>p_rulesCount := 1, p_written := 2, p_checksum := crc32_update 0 ''a''\<rparr>, ''a'' @ [CHR 0x0A])"
  proof -
    have "TrimSpace (drop_cr '' a'') = ''a''" by code_simp
    moreover have "\<not> isHTMLLine ''a''" by code_simp
    moreover have "parseLineTitle ''a'' NewParser = ((None, True), NewParser)" by code_simp
    ultimately show ?thesis by (simp add: processLine_def NewParser_def)
  qed
  show ?thesis
    by (simp add: Parse_def raw c r MaxScanTokenSize_def parser_result_def)
qed

theorem parse_functional_witness:
  "\<exists>r. Parse no_failure sample_list = (r, None, write_rules (rules_of sample_list)) \<and>
     pr_rulesCount r = length (rules_of sample_list)"
proof -
  obtain r out where "Parse no_failure sample_list = (r, None, out)" using sample_list_parse by blast
  with parse_functional [OF this] show ?thesis by auto
qed

theorem parse_reparse_witness:
  "\<exists>r. Parse no_failure (''a'' @ [CHR 0x0A]) = (r, None, ''a'' @ [CHR 0x0A]) \<and> pr_rulesCount r = 1"
proof -
  obtain r where "Parse no_failure sample_list = (r, None, ''a'' @ [CHR 0x0A])" "pr_rulesCount r = 1"
    using sample_list_parse by blast
  with parse_reparse [OF this(1)] show ?thesis by auto
qed

end
