(* ===== verification/FilterLists.thy ===== *)
theory FilterLists
  imports Filtering RuleParser
begin

text \<open>
  The rule lists of package \<^verbatim>\<open>internal/filtering\<close> (\<^verbatim>\<open>filter.go\<close>, \<^verbatim>\<open>idgenerator.go\<close>, and the
  loading of lists in \<^verbatim>\<open>filtering.go\<close>): adding and editing lists, loading them from the data
  directory, refreshing them from their sources and building the engines from them.

  Downloads, the clock and the failures of file operations are the record \<open>list_env\<close>, an argument of
  the operations.  The data directory is a map from list identifiers, which name the files, to
  contents and modification times.  Building the storage of module \<^verbatim>\<open>urlfilter\<close> from contents is the
  field \<open>le_storage\<close>, which returns an error, if any; the engine in use is represented by the lists
  it was built from.
\<close>

section \<open>List identifiers\<close>

text \<open>The generator keeps a 32-bit signed counter; \<^term>\<open>None\<close> is the panic on a negative one.\<close>

type_synonym id_generator = "32 word"

definition newIDGenerator :: "int \<Rightarrow> id_generator" where
  "newIDGenerator seed = word_of_int seed"

definition next_id :: "id_generator \<Rightarrow> (list_id \<times> id_generator) option" where
  "next_id g = (let id32 = g + 1 in if sint id32 < 0 then None else Some (sint id32, id32))"

lemma sint_Suc: "0 \<le> sint (g + 1) \<Longrightarrow> sint (g + 1) = sint g + 1" for g :: "32 word"
proof -
  assume nonneg: "0 \<le> sint (g + 1)"
  have sum: "sint (g + 1) = signed_take_bit 31 (sint g + 1)"
    by (simp add: sint_word_ariths)
  have lo: "- (2 ^ 31) \<le> sint g" and hi: "sint g < 2 ^ 31"
    using sint_range_size [of g] by (auto simp: word_size)
  show ?thesis
  proof (cases "sint g + 1 < 2 ^ 31")
    case True
    with lo sum show ?thesis by (simp add: signed_take_bit_int_eq_self)
  next
    case False
    with hi have "sint g + 1 = 2 ^ 31" by linarith
    with sum have "sint (g + 1) = signed_take_bit 31 (2 ^ 31 :: int)" by simp
    then have "sint (g + 1) < 0" by (simp add: signed_take_bit_eq_take_bit_minus)
    with nonneg show ?thesis by simp
  qed
qed

lemma next_id_SomeD: "next_id g = Some (i, g') \<Longrightarrow> i = sint g + 1 \<and> sint g' = i \<and> 0 \<le> i"
  using sint_Suc [of g] by (auto simp: next_id_def Let_def split: if_splits)

text \<open>The inner loop of \<^verbatim>\<open>fix\<close>: the next identifier that is not in use.\<close>

function next_free :: "list_id set \<Rightarrow> id_generator \<Rightarrow> (list_id \<times> id_generator) option" where
  "next_free used g =
     (case next_id g of
        None \<Rightarrow> None
      | Some (i, g') \<Rightarrow> if i \<in> used then next_free used g' else Some (i, g'))"
  by pat_completeness auto
termination
proof (relation "measure (\<lambda>(used, g). nat (2 ^ 31 - sint g))", goal_cases)
  case (2 used g x i g')
  then have "sint g' = sint g + 1" using next_id_SomeD by force
  moreover have "sint g' < 2 ^ 31" using sint_range_size [of g'] by (simp add: word_size)
  ultimately show ?case by simp
qed simp

declare next_free.simps [simp del]

section \<open>Lists\<close>

record filter_yaml =
  fy_enabled :: bool
  fy_url :: string
  fy_name :: string
  fy_rules_count :: nat
  fy_last_updated :: instant
  fy_checksum :: "32 word"
  fy_white :: bool
  fy_id :: list_id

definition zero_time :: instant where
  "zero_time = - 62135596800 * second_ns"

definition fy_unload :: "filter_yaml \<Rightarrow> filter_yaml" where
  "fy_unload flt = flt\<lparr>fy_rules_count := 0, fy_checksum := 0\<rparr>"

definition ensureName :: "string \<Rightarrow> filter_yaml \<Rightarrow> filter_yaml" where
  "ensureName title flt =
     (if fy_name flt \<noteq> [] then flt
      else if title \<noteq> [] then flt\<lparr>fy_name := title\<rparr>
      else flt\<lparr>fy_name := ''List '' @ dec_int (fy_id flt)\<rparr>)"

text \<open>The loop of \<^verbatim>\<open>fix\<close>, with the identifiers seen so far.\<close>

fun fix_ids ::
  "list_id set \<Rightarrow> filter_yaml list \<Rightarrow> id_generator \<Rightarrow> (filter_yaml list \<times> id_generator) option" where
  "fix_ids used [] g = Some ([], g)"
| "fix_ids used (f # fs) g =
     (case (if fy_id f = 0 then next_id g else Some (fy_id f, g)) of
        None \<Rightarrow> None
      | Some (i, g1) \<Rightarrow>
          (case (if i \<notin> used then Some (i, g1) else next_free used g1) of
             None \<Rightarrow> None
           | Some (j, g2) \<Rightarrow>
               (case fix_ids (insert j used) fs g2 of
                  None \<Rightarrow> None
                | Some (fs', g3) \<Rightarrow> Some (f\<lparr>fy_id := j\<rparr> # fs', g3))))"

definition id_fix :: "filter_yaml list \<Rightarrow> id_generator \<Rightarrow> (filter_yaml list \<times> id_generator) option" where
  "id_fix flts g = fix_ids {} flts g"

fun dedup_loop :: "string set \<Rightarrow> filter_yaml list \<Rightarrow> filter_yaml list" where
  "dedup_loop urls [] = []"
| "dedup_loop urls (f # fs) =
     (if fy_url f \<notin> urls then f # dedup_loop (insert (fy_url f) urls) fs else dedup_loop urls fs)"

definition deduplicateFilters :: "filter_yaml list \<Rightarrow> filter_yaml list" where
  "deduplicateFilters filters = dedup_loop {} filters"

section \<open>Environment and state\<close>

record list_env =
  le_now :: instant
  le_pending :: "list_id \<Rightarrow> string option"
  le_read :: "string \<Rightarrow> (string, string) result"
  le_close :: "string \<Rightarrow> string option"
  le_write :: write_failure
  le_replace :: "list_id \<Rightarrow> string option"
  le_cleanup :: "list_id \<Rightarrow> string option"
  le_open :: "list_id \<Rightarrow> string option"
  le_rename :: "list_id \<Rightarrow> string option"
  le_storage :: "(list_id \<times> string) list \<Rightarrow> string option"

type_synonym list_files = "list_id \<rightharpoonup> string \<times> instant"

text \<open>A list as the engine takes it: in memory or as the file of its identifier.\<close>

record list_source =
  ls_id :: list_id
  ls_data :: string
  ls_file :: bool

type_synonym rule_storage = "(list_id \<times> string) list"

record list_state =
  lst_filters :: "filter_yaml list"
  lst_whitelist :: "filter_yaml list"
  lst_user_rules :: "string list"
  lst_interval :: nat
  lst_filtering :: bool
  lst_enabled :: bool
  lst_files :: list_files
  lst_block_engine :: "rule_storage option"
  lst_allow_engine :: "rule_storage option"
  lst_idgen :: id_generator
  lst_queue :: "(list_source list \<times> list_source list) option"

datatype update_error =
    UEPending string | UERead string | UEParse parse_error | UEClose string | UEReplace string
  | UECleanup string | UEBoth update_error update_error

text \<open>\<^verbatim>\<open>errors.WithDeferred\<close> of module \<^verbatim>\<open>golibs\<close>: the returned error, the deferred one, or both.\<close>

fun with_deferred :: "update_error option \<Rightarrow> update_error option \<Rightarrow> update_error option" where
  "with_deferred None d = d"
| "with_deferred (Some e) None = Some e"
| "with_deferred (Some e) (Some d) = Some (UEBoth e d)"

section \<open>Updating one list\<close>

definition finalizeUpdate ::
  "list_env \<Rightarrow> filter_yaml \<Rightarrow> parse_result option \<Rightarrow> string \<Rightarrow> update_error option \<Rightarrow> bool \<Rightarrow> list_files \<Rightarrow>
   update_error option \<times> filter_yaml \<times> list_files" where
  "finalizeUpdate env flt res out returned updated files =
     (if \<not> updated then
        (with_deferred returned (map_option UECleanup (le_cleanup env (fy_id flt))), flt, files)
      else case le_replace env (fy_id flt) of
             Some e \<Rightarrow> (Some (UEReplace e), flt, files)
           | None \<Rightarrow>
               (let r = the res in
                (None, (ensureName (pr_title r) flt)\<lparr>fy_checksum := pr_checksum r,
                                                      fy_rules_count := pr_rulesCount r\<rparr>,
                 files(fy_id flt \<mapsto> (out, le_now env)))))"

definition updateIntl ::
  "list_env \<Rightarrow> filter_yaml \<Rightarrow> list_files \<Rightarrow> (bool \<times> update_error option) \<times> filter_yaml \<times> list_files" where
  "updateIntl env flt files =
     (case le_pending env (fy_id flt) of
        Some e \<Rightarrow> ((False, Some (UEPending e)), flt, files)
      | None \<Rightarrow>
          (case le_read env (fy_url flt) of
             Inl e \<Rightarrow>
               (case finalizeUpdate env flt None [] (Some (UERead e)) False files of
                  (err, flt', files') \<Rightarrow> ((False, err), flt', files'))
           | Inr body \<Rightarrow>
               (case Parse (le_write env) body of (res, perr, out) \<Rightarrow>
                (let ok = (pr_checksum res \<noteq> fy_checksum flt \<and> perr = None);
                     err = with_deferred (map_option UEParse perr)
                             (map_option UEClose (le_close env (fy_url flt)))
                 in case finalizeUpdate env flt (Some res) out err ok files of
                      (err', flt', files') \<Rightarrow> ((ok, err'), flt', files')))))"

definition list_update ::
  "list_env \<Rightarrow> filter_yaml \<Rightarrow> list_files \<Rightarrow> (bool \<times> update_error option) \<times> filter_yaml \<times> list_files" where
  "list_update env flt files =
     (case updateIntl env flt files of
        ((b, err), flt1, files1) \<Rightarrow>
          ((b, err), flt1\<lparr>fy_last_updated := le_now env\<rparr>,
           if b then files1
           else files1(fy_id flt := map_option (\<lambda>(c, _). (c, le_now env)) (files1 (fy_id flt)))))"

section \<open>Loading from the data directory\<close>

definition list_load :: "list_env \<Rightarrow> list_files \<Rightarrow> filter_yaml \<Rightarrow> update_error option \<times> filter_yaml" where
  "list_load env files flt =
     (case le_open env (fy_id flt) of
        Some e \<Rightarrow> (Some (UERead e), flt)
      | None \<Rightarrow>
          (case files (fy_id flt) of
             None \<Rightarrow> (None, flt)
           | Some (content, modTime) \<Rightarrow>
               (case Parse (\<lambda>_ _. None) content of
                  (res, Some e, _) \<Rightarrow> (Some (UEParse e), flt)
                | (res, None, _) \<Rightarrow>
                    (None, (ensureName (pr_title res) flt)\<lparr>fy_rules_count := pr_rulesCount res,
                       fy_checksum := pr_checksum res, fy_last_updated := modTime\<rparr>))))"

definition maximumCount :: nat where
  "maximumCount = 1000000"

fun loadFilters ::
  "list_env \<Rightarrow> list_files \<Rightarrow> nat \<Rightarrow> filter_yaml list \<Rightarrow> id_generator \<Rightarrow>
   (filter_yaml list \<times> id_generator) option" where
  "loadFilters env files totalCount [] g = Some ([], g)"
| "loadFilters env files totalCount (f # fs) g =
     (case (if fy_id f = 0 then next_id g else Some (fy_id f, g)) of
        None \<Rightarrow> None
      | Some (i, g1) \<Rightarrow>
          (let f1 = f\<lparr>fy_id := i\<rparr> in
           if \<not> fy_enabled f1 then
             map_option (map_prod ((#) f1) id) (loadFilters env files totalCount fs g1)
           else
             let f2 = snd (list_load env files f1);
                 total = totalCount + fy_rules_count f2
             in if maximumCount < total then Some (f2 # fs, g1)
                else map_option (map_prod ((#) f2) id) (loadFilters env files total fs g1)))"

section \<open>Adding and editing lists\<close>

definition filterExistsLocked :: "string \<Rightarrow> list_state \<Rightarrow> bool" where
  "filterExistsLocked url s \<longleftrightarrow>
     (\<exists>f \<in> set (lst_filters s). fy_url f = url) \<or> (\<exists>f \<in> set (lst_whitelist s). fy_url f = url)"

datatype list_error = ErrFilterNotExist | ErrFilterExists | ErrUpdate update_error

definition filterAdd :: "filter_yaml \<Rightarrow> list_state \<Rightarrow> (list_error, list_state) result" where
  "filterAdd flt s =
     (if filterExistsLocked (fy_url flt) s then Inl ErrFilterExists
      else if fy_white flt then Inr (s\<lparr>lst_whitelist := lst_whitelist s @ [flt]\<rparr>)
      else Inr (s\<lparr>lst_filters := lst_filters s @ [flt]\<rparr>))"

definition lists_of :: "bool \<Rightarrow> list_state \<Rightarrow> filter_yaml list" where
  "lists_of isAllowlist s = (if isAllowlist then lst_whitelist s else lst_filters s)"

definition set_lists :: "bool \<Rightarrow> filter_yaml list \<Rightarrow> list_state \<Rightarrow> list_state" where
  "set_lists isAllowlist fs s = (if isAllowlist then s\<lparr>lst_whitelist := fs\<rparr> else s\<lparr>lst_filters := fs\<rparr>)"

text \<open>The fields that the deferred function of \<^verbatim>\<open>filterSetProperties\<close> restores after an error.\<close>

definition fy_restore :: "filter_yaml \<Rightarrow> filter_yaml \<Rightarrow> filter_yaml" where
  "fy_restore old flt = flt\<lparr>fy_url := fy_url old, fy_name := fy_name old, fy_enabled := fy_enabled old,
     fy_last_updated := fy_last_updated old, fy_rules_count := fy_rules_count old\<rparr>"

text \<open>The edited list before its contents are updated, and whether the engine has to be restarted.\<close>

definition apply_properties :: "filter_yaml \<Rightarrow> filter_yaml \<Rightarrow> filter_yaml \<times> bool" where
  "apply_properties newList flt =
     (let flt1 = flt\<lparr>fy_name := fy_name newList\<rparr>;
          changed = (fy_url flt1 \<noteq> fy_url newList);
          flt2 = (if changed
                  then fy_unload (flt1\<lparr>fy_url := fy_url newList, fy_last_updated := zero_time\<rparr>) else flt1);
          toggled = (fy_enabled flt2 \<noteq> fy_enabled newList)
      in (flt2\<lparr>fy_enabled := fy_enabled newList\<rparr>, changed \<or> toggled))"

definition filterSetProperties ::
  "list_env \<Rightarrow> string \<Rightarrow> filter_yaml \<Rightarrow> bool \<Rightarrow> list_state \<Rightarrow> (bool \<times> list_error option) \<times> list_state" where
  "filterSetProperties env listURL newList isAllowlist s =
     (let filters = lists_of isAllowlist s in
      case index_of (\<lambda>flt. fy_url flt = listURL) filters of
        None \<Rightarrow> ((False, Some ErrFilterNotExist), s)
      | Some i \<Rightarrow>
          (let flt = filters ! i in
           if fy_url flt \<noteq> fy_url newList \<and> filterExistsLocked (fy_url newList) s
           then ((False, Some ErrFilterExists), s)
           else
             case apply_properties newList flt of (flt1, restart) \<Rightarrow>
               if fy_enabled flt1 then
                 if restart then
                   (case list_update env flt1 (lst_files s) of
                      ((b, None), flt2, files) \<Rightarrow>
                        ((b, None), set_lists isAllowlist (filters[i := flt2]) (s\<lparr>lst_files := files\<rparr>))
                    | ((b, Some e), flt2, files) \<Rightarrow>
                        ((b, Some (ErrUpdate e)),
                         set_lists isAllowlist (filters[i := fy_restore flt flt2]) (s\<lparr>lst_files := files\<rparr>)))
                 else ((False, None), set_lists isAllowlist (filters[i := flt1]) s)
               else ((restart, None), set_lists isAllowlist (filters[i := fy_unload flt1]) s)))"

section \<open>Building the engines\<close>

text \<open>\<^verbatim>\<open>newRuleStorage\<close> on a system other than Windows: in-memory lists and the files that exist.\<close>

fun storage_lists :: "list_env \<Rightarrow> list_files \<Rightarrow> list_source list \<Rightarrow> (string, rule_storage) result" where
  "storage_lists env files [] = Inr []"
| "storage_lists env files (f # fs) =
     (if ls_data f \<noteq> [] then
        (case storage_lists env files fs of Inl e \<Rightarrow> Inl e | Inr st \<Rightarrow> Inr ((ls_id f, ls_data f) # st))
      else if \<not> ls_file f then storage_lists env files fs
      else case le_open env (ls_id f) of
        Some e \<Rightarrow> Inl e
      | None \<Rightarrow>
          (case files (ls_id f) of
             None \<Rightarrow> storage_lists env files fs
           | Some (content, _) \<Rightarrow>
               (case storage_lists env files fs of Inl e \<Rightarrow> Inl e | Inr st \<Rightarrow> Inr ((ls_id f, content) # st))))"

definition newRuleStorage :: "list_env \<Rightarrow> list_files \<Rightarrow> list_source list \<Rightarrow> (string, rule_storage) result" where
  "newRuleStorage env files filters =
     (case storage_lists env files filters of
        Inl e \<Rightarrow> Inl e
      | Inr st \<Rightarrow> (case le_storage env st of Some e \<Rightarrow> Inl e | None \<Rightarrow> Inr st))"

definition initFiltering ::
  "list_env \<Rightarrow> list_source list \<Rightarrow> list_source list \<Rightarrow> list_state \<Rightarrow> string option \<times> list_state" where
  "initFiltering env allowFilters blockFilters s =
     (case newRuleStorage env (lst_files s) blockFilters of
        Inl e \<Rightarrow> (Some e, s)
      | Inr rulesStorage \<Rightarrow>
          (case newRuleStorage env (lst_files s) allowFilters of
             Inl e \<Rightarrow> (Some e, s)
           | Inr rulesStorageAllow \<Rightarrow>
               (None, s\<lparr>lst_block_engine := Some rulesStorage, lst_allow_engine := Some rulesStorageAllow\<rparr>)))"

text \<open>An asynchronous request replaces the one that waits in the channel of the updates loop.\<close>

definition setFilters ::
  "list_env \<Rightarrow> list_source list \<Rightarrow> list_source list \<Rightarrow> bool \<Rightarrow> list_state \<Rightarrow> string option \<times> list_state" where
  "setFilters env blockFilters allowFilters async s =
     (if async then (None, s\<lparr>lst_queue := Some (allowFilters, blockFilters)\<rparr>)
      else initFiltering env allowFilters blockFilters s)"

definition file_source :: "filter_yaml \<Rightarrow> list_source" where
  "file_source f = \<lparr>ls_id = fy_id f, ls_data = [], ls_file = True\<rparr>"

definition enableFiltersLocked :: "list_env \<Rightarrow> bool \<Rightarrow> list_state \<Rightarrow> list_state" where
  "enableFiltersLocked env async s =
     (let filters = \<lparr>ls_id = URLFilterIDCustom, ls_data = join_with [CHR 0x0A] (lst_user_rules s),
                     ls_file = False\<rparr> # map file_source (filter fy_enabled (lst_filters s));
          allowFilters = map file_source (filter fy_enabled (lst_whitelist s));
          s1 = snd (setFilters env filters allowFilters async s)
      in s1\<lparr>lst_enabled := lst_filtering s1\<rparr>)"

text \<open>The branch of \<^verbatim>\<open>updatesLoop\<close> that takes a request from the channel.\<close>

definition updates_loop_init :: "list_env \<Rightarrow> list_state \<Rightarrow> list_state" where
  "updates_loop_init env s =
     (case lst_queue s of
        None \<Rightarrow> s
      | Some (allow, block) \<Rightarrow> snd (initFiltering env allow block (s\<lparr>lst_queue := None\<rparr>)))"

section \<open>Refreshing\<close>

definition listsToUpdate :: "list_env \<Rightarrow> nat \<Rightarrow> filter_yaml list \<Rightarrow> bool \<Rightarrow> filter_yaml list" where
  "listsToUpdate env ivl filters force =
     map (\<lambda>flt. \<lparr>fy_enabled = False, fy_url = fy_url flt, fy_name = fy_name flt, fy_rules_count = 0,
                  fy_last_updated = zero_time, fy_checksum = fy_checksum flt, fy_white = False,
                  fy_id = fy_id flt\<rparr>)
       (filter (\<lambda>flt. fy_enabled flt \<and>
          (force \<or> \<not> le_now env < fy_last_updated flt + int ivl * hour_ns)) filters)"

text \<open>The first loop: update each list, keeping the flag, the list and whether it failed.\<close>

fun update_all ::
  "list_env \<Rightarrow> filter_yaml list \<Rightarrow> list_files \<Rightarrow> (filter_yaml \<times> bool \<times> bool) list \<times> list_files" where
  "update_all env [] files = ([], files)"
| "update_all env (uf # ufs) files =
     (case list_update env uf files of
        ((updated, err), uf1, files1) \<Rightarrow>
          (case update_all env ufs files1 of
             (rest, files2) \<Rightarrow> ((uf1, updated, err \<noteq> None) # rest, files2)))"

definition same_list :: "filter_yaml \<Rightarrow> filter_yaml \<Rightarrow> bool" where
  "same_list f uf \<longleftrightarrow> fy_id f = fy_id uf \<and> fy_url f = fy_url uf"

definition apply_update :: "filter_yaml \<Rightarrow> bool \<Rightarrow> filter_yaml \<Rightarrow> filter_yaml" where
  "apply_update uf updated f =
     (if \<not> same_list f uf then f
      else let f1 = f\<lparr>fy_last_updated := fy_last_updated uf\<rparr> in
           if \<not> updated then f1
           else f1\<lparr>fy_name := fy_name uf, fy_rules_count := fy_rules_count uf,
                   fy_checksum := fy_checksum uf\<rparr>)"

text \<open>The second loop: write the results back and count the lists that changed.\<close>

fun apply_updates :: "(filter_yaml \<times> bool \<times> bool) list \<Rightarrow> filter_yaml list \<Rightarrow> nat \<times> filter_yaml list" where
  "apply_updates [] fs = (0, fs)"
| "apply_updates ((uf, updated, failed) # rest) fs =
     (case apply_updates rest (map (apply_update uf updated) fs) of
        (n, fs') \<Rightarrow> ((if updated then length (filter (\<lambda>f. same_list f uf) fs) else 0) + n, fs'))"

definition refreshFiltersArray ::
  "list_env \<Rightarrow> nat \<Rightarrow> bool \<Rightarrow> filter_yaml list \<Rightarrow> list_files \<Rightarrow>
   (nat \<times> bool) \<times> filter_yaml list \<times> list_files" where
  "refreshFiltersArray env ivl force filters files =
     (let updateFilters = listsToUpdate env ivl filters force in
      if updateFilters = [] then ((0, False), filters, files)
      else case update_all env updateFilters files of (results, files1) \<Rightarrow>
        if list_all (\<lambda>(_, _, failed). failed) results then ((0, True), filters, files1)
        else case apply_updates results filters of
          (n, filters1) \<Rightarrow> ((n, False), filters1, files1))"

definition refreshFiltersIntl ::
  "list_env \<Rightarrow> bool \<Rightarrow> bool \<Rightarrow> bool \<Rightarrow> list_state \<Rightarrow> (nat \<times> bool) \<times> list_state" where
  "refreshFiltersIntl env block allow force s =
     (case (if block then refreshFiltersArray env (lst_interval s) force (lst_filters s) (lst_files s)
            else ((0, False), lst_filters s, lst_files s)) of
        ((n1, e1), fs, files1) \<Rightarrow>
          (case (if allow then refreshFiltersArray env (lst_interval s) force (lst_whitelist s) files1
                 else ((0, False), lst_whitelist s, files1)) of
             ((n2, e2), ws, files2) \<Rightarrow>
               (let s1 = s\<lparr>lst_filters := fs, lst_whitelist := ws, lst_files := files2\<rparr> in
                if e1 \<or> e2 then ((0, True), s1)
                else if n1 + n2 \<noteq> 0 then ((n1 + n2, False), enableFiltersLocked env False s1)
                else ((n1 + n2, False), s1))))"

definition tryRefreshFilters ::
  "list_env \<Rightarrow> bool \<Rightarrow> bool \<Rightarrow> bool \<Rightarrow> bool \<Rightarrow> list_state \<Rightarrow> (nat \<times> bool \<times> bool) \<times> list_state" where
  "tryRefreshFilters env locked block allow force s =
     (if locked then ((0, False, False), s)
      else case refreshFiltersIntl env block allow force s of
        ((updated, isNetworkErr), s1) \<Rightarrow> ((updated, isNetworkErr, True), s1))"

text \<open>Durations are 64-bit signed integers; doubling wraps.\<close>

definition double_ivl :: "duration \<Rightarrow> duration" where
  "double_ivl ivl = signed_take_bit 63 (2 * ivl)"

definition next_interval :: "bool \<Rightarrow> bool \<Rightarrow> duration \<Rightarrow> duration" where
  "next_interval isNetErr ok ivl =
     (let maxInterval = hour_ns in
      if ok \<and> \<not> isNetErr then maxInterval
      else if isNetErr then max (double_ivl ivl) maxInterval
      else ivl)"

definition periodicallyRefreshFilters ::
  "list_env \<Rightarrow> bool \<Rightarrow> duration \<Rightarrow> list_state \<Rightarrow> duration \<times> list_state" where
  "periodicallyRefreshFilters env locked ivl s =
     (if lst_interval s = 0 then (ivl, s)
      else case tryRefreshFilters env locked True True False s of
        ((_, isNetErr, ok), s1) \<Rightarrow> (next_interval isNetErr ok ivl, s1))"

section \<open>Handlers\<close>

text \<open>
  The handlers of \<^verbatim>\<open>http.go\<close> that change lists, on decoded requests.  \<open>valid\<close> is the validation of a
  URL or path, which rests on \<^verbatim>\<open>net/url\<close>, the file system and module \<^verbatim>\<open>golibs\<close>.  A handler returns an
  error for the response or its data, and the new state; the outer \<^term>\<open>None\<close> is the panic of the
  identifier generator.
\<close>

datatype handler_error =
    HEInvalid string | HEExists | HEFetch update_error | HEBlank | HENoData | HEList list_error | HEBusy

definition new_list :: "string \<Rightarrow> string \<Rightarrow> bool \<Rightarrow> list_id \<Rightarrow> filter_yaml" where
  "new_list name url white i =
     \<lparr>fy_enabled = True, fy_url = url, fy_name = name, fy_rules_count = 0, fy_last_updated = zero_time,
      fy_checksum = 0, fy_white = white, fy_id = i\<rparr>"

definition handleFilteringAddURL ::
  "list_env \<Rightarrow> (string \<Rightarrow> string option) \<Rightarrow> string \<Rightarrow> string \<Rightarrow> bool \<Rightarrow> list_state \<Rightarrow>
   ((handler_error, nat) result \<times> list_state) option" where
  "handleFilteringAddURL env valid name url white s =
     (case valid url of
        Some e \<Rightarrow> Some (Inl (HEInvalid e), s)
      | None \<Rightarrow>
          if filterExistsLocked url s then Some (Inl HEExists, s)
          else
            case next_id (lst_idgen s) of
              None \<Rightarrow> None
            | Some (i, g) \<Rightarrow>
                Some (case list_update env (new_list name url white i) (lst_files s) of
                  ((ok, err), filt, files) \<Rightarrow>
                    (let s1 = s\<lparr>lst_idgen := g, lst_files := files\<rparr> in
                     case err of
                       Some e \<Rightarrow> (Inl (HEFetch e), s1)
                     | None \<Rightarrow>
                         if \<not> ok then (Inl HEBlank, s1)
                         else (case filterAdd filt s1 of
                                 Inl e \<Rightarrow> (Inl (HEList e), s1)
                               | Inr s2 \<Rightarrow> (Inr (fy_rules_count filt), enableFiltersLocked env True s2)))))"

definition handleFilteringRemoveURL :: "list_env \<Rightarrow> string \<Rightarrow> bool \<Rightarrow> list_state \<Rightarrow> nat \<times> list_state" where
  "handleFilteringRemoveURL env url white s =
     (let filters = lists_of white s in
      case index_of (\<lambda>flt. fy_url flt = url) filters of
        None \<Rightarrow> (0, enableFiltersLocked env True s)
      | Some delIdx \<Rightarrow>
          (let deleted = filters ! delIdx in
           if le_rename env (fy_id deleted) \<noteq> None
           then (fy_rules_count deleted, enableFiltersLocked env True s)
           else (fy_rules_count deleted,
                 enableFiltersLocked env True
                   (set_lists white (take delIdx filters @ drop (Suc delIdx) filters)
                     (s\<lparr>lst_files := (lst_files s)(fy_id deleted := None)\<rparr>)))))"

definition handleFilteringSetURL ::
  "list_env \<Rightarrow> (string \<Rightarrow> string option) \<Rightarrow> (string \<times> string \<times> bool) option \<Rightarrow> string \<Rightarrow> bool \<Rightarrow>
   list_state \<Rightarrow> (handler_error, unit) result \<times> list_state" where
  "handleFilteringSetURL env valid data url white s =
     (case data of
        None \<Rightarrow> (Inl HENoData, s)
      | Some (name, newURL, enabled) \<Rightarrow>
          (case valid newURL of
             Some e \<Rightarrow> (Inl (HEInvalid e), s)
           | None \<Rightarrow>
               (case filterSetProperties env url ((new_list name newURL False 0)\<lparr>fy_enabled := enabled\<rparr>) white s of
                  ((restart, Some e), s1) \<Rightarrow> (Inl (HEList e), s1)
                | ((restart, None), s1) \<Rightarrow>
                    (Inr (), if restart then enableFiltersLocked env True s1 else s1))))"

definition handleFilteringSetRules :: "list_env \<Rightarrow> string list \<Rightarrow> list_state \<Rightarrow> list_state" where
  "handleFilteringSetRules env rules s = enableFiltersLocked env True (s\<lparr>lst_user_rules := rules\<rparr>)"

definition handleFilteringRefresh ::
  "list_env \<Rightarrow> bool \<Rightarrow> bool \<Rightarrow> list_state \<Rightarrow> (handler_error, nat) result \<times> list_state" where
  "handleFilteringRefresh env locked white s =
     (case tryRefreshFilters env locked (\<not> white) white True s of
        ((updated, _, ok), s1) \<Rightarrow> (if ok then Inr updated else Inl HEBusy, s1))"

text \<open>One operation on the lists, by a handler or by the updates loop.\<close>

inductive list_step :: "list_state \<Rightarrow> list_state \<Rightarrow> bool" where
  step_add: "handleFilteringAddURL env valid name url white s = Some (r, s') \<Longrightarrow> list_step s s'"
| step_remove: "handleFilteringRemoveURL env url white s = (n, s') \<Longrightarrow> list_step s s'"
| step_set: "handleFilteringSetURL env valid data url white s = (r, s') \<Longrightarrow> list_step s s'"
| step_rules: "handleFilteringSetRules env rules s = s' \<Longrightarrow> list_step s s'"
| step_refresh: "handleFilteringRefresh env locked white s = (r, s') \<Longrightarrow> list_step s s'"
| step_periodic: "periodicallyRefreshFilters env locked ivl s = (ivl', s') \<Longrightarrow> list_step s s'"
| step_loop: "updates_loop_init env s = s' \<Longrightarrow> list_step s s'"

section \<open>Identifiers are unique\<close>

lemma next_free_spec:
  "next_free used g = Some (i, g') \<Longrightarrow> i \<notin> used \<and> 0 \<le> i"
proof (induction used g rule: next_free.induct)
  case (1 used g)
  from "1.prems" obtain j g1 where j: "next_id g = Some (j, g1)"
    and res: "(if j \<in> used then next_free used g1 else Some (j, g1)) = Some (i, g')"
    by (subst (asm) next_free.simps) (auto split: option.splits)
  then show ?case using "1.IH" [OF j refl] next_id_SomeD [OF j] by (auto split: if_splits)
qed

lemma next_id_returns: "- 1 \<le> sint g \<Longrightarrow> sint g + 1 < 2 ^ 31 \<Longrightarrow> \<exists>g'. next_id g = Some (sint g + 1, g') \<and> sint g' = sint g + 1"
  for g :: "32 word"
proof -
  assume lo: "- 1 \<le> sint g" and hi: "sint g + 1 < 2 ^ 31"
  have "sint (g + 1) = signed_take_bit 31 (sint g + 1)" by (simp add: sint_word_ariths)
  also have "\<dots> = sint g + 1" using lo hi by (simp add: signed_take_bit_int_eq_self)
  finally show ?thesis using lo by (simp add: next_id_def)
qed

lemma next_free_returns:
  "finite used \<Longrightarrow> - 1 \<le> sint g \<Longrightarrow> sint g + int (card {i \<in> used. sint g < i}) + 1 < 2 ^ 31 \<Longrightarrow>
   \<exists>i g'. next_free used g = Some (i, g') \<and> - 1 \<le> sint g' \<and>
     sint g' \<le> sint g + int (card {i \<in> used. sint g < i}) + 1"
proof (induction used g rule: next_free.induct)
  case (1 used g)
  then obtain g1 where g1: "next_id g = Some (sint g + 1, g1)" "sint g1 = sint g + 1"
    using next_id_returns [of g] by fastforce
  show ?case
  proof (cases "sint g + 1 \<in> used")
    case False
    with g1 "1.prems" show ?thesis by (subst next_free.simps) auto
  next
    case True
    have "{i \<in> used. sint g < i} = insert (sint g + 1) {i \<in> used. sint g1 < i}"
      using True g1(2) by auto
    then have card: "card {i \<in> used. sint g < i} = Suc (card {i \<in> used. sint g1 < i})"
      using "1.prems"(1) g1(2) by simp
    have "\<exists>i g'. next_free used g1 = Some (i, g') \<and> - 1 \<le> sint g' \<and>
        sint g' \<le> sint g1 + int (card {i \<in> used. sint g1 < i}) + 1"
      using "1.IH" [OF g1(1) refl True] "1.prems" g1(2) card by simp
    then show ?thesis using True g1 card by (subst next_free.simps) auto
  qed
qed

lemma fix_ids_spec:
  "fix_ids used fs g = Some (fs', g') \<Longrightarrow>
   distinct (map fy_id fs') \<and> set (map fy_id fs') \<inter> used = {} \<and>
   map (\<lambda>f. f\<lparr>fy_id := 0\<rparr>) fs' = map (\<lambda>f. f\<lparr>fy_id := 0\<rparr>) fs \<and>
   (distinct (map fy_id fs) \<and> set (map fy_id fs) \<inter> insert 0 used = {} \<longrightarrow> fs' = fs)"
proof (induction used fs g arbitrary: fs' g' rule: fix_ids.induct)
  case (2 used f fs g)
  from "2.prems" obtain i g1 j g2 fs1 where i: "(if fy_id f = 0 then next_id g else Some (fy_id f, g)) = Some (i, g1)"
    and j: "(if i \<notin> used then Some (i, g1) else next_free used g1) = Some (j, g2)"
    and rec: "fix_ids (insert j used) fs g2 = Some (fs1, g')" and fs': "fs' = f\<lparr>fy_id := j\<rparr> # fs1"
    by (auto split: option.splits prod.splits)
  have "j \<notin> used" using j next_free_spec by (auto split: if_splits)
  moreover have "fy_id f \<noteq> 0 \<and> fy_id f \<notin> used \<longrightarrow> j = fy_id f" using i j by (auto split: if_splits)
  ultimately show ?case
    using "2.IH" [OF i refl j refl rec] by (auto simp: fs')
qed simp

lemma fix_ids_returns:
  "finite used \<Longrightarrow> - 1 \<le> sint g \<Longrightarrow>
   sint g + int (length fs) * (int (card used) + int (length fs) + 2) < 2 ^ 31 \<Longrightarrow>
   fix_ids used fs g \<noteq> None"
proof (induction fs arbitrary: used g)
  case (Cons f fs)
  let ?n = "int (length fs)" and ?c = "int (card used)"
  have "0 \<le> ?n * (?c + ?n + 3)" by simp
  with Cons.prems(3) have bound: "sint g + ?n * (?c + ?n + 3) + ?c + 3 < 2 ^ 31"
    by (simp add: algebra_simps)
  then have "sint g + 1 < 2 ^ 31" using \<open>0 \<le> ?n * (?c + ?n + 3)\<close> by linarith
  then obtain gn where gn: "next_id g = Some (sint g + 1, gn)" "sint gn = sint g + 1"
    using next_id_returns [OF Cons.prems(2)] by blast
  obtain i g1 where i: "(if fy_id f = 0 then next_id g else Some (fy_id f, g)) = Some (i, g1)"
    and g1: "- 1 \<le> sint g1" "sint g1 \<le> sint g + 1"
  proof (cases "fy_id f = 0")
    case True
    with gn Cons.prems(2) that [of "sint g + 1" gn] show ?thesis by simp
  next
    case False
    with Cons.prems(2) that [of "fy_id f" g] show ?thesis by simp
  qed
  have le: "int (card {i \<in> used. sint g1 < i}) \<le> ?c"
    using Cons.prems(1) by (simp add: card_mono)
  obtain j g2 where j: "(if i \<notin> used then Some (i, g1) else next_free used g1) = Some (j, g2)"
    and g2: "- 1 \<le> sint g2" "sint g2 \<le> sint g + ?c + 2"
  proof (cases "i \<in> used")
    case True
    then obtain j g2 where "next_free used g1 = Some (j, g2)" "- 1 \<le> sint g2"
      "sint g2 \<le> sint g1 + int (card {i \<in> used. sint g1 < i}) + 1"
      using next_free_returns [OF Cons.prems(1) g1(1)] g1 le bound \<open>0 \<le> ?n * (?c + ?n + 3)\<close> by fastforce
    with True g1 le that show ?thesis by auto
  qed (use g1 that in auto)
  have "int (card (insert j used)) \<le> ?c + 1" using Cons.prems(1) by (simp add: card_insert_if)
  then have "?n * (int (card (insert j used)) + ?n + 2) \<le> ?n * (?c + ?n + 3)"
    by (intro mult_left_mono) auto
  with g2 bound have "sint g2 + ?n * (int (card (insert j used)) + ?n + 2) < 2 ^ 31" by linarith
  with Cons.IH [of "insert j used" g2] g2 Cons.prems(1) i j show ?case by auto
qed simp

text \<open>Assigning identifiers gives every list one of its own, changes nothing else, keeps lists that
  already had distinct identifiers, and does not panic while the counter is far enough from the largest
  32-bit integer.\<close>

theorem id_fix_unique:
  assumes "- 1 \<le> sint g" "sint g + int (length fs) * (int (length fs) + 2) < 2 ^ 31"
  shows "\<exists>fs' g'. id_fix fs g = Some (fs', g') \<and> distinct (map fy_id fs') \<and>
    map (\<lambda>f. f\<lparr>fy_id := 0\<rparr>) fs' = map (\<lambda>f. f\<lparr>fy_id := 0\<rparr>) fs \<and>
    (distinct (map fy_id fs) \<and> 0 \<notin> set (map fy_id fs) \<longrightarrow> fs' = fs)"
proof -
  have "fix_ids {} fs g \<noteq> None" by (rule fix_ids_returns) (use assms in simp_all)
  then obtain fs' g' where "fix_ids {} fs g = Some (fs', g')" by auto
  with fix_ids_spec [OF this] show ?thesis by (auto simp: id_fix_def)
qed

section \<open>Sources are unique\<close>

lemma dedup_loop_spec:
  "distinct (map fy_url (dedup_loop urls fs)) \<and>
   set (map fy_url (dedup_loop urls fs)) = set (map fy_url fs) - urls \<and>
   (\<forall>f \<in> set (dedup_loop urls fs). find (\<lambda>x. fy_url x = fy_url f) fs = Some f) \<and>
   (distinct (map fy_url fs) \<and> set (map fy_url fs) \<inter> urls = {} \<longrightarrow> dedup_loop urls fs = fs)"
proof (induction urls fs rule: dedup_loop.induct)
  case (2 urls f fs)
  then show ?case by (cases "fy_url f \<in> urls") (auto simp: image_iff)
qed simp

text \<open>No two lists, blocking or allowing, have the same source.\<close>

definition url_inv :: "list_state \<Rightarrow> bool" where
  "url_inv s \<longleftrightarrow> distinct (map fy_url (lst_filters s) @ map fy_url (lst_whitelist s))"

lemma filterExists_iff:
  "filterExistsLocked url s \<longleftrightarrow> url \<in> set (map fy_url (lst_filters s) @ map fy_url (lst_whitelist s))"
  by (auto simp: filterExistsLocked_def image_iff)

lemma initFiltering_lists [simp]:
  "lst_filters (snd (initFiltering env a b s)) = lst_filters s"
  "lst_whitelist (snd (initFiltering env a b s)) = lst_whitelist s"
  "lst_files (snd (initFiltering env a b s)) = lst_files s"
  by (simp_all add: initFiltering_def split: sum.split)

lemma enableFiltersLocked_lists [simp]:
  "lst_filters (enableFiltersLocked env async s) = lst_filters s"
  "lst_whitelist (enableFiltersLocked env async s) = lst_whitelist s"
  "lst_files (enableFiltersLocked env async s) = lst_files s"
  by (simp_all add: enableFiltersLocked_def setFilters_def Let_def)

lemma url_inv_cong:
  "map fy_url (lst_filters s) = map fy_url (lst_filters s') \<Longrightarrow>
   map fy_url (lst_whitelist s) = map fy_url (lst_whitelist s') \<Longrightarrow> url_inv s = url_inv s'"
  by (simp only: url_inv_def)

lemma url_inv_enable [simp]: "url_inv (enableFiltersLocked env async s) = url_inv s"
  by (rule url_inv_cong) simp_all

lemma url_inv_init [simp]: "url_inv (snd (initFiltering env a b s)) = url_inv s"
  by (rule url_inv_cong) simp_all

lemma updateIntl_url:
  "updateIntl env flt files = (r, flt', files') \<Longrightarrow> fy_url flt' = fy_url flt \<and> fy_id flt' = fy_id flt"
  by (auto simp: updateIntl_def finalizeUpdate_def ensureName_def Let_def
      split: option.splits sum.splits prod.splits if_splits)

lemma list_update_url:
  "list_update env flt files = (r, flt', files') \<Longrightarrow> fy_url flt' = fy_url flt \<and> fy_id flt' = fy_id flt"
  by (auto simp: list_update_def dest: updateIntl_url split: prod.splits)

lemma apply_update_url [simp]: "fy_url (apply_update uf u f) = fy_url f"
  by (simp add: apply_update_def Let_def)

lemma apply_updates_urls: "map fy_url (snd (apply_updates us fs)) = map fy_url fs"
  by (induction us fs rule: apply_updates.induct) (auto split: prod.splits)

lemma refreshFiltersArray_urls:
  "refreshFiltersArray env ivl force fs files = (r, fs', files') \<Longrightarrow> map fy_url fs' = map fy_url fs"
  using apply_updates_urls
  by (auto simp: refreshFiltersArray_def Let_def split: if_splits prod.splits) (metis snd_conv)

lemma refreshFiltersIntl_url_inv:
  assumes "refreshFiltersIntl env block allow force s = (r, s')" "url_inv s"
  shows "url_inv s'"
proof -
  obtain n1 e1 fs f1 where a: "(if block then refreshFiltersArray env (lst_interval s) force (lst_filters s) (lst_files s)
      else ((0, False), lst_filters s, lst_files s)) = ((n1, e1), fs, f1)" by (metis surj_pair)
  obtain n2 e2 ws f2 where b: "(if allow then refreshFiltersArray env (lst_interval s) force (lst_whitelist s) f1
      else ((0, False), lst_whitelist s, f1)) = ((n2, e2), ws, f2)" by (metis surj_pair)
  have "map fy_url fs = map fy_url (lst_filters s)" "map fy_url ws = map fy_url (lst_whitelist s)"
    using a b refreshFiltersArray_urls by (auto split: if_splits)
  then have "url_inv (s\<lparr>lst_filters := fs, lst_whitelist := ws, lst_files := f2\<rparr>)"
    using assms(2) unfolding url_inv_def by simp
  then show ?thesis
    using assms(1) by (auto simp: refreshFiltersIntl_def a b Let_def split: if_splits)
qed

lemma url_inv_set_lists:
  "url_inv s \<Longrightarrow> map fy_url fs = map fy_url (lists_of white s) \<Longrightarrow> url_inv (set_lists white fs s)"
  unfolding url_inv_def by (cases white) (simp_all add: set_lists_def lists_of_def)

lemma distinct_shrink:
  "distinct (xs @ ys) \<Longrightarrow> distinct zs \<Longrightarrow> set zs \<subseteq> set ys \<Longrightarrow> distinct (xs @ zs)"
  "distinct (xs @ ys) \<Longrightarrow> distinct zs \<Longrightarrow> set zs \<subseteq> set xs \<Longrightarrow> distinct (zs @ ys)"
  by (simp_all, blast+)

lemma url_inv_shrink:
  assumes "url_inv s" "distinct (map fy_url fs)" "set (map fy_url fs) \<subseteq> set (map fy_url (lists_of white s))"
  shows "url_inv (set_lists white fs (s\<lparr>lst_files := fl\<rparr>))"
  using distinct_shrink(1) [OF assms(1) [unfolded url_inv_def] assms(2)]
    distinct_shrink(2) [OF assms(1) [unfolded url_inv_def] assms(2)] assms(3)
  unfolding url_inv_def set_lists_def lists_of_def by (cases white) simp_all

lemma distinct_cut: "distinct (xs :: 'a list) \<Longrightarrow> distinct (take i xs @ drop (Suc i) xs)"
  using set_take_disj_set_drop_if_distinct [of xs i "Suc i"] by simp

lemma set_cut: "set (take i xs @ drop (Suc i) xs) \<subseteq> set xs"
  using set_take_subset [of i xs] set_drop_subset [of "Suc i" xs] by simp

lemma url_inv_lists: "url_inv s \<Longrightarrow> distinct (map fy_url (lists_of white s))"
  unfolding url_inv_def lists_of_def distinct_append by simp

lemma url_inv_remove:
  assumes "url_inv s"
  shows "url_inv (set_lists white (take i (lists_of white s) @ drop (Suc i) (lists_of white s))
    (s\<lparr>lst_files := fl\<rparr>))"
proof (rule url_inv_shrink [OF assms])
  let ?u = "map fy_url (lists_of white s)"
  have cut: "map fy_url (take i (lists_of white s) @ drop (Suc i) (lists_of white s)) = take i ?u @ drop (Suc i) ?u"
    by (simp add: take_map drop_map)
  show "distinct (map fy_url (take i (lists_of white s) @ drop (Suc i) (lists_of white s)))"
    unfolding cut by (rule distinct_cut [OF url_inv_lists [OF assms]])
  show "set (map fy_url (take i (lists_of white s) @ drop (Suc i) (lists_of white s))) \<subseteq> set ?u"
    unfolding cut by (rule set_cut)
qed

lemma filterAdd_url_inv:
  assumes "filterAdd flt s = Inr s'" "url_inv s"
  shows "url_inv s'"
proof -
  have "fy_url flt \<notin> set (map fy_url (lst_filters s) @ map fy_url (lst_whitelist s))"
    and s': "s' = (if fy_white flt then s\<lparr>lst_whitelist := lst_whitelist s @ [flt]\<rparr>
             else s\<lparr>lst_filters := lst_filters s @ [flt]\<rparr>)"
    using assms(1) by (auto simp: filterAdd_def filterExists_iff simp del: set_map split: if_splits)
  with assms(2) show ?thesis unfolding url_inv_def s' by (cases "fy_white flt") simp_all
qed

lemma distinct_update_append:
  assumes "distinct (xs @ ys)" "y \<notin> set (xs @ ys)"
  shows "distinct (xs @ ys[i := y])" "distinct (xs[i := y] @ ys)"
proof -
  have "distinct (ys[i := y])" "distinct (xs[i := y])"
    using assms by (auto intro: distinct_list_update)
  moreover have "set xs \<inter> set (ys[i := y]) = {}" "set (xs[i := y]) \<inter> set ys = {}"
    using assms set_update_subset_insert [of ys i y] set_update_subset_insert [of xs i y]
    unfolding distinct_append set_append by blast+
  ultimately show "distinct (xs @ ys[i := y])" "distinct (xs[i := y] @ ys)"
    using assms(1) by simp_all
qed

text \<open>Replacing one list by one with a source that is its own or new.\<close>

lemma url_inv_replace:
  assumes "url_inv s" "i < length (lists_of white s)"
    and "fy_url flt = fy_url (lists_of white s ! i) \<or> \<not> filterExistsLocked (fy_url flt) s"
  shows "url_inv (set_lists white ((lists_of white s)[i := flt]) (s\<lparr>lst_files := fl\<rparr>))"
proof (cases "fy_url flt = fy_url (lists_of white s ! i)")
  case True
  then have "map fy_url ((lists_of white s)[i := flt]) = map fy_url (lists_of white s)"
    using assms(2) by (metis list_update_id map_update nth_map)
  then show ?thesis
    using url_inv_shrink [OF assms(1), of "(lists_of white s)[i := flt]" white fl]
      url_inv_lists [OF assms(1), of white] by simp
next
  case False
  with assms(3) have "fy_url flt \<notin> set (map fy_url (lst_filters s) @ map fy_url (lst_whitelist s))"
    unfolding filterExists_iff by blast
  note upd = distinct_update_append [OF assms(1) [unfolded url_inv_def] this, of i]
  show ?thesis
  proof (cases white)
    case True
    with upd(1) show ?thesis
      by (simp add: url_inv_def set_lists_def lists_of_def map_update del: distinct_append)
  next
    case False
    with upd(2) show ?thesis
      by (simp add: url_inv_def set_lists_def lists_of_def map_update del: distinct_append)
  qed
qed

lemma index_of_SomeD: "index_of P xs = Some i \<Longrightarrow> i < length xs \<and> P (xs ! i)"
  using nth_length_takeWhile [of "\<lambda>x. \<not> P x" xs] by (auto simp: index_of_def Let_def split: if_splits)

lemma apply_properties_url:
  "apply_properties new flt = (flt1, r) \<Longrightarrow> fy_url flt1 = fy_url new \<and> fy_id flt1 = fy_id flt"
  by (auto simp: apply_properties_def Let_def fy_unload_def split: if_splits)

lemma filterSetProperties_url_inv:
  assumes "filterSetProperties env listURL new white s = (r, s')" "url_inv s"
  shows "url_inv s'"
proof (cases "index_of (\<lambda>flt. fy_url flt = listURL) (lists_of white s)")
  case None
  with assms show ?thesis by (simp add: filterSetProperties_def)
next
  case (Some i)
  let ?l = "lists_of white s"
  let ?old = "?l ! i"
  have i: "i < length ?l" using index_of_SomeD [OF Some] by blast
  obtain flt1 restart where ap: "apply_properties new ?old = (flt1, restart)" by force
  note url1 = apply_properties_url [OF ap]
  show ?thesis
  proof (cases "fy_url ?old \<noteq> fy_url new \<and> filterExistsLocked (fy_url new) s")
    case True
    with assms Some show ?thesis by (simp add: filterSetProperties_def)
  next
    case False
    have rep: "url_inv (set_lists white (?l[i := f]) (s\<lparr>lst_files := fl\<rparr>))"
      if "fy_url f = fy_url new \<or> fy_url f = fy_url ?old" for f fl
      using url_inv_replace [OF assms(2) i] False that by auto
    have rep0: "url_inv (set_lists white (?l[i := f]) s)" if "fy_url f = fy_url new" for f
      using rep [of f "lst_files s"] that by simp
    obtain b err flt2 files where up: "list_update env flt1 (lst_files s) = ((b, err), flt2, files)"
      by (metis surj_pair)
    have "s' \<in> {set_lists white (?l[i := flt1]) s, set_lists white (?l[i := fy_unload flt1]) s,
        set_lists white (?l[i := flt2]) (s\<lparr>lst_files := files\<rparr>),
        set_lists white (?l[i := fy_restore ?old flt2]) (s\<lparr>lst_files := files\<rparr>)}"
      using assms(1) False Some
      by (cases err) (auto simp: filterSetProperties_def Let_def ap up split: if_splits)
    moreover have "fy_url flt2 = fy_url new" using list_update_url [OF up] url1 by simp
    ultimately show ?thesis using rep rep0 url1 by (auto simp: fy_unload_def fy_restore_def)
  qed
qed

lemma url_inv_frame [simp]:
  "url_inv (s\<lparr>lst_idgen := g, lst_files := fl\<rparr>) = url_inv s" "url_inv (s\<lparr>lst_user_rules := rs\<rparr>) = url_inv s"
  "url_inv (s\<lparr>lst_queue := q\<rparr>) = url_inv s"
  by (simp_all add: url_inv_def)

lemma addURL_url_inv:
  assumes "handleFilteringAddURL env valid name url white s = Some (r, s')" "url_inv s"
  shows "url_inv s'"
  using assms
  by (auto simp: handleFilteringAddURL_def Let_def dest: filterAdd_url_inv
      split: option.splits if_splits prod.splits sum.splits)

lemma list_step_url_inv: "list_step s s' \<Longrightarrow> url_inv s \<Longrightarrow> url_inv s'"
proof (induction rule: list_step.induct)
  case (step_add env valid name url white s r s')
  then show ?case by (rule addURL_url_inv)
next
  case (step_remove env url white s n s')
  then show ?case
    by (auto simp: handleFilteringRemoveURL_def Let_def url_inv_remove split: option.splits if_splits)
next
  case (step_set env valid data url white s r s')
  then show ?case
    by (auto simp: handleFilteringSetURL_def dest: filterSetProperties_url_inv
        split: option.splits prod.splits if_splits)
next
  case (step_rules env rules s s')
  then show ?case by (auto simp: handleFilteringSetRules_def)
next
  case (step_refresh env locked white s r s')
  then show ?case
    by (auto simp: handleFilteringRefresh_def tryRefreshFilters_def dest: refreshFiltersIntl_url_inv
        split: prod.splits if_splits)
next
  case (step_periodic env locked ivl s ivl' s')
  then show ?case
    by (auto simp: periodicallyRefreshFilters_def tryRefreshFilters_def dest: refreshFiltersIntl_url_inv
        split: prod.splits if_splits)
next
  case (step_loop env s s')
  then show ?case by (auto simp: updates_loop_init_def split: option.splits)
qed


section \<open>Updates\<close>

lemma ensureName_named: "fy_name (ensureName t f) \<noteq> []"
  by (simp add: ensureName_def)

lemma ensureName_id: "fy_name f \<noteq> [] \<Longrightarrow> ensureName t f = f"
  by (simp add: ensureName_def)

lemma updateIntl_ok:
  assumes "updateIntl env flt files = ((True, None), flt', files')"
  shows "\<exists>body r out. le_read env (fy_url flt) = Inr body \<and> Parse (le_write env) body = (r, None, out) \<and>
    flt' = (ensureName (pr_title r) flt)\<lparr>fy_checksum := pr_checksum r, fy_rules_count := pr_rulesCount r\<rparr> \<and>
    files' = files(fy_id flt \<mapsto> (out, le_now env)) \<and> pr_checksum r \<noteq> fy_checksum flt"
  using assms
  by (auto simp: updateIntl_def finalizeUpdate_def Let_def split: option.splits sum.splits prod.splits if_splits)


lemma updateIntl_failed:
  assumes "updateIntl env flt files = ((b, Some e), flt', files')"
  shows "flt' = flt \<and> files' = files"
  using assms
  by (auto simp: updateIntl_def finalizeUpdate_def Let_def split: option.splits sum.splits prod.splits if_splits)

lemma list_update_failed:
  assumes "list_update env flt files = ((b, Some e), flt', files')"
  shows "flt' = flt\<lparr>fy_last_updated := le_now env\<rparr> \<and> map_option fst \<circ> files' = map_option fst \<circ> files"
proof -
  obtain flt1 files1 where up: "updateIntl env flt files = ((b, Some e), flt1, files1)"
    and out: "flt' = flt1\<lparr>fy_last_updated := le_now env\<rparr>"
      "files' = (if b then files1
         else files1(fy_id flt := map_option (\<lambda>(c, _). (c, le_now env)) (files1 (fy_id flt))))"
    using assms by (auto simp: list_update_def split: prod.splits)
  from updateIntl_failed [OF up] out show ?thesis
    by (auto simp: fun_eq_iff option.map_comp comp_def case_prod_beta)
qed

abbreviation no_checksum :: "filter_yaml \<Rightarrow> filter_yaml" where
  "no_checksum f \<equiv> f\<lparr>fy_checksum := 0\<rparr>"

lemma apply_properties_frame:
  "apply_properties new flt = (flt1, r) \<Longrightarrow>
   no_checksum (fy_restore flt (flt1\<lparr>fy_last_updated := t\<rparr>)) = no_checksum flt \<and>
   (fy_url flt \<noteq> fy_url new \<longrightarrow> fy_checksum flt1 = 0)"
  by (auto simp: apply_properties_def fy_restore_def fy_unload_def Let_def split: if_splits)

lemma lists_of_set_lists [simp]:
  "lists_of white (set_lists white fs s) = fs"
  "lists_of (\<not> white) (set_lists white fs s) = lists_of (\<not> white) s"
  "lst_files (set_lists white fs s) = lst_files s"
  by (simp_all add: lists_of_def set_lists_def)

text \<open>When changing a list fails, every list and the contents of every file are as before, except
  for the checksum of the list: if its source was to change, the checksum is lost.\<close>

theorem filterSetProperties_failed:
  assumes "filterSetProperties env listURL new white s = ((b, Some e), s')"
  shows "map no_checksum (lists_of white s') = map no_checksum (lists_of white s) \<and>
    lists_of (\<not> white) s' = lists_of (\<not> white) s \<and>
    map_option fst \<circ> lst_files s' = map_option fst \<circ> lst_files s \<and>
    (case e of
       ErrUpdate _ \<Rightarrow> \<exists>i < length (lists_of white s). fy_url (lists_of white s ! i) = listURL \<and>
         (listURL \<noteq> fy_url new \<longrightarrow> fy_checksum (lists_of white s' ! i) = 0)
     | _ \<Rightarrow> s' = s)"
proof (cases "index_of (\<lambda>flt. fy_url flt = listURL) (lists_of white s)")
  case None
  with assms show ?thesis by (auto simp: filterSetProperties_def)
next
  case (Some i)
  let ?l = "lists_of white s"
  let ?old = "?l ! i"
  have i: "i < length ?l" "fy_url ?old = listURL" using index_of_SomeD [OF Some] by auto
  obtain flt1 restart where ap: "apply_properties new ?old = (flt1, restart)" by force
  obtain b' err flt2 files where up: "list_update env flt1 (lst_files s) = ((b', err), flt2, files)"
    by (metis surj_pair)
  show ?thesis
  proof (cases "fy_url ?old \<noteq> fy_url new \<and> filterExistsLocked (fy_url new) s")
    case True
    with assms Some show ?thesis by (auto simp: filterSetProperties_def)
  next
    case False
    with assms Some obtain ue where ue: "err = Some ue" "e = ErrUpdate ue"
      "s' = set_lists white (?l[i := fy_restore ?old flt2]) (s\<lparr>lst_files := files\<rparr>)"
      by (cases err) (auto simp: filterSetProperties_def Let_def ap up split: if_splits)
    from list_update_failed up ue(1) have f2: "flt2 = flt1\<lparr>fy_last_updated := le_now env\<rparr>"
      and files: "map_option fst \<circ> files = map_option fst \<circ> lst_files s" by metis+
    have same: "no_checksum (fy_restore ?old flt2) = no_checksum ?old"
      using apply_properties_frame [OF ap] f2 by blast
    have "map no_checksum (?l[i := fy_restore ?old flt2]) = map no_checksum ?l"
      by (simp only: map_update same) (simp only: map_update [symmetric] list_update_id)
    moreover have "listURL \<noteq> fy_url new \<longrightarrow> fy_checksum (fy_restore ?old flt2) = 0"
      using apply_properties_frame [OF ap] f2 i(2) by (simp add: fy_restore_def)
    ultimately show ?thesis
      using ue files i by (auto simp: lists_of_def set_lists_def)
  qed
qed

text \<open>Removing duplicates keeps, for every source, the first list that has it, and drops no source.\<close>

theorem deduplicateFilters_spec:
  "distinct (map fy_url (deduplicateFilters fs)) \<and>
   set (map fy_url (deduplicateFilters fs)) = set (map fy_url fs) \<and>
   (\<forall>f. f \<in> set (deduplicateFilters fs) \<longleftrightarrow> find (\<lambda>x. fy_url x = fy_url f) fs = Some f)"
proof -
  note spec = dedup_loop_spec [of "{}" fs, folded deduplicateFilters_def]
  have "f \<in> set (deduplicateFilters fs)" if f: "find (\<lambda>x. fy_url x = fy_url f) fs = Some f" for f
  proof -
    have "f \<in> set fs" using f by (auto simp: find_Some_iff)
    then have "fy_url f \<in> set (map fy_url (deduplicateFilters fs))" using spec by simp
    then obtain f' where f': "f' \<in> set (deduplicateFilters fs)" "fy_url f' = fy_url f" by auto
    then have "find (\<lambda>x. fy_url x = fy_url f) fs = Some f'" using spec by metis
    with f f'(1) show ?thesis by simp
  qed
  with spec show ?thesis by blast
qed

section \<open>The refresh interval\<close>

lemma double_ivl_small: "0 \<le> t \<Longrightarrow> t < 2 ^ 62 \<Longrightarrow> double_ivl t = 2 * t"
  unfolding double_ivl_def by (rule signed_take_bit_int_eq_self) simp_all

text \<open>The interval between refreshes has no upper bound: while the network fails, each attempt after
  the first doubles it, up to more than two centuries.\<close>

theorem refresh_interval_grows:
  assumes "n \<le> 21"
  shows "((next_interval True ok) ^^ Suc n) (5 * second_ns) = 2 ^ n * hour_ns"
  using assms
proof (induction n)
  case 0
  show ?case by (simp add: next_interval_def double_ivl_small duration_defs)
next
  case (Suc n)
  have "(2 :: int) ^ n \<le> 2 ^ 20" using Suc.prems by (intro power_increasing) simp_all
  then have "2 ^ n * hour_ns < 2 ^ 62" by (simp add: duration_defs)
  with Suc show ?case by (simp add: next_interval_def double_ivl_small duration_defs)
qed

theorem refresh_interval_grows_witness:
  "((next_interval True True) ^^ 22) (5 * second_ns) = 2097152 * hour_ns"
  using refresh_interval_grows [of 21 True] by simp

section \<open>Partial failures\<close>

lemma refreshFiltersIntl_error_frame:
  assumes "refreshFiltersIntl env block allow force s = ((n, True), s')"
  shows "n = 0 \<and> lst_block_engine s' = lst_block_engine s \<and> lst_allow_engine s' = lst_allow_engine s \<and>
    lst_queue s' = lst_queue s"
  using assms by (auto simp: refreshFiltersIntl_def Let_def split: if_splits prod.splits)

lemma refreshFiltersIntl_zero_frame:
  assumes "refreshFiltersIntl env block allow force s = ((0, False), s')"
  shows "lst_block_engine s' = lst_block_engine s"
  using assms by (auto simp: refreshFiltersIntl_def Let_def split: if_splits prod.splits)

text \<open>A state with one blocking list and one allowing list, and an environment in which the source of the
  first has new contents; the second source fails or has not changed.\<close>

definition stale_body :: string where
  "stale_body = ''a'' @ [CHR 0x0A]"

definition stale_env :: "bool \<Rightarrow> list_env" where
  "stale_env down =
     \<lparr>le_now = 0, le_pending = (\<lambda>_. None),
      le_read = (\<lambda>u. if u = ''w'' \<and> down then Inl ''down'' else Inr stale_body),
      le_close = (\<lambda>_. None), le_write = (\<lambda>_ _. None), le_replace = (\<lambda>_. None),
      le_cleanup = (\<lambda>_. None), le_open = (\<lambda>_. None), le_rename = (\<lambda>_. None), le_storage = (\<lambda>_. None)\<rparr>"

definition stale_state :: list_state where
  "stale_state =
     \<lparr>lst_filters = [\<lparr>fy_enabled = True, fy_url = ''u'', fy_name = ''n'', fy_rules_count = 0,
        fy_last_updated = zero_time, fy_checksum = crc32_update 0 ''a'' + 1, fy_white = False, fy_id = 1\<rparr>],
      lst_whitelist = [\<lparr>fy_enabled = True, fy_url = ''w'', fy_name = ''m'', fy_rules_count = 1,
        fy_last_updated = zero_time, fy_checksum = crc32_update 0 ''a'', fy_white = True, fy_id = 2\<rparr>],
      lst_user_rules = [], lst_interval = 24, lst_filtering = True, lst_enabled = True,
      lst_files = [1 \<mapsto> (''old'', zero_time), 2 \<mapsto> (stale_body, zero_time)],
      lst_block_engine = Some [(1, ''old'')], lst_allow_engine = Some [(2, stale_body)],
      lst_idgen = 3, lst_queue = None\<rparr>"

lemma stale_parse:
  "\<exists>r. Parse no_failure stale_body = (r, None, stale_body) \<and> pr_checksum r = crc32_update 0 ''a'' \<and>
     pr_title r = []"
proof -
  have raw: "raw_lines stale_body = [''a'']" by code_simp
  have "TrimSpace (drop_cr ''a'') = ''a''" "\<not> isHTMLLine ''a''"
    "parseLineTitle ''a'' NewParser = ((None, True), NewParser)" by code_simp+
  then have "processLine no_failure (drop_cr ''a'') (Suc 0) NewParser [] =
      (None, NewParser\<lparr>p_rulesCount := 1, p_written := 2, p_checksum := crc32_update 0 ''a''\<rparr>, stale_body)"
    by (simp add: processLine_def NewParser_def stale_body_def)
  then show ?thesis
    by (simp add: Parse_def raw MaxScanTokenSize_def parser_result_def NewParser_def)
qed

text \<open>If all lists of one kind fail to download, the engine is not rebuilt even when lists of the
  other kind were updated: there is a state in which a refresh stores new contents and checksum of the
  blocking list and leaves the old rules in the engine, and the next refresh, with every source working,
  still leaves them there.\<close>

theorem refresh_partial_failure_stale:
  "let (r1, s1) = refreshFiltersIntl (stale_env True) True True True stale_state;
       (r2, s2) = refreshFiltersIntl (stale_env False) True True True s1
   in r1 = (0, True) \<and> r2 = (0, False) \<and>
      map_option fst (lst_files s2 1) = Some stale_body \<and>
      map fy_checksum (lst_filters s2) = [crc32_update 0 ''a''] \<and>
      lst_block_engine s2 = Some [(1, ''old'')]"
proof -
  obtain r where r: "Parse no_failure stale_body = (r, None, stale_body)" "pr_checksum r = crc32_update 0 ''a''"
    "pr_title r = []" using stale_parse by blast
  let ?s1 = "stale_state\<lparr>
      lst_filters := [(hd (lst_filters stale_state))\<lparr>fy_last_updated := 0, fy_rules_count := pr_rulesCount r,
        fy_checksum := crc32_update 0 ''a''\<rparr>],
      lst_files := [1 \<mapsto> (stale_body, 0), 2 \<mapsto> (stale_body, 0)]\<rparr>"
  have one: "refreshFiltersIntl (stale_env True) True True True stale_state = ((0, True), ?s1)"
    by (simp add: refreshFiltersIntl_def refreshFiltersArray_def listsToUpdate_def list_update_def
        updateIntl_def finalizeUpdate_def stale_env_def stale_state_def r ensureName_def
        apply_update_def same_list_def fun_upd_twist)
  obtain s2 where two: "refreshFiltersIntl (stale_env False) True True True ?s1 = ((0, False), s2)"
    "map_option fst (lst_files s2 1) = Some stale_body"
    "map fy_checksum (lst_filters s2) = [crc32_update 0 ''a'']"
    by (simp add: refreshFiltersIntl_def refreshFiltersArray_def listsToUpdate_def list_update_def
        updateIntl_def finalizeUpdate_def stale_env_def stale_state_def r apply_update_def same_list_def)
  from refreshFiltersIntl_zero_frame [OF two(1)] have "lst_block_engine s2 = Some [(1, ''old'')]"
    by (simp add: stale_state_def)
  with one two show ?thesis by simp
qed

section \<open>Witnesses\<close>

theorem id_fix_unique_witness:
  "\<exists>fs' g'. id_fix (lst_filters stale_state @ lst_filters stale_state) 7 = Some (fs', g') \<and>
     distinct (map fy_id fs')"
proof -
  have "sint (7 :: 32 word) = 7" by simp
  then show ?thesis
    using id_fix_unique [of 7 "lst_filters stale_state @ lst_filters stale_state"]
    by (auto simp: stale_state_def)
qed



theorem filterSetProperties_failed_witness:
  "map no_checksum (lists_of False (snd (filterSetProperties (stale_env True) ''u''
       (new_list ''x'' ''w'' False 0) False stale_state))) =
   map no_checksum (lists_of False stale_state)"
proof -
  have "filterSetProperties (stale_env True) ''u'' (new_list ''x'' ''w'' False 0) False stale_state =
      ((False, Some ErrFilterExists), stale_state)"
    by (simp add: filterSetProperties_def stale_state_def lists_of_def index_of_def filterExistsLocked_def
        new_list_def)
  from filterSetProperties_failed [OF this] this show ?thesis by simp
qed

end
