(* ===== verification/Clients.thy ===== *)
theory Clients
  imports FilterTypes
begin

text \<open>
  The data of package \<^verbatim>\<open>internal/client\<close>: runtime clients with the information of their sources
  (\<^verbatim>\<open>client.go\<close>), the index of runtime clients (\<^verbatim>\<open>runtimeindex.go\<close>) and persistent clients with
  their validation and identifiers (\<^verbatim>\<open>persistent.go\<close>).

  Outside the repository and therefore arguments: the check of a host name label of module
  \<^verbatim>\<open>golibs\<close> (\<open>valid_label\<close>) and the parser of upstream configurations of module \<^verbatim>\<open>dnsproxy\<close>
  (\<open>parse_upstreams\<close>, which returns an error, if any).
\<close>

section \<open>Runtime clients\<close>

datatype source =
    SourceNone | SourceWHOIS | SourceARP | SourceRDNS | SourceDHCP | SourceHostsFile | SourcePersistent

fun source_String :: "source \<Rightarrow> string" where
  "source_String SourceWHOIS = ''WHOIS''"
| "source_String SourceARP = ''ARP''"
| "source_String SourceRDNS = ''rDNS''"
| "source_String SourceDHCP = ''DHCP''"
| "source_String SourceHostsFile = ''etc/hosts''"
| "source_String _ = []"

record whois_info =
  wi_city :: string
  wi_country :: string
  wi_orgname :: string

text \<open>A nil slice of names, that is no information from the source, is \<^term>\<open>None\<close>.\<close>

record runtime =
  rt_ip :: addr
  rt_whois :: "whois_info option"
  rt_arp :: "string list option"
  rt_rdns :: "string list option"
  rt_dhcp :: "string list option"
  rt_hostsFile :: "string list option"

definition NewRuntime :: "addr \<Rightarrow> runtime" where
  "NewRuntime ip = \<lparr>rt_ip = ip, rt_whois = None, rt_arp = None, rt_rdns = None, rt_dhcp = None,
     rt_hostsFile = None\<rparr>"

definition rt_Info :: "runtime \<Rightarrow> source \<times> string" where
  "rt_Info r =
     (let (cs, info) =
        (case rt_hostsFile r of Some i \<Rightarrow> (SourceHostsFile, i) | None \<Rightarrow>
         case rt_dhcp r of Some i \<Rightarrow> (SourceDHCP, i) | None \<Rightarrow>
         case rt_rdns r of Some i \<Rightarrow> (SourceRDNS, i) | None \<Rightarrow>
         case rt_arp r of Some i \<Rightarrow> (SourceARP, i) | None \<Rightarrow>
         (if rt_whois r \<noteq> None then SourceWHOIS else SourceNone, []))
      in case info of [] \<Rightarrow> (cs, []) | h # _ \<Rightarrow> (cs, h))"

definition rt_setInfo :: "source \<Rightarrow> string list \<Rightarrow> runtime \<Rightarrow> runtime" where
  "rt_setInfo cs hosts0 r =
     (let hosts = (if hosts0 = [[]] then [] else hosts0) in
      case cs of
        SourceARP \<Rightarrow> r\<lparr>rt_arp := Some hosts\<rparr>
      | SourceRDNS \<Rightarrow> r\<lparr>rt_rdns := Some hosts\<rparr>
      | SourceDHCP \<Rightarrow> r\<lparr>rt_dhcp := Some hosts\<rparr>
      | SourceHostsFile \<Rightarrow> r\<lparr>rt_hostsFile := Some hosts\<rparr>
      | _ \<Rightarrow> r)"

definition rt_setWHOIS :: "whois_info \<Rightarrow> runtime \<Rightarrow> runtime" where
  "rt_setWHOIS info r = r\<lparr>rt_whois := Some info\<rparr>"

definition rt_unset :: "source \<Rightarrow> runtime \<Rightarrow> runtime" where
  "rt_unset cs r =
     (case cs of
        SourceWHOIS \<Rightarrow> r\<lparr>rt_whois := None\<rparr>
      | SourceARP \<Rightarrow> r\<lparr>rt_arp := None\<rparr>
      | SourceRDNS \<Rightarrow> r\<lparr>rt_rdns := None\<rparr>
      | SourceDHCP \<Rightarrow> r\<lparr>rt_dhcp := None\<rparr>
      | SourceHostsFile \<Rightarrow> r\<lparr>rt_hostsFile := None\<rparr>
      | _ \<Rightarrow> r)"

definition rt_isEmpty :: "runtime \<Rightarrow> bool" where
  "rt_isEmpty r \<longleftrightarrow> rt_whois r = None \<and> rt_arp r = None \<and> rt_rdns r = None \<and> rt_dhcp r = None \<and>
     rt_hostsFile r = None"

section \<open>The index of runtime clients\<close>

type_synonym runtime_index = "(addr, runtime) gomap"

definition ri_client :: "addr \<Rightarrow> runtime_index \<Rightarrow> runtime option" where
  "ri_client ip ri = gm_get ri ip"

definition ri_add :: "runtime \<Rightarrow> runtime_index \<Rightarrow> runtime_index" where
  "ri_add rc ri = gm_put (rt_ip rc) rc ri"

definition ri_setInfo :: "addr \<Rightarrow> source \<Rightarrow> string list \<Rightarrow> runtime_index \<Rightarrow> runtime \<times> runtime_index" where
  "ri_setInfo ip cs hosts ri =
     (let rc = rt_setInfo cs hosts (case gm_get ri ip of None \<Rightarrow> NewRuntime ip | Some rc \<Rightarrow> rc)
      in (rc, gm_put ip rc ri))"

definition ri_clearSource :: "source \<Rightarrow> runtime_index \<Rightarrow> runtime_index" where
  "ri_clearSource src ri = map (\<lambda>(ip, rc). (ip, rt_unset src rc)) ri"

definition ri_removeEmpty :: "runtime_index \<Rightarrow> nat \<times> runtime_index" where
  "ri_removeEmpty ri =
     (length (filter (\<lambda>(ip, rc). rt_isEmpty rc) ri), filter (\<lambda>(ip, rc). \<not> rt_isEmpty rc) ri)"

text \<open>The runtime clients are stored under their own addresses.\<close>

definition ri_wf :: "runtime_index \<Rightarrow> bool" where
  "ri_wf ri \<longleftrightarrow> gm_wf ri \<and> (\<forall>(ip, rc) \<in> set ri. rt_ip rc = ip)"

text \<open>Replacing the information of one source by a list of addresses and names, as the ARP, DHCP and
  hosts-file updates of the storage do.\<close>

definition ri_refresh :: "source \<Rightarrow> (addr \<times> string) list \<Rightarrow> runtime_index \<Rightarrow> runtime_index" where
  "ri_refresh src ns ri =
     snd (ri_removeEmpty (fold (\<lambda>(ip, n) ri. snd (ri_setInfo ip src [n] ri)) ns (ri_clearSource src ri)))"

section \<open>Persistent clients\<close>

type_synonym uid = "128 word"

record persistent =
  pc_safe_search :: "safe_search option"
  pc_blocked_services :: "blocked_services option"
  pc_name :: string
  pc_tags :: "string list"
  pc_upstreams :: "string list"
  pc_ips :: "addr list"
  pc_subnets :: "prefix list"
  pc_macs :: "mac list"
  pc_client_ids :: "string list"
  pc_uid :: uid
  pc_cache_size :: "32 word"
  pc_cache_enabled :: bool
  pc_own_settings :: bool
  pc_filtering :: bool
  pc_safebrowsing :: bool
  pc_parental :: bool
  pc_own_services :: bool
  pc_ignore_querylog :: bool
  pc_ignore_stats :: bool
  pc_safe_search_conf :: safe_search_config

datatype client_error =
    EmptyName | IdRequired | UidRequired | InvalidUpstreams string | InvalidTag string
  | EmptyClientID | InvalidClientID string

definition identifiersLen :: "persistent \<Rightarrow> nat" where
  "identifiersLen c =
     length (pc_ips c) + length (pc_subnets c) + length (pc_macs c) + length (pc_client_ids c)"

definition pc_validate ::
  "(string list \<Rightarrow> string option) \<Rightarrow> string list \<Rightarrow> persistent \<Rightarrow> (client_error, persistent) result" where
  "pc_validate parse_upstreams allTags c =
     (if pc_name c = [] then Inl EmptyName
      else if identifiersLen c = 0 then Inl IdRequired
      else if pc_uid c = 0 then Inl UidRequired
      else case parse_upstreams (pc_upstreams c) of
        Some e \<Rightarrow> Inl (InvalidUpstreams e)
      | None \<Rightarrow>
          (case find (\<lambda>t. \<not> snd (binary_search cmp_ord allTags t)) (pc_tags c) of
             Some t \<Rightarrow> Inl (InvalidTag t)
           | None \<Rightarrow> Inr (c\<lparr>pc_tags := sort (pc_tags c)\<rparr>)))"

definition subnetCompare :: "prefix \<Rightarrow> prefix \<Rightarrow> int" where
  "subnetCompare x y =
     (if x = y then 0
      else if pfx_bits x = pfx_bits y then addr_compare (pfx_addr x) (pfx_addr y)
      else if pfx_bits x > pfx_bits y then - 1 else 1)"

definition ValidateClientID :: "(string \<Rightarrow> bool) \<Rightarrow> string \<Rightarrow> (client_error, unit) result" where
  "ValidateClientID valid_label i = (if valid_label i then Inr () else Inl (InvalidClientID i))"

definition pc_setID :: "(string \<Rightarrow> bool) \<Rightarrow> string \<Rightarrow> persistent \<Rightarrow> (client_error, persistent) result" where
  "pc_setID valid_label i c =
     (if i = [] then Inl EmptyClientID
      else case parse_addr i of
        Some ip \<Rightarrow> Inr (c\<lparr>pc_ips := pc_ips c @ [ip]\<rparr>)
      | None \<Rightarrow>
      (case parse_prefix i of
        Some subnet \<Rightarrow> Inr (c\<lparr>pc_subnets := pc_subnets c @ [subnet]\<rparr>)
      | None \<Rightarrow>
      (case parse_mac i of
        Some mac \<Rightarrow> Inr (c\<lparr>pc_macs := pc_macs c @ [mac]\<rparr>)
      | None \<Rightarrow>
      (case ValidateClientID valid_label i of
        Inl e \<Rightarrow> Inl e
      | Inr _ \<Rightarrow> Inr (c\<lparr>pc_client_ids := pc_client_ids c @ [to_lower i]\<rparr>)))))"

fun setID_all :: "(string \<Rightarrow> bool) \<Rightarrow> string list \<Rightarrow> persistent \<Rightarrow> (client_error, persistent) result" where
  "setID_all valid_label [] c = Inr c"
| "setID_all valid_label (i # ids) c =
     (case pc_setID valid_label i c of Inl e \<Rightarrow> Inl e | Inr c1 \<Rightarrow> setID_all valid_label ids c1)"

definition SetIDs :: "(string \<Rightarrow> bool) \<Rightarrow> string list \<Rightarrow> persistent \<Rightarrow> (client_error, persistent) result" where
  "SetIDs valid_label ids c =
     (case setID_all valid_label ids c of
        Inl e \<Rightarrow> Inl e
      | Inr c1 \<Rightarrow>
          Inr (c1\<lparr>pc_ips := sort_cmp addr_compare (pc_ips c1),
                  pc_subnets := sort_cmp subnetCompare (pc_subnets c1),
                  pc_macs := sort (pc_macs c1),
                  pc_client_ids := sort (pc_client_ids c1)\<rparr>))"

definition Identifiers :: "persistent \<Rightarrow> string list" where
  "Identifiers c = map addr_string (pc_ips c) @ map prefix_string (pc_subnets c) @
     map mac_string (pc_macs c) @ pc_client_ids c"

definition EqualIDs :: "persistent \<Rightarrow> persistent \<Rightarrow> bool" where
  "EqualIDs c prev \<longleftrightarrow> pc_ips c = pc_ips prev \<and> pc_subnets c = pc_subnets prev \<and>
     pc_macs c = pc_macs prev \<and> pc_client_ids c = pc_client_ids prev"

definition ShallowClone :: "persistent \<Rightarrow> persistent" where
  "ShallowClone c = c\<lparr>pc_blocked_services := blocked_services_Clone (pc_blocked_services c)\<rparr>"

lemma ShallowClone_id [simp]: "ShallowClone c = c"
  by (simp add: ShallowClone_def)

section \<open>Subnets are ordered by length, then address\<close>

lemma subnetCompare_ord: "subnetCompare x y = cmp_ord x y"
  by (cases x; cases y)
    (auto simp: subnetCompare_def addr_compare_ord cmp_ord_def less_prefix_def prefix_key_def less_prod_def)

section \<open>Refreshing one source of runtime information\<close>

fun rt_source :: "source \<Rightarrow> runtime \<Rightarrow> string list option" where
  "rt_source SourceARP r = rt_arp r"
| "rt_source SourceRDNS r = rt_rdns r"
| "rt_source SourceDHCP r = rt_dhcp r"
| "rt_source SourceHostsFile r = rt_hostsFile r"
| "rt_source SourceWHOIS r = map_option (\<lambda>w. [wi_city w, wi_country w, wi_orgname w]) (rt_whois r)"
| "rt_source _ r = None"

text \<open>What a source says about an address.\<close>

definition src_info :: "source \<Rightarrow> addr \<Rightarrow> runtime_index \<Rightarrow> string list option" where
  "src_info cs ip ri = Option.bind (ri_client ip ri) (rt_source cs)"

definition name_sources :: "source set" where
  "name_sources = {SourceARP, SourceRDNS, SourceDHCP, SourceHostsFile}"

definition norm_names :: "string \<Rightarrow> string list" where
  "norm_names n = (if n = [] then [] else [n])"

lemma gm_get_filter:
  "gm_wf m \<Longrightarrow> gm_get (filter (\<lambda>(k, v). P v) m) k =
     (case gm_get m k of None \<Rightarrow> None | Some v \<Rightarrow> if P v then Some v else None)"
proof (induction m)
  case (Cons kv m)
  then have "gm_wf m" and new: "fst kv \<notin> fst ` set m" by (auto simp: gm_wf_def)
  moreover from new have "gm_get m (fst kv) = None" by (simp add: map_of_eq_None_iff)
  ultimately show ?case using Cons.IH by (cases kv) (auto split: option.split)
qed simp

lemma rt_source_setInfo:
  "src \<in> name_sources \<Longrightarrow>
   rt_source cs (rt_setInfo src [n] r) = (if cs = src then Some (norm_names n) else rt_source cs r)"
  by (cases cs; cases src) (auto simp: rt_setInfo_def norm_names_def name_sources_def Let_def)

lemma rt_source_unset:
  "src \<in> name_sources \<Longrightarrow> rt_source cs (rt_unset src r) = (if cs = src then None else rt_source cs r)"
  by (cases cs; cases src) (auto simp: rt_unset_def name_sources_def)

lemma rt_ip_frame [simp]:
  "rt_ip (rt_setInfo src hs r) = rt_ip r" "rt_ip (rt_unset src r) = rt_ip r" "rt_ip (NewRuntime ip) = ip"
  by (simp_all add: rt_setInfo_def rt_unset_def NewRuntime_def Let_def split: source.split)

lemma rt_isEmpty_source: "rt_isEmpty r \<Longrightarrow> rt_source cs r = None"
  by (cases cs) (simp_all add: rt_isEmpty_def)

lemma rt_source_New [simp]: "rt_source cs (NewRuntime ip) = None"
  by (cases cs) (simp_all add: NewRuntime_def)

lemma ri_wf_iff: "ri_wf ri \<longleftrightarrow> gm_wf ri \<and> (\<forall>ip rc. gm_get ri ip = Some rc \<longrightarrow> rt_ip rc = ip)"
  by (auto simp: ri_wf_def gm_get_iff)

lemma ri_wf_get: "ri_wf ri \<Longrightarrow> gm_get ri ip = Some rc \<Longrightarrow> rt_ip rc = ip"
  by (auto simp: ri_wf_def dest!: map_of_SomeD)

lemma ri_wf_put: "ri_wf ri \<Longrightarrow> rt_ip rc = ip \<Longrightarrow> ri_wf (gm_put ip rc ri)"
  by (auto simp: ri_wf_iff)

lemma ri_wf_setInfo: "ri_wf ri \<Longrightarrow> ri_wf (snd (ri_setInfo ip cs hosts ri))"
  by (auto simp: ri_setInfo_def Let_def intro!: ri_wf_put dest: ri_wf_get split: option.split)

lemma src_info_setInfo:
  "src \<in> name_sources \<Longrightarrow>
   src_info cs ip' (snd (ri_setInfo ip src [n] ri)) =
     (if ip' = ip \<and> cs = src then Some (norm_names n) else src_info cs ip' ri)"
  by (auto simp: src_info_def ri_client_def ri_setInfo_def Let_def rt_source_setInfo split: option.split)

lemma ri_clearSource_get: "gm_get (ri_clearSource src ri) ip = map_option (rt_unset src) (gm_get ri ip)"
  by (simp add: ri_clearSource_def map_of_map)

lemma ri_wf_clearSource: "ri_wf ri \<Longrightarrow> ri_wf (ri_clearSource src ri)"
  by (auto simp: ri_wf_def ri_clearSource_def gm_wf_def comp_def case_prod_beta)

lemma src_info_clear:
  "src \<in> name_sources \<Longrightarrow>
   src_info cs ip (ri_clearSource src ri) = (if cs = src then None else src_info cs ip ri)"
  by (cases "gm_get ri ip") (auto simp: src_info_def ri_client_def ri_clearSource_get rt_source_unset)

lemma ri_removeEmpty_spec:
  assumes "ri_wf ri"
  shows "ri_wf (snd (ri_removeEmpty ri)) \<and>
    (\<forall>ip rc. ri_client ip (snd (ri_removeEmpty ri)) = Some rc \<longrightarrow> \<not> rt_isEmpty rc) \<and>
    (\<forall>cs ip. src_info cs ip (snd (ri_removeEmpty ri)) = src_info cs ip ri)"
proof -
  have gm: "gm_wf ri" using assms by (simp add: ri_wf_def)
  have "ri_wf (snd (ri_removeEmpty ri))"
    using assms by (auto simp: ri_wf_def ri_removeEmpty_def gm_wf_def distinct_map_filter)
  moreover have "gm_get (snd (ri_removeEmpty ri)) ip =
      (case gm_get ri ip of None \<Rightarrow> None | Some rc \<Rightarrow> if \<not> rt_isEmpty rc then Some rc else None)" for ip
    unfolding ri_removeEmpty_def snd_conv by (rule gm_get_filter [OF gm])
  ultimately show ?thesis
    by (auto simp: ri_client_def src_info_def rt_isEmpty_source split: option.splits if_splits)
qed

lemma ri_fold_setInfo:
  assumes "src \<in> name_sources" "ri_wf ri"
  shows "ri_wf (fold (\<lambda>(ip, n) ri. snd (ri_setInfo ip src [n] ri)) ns ri) \<and>
    src_info cs ip (fold (\<lambda>(ip, n) ri. snd (ri_setInfo ip src [n] ri)) ns ri) =
      (case map_of (rev ns) ip of
         Some n \<Rightarrow> if cs = src then Some (norm_names n) else src_info cs ip ri
       | None \<Rightarrow> src_info cs ip ri)"
  using assms(2)
proof (induction ns arbitrary: ri)
  case (Cons x ns)
  obtain i n where x: "x = (i, n)" by force
  from Cons.IH [OF ri_wf_setInfo [OF Cons.prems], of i src "[n]"] assms(1) show ?case
    by (auto simp: x src_info_setInfo map_add_def split: option.split)
qed simp

text \<open>Refreshing the names of one source replaces exactly what that source said: afterwards it
  gives the last name listed for an address and nothing for the others, the other sources say what they
  said before, and no client without any information is left.\<close>

theorem runtime_refresh_spec:
  assumes "ri_wf ri" "src \<in> name_sources"
  shows "ri_wf (ri_refresh src ns ri) \<and>
    (\<forall>ip rc. ri_client ip (ri_refresh src ns ri) = Some rc \<longrightarrow> \<not> rt_isEmpty rc \<and> rt_ip rc = ip) \<and>
    (\<forall>cs ip. src_info cs ip (ri_refresh src ns ri) =
       (if cs = src then map_option norm_names (map_of (rev ns) ip) else src_info cs ip ri))"
proof -
  let ?f = "fold (\<lambda>(ip, n) ri. snd (ri_setInfo ip src [n] ri)) ns (ri_clearSource src ri)"
  note f = ri_fold_setInfo [OF assms(2) ri_wf_clearSource [OF assms(1)]]
  have eq: "ri_refresh src ns ri = snd (ri_removeEmpty ?f)" by (simp add: ri_refresh_def)
  have wf: "ri_wf ?f" using f by blast
  note rm = ri_removeEmpty_spec [OF wf]
  have "src_info cs ip ?f =
      (if cs = src then map_option norm_names (map_of (rev ns) ip) else src_info cs ip ri)" for cs ip
    using f assms(2) by (auto simp: src_info_clear split: option.split)
  with rm ri_wf_get show ?thesis unfolding eq by (auto simp: ri_client_def)
qed

theorem runtime_refresh_witness:
  "src_info SourceARP (Addr4 1) (ri_refresh SourceARP [(Addr4 1, ''pc'')]
     [(Addr4 2, (NewRuntime (Addr4 2))\<lparr>rt_arp := Some [''old'']\<rparr>)]) = Some [''pc'']"
proof -
  let ?ri = "[(Addr4 2, (NewRuntime (Addr4 2))\<lparr>rt_arp := Some [''old'']\<rparr>)]"
  have "ri_wf ?ri" by (simp add: ri_wf_def gm_wf_def NewRuntime_def)
  moreover have "SourceARP \<in> name_sources" by (simp add: name_sources_def)
  ultimately show ?thesis using runtime_refresh_spec [of ?ri SourceARP "[(Addr4 1, ''pc'')]"]
    by (simp add: norm_names_def)
qed

end
