(* ===== verification/AghAlg.thy ===== *)
theory AghAlg
  imports NetIP
begin

text \<open>
  Package \<^verbatim>\<open>internal/aghalg\<close>: the generic sorted map (\<^verbatim>\<open>sortedmap.go\<close>), the uniqueness checker
  (\<^verbatim>\<open>aghalg.go\<close>) and the nullable boolean (\<^verbatim>\<open>nullbool.go\<close>).  A sorted map keeps its values in a
  map and its keys in a slice ordered by a comparison function; the locale \<open>strict_cmp\<close> is what it
  expects of that function, and the lemmas proved there show that the slice stays sorted, holds
  exactly the keys of the map, and that deletion never runs out of range.
\<close>

section \<open>SortedMap\<close>

record ('k, 'v) sorted_map =
  sm_vals :: "'k \<rightharpoonup> 'v"
  sm_keys :: "'k list"

definition sm_new :: "('k, 'v) sorted_map" where
  "sm_new = \<lparr>sm_vals = Map.empty, sm_keys = []\<rparr>"

definition sm_set :: "('k \<Rightarrow> 'k \<Rightarrow> int) \<Rightarrow> 'k \<Rightarrow> 'v \<Rightarrow> ('k, 'v) sorted_map \<Rightarrow> ('k, 'v) sorted_map" where
  "sm_set cmp key val m =
     (let ks = sm_keys m; (i, has) = binary_search cmp ks key
      in \<lparr>sm_vals = (sm_vals m)(key \<mapsto> val),
          sm_keys = (if has then ks[i := key] else take i ks @ key # drop i ks)\<rparr>)"

definition sm_get :: "('k, 'v) sorted_map \<Rightarrow> 'k \<Rightarrow> 'v option" where
  "sm_get m key = sm_vals m key"

text \<open>\<^verbatim>\<open>slices.Delete(keys, i, i+1)\<close> panics when \<open>i\<close> is not an index; \<^term>\<open>None\<close> is that panic.\<close>

definition sm_del :: "('k \<Rightarrow> 'k \<Rightarrow> int) \<Rightarrow> 'k \<Rightarrow> ('k, 'v) sorted_map \<Rightarrow> ('k, 'v) sorted_map option" where
  "sm_del cmp key m =
     (if sm_vals m key = None then Some m
      else
        let ks = sm_keys m; i = fst (binary_search cmp ks key)
        in if i < length ks
           then Some \<lparr>sm_vals = (sm_vals m)(key := None), sm_keys = take i ks @ drop (i + 1) ks\<rparr>
           else None)"

definition sm_clear :: "('k, 'v) sorted_map \<Rightarrow> ('k, 'v) sorted_map" where
  "sm_clear m = \<lparr>sm_vals = Map.empty, sm_keys = []\<rparr>"

text \<open>
  \<^verbatim>\<open>Range\<close> calls a callback on each key, in order, with the stored value (the zero value if there
  is none), until it returns false; the callback's captured variables are the threaded state.
\<close>

fun sm_range_keys ::
  "('s \<Rightarrow> 'k \<Rightarrow> 'v \<Rightarrow> 's \<times> bool) \<Rightarrow> 'v \<Rightarrow> ('k \<rightharpoonup> 'v) \<Rightarrow> 'k list \<Rightarrow> 's \<Rightarrow> 's" where
  "sm_range_keys cb zero vals [] s = s"
| "sm_range_keys cb zero vals (k # ks) s =
     (case cb s k (case vals k of Some v \<Rightarrow> v | None \<Rightarrow> zero) of
        (s', cont) \<Rightarrow> if cont then sm_range_keys cb zero vals ks s' else s')"

definition sm_range ::
  "('s \<Rightarrow> 'k \<Rightarrow> 'v \<Rightarrow> 's \<times> bool) \<Rightarrow> 'v \<Rightarrow> ('k, 'v) sorted_map \<Rightarrow> 's \<Rightarrow> 's" where
  "sm_range cb zero m s = sm_range_keys cb zero (sm_vals m) (sm_keys m) s"

text \<open>The well-formedness of a sorted map: its slice holds its keys, strictly ascending.\<close>

definition sm_wf :: "('k \<Rightarrow> 'k \<Rightarrow> int) \<Rightarrow> ('k, 'v) sorted_map \<Rightarrow> bool" where
  "sm_wf cmp m \<longleftrightarrow>
     set (sm_keys m) = dom (sm_vals m) \<and> sorted_wrt (\<lambda>x y. cmp x y < 0) (sm_keys m)"

lemma sm_wf_new [simp]: "sm_wf cmp sm_new"
  by (simp add: sm_wf_def sm_new_def)

lemma sm_wf_clear [simp]: "sm_wf cmp (sm_clear m)"
  by (simp add: sm_wf_def sm_clear_def)

lemma sm_get_set: "sm_get (sm_set cmp k v m) k' = (if k' = k then Some v else sm_get m k')"
  by (simp add: sm_get_def sm_set_def Let_def split: prod.split)

text \<open>A comparison function that orders the keys strictly and totally.\<close>

locale strict_cmp =
  fixes cmp :: "'k \<Rightarrow> 'k \<Rightarrow> int"
  assumes cmp_eq: "cmp x y = 0 \<longleftrightarrow> x = y"
    and cmp_less_trans: "cmp x y < 0 \<Longrightarrow> cmp y z < 0 \<Longrightarrow> cmp x z < 0"
    and cmp_anti: "cmp x y < 0 \<longleftrightarrow> cmp y x > 0"
begin

lemma sorted_prefix:
  assumes "sorted_wrt (\<lambda>x y. cmp x y < 0) ks" and "a \<le> b" and "b < length ks"
    and "cmp (ks ! b) t < 0"
  shows "cmp (ks ! a) t < 0"
proof (cases "a = b")
  case False
  with assms have "cmp (ks ! a) (ks ! b) < 0" by (simp add: sorted_wrt_iff_nth_less)
  then show ?thesis using assms(4) by (rule cmp_less_trans)
qed (use assms in simp)

lemma search_border:
  fixes ks :: "'k list" and t :: 'k
  assumes "sorted_wrt (\<lambda>x y. cmp x y < 0) ks"
  defines "i \<equiv> fst (binary_search cmp ks t)"
  shows "i \<le> length ks" and "\<And>k. k < i \<Longrightarrow> cmp (ks ! k) t < 0"
    and "\<And>k. i \<le> k \<Longrightarrow> k < length ks \<Longrightarrow> \<not> cmp (ks ! k) t < 0"
proof -
  have i: "i = bsearch_loop cmp ks t 0 (length ks)"
    by (simp add: i_def binary_search_def Let_def)
  show "i \<le> length ks" using bsearch_loop_bounds [of 0 "length ks"] i by simp
  note border = bsearch_loop_border [of 0 "length ks" ks cmp t, OF _ _ sorted_prefix [OF assms(1)]]
  show "\<And>k. k < i \<Longrightarrow> cmp (ks ! k) t < 0"
    and "\<And>k. i \<le> k \<Longrightarrow> k < length ks \<Longrightarrow> \<not> cmp (ks ! k) t < 0"
    using border i by auto
qed

lemma search_found:
  assumes srt: "sorted_wrt (\<lambda>x y. cmp x y < 0) ks"
  shows "snd (binary_search cmp ks t) \<longleftrightarrow> t \<in> set ks"
    and "t \<in> set ks \<Longrightarrow> fst (binary_search cmp ks t) < length ks \<and>
      ks ! fst (binary_search cmp ks t) = t"
proof -
  let ?i = "fst (binary_search cmp ks t)"
  note b = search_border [OF srt, where t = t]
  have snd_def: "snd (binary_search cmp ks t) \<longleftrightarrow> ?i < length ks \<and> ks ! ?i = t"
    by (simp add: binary_search_def Let_def cmp_eq)
  show mem: "?i < length ks \<and> ks ! ?i = t" if "t \<in> set ks"
  proof -
    from that obtain k where k: "k < length ks" "ks ! k = t" by (auto simp: in_set_conv_nth)
    then have "\<not> cmp (ks ! k) t < 0" by (simp add: cmp_eq [THEN iffD2])
    with b(2) have ik: "?i \<le> k" by (metis not_le)
    with k(1) have il: "?i < length ks" by simp
    have "\<not> cmp (ks ! ?i) (ks ! k) < 0" using b(3) il k(2) by simp
    then have "\<not> ?i < k" using srt k(1) by (auto simp: sorted_wrt_iff_nth_less)
    with ik k il show ?thesis by simp
  qed
  show "snd (binary_search cmp ks t) \<longleftrightarrow> t \<in> set ks"
    using mem snd_def nth_mem by metis
qed

lemma sorted_insert_at:
  assumes srt: "sorted_wrt (\<lambda>x y. cmp x y < 0) ks" and new: "t \<notin> set ks"
  defines "i \<equiv> fst (binary_search cmp ks t)"
  shows "sorted_wrt (\<lambda>x y. cmp x y < 0) (take i ks @ t # drop i ks)"
proof -
  note b = search_border [OF srt, where t = t, folded i_def]
  have below: "\<forall>x \<in> set (take i ks). cmp x t < 0"
    using b(1,2) by (auto simp: in_set_conv_nth)
  have above: "\<forall>y \<in> set (drop i ks). cmp t y < 0"
  proof
    fix y assume y: "y \<in> set (drop i ks)"
    then obtain k where "k < length ks - i" "y = ks ! (i + k)"
      using b(1) by (auto simp: in_set_conv_nth)
    then have "i + k < length ks" "y = ks ! (i + k)" by simp_all
    with b(3) have "\<not> cmp y t < 0" by simp
    moreover from y new have "y \<noteq> t" by (auto dest: in_set_dropD)
    ultimately have "cmp y t > 0" using cmp_eq [of y t] by linarith
    then show "cmp t y < 0" by (simp add: cmp_anti)
  qed
  have "sorted_wrt (\<lambda>x y. cmp x y < 0) (take i ks @ drop i ks)" using srt by simp
  with below above show ?thesis
    by (auto simp: sorted_wrt_append simp del: append_take_drop_id)
qed

lemma sm_wf_set:
  assumes wf: "sm_wf cmp m"
  shows "sm_wf cmp (sm_set cmp k v m)"
proof (cases "k \<in> set (sm_keys m)")
  case True
  have srt: "sorted_wrt (\<lambda>x y. cmp x y < 0) (sm_keys m)" using wf by (simp add: sm_wf_def)
  note f = search_found [OF srt, of k]
  have "sm_keys (sm_set cmp k v m) = sm_keys m"
    using f True by (auto simp: sm_set_def Let_def list_update_same_conv split: prod.split)
  moreover have "sm_vals (sm_set cmp k v m) = (sm_vals m)(k \<mapsto> v)"
    by (simp add: sm_set_def Let_def split: prod.split)
  ultimately show ?thesis using wf True by (auto simp: sm_wf_def)
next
  case False
  have srt: "sorted_wrt (\<lambda>x y. cmp x y < 0) (sm_keys m)" using wf by (simp add: sm_wf_def)
  obtain i where bs: "binary_search cmp (sm_keys m) k = (i, False)"
    using search_found(1) [OF srt, of k] False by (metis prod.collapse)
  have "sorted_wrt (\<lambda>x y. cmp x y < 0) (take i (sm_keys m) @ k # drop i (sm_keys m))"
    using sorted_insert_at [OF srt False] bs by simp
  moreover have "set (take i (sm_keys m)) \<union> set (drop i (sm_keys m)) = set (sm_keys m)"
    by (metis append_take_drop_id set_append)
  ultimately show ?thesis using wf bs by (auto simp: sm_wf_def sm_set_def Let_def)
qed

lemma sm_del_present:
  assumes wf: "sm_wf cmp m" and dom: "k \<in> dom (sm_vals m)"
  obtains i where "i < length (sm_keys m)" and "sm_keys m ! i = k"
    and "sm_del cmp k m =
      Some \<lparr>sm_vals = (sm_vals m)(k := None), sm_keys = take i (sm_keys m) @ drop (i + 1) (sm_keys m)\<rparr>"
proof -
  have srt: "sorted_wrt (\<lambda>x y. cmp x y < 0) (sm_keys m)" and mem: "k \<in> set (sm_keys m)"
    using wf dom by (auto simp: sm_wf_def)
  note f = search_found(2) [OF srt mem]
  show thesis
    by (rule that [of "fst (binary_search cmp (sm_keys m) k)"])
      (use f dom in \<open>auto simp: sm_del_def Let_def\<close>)
qed

lemma cmp_irrefl [simp]: "\<not> cmp x x < 0"
  using cmp_eq [of x x] by simp

lemma sorted_distinct: "sorted_wrt (\<lambda>x y. cmp x y < 0) ks \<Longrightarrow> distinct ks"
  by (induction ks) auto

text \<open>Deleting keeps the sorted map well formed and removes exactly the key; it never panics.\<close>

lemma sm_del_correct:
  assumes wf: "sm_wf cmp m"
  shows "\<exists>m'. sm_del cmp k m = Some m' \<and> sm_wf cmp m' \<and> sm_vals m' = (sm_vals m)(k := None)"
proof (cases "k \<in> dom (sm_vals m)")
  case True
  obtain i where i: "i < length (sm_keys m)" "sm_keys m ! i = k"
    and del: "sm_del cmp k m = Some \<lparr>sm_vals = (sm_vals m)(k := None),
      sm_keys = take i (sm_keys m) @ drop (i + 1) (sm_keys m)\<rparr>"
    using wf True by (rule sm_del_present)
  have srt: "sorted_wrt (\<lambda>x y. cmp x y < 0) (sm_keys m)" using wf by (simp add: sm_wf_def)
  have split: "sm_keys m = take i (sm_keys m) @ k # drop (i + 1) (sm_keys m)"
    using id_take_nth_drop [OF i(1)] i(2) by simp
  have "sorted_wrt (\<lambda>x y. cmp x y < 0) (take i (sm_keys m) @ drop (i + 1) (sm_keys m))"
    using srt by (subst (asm) split) (auto simp: sorted_wrt_append)
  moreover have "set (take i (sm_keys m) @ drop (i + 1) (sm_keys m)) = set (sm_keys m) - {k}"
    using sorted_distinct [OF srt] by (subst (3) split, subst (asm) split) auto
  ultimately show ?thesis using del wf by (auto simp: sm_wf_def)
next
  case False
  then have "sm_del cmp k m = Some m" and "(sm_vals m)(k := None) = sm_vals m"
    by (auto simp: sm_del_def domIff)
  with wf show ?thesis by simp
qed

end

section \<open>CoalesceSlice\<close>

text \<open>The first slice that is not nil; a nil slice is \<^term>\<open>None\<close>.\<close>

fun CoalesceSlice :: "'a list option list \<Rightarrow> 'a list option" where
  "CoalesceSlice [] = None"
| "CoalesceSlice (v # vs) = (if v \<noteq> None then v else CoalesceSlice vs)"

section \<open>UniqChecker\<close>

text \<open>A checker counts how often each element was added; int64 counts never wrap in practice and
  are integers here.\<close>

type_synonym 'a uniq_checker = "('a, int) gomap"

definition uc_count :: "'a uniq_checker \<Rightarrow> 'a \<Rightarrow> int" where
  "uc_count uc e = (case gm_get uc e of Some n \<Rightarrow> n | None \<Rightarrow> 0)"

definition uc_add :: "'a list \<Rightarrow> 'a uniq_checker \<Rightarrow> 'a uniq_checker" where
  "uc_add elems uc = fold (\<lambda>e uc. gm_put e (uc_count uc e + 1) uc) elems uc"

definition uc_merge :: "'a uniq_checker \<Rightarrow> 'a uniq_checker \<Rightarrow> 'a uniq_checker" where
  "uc_merge uc other =
     fold (\<lambda>(e, n) m. gm_put e (uc_count m e + n) m) other
       (fold (\<lambda>(e, n) m. gm_put e (uc_count m e + n) m) uc [])"

text \<open>The error lists the duplicated elements in ascending order.\<close>

definition uc_validate :: "'a::linorder uniq_checker \<Rightarrow> ('a list, unit) result" where
  "uc_validate uc =
     (let dup = map fst (filter (\<lambda>(e, n). 1 < n) uc)
      in if dup = [] then Inr () else Inl (sort dup))"

lemma uc_count_put [simp]: "uc_count (gm_put e n uc) e' = (if e' = e then n else uc_count uc e')"
  by (simp add: uc_count_def)

lemma uc_wf_add: "gm_wf uc \<Longrightarrow> gm_wf (uc_add elems uc)"
  by (induction elems arbitrary: uc) (auto simp: uc_add_def)

lemma uc_count_add: "uc_count (uc_add elems uc) e = uc_count uc e + int (count_list elems e)"
  by (induction elems arbitrary: uc) (auto simp: uc_add_def)

lemma uc_add_nonneg: "(\<And>e. 0 \<le> uc_count uc e) \<Longrightarrow> 0 \<le> uc_count (uc_add elems uc) e"
  by (simp add: uc_count_add)

lemma uc_fold_wf: "gm_wf m \<Longrightarrow> gm_wf (fold (\<lambda>(e, n) m. gm_put e (uc_count m e + n) m) xs m)"
  by (induction xs arbitrary: m) auto

lemma uc_fold_count:
  "gm_wf xs \<Longrightarrow> uc_count (fold (\<lambda>(e, n) m. gm_put e (uc_count m e + n) m) xs m) e =
     uc_count m e + uc_count xs e"
proof (induction xs arbitrary: m)
  case (Cons x xs)
  obtain k n where x: "x = (k, n)" by (cases x)
  with Cons.prems have "k \<notin> fst ` set xs" "gm_wf xs" by (auto simp: gm_wf_def)
  then have "gm_get xs k = None" by (simp add: map_of_eq_None_iff)
  with Cons.IH [OF \<open>gm_wf xs\<close>] x show ?case by (auto simp: uc_count_def)
qed (simp add: uc_count_def)

lemma uc_wf_merge: "gm_wf (uc_merge uc other)"
  by (simp add: uc_merge_def uc_fold_wf)

lemma uc_count_merge:
  "gm_wf uc \<Longrightarrow> gm_wf other \<Longrightarrow> uc_count (uc_merge uc other) e = uc_count uc e + uc_count other e"
  by (simp add: uc_merge_def uc_fold_count) (simp add: uc_count_def)

lemma uc_validate_ok_iff:
  assumes "gm_wf uc"
  shows "uc_validate uc = Inr () \<longleftrightarrow> (\<forall>e. uc_count uc e \<le> 1)"
proof -
  have "filter (\<lambda>(e, n). 1 < n) uc = [] \<longleftrightarrow> (\<forall>(e, n) \<in> set uc. n \<le> 1)"
    by (auto simp: filter_empty_conv)
  also have "\<dots> \<longleftrightarrow> (\<forall>e. uc_count uc e \<le> 1)"
    using gm_get_iff [OF assms] by (fastforce simp: uc_count_def split: option.splits)
  finally show ?thesis by (auto simp: uc_validate_def Let_def)
qed

section \<open>NullBool\<close>

datatype null_bool = NBNull | NBTrue | NBFalse

fun nb_string :: "null_bool \<Rightarrow> string" where
  "nb_string NBNull = ''null''"
| "nb_string NBTrue = ''true''"
| "nb_string NBFalse = ''false''"

definition bool_to_null_bool :: "bool \<Rightarrow> null_bool" where
  "bool_to_null_bool c = (if c then NBTrue else NBFalse)"

definition nb_marshal_json :: "null_bool \<Rightarrow> string" where
  "nb_marshal_json nb = nb_string nb"

definition nb_unmarshal_json :: "string \<Rightarrow> (string, null_bool) result" where
  "nb_unmarshal_json b =
     (if b = [] \<or> b = ''null'' then Inr NBNull
      else if b = ''true'' then Inr NBTrue
      else if b = ''false'' then Inr NBFalse
      else Inl b)"

lemma nb_json_roundtrip: "nb_unmarshal_json (nb_marshal_json nb) = Inr nb"
  by (cases nb) (simp_all add: nb_unmarshal_json_def nb_marshal_json_def)

end
