(* ===== verification/Access.thy ===== *)
theory Access
  imports Clients AghAlg
begin

text \<open>
  Access control and client identification of package \<^verbatim>\<open>internal/dnsforward\<close>: the access manager with
  its lists (\<^verbatim>\<open>access.go\<close>), the extraction of a ClientID from a request (\<^verbatim>\<open>clientid.go\<close>), the
  decision on a client (\<^verbatim>\<open>IsBlockedClient\<close> of \<^verbatim>\<open>dnsforward.go\<close>) and the handler that runs before
  everything else (\<^verbatim>\<open>beforerequest.go\<close>).

  Arguments of the model: the check of a host name label and the relation of immediate subdomains of
  module \<^verbatim>\<open>golibs\<close>, its splitter of host and port, and the construction of a rule engine from a text
  of module \<^verbatim>\<open>urlfilter\<close>, which yields an error or the function that matches a host.
\<close>

section \<open>The access manager\<close>

type_synonym host_engine = "string \<Rightarrow> qtype \<Rightarrow> bool"

record access_manager =
  am_allowed_ips :: "addr set"
  am_blocked_ips :: "addr set"
  am_allowed_ids :: "string set"
  am_blocked_ids :: "string set"
  am_engine :: host_engine
  am_allowed_nets :: "prefix list"
  am_blocked_nets :: "prefix list"

record client_sets =
  cs_ips :: "addr set"
  cs_nets :: "prefix list"
  cs_ids :: "string set"

definition empty_sets :: client_sets where
  "empty_sets = \<lparr>cs_ips = {}, cs_nets = [], cs_ids = {}\<rparr>"

datatype access_error =
    BadClient string nat | AddingAllowed access_error | AddingBlocked access_error | BadHosts string
  | DupAllowed "string list" | DupDisallowed "string list" | DupHosts "string list" | Intersect "string list"
  | BadJSON string

fun processAccessClients ::
  "(string \<Rightarrow> bool) \<Rightarrow> nat \<Rightarrow> string list \<Rightarrow> client_sets \<Rightarrow> (access_error, client_sets) result" where
  "processAccessClients valid_label i [] cs = Inr cs"
| "processAccessClients valid_label i (s # ss) cs =
     (case parse_addr s of
        Some ip \<Rightarrow> processAccessClients valid_label (i + 1) ss (cs\<lparr>cs_ips := insert ip (cs_ips cs)\<rparr>)
      | None \<Rightarrow>
          (case parse_prefix s of
             Some n \<Rightarrow> processAccessClients valid_label (i + 1) ss (cs\<lparr>cs_nets := cs_nets cs @ [n]\<rparr>)
           | None \<Rightarrow>
               (case ValidateClientID valid_label s of
                  Inl _ \<Rightarrow> Inl (BadClient s i)
                | Inr _ \<Rightarrow>
                    processAccessClients valid_label (i + 1) ss (cs\<lparr>cs_ids := insert s (cs_ids cs)\<rparr>))))"

definition hosts_text :: "string list \<Rightarrow> string" where
  "hosts_text hs = concat (map (\<lambda>h. to_lower h @ [CHR 0x0A]) hs)"

definition newAccessCtx ::
  "(string \<Rightarrow> bool) \<Rightarrow> (string \<Rightarrow> (string, host_engine) result) \<Rightarrow> string list \<Rightarrow> string list \<Rightarrow> string list \<Rightarrow>
   (access_error, access_manager) result" where
  "newAccessCtx valid_label mk_engine allowed blocked blockedHosts =
     (case processAccessClients valid_label 0 allowed empty_sets of
        Inl e \<Rightarrow> Inl (AddingAllowed e)
      | Inr a \<Rightarrow>
          (case processAccessClients valid_label 0 blocked empty_sets of
             Inl e \<Rightarrow> Inl (AddingBlocked e)
           | Inr b \<Rightarrow>
               (case mk_engine (hosts_text blockedHosts) of
                  Inl e \<Rightarrow> Inl (BadHosts e)
                | Inr eng \<Rightarrow>
                    Inr \<lparr>am_allowed_ips = cs_ips a, am_blocked_ips = cs_ips b, am_allowed_ids = cs_ids a,
                         am_blocked_ids = cs_ids b, am_engine = eng, am_allowed_nets = cs_nets a,
                         am_blocked_nets = cs_nets b\<rparr>)))"

definition allowlistMode :: "access_manager \<Rightarrow> bool" where
  "allowlistMode a \<longleftrightarrow> am_allowed_ips a \<noteq> {} \<or> am_allowed_ids a \<noteq> {} \<or> am_allowed_nets a \<noteq> []"

definition isBlockedClientID :: "string \<Rightarrow> access_manager \<Rightarrow> bool" where
  "isBlockedClientID i a =
     (if i = [] then allowlistMode a
      else if allowlistMode a then i \<notin> am_allowed_ids a
      else i \<in> am_blocked_ids a)"

definition isBlockedHost :: "string \<Rightarrow> qtype \<Rightarrow> access_manager \<Rightarrow> bool" where
  "isBlockedHost host qt a = am_engine a host qt"

definition isBlockedIP :: "addr \<Rightarrow> access_manager \<Rightarrow> bool \<times> string" where
  "isBlockedIP ip a =
     (let blocked = \<not> allowlistMode a;
          ips = (if allowlistMode a then am_allowed_ips a else am_blocked_ips a);
          nets = (if allowlistMode a then am_allowed_nets a else am_blocked_nets a)
      in if ip \<in> ips then (blocked, addr_string ip)
         else case find (\<lambda>n. prefix_contains n (with_zone [] ip)) nets of
                Some n \<Rightarrow> (blocked, prefix_string n)
              | None \<Rightarrow> (\<not> blocked, []))"

definition IsBlockedClient :: "addr \<Rightarrow> string \<Rightarrow> access_manager \<Rightarrow> bool \<times> string" where
  "IsBlockedClient ip clientID a =
     (let (blockedByIP, rule) = (if ip \<noteq> ZeroAddr then isBlockedIP ip a else (False, []));
          blockedByClientID = isBlockedClientID clientID a
      in if allowlistMode a \<and> blockedByIP \<and> blockedByClientID then (True, rule)
         else (\<not> allowlistMode a \<and> (blockedByIP \<or> blockedByClientID), if rule \<noteq> [] then rule else clientID))"

section \<open>Setting the lists\<close>

record access_list =
  al_allowed :: "string list"
  al_disallowed :: "string list"
  al_hosts :: "string list"

record access_state =
  as_lists :: access_list
  as_access :: access_manager

definition validateStrUniq :: "string list \<Rightarrow> string uniq_checker \<times> (string list, unit) result" where
  "validateStrUniq clients = (let uc = uc_add clients [] in (uc, uc_validate uc))"

definition validateAccessSet :: "access_list \<Rightarrow> (access_error, unit) result" where
  "validateAccessSet l =
     (case validateStrUniq (al_allowed l) of
        (_, Inl e) \<Rightarrow> Inl (DupAllowed e)
      | (allowed, Inr _) \<Rightarrow>
          (case validateStrUniq (al_disallowed l) of
             (_, Inl e) \<Rightarrow> Inl (DupDisallowed e)
           | (disallowed, Inr _) \<Rightarrow>
               (case validateStrUniq (al_hosts l) of
                  (_, Inl e) \<Rightarrow> Inl (DupHosts e)
                | (_, Inr _) \<Rightarrow>
                    (case uc_validate (uc_merge allowed disallowed) of
                       Inl e \<Rightarrow> Inl (Intersect e)
                     | Inr _ \<Rightarrow> Inr ()))))"

text \<open>The request body is decoded or not; an error is a response with status 400.\<close>

definition handleAccessSet ::
  "(string \<Rightarrow> bool) \<Rightarrow> (string \<Rightarrow> (string, host_engine) result) \<Rightarrow> (string, access_list) result \<Rightarrow>
   access_state \<Rightarrow> (access_error, access_state) result" where
  "handleAccessSet valid_label mk_engine body s =
     (case body of
        Inl e \<Rightarrow> Inl (BadJSON e)
      | Inr l \<Rightarrow>
          (case validateAccessSet l of
             Inl e \<Rightarrow> Inl e
           | Inr _ \<Rightarrow>
               (case newAccessCtx valid_label mk_engine (al_allowed l) (al_disallowed l) (al_hosts l) of
                  Inl e \<Rightarrow> Inl e
                | Inr a \<Rightarrow> Inr \<lparr>as_lists = l, as_access = a\<rparr>)))"

definition accessListJSON :: "access_state \<Rightarrow> access_list" where
  "accessListJSON s = as_lists s"

section \<open>Client identifiers\<close>

text \<open>Function \<^verbatim>\<open>path.Clean\<close> of the standard library, on the components of a path.\<close>

fun clean_parts :: "bool \<Rightarrow> string list \<Rightarrow> string list \<Rightarrow> string list" where
  "clean_parts rooted [] out = rev out"
| "clean_parts rooted (p # ps) out =
     (if p = [] \<or> p = ''.'' then clean_parts rooted ps out
      else if p = ''..'' then
        (case out of
           [] \<Rightarrow> clean_parts rooted ps (if rooted then [] else [p])
         | q # out' \<Rightarrow> if q = ''..'' then clean_parts rooted ps (p # out) else clean_parts rooted ps out')
      else clean_parts rooted ps (p # out))"

definition path_Clean :: "string \<Rightarrow> string" where
  "path_Clean p =
     (if p = [] then ''.''
      else
        let rooted = (hd p = CHR ''/'');
            out = join_with ''/'' (clean_parts rooted (split_on (CHR ''/'') p) [])
        in if rooted then CHR ''/'' # out else if out = [] then ''.'' else out)"

datatype proto = ProtoUDP | ProtoTCP | ProtoTLS | ProtoHTTPS | ProtoQUIC | ProtoDNSCrypt

text \<open>The server name of a TLS connection is present if the request came through one.\<close>

record http_request =
  hq_path :: string
  hq_tls :: "string option"
  hq_host :: string

record conn_info =
  cx_proto :: proto
  cx_http :: "http_request option"
  cx_quic :: "string option"
  cx_tls :: "string option"

datatype cid_error =
    NilHTTPRequest | InvalidPath string | ExtraParts string | InvalidID client_error
  | ServerNameMismatch string string | BadHostHeader | WrongConn proto | SlicePanic

definition clientIDFromClientServerName ::
  "(string \<Rightarrow> string \<Rightarrow> bool) \<Rightarrow> (string \<Rightarrow> bool) \<Rightarrow> string \<Rightarrow> string \<Rightarrow> bool \<Rightarrow> (cid_error, string) result" where
  "clientIDFromClientServerName imm_sub valid_label hostSrvName cliSrvName strict =
     (if hostSrvName = cliSrvName then Inr []
      else if \<not> imm_sub cliSrvName hostSrvName then
        (if \<not> strict then Inr [] else Inl (ServerNameMismatch cliSrvName hostSrvName))
      else if length cliSrvName < length hostSrvName + 1 then Inl SlicePanic
      else
        let clientID = take (length cliSrvName - length hostSrvName - 1) cliSrvName in
        case ValidateClientID valid_label clientID of
          Inl e \<Rightarrow> Inl (InvalidID e)
        | Inr _ \<Rightarrow> Inr (to_lower clientID))"

definition clientIDFromDNSContextHTTPS ::
  "(string \<Rightarrow> bool) \<Rightarrow> http_request option \<Rightarrow> (cid_error, string) result" where
  "clientIDFromDNSContextHTTPS valid_label r =
     (case r of
        None \<Rightarrow> Inl NilHTTPRequest
      | Some r \<Rightarrow>
          (let parts0 = split_on (CHR ''/'') (path_Clean (hq_path r));
               parts = (if hd parts0 = [] then tl parts0 else parts0)
           in if parts = [] \<or> hd parts \<noteq> ''dns-query'' then Inl (InvalidPath (hq_path r))
              else if length parts = 1 then Inr []
              else if length parts = 2 then
                (case ValidateClientID valid_label (parts ! 1) of
                   Inl e \<Rightarrow> Inl (InvalidID e)
                 | Inr _ \<Rightarrow> Inr (to_lower (parts ! 1)))
              else Inl (ExtraParts (hq_path r))))"

definition clientServerNameFromHTTP ::
  "(string \<Rightarrow> string option) \<Rightarrow> http_request \<Rightarrow> (cid_error, string \<times> bool) result" where
  "clientServerNameFromHTTP split_host r =
     (case hq_tls r of
        Some n \<Rightarrow> Inr (n, False)
      | None \<Rightarrow>
          if hq_host r = [] then Inr ([], False)
          else (case split_host (hq_host r) of None \<Rightarrow> Inl BadHostHeader | Some h \<Rightarrow> Inr (h, True)))"

text \<open>A nil HTTP request has been rejected before.\<close>

definition clientServerName ::
  "(string \<Rightarrow> string option) \<Rightarrow> conn_info \<Rightarrow> (cid_error, string) result" where
  "clientServerName split_host cx =
     (case cx_proto cx of
        ProtoHTTPS \<Rightarrow>
          (case cx_http cx of
             None \<Rightarrow> Inl NilHTTPRequest
           | Some r \<Rightarrow> map_sum id fst (clientServerNameFromHTTP split_host r))
      | ProtoQUIC \<Rightarrow> (case cx_quic cx of None \<Rightarrow> Inl (WrongConn ProtoQUIC) | Some n \<Rightarrow> Inr n)
      | ProtoTLS \<Rightarrow> (case cx_tls cx of None \<Rightarrow> Inl (WrongConn ProtoTLS) | Some n \<Rightarrow> Inr n)
      | _ \<Rightarrow> Inr [])"

record id_env =
  ie_label :: "string \<Rightarrow> bool"
  ie_imm_sub :: "string \<Rightarrow> string \<Rightarrow> bool"
  ie_split_host :: "string \<Rightarrow> string option"

record tls_conf =
  tc_server_name :: string
  tc_strict_sni :: bool

definition clientIDFromDNSContext :: "id_env \<Rightarrow> tls_conf \<Rightarrow> conn_info \<Rightarrow> (cid_error, string) result" where
  "clientIDFromDNSContext env tc cx =
     (let by_name =
        (if tc_server_name tc = [] then Inr []
         else case clientServerName (ie_split_host env) cx of
           Inl e \<Rightarrow> Inl e
         | Inr cliSrvName \<Rightarrow>
             clientIDFromClientServerName (ie_imm_sub env) (ie_label env) (tc_server_name tc) cliSrvName
               (tc_strict_sni tc))
      in if cx_proto cx = ProtoHTTPS then
           (case clientIDFromDNSContextHTTPS (ie_label env) (cx_http cx) of
              Inl e \<Rightarrow> Inl e
            | Inr i \<Rightarrow> if i \<noteq> [] then Inr i else by_name)
         else if cx_proto cx \<noteq> ProtoTLS \<and> cx_proto cx \<noteq> ProtoQUIC then Inr []
         else by_name)"

section \<open>Before a request\<close>

definition NormalizeDomain :: "string \<Rightarrow> string" where
  "NormalizeDomain host = (if host = ''.'' then host else to_lower (trim_suffix host ''.''))"

text \<open>
  The outcome of the first handler: the request goes on, with a ClientID to remember, or is answered by
  an error, refused, or dropped without an answer.
\<close>

datatype before = BeforeNext "string option" | BeforeServfail cid_error | BeforeRefused | BeforeDropped

definition preBlockedResponse :: "proto \<Rightarrow> before" where
  "preBlockedResponse p = (if p = ProtoUDP \<or> p = ProtoDNSCrypt then BeforeDropped else BeforeRefused)"

definition HandleBefore ::
  "id_env \<Rightarrow> tls_conf \<Rightarrow> access_manager \<Rightarrow> conn_info \<Rightarrow> addr \<Rightarrow> (string \<times> qtype) list \<Rightarrow> before" where
  "HandleBefore env tc a cx ip questions =
     (case clientIDFromDNSContext env tc cx of
        Inl e \<Rightarrow> BeforeServfail e
      | Inr clientID \<Rightarrow>
          if fst (IsBlockedClient ip clientID a) then preBlockedResponse (cx_proto cx)
          else if (case questions of [(name, qt)] \<Rightarrow> isBlockedHost (NormalizeDomain name) qt a | _ \<Rightarrow> False)
          then preBlockedResponse (cx_proto cx)
          else BeforeNext (if clientID \<noteq> [] then Some clientID else None))"

section \<open>Decisions\<close>

text \<open>The entries of a list that name an address and a ClientID.\<close>

definition names_ip :: "string list \<Rightarrow> addr \<Rightarrow> bool" where
  "names_ip ss ip \<longleftrightarrow>
     (\<exists>s \<in> set ss. parse_addr s = Some ip \<or>
        parse_addr s = None \<and> (\<exists>n. parse_prefix s = Some n \<and> prefix_contains n (with_zone [] ip)))"

definition names_id :: "string list \<Rightarrow> string \<Rightarrow> bool" where
  "names_id ss i \<longleftrightarrow> i \<in> set ss \<and> parse_addr i = None \<and> parse_prefix i = None"

abbreviation listed_ip :: "addr set \<Rightarrow> prefix list \<Rightarrow> addr \<Rightarrow> bool" where
  "listed_ip ips nets ip \<equiv> ip \<in> ips \<or> (\<exists>n \<in> set nets. prefix_contains n (with_zone [] ip))"

lemma processAccessClients_spec:
  assumes "processAccessClients vl i ss cs = Inr cs'"
  shows "listed_ip (cs_ips cs') (cs_nets cs') ip \<longleftrightarrow> listed_ip (cs_ips cs) (cs_nets cs) ip \<or> names_ip ss ip"
    and "c \<in> cs_ids cs' \<longleftrightarrow> c \<in> cs_ids cs \<or> names_id ss c"
    and "cs_ips cs' = {} \<and> cs_nets cs' = [] \<and> cs_ids cs' = {} \<longleftrightarrow>
      ss = [] \<and> cs_ips cs = {} \<and> cs_nets cs = [] \<and> cs_ids cs = {}"
  using assms
proof (induction vl i ss cs rule: processAccessClients.induct)
  case (2 vl i s ss cs)
  {
    case 1
    then show ?case using 2
      by (auto simp: names_ip_def split: option.splits sum.splits)
  next
    case 2
    then show ?case using "2.IH"
      by (auto simp: names_id_def split: option.splits sum.splits)
  next
    case 3
    then show ?case using "2.IH" by (auto split: option.splits sum.splits)
  }
qed (simp_all add: names_ip_def names_id_def)

lemma newAccessCtx_spec:
  assumes "newAccessCtx vl mk allowed blocked hosts = Inr a"
  shows "listed_ip (am_allowed_ips a) (am_allowed_nets a) ip \<longleftrightarrow> names_ip allowed ip"
    and "listed_ip (am_blocked_ips a) (am_blocked_nets a) ip \<longleftrightarrow> names_ip blocked ip"
    and "c \<in> am_allowed_ids a \<longleftrightarrow> names_id allowed c" "c \<in> am_blocked_ids a \<longleftrightarrow> names_id blocked c"
    and "allowlistMode a \<longleftrightarrow> allowed \<noteq> []"
proof -
  obtain al bl where al: "processAccessClients vl 0 allowed empty_sets = Inr al"
    and bl: "processAccessClients vl 0 blocked empty_sets = Inr bl"
    and a: "am_allowed_ips a = cs_ips al" "am_allowed_nets a = cs_nets al" "am_allowed_ids a = cs_ids al"
      "am_blocked_ips a = cs_ips bl" "am_blocked_nets a = cs_nets bl" "am_blocked_ids a = cs_ids bl"
    using assms by (auto simp: newAccessCtx_def split: sum.splits)
  note sal = processAccessClients_spec [OF al] and sbl = processAccessClients_spec [OF bl]
  show "listed_ip (am_allowed_ips a) (am_allowed_nets a) ip \<longleftrightarrow> names_ip allowed ip"
    using sal(1) by (simp add: a empty_sets_def)
  show "listed_ip (am_blocked_ips a) (am_blocked_nets a) ip \<longleftrightarrow> names_ip blocked ip"
    using sbl(1) by (simp add: a empty_sets_def)
  show "c \<in> am_allowed_ids a \<longleftrightarrow> names_id allowed c" using sal(2) by (simp add: a empty_sets_def)
  show "c \<in> am_blocked_ids a \<longleftrightarrow> names_id blocked c" using sbl(2) by (simp add: a empty_sets_def)
  show "allowlistMode a \<longleftrightarrow> allowed \<noteq> []" using sal(3) by (auto simp: a allowlistMode_def empty_sets_def)
qed

lemma fst_find_case: "fst (case find P ns of None \<Rightarrow> (\<not> b, x) | Some n \<Rightarrow> (b, f n)) \<longleftrightarrow> ((\<exists>n \<in> set ns. P n) \<longleftrightarrow> b)"
  by (induction ns) auto

lemma isBlockedIP_listed:
  "fst (isBlockedIP ip a) \<longleftrightarrow>
     (if allowlistMode a then \<not> listed_ip (am_allowed_ips a) (am_allowed_nets a) ip
      else listed_ip (am_blocked_ips a) (am_blocked_nets a) ip)"
  by (auto simp: isBlockedIP_def Let_def fst_find_case)

lemma IsBlockedClient_decision:
  assumes "newAccessCtx vl mk allowed blocked hosts = Inr a"
  shows "fst (IsBlockedClient ip i a) \<longleftrightarrow>
    (if allowed \<noteq> [] then ip \<noteq> ZeroAddr \<and> \<not> names_ip allowed ip \<and> (i = [] \<or> \<not> names_id allowed i)
     else ip \<noteq> ZeroAddr \<and> names_ip blocked ip \<or> i \<noteq> [] \<and> names_id blocked i)"
  using newAccessCtx_spec [OF assms] isBlockedIP_listed [of ip a]
  by (cases "isBlockedIP ip a") (auto simp: IsBlockedClient_def isBlockedClientID_def Let_def)

text \<open>C11: With an allowlist a client with a known address is blocked exactly when neither its address is
  named by the list, itself or through a subnet, nor its ClientID; otherwise it is blocked exactly when one
  of them is named by the blocklist.  A request whose address is unknown is never blocked by an allowlist.\<close>

theorem access_decision:
  assumes "newAccessCtx vl mk allowed blocked hosts = Inr a"
  shows "fst (IsBlockedClient ip i a) \<longleftrightarrow>
    (if allowed \<noteq> [] then ip \<noteq> ZeroAddr \<and> \<not> names_ip allowed ip \<and> (i = [] \<or> \<not> names_id allowed i)
     else ip \<noteq> ZeroAddr \<and> names_ip blocked ip \<or> i \<noteq> [] \<and> names_id blocked i)"
  by (rule IsBlockedClient_decision [OF assms])

section \<open>Client identifiers are in lower case\<close>

lemma clientIDFromDNSContext_lower:
  assumes "clientIDFromDNSContext env tc cx = Inr i"
  shows "to_lower i = i"
proof -
  have sni: "clientIDFromClientServerName is vl h c st = Inr j \<Longrightarrow> to_lower j = j" for "is" vl h c st j
    by (auto simp: clientIDFromClientServerName_def Let_def split: if_splits sum.splits)
  have https: "clientIDFromDNSContextHTTPS vl r = Inr j \<Longrightarrow> to_lower j = j" for vl r j
    by (auto simp: clientIDFromDNSContextHTTPS_def Let_def split: option.splits if_splits sum.splits)
  show ?thesis
    using assms by (auto simp: clientIDFromDNSContext_def Let_def dest: sni https split: if_splits sum.splits)
qed

definition usable_entry :: "string \<Rightarrow> bool" where
  "usable_entry s \<longleftrightarrow> to_lower s = s \<or> parse_addr s \<noteq> None \<or> parse_prefix s \<noteq> None"

text \<open>The ClientID of a request is in lower case, but the entries of the lists are kept as given: a
  blocklist entry that is a ClientID with an upper-case letter has no effect on any request.\<close>

theorem uppercase_clientid_ignored:
  assumes "clientIDFromDNSContext env tc cx = Inr i"
    and "newAccessCtx vl mk [] blocked hosts = Inr a"
    and "newAccessCtx vl mk [] (filter usable_entry blocked) hosts = Inr a'"
  shows "fst (IsBlockedClient ip i a) = fst (IsBlockedClient ip i a')"
proof -
  have "names_ip (filter usable_entry blocked) ip = names_ip blocked ip"
    by (auto simp: names_ip_def usable_entry_def)
  moreover have "names_id (filter usable_entry blocked) i = names_id blocked i"
    using clientIDFromDNSContext_lower [OF assms(1)] by (auto simp: names_id_def usable_entry_def)
  ultimately show ?thesis
    by (simp add: IsBlockedClient_decision [OF assms(2)] IsBlockedClient_decision [OF assms(3)])
qed

text \<open>For a DNS-over-TLS or DNS-over-QUIC request the ClientID is the label that the client's server
  name puts before the server's own name, in lower case; the server's own name gives no ClientID, and any
  other name is an error exactly under the strict check.  The relation of immediate subdomains is assumed
  to be the documented one.\<close>

theorem clientid_from_server_name:
  assumes "\<forall>d t. ie_imm_sub env d t \<longleftrightarrow> (\<exists>l. l \<noteq> [] \<and> CHR ''.'' \<notin> set l \<and> d = l @ ''.'' @ t)"
    and "cx_proto cx \<in> {ProtoTLS, ProtoQUIC}" "clientServerName split cx = Inr name"
    and "ie_split_host env = split" "tc_server_name tc = host" "host \<noteq> []"
  shows "clientIDFromDNSContext env tc cx =
    (if name = host then Inr []
     else if \<exists>l. l \<noteq> [] \<and> CHR ''.'' \<notin> set l \<and> name = l @ ''.'' @ host then
       (let l = take (length name - length host - 1) name in
        if ie_label env l then Inr (to_lower l) else Inl (InvalidID (InvalidClientID l)))
     else if tc_strict_sni tc then Inl (ServerNameMismatch name host) else Inr [])"
  using assms
  by (auto simp: clientIDFromDNSContext_def clientIDFromClientServerName_def ValidateClientID_def Let_def)

section \<open>Setting the lists\<close>

lemma uc_add_distinct: "uc_validate (uc_add xs []) = Inr () \<longleftrightarrow> distinct xs"
proof -
  have "distinct xs \<longleftrightarrow> (\<forall>x. count_list xs x \<le> 1)"
    by (induction xs) (auto simp: count_list_0_iff le_Suc_eq)
  then show ?thesis by (simp add: uc_validate_ok_iff uc_wf_add uc_count_add) (simp add: uc_count_def)
qed

lemma uc_merge_distinct: "uc_validate (uc_merge (uc_add xs []) (uc_add ys [])) = Inr () \<longleftrightarrow> distinct (xs @ ys)"
proof -
  have "uc_count (uc_merge (uc_add xs []) (uc_add ys [])) e = uc_count (uc_add (xs @ ys) []) e" for e
    by (simp add: uc_count_merge uc_wf_add uc_count_add) (simp add: uc_count_def)
  then show ?thesis
    using uc_add_distinct [of "xs @ ys"] by (simp add: uc_validate_ok_iff uc_wf_add uc_wf_merge)
qed

lemma validateAccessSet_ok:
  "validateAccessSet l = Inr () \<longleftrightarrow> distinct (al_allowed l @ al_disallowed l) \<and> distinct (al_hosts l)"
  using uc_add_distinct [of "al_allowed l"] uc_add_distinct [of "al_disallowed l"]
    uc_add_distinct [of "al_hosts l"] uc_merge_distinct [of "al_allowed l" "al_disallowed l"]
  by (auto simp: validateAccessSet_def validateStrUniq_def Let_def split: sum.splits)

text \<open>New access lists are accepted exactly when no entry occurs twice, neither in one list nor in both
  lists of clients, every entry for a client is an address, a subnet or a valid ClientID, and the hosts form
  a rule list; then exactly these lists are in force and shown.\<close>

theorem access_set_spec:
  "handleAccessSet vl mk (Inr l) s = Inr s' \<longleftrightarrow>
     distinct (al_allowed l @ al_disallowed l) \<and> distinct (al_hosts l) \<and>
     newAccessCtx vl mk (al_allowed l) (al_disallowed l) (al_hosts l) = Inr (as_access s') \<and>
     accessListJSON s' = l"
  using validateAccessSet_ok [of l]
  by (cases "validateAccessSet l") (auto simp: handleAccessSet_def accessListJSON_def split: sum.splits)

section \<open>Instances\<close>

definition free_engine :: "string \<Rightarrow> (string, host_engine) result" where
  "free_engine text = Inr (\<lambda>_ _. False)"

lemma sample_parse: "parse_addr ''lap'' = None" "parse_prefix ''lap'' = None" "parse_addr ''Lap'' = None"
  "parse_prefix ''Lap'' = None"
  by code_simp+

theorem access_decision_witness:
  "\<exists>a. newAccessCtx (\<lambda>_. True) free_engine [''lap''] [] [] = Inr a \<and>
     fst (IsBlockedClient (Addr4 1) [] a) \<and> \<not> fst (IsBlockedClient (Addr4 1) ''lap'' a)"
proof -
  obtain a where a: "newAccessCtx (\<lambda>_. True) free_engine [''lap''] [] [] = Inr a"
    by (simp add: newAccessCtx_def free_engine_def sample_parse ValidateClientID_def)
  show ?thesis
    using a access_decision [OF a, of "Addr4 1" "[]"] access_decision [OF a, of "Addr4 1" "''lap''"]
    by (simp add: names_ip_def names_id_def sample_parse)
qed

definition sample_env :: id_env where
  "sample_env = \<lparr>ie_label = (\<lambda>_. True),
     ie_imm_sub = (\<lambda>d t. \<exists>l. l \<noteq> [] \<and> CHR ''.'' \<notin> set l \<and> d = l @ ''.'' @ t), ie_split_host = (\<lambda>_. None)\<rparr>"

definition sample_conn :: "string \<Rightarrow> conn_info" where
  "sample_conn name = \<lparr>cx_proto = ProtoTLS, cx_http = None, cx_quic = None, cx_tls = Some name\<rparr>"

definition sample_tls :: tls_conf where
  "sample_tls = \<lparr>tc_server_name = ''dns.lan'', tc_strict_sni = True\<rparr>"

lemma clientid_sample: "clientIDFromDNSContext sample_env sample_tls (sample_conn ''Lap.dns.lan'') = Inr ''lap''"
proof -
  have "\<exists>l. l \<noteq> [] \<and> CHR ''.'' \<notin> set l \<and> ''Lap.dns.lan'' = l @ ''.dns.lan''"
    by (rule exI [of _ "''Lap''"]) simp
  moreover have "to_lower ''Lap'' = ''lap''" by code_simp
  ultimately show ?thesis
    by (simp add: clientIDFromDNSContext_def clientIDFromClientServerName_def sample_env_def sample_conn_def
        sample_tls_def clientServerName_def ValidateClientID_def Let_def)
qed

theorem clientid_server_name_witness:
  "clientIDFromDNSContext sample_env sample_tls (sample_conn ''Lap.dns.lan'') = Inr ''lap''"
proof -
  have "\<exists>l. l \<noteq> [] \<and> CHR ''.'' \<notin> set l \<and> ''Lap.dns.lan'' = l @ ''.'' @ ''dns.lan''"
    by (rule exI [of _ "''Lap''"]) simp
  moreover have "to_lower ''Lap'' = ''lap''" by code_simp
  ultimately show ?thesis
    using clientid_from_server_name [of sample_env "sample_conn ''Lap.dns.lan''" "\<lambda>_. None" "''Lap.dns.lan''"
        sample_tls "''dns.lan''"]
    by (simp add: sample_env_def sample_conn_def sample_tls_def clientServerName_def Let_def)
qed

theorem uppercase_clientid_witness:
  "\<exists>a. newAccessCtx (\<lambda>_. True) free_engine [] [''Lap''] [] = Inr a \<and>
     \<not> fst (IsBlockedClient (Addr4 1) ''lap'' a)"
proof -
  obtain a where a: "newAccessCtx (\<lambda>_. True) free_engine [] [''Lap''] [] = Inr a"
    by (simp add: newAccessCtx_def free_engine_def sample_parse ValidateClientID_def)
  have "to_lower ''Lap'' = ''lap''" by code_simp
  then have empty: "filter usable_entry [''Lap''] = []" by (simp add: usable_entry_def sample_parse)
  obtain a' where a': "newAccessCtx (\<lambda>_. True) free_engine [] (filter usable_entry [''Lap'']) [] = Inr a'"
    unfolding empty by (simp add: newAccessCtx_def free_engine_def)
  have "clientIDFromDNSContext sample_env sample_tls (sample_conn ''Lap.dns.lan'') = Inr ''lap''"
    using clientid_sample .
  from uppercase_clientid_ignored [OF this a a', of "Addr4 1"] IsBlockedClient_decision [OF a', of "Addr4 1" "''lap''"] a
  show ?thesis by (simp only: empty) (simp add: names_ip_def names_id_def)
qed

theorem access_set_witness:
  "\<exists>s. handleAccessSet (\<lambda>_. True) free_engine (Inr \<lparr>al_allowed = [''lap''], al_disallowed = [], al_hosts = []\<rparr>) s = Inr s \<and>
     fst (IsBlockedClient (Addr4 1) [] (as_access s))"
proof -
  let ?l = "\<lparr>al_allowed = [''lap''], al_disallowed = [], al_hosts = []\<rparr>"
  obtain a where a: "newAccessCtx (\<lambda>_. True) free_engine [''lap''] [] [] = Inr a"
    by (simp add: newAccessCtx_def free_engine_def sample_parse ValidateClientID_def)
  then have "fst (IsBlockedClient (Addr4 1) [] a)"
    using IsBlockedClient_decision [OF a, of "Addr4 1" "[]"] by (simp add: names_ip_def names_id_def sample_parse)
  moreover have "handleAccessSet (\<lambda>_. True) free_engine (Inr ?l) \<lparr>as_lists = ?l, as_access = a\<rparr> =
      Inr \<lparr>as_lists = ?l, as_access = a\<rparr>"
    using a by (subst access_set_spec) (simp add: accessListJSON_def)
  ultimately show ?thesis by (intro exI [of _ "\<lparr>as_lists = ?l, as_access = a\<rparr>"]) simp
qed

end
