(* ===== verification/DnsMsg.thy ===== *)
theory DnsMsg
  imports Filtering Access
begin

text \<open>
  Messages of package \<^verbatim>\<open>internal/dnsforward\<close>: the responses that the server makes itself
  (\<^verbatim>\<open>msg.go\<close>), the answers of rewrite rules (\<^verbatim>\<open>dnsrewrite.go\<close>) and service-binding records
  (\<^verbatim>\<open>svcbmsg.go\<close>).

  A message of module \<^verbatim>\<open>miekg/dns\<close> is the record of its fields that the program reads or sets, a
  resource record a datatype of the kinds it knows.  An address inside a record, a byte slice of the
  standard library, is represented by the address whose bytes it holds, without a zone.  The constructor of a
  reply and the function that makes a name fully qualified are arguments, fields of \<open>msg_env\<close>.

  The request handler of the proxy module rejects messages without a question before the server sees
  them; the first question of such a message is left as an empty one here.
\<close>

section \<open>Messages\<close>

record rr_hdr =
  rh_name :: string
  rh_type :: qtype
  rh_ttl :: "32 word"
  rh_class :: nat

datatype svcb_key = SVCB_MANDATORY | SVCB_ALPN | SVCB_NO_DEFAULT_ALPN | SVCB_PORT | SVCB_IPV4HINT
  | SVCB_ECHCONFIG | SVCB_IPV6HINT

datatype svcb_kv =
    KVAlpn "string list" | KVECH "nat list" | KVIPv4Hint "addr list" | KVIPv6Hint "addr list"
  | KVMandatory "svcb_key list" | KVNoDefaultAlpn | KVPort nat | KVDoHPath string | KVOther nat string

record soa_data =
  soa_ns :: string
  soa_mbox :: string
  soa_serial :: nat
  soa_refresh :: nat
  soa_retry :: nat
  soa_expire :: nat
  soa_minttl :: nat

text \<open>The constructor \<open>RRNil\<close> is a nil interface value.\<close>

datatype rr =
    RRA rr_hdr addr | RRAAAA rr_hdr addr | RRCNAME rr_hdr string | RRMX rr_hdr nat string
  | RRPTR rr_hdr string | RRSRV rr_hdr nat nat nat string | RRTXT rr_hdr "string list"
  | RRSVCB rr_hdr nat string "svcb_kv list" | RRHTTPS rr_hdr nat string "svcb_kv list"
  | RRSOA rr_hdr soa_data | RROther rr_hdr | RRNil

record dns_question =
  dq_name :: string
  dq_type :: qtype
  dq_class :: nat

record dns_msg =
  dm_id :: nat
  dm_response :: bool
  dm_rcode :: rcode
  dm_rd :: bool
  dm_ra :: bool
  dm_ad :: bool
  dm_compress :: bool
  dm_question :: "dns_question list"
  dm_answer :: "rr list"
  dm_ns :: "rr list"
  dm_edns :: "(nat \<times> bool) option"

record msg_env =
  me_SetRcode :: "dns_msg \<Rightarrow> rcode \<Rightarrow> dns_msg"
  me_SetQuestion :: "string \<Rightarrow> qtype \<Rightarrow> dns_msg"
  me_Fqdn :: "string \<Rightarrow> string"

text \<open>What the documentation of \<^verbatim>\<open>SetRcode\<close> and \<^verbatim>\<open>Fqdn\<close> promises.\<close>

definition msg_env_ok :: "msg_env \<Rightarrow> bool" where
  "msg_env_ok env \<longleftrightarrow>
     (\<forall>req c. dm_rcode (me_SetRcode env req c) = c \<and> dm_response (me_SetRcode env req c) \<and>
        dm_id (me_SetRcode env req c) = dm_id req \<and>
        dm_question (me_SetRcode env req c) = take 1 (dm_question req) \<and>
        dm_answer (me_SetRcode env req c) = [] \<and> dm_ns (me_SetRcode env req c) = [] \<and>
        \<not> dm_ad (me_SetRcode env req c)) \<and>
     (\<forall>s. me_Fqdn env (me_Fqdn env s) = me_Fqdn env s)"

definition zero_question :: dns_question where
  "zero_question = \<lparr>dq_name = [], dq_type = 0, dq_class = 0\<rparr>"

definition first_question :: "dns_msg \<Rightarrow> dns_question" where
  "first_question m = (case dm_question m of q # _ \<Rightarrow> q | [] \<Rightarrow> zero_question)"

definition set_question :: "dns_question \<Rightarrow> dns_msg \<Rightarrow> dns_msg" where
  "set_question q m = (case dm_question m of _ # qs \<Rightarrow> m\<lparr>dm_question := q # qs\<rparr> | [] \<Rightarrow> m)"

definition set_qname :: "string \<Rightarrow> dns_msg \<Rightarrow> dns_msg" where
  "set_qname n m = set_question ((first_question m)\<lparr>dq_name := n\<rparr>) m"

definition ClassINET :: nat where "ClassINET = 1"
definition TypeANY :: qtype where "TypeANY = 255"

fun rr_header :: "rr \<Rightarrow> rr_hdr option" where
  "rr_header (RRA h _) = Some h"
| "rr_header (RRAAAA h _) = Some h"
| "rr_header (RRCNAME h _) = Some h"
| "rr_header (RRMX h _ _) = Some h"
| "rr_header (RRPTR h _) = Some h"
| "rr_header (RRSRV h _ _ _ _) = Some h"
| "rr_header (RRTXT h _) = Some h"
| "rr_header (RRSVCB h _ _ _) = Some h"
| "rr_header (RRHTTPS h _ _ _) = Some h"
| "rr_header (RRSOA h _) = Some h"
| "rr_header (RROther h) = Some h"
| "rr_header RRNil = None"

fun rr_map_header :: "(rr_hdr \<Rightarrow> rr_hdr) \<Rightarrow> rr \<Rightarrow> rr" where
  "rr_map_header f (RRA h a) = RRA (f h) a"
| "rr_map_header f (RRAAAA h a) = RRAAAA (f h) a"
| "rr_map_header f (RRCNAME h t) = RRCNAME (f h) t"
| "rr_map_header f (RRMX h p m) = RRMX (f h) p m"
| "rr_map_header f (RRPTR h p) = RRPTR (f h) p"
| "rr_map_header f (RRSRV h p w q t) = RRSRV (f h) p w q t"
| "rr_map_header f (RRTXT h ts) = RRTXT (f h) ts"
| "rr_map_header f (RRSVCB h p t vs) = RRSVCB (f h) p t vs"
| "rr_map_header f (RRHTTPS h p t vs) = RRHTTPS (f h) p t vs"
| "rr_map_header f (RRSOA h d) = RRSOA (f h) d"
| "rr_map_header f (RROther h) = RROther (f h)"
| "rr_map_header f RRNil = RRNil"

section \<open>Replies\<close>

definition reply :: "msg_env \<Rightarrow> dns_msg \<Rightarrow> rcode \<Rightarrow> dns_msg" where
  "reply env req code = (me_SetRcode env req code)\<lparr>dm_ra := True\<rparr>"

definition replyCompressed :: "msg_env \<Rightarrow> dns_msg \<Rightarrow> dns_msg" where
  "replyCompressed env req = (reply env req RcodeSuccess)\<lparr>dm_compress := True\<rparr>"

definition genSOA :: "dns_filter \<Rightarrow> dns_msg \<Rightarrow> rr list" where
  "genSOA d req =
     (let zone = (case dm_question req of q # _ \<Rightarrow> dq_name q | [] \<Rightarrow> []);
          ttl = BlockedResponseTTL d
      in [RRSOA \<lparr>rh_name = zone, rh_type = TypeSOA, rh_ttl = (if ttl = 0 then 3600 else ttl),
                 rh_class = ClassINET\<rparr>
            \<lparr>soa_ns = ''fake-for-negative-caching.adguard.com.'',
             soa_mbox = (if zone \<noteq> ''.'' then ''hostmaster.'' @ zone else ''hostmaster.''),
             soa_serial = 100500, soa_refresh = 1800, soa_retry = 900, soa_expire = 604800,
             soa_minttl = 86400\<rparr>])"

definition NewMsgNXDOMAIN :: "msg_env \<Rightarrow> dns_filter \<Rightarrow> dns_msg \<Rightarrow> dns_msg" where
  "NewMsgNXDOMAIN env d req = (reply env req RcodeNameError)\<lparr>dm_ns := genSOA d req\<rparr>"

definition NewMsgSERVFAIL :: "msg_env \<Rightarrow> dns_msg \<Rightarrow> dns_msg" where
  "NewMsgSERVFAIL env req = reply env req RcodeServerFailure"

definition NewMsgNOTIMPLEMENTED :: "msg_env \<Rightarrow> dns_msg \<Rightarrow> dns_msg" where
  "NewMsgNOTIMPLEMENTED env req = (reply env req RcodeNotImplemented)\<lparr>dm_edns := Some (1452, False)\<rparr>"

definition NewMsgNODATA :: "msg_env \<Rightarrow> dns_filter \<Rightarrow> dns_msg \<Rightarrow> dns_msg" where
  "NewMsgNODATA env d req = (reply env req RcodeSuccess)\<lparr>dm_ns := genSOA d req\<rparr>"

definition NewMsgRateLimited :: "msg_env \<Rightarrow> dns_msg \<Rightarrow> dns_msg" where
  "NewMsgRateLimited env req = reply env req RcodeRefused"

definition makeResponseREFUSED :: "msg_env \<Rightarrow> dns_msg \<Rightarrow> dns_msg" where
  "makeResponseREFUSED env req = reply env req RcodeRefused"

section \<open>Answers\<close>

definition hdr :: "dns_filter \<Rightarrow> dns_msg \<Rightarrow> qtype \<Rightarrow> rr_hdr" where
  "hdr d req rrType = \<lparr>rh_name = dq_name (first_question req), rh_type = rrType,
     rh_ttl = BlockedResponseTTL d, rh_class = ClassINET\<rparr>"

definition genAnswerA :: "dns_filter \<Rightarrow> dns_msg \<Rightarrow> addr \<Rightarrow> rr" where
  "genAnswerA d req ip = RRA (hdr d req TypeA) (with_zone [] ip)"

definition genAnswerAAAA :: "dns_filter \<Rightarrow> dns_msg \<Rightarrow> addr \<Rightarrow> rr" where
  "genAnswerAAAA d req ip = RRAAAA (hdr d req TypeAAAA) (with_zone [] ip)"

definition genAnswerCNAME :: "msg_env \<Rightarrow> dns_filter \<Rightarrow> dns_msg \<Rightarrow> string \<Rightarrow> rr" where
  "genAnswerCNAME env d req cname = RRCNAME (hdr d req TypeCNAME) (me_Fqdn env cname)"

definition genAnswerMX :: "msg_env \<Rightarrow> dns_filter \<Rightarrow> dns_msg \<Rightarrow> nat \<Rightarrow> string \<Rightarrow> rr" where
  "genAnswerMX env d req pref exchange = RRMX (hdr d req TypeMX) pref (me_Fqdn env exchange)"

definition genAnswerPTR :: "msg_env \<Rightarrow> dns_filter \<Rightarrow> dns_msg \<Rightarrow> string \<Rightarrow> rr" where
  "genAnswerPTR env d req ptr = RRPTR (hdr d req TypePTR) (me_Fqdn env ptr)"

definition genAnswerSRV :: "msg_env \<Rightarrow> dns_filter \<Rightarrow> dns_msg \<Rightarrow> nat \<Rightarrow> nat \<Rightarrow> nat \<Rightarrow> string \<Rightarrow> rr" where
  "genAnswerSRV env d req priority weight port target =
     RRSRV (hdr d req TypeSRV) priority weight port (me_Fqdn env target)"

definition genAnswerTXT :: "dns_filter \<Rightarrow> dns_msg \<Rightarrow> string list \<Rightarrow> rr" where
  "genAnswerTXT d req strs = RRTXT (hdr d req TypeTXT) strs"

text \<open>An address of another family discards the answers.\<close>

definition genAnswersWithIPv4s :: "dns_filter \<Rightarrow> dns_msg \<Rightarrow> addr list \<Rightarrow> rr list" where
  "genAnswersWithIPv4s d req ips =
     (if \<exists>ip \<in> set ips. \<not> is4 ip then [] else map (genAnswerA d req) ips)"

definition answers_for :: "dns_filter \<Rightarrow> dns_msg \<Rightarrow> addr list \<Rightarrow> rr list" where
  "answers_for d req ips =
     (if dq_type (first_question req) = TypeA then genAnswersWithIPv4s d req ips
      else if dq_type (first_question req) = TypeAAAA then map (genAnswerAAAA d req) (filter is6 ips)
      else [])"

definition genResponseWithIPs :: "msg_env \<Rightarrow> dns_filter \<Rightarrow> dns_msg \<Rightarrow> addr list \<Rightarrow> dns_msg" where
  "genResponseWithIPs env d req ips = (replyCompressed env req)\<lparr>dm_answer := answers_for d req ips\<rparr>"

text \<open>The name of the question is replaced while the answers are made and restored at the end.\<close>

definition getCNAMEWithIPs :: "msg_env \<Rightarrow> dns_filter \<Rightarrow> dns_msg \<Rightarrow> addr list \<Rightarrow> string \<Rightarrow> dns_msg" where
  "getCNAMEWithIPs env d req ips cname =
     (replyCompressed env req)\<lparr>dm_answer :=
        (if cname \<noteq> [] then genAnswerCNAME env d req cname # answers_for d (set_qname (me_Fqdn env cname) req) ips
         else answers_for d req ips)\<rparr>"

definition makeResponseNullIP :: "msg_env \<Rightarrow> dns_filter \<Rightarrow> dns_msg \<Rightarrow> dns_msg" where
  "makeResponseNullIP env d req =
     (if dq_type (first_question req) = TypeA then genResponseWithIPs env d req [Addr4 0]
      else if dq_type (first_question req) = TypeAAAA then genResponseWithIPs env d req [Addr6 0 []]
      else replyCompressed env req)"

definition genARecord :: "msg_env \<Rightarrow> dns_filter \<Rightarrow> dns_msg \<Rightarrow> addr \<Rightarrow> dns_msg" where
  "genARecord env d req ip =
     (let resp = replyCompressed env req in resp\<lparr>dm_answer := dm_answer resp @ [genAnswerA d req ip]\<rparr>)"

definition genAAAARecord :: "msg_env \<Rightarrow> dns_filter \<Rightarrow> dns_msg \<Rightarrow> addr \<Rightarrow> dns_msg" where
  "genAAAARecord env d req ip =
     (let resp = replyCompressed env req in resp\<lparr>dm_answer := dm_answer resp @ [genAnswerAAAA d req ip]\<rparr>)"

definition makeResponseCustomIP :: "msg_env \<Rightarrow> dns_filter \<Rightarrow> dns_msg \<Rightarrow> addr \<Rightarrow> addr \<Rightarrow> dns_msg" where
  "makeResponseCustomIP env d req bIPv4 bIPv6 =
     (if dq_type (first_question req) = TypeA then genARecord env d req bIPv4
      else if dq_type (first_question req) = TypeAAAA then genAAAARecord env d req bIPv6
      else replyCompressed env req)"

text \<open>The source's default branch is for modes other than the five constants.\<close>

definition genForBlockingMode :: "msg_env \<Rightarrow> dns_filter \<Rightarrow> dns_msg \<Rightarrow> addr list \<Rightarrow> dns_msg" where
  "genForBlockingMode env d req ips =
     (case get_BlockingMode d of (mode, bIPv4, bIPv6) \<Rightarrow>
        (case mode of
           BlockingModeCustomIP \<Rightarrow> makeResponseCustomIP env d req bIPv4 bIPv6
         | BlockingModeDefault \<Rightarrow>
             if ips \<noteq> [] then genResponseWithIPs env d req ips else makeResponseNullIP env d req
         | BlockingModeNullIP \<Rightarrow> makeResponseNullIP env d req
         | BlockingModeNXDOMAIN \<Rightarrow> NewMsgNXDOMAIN env d req
         | BlockingModeREFUSED \<Rightarrow> makeResponseREFUSED env req))"

definition ipsFromRules :: "result_rule list \<Rightarrow> addr list" where
  "ipsFromRules rs =
     fold (\<lambda>r ips. if rr_ip r \<noteq> ZeroAddr \<and> rr_ip r \<notin> set ips then ips @ [rr_ip r] else ips) rs []"

text \<open>
  A resolver stands for method \<^verbatim>\<open>Resolve\<close> of the proxy module on a context with the given custom
  configuration and request: an error, or the response, if any.  It is absent when the server is closed.
\<close>

type_synonym 'c resolver = "'c option \<Rightarrow> dns_msg \<Rightarrow> (string, dns_msg option) result"

definition genBlockedHost :: "msg_env \<Rightarrow> 'c resolver option \<Rightarrow> dns_filter \<Rightarrow> dns_msg \<Rightarrow> string \<Rightarrow> dns_msg" where
  "genBlockedHost env prx d req newAddr =
     (if newAddr = [] then NewMsgSERVFAIL env req
      else case parse_addr newAddr of
        Some ip \<Rightarrow> genResponseWithIPs env d req [ip]
      | None \<Rightarrow>
          (case prx of
             None \<Rightarrow> NewMsgSERVFAIL env req
           | Some resolve \<Rightarrow>
               (case resolve None ((me_SetQuestion env (me_Fqdn env newAddr) (dq_type (first_question req)))\<lparr>dm_rd := True\<rparr>) of
                  Inl _ \<Rightarrow> NewMsgSERVFAIL env req
                | Inr None \<Rightarrow> replyCompressed env req
                | Inr (Some res) \<Rightarrow>
                    (let resp = replyCompressed env req in
                     resp\<lparr>dm_answer := dm_answer resp @
                       map (rr_map_header (\<lambda>h. h\<lparr>rh_name := dq_name (first_question req)\<rparr>)) (dm_answer res)\<rparr>))))"

definition genDNSFilterMessage ::
  "msg_env \<Rightarrow> 'c resolver option \<Rightarrow> dns_filter \<Rightarrow> dns_msg \<Rightarrow> filter_result \<Rightarrow> dns_msg" where
  "genDNSFilterMessage env prx d req res =
     (let qt = dq_type (first_question req) in
      if qt \<noteq> TypeA \<and> qt \<noteq> TypeAAAA \<and> qt \<noteq> TypeHTTPS then
        (if fst (get_BlockingMode d) = BlockingModeNullIP then replyCompressed env req else NewMsgNODATA env d req)
      else case fr_reason res of
        FilteredSafeBrowsing \<Rightarrow> genBlockedHost env prx d req (SafeBrowsingBlockHost d)
      | FilteredParental \<Rightarrow> genBlockedHost env prx d req (ParentalBlockHost d)
      | FilteredSafeSearch \<Rightarrow> getCNAMEWithIPs env d req (ipsFromRules (fr_rules res)) (fr_canon_name res)
      | _ \<Rightarrow> genForBlockingMode env d req (ipsFromRules (fr_rules res)))"

end
