(* ===== verification/DnsAnswers.thy ===== *)
theory DnsAnswers
  imports DnsMsg
begin

text \<open>
  The answers made from \<^verbatim>\<open>$dnsrewrite\<close> rules and from the hosts file (\<^verbatim>\<open>dnsrewrite.go\<close>) with the
  service-binding records (\<^verbatim>\<open>svcbmsg.go\<close>) of package \<^verbatim>\<open>internal/dnsforward\<close>, with the
  functions of the standard library that parse their parameters: base64 decoding, addresses and ports.
  The theorems state that every response that the server makes itself answers the question that was asked.
\<close>

section \<open>Parameters of service bindings\<close>

definition base64_val :: "char \<Rightarrow> nat option" where
  "base64_val c =
     (let n = of_char c in
      if CHR ''A'' \<le> c \<and> c \<le> CHR ''Z'' then Some (n - 65)
      else if CHR ''a'' \<le> c \<and> c \<le> CHR ''z'' then Some (n - 71)
      else if CHR ''0'' \<le> c \<and> c \<le> CHR ''9'' then Some (n + 4)
      else if c = CHR ''+'' then Some 62
      else if c = CHR ''/'' then Some 63
      else None)"

fun base64_groups :: "string \<Rightarrow> nat list option" where
  "base64_groups [] = Some []"
| "base64_groups (a # b # c # d # rest) =
     (case (base64_val a, base64_val b) of
        (Some x, Some y) \<Rightarrow>
          if c = CHR ''='' then
            (if d = CHR ''='' \<and> rest = [] then Some [4 * x + y div 16] else None)
          else
            (case base64_val c of
               None \<Rightarrow> None
             | Some z \<Rightarrow>
                 if d = CHR ''='' then
                   (if rest = [] then Some [4 * x + y div 16, 16 * (y mod 16) + z div 4] else None)
                 else
                   (case base64_val d of
                      None \<Rightarrow> None
                    | Some w \<Rightarrow>
                        map_option (\<lambda>bs. [4 * x + y div 16, 16 * (y mod 16) + z div 4, 64 * (z mod 4) + w] @ bs)
                          (base64_groups rest)))
      | _ \<Rightarrow> None)"
| "base64_groups _ = None"

text \<open>Line breaks are skipped.\<close>

definition base64_decode :: "string \<Rightarrow> nat list option" where
  "base64_decode s = base64_groups (filter (\<lambda>c. c \<noteq> CHR 0x0A \<and> c \<noteq> CHR 0x0D) s)"

definition parse_port :: "string \<Rightarrow> nat option" where
  "parse_port s =
     (if s = [] then None
      else case all_some (map digit_val s) of
        None \<Rightarrow> None
      | Some ds \<Rightarrow> (let n = foldl (\<lambda>n d. 10 * n + d) 0 ds in if n \<le> 65535 then Some n else None))"

definition strToSVCBKey :: "string \<Rightarrow> svcb_key option" where
  "strToSVCBKey = map_of
     [(''alpn'', SVCB_ALPN), (''ech'', SVCB_ECHCONFIG), (''ipv4hint'', SVCB_IPV4HINT),
      (''ipv6hint'', SVCB_IPV6HINT), (''mandatory'', SVCB_MANDATORY),
      (''no-default-alpn'', SVCB_NO_DEFAULT_ALPN), (''port'', SVCB_PORT), (''echconfig'', SVCB_ECHCONFIG)]"

type_synonym svcb_handler = "string \<Rightarrow> svcb_kv option"

definition svcb_ech :: svcb_handler where
  "svcb_ech v = map_option KVECH (base64_decode v)"

definition svcbKeyHandlers :: "string \<Rightarrow> svcb_handler option" where
  "svcbKeyHandlers = map_of
     [(''alpn'', \<lambda>v. Some (KVAlpn [v])),
      (''ech'', svcb_ech),
      (''ipv4hint'', \<lambda>v. case net_ParseIP v of
          None \<Rightarrow> None | Some ip \<Rightarrow> if is4in6 ip then Some (KVIPv4Hint [ip]) else None),
      (''ipv6hint'', \<lambda>v. map_option (\<lambda>ip. KVIPv6Hint [ip]) (net_ParseIP v)),
      (''mandatory'', \<lambda>v. map_option (\<lambda>c. KVMandatory [c]) (strToSVCBKey v)),
      (''no-default-alpn'', \<lambda>v. Some KVNoDefaultAlpn),
      (''port'', \<lambda>v. map_option KVPort (parse_port v)),
      (''echconfig'', svcb_ech),
      (''dohpath'', \<lambda>v. Some (KVDoHPath v))]"

text \<open>The parameters are in the order in which the program iterates over the map.\<close>

definition svcb_values :: "(string \<times> string) list \<Rightarrow> svcb_kv list" where
  "svcb_values params =
     List.map_filter (\<lambda>(k, v). Option.bind (svcbKeyHandlers k) (\<lambda>h. h v)) params"

definition genAnswerSVCB ::
  "msg_env \<Rightarrow> dns_filter \<Rightarrow> dns_msg \<Rightarrow> nat \<Rightarrow> string \<Rightarrow> (string \<times> string) list \<Rightarrow> rr" where
  "genAnswerSVCB env d req priority target params =
     RRSVCB (hdr d req TypeSVCB) priority (me_Fqdn env target) (svcb_values params)"

definition genAnswerHTTPS ::
  "msg_env \<Rightarrow> dns_filter \<Rightarrow> dns_msg \<Rightarrow> nat \<Rightarrow> string \<Rightarrow> (string \<times> string) list \<Rightarrow> rr" where
  "genAnswerHTTPS env d req priority target params =
     (case genAnswerSVCB env d req priority target params of
        RRSVCB h p t vs \<Rightarrow> RRHTTPS (h\<lparr>rh_type := TypeHTTPS\<rparr>) p t vs
      | r \<Rightarrow> r)"

section \<open>Answers of rewrite rules\<close>

datatype rewrite_error = WrongValue qtype rr_value | NoContent | NoResponses

definition ansFromDNSRewriteIP ::
  "dns_filter \<Rightarrow> rr_value \<Rightarrow> qtype \<Rightarrow> dns_msg \<Rightarrow> (rewrite_error, rr) result" where
  "ansFromDNSRewriteIP d v rt req =
     (case v of
        RVAddr ip \<Rightarrow> Inr (if rt = TypeA then genAnswerA d req ip else genAnswerAAAA d req ip)
      | _ \<Rightarrow> Inl (WrongValue rt v))"

definition ansFromDNSRewriteText ::
  "msg_env \<Rightarrow> dns_filter \<Rightarrow> rr_value \<Rightarrow> qtype \<Rightarrow> dns_msg \<Rightarrow> (rewrite_error, rr) result" where
  "ansFromDNSRewriteText env d v rt req =
     (case v of
        RVString str \<Rightarrow> Inr (if rt = TypeTXT then genAnswerTXT d req [str] else genAnswerPTR env d req str)
      | _ \<Rightarrow> Inl (WrongValue rt v))"

definition ansFromDNSRewriteMX ::
  "msg_env \<Rightarrow> dns_filter \<Rightarrow> rr_value \<Rightarrow> qtype \<Rightarrow> dns_msg \<Rightarrow> (rewrite_error, rr) result" where
  "ansFromDNSRewriteMX env d v rt req =
     (case v of RVMX pref exchange \<Rightarrow> Inr (genAnswerMX env d req pref exchange) | _ \<Rightarrow> Inl (WrongValue rt v))"

definition ansFromDNSRewriteSVCB ::
  "msg_env \<Rightarrow> dns_filter \<Rightarrow> rr_value \<Rightarrow> qtype \<Rightarrow> dns_msg \<Rightarrow> (rewrite_error, rr) result" where
  "ansFromDNSRewriteSVCB env d v rt req =
     (case v of
        RVSVCB priority target params \<Rightarrow>
          Inr (if rt = TypeHTTPS then genAnswerHTTPS env d req priority target params
               else genAnswerSVCB env d req priority target params)
      | _ \<Rightarrow> Inl (WrongValue rt v))"

definition ansFromDNSRewriteSRV ::
  "msg_env \<Rightarrow> dns_filter \<Rightarrow> rr_value \<Rightarrow> qtype \<Rightarrow> dns_msg \<Rightarrow> (rewrite_error, rr) result" where
  "ansFromDNSRewriteSRV env d v rt req =
     (case v of
        RVSRV priority weight port target \<Rightarrow> Inr (genAnswerSRV env d req priority weight port target)
      | _ \<Rightarrow> Inl (WrongValue rt v))"

definition filterDNSRewriteResponse ::
  "msg_env \<Rightarrow> dns_filter \<Rightarrow> dns_msg \<Rightarrow> qtype \<Rightarrow> rr_value \<Rightarrow> (rewrite_error, rr) result" where
  "filterDNSRewriteResponse env d req rt v =
     (if rt = TypeA \<or> rt = TypeAAAA then ansFromDNSRewriteIP d v rt req
      else if rt = TypePTR \<or> rt = TypeTXT then ansFromDNSRewriteText env d v rt req
      else if rt = TypeMX then ansFromDNSRewriteMX env d v rt req
      else if rt = TypeHTTPS \<or> rt = TypeSVCB then ansFromDNSRewriteSVCB env d v rt req
      else if rt = TypeSRV then ansFromDNSRewriteSRV env d v rt req
      else Inr RRNil)"

fun rewrite_answers ::
  "msg_env \<Rightarrow> dns_filter \<Rightarrow> dns_msg \<Rightarrow> qtype \<Rightarrow> rr_value list \<Rightarrow> (rewrite_error, rr list) result" where
  "rewrite_answers env d req rt [] = Inr []"
| "rewrite_answers env d req rt (v # vs) =
     bind_result (filterDNSRewriteResponse env d req rt v)
       (\<lambda>a. bind_result (rewrite_answers env d req rt vs) (\<lambda>as. Inr (a # as)))"

definition filterDNSRewrite ::
  "msg_env \<Rightarrow> dns_filter \<Rightarrow> dns_msg \<Rightarrow> filter_result \<Rightarrow> (rewrite_error, dns_msg) result" where
  "filterDNSRewrite env d req res =
     (case fr_dnsrewrite res of
        None \<Rightarrow> Inl NoContent
      | Some dnsrr \<Rightarrow>
          (let resp = (replyCompressed env req)\<lparr>dm_rcode := drr_rcode dnsrr\<rparr> in
           if drr_rcode dnsrr \<noteq> RcodeSuccess then Inr resp
           else case drr_response dnsrr of
             None \<Rightarrow> Inl NoResponses
           | Some m \<Rightarrow>
               (let qt = dq_type (first_question req);
                    values = (case map_of m qt of None \<Rightarrow> [] | Some vs \<Rightarrow> vs)
                in bind_result (rewrite_answers env d req qt values)
                     (\<lambda>as. Inr (resp\<lparr>dm_answer := dm_answer resp @ as\<rparr>)))))"

section \<open>Responses answer the question\<close>

text \<open>
  A response to a request: it carries the question, the response flag, and only answers of the asked type
  about the asked name, possibly behind one alias of the asked name, whose target they are then about.
\<close>

definition about :: "string \<Rightarrow> qtype \<Rightarrow> rr \<Rightarrow> bool" where
  "about n t r \<longleftrightarrow> (case rr_header r of None \<Rightarrow> False | Some h \<Rightarrow> rh_name h = n \<and> rh_type h = t)"

definition answers_to :: "dns_question \<Rightarrow> rr list \<Rightarrow> bool" where
  "answers_to q as \<longleftrightarrow>
     (\<forall>r \<in> set as. about (dq_name q) (dq_type q) r) \<or>
     (\<exists>h t rs. as = RRCNAME h t # rs \<and> rh_name h = dq_name q \<and> rh_type h = TypeCNAME \<and>
        (\<forall>r \<in> set rs. about t (dq_type q) r))"

definition responds :: "dns_msg \<Rightarrow> dns_msg \<Rightarrow> bool" where
  "responds req resp \<longleftrightarrow> dm_response resp \<and> dm_id resp = dm_id req \<and> dm_question resp = take 1 (dm_question req) \<and>
     answers_to (first_question req) (dm_answer resp)"

lemma reply_fields:
  assumes "msg_env_ok env"
  shows "dm_response (reply env req c)" "dm_question (reply env req c) = take 1 (dm_question req)"
    "dm_answer (reply env req c) = []" "dm_rcode (reply env req c) = c" "dm_id (reply env req c) = dm_id req"
    "dm_ns (reply env req c) = []"
  using assms by (simp_all add: reply_def msg_env_ok_def)

lemma answers_to_Nil [simp]: "answers_to q []"
  by (simp add: answers_to_def)

lemma about_gen [simp]:
  "about n t (genAnswerA d req ip) \<longleftrightarrow> n = dq_name (first_question req) \<and> t = TypeA"
  "about n t (genAnswerAAAA d req ip) \<longleftrightarrow> n = dq_name (first_question req) \<and> t = TypeAAAA"
  by (auto simp: about_def genAnswerA_def genAnswerAAAA_def hdr_def)

lemma answers_for_about:
  "r \<in> set (answers_for d req ips) \<Longrightarrow> about (dq_name (first_question req)) (dq_type (first_question req)) r"
  by (auto simp: answers_for_def genAnswersWithIPv4s_def split: if_splits)

lemma responds_reply:
  "msg_env_ok env \<Longrightarrow> responds req (reply env req c)" "msg_env_ok env \<Longrightarrow> responds req (replyCompressed env req)"
  "msg_env_ok env \<Longrightarrow> responds req (NewMsgNODATA env d req)" "msg_env_ok env \<Longrightarrow> responds req (NewMsgNXDOMAIN env d req)"
  "msg_env_ok env \<Longrightarrow> responds req (NewMsgSERVFAIL env req)" "msg_env_ok env \<Longrightarrow> responds req (makeResponseREFUSED env req)"
  by (simp_all add: responds_def replyCompressed_def NewMsgNODATA_def NewMsgNXDOMAIN_def NewMsgSERVFAIL_def
      makeResponseREFUSED_def reply_fields)

lemma responds_IPs: "msg_env_ok env \<Longrightarrow> responds req (genResponseWithIPs env d req ips)"
  by (simp add: responds_def genResponseWithIPs_def replyCompressed_def reply_fields answers_to_def answers_for_about)

lemma responds_NullIP: "msg_env_ok env \<Longrightarrow> responds req (makeResponseNullIP env d req)"
  by (simp add: makeResponseNullIP_def responds_IPs responds_reply)

lemma responds_CustomIP: "msg_env_ok env \<Longrightarrow> responds req (makeResponseCustomIP env d req a b)"
  by (simp add: makeResponseCustomIP_def genARecord_def genAAAARecord_def responds_reply)
    (simp add: responds_def replyCompressed_def reply_fields answers_to_def)

lemma responds_blocking_mode: "msg_env_ok env \<Longrightarrow> responds req (genForBlockingMode env d req ips)"
  by (simp add: genForBlockingMode_def responds_IPs responds_NullIP responds_CustomIP responds_reply
      split: blocking_mode.split prod.split)

lemma first_question_set_qname:
  "dm_question req \<noteq> [] \<Longrightarrow> first_question (set_qname n req) = (first_question req)\<lparr>dq_name := n\<rparr>"
  by (simp add: set_qname_def set_question_def first_question_def split: list.split)

lemma responds_CNAME:
  assumes "msg_env_ok env" "dm_question req \<noteq> []"
  shows "responds req (getCNAMEWithIPs env d req ips cname)"
proof -
  have "about (me_Fqdn env cname) (dq_type (first_question req)) r"
    if "r \<in> set (answers_for d (set_qname (me_Fqdn env cname) req) ips)" for r
    using answers_for_about [OF that] by (simp add: first_question_set_qname [OF assms(2)])
  then show ?thesis
    using assms(1)
    by (auto simp: responds_def getCNAMEWithIPs_def replyCompressed_def reply_fields answers_to_def
        genAnswerCNAME_def hdr_def answers_for_about)
qed

lemma rewrite_response_about:
  assumes "filterDNSRewriteResponse env d req rt v = Inr r" "r \<noteq> RRNil"
  shows "about (dq_name (first_question req)) rt r"
  using assms
  by (auto simp: filterDNSRewriteResponse_def ansFromDNSRewriteIP_def ansFromDNSRewriteText_def
      ansFromDNSRewriteMX_def ansFromDNSRewriteSVCB_def ansFromDNSRewriteSRV_def genAnswerMX_def genAnswerTXT_def
      genAnswerPTR_def genAnswerSRV_def genAnswerHTTPS_def genAnswerSVCB_def hdr_def about_def genAnswerA_def
      genAnswerAAAA_def split: if_splits rr_value.splits)

definition known_types :: "qtype set" where
  "known_types = {TypeA, TypeAAAA, TypePTR, TypeTXT, TypeMX, TypeHTTPS, TypeSVCB, TypeSRV}"

lemma rewrite_response_nil:
  "rt \<in> known_types \<Longrightarrow> filterDNSRewriteResponse env d req rt v \<noteq> Inr RRNil"
  by (auto simp: known_types_def filterDNSRewriteResponse_def ansFromDNSRewriteIP_def ansFromDNSRewriteText_def
      ansFromDNSRewriteMX_def ansFromDNSRewriteSVCB_def ansFromDNSRewriteSRV_def genAnswerMX_def genAnswerTXT_def
      genAnswerPTR_def genAnswerSRV_def genAnswerHTTPS_def genAnswerSVCB_def genAnswerA_def
      genAnswerAAAA_def split: if_splits rr_value.splits)

lemma rewrite_answers_about:
  assumes "rewrite_answers env d req rt vs = Inr as" "rt \<in> known_types"
  shows "length as = length vs \<and> (\<forall>r \<in> set as. about (dq_name (first_question req)) rt r)"
  using assms
proof (induction vs arbitrary: as)
  case (Cons v vs)
  then obtain a as' where a: "filterDNSRewriteResponse env d req rt v = Inr a"
    "rewrite_answers env d req rt vs = Inr as'" "as = a # as'"
    by (auto simp: bind_result_Inr_iff)
  moreover have "a \<noteq> RRNil" using rewrite_response_nil [OF Cons.prems(2)] a(1) by metis
  ultimately show ?case using Cons.IH [OF a(2) Cons.prems(2)] rewrite_response_about by auto
qed simp

lemma responds_rewrite:
  assumes "msg_env_ok env" "filterDNSRewrite env d req res = Inr resp"
    and "dq_type (first_question req) \<in> known_types \<or>
      (\<forall>dr m. fr_dnsrewrite res = Some dr \<and> drr_response dr = Some m \<longrightarrow>
         map_of m (dq_type (first_question req)) \<in> {None, Some []})"
  shows "responds req resp"
proof -
  obtain dr where dr: "fr_dnsrewrite res = Some dr"
    using assms(2) by (auto simp: filterDNSRewrite_def split: option.splits)
  show ?thesis
  proof (cases "drr_rcode dr = RcodeSuccess")
    case False
    with assms dr show ?thesis
      by (auto simp: filterDNSRewrite_def responds_def replyCompressed_def reply_fields)
  next
    case True
    let ?qt = "dq_type (first_question req)"
    obtain m as where m: "drr_response dr = Some m"
      "rewrite_answers env d req ?qt (case map_of m ?qt of None \<Rightarrow> [] | Some vs \<Rightarrow> vs) = Inr as"
      "resp = (replyCompressed env req)\<lparr>dm_rcode := drr_rcode dr, dm_answer := as\<rparr>"
      using assms(1,2) dr True
      by (auto simp: filterDNSRewrite_def Let_def bind_result_Inr_iff replyCompressed_def reply_fields
          split: option.splits)
    have "\<forall>r \<in> set as. about (dq_name (first_question req)) ?qt r"
    proof (cases "?qt \<in> known_types")
      case True
      with rewrite_answers_about [OF m(2)] show ?thesis by blast
    next
      case False
      then have "map_of m ?qt \<in> {None, Some []}" using assms(3) dr m(1) by blast
      with m(2) show ?thesis by (auto simp: bind_result_Inr_iff)
    qed
    with assms(1) m(3) show ?thesis
      by (simp add: responds_def replyCompressed_def reply_fields answers_to_def)
  qed
qed

end
