(* ===== verification/ClientIndex.thy ===== *)
theory ClientIndex
  imports Clients AghAlg
begin

text \<open>
  The index of persistent clients, \<^verbatim>\<open>internal/client/index.go\<close>: one map per kind of identifier, the
  sorted map of subnets and the map of clients, with the operations that add, remove and find clients
  and detect clashes.

  The locale \<open>ident_store\<close> is the interface of a map of identifiers, whatever its representation; it is
  interpreted on the plain maps, on the maps that the program iterates over, on the map of hardware
  addresses, whose keys must have a known length, and on the sorted map of subnets.  The invariant of the
  index, that each map points exactly from the identifiers of the stored clients to these clients, is
  kept by means of the lemmas of the locale.
\<close>

section \<open>The index\<close>

text \<open>\<^verbatim>\<open>macToKey\<close> panics on hardware addresses of other lengths.\<close>

definition macToKey :: "mac \<Rightarrow> mac option" where
  "macToKey m = (if length m \<in> {6, 8, 20} then Some m else None)"

record client_index =
  ci_names :: "string \<rightharpoonup> uid"
  ci_client_ids :: "string \<rightharpoonup> uid"
  ci_ips :: "(addr, uid) gomap"
  ci_macs :: "mac \<rightharpoonup> uid"
  ci_clients :: "(uid, persistent) gomap"
  ci_subnets :: "(prefix, uid) sorted_map"

definition newIndex :: client_index where
  "newIndex = \<lparr>ci_names = Map.empty, ci_client_ids = Map.empty, ci_ips = [], ci_macs = Map.empty,
     ci_clients = [], ci_subnets = sm_new\<rparr>"

fun put_macs :: "mac list \<Rightarrow> uid \<Rightarrow> (mac \<rightharpoonup> uid) \<Rightarrow> (mac \<rightharpoonup> uid) option" where
  "put_macs [] u m = Some m"
| "put_macs (mac # macs) u m =
     (case macToKey mac of None \<Rightarrow> None | Some k \<Rightarrow> put_macs macs u (m(k \<mapsto> u)))"

fun del_macs :: "mac list \<Rightarrow> (mac \<rightharpoonup> uid) \<Rightarrow> (mac \<rightharpoonup> uid) option" where
  "del_macs [] m = Some m"
| "del_macs (mac # macs) m =
     (case macToKey mac of None \<Rightarrow> None | Some k \<Rightarrow> del_macs macs (m(k := None)))"

definition put_subnets :: "prefix list \<Rightarrow> uid \<Rightarrow> (prefix, uid) sorted_map \<Rightarrow> (prefix, uid) sorted_map" where
  "put_subnets ps u m = fold (\<lambda>p. sm_set subnetCompare p u) ps m"

fun del_subnets :: "prefix list \<Rightarrow> (prefix, uid) sorted_map \<Rightarrow> (prefix, uid) sorted_map option" where
  "del_subnets [] m = Some m"
| "del_subnets (p # ps) m =
     (case sm_del subnetCompare p m of None \<Rightarrow> None | Some m1 \<Rightarrow> del_subnets ps m1)"

text \<open>\<^term>\<open>None\<close> is a panic.\<close>

definition idx_add :: "persistent \<Rightarrow> client_index \<Rightarrow> client_index option" where
  "idx_add c ci =
     (if pc_uid c = 0 then None
      else case put_macs (pc_macs c) (pc_uid c) (ci_macs ci) of
        None \<Rightarrow> None
      | Some macs \<Rightarrow>
          Some \<lparr>ci_names = (ci_names ci)(pc_name c \<mapsto> pc_uid c),
                ci_client_ids = put_all (pc_client_ids c) (pc_uid c) (ci_client_ids ci),
                ci_ips = gm_put_all (pc_ips c) (pc_uid c) (ci_ips ci),
                ci_macs = macs,
                ci_clients = gm_put (pc_uid c) c (ci_clients ci),
                ci_subnets = put_subnets (pc_subnets c) (pc_uid c) (ci_subnets ci)\<rparr>)"

definition idx_remove :: "persistent \<Rightarrow> client_index \<Rightarrow> client_index option" where
  "idx_remove c ci =
     (case del_subnets (pc_subnets c) (ci_subnets ci) of
        None \<Rightarrow> None
      | Some subnets \<Rightarrow>
          (case del_macs (pc_macs c) (ci_macs ci) of
             None \<Rightarrow> None
           | Some macs \<Rightarrow>
               Some \<lparr>ci_names = (ci_names ci)(pc_name c := None),
                     ci_client_ids = del_all (pc_client_ids c) (ci_client_ids ci),
                     ci_ips = gm_del_all (pc_ips c) (ci_ips ci),
                     ci_macs = macs,
                     ci_clients = gm_del (pc_uid c) (ci_clients ci),
                     ci_subnets = subnets\<rparr>))"

definition idx_size :: "client_index \<Rightarrow> nat" where
  "idx_size ci = length (ci_clients ci)"

text \<open>The clients in the order of \<^verbatim>\<open>rangeByName\<close>, which sorts the values of a map stably.\<close>

definition rangeByName :: "client_index \<Rightarrow> persistent list" where
  "rangeByName ci = sort_key pc_name (map snd (ci_clients ci))"

section \<open>Finding clients\<close>

text \<open>A lookup finds nothing, a client, or an identifier whose client is missing, a nil pointer.\<close>

datatype found = NotFound | FoundNil | Found persistent

definition client_of :: "uid option \<Rightarrow> client_index \<Rightarrow> found" where
  "client_of uo ci =
     (case uo of
        None \<Rightarrow> NotFound
      | Some u \<Rightarrow> (case gm_get (ci_clients ci) u of None \<Rightarrow> FoundNil | Some c \<Rightarrow> Found c))"

definition findByClientID :: "string \<Rightarrow> client_index \<Rightarrow> found" where
  "findByClientID i ci = client_of (ci_client_ids ci i) ci"

definition findByName :: "string \<Rightarrow> client_index \<Rightarrow> found" where
  "findByName name ci = client_of (ci_names ci name) ci"

text \<open>The closures passed to \<^verbatim>\<open>Range\<close> remember the identifier of the first matching subnet.\<close>

definition first_subnet :: "(prefix \<Rightarrow> bool) \<Rightarrow> client_index \<Rightarrow> uid option" where
  "first_subnet P ci =
     sm_range (\<lambda>s p u. if P p then (Some u, False) else (s, True)) 0 (ci_subnets ci) None"

definition findByIP :: "addr \<Rightarrow> client_index \<Rightarrow> found" where
  "findByIP ip ci =
     (case gm_get (ci_ips ci) ip of
        Some u \<Rightarrow> client_of (Some u) ci
      | None \<Rightarrow> client_of (first_subnet (\<lambda>p. prefix_contains p (with_zone [] ip)) ci) ci)"

definition findByCIDR :: "prefix \<Rightarrow> client_index \<Rightarrow> found" where
  "findByCIDR subnet ci = client_of (first_subnet (\<lambda>p. subnet = p) ci) ci"

text \<open>The outer \<^term>\<open>None\<close> is the panic of \<^term>\<open>macToKey\<close>.\<close>

definition findByMAC :: "mac \<Rightarrow> client_index \<Rightarrow> found option" where
  "findByMAC mac ci = map_option (\<lambda>k. client_of (ci_macs ci k) ci) (macToKey mac)"

definition idx_find :: "string \<Rightarrow> client_index \<Rightarrow> found option" where
  "idx_find i ci =
     (let byID = findByClientID i ci;
          byIP = (case parse_addr i of None \<Rightarrow> NotFound | Some ip \<Rightarrow> findByIP ip ci)
      in if byID \<noteq> NotFound then Some byID
         else if byIP \<noteq> NotFound then Some byIP
         else case parse_mac i of Some mac \<Rightarrow> findByMAC mac ci | None \<Rightarrow> Some NotFound)"

definition findByIPWithoutZone :: "addr \<Rightarrow> client_index \<Rightarrow> persistent option" where
  "findByIPWithoutZone ip ci =
     (if ip = ZeroAddr then None
      else case find (\<lambda>(a, u). with_zone [] a = ip) (ci_ips ci) of
        None \<Rightarrow> None
      | Some (a, u) \<Rightarrow> gm_get (ci_clients ci) u)"

section \<open>Clashes\<close>

definition clashesUID :: "persistent \<Rightarrow> client_index \<Rightarrow> bool" where
  "clashesUID c ci \<longleftrightarrow> gm_get (ci_clients ci) (pc_uid c) \<noteq> None"

datatype clash = ClashName string | ClashClientID string string | ClashIP string addr
  | ClashSubnet string prefix | ClashMAC string mac

text \<open>Owned by another client, in the map \<open>get\<close>.\<close>

definition other_owner :: "('k \<Rightarrow> uid option) \<Rightarrow> uid \<Rightarrow> 'k \<Rightarrow> bool" where
  "other_owner get u k \<longleftrightarrow> get k \<noteq> None \<and> get k \<noteq> Some u"

definition clashesName :: "persistent \<Rightarrow> client_index \<Rightarrow> found" where
  "clashesName c ci =
     (case findByName (pc_name c) ci of
        NotFound \<Rightarrow> NotFound
      | FoundNil \<Rightarrow> FoundNil
      | Found existing \<Rightarrow> if pc_uid existing \<noteq> pc_uid c then Found existing else NotFound)"

definition clashesIP :: "persistent \<Rightarrow> client_index \<Rightarrow> (persistent \<times> addr) option" where
  "clashesIP c ci =
     (case find (other_owner (gm_get (ci_ips ci)) (pc_uid c)) (pc_ips c) of
        None \<Rightarrow> None
      | Some ip \<Rightarrow>
          map_option (\<lambda>p. (p, ip)) (gm_get (ci_clients ci) (the (gm_get (ci_ips ci) ip))))"

definition clashesSubnet :: "persistent \<Rightarrow> client_index \<Rightarrow> (persistent \<times> prefix) option" where
  "clashesSubnet c ci =
     (let own = (\<lambda>s. first_subnet (\<lambda>p. s = p) ci) in
      case find (other_owner own (pc_uid c)) (pc_subnets c) of
        None \<Rightarrow> None
      | Some s \<Rightarrow> map_option (\<lambda>p. (p, s)) (gm_get (ci_clients ci) (the (own s))))"

text \<open>The outer \<^term>\<open>None\<close> is the panic of \<^term>\<open>macToKey\<close>, reached only if no earlier address clashes.\<close>

fun clashesMAC :: "uid \<Rightarrow> mac list \<Rightarrow> client_index \<Rightarrow> (persistent \<times> mac) option option" where
  "clashesMAC u [] ci = Some None"
| "clashesMAC u (mac # macs) ci =
     (case macToKey mac of
        None \<Rightarrow> None
      | Some k \<Rightarrow>
          if other_owner (ci_macs ci) u k
          then Some (map_option (\<lambda>p. (p, mac)) (gm_get (ci_clients ci) (the (ci_macs ci k))))
          else clashesMAC u macs ci)"

definition idx_clashes :: "persistent \<Rightarrow> client_index \<Rightarrow> clash option option" where
  "idx_clashes c ci =
     (case clashesName c ci of
        FoundNil \<Rightarrow> None
      | Found p \<Rightarrow> Some (Some (ClashName (pc_name p)))
      | NotFound \<Rightarrow>
          (case find (other_owner (ci_client_ids ci) (pc_uid c)) (pc_client_ids c) of
             Some i \<Rightarrow>
               map_option (\<lambda>p. Some (ClashClientID (pc_name p) i))
                 (gm_get (ci_clients ci) (the (ci_client_ids ci i)))
           | None \<Rightarrow>
               (case clashesIP c ci of
                  Some (p, ip) \<Rightarrow> Some (Some (ClashIP (pc_name p) ip))
                | None \<Rightarrow>
                    (case clashesSubnet c ci of
                       Some (p, s) \<Rightarrow> Some (Some (ClashSubnet (pc_name p) s))
                     | None \<Rightarrow>
                         map_option (map_option (\<lambda>(p, mac). ClashMAC (pc_name p) mac))
                           (clashesMAC (pc_uid c) (pc_macs c) ci)))))"

section \<open>Stores of identifiers\<close>

text \<open>
  A store maps identifiers to owners.  Storing a list of acceptable identifiers and deleting one
  succeeds, keeps the store well formed and changes exactly these identifiers.
\<close>

definition consistent :: "('c \<Rightarrow> 'k list) \<Rightarrow> ('k \<Rightarrow> 'u option) \<Rightarrow> ('u \<rightharpoonup> 'c) \<Rightarrow> bool" where
  "consistent ids get clients \<longleftrightarrow>
     (\<forall>k u. get k = Some u \<longleftrightarrow> (\<exists>c. clients u = Some c \<and> k \<in> set (ids c)))"

locale ident_store =
  fixes get :: "'s \<Rightarrow> 'k \<Rightarrow> 'u option"
    and put :: "'k list \<Rightarrow> 'u \<Rightarrow> 's \<Rightarrow> 's option"
    and del :: "'k list \<Rightarrow> 's \<Rightarrow> 's option"
    and wf :: "'s \<Rightarrow> bool"
    and ok :: "'k \<Rightarrow> bool"
  assumes put_law: "wf s \<Longrightarrow> \<forall>k \<in> set ks. ok k \<Longrightarrow>
      \<exists>s'. put ks u s = Some s' \<and> wf s' \<and> (\<forall>k. get s' k = (if k \<in> set ks then Some u else get s k))"
    and del_law: "wf s \<Longrightarrow> \<forall>k \<in> set ks. ok k \<Longrightarrow>
      \<exists>s'. del ks s = Some s' \<and> wf s' \<and> (\<forall>k. get s' k = (if k \<in> set ks then None else get s k))"
begin

lemma put_consistent:
  assumes "wf s" "\<forall>k \<in> set (ids c). ok k" "consistent ids (get s) clients" "clients u = None"
    and "\<forall>k \<in> set (ids c). get s k = None"
  shows "\<exists>s'. put (ids c) u s = Some s' \<and> wf s' \<and> consistent ids (get s') (clients(u \<mapsto> c))"
proof -
  obtain s' where s': "put (ids c) u s = Some s'" "wf s'"
    "\<And>k. get s' k = (if k \<in> set (ids c) then Some u else get s k)"
    using put_law [OF assms(1,2)] by blast
  have con: "get s k = Some v \<longleftrightarrow> (\<exists>c'. clients v = Some c' \<and> k \<in> set (ids c'))" for k v
    using assms(3) by (simp add: consistent_def)
  have "get s' k = Some v \<longleftrightarrow> (\<exists>c'. (clients(u \<mapsto> c)) v = Some c' \<and> k \<in> set (ids c'))" for k v
    using con [of k v] assms(4,5) s'(3) [of k] by (cases "v = u"; cases "k \<in> set (ids c)") auto
  with s' show ?thesis unfolding consistent_def by blast
qed

lemma del_consistent:
  assumes "wf s" "\<forall>k \<in> set (ids c). ok k" "consistent ids (get s) clients" "clients u = Some c"
  shows "\<exists>s'. del (ids c) s = Some s' \<and> wf s' \<and> consistent ids (get s') (clients(u := None)) \<and>
    (\<forall>k. get s' k = (if get s k = Some u then None else get s k))"
proof -
  obtain s' where s': "del (ids c) s = Some s'" "wf s'"
    "\<And>k. get s' k = (if k \<in> set (ids c) then None else get s k)"
    using del_law [OF assms(1,2)] by blast
  have own: "get s k = Some u \<longleftrightarrow> k \<in> set (ids c)" for k
    using assms(3,4) by (auto simp: consistent_def)
  have con: "get s k = Some v \<longleftrightarrow> (\<exists>c'. clients v = Some c' \<and> k \<in> set (ids c'))" for k v
    using assms(3) by (simp add: consistent_def)
  have "get s' k = Some v \<longleftrightarrow> (\<exists>c'. (clients(u := None)) v = Some c' \<and> k \<in> set (ids c'))" for k v
    using con [of k v] own [of k] s'(3) [of k] by (cases "v = u"; cases "k \<in> set (ids c)") auto
  then have "consistent ids (get s') (clients(u := None))" unfolding consistent_def by blast
  with s' own show ?thesis by auto
qed

end

interpretation snc: strict_cmp subnetCompare
  by unfold_locales (auto simp: subnetCompare_ord cmp_ord_def split: if_splits)

interpretation plain_store: ident_store "\<lambda>m. m" "\<lambda>ks u m. Some (put_all ks u m)" "\<lambda>ks m. Some (del_all ks m)"
  "\<lambda>_. True" "\<lambda>_. True"
  by unfold_locales (simp_all add: put_all_apply del_all_apply)

interpretation go_store: ident_store gm_get "\<lambda>ks u m. Some (gm_put_all ks u m)" "\<lambda>ks m. Some (gm_del_all ks m)"
  gm_wf "\<lambda>_. True"
  by unfold_locales (simp_all add: gm_get_put_all gm_get_del_all)

definition mac_ok :: "mac \<Rightarrow> bool" where
  "mac_ok m \<longleftrightarrow> length m \<in> {6, 8, 20}"

lemma macToKey_ok [simp]: "mac_ok m \<Longrightarrow> macToKey m = Some m"
  by (simp add: mac_ok_def macToKey_def)

lemma put_macs_eq: "\<forall>k \<in> set ks. mac_ok k \<Longrightarrow> put_macs ks u m = Some (put_all ks u m)"
  by (induction ks arbitrary: m) (simp_all add: put_all_def)

lemma del_macs_eq: "\<forall>k \<in> set ks. mac_ok k \<Longrightarrow> del_macs ks m = Some (del_all ks m)"
  by (induction ks arbitrary: m) (simp_all add: del_all_def)

interpretation mac_store: ident_store "\<lambda>m. m" put_macs del_macs "\<lambda>_. True" mac_ok
  by unfold_locales (simp_all add: put_macs_eq del_macs_eq put_all_apply del_all_apply)

lemma put_subnets_spec:
  "sm_wf subnetCompare m \<Longrightarrow> sm_wf subnetCompare (put_subnets ps u m) \<and>
   sm_get (put_subnets ps u m) k = (if k \<in> set ps then Some u else sm_get m k)"
  by (induction ps arbitrary: m) (auto simp: put_subnets_def snc.sm_wf_set sm_get_set)

lemma del_subnets_spec:
  "sm_wf subnetCompare m \<Longrightarrow> \<exists>m'. del_subnets ps m = Some m' \<and> sm_wf subnetCompare m' \<and>
   (\<forall>k. sm_get m' k = (if k \<in> set ps then None else sm_get m k))"
proof (induction ps arbitrary: m)
  case (Cons p ps)
  obtain m1 where m1: "sm_del subnetCompare p m = Some m1" "sm_wf subnetCompare m1"
    "sm_vals m1 = (sm_vals m)(p := None)"
    using snc.sm_del_correct [OF Cons.prems] by blast
  from Cons.IH [OF m1(2)] m1 show ?case by (auto simp: sm_get_def)
qed (simp add: sm_get_def)

interpretation subnet_store: ident_store sm_get "\<lambda>ks u m. Some (put_subnets ks u m)" del_subnets
  "sm_wf subnetCompare" "\<lambda>_. True"
  by unfold_locales (simp_all add: put_subnets_spec del_subnets_spec)

section \<open>The invariant of the index\<close>

abbreviation ci_get :: "client_index \<Rightarrow> uid \<Rightarrow> persistent option" where
  "ci_get ci \<equiv> gm_get (ci_clients ci)"

definition macs_ok :: "persistent \<Rightarrow> bool" where
  "macs_ok c \<longleftrightarrow> (\<forall>m \<in> set (pc_macs c). mac_ok m)"

definition idx_inv :: "client_index \<Rightarrow> bool" where
  "idx_inv ci \<longleftrightarrow>
     gm_wf (ci_clients ci) \<and> gm_wf (ci_ips ci) \<and> sm_wf subnetCompare (ci_subnets ci) \<and>
     (\<forall>u c. ci_get ci u = Some c \<longrightarrow> pc_uid c = u \<and> u \<noteq> 0 \<and> macs_ok c) \<and>
     consistent (\<lambda>c. [pc_name c]) (ci_names ci) (ci_get ci) \<and>
     consistent pc_client_ids (ci_client_ids ci) (ci_get ci) \<and>
     consistent pc_ips (gm_get (ci_ips ci)) (ci_get ci) \<and>
     consistent pc_macs (ci_macs ci) (ci_get ci) \<and>
     consistent pc_subnets (sm_get (ci_subnets ci)) (ci_get ci)"

lemma idx_invI:
  assumes "gm_wf cl" "gm_wf ips" "sm_wf subnetCompare subs"
    and "\<forall>u c. gm_get cl u = Some c \<longrightarrow> pc_uid c = u \<and> u \<noteq> 0 \<and> macs_ok c"
    and "consistent (\<lambda>c. [pc_name c]) names (gm_get cl)" "consistent pc_client_ids cids (gm_get cl)"
    and "consistent pc_ips (gm_get ips) (gm_get cl)" "consistent pc_macs macs (gm_get cl)"
    and "consistent pc_subnets (sm_get subs) (gm_get cl)"
  shows "idx_inv \<lparr>ci_names = names, ci_client_ids = cids, ci_ips = ips, ci_macs = macs, ci_clients = cl,
    ci_subnets = subs\<rparr>"
  using assms unfolding idx_inv_def by simp

lemma idx_invD:
  assumes "idx_inv ci"
  shows "gm_wf (ci_clients ci)" "gm_wf (ci_ips ci)" "sm_wf subnetCompare (ci_subnets ci)"
    "\<forall>u c. ci_get ci u = Some c \<longrightarrow> pc_uid c = u \<and> u \<noteq> 0 \<and> macs_ok c"
    "consistent (\<lambda>c. [pc_name c]) (ci_names ci) (ci_get ci)"
    "consistent pc_client_ids (ci_client_ids ci) (ci_get ci)"
    "consistent pc_ips (gm_get (ci_ips ci)) (ci_get ci)"
    "consistent pc_macs (ci_macs ci) (ci_get ci)"
    "consistent pc_subnets (sm_get (ci_subnets ci)) (ci_get ci)"
  using assms unfolding idx_inv_def by blast+

lemma idx_inv_new: "idx_inv newIndex"
  by (simp add: idx_inv_def newIndex_def consistent_def sm_new_def sm_get_def sm_wf_def)

text \<open>The owner of each identifier of a client satisfies \<open>P\<close>.\<close>

definition owners :: "(uid option \<Rightarrow> bool) \<Rightarrow> persistent \<Rightarrow> client_index \<Rightarrow> bool" where
  "owners P c ci \<longleftrightarrow>
     P (ci_names ci (pc_name c)) \<and> (\<forall>i \<in> set (pc_client_ids c). P (ci_client_ids ci i)) \<and>
     (\<forall>ip \<in> set (pc_ips c). P (gm_get (ci_ips ci) ip)) \<and>
     (\<forall>p \<in> set (pc_subnets c). P (sm_get (ci_subnets ci) p)) \<and>
     (\<forall>m \<in> set (pc_macs c). P (ci_macs ci m))"

lemma consistent_owner:
  "consistent ids get clients \<Longrightarrow> get k = Some u \<Longrightarrow> \<exists>c. clients u = Some c \<and> k \<in> set (ids c)"
  by (auto simp: consistent_def)

lemma idx_add_inv:
  assumes inv: "idx_inv ci" and "pc_uid c \<noteq> 0" "macs_ok c" "ci_get ci (pc_uid c) = None"
    and free: "owners (\<lambda>u. u = None) c ci"
  shows "\<exists>ci'. idx_add c ci = Some ci' \<and> idx_inv ci' \<and> ci_get ci' = (ci_get ci)(pc_uid c \<mapsto> c)"
proof -
  let ?u = "pc_uid c"
  let ?cl = "ci_get ci"
  have names: "consistent (\<lambda>c. [pc_name c]) ((ci_names ci)(pc_name c \<mapsto> ?u)) (?cl(?u \<mapsto> c))"
    using plain_store.put_consistent [of "\<lambda>c. [pc_name c]" c "ci_names ci" ?cl ?u] inv assms(4) free
    by (simp add: idx_inv_def owners_def put_all_def)
  have cids: "consistent pc_client_ids (put_all (pc_client_ids c) ?u (ci_client_ids ci)) (?cl(?u \<mapsto> c))"
    using plain_store.put_consistent [of pc_client_ids c "ci_client_ids ci" ?cl ?u] inv assms(4) free
    by (simp add: idx_inv_def owners_def)
  have ips: "consistent pc_ips (gm_get (gm_put_all (pc_ips c) ?u (ci_ips ci))) (?cl(?u \<mapsto> c))"
    using go_store.put_consistent [of "ci_ips ci" pc_ips c ?cl ?u] inv assms(4) free
    by (simp add: idx_inv_def owners_def)
  obtain macs where macs: "put_macs (pc_macs c) ?u (ci_macs ci) = Some macs"
    "consistent pc_macs macs (?cl(?u \<mapsto> c))"
    using mac_store.put_consistent [of pc_macs c "ci_macs ci" ?cl ?u] inv assms(3,4) free
    by (auto simp: idx_inv_def owners_def macs_ok_def)
  have subs: "consistent pc_subnets (sm_get (put_subnets (pc_subnets c) ?u (ci_subnets ci))) (?cl(?u \<mapsto> c))"
    "sm_wf subnetCompare (put_subnets (pc_subnets c) ?u (ci_subnets ci))"
    using subnet_store.put_consistent [of "ci_subnets ci" pc_subnets c ?cl ?u] inv assms(4) free
    by (simp_all add: idx_inv_def owners_def)
  have "\<forall>u' c'. (?cl(?u \<mapsto> c)) u' = Some c' \<longrightarrow> pc_uid c' = u' \<and> u' \<noteq> 0 \<and> macs_ok c'"
    using idx_invD(4) [OF inv] assms(2,3) by auto
  then have "idx_inv \<lparr>ci_names = (ci_names ci)(pc_name c \<mapsto> ?u),
      ci_client_ids = put_all (pc_client_ids c) ?u (ci_client_ids ci),
      ci_ips = gm_put_all (pc_ips c) ?u (ci_ips ci), ci_macs = macs,
      ci_clients = gm_put ?u c (ci_clients ci),
      ci_subnets = put_subnets (pc_subnets c) ?u (ci_subnets ci)\<rparr>"
    using names cids ips macs(2) subs idx_invD(1,2) [OF inv] by (intro idx_invI) (simp_all only: gm_get_put gm_wf_put gm_wf_put_all)
  then show ?thesis using macs(1) assms(2) by (simp add: idx_add_def)
qed

lemma idx_remove_inv:
  assumes inv: "idx_inv ci" and stored: "ci_get ci (pc_uid c) = Some c"
  shows "\<exists>ci'. idx_remove c ci = Some ci' \<and> idx_inv ci' \<and> ci_get ci' = (ci_get ci)(pc_uid c := None) \<and>
    (\<forall>n. ci_names ci' n = (if ci_names ci n = Some (pc_uid c) then None else ci_names ci n)) \<and>
    (\<forall>i. ci_client_ids ci' i = (if ci_client_ids ci i = Some (pc_uid c) then None else ci_client_ids ci i)) \<and>
    (\<forall>a. gm_get (ci_ips ci') a = (if gm_get (ci_ips ci) a = Some (pc_uid c) then None else gm_get (ci_ips ci) a)) \<and>
    (\<forall>m. ci_macs ci' m = (if ci_macs ci m = Some (pc_uid c) then None else ci_macs ci m)) \<and>
    (\<forall>p. sm_get (ci_subnets ci') p =
       (if sm_get (ci_subnets ci) p = Some (pc_uid c) then None else sm_get (ci_subnets ci) p))"
proof -
  let ?u = "pc_uid c"
  let ?cl = "ci_get ci"
  have macok: "\<forall>m \<in> set (pc_macs c). mac_ok m" using inv stored by (auto simp: idx_inv_def macs_ok_def)
  have con: "consistent (\<lambda>c. [pc_name c]) (ci_names ci) ?cl" "consistent pc_client_ids (ci_client_ids ci) ?cl"
    "consistent pc_ips (gm_get (ci_ips ci)) ?cl" "consistent pc_macs (ci_macs ci) ?cl"
    "consistent pc_subnets (sm_get (ci_subnets ci)) ?cl"
    and wf: "gm_wf (ci_ips ci)" "sm_wf subnetCompare (ci_subnets ci)"
    using inv by (simp_all add: idx_inv_def)
  have names: "consistent (\<lambda>c. [pc_name c]) ((ci_names ci)(pc_name c := None)) (?cl(?u := None))"
    "\<forall>n. ((ci_names ci)(pc_name c := None)) n = (if ci_names ci n = Some ?u then None else ci_names ci n)"
    using plain_store.del_consistent [OF TrueI _ con(1) stored] by (simp_all add: del_all_def)
  have cids: "consistent pc_client_ids (del_all (pc_client_ids c) (ci_client_ids ci)) (?cl(?u := None))"
    "\<forall>i. del_all (pc_client_ids c) (ci_client_ids ci) i =
       (if ci_client_ids ci i = Some ?u then None else ci_client_ids ci i)"
    using plain_store.del_consistent [OF TrueI _ con(2) stored] by simp_all
  have ips: "consistent pc_ips (gm_get (gm_del_all (pc_ips c) (ci_ips ci))) (?cl(?u := None))"
    "\<forall>a. gm_get (gm_del_all (pc_ips c) (ci_ips ci)) a =
       (if gm_get (ci_ips ci) a = Some ?u then None else gm_get (ci_ips ci) a)"
    using go_store.del_consistent [OF wf(1) _ con(3) stored] by simp_all
  obtain macs where macs: "del_macs (pc_macs c) (ci_macs ci) = Some macs"
    "consistent pc_macs macs (?cl(?u := None))"
    "\<forall>m. macs m = (if ci_macs ci m = Some ?u then None else ci_macs ci m)"
    using mac_store.del_consistent [OF TrueI macok con(4) stored] by blast
  obtain subs where subs: "del_subnets (pc_subnets c) (ci_subnets ci) = Some subs"
    "sm_wf subnetCompare subs" "consistent pc_subnets (sm_get subs) (?cl(?u := None))"
    "\<forall>p. sm_get subs p = (if sm_get (ci_subnets ci) p = Some ?u then None else sm_get (ci_subnets ci) p)"
    using subnet_store.del_consistent [OF wf(2) _ con(5) stored] by auto
  have "\<forall>u' c'. (?cl(?u := None)) u' = Some c' \<longrightarrow> pc_uid c' = u' \<and> u' \<noteq> 0 \<and> macs_ok c'"
    using idx_invD(4) [OF inv] by auto
  then have "idx_inv \<lparr>ci_names = (ci_names ci)(pc_name c := None),
      ci_client_ids = del_all (pc_client_ids c) (ci_client_ids ci),
      ci_ips = gm_del_all (pc_ips c) (ci_ips ci), ci_macs = macs,
      ci_clients = gm_del ?u (ci_clients ci), ci_subnets = subs\<rparr>"
    using names(1) cids(1) ips(1) macs(2) subs(2,3) idx_invD(1,2) [OF inv]
    by (intro idx_invI) (simp_all only: gm_get_del gm_wf_del gm_wf_del_all)
  moreover have "idx_remove c ci = Some \<lparr>ci_names = (ci_names ci)(pc_name c := None),
      ci_client_ids = del_all (pc_client_ids c) (ci_client_ids ci),
      ci_ips = gm_del_all (pc_ips c) (ci_ips ci), ci_macs = macs,
      ci_clients = gm_del ?u (ci_clients ci), ci_subnets = subs\<rparr>"
    by (simp add: idx_remove_def subs(1) macs(1))
  ultimately show ?thesis
    using names(2) cids(2) ips(2) macs(3) subs(4)
    by (intro exI conjI) (assumption | simp only: client_index.simps gm_get_del simp_thms)+
qed

section \<open>Lookups\<close>

lemma sm_range_find:
  "sm_range_keys (\<lambda>s p u. if P p then (Some u, False) else (s, True)) z vals ks s0 =
     (case find P ks of None \<Rightarrow> s0 | Some p \<Rightarrow> Some (case vals p of Some v \<Rightarrow> v | None \<Rightarrow> z))"
  by (induction ks arbitrary: s0) auto

lemma sm_key_get: "sm_wf cmp m \<Longrightarrow> find P (sm_keys m) = Some p \<Longrightarrow> \<exists>u. sm_get m p = Some u"
  by (auto simp: sm_wf_def sm_get_def find_Some_iff)

lemma first_subnet_eq:
  "sm_wf subnetCompare (ci_subnets ci) \<Longrightarrow>
   first_subnet P ci = Option.bind (find P (sm_keys (ci_subnets ci))) (sm_get (ci_subnets ci))"
  unfolding first_subnet_def sm_range_def sm_range_find
  by (cases "find P (sm_keys (ci_subnets ci))") (auto dest!: sm_key_get simp: sm_get_def)

lemma first_subnet_exact:
  assumes "sm_wf subnetCompare (ci_subnets ci)"
  shows "first_subnet (\<lambda>p. s = p) ci = sm_get (ci_subnets ci) s"
proof -
  have "find (\<lambda>p. s = p) ks = (if s \<in> set ks then Some s else None)" for ks
    by (induction ks) auto
  with assms show ?thesis
    by (auto simp: first_subnet_eq [OF assms] sm_wf_def sm_get_def)
qed

lemma client_of_inv:
  assumes "consistent ids get (ci_get ci)" "get k = Some u"
  shows "\<exists>c. client_of (Some u) ci = Found c \<and> ci_get ci u = Some c \<and> k \<in> set (ids c)"
  using consistent_owner [OF assms] by (auto simp: client_of_def)

text \<open>The subnet found first is the longest of those that match.\<close>

lemma first_subnet_longest:
  assumes wf: "sm_wf subnetCompare (ci_subnets ci)" and "first_subnet P ci = Some u"
  shows "\<exists>p. sm_get (ci_subnets ci) p = Some u \<and> P p \<and>
    (\<forall>q. sm_get (ci_subnets ci) q \<noteq> None \<and> P q \<longrightarrow> pfx_bits q \<le> pfx_bits p)"
proof -
  let ?ks = "sm_keys (ci_subnets ci)"
  obtain p where p: "find P ?ks = Some p" "sm_get (ci_subnets ci) p = Some u"
    using assms(2) by (auto simp: first_subnet_eq [OF wf] bind_eq_Some_conv)
  then obtain i where i: "i < length ?ks" "?ks ! i = p" "P p" "\<forall>j < i. \<not> P (?ks ! j)"
    by (auto simp: find_Some_iff)
  have "pfx_bits q \<le> pfx_bits p" if q: "sm_get (ci_subnets ci) q \<noteq> None" "P q" for q
  proof -
    have "q \<in> set ?ks" using q(1) wf by (auto simp: sm_wf_def sm_get_def)
    then obtain j where j: "j < length ?ks" "?ks ! j = q" by (auto simp: in_set_conv_nth)
    with i q(2) have "i \<le> j" by (meson not_le)
    then have "i = j \<or> subnetCompare p q < 0"
      using wf i j by (auto simp: sm_wf_def sorted_wrt_iff_nth_less le_less)
    then show ?thesis
      using i j by (auto simp: subnetCompare_def split: if_splits)
  qed
  with p i show ?thesis by blast
qed

text \<open>In a consistent index the lookup by address finds a client that lists the address; if there is
  none, one with a matching subnet of the greatest length; and nothing only if no client has the address or
  a matching subnet.\<close>

lemma findByIP_spec:
  assumes "idx_inv ci"
  shows "case findByIP ip ci of
     Found c \<Rightarrow> ci_get ci (pc_uid c) = Some c \<and>
       (ip \<in> set (pc_ips c) \<or>
        (\<forall>u d. ci_get ci u = Some d \<longrightarrow> ip \<notin> set (pc_ips d)) \<and>
        (\<exists>p \<in> set (pc_subnets c). prefix_contains p (with_zone [] ip) \<and>
          (\<forall>u d q. ci_get ci u = Some d \<and> q \<in> set (pc_subnets d) \<and> prefix_contains q (with_zone [] ip) \<longrightarrow>
             pfx_bits q \<le> pfx_bits p)))
   | NotFound \<Rightarrow> \<forall>u d. ci_get ci u = Some d \<longrightarrow> ip \<notin> set (pc_ips d) \<and>
       (\<forall>q \<in> set (pc_subnets d). \<not> prefix_contains q (with_zone [] ip))
   | FoundNil \<Rightarrow> False"
proof -
  let ?P = "\<lambda>p. prefix_contains p (with_zone [] ip)"
  have wf: "sm_wf subnetCompare (ci_subnets ci)" and uid: "\<And>u c. ci_get ci u = Some c \<Longrightarrow> pc_uid c = u"
    and ips: "consistent pc_ips (gm_get (ci_ips ci)) (ci_get ci)"
    and subs: "consistent pc_subnets (sm_get (ci_subnets ci)) (ci_get ci)"
    using assms by (auto simp: idx_inv_def)
  have sub_get: "sm_get (ci_subnets ci) q \<noteq> None" if "ci_get ci u = Some d" "q \<in> set (pc_subnets d)" for u d q
    using subs that unfolding consistent_def by blast
  have ip_get: "gm_get (ci_ips ci) ip = Some u" if "ci_get ci u = Some d" "ip \<in> set (pc_ips d)" for u d
    using ips that unfolding consistent_def by blast
  show ?thesis
  proof (cases "gm_get (ci_ips ci) ip")
    case (Some u)
    from client_of_inv [OF ips Some] uid Some show ?thesis by (auto simp: findByIP_def)
  next
    case no_ip: None
    then have none: "\<forall>u d. ci_get ci u = Some d \<longrightarrow> ip \<notin> set (pc_ips d)" using ip_get by fastforce
    show ?thesis
    proof (cases "first_subnet ?P ci")
      case None
      then have "find ?P (sm_keys (ci_subnets ci)) = None"
        using sm_key_get [OF wf, of ?P]
        by (cases "find ?P (sm_keys (ci_subnets ci))") (auto simp: first_subnet_eq [OF wf])
      then have "\<not> ?P q" if "sm_get (ci_subnets ci) q \<noteq> None" for q
        using that wf by (auto simp: find_None_iff sm_wf_def sm_get_def)
      with none no_ip None sub_get show ?thesis by (auto simp: findByIP_def client_of_def)
    next
      case (Some u)
      obtain p where p: "sm_get (ci_subnets ci) p = Some u" "?P p"
        "\<forall>q. sm_get (ci_subnets ci) q \<noteq> None \<and> ?P q \<longrightarrow> pfx_bits q \<le> pfx_bits p"
        using first_subnet_longest [OF wf Some] by blast
      from client_of_inv [OF subs p(1)] obtain c where c: "client_of (Some u) ci = Found c"
        "ci_get ci u = Some c" "p \<in> set (pc_subnets c)" by blast
      have "findByIP ip ci = Found c" using no_ip Some c(1) by (simp add: findByIP_def)
      moreover have "\<forall>v d q. ci_get ci v = Some d \<and> q \<in> set (pc_subnets d) \<and> ?P q \<longrightarrow> pfx_bits q \<le> pfx_bits p"
        using p(3) sub_get by blast
      ultimately show ?thesis using c p(2) uid none by auto
    qed
  qed
qed

section \<open>Clash detection\<close>

abbreviation free_for :: "uid \<Rightarrow> uid option \<Rightarrow> bool" where
  "free_for u owner \<equiv> owner = None \<or> owner = Some u"

lemma other_owner_free: "\<not> other_owner get u k \<longleftrightarrow> free_for u (get k)"
  by (auto simp: other_owner_def)

lemma other_owner_client:
  assumes "consistent ids get (ci_get ci)" "other_owner get u k"
  shows "\<exists>p. ci_get ci (the (get k)) = Some p"
  using assms consistent_owner [OF assms(1), of k "the (get k)"] by (auto simp: other_owner_def)

lemma find_other_owner:
  assumes "consistent ids get (ci_get ci)"
  shows "case find (other_owner get u) ks of
      None \<Rightarrow> \<forall>k \<in> set ks. free_for u (get k)
    | Some k \<Rightarrow> k \<in> set ks \<and> \<not> free_for u (get k) \<and> (\<exists>p. ci_get ci (the (get k)) = Some p)"
proof (cases "find (other_owner get u) ks")
  case None
  then have "\<forall>k \<in> set ks. free_for u (get k)" by (simp add: find_None_iff other_owner_free)
  with None show ?thesis by simp
next
  case (Some k)
  then have "k \<in> set ks" "other_owner get u k" by (auto simp: find_Some_iff)
  with Some other_owner_client [OF assms this(2)] show ?thesis by (simp flip: other_owner_free)
qed

lemma clashesName_spec:
  assumes "idx_inv ci"
  shows "clashesName c ci \<noteq> FoundNil \<and>
    (clashesName c ci = NotFound \<longleftrightarrow> free_for (pc_uid c) (ci_names ci (pc_name c)))"
proof (cases "ci_names ci (pc_name c)")
  case None
  then show ?thesis by (simp add: clashesName_def findByName_def client_of_def)
next
  case (Some u)
  from consistent_owner [OF idx_invD(5) [OF assms] Some] obtain p where p: "ci_get ci u = Some p" by auto
  moreover have "pc_uid p = u" using idx_invD(4) [OF assms] p by blast
  ultimately show ?thesis using Some by (simp add: clashesName_def findByName_def client_of_def)
qed

lemma clashesIP_spec:
  assumes "idx_inv ci"
  shows "clashesIP c ci = None \<longleftrightarrow> (\<forall>ip \<in> set (pc_ips c). free_for (pc_uid c) (gm_get (ci_ips ci) ip))"
  using find_other_owner [OF idx_invD(7) [OF assms], where u = "pc_uid c" and ks = "pc_ips c"]
  by (auto simp: clashesIP_def split: option.splits)

lemma clashesSubnet_spec:
  assumes "idx_inv ci"
  shows "clashesSubnet c ci = None \<longleftrightarrow>
    (\<forall>p \<in> set (pc_subnets c). free_for (pc_uid c) (sm_get (ci_subnets ci) p))"
  using find_other_owner [OF idx_invD(9) [OF assms], where u = "pc_uid c" and ks = "pc_subnets c"]
    first_subnet_exact [OF idx_invD(3) [OF assms]]
  by (auto simp: clashesSubnet_def Let_def split: option.splits)

lemma clashesMAC_spec:
  assumes "idx_inv ci" "\<forall>m \<in> set macs. mac_ok m"
  shows "clashesMAC u macs ci \<noteq> None \<and>
    (clashesMAC u macs ci = Some None \<longleftrightarrow> (\<forall>m \<in> set macs. free_for u (ci_macs ci m)))"
  using assms(2)
proof (induction macs)
  case (Cons m macs)
  then show ?case
    using other_owner_client [OF idx_invD(8) [OF assms(1)], of u m] other_owner_free [of "ci_macs ci" u m]
    by (cases "other_owner (ci_macs ci) u m") auto
qed simp

lemma idx_clashes_spec:
  assumes inv: "idx_inv ci" and "macs_ok c"
  shows "idx_clashes c ci \<noteq> None \<and>
    (idx_clashes c ci = Some None \<longleftrightarrow> owners (free_for (pc_uid c)) c ci)"
proof (cases "clashesName c ci")
  case FoundNil
  with clashesName_spec [OF inv] show ?thesis by blast
next
  case (Found p)
  with clashesName_spec [OF inv, of c] show ?thesis by (auto simp: idx_clashes_def owners_def)
next
  case NotFound
  then have name: "free_for (pc_uid c) (ci_names ci (pc_name c))" using clashesName_spec [OF inv, of c] by blast
  note ids = find_other_owner [OF idx_invD(6) [OF inv], where u = "pc_uid c" and ks = "pc_client_ids c"]
  show ?thesis
  proof (cases "find (other_owner (ci_client_ids ci) (pc_uid c)) (pc_client_ids c)")
    case (Some i)
    with ids NotFound show ?thesis by (auto simp: idx_clashes_def owners_def)
  next
    case no_ids: None
    with ids have free: "\<forall>i \<in> set (pc_client_ids c). free_for (pc_uid c) (ci_client_ids ci i)" by simp
    have macs: "\<forall>m \<in> set (pc_macs c). mac_ok m" using assms(2) by (simp add: macs_ok_def)
    note spec = clashesIP_spec [OF inv, of c] clashesSubnet_spec [OF inv, of c]
      clashesMAC_spec [OF inv macs, of "pc_uid c"]
    show ?thesis
      using NotFound no_ids name free spec unfolding idx_clashes_def owners_def
      by (cases "clashesIP c ci"; cases "clashesSubnet c ci"; cases "clashesMAC (pc_uid c) (pc_macs c) ci") auto
  qed
qed

end
