(* ===== verification/ClientStorage.thy ===== *)
theory ClientStorage
  imports ClientIndex Filtering
begin

text \<open>
  The storage of clients: \<^verbatim>\<open>internal/client/storage.go\<close> and the manager of custom upstream
  configurations, \<^verbatim>\<open>upstreammanager.go\<close>.  Calls under the storage's mutex are single steps.

  The storage promises the behaviour of a map from unique identifiers to clients in which no two
  clients share a name or an identifier; the theorems show that the indexes implement it.

  Arguments of the model: the parsers of module \<^verbatim>\<open>dnsproxy\<close> (which return an error, if any), the
  validation functions of module \<^verbatim>\<open>golibs\<close>, the DHCP server as seen through its interface, and what
  the ARP database and the hosts file report.
\<close>

section \<open>Custom upstream configurations\<close>

record common_conf =
  cc_bootstrap :: nat
  cc_timeout :: duration
  cc_prefer_ipv6 :: bool
  cc_edns :: bool
  cc_http3 :: bool

text \<open>A configuration of module \<^verbatim>\<open>dnsproxy\<close> is represented by what it is built from.\<close>

record proxy_conf =
  px_upstreams :: "string list"
  px_common :: common_conf
  px_cache_enabled :: bool
  px_cache_size :: int

record custom_conf =
  cu_proxy :: "proxy_conf option"
  cu_common_update :: instant
  cu_upstreams :: "string list"
  cu_cache_size :: "32 word"
  cu_cache_enabled :: bool
  cu_changed :: bool

record upstream_manager =
  um_confs :: "(uid, custom_conf) gomap"
  um_common :: "common_conf option"
  um_update :: instant

definition newUpstreamManager :: upstream_manager where
  "newUpstreamManager = \<lparr>um_confs = [], um_common = None, um_update = - 62135596800 * second_ns\<rparr>"

definition updateCommonUpstreamConfig :: "common_conf \<Rightarrow> instant \<Rightarrow> upstream_manager \<Rightarrow> upstream_manager" where
  "updateCommonUpstreamConfig conf now m = m\<lparr>um_common := Some conf, um_update := now\<rparr>"

definition updateCustomUpstreamConfig :: "persistent \<Rightarrow> upstream_manager \<Rightarrow> upstream_manager" where
  "updateCustomUpstreamConfig c m =
     (let cliConf = (case gm_get (um_confs m) (pc_uid c) of
                       Some cc \<Rightarrow> cc
                     | None \<Rightarrow> \<lparr>cu_proxy = None, cu_common_update = um_update m, cu_upstreams = [],
                                 cu_cache_size = 0, cu_cache_enabled = False, cu_changed = False\<rparr>)
      in m\<lparr>um_confs := gm_put (pc_uid c)
            (cliConf\<lparr>cu_upstreams := pc_upstreams c, cu_cache_size := pc_cache_size c,
                     cu_cache_enabled := pc_cache_enabled c, cu_changed := True\<rparr>) (um_confs m)\<rparr>)"

definition IsCommentOrEmpty :: "string \<Rightarrow> bool" where
  "IsCommentOrEmpty s \<longleftrightarrow> s = [] \<or> s ! 0 = CHR ''#''"

text \<open>\<^term>\<open>None\<close> is a panic: a parse error, or a common configuration that was never set.\<close>

definition newCustomUpstreamConfig ::
  "(string list \<Rightarrow> string option) \<Rightarrow> custom_conf \<Rightarrow> common_conf option \<Rightarrow> proxy_conf option option" where
  "newCustomUpstreamConfig parse_upstreams cliConf conf =
     (let upstreams = filter (\<lambda>s. \<not> IsCommentOrEmpty s) (cu_upstreams cliConf) in
      if upstreams = [] then Some None
      else case conf of
        None \<Rightarrow> None
      | Some cc \<Rightarrow>
          (case parse_upstreams upstreams of
             Some _ \<Rightarrow> None
           | None \<Rightarrow> Some (Some \<lparr>px_upstreams = upstreams, px_common = cc,
               px_cache_enabled = cu_cache_enabled cliConf,
               px_cache_size = uint (cu_cache_size cliConf)\<rparr>)))"

definition isConfigChanged :: "upstream_manager \<Rightarrow> custom_conf \<Rightarrow> bool" where
  "isConfigChanged m cliConf \<longleftrightarrow> um_update m \<noteq> cu_common_update cliConf \<or> cu_changed cliConf"

definition customUpstreamConfig ::
  "(string list \<Rightarrow> string option) \<Rightarrow> uid \<Rightarrow> upstream_manager \<Rightarrow>
   (proxy_conf option \<times> upstream_manager) option" where
  "customUpstreamConfig parse_upstreams u m =
     (case gm_get (um_confs m) u of
        None \<Rightarrow> Some (None, m)
      | Some cliConf \<Rightarrow>
          if \<not> isConfigChanged m cliConf then Some (cu_proxy cliConf, m)
          else
            map_option (\<lambda>px.
              (px, m\<lparr>um_confs := gm_put u (cliConf\<lparr>cu_proxy := px, cu_common_update := um_update m,
                 cu_changed := False\<rparr>) (um_confs m)\<rparr>))
              (newCustomUpstreamConfig parse_upstreams cliConf (um_common m)))"

definition um_remove :: "uid \<Rightarrow> upstream_manager \<Rightarrow> upstream_manager" where
  "um_remove u m = m\<lparr>um_confs := gm_del u (um_confs m)\<rparr>"

section \<open>The storage\<close>

record dhcp_iface =
  dh_leases :: "(addr \<times> string) list"
  dh_host :: "addr \<Rightarrow> string"
  dh_mac :: "addr \<Rightarrow> mac option"

definition EmptyDHCP :: dhcp_iface where
  "EmptyDHCP = \<lparr>dh_leases = [], dh_host = (\<lambda>_. []), dh_mac = (\<lambda>_. None)\<rparr>"

datatype arp_db = ArpNone | ArpEmpty | ArpSystem

record storage =
  sg_index :: client_index
  sg_runtime :: runtime_index
  sg_upstreams :: upstream_manager
  sg_dhcp :: dhcp_iface
  sg_arp :: arp_db
  sg_tags :: "string list"
  sg_runtime_dhcp :: bool

definition allowedTags :: "string list" where
  "allowedTags =
     [''device_audio'', ''device_camera'', ''device_gameconsole'', ''device_laptop'', ''device_nas'',
      ''device_other'', ''device_pc'', ''device_phone'', ''device_printer'', ''device_securityalarm'',
      ''device_tablet'', ''device_tv'', ''os_android'', ''os_ios'', ''os_linux'', ''os_macos'',
      ''os_other'', ''os_windows'', ''user_admin'', ''user_child'', ''user_regular'']"

datatype storage_error = SEClient client_error | SEUid | SEClash clash | SENotFound string

text \<open>The outer \<^term>\<open>None\<close> is a panic.\<close>

definition sg_Add ::
  "(string list \<Rightarrow> string option) \<Rightarrow> persistent \<Rightarrow> storage \<Rightarrow> (storage_error, storage) result option" where
  "sg_Add parse_upstreams p0 s =
     (case pc_validate parse_upstreams (sg_tags s) p0 of
        Inl e \<Rightarrow> Some (Inl (SEClient e))
      | Inr p \<Rightarrow>
          if clashesUID p (sg_index s) then Some (Inl SEUid)
          else case idx_clashes p (sg_index s) of
            None \<Rightarrow> None
          | Some (Some cl) \<Rightarrow> Some (Inl (SEClash cl))
          | Some None \<Rightarrow>
              map_option (\<lambda>ci. Inr (s\<lparr>sg_index := ci,
                sg_upstreams := updateCustomUpstreamConfig p (sg_upstreams s)\<rparr>)) (idx_add p (sg_index s)))"

definition sg_Update ::
  "(string list \<Rightarrow> string option) \<Rightarrow> string \<Rightarrow> persistent \<Rightarrow> storage \<Rightarrow>
   (storage_error, storage) result option" where
  "sg_Update parse_upstreams name p0 s =
     (case pc_validate parse_upstreams (sg_tags s) p0 of
        Inl e \<Rightarrow> Some (Inl (SEClient e))
      | Inr p1 \<Rightarrow>
          (case findByName name (sg_index s) of
             NotFound \<Rightarrow> Some (Inl (SENotFound name))
           | FoundNil \<Rightarrow> None
           | Found stored \<Rightarrow>
               (let p = p1\<lparr>pc_uid := pc_uid stored\<rparr> in
                case idx_clashes p (sg_index s) of
                  None \<Rightarrow> None
                | Some (Some cl) \<Rightarrow> Some (Inl (SEClash cl))
                | Some None \<Rightarrow>
                    (case idx_remove stored (sg_index s) of
                       None \<Rightarrow> None
                     | Some ci \<Rightarrow>
                         map_option (\<lambda>ci'. Inr (s\<lparr>sg_index := ci',
                           sg_upstreams := updateCustomUpstreamConfig p (sg_upstreams s)\<rparr>))
                           (idx_add p ci)))))"

definition RemoveByName :: "string \<Rightarrow> storage \<Rightarrow> (bool \<times> storage) option" where
  "RemoveByName name s =
     (case findByName name (sg_index s) of
        NotFound \<Rightarrow> Some (False, s)
      | FoundNil \<Rightarrow> None
      | Found p \<Rightarrow>
          map_option (\<lambda>ci. (True, s\<lparr>sg_index := ci, sg_upstreams := um_remove (pc_uid p) (sg_upstreams s)\<rparr>))
            (idx_remove p (sg_index s)))"

text \<open>The report of the ARP database is an error or its neighbours.\<close>

definition ReloadARP :: "(string, (addr \<times> string) list) result \<Rightarrow> storage \<Rightarrow> storage" where
  "ReloadARP report s =
     (case sg_arp s of
        ArpSystem \<Rightarrow>
          (case report of
             Inl _ \<Rightarrow> s\<lparr>sg_arp := ArpEmpty\<rparr>
           | Inr ns \<Rightarrow> if ns = [] then s else s\<lparr>sg_runtime := ri_refresh SourceARP ns (sg_runtime s)\<rparr>)
      | _ \<Rightarrow> s)"

fun add_initial ::
  "(string list \<Rightarrow> string option) \<Rightarrow> persistent list \<Rightarrow> storage \<Rightarrow> (storage_error, storage) result option" where
  "add_initial parse_upstreams [] s = Some (Inr s)"
| "add_initial parse_upstreams (p # ps) s =
     (case sg_Add parse_upstreams p s of
        Some (Inr s1) \<Rightarrow> add_initial parse_upstreams ps s1
      | r \<Rightarrow> r)"

definition empty_storage :: "dhcp_iface \<Rightarrow> arp_db \<Rightarrow> bool \<Rightarrow> storage" where
  "empty_storage dhcp arp runtimeDHCP =
     \<lparr>sg_index = newIndex, sg_runtime = [], sg_upstreams = newUpstreamManager, sg_dhcp = dhcp,
      sg_arp = arp, sg_tags = sort allowedTags, sg_runtime_dhcp = runtimeDHCP\<rparr>"

definition NewStorage ::
  "(string list \<Rightarrow> string option) \<Rightarrow> dhcp_iface \<Rightarrow> arp_db \<Rightarrow> bool \<Rightarrow> persistent list \<Rightarrow>
   (string, (addr \<times> string) list) result \<Rightarrow> (storage_error, storage) result option" where
  "NewStorage parse_upstreams dhcp arp runtimeDHCP initial report =
     map_option (map_sum id (ReloadARP report))
       (add_initial parse_upstreams initial (empty_storage dhcp arp runtimeDHCP))"

text \<open>The names of an address in the hosts file are not empty; \<^term>\<open>None\<close> is the access out of range.\<close>

definition addFromHostsFile :: "(addr \<times> string list) list \<Rightarrow> storage \<Rightarrow> storage option" where
  "addFromHostsFile hosts s =
     (if \<exists>(a, ns) \<in> set hosts. ns = [] then None
      else Some (s\<lparr>sg_runtime := ri_refresh SourceHostsFile (map (\<lambda>(a, ns). (a, ns ! 0)) hosts) (sg_runtime s)\<rparr>))"

definition UpdateDHCP :: "storage \<Rightarrow> storage" where
  "UpdateDHCP s =
     (if \<not> sg_runtime_dhcp s then s
      else s\<lparr>sg_runtime := ri_refresh SourceDHCP (dh_leases (sg_dhcp s)) (sg_runtime s)\<rparr>)"

definition setWHOISInfo :: "addr \<Rightarrow> whois_info \<Rightarrow> storage \<Rightarrow> storage" where
  "setWHOISInfo ip wi s =
     (if findByIP ip (sg_index s) \<noteq> NotFound then s
      else let rc = (case ri_client ip (sg_runtime s) of None \<Rightarrow> NewRuntime ip | Some rc \<Rightarrow> rc)
           in s\<lparr>sg_runtime := gm_put ip (rt_setWHOIS wi rc) (sg_runtime s)\<rparr>)"

definition UpdateAddress :: "addr \<Rightarrow> string \<Rightarrow> whois_info option \<Rightarrow> storage \<Rightarrow> storage" where
  "UpdateAddress ip host info s =
     (let s1 = (if host \<noteq> [] then s\<lparr>sg_runtime := snd (ri_setInfo ip SourceRDNS [host] (sg_runtime s))\<rparr> else s)
      in case info of None \<Rightarrow> s1 | Some wi \<Rightarrow> setWHOISInfo ip wi s1)"

definition ClientRuntime :: "addr \<Rightarrow> storage \<Rightarrow> runtime option \<times> storage" where
  "ClientRuntime ip s =
     (let rc = ri_client ip (sg_runtime s) in
      if \<not> sg_runtime_dhcp s then (rc, s)
      else if (case rc of None \<Rightarrow> False | Some r \<Rightarrow> rt_hostsFile r \<noteq> None) then (rc, s)
      else
        let host = dh_host (sg_dhcp s) ip in
        if host = [] then (rc, s)
        else case ri_setInfo ip SourceDHCP [host] (sg_runtime s) of
          (rc', ri) \<Rightarrow> (Some rc', s\<lparr>sg_runtime := ri\<rparr>))"

section \<open>Finding clients\<close>

record find_params =
  fp_client_id :: string
  fp_ip :: addr
  fp_subnet :: prefix
  fp_mac :: "mac option"

definition empty_params :: find_params where
  "empty_params = \<lparr>fp_client_id = [], fp_ip = ZeroAddr, fp_subnet = zero_prefix, fp_mac = None\<rparr>"

text \<open>
  The validation functions of module \<^verbatim>\<open>golibs\<close>, in the order in which \<^verbatim>\<open>Set\<close> calls them.
\<close>

record id_validators =
  iv_ip :: "string \<Rightarrow> bool"
  iv_mac :: "string \<Rightarrow> bool"
  iv_prefix :: "string \<Rightarrow> bool"
  iv_label :: "string \<Rightarrow> bool"

text \<open>The outer \<^term>\<open>None\<close> is a panic: a string that is validated but not parsed.\<close>

definition fp_Set :: "id_validators \<Rightarrow> string \<Rightarrow> (string, find_params) result option" where
  "fp_Set iv i =
     (let p1 = (if iv_ip iv i then map_option (\<lambda>a. empty_params\<lparr>fp_ip := a\<rparr>) (parse_addr i)
                else Some empty_params);
          p2 = (if iv_mac iv i
                then Option.bind p1 (\<lambda>p. map_option (\<lambda>m. p\<lparr>fp_mac := Some m\<rparr>) (parse_mac i)) else p1)
      in if iv_ip iv i \<or> iv_mac iv i then map_option Inr p2
         else if iv_prefix iv i
         then map_option (\<lambda>s. Inr (empty_params\<lparr>fp_subnet := s\<rparr>)) (parse_prefix i)
         else if \<not> iv_label iv i then Some (Inl ''bad client identifier'')
         else Some (Inr (empty_params\<lparr>fp_client_id := i\<rparr>)))"

definition sg_findByIP :: "addr \<Rightarrow> storage \<Rightarrow> found option" where
  "sg_findByIP a s =
     (let r = findByIP a (sg_index s) in
      if r \<noteq> NotFound then Some r
      else case dh_mac (sg_dhcp s) a of
        None \<Rightarrow> Some NotFound
      | Some mac \<Rightarrow> findByMAC mac (sg_index s))"

text \<open>The first search among those whose parameter is set that finds something.\<close>

fun first_found :: "(bool \<times> (unit \<Rightarrow> found option)) list \<Rightarrow> found option" where
  "first_found [] = Some NotFound"
| "first_found ((isSet, search) # rest) =
     (if isSet then
        (case search () of
           None \<Rightarrow> None
         | Some NotFound \<Rightarrow> first_found rest
         | Some r \<Rightarrow> Some r)
      else first_found rest)"

definition sg_Find :: "find_params \<Rightarrow> storage \<Rightarrow> found option" where
  "sg_Find params s =
     first_found
       [(fp_client_id params \<noteq> [], \<lambda>_. Some (findByClientID (fp_client_id params) (sg_index s))),
        (fp_ip params \<noteq> ZeroAddr, \<lambda>_. sg_findByIP (fp_ip params) s),
        (fp_subnet params \<noteq> zero_prefix, \<lambda>_. Some (findByCIDR (fp_subnet params) (sg_index s))),
        (fp_mac params \<noteq> None, \<lambda>_. findByMAC (the (fp_mac params)) (sg_index s))]"

definition FindLoose :: "addr \<Rightarrow> string \<Rightarrow> storage \<Rightarrow> found option" where
  "FindLoose ip i s =
     (case idx_find i (sg_index s) of
        None \<Rightarrow> None
      | Some NotFound \<Rightarrow>
          (case dh_mac (sg_dhcp s) ip of
             Some mac \<Rightarrow> findByMAC mac (sg_index s)
           | None \<Rightarrow>
               Some (case findByIPWithoutZone ip (sg_index s) of None \<Rightarrow> NotFound | Some p \<Rightarrow> Found p))
      | Some r \<Rightarrow> Some r)"

definition CustomUpstreamConfig ::
  "(string list \<Rightarrow> string option) \<Rightarrow> string \<Rightarrow> addr \<Rightarrow> storage \<Rightarrow> (proxy_conf option \<times> storage) option" where
  "CustomUpstreamConfig parse_upstreams i a s =
     (case (let r = findByClientID i (sg_index s) in if r \<noteq> NotFound then Some r else sg_findByIP a s) of
        None \<Rightarrow> None
      | Some FoundNil \<Rightarrow> None
      | Some NotFound \<Rightarrow> Some (None, s)
      | Some (Found c) \<Rightarrow>
          map_option (\<lambda>(px, m). (px, s\<lparr>sg_upstreams := m\<rparr>))
            (customUpstreamConfig parse_upstreams (pc_uid c) (sg_upstreams s)))"

definition UpdateCommonUpstreamConfig :: "common_conf \<Rightarrow> instant \<Rightarrow> storage \<Rightarrow> storage" where
  "UpdateCommonUpstreamConfig conf now s =
     s\<lparr>sg_upstreams := updateCommonUpstreamConfig conf now (sg_upstreams s)\<rparr>"

section \<open>Filtering settings of a client\<close>

definition apply_client :: "persistent \<Rightarrow> settings \<Rightarrow> settings" where
  "apply_client c setts =
     (let s1 = (if pc_own_services c
                then setts\<lparr>st_blocked_services := blocked_services_Clone (pc_blocked_services c)\<rparr> else setts);
          s2 = s1\<lparr>st_client_name := pc_name c, st_client_tags := pc_tags c\<rparr>
      in if \<not> pc_own_settings c then s2
         else s2\<lparr>st_filtering := pc_filtering c,
                 st_safesearch := ssc_enabled (pc_safe_search_conf c),
                 st_client_safesearch := pc_safe_search c,
                 st_safebrowsing := pc_safebrowsing c,
                 st_parental := pc_parental c\<rparr>)"

text \<open>\<^term>\<open>None\<close> is a panic: a hardware address of unknown length or a nil client.\<close>

definition ApplyClientFiltering :: "storage \<Rightarrow> string \<Rightarrow> addr \<Rightarrow> settings \<Rightarrow> settings option" where
  "ApplyClientFiltering s i a setts =
     (case (let r = findByClientID i (sg_index s) in if r \<noteq> NotFound then Some r else sg_findByIP a s) of
        None \<Rightarrow> None
      | Some FoundNil \<Rightarrow> None
      | Some NotFound \<Rightarrow> Some setts
      | Some (Found c) \<Rightarrow> Some (apply_client c setts))"

section \<open>The abstract storage\<close>

text \<open>
  The contract: a map from identifiers to clients.  A client may be stored when no other client has
  its name or one of its identifiers.
\<close>

definition shares_id :: "persistent \<Rightarrow> persistent \<Rightarrow> bool" where
  "shares_id c d \<longleftrightarrow>
     pc_name c = pc_name d \<or> set (pc_client_ids c) \<inter> set (pc_client_ids d) \<noteq> {} \<or>
     set (pc_ips c) \<inter> set (pc_ips d) \<noteq> {} \<or> set (pc_subnets c) \<inter> set (pc_subnets d) \<noteq> {} \<or>
     set (pc_macs c) \<inter> set (pc_macs d) \<noteq> {}"

definition may_store :: "persistent \<Rightarrow> (uid \<rightharpoonup> persistent) \<Rightarrow> bool" where
  "may_store p clients \<longleftrightarrow> (\<forall>u c. clients u = Some c \<and> u \<noteq> pc_uid p \<longrightarrow> \<not> shares_id c p)"

abbreviation sg_clients :: "storage \<Rightarrow> (uid \<rightharpoonup> persistent)" where
  "sg_clients s \<equiv> ci_get (sg_index s)"

text \<open>The identifiers of stored clients point to them, and each has its own upstream configuration with
  its current upstreams.\<close>

definition um_in_sync :: "(uid \<rightharpoonup> persistent) \<Rightarrow> upstream_manager \<Rightarrow> bool" where
  "um_in_sync clients m \<longleftrightarrow>
     gm_wf (um_confs m) \<and>
     (\<forall>u. map_option (\<lambda>cc. (cu_upstreams cc, cu_cache_size cc, cu_cache_enabled cc)) (gm_get (um_confs m) u) =
          map_option (\<lambda>c. (pc_upstreams c, pc_cache_size c, pc_cache_enabled c)) (clients u))"

definition sg_inv :: "storage \<Rightarrow> bool" where
  "sg_inv s \<longleftrightarrow> idx_inv (sg_index s) \<and> um_in_sync (sg_clients s) (sg_upstreams s)"

lemma sg_inv_empty: "sg_inv (empty_storage dhcp arp rd)"
  using idx_inv_new by (simp add: sg_inv_def empty_storage_def newUpstreamManager_def um_in_sync_def newIndex_def)

lemma consistent_free:
  assumes "consistent ids get clients"
  shows "(\<forall>k \<in> set ks. free_for u (get k)) \<longleftrightarrow>
    (\<forall>v c. clients v = Some c \<and> v \<noteq> u \<longrightarrow> set (ids c) \<inter> set ks = {})"
proof -
  have con: "get k = Some v \<longleftrightarrow> (\<exists>c. clients v = Some c \<and> k \<in> set (ids c))" for k v
    using assms by (simp add: consistent_def)
  show ?thesis
  proof
    assume free: "\<forall>k \<in> set ks. free_for u (get k)"
    show "\<forall>v c. clients v = Some c \<and> v \<noteq> u \<longrightarrow> set (ids c) \<inter> set ks = {}"
    proof (intro allI impI)
      fix v c
      assume c: "clients v = Some c \<and> v \<noteq> u"
      have "k \<notin> set (ids c)" if "k \<in> set ks" for k
        using free that con [of k v] c by fastforce
      then show "set (ids c) \<inter> set ks = {}" by blast
    qed
  next
    assume dis: "\<forall>v c. clients v = Some c \<and> v \<noteq> u \<longrightarrow> set (ids c) \<inter> set ks = {}"
    show "\<forall>k \<in> set ks. free_for u (get k)"
    proof
      fix k
      assume k: "k \<in> set ks"
      show "free_for u (get k)"
      proof (cases "get k")
        case (Some v)
        then obtain c where "clients v = Some c" "k \<in> set (ids c)" using con by blast
        with dis k Some show ?thesis by blast
      qed simp
    qed
  qed
qed

lemma owners_may_store:
  assumes "idx_inv ci"
  shows "owners (free_for (pc_uid p)) p ci \<longleftrightarrow> may_store p (ci_get ci)"
proof -
  note con = idx_invD(5-9) [OF assms]
  have name: "free_for (pc_uid p) (ci_names ci (pc_name p)) \<longleftrightarrow>
      (\<forall>v c. ci_get ci v = Some c \<and> v \<noteq> pc_uid p \<longrightarrow> pc_name c \<noteq> pc_name p)"
    using consistent_free [OF con(1), of "[pc_name p]" "pc_uid p"] by simp metis
  show ?thesis
    unfolding owners_def may_store_def shares_id_def name
      consistent_free [OF con(2)] consistent_free [OF con(3)] consistent_free [OF con(4)]
      consistent_free [OF con(5)]
    by blast
qed

lemma um_in_syncD:
  assumes "um_in_sync clients m" "clients u = Some c"
  shows "\<exists>k. gm_get (um_confs m) u = Some k \<and> cu_upstreams k = pc_upstreams c \<and>
    cu_cache_size k = pc_cache_size c \<and> cu_cache_enabled k = pc_cache_enabled c"
proof -
  have "map_option (\<lambda>cc. (cu_upstreams cc, cu_cache_size cc, cu_cache_enabled cc)) (gm_get (um_confs m) u) =
      map_option (\<lambda>c. (pc_upstreams c, pc_cache_size c, pc_cache_enabled c)) (clients u)"
    using assms(1) unfolding um_in_sync_def by blast
  with assms(2) show ?thesis by (cases "gm_get (um_confs m) u") simp_all
qed

lemma um_in_sync_put:
  "um_in_sync clients m \<Longrightarrow> pc_uid p = u \<Longrightarrow> um_in_sync (clients(u \<mapsto> p)) (updateCustomUpstreamConfig p m)"
  by (auto simp: um_in_sync_def updateCustomUpstreamConfig_def Let_def)

lemma um_in_sync_remove: "um_in_sync clients m \<Longrightarrow> um_in_sync (clients(u := None)) (um_remove u m)"
  by (simp add: um_in_sync_def um_remove_def)

lemma pc_validate_frame:
  assumes "pc_validate parse tags p = Inr q"
  shows "q = p\<lparr>pc_tags := sort (pc_tags p)\<rparr>" "pc_uid p \<noteq> 0"
  using assms by (auto simp: pc_validate_def split: if_splits option.splits)

lemma may_store_cong:
  "pc_uid q = pc_uid p \<Longrightarrow> pc_name q = pc_name p \<Longrightarrow> pc_client_ids q = pc_client_ids p \<Longrightarrow> pc_ips q = pc_ips p \<Longrightarrow>
   pc_subnets q = pc_subnets p \<Longrightarrow> pc_macs q = pc_macs p \<Longrightarrow> may_store q clients = may_store p clients"
  by (simp add: may_store_def shares_id_def)

lemma owners_mono: "owners P c ci \<Longrightarrow> (\<And>u. P u \<Longrightarrow> Q u) \<Longrightarrow> owners Q c ci"
  by (simp add: owners_def)

lemma owners_not_stored:
  assumes inv: "idx_inv ci" and "owners (free_for u) c ci" "ci_get ci u = None"
  shows "owners (\<lambda>w. w = None) c ci"
proof -
  have no: "get k \<noteq> Some u" if "consistent ids get (ci_get ci)" for ids :: "persistent \<Rightarrow> 'k list" and get k
    using consistent_owner [OF that, of k u] assms(3) by fastforce
  note con = idx_invD(5-9) [OF inv]
  show ?thesis
    using assms(2) no [OF con(1)] no [OF con(2)] no [OF con(3)] no [OF con(4)] no [OF con(5)]
    unfolding owners_def by blast
qed

text \<open>Storing and deleting in the abstract storage.\<close>

abbreviation stored :: "persistent \<Rightarrow> client_index \<Rightarrow> storage \<Rightarrow> storage" where
  "stored q ci s \<equiv> s\<lparr>sg_index := ci, sg_upstreams := updateCustomUpstreamConfig q (sg_upstreams s)\<rparr>"

lemma sg_Add_ok:
  assumes inv: "sg_inv s" and macs: "macs_ok p" and "pc_validate parse (sg_tags s) p = Inr q"
    and "sg_clients s (pc_uid p) = None" "may_store p (sg_clients s)"
  shows "\<exists>ci. let s' = stored q ci s in
    sg_Add parse p s = Some (Inr s') \<and> sg_inv s' \<and> sg_clients s' = (sg_clients s)(pc_uid p \<mapsto> q)"
proof -
  have q: "q = p\<lparr>pc_tags := sort (pc_tags p)\<rparr>" "pc_uid p \<noteq> 0" using pc_validate_frame assms(3) by blast+
  have idx: "idx_inv (sg_index s)" using inv by (simp add: sg_inv_def)
  have store: "may_store q (sg_clients s)" using assms(5) may_store_cong [of q p] by (simp add: q)
  have qm: "macs_ok q" using macs by (simp add: q macs_ok_def)
  have own: "owners (free_for (pc_uid q)) q (sg_index s)" using owners_may_store [OF idx] store by blast
  then have nc: "idx_clashes q (sg_index s) = Some None" using idx_clashes_spec [OF idx qm] by blast
  have "owners (\<lambda>w. w = None) q (sg_index s)"
    using owners_not_stored [OF idx own] assms(4) by (simp add: q)
  then obtain ci where ci: "idx_add q (sg_index s) = Some ci" "idx_inv ci"
    "ci_get ci = (sg_clients s)(pc_uid q \<mapsto> q)"
    using idx_add_inv [OF idx _ qm] assms(4) q by auto
  have "\<not> clashesUID q (sg_index s)" using assms(4) by (simp add: clashesUID_def q)
  then have "sg_Add parse p s = Some (Inr (stored q ci s))"
    using assms(3) nc ci(1) by (simp add: sg_Add_def)
  moreover have "um_in_sync (ci_get ci) (updateCustomUpstreamConfig q (sg_upstreams s))"
    using um_in_sync_put [of "sg_clients s"] inv unfolding ci(3) sg_inv_def by blast
  ultimately show ?thesis using ci by (auto simp: sg_inv_def q)
qed

lemma sg_Add_fails:
  assumes inv: "sg_inv s" and macs: "macs_ok p"
    and "(\<forall>q. pc_validate parse (sg_tags s) p \<noteq> Inr q) \<or> sg_clients s (pc_uid p) \<noteq> None \<or>
         \<not> may_store p (sg_clients s)"
  shows "\<exists>e. sg_Add parse p s = Some (Inl e)"
proof (cases "pc_validate parse (sg_tags s) p")
  case (Inl e)
  then show ?thesis by (simp add: sg_Add_def)
next
  case (Inr q)
  have q: "q = p\<lparr>pc_tags := sort (pc_tags p)\<rparr>" using pc_validate_frame Inr by blast
  have idx: "idx_inv (sg_index s)" using inv by (simp add: sg_inv_def)
  have qm: "macs_ok q" using macs by (simp add: q macs_ok_def)
  show ?thesis
  proof (cases "clashesUID q (sg_index s)")
    case True
    with Inr show ?thesis by (simp add: sg_Add_def)
  next
    case False
    then have "\<not> may_store q (sg_clients s)"
      using assms(3) Inr may_store_cong [of q p] by (auto simp: clashesUID_def q)
    then have "idx_clashes q (sg_index s) \<noteq> Some None"
      using idx_clashes_spec [OF idx qm] owners_may_store [OF idx] by blast
    then obtain cl where "idx_clashes q (sg_index s) = Some (Some cl)"
      using idx_clashes_spec [OF idx qm] by (metis option.exhaust)
    with False Inr show ?thesis by (simp add: sg_Add_def)
  qed
qed

text \<open>C7: Adding a client implements the abstract storage: it succeeds exactly when the client is valid,
  its unique identifier is new and no stored client shares its name or an identifier; then the client is
  stored and nothing else changes, and the indexes stay consistent; otherwise an error is returned.
  It never panics.\<close>

theorem storage_add_refines:
  assumes "sg_inv s" "macs_ok p"
  shows "case pc_validate parse (sg_tags s) p of
     Inr q \<Rightarrow>
       if sg_clients s (pc_uid p) = None \<and> may_store p (sg_clients s)
       then \<exists>s'. sg_Add parse p s = Some (Inr s') \<and> sg_inv s' \<and>
              sg_clients s' = (sg_clients s)(pc_uid p \<mapsto> q)
       else \<exists>e. sg_Add parse p s = Some (Inl e)
   | Inl e \<Rightarrow> sg_Add parse p s = Some (Inl (SEClient e))"
proof (cases "pc_validate parse (sg_tags s) p")
  case (Inl e)
  then show ?thesis by (simp add: sg_Add_def)
next
  case (Inr q)
  then show ?thesis using sg_Add_ok [OF assms Inr] sg_Add_fails [OF assms] by (auto simp: Let_def)
qed

lemma consistent_unique:
  assumes "consistent ids get clients" "clients u = Some c" "clients v = Some d" "k \<in> set (ids c)" "k \<in> set (ids d)"
  shows "u = v"
proof -
  have "get k = Some u" "get k = Some v" using assms unfolding consistent_def by blast+
  then show ?thesis by simp
qed

lemma findByName_stored:
  assumes "idx_inv ci"
  shows "case findByName n ci of
      Found c \<Rightarrow> ci_get ci (pc_uid c) = Some c \<and> pc_name c = n
    | NotFound \<Rightarrow> \<forall>u c. ci_get ci u = Some c \<longrightarrow> pc_name c \<noteq> n
    | FoundNil \<Rightarrow> False"
proof (cases "ci_names ci n")
  case None
  then have "\<forall>u c. ci_get ci u = Some c \<longrightarrow> pc_name c \<noteq> n"
    using idx_invD(5) [OF assms] unfolding consistent_def by (metis list.set_intros(1) option.discI)
  with None show ?thesis by (simp add: findByName_def client_of_def)
next
  case (Some u)
  from client_of_inv [OF idx_invD(5) [OF assms] Some] idx_invD(4) [OF assms] Some show ?thesis
    by (auto simp: findByName_def)
qed

lemma removed_owners:
  assumes "owners (free_for u) p ci"
    and "\<forall>n. ci_names ci' n = (if ci_names ci n = Some u then None else ci_names ci n)"
    and "\<forall>i. ci_client_ids ci' i = (if ci_client_ids ci i = Some u then None else ci_client_ids ci i)"
    and "\<forall>a. gm_get (ci_ips ci') a = (if gm_get (ci_ips ci) a = Some u then None else gm_get (ci_ips ci) a)"
    and "\<forall>m. ci_macs ci' m = (if ci_macs ci m = Some u then None else ci_macs ci m)"
    and "\<forall>p. sm_get (ci_subnets ci') p =
       (if sm_get (ci_subnets ci) p = Some u then None else sm_get (ci_subnets ci) p)"
  shows "owners (\<lambda>w. w = None) p ci'"
proof -
  have drop: "\<forall>k \<in> K. g' k = None"
    if "\<forall>k \<in> K. free_for u (g k)" "\<forall>k. g' k = (if g k = Some u then None else g k)"
    for K :: "'k set" and g g' :: "'k \<Rightarrow> uid option"
    using that by auto
  from assms(1) have own: "\<forall>n \<in> {pc_name p}. free_for u (ci_names ci n)"
    "\<forall>i \<in> set (pc_client_ids p). free_for u (ci_client_ids ci i)"
    "\<forall>a \<in> set (pc_ips p). free_for u (gm_get (ci_ips ci) a)"
    "\<forall>m \<in> set (pc_macs p). free_for u (ci_macs ci m)"
    "\<forall>q \<in> set (pc_subnets p). free_for u (sm_get (ci_subnets ci) q)"
    unfolding owners_def by simp_all
  show ?thesis
    using drop [OF own(1) assms(2)] drop [OF own(2) assms(3)] drop [OF own(3) assms(4)]
      drop [OF own(4) assms(5)] drop [OF own(5) assms(6)]
    unfolding owners_def by blast
qed

lemma sg_Update_ok:
  assumes inv: "sg_inv s" and macs: "macs_ok p" and val: "pc_validate parse (sg_tags s) p = Inr q"
    and found: "findByName name (sg_index s) = Found st" and store: "may_store (p\<lparr>pc_uid := pc_uid st\<rparr>) (sg_clients s)"
  shows "\<exists>ci. let s' = stored (q\<lparr>pc_uid := pc_uid st\<rparr>) ci s in
    sg_Update parse name p s = Some (Inr s') \<and> sg_inv s' \<and> sg_clients s' = (sg_clients s)(pc_uid st \<mapsto> q\<lparr>pc_uid := pc_uid st\<rparr>)"
proof -
  let ?q = "q\<lparr>pc_uid := pc_uid st\<rparr>"
  have q: "q = p\<lparr>pc_tags := sort (pc_tags p)\<rparr>" using pc_validate_frame val by blast
  have idx: "idx_inv (sg_index s)" using inv by (simp add: sg_inv_def)
  have there: "sg_clients s (pc_uid st) = Some st" using findByName_stored [OF idx, of name] found by simp
  have nz: "pc_uid st \<noteq> 0" using idx_invD(4) [OF idx] there by blast
  have qm: "macs_ok ?q" using macs by (simp add: q macs_ok_def)
  have "may_store ?q (sg_clients s)" using store may_store_cong [of ?q "p\<lparr>pc_uid := pc_uid st\<rparr>"] by (simp add: q)
  then have own: "owners (free_for (pc_uid st)) ?q (sg_index s)" using owners_may_store [OF idx, of ?q] by simp
  then have nc: "idx_clashes ?q (sg_index s) = Some None" using idx_clashes_spec [OF idx qm] by simp
  obtain ci where ci: "idx_remove st (sg_index s) = Some ci" "idx_inv ci"
    "ci_get ci = (sg_clients s)(pc_uid st := None)" "owners (\<lambda>w. w = None) ?q ci"
    using idx_remove_inv [OF idx there] removed_owners [OF own] by blast
  obtain ci' where ci': "idx_add ?q ci = Some ci'" "idx_inv ci'" "ci_get ci' = (ci_get ci)(pc_uid st \<mapsto> ?q)"
    using idx_add_inv [OF ci(2) _ qm] ci(3,4) nz by auto
  have "sg_Update parse name p s = Some (Inr (stored ?q ci' s))"
    using val found nc ci(1) ci'(1) by (simp add: sg_Update_def)
  moreover have "um_in_sync (ci_get ci') (updateCustomUpstreamConfig ?q (sg_upstreams s))"
    using um_in_sync_put [of "sg_clients s" _ ?q] inv unfolding ci'(3) ci(3) sg_inv_def by simp
  ultimately show ?thesis using ci' ci(3) by (auto simp: sg_inv_def)
qed

lemma sg_Update_fails:
  assumes inv: "sg_inv s" and macs: "macs_ok p" and val: "pc_validate parse (sg_tags s) p = Inr q"
    and found: "findByName name (sg_index s) = Found st"
    and "\<not> may_store (p\<lparr>pc_uid := pc_uid st\<rparr>) (sg_clients s)"
  shows "\<exists>e. sg_Update parse name p s = Some (Inl e)"
proof -
  let ?q = "q\<lparr>pc_uid := pc_uid st\<rparr>"
  have q: "q = p\<lparr>pc_tags := sort (pc_tags p)\<rparr>" using pc_validate_frame val by blast
  have idx: "idx_inv (sg_index s)" using inv by (simp add: sg_inv_def)
  have qm: "macs_ok ?q" using macs by (simp add: q macs_ok_def)
  have "\<not> may_store ?q (sg_clients s)"
    using assms(5) may_store_cong [of ?q "p\<lparr>pc_uid := pc_uid st\<rparr>"] by (simp add: q)
  then have "idx_clashes ?q (sg_index s) \<noteq> Some None"
    using idx_clashes_spec [OF idx qm] owners_may_store [OF idx, of ?q] by blast
  then obtain cl where "idx_clashes ?q (sg_index s) = Some (Some cl)"
    using idx_clashes_spec [OF idx qm] by (metis option.exhaust)
  with val found show ?thesis by (simp add: sg_Update_def)
qed

text \<open>C8: Updating a client implements the abstract storage: an invalid client and an unknown name are
  errors; otherwise the new client takes the place and the unique identifier of the old one exactly when no
  other stored client shares its name or an identifier, and nothing else changes.  It never panics.\<close>

theorem storage_update_refines:
  assumes "sg_inv s" "macs_ok p"
  shows "case (pc_validate parse (sg_tags s) p, findByName name (sg_index s)) of
     (Inl e, _) \<Rightarrow> sg_Update parse name p s = Some (Inl (SEClient e))
   | (Inr q, NotFound) \<Rightarrow> sg_Update parse name p s = Some (Inl (SENotFound name)) \<and>
       (\<forall>u c. sg_clients s u = Some c \<longrightarrow> pc_name c \<noteq> name)
   | (Inr q, FoundNil) \<Rightarrow> False
   | (Inr q, Found old) \<Rightarrow> sg_clients s (pc_uid old) = Some old \<and> pc_name old = name \<and>
       (if may_store (p\<lparr>pc_uid := pc_uid old\<rparr>) (sg_clients s)
        then \<exists>s'. sg_Update parse name p s = Some (Inr s') \<and> sg_inv s' \<and>
               sg_clients s' = (sg_clients s)(pc_uid old \<mapsto> q\<lparr>pc_uid := pc_uid old\<rparr>)
        else \<exists>e. sg_Update parse name p s = Some (Inl e))"
proof (cases "pc_validate parse (sg_tags s) p")
  case (Inl e)
  then show ?thesis by (simp add: sg_Update_def)
next
  case (Inr q)
  have idx: "idx_inv (sg_index s)" using assms by (simp add: sg_inv_def)
  show ?thesis
  proof (cases "findByName name (sg_index s)")
    case NotFound
    with Inr findByName_stored [OF idx, of name] show ?thesis by (simp add: sg_Update_def)
  next
    case FoundNil
    with findByName_stored [OF idx, of name] show ?thesis by simp
  next
    case (Found old)
    then show ?thesis
      using Inr findByName_stored [OF idx, of name] sg_Update_ok [OF assms Inr Found]
        sg_Update_fails [OF assms Inr Found]
      by (auto simp: Let_def)
  qed
qed

lemma RemoveByName_ok:
  assumes inv: "sg_inv s" and found: "findByName name (sg_index s) = Found st"
  shows "\<exists>s'. RemoveByName name s = Some (True, s') \<and> sg_inv s' \<and> sg_clients s' = (sg_clients s)(pc_uid st := None) \<and>
    sg_upstreams s' = um_remove (pc_uid st) (sg_upstreams s) \<and> sg_runtime s' = sg_runtime s"
proof -
  have idx: "idx_inv (sg_index s)" using inv by (simp add: sg_inv_def)
  have there: "sg_clients s (pc_uid st) = Some st" using findByName_stored [OF idx, of name] found by simp
  obtain ci where ci: "idx_remove st (sg_index s) = Some ci" "idx_inv ci"
    "ci_get ci = (sg_clients s)(pc_uid st := None)"
    using idx_remove_inv [OF idx there] by blast
  have "um_in_sync (ci_get ci) (um_remove (pc_uid st) (sg_upstreams s))"
    using inv um_in_sync_remove unfolding ci(3) sg_inv_def by blast
  with ci found show ?thesis by (simp add: RemoveByName_def sg_inv_def)
qed

text \<open>Removing a client by its name deletes exactly the client of that name, with all its
  identifiers and its upstream configuration, and changes nothing if there is none.  It never panics.\<close>

theorem storage_remove_refines:
  assumes "sg_inv s"
  shows "\<exists>ok s'. RemoveByName name s = Some (ok, s') \<and> sg_inv s' \<and>
    sg_clients s' = (\<lambda>u. case sg_clients s u of
        Some c \<Rightarrow> if pc_name c = name then None else Some c | None \<Rightarrow> None) \<and>
    (ok \<longleftrightarrow> (\<exists>u c. sg_clients s u = Some c \<and> pc_name c = name))"
proof -
  have idx: "idx_inv (sg_index s)" using assms by (simp add: sg_inv_def)
  show ?thesis
  proof (cases "findByName name (sg_index s)")
    case NotFound
    then have "\<forall>u c. sg_clients s u = Some c \<longrightarrow> pc_name c \<noteq> name"
      using findByName_stored [OF idx, of name] by simp
    then show ?thesis using NotFound assms by (auto simp: RemoveByName_def fun_eq_iff split: option.split)
  next
    case FoundNil
    with findByName_stored [OF idx, of name] show ?thesis by simp
  next
    case (Found st)
    with findByName_stored [OF idx, of name] have st: "sg_clients s (pc_uid st) = Some st" "pc_name st = name"
      by simp_all
    have only: "u = pc_uid st" if "sg_clients s u = Some c" "pc_name c = name" for u c
      using consistent_unique [OF idx_invD(5) [OF idx] that(1) st(1)] that(2) st(2) by simp
    have "((sg_clients s)(pc_uid st := None)) u = (case sg_clients s u of
        Some c \<Rightarrow> if pc_name c = name then None else Some c | None \<Rightarrow> None)" for u
    proof (cases "sg_clients s u")
      case (Some c)
      show ?thesis
      proof (cases "u = pc_uid st")
        case False
        then have "pc_name c \<noteq> name" using only [OF Some] by blast
        with False Some show ?thesis by simp
      qed (simp add: st)
    qed simp
    then have "(sg_clients s)(pc_uid st := None) = (\<lambda>u. case sg_clients s u of
        Some c \<Rightarrow> if pc_name c = name then None else Some c | None \<Rightarrow> None)"
      by (rule ext)
    with RemoveByName_ok [OF assms Found] obtain s' where s': "RemoveByName name s = Some (True, s')" "sg_inv s'"
      "sg_clients s' = (\<lambda>u. case sg_clients s u of
        Some c \<Rightarrow> if pc_name c = name then None else Some c | None \<Rightarrow> None)"
      by metis
    have "\<exists>u c. sg_clients s u = Some c \<and> pc_name c = name" using st by blast
    with s' show ?thesis by (intro exI [of _ True] exI [of _ s'] conjI) simp_all
  qed
qed

section \<open>Lookups\<close>

text \<open>The result of a search for a stored client with the property \<open>P\<close>.\<close>

definition finds :: "(uid \<rightharpoonup> persistent) \<Rightarrow> (persistent \<Rightarrow> bool) \<Rightarrow> found \<Rightarrow> bool" where
  "finds clients P r \<longleftrightarrow>
     (case r of
        Found c \<Rightarrow> clients (pc_uid c) = Some c \<and> P c
      | NotFound \<Rightarrow> \<forall>u c. clients u = Some c \<longrightarrow> \<not> P c
      | FoundNil \<Rightarrow> False)"

lemma client_of_finds:
  assumes "idx_inv ci" "consistent ids get (ci_get ci)"
  shows "finds (ci_get ci) (\<lambda>c. k \<in> set (ids c)) (client_of (get k) ci)"
proof (cases "get k")
  case None
  then have "\<forall>u c. ci_get ci u = Some c \<longrightarrow> k \<notin> set (ids c)"
    using assms(2) unfolding consistent_def by (metis option.discI)
  with None show ?thesis by (simp add: finds_def client_of_def)
next
  case (Some u)
  from client_of_inv [OF assms(2) Some] idx_invD(4) [OF assms(1)] Some show ?thesis by (auto simp: finds_def)
qed

lemma finds_ClientID: "idx_inv ci \<Longrightarrow> finds (ci_get ci) (\<lambda>c. i \<in> set (pc_client_ids c)) (findByClientID i ci)"
  unfolding findByClientID_def by (rule client_of_finds) (simp_all add: idx_invD)

lemma finds_CIDR: "idx_inv ci \<Longrightarrow> finds (ci_get ci) (\<lambda>c. p \<in> set (pc_subnets c)) (findByCIDR p ci)"
  unfolding findByCIDR_def using client_of_finds [OF _ idx_invD(9), of ci p]
  by (simp add: first_subnet_exact idx_invD(3))

lemma finds_MAC:
  "idx_inv ci \<Longrightarrow> mac_ok m \<Longrightarrow> \<exists>r. findByMAC m ci = Some r \<and> finds (ci_get ci) (\<lambda>c. m \<in> set (pc_macs c)) r"
  unfolding findByMAC_def by (simp add: client_of_finds idx_invD(8))

abbreviation ip_in :: "addr \<Rightarrow> persistent \<Rightarrow> bool" where
  "ip_in a c \<equiv> a \<in> set (pc_ips c) \<or> (\<exists>p \<in> set (pc_subnets c). prefix_contains p (with_zone [] a))"

lemma finds_IP: "idx_inv ci \<Longrightarrow> finds (ci_get ci) (ip_in a) (findByIP a ci)"
  using findByIP_spec [of ci a] by (auto simp: finds_def split: found.splits)

lemma finds_or:
  assumes "finds clients P r" "r = NotFound \<Longrightarrow> finds clients Q r'"
  shows "finds clients (\<lambda>c. P c \<or> Q c) (if r \<noteq> NotFound then r else r')"
  using assms by (auto simp: finds_def split: found.splits)

definition dhcp_ok :: "storage \<Rightarrow> bool" where
  "dhcp_ok s \<longleftrightarrow> (\<forall>a m. dh_mac (sg_dhcp s) a = Some m \<longrightarrow> mac_ok m)"

text \<open>A client has an address itself, through a subnet, or through its lease.\<close>

definition has_ip :: "storage \<Rightarrow> addr \<Rightarrow> persistent \<Rightarrow> bool" where
  "has_ip s a c \<longleftrightarrow> ip_in a c \<or> (\<exists>m. dh_mac (sg_dhcp s) a = Some m \<and> m \<in> set (pc_macs c))"

lemma sg_findByIP_finds:
  assumes "idx_inv (sg_index s)" "dhcp_ok s"
  shows "\<exists>r. sg_findByIP a s = Some r \<and> finds (sg_clients s) (has_ip s a) r"
proof (cases "findByIP a (sg_index s) = NotFound")
  case False
  with finds_or [OF finds_IP [OF assms(1), of a], of "\<lambda>c. \<exists>m. dh_mac (sg_dhcp s) a = Some m \<and> m \<in> set (pc_macs c)"]
  show ?thesis by (simp add: sg_findByIP_def has_ip_def [abs_def])
next
  case nf: True
  then have no: "\<forall>u c. sg_clients s u = Some c \<longrightarrow> \<not> ip_in a c"
    using finds_IP [OF assms(1), of a] by (simp add: finds_def)
  show ?thesis
  proof (cases "dh_mac (sg_dhcp s) a")
    case None
    with nf no show ?thesis by (simp add: sg_findByIP_def finds_def has_ip_def)
  next
    case (Some m)
    then have "mac_ok m" using assms(2) by (simp add: dhcp_ok_def)
    with finds_MAC [OF assms(1)] obtain r where r: "findByMAC m (sg_index s) = Some r"
      "finds (sg_clients s) (\<lambda>c. m \<in> set (pc_macs c)) r" by blast
    have "finds (sg_clients s) (has_ip s a) r"
      using r(2) no Some by (cases r) (auto simp: finds_def has_ip_def)
    with nf Some r(1) show ?thesis by (simp add: sg_findByIP_def)
  qed
qed

lemma first_found_finds:
  assumes "list_all2 (\<lambda>(b, f) P. b \<longrightarrow> (\<exists>r. f () = Some r \<and> finds clients P r)) l Ps"
  shows "\<exists>r. first_found l = Some r \<and> finds clients (\<lambda>c. \<exists>(b, P) \<in> set (zip (map fst l) Ps). b \<and> P c) r"
  using assms
proof (induction rule: list_all2_induct)
  case (Cons x l P Ps)
  obtain b f where x: "x = (b, f)" by force
  obtain r' where r': "first_found l = Some r'"
    "finds clients (\<lambda>c. \<exists>(b, P) \<in> set (zip (map fst l) Ps). b \<and> P c) r'" using Cons by blast
  show ?case
  proof (cases b)
    case True
    then obtain r where r: "f () = Some r" "finds clients P r" using Cons(1) x by auto
    have "first_found (x # l) = Some (if r \<noteq> NotFound then r else r')"
      using True r(1) r'(1) by (cases r) (simp_all add: x)
    then show ?thesis using finds_or [OF r(2), of _ r'] r'(2) True by (simp add: x)
  qed (use r' x in simp)
qed (simp add: finds_def)

definition matches :: "storage \<Rightarrow> find_params \<Rightarrow> persistent \<Rightarrow> bool" where
  "matches s params c \<longleftrightarrow>
     fp_client_id params \<noteq> [] \<and> fp_client_id params \<in> set (pc_client_ids c) \<or>
     fp_ip params \<noteq> ZeroAddr \<and> has_ip s (fp_ip params) c \<or>
     fp_subnet params \<noteq> zero_prefix \<and> fp_subnet params \<in> set (pc_subnets c) \<or>
     (\<exists>m. fp_mac params = Some m \<and> m \<in> set (pc_macs c))"

text \<open>C9: A search with any combination of parameters returns, without panicking, a stored client that
  matches one of them, and nothing only if no stored client matches any; a client with the given
  ClientID is preferred to all others.\<close>

theorem storage_find_spec:
  assumes "sg_inv s" "dhcp_ok s" "case fp_mac params of None \<Rightarrow> True | Some m \<Rightarrow> mac_ok m"
  shows "\<exists>r. sg_Find params s = Some r \<and> finds (sg_clients s) (matches s params) r \<and>
    (\<forall>u c. sg_clients s u = Some c \<and> fp_client_id params \<noteq> [] \<and>
       fp_client_id params \<in> set (pc_client_ids c) \<longrightarrow> r = Found c)"
proof -
  have idx: "idx_inv (sg_index s)" using assms(1) by (simp add: sg_inv_def)
  let ?Ps = "[\<lambda>c. fp_client_id params \<in> set (pc_client_ids c), has_ip s (fp_ip params),
    \<lambda>c. fp_subnet params \<in> set (pc_subnets c), \<lambda>c. the (fp_mac params) \<in> set (pc_macs c)]"
  let ?l = "[(fp_client_id params \<noteq> [], \<lambda>_ :: unit. Some (findByClientID (fp_client_id params) (sg_index s))),
        (fp_ip params \<noteq> ZeroAddr, \<lambda>_. sg_findByIP (fp_ip params) s),
        (fp_subnet params \<noteq> zero_prefix, \<lambda>_. Some (findByCIDR (fp_subnet params) (sg_index s))),
        (fp_mac params \<noteq> None, \<lambda>_. findByMAC (the (fp_mac params)) (sg_index s))]"
  have "fp_mac params \<noteq> None \<longrightarrow> (\<exists>r. findByMAC (the (fp_mac params)) (sg_index s) = Some r \<and>
      finds (sg_clients s) (\<lambda>c. the (fp_mac params) \<in> set (pc_macs c)) r)"
    using assms(3) finds_MAC [OF idx] by (cases "fp_mac params") simp_all
  then have "list_all2 (\<lambda>(b, f) P. b \<longrightarrow> (\<exists>r. f () = Some r \<and> finds (sg_clients s) P r)) ?l ?Ps"
    using finds_ClientID [OF idx] finds_CIDR [OF idx] sg_findByIP_finds [OF idx assms(2)] by simp
  from first_found_finds [OF this]
  have "\<exists>r. sg_Find params s = Some r \<and>
      finds (sg_clients s) (\<lambda>c. \<exists>(b, P) \<in> set (zip (map fst ?l) ?Ps). b \<and> P c) r"
    unfolding sg_Find_def .
  moreover have "(\<lambda>c. \<exists>(b, P) \<in> set (zip (map fst ?l) ?Ps). b \<and> P c) = matches s params"
    by (rule ext) (cases "fp_mac params"; simp add: matches_def)
  ultimately have "\<exists>r. sg_Find params s = Some r \<and> finds (sg_clients s) (matches s params) r" by (simp only:)
  moreover have "sg_Find params s = Some (Found c)"
    if "sg_clients s u = Some c" "fp_client_id params \<noteq> []" "fp_client_id params \<in> set (pc_client_ids c)" for u c
  proof -
    have "ci_client_ids (sg_index s) (fp_client_id params) = Some u"
      using idx_invD(6) [OF idx] that unfolding consistent_def by blast
    with that show ?thesis by (simp add: sg_Find_def findByClientID_def client_of_def)
  qed
  ultimately show ?thesis by fastforce
qed

section \<open>Instances\<close>

definition sample_client :: persistent where
  "sample_client = \<lparr>pc_safe_search = None, pc_blocked_services = None, pc_name = ''laptop'', pc_tags = [],
     pc_upstreams = [''1.1.1.1''], pc_ips = [Addr4 1], pc_subnets = [], pc_macs = [], pc_client_ids = [''lap''],
     pc_uid = 1, pc_cache_size = 0, pc_cache_enabled = False, pc_own_settings = False, pc_filtering = False,
     pc_safebrowsing = False, pc_parental = False, pc_own_services = False, pc_ignore_querylog = False,
     pc_ignore_stats = False, pc_safe_search_conf =
     \<lparr>ssc_enabled = False, ssc_bing = False, ssc_duckduckgo = False, ssc_ecosia = False, ssc_google = False,
      ssc_pixabay = False, ssc_yandex = False, ssc_youtube = False\<rparr>\<rparr>"

definition sample_storage :: storage where
  "sample_storage = empty_storage EmptyDHCP ArpNone False"

lemma sample_client_ok: "macs_ok sample_client" "pc_uid sample_client = 1"
  "pc_validate (\<lambda>_. None) tags sample_client = Inr sample_client"
  by (simp_all add: sample_client_def macs_ok_def pc_validate_def identifiersLen_def)

lemma sample_storage_ok: "sg_inv sample_storage" "dhcp_ok sample_storage" "sg_clients sample_storage u = None"
  "may_store p (sg_clients sample_storage)"
  using sg_inv_empty
  by (simp_all add: sample_storage_def dhcp_ok_def EmptyDHCP_def empty_storage_def newIndex_def may_store_def)

lemma sample_add:
  "\<exists>s. sg_Add (\<lambda>_. None) sample_client sample_storage = Some (Inr s) \<and> sg_inv s \<and>
     sg_clients s 1 = Some sample_client"
  using sg_Add_ok [OF sample_storage_ok(1) sample_client_ok(1,3) sample_storage_ok(3,4)]
  by (auto simp: sample_client_ok Let_def)

theorem storage_add_witness:
  "\<exists>s. sg_Add (\<lambda>_. None) sample_client sample_storage = Some (Inr s) \<and> sg_clients s 1 = Some sample_client"
  using storage_add_refines [OF sample_storage_ok(1) sample_client_ok(1), of "\<lambda>_. None"]
  by (auto simp: sample_client_ok sample_storage_ok)

theorem storage_update_witness:
  "sg_Update (\<lambda>_. None) ''tv'' sample_client sample_storage = Some (Inl (SENotFound ''tv''))"
proof -
  have "findByName ''tv'' (sg_index sample_storage) = NotFound"
    by (simp add: sample_storage_def empty_storage_def newIndex_def findByName_def client_of_def)
  with storage_update_refines [OF sample_storage_ok(1) sample_client_ok(1), of "\<lambda>_. None" "''tv''"] show ?thesis
    by (simp add: sample_client_ok)
qed

theorem storage_remove_witness:
  "\<exists>s. sg_clients s 1 = Some sample_client \<and>
     (\<exists>s'. RemoveByName ''laptop'' s = Some (True, s') \<and> sg_clients s' 1 = None)"
proof -
  obtain s where s: "sg_inv s" "sg_clients s 1 = Some sample_client" using sample_add by blast
  have "pc_name sample_client = ''laptop''" by (simp add: sample_client_def)
  with s(2) storage_remove_refines [OF s(1), of "''laptop''"] show ?thesis by fastforce
qed

theorem storage_find_witness:
  "\<exists>s. sg_clients s 1 = Some sample_client \<and>
     sg_Find (empty_params\<lparr>fp_client_id := ''lap''\<rparr>) s = Some (Found sample_client)"
proof -
  obtain s where s: "sg_Add (\<lambda>_. None) sample_client sample_storage = Some (Inr s)" "sg_inv s"
    "sg_clients s 1 = Some sample_client" using sample_add by blast
  have "sg_dhcp s = sg_dhcp sample_storage"
    using s(1) by (auto simp: sg_Add_def split: sum.splits if_splits option.splits)
  then have "dhcp_ok s" using sample_storage_ok(2) by (simp add: dhcp_ok_def)
  moreover have "''lap'' \<in> set (pc_client_ids sample_client)" by (simp add: sample_client_def)
  ultimately show ?thesis
    using s(2,3) storage_find_spec [of s "empty_params\<lparr>fp_client_id := ''lap''\<rparr>"] by (fastforce simp: empty_params_def)
qed

end
