(* ===== verification/ClientSteps.thy ===== *)
theory ClientSteps
  imports ClientStorage
begin

text \<open>
  The storage of clients as a transition system.  Each exported operation of \<^verbatim>\<open>Storage\<close> that
  changes its state is a step, since all of them run under its mutex; the invariant of the storage holds in
  every state that they can reach from an empty storage.

  On top of it, the custom upstream configurations: the one returned for a client is always built from
  the current upstreams of the client and the current common settings.
\<close>

section \<open>Steps\<close>

text \<open>
  The clients passed to \<^verbatim>\<open>Add\<close> and \<^verbatim>\<open>Update\<close> have hardware addresses that the standard parser
  accepts, and the clock advances between two updates of the common settings.
\<close>

inductive storage_step :: "(string list \<Rightarrow> string option) \<Rightarrow> storage \<Rightarrow> storage \<Rightarrow> bool" for parse where
  step_add: "macs_ok p \<Longrightarrow> sg_Add parse p s = Some (Inr s') \<Longrightarrow> storage_step parse s s'"
| step_update: "macs_ok p \<Longrightarrow> sg_Update parse name p s = Some (Inr s') \<Longrightarrow> storage_step parse s s'"
| step_remove: "RemoveByName name s = Some (ok, s') \<Longrightarrow> storage_step parse s s'"
| step_arp: "storage_step parse s (ReloadARP report s)"
| step_hosts: "addFromHostsFile hosts s = Some s' \<Longrightarrow> storage_step parse s s'"
| step_dhcp: "storage_step parse s (UpdateDHCP s)"
| step_address: "storage_step parse s (UpdateAddress ip host info s)"
| step_runtime: "ClientRuntime ip s = (rc, s') \<Longrightarrow> storage_step parse s s'"
| step_custom: "CustomUpstreamConfig parse i a s = Some (px, s') \<Longrightarrow> storage_step parse s s'"
| step_common: "um_update (sg_upstreams s) < now \<Longrightarrow>
    storage_step parse s (UpdateCommonUpstreamConfig conf now s)"

text \<open>A configuration that is not marked as changed is the one that would be built now.\<close>

definition um_fresh :: "(string list \<Rightarrow> string option) \<Rightarrow> upstream_manager \<Rightarrow> bool" where
  "um_fresh parse m \<longleftrightarrow>
     (\<forall>u cc. gm_get (um_confs m) u = Some cc \<longrightarrow>
        cu_common_update cc \<le> um_update m \<and>
        (\<not> isConfigChanged m cc \<longrightarrow>
           newCustomUpstreamConfig parse cc (um_common m) = Some (cu_proxy cc)))"

definition storage_ok :: "(string list \<Rightarrow> string option) \<Rightarrow> storage \<Rightarrow> bool" where
  "storage_ok parse s \<longleftrightarrow>
     sg_inv s \<and> ri_wf (sg_runtime s) \<and> um_fresh parse (sg_upstreams s) \<and>
     (\<forall>u c. sg_clients s u = Some c \<longrightarrow> parse (pc_upstreams c) = None)"

lemma storage_okI:
  assumes "sg_inv s" "ri_wf (sg_runtime s)" "um_fresh parse (sg_upstreams s)"
    and "\<And>u c. sg_clients s u = Some c \<Longrightarrow> parse (pc_upstreams c) = None"
  shows "storage_ok parse s"
  using assms unfolding storage_ok_def by blast

lemma storage_okD:
  assumes "storage_ok parse s"
  shows "sg_inv s" "ri_wf (sg_runtime s)" "um_fresh parse (sg_upstreams s)"
    "\<And>u c. sg_clients s u = Some c \<Longrightarrow> parse (pc_upstreams c) = None"
  using assms unfolding storage_ok_def by blast+

lemma storage_ok_empty: "storage_ok parse (empty_storage dhcp arp rd)"
  by (rule storage_okI [OF sg_inv_empty])
    (simp_all add: empty_storage_def newIndex_def newUpstreamManager_def um_fresh_def ri_wf_def)

subsection \<open>Upstream configurations\<close>

lemma um_fresh_update: "um_fresh parse m \<Longrightarrow> um_fresh parse (updateCustomUpstreamConfig p m)"
  by (auto simp: um_fresh_def updateCustomUpstreamConfig_def isConfigChanged_def Let_def split: option.split)

lemma um_fresh_remove: "um_fresh parse m \<Longrightarrow> um_fresh parse (um_remove u m)"
  by (auto simp: um_fresh_def um_remove_def isConfigChanged_def split: if_splits)

lemma um_fresh_common: "um_fresh parse m \<Longrightarrow> um_update m < now \<Longrightarrow> um_fresh parse (updateCommonUpstreamConfig c now m)"
  by (fastforce simp: um_fresh_def updateCommonUpstreamConfig_def isConfigChanged_def)

lemma newCustom_frame:
  "newCustomUpstreamConfig parse (cc\<lparr>cu_proxy := px, cu_common_update := t, cu_changed := b\<rparr>) conf =
   newCustomUpstreamConfig parse cc conf"
  by (simp add: newCustomUpstreamConfig_def Let_def split: option.split)

text \<open>The configuration of a client is the one built now, and getting it keeps the invariants.\<close>

lemma customUpstreamConfig_current:
  assumes "um_fresh parse m"
  shows "map_option fst (customUpstreamConfig parse u m) =
     (case gm_get (um_confs m) u of
        None \<Rightarrow> Some None
      | Some cc \<Rightarrow> newCustomUpstreamConfig parse cc (um_common m))"
  using assms
  by (cases "gm_get (um_confs m) u")
    (auto simp: customUpstreamConfig_def um_fresh_def option.map_comp comp_def option.map_ident)

lemma um_fresh_custom:
  assumes "um_fresh parse m" "customUpstreamConfig parse u m = Some (px, m')"
  shows "um_fresh parse m'"
proof (cases "m' = m")
  case False
  with assms(2) obtain cc where cc: "newCustomUpstreamConfig parse cc (um_common m) = Some px"
    "m' = m\<lparr>um_confs := gm_put u (cc\<lparr>cu_proxy := px, cu_common_update := um_update m, cu_changed := False\<rparr>)
       (um_confs m)\<rparr>"
    by (auto simp: customUpstreamConfig_def split: option.splits if_splits)
  with assms(1) show ?thesis by (simp add: um_fresh_def isConfigChanged_def newCustom_frame)
qed (use assms in simp)

lemma um_in_sync_custom:
  assumes "um_in_sync clients m" "customUpstreamConfig parse u m = Some (px, m')"
  shows "um_in_sync clients m'"
proof (cases "gm_get (um_confs m) u")
  case None
  with assms show ?thesis by (simp add: customUpstreamConfig_def)
next
  case (Some cc)
  have sync: "map_option (\<lambda>cc. (cu_upstreams cc, cu_cache_size cc, cu_cache_enabled cc)) (gm_get (um_confs m) u) =
      map_option (\<lambda>c. (pc_upstreams c, pc_cache_size c, pc_cache_enabled c)) (clients u)"
    using assms(1) unfolding um_in_sync_def by blast
  from assms(2) Some have "m' = m \<or> (\<exists>px. m' = m\<lparr>um_confs := gm_put u (cc\<lparr>cu_proxy := px,
      cu_common_update := um_update m, cu_changed := False\<rparr>) (um_confs m)\<rparr>)"
    by (auto simp: customUpstreamConfig_def split: if_splits)
  then show ?thesis using assms(1) sync Some by (auto simp: um_in_sync_def)
qed

subsection \<open>The invariant is kept\<close>

lemma ri_wf_refresh: "src \<in> name_sources \<Longrightarrow> ri_wf ri \<Longrightarrow> ri_wf (ri_refresh src ns ri)"
  unfolding ri_refresh_def using ri_fold_setInfo ri_removeEmpty_spec ri_wf_clearSource by blast

lemma runtime_step_ok:
  "storage_ok parse s \<Longrightarrow> ri_wf ri \<Longrightarrow> storage_ok parse (s\<lparr>sg_runtime := ri\<rparr>)"
  by (simp add: storage_ok_def sg_inv_def)

lemma storage_ok_sources:
  assumes "storage_ok parse s"
  shows "storage_ok parse (ReloadARP report s)" "storage_ok parse (UpdateDHCP s)"
    "addFromHostsFile hosts s = Some s1 \<Longrightarrow> storage_ok parse s1"
    "ClientRuntime ip s = (rc, s2) \<Longrightarrow> storage_ok parse s2"
proof -
  note wf = storage_okD(2) [OF assms]
  have arp: "storage_ok parse (s\<lparr>sg_arp := a\<rparr>)" for a using assms by (simp add: storage_ok_def sg_inv_def)
  have refresh: "storage_ok parse (s\<lparr>sg_runtime := ri_refresh src ns (sg_runtime s)\<rparr>)"
    if "src \<in> name_sources" for src ns
    by (rule runtime_step_ok [OF assms ri_wf_refresh [OF that wf]])
  have src: "SourceARP \<in> name_sources" "SourceDHCP \<in> name_sources" "SourceHostsFile \<in> name_sources"
    by (simp_all add: name_sources_def)
  show "storage_ok parse (ReloadARP report s)"
    using assms arp refresh [OF src(1)] by (simp add: ReloadARP_def split: arp_db.split sum.split)
  show "storage_ok parse (UpdateDHCP s)" using assms refresh [OF src(2)] by (simp add: UpdateDHCP_def)
  show "addFromHostsFile hosts s = Some s1 \<Longrightarrow> storage_ok parse s1"
    using refresh [OF src(3)] by (auto simp: addFromHostsFile_def split: if_splits)
  show "ClientRuntime ip s = (rc, s2) \<Longrightarrow> storage_ok parse s2"
    using assms runtime_step_ok [OF assms] ri_wf_setInfo [OF wf]
    by (auto simp: ClientRuntime_def Let_def split: if_splits prod.splits) (metis snd_conv)+
qed

lemma storage_ok_address:
  assumes "storage_ok parse s"
  shows "storage_ok parse (UpdateAddress ip host info s)"
proof -
  have whois: "storage_ok parse (setWHOISInfo ip wi s)" if "storage_ok parse s" for wi s
  proof -
    have "ri_wf (gm_put ip (rt_setWHOIS wi (case ri_client ip (sg_runtime s) of None \<Rightarrow> NewRuntime ip | Some rc \<Rightarrow> rc))
        (sg_runtime s))"
      using storage_okD(2) [OF that] ri_wf_get
      by (intro ri_wf_put) (auto simp: rt_setWHOIS_def ri_client_def split: option.split)
    from runtime_step_ok [OF that this] that show ?thesis by (simp add: setWHOISInfo_def Let_def)
  qed
  have "storage_ok parse (s\<lparr>sg_runtime := snd (ri_setInfo ip SourceRDNS [host] (sg_runtime s))\<rparr>)"
    by (rule runtime_step_ok [OF assms ri_wf_setInfo [OF storage_okD(2) [OF assms]]])
  with assms whois show ?thesis by (simp add: UpdateAddress_def Let_def split: option.split)
qed

lemma pc_validate_upstreams: "pc_validate parse tags p = Inr q \<Longrightarrow> parse (pc_upstreams q) = None"
  by (auto simp: pc_validate_def split: if_splits option.splits)

lemma storage_ok_stored:
  assumes "storage_ok parse s" "sg_inv (stored q ci s)" "ci_get ci = (sg_clients s)(u \<mapsto> q)"
    and "parse (pc_upstreams q) = None"
  shows "storage_ok parse (stored q ci s)"
  using assms(2) um_fresh_update [OF storage_okD(3) [OF assms(1)]] storage_okD(2,4) [OF assms(1)] assms(3,4)
  by (intro storage_okI) (auto split: if_splits)

lemma storage_ok_add:
  assumes ok: "storage_ok parse s" and macs: "macs_ok p" and add: "sg_Add parse p s = Some (Inr s')"
  shows "storage_ok parse s'"
proof -
  note inv = storage_okD(1) [OF ok]
  obtain q where q: "pc_validate parse (sg_tags s) p = Inr q"
    using add by (auto simp: sg_Add_def split: sum.splits)
  have "sg_clients s (pc_uid p) = None \<and> may_store p (sg_clients s)"
    using sg_Add_fails [OF inv macs, of parse] add by (metis Inl_Inr_False option.inject)
  then obtain ci where "s' = stored q ci s" "sg_inv s'" "sg_clients s' = (sg_clients s)(pc_uid p \<mapsto> q)"
    using sg_Add_ok [OF inv macs q] add by (auto simp: Let_def)
  then show ?thesis using storage_ok_stored [OF ok] pc_validate_upstreams [OF q] by fastforce
qed

lemma storage_ok_update:
  assumes ok: "storage_ok parse s" and macs: "macs_ok p" and upd: "sg_Update parse name p s = Some (Inr s')"
  shows "storage_ok parse s'"
proof -
  note inv = storage_okD(1) [OF ok]
  obtain q where q: "pc_validate parse (sg_tags s) p = Inr q"
    using upd by (auto simp: sg_Update_def split: sum.splits)
  obtain st where st: "findByName name (sg_index s) = Found st"
    using upd q by (auto simp: sg_Update_def split: found.splits)
  have "may_store (p\<lparr>pc_uid := pc_uid st\<rparr>) (sg_clients s)"
    using sg_Update_fails [OF inv macs q st] upd by (metis Inl_Inr_False option.inject)
  then obtain ci where "s' = stored (q\<lparr>pc_uid := pc_uid st\<rparr>) ci s" "sg_inv s'"
    "sg_clients s' = (sg_clients s)(pc_uid st \<mapsto> q\<lparr>pc_uid := pc_uid st\<rparr>)"
    using sg_Update_ok [OF inv macs q st] upd by (auto simp: Let_def)
  moreover have "parse (pc_upstreams (q\<lparr>pc_uid := pc_uid st\<rparr>)) = None" using pc_validate_upstreams [OF q] by simp
  ultimately show ?thesis using storage_ok_stored [OF ok] by fastforce
qed

lemma storage_ok_remove:
  assumes ok: "storage_ok parse s" and rm: "RemoveByName name s = Some (b, s')"
  shows "storage_ok parse s'"
proof (cases "findByName name (sg_index s)")
  case (Found st)
  from RemoveByName_ok [OF storage_okD(1) [OF ok] Found] rm
  have "sg_inv s'" "sg_clients s' = (sg_clients s)(pc_uid st := None)"
    "sg_upstreams s' = um_remove (pc_uid st) (sg_upstreams s)" "sg_runtime s' = sg_runtime s" by auto
  then show ?thesis
    using um_fresh_remove [OF storage_okD(3) [OF ok]] storage_okD(2,4) [OF ok]
    by (intro storage_okI) (auto split: if_splits)
qed (use assms in \<open>auto simp: RemoveByName_def\<close>)

lemma storage_ok_custom:
  assumes ok: "storage_ok parse s" and "CustomUpstreamConfig parse i a s = Some (px, s')"
  shows "storage_ok parse s'"
proof -
  have "s' = s \<or> (\<exists>u m px. customUpstreamConfig parse u (sg_upstreams s) = Some (px, m) \<and> s' = s\<lparr>sg_upstreams := m\<rparr>)"
    using assms(2) by (auto simp: CustomUpstreamConfig_def Let_def split: option.splits found.splits if_splits)
  then show ?thesis
  proof (elim disjE exE conjE)
    fix u m px
    assume m: "customUpstreamConfig parse u (sg_upstreams s) = Some (px, m)" and s': "s' = s\<lparr>sg_upstreams := m\<rparr>"
    have "um_in_sync (sg_clients s) (sg_upstreams s)" using storage_okD(1) [OF ok] by (simp add: sg_inv_def)
    from um_in_sync_custom [OF this m] have "sg_inv s'"
      using storage_okD(1) [OF ok] by (simp add: sg_inv_def s')
    then show ?thesis
      using um_fresh_custom [OF storage_okD(3) [OF ok] m] storage_okD(2,4) [OF ok]
      by (intro storage_okI) (auto simp: s')
  qed (simp add: ok)
qed

lemma storage_ok_common:
  assumes "storage_ok parse s" "um_update (sg_upstreams s) < now"
  shows "storage_ok parse (UpdateCommonUpstreamConfig conf now s)"
  using assms um_fresh_common [OF storage_okD(3) [OF assms(1)] assms(2)]
  by (simp add: storage_ok_def sg_inv_def UpdateCommonUpstreamConfig_def um_in_sync_def
      updateCommonUpstreamConfig_def)

lemma storage_step_ok: "storage_step parse s s' \<Longrightarrow> storage_ok parse s \<Longrightarrow> storage_ok parse s'"
  by (induction rule: storage_step.induct)
    (auto intro: storage_ok_add storage_ok_update storage_ok_remove storage_ok_sources storage_ok_address
      storage_ok_custom storage_ok_common)

lemma storage_reach_ok:
  assumes "(storage_step parse)\<^sup>*\<^sup>* (empty_storage dhcp arp rd) s"
  shows "storage_ok parse s"
  using assms by induction (auto intro: storage_ok_empty storage_step_ok)

text \<open>C6: In every state that the operations can reach from an empty storage, no two clients share a name or
  an identifier, each client is stored under its own unique identifier with upstreams that were accepted,
  has a custom upstream configuration with its current upstreams, and each runtime client is stored under
  its own address.\<close>

theorem storage_reachable_inv:
  assumes "(storage_step parse)\<^sup>*\<^sup>* (empty_storage dhcp arp rd) s"
  shows "(\<forall>u c. sg_clients s u = Some c \<longrightarrow> pc_uid c = u \<and> u \<noteq> 0 \<and> parse (pc_upstreams c) = None \<and>
       (\<forall>v d. sg_clients s v = Some d \<and> v \<noteq> u \<longrightarrow> \<not> shares_id c d) \<and>
       (\<exists>cc. gm_get (um_confs (sg_upstreams s)) u = Some cc \<and> cu_upstreams cc = pc_upstreams c)) \<and>
     (\<forall>ip rc. ri_client ip (sg_runtime s) = Some rc \<longrightarrow> rt_ip rc = ip)"
proof -
  note ok = storage_reach_ok [OF assms]
  have idx: "idx_inv (sg_index s)" and sync: "um_in_sync (sg_clients s) (sg_upstreams s)"
    using storage_okD(1) [OF ok] by (simp_all add: sg_inv_def)
  have "\<not> shares_id c d" if "sg_clients s u = Some c" "sg_clients s v = Some d" "v \<noteq> u" for u v c d
  proof -
    have dis: "set (ids c) \<inter> set (ids d) = {}" if "consistent ids get (sg_clients s)"
      for ids :: "persistent \<Rightarrow> 'k list" and get
      using consistent_unique [OF that \<open>sg_clients s u = Some c\<close> \<open>sg_clients s v = Some d\<close>] \<open>v \<noteq> u\<close> by blast
    show ?thesis
      using idx_invD(5-9) [OF idx, THEN dis] by (simp add: shares_id_def)
  qed
  moreover have "\<exists>cc. gm_get (um_confs (sg_upstreams s)) u = Some cc \<and> cu_upstreams cc = pc_upstreams c"
    if "sg_clients s u = Some c" for u c
    using um_in_syncD [OF sync that] by blast
  moreover have "pc_uid c = u \<and> u \<noteq> 0" if "sg_clients s u = Some c" for u c
    using idx_invD(4) [OF idx] that by blast
  moreover have "rt_ip rc = ip" if "ri_client ip (sg_runtime s) = Some rc" for ip rc
    using ri_wf_get [OF storage_okD(2) [OF ok]] that by (simp add: ri_client_def)
  ultimately show ?thesis using storage_okD(4) [OF ok] by blast
qed

lemma sample_reach:
  "\<exists>s. (storage_step (\<lambda>_. None))\<^sup>*\<^sup>* sample_storage s \<and> sg_clients s 1 = Some sample_client"
proof -
  obtain s where "sg_Add (\<lambda>_. None) sample_client sample_storage = Some (Inr s)"
    "sg_clients s 1 = Some sample_client"
    using sample_add by blast
  then show ?thesis using step_add [OF sample_client_ok(1)] by blast
qed

theorem storage_reachable_witness:
  "\<exists>s. sg_clients s 1 = Some sample_client \<and>
     (\<exists>cc. gm_get (um_confs (sg_upstreams s)) 1 = Some cc \<and> cu_upstreams cc = pc_upstreams sample_client)"
proof -
  from sample_reach obtain s where "(storage_step (\<lambda>_. None))\<^sup>*\<^sup>* sample_storage s" "sg_clients s 1 = Some sample_client"
    by blast
  with storage_reachable_inv [of "\<lambda>_. None" EmptyDHCP ArpNone False s] show ?thesis
    unfolding sample_storage_def by blast
qed

section \<open>Custom upstream configurations are current\<close>

text \<open>The client of a request, as both \<^verbatim>\<open>CustomUpstreamConfig\<close> and \<^verbatim>\<open>ApplyClientFiltering\<close> look it up.\<close>

definition request_client :: "string \<Rightarrow> addr \<Rightarrow> storage \<Rightarrow> found option" where
  "request_client i a s =
     (let r = findByClientID i (sg_index s) in if r \<noteq> NotFound then Some r else sg_findByIP a s)"

lemma request_client_finds:
  assumes "sg_inv s" "dhcp_ok s"
  shows "\<exists>r. request_client i a s = Some r \<and> finds (sg_clients s) (\<lambda>c. i \<in> set (pc_client_ids c) \<or> has_ip s a c) r"
proof -
  have idx: "idx_inv (sg_index s)" using assms by (simp add: sg_inv_def)
  obtain r where r: "sg_findByIP a s = Some r" "finds (sg_clients s) (has_ip s a) r"
    using sg_findByIP_finds [OF idx assms(2)] by blast
  from finds_or [OF finds_ClientID [OF idx, of i] r(2)] r(1) show ?thesis
    by (auto simp: request_client_def Let_def)
qed

definition built_conf :: "common_conf \<Rightarrow> persistent \<Rightarrow> proxy_conf option" where
  "built_conf cc c =
     (let ups = filter (\<lambda>s. \<not> IsCommentOrEmpty s) (pc_upstreams c) in
      if ups = [] then None
      else Some \<lparr>px_upstreams = ups, px_common = cc, px_cache_enabled = pc_cache_enabled c,
        px_cache_size = uint (pc_cache_size c)\<rparr>)"

lemma custom_of_client:
  assumes "storage_ok parse s" "um_common (sg_upstreams s) = Some cc" "sg_clients s u = Some c"
    and "\<forall>us. parse us = None \<longrightarrow> parse (filter (\<lambda>s. \<not> IsCommentOrEmpty s) us) = None"
  shows "\<exists>m. customUpstreamConfig parse u (sg_upstreams s) = Some (built_conf cc c, m)"
proof -
  have "um_in_sync (sg_clients s) (sg_upstreams s)" using storage_okD(1) [OF assms(1)] by (simp add: sg_inv_def)
  from um_in_syncD [OF this assms(3)] obtain k where k: "gm_get (um_confs (sg_upstreams s)) u = Some k"
    "cu_upstreams k = pc_upstreams c" "cu_cache_size k = pc_cache_size c" "cu_cache_enabled k = pc_cache_enabled c"
    by blast
  have "parse (filter (\<lambda>s. \<not> IsCommentOrEmpty s) (pc_upstreams c)) = None"
    using assms(4) storage_okD(4) [OF assms(1,3)] by blast
  then have "newCustomUpstreamConfig parse k (Some cc) = Some (built_conf cc c)"
    using k(2-4) by (simp add: newCustomUpstreamConfig_def built_conf_def Let_def)
  with customUpstreamConfig_current [OF storage_okD(3) [OF assms(1)], of u] k(1) assms(2) show ?thesis by auto
qed



section \<open>Filtering settings of a client\<close>

text \<open>C36: The settings of a request are those of the client with its ClientID or address: name and tags
  always, the blocked services exactly if the client uses its own, and the protection flags exactly if
  the client uses its own settings; without such a client the settings are unchanged.\<close>

theorem client_filtering_spec:
  assumes "(storage_step parse)\<^sup>*\<^sup>* (empty_storage dhcp arp rd) s" "dhcp_ok s"
  shows "\<exists>setts'. ApplyClientFiltering s i a setts = Some setts' \<and>
    ((\<forall>u c. sg_clients s u = Some c \<longrightarrow> i \<notin> set (pc_client_ids c) \<and> \<not> has_ip s a c) \<and> setts' = setts \<or>
     (\<exists>c. sg_clients s (pc_uid c) = Some c \<and> (i \<in> set (pc_client_ids c) \<or> has_ip s a c) \<and>
        st_client_name setts' = pc_name c \<and> st_client_tags setts' = pc_tags c \<and>
        st_blocked_services setts' = (if pc_own_services c then pc_blocked_services c else st_blocked_services setts) \<and>
        (st_filtering setts', st_safebrowsing setts', st_parental setts') =
          (if pc_own_settings c then (pc_filtering c, pc_safebrowsing c, pc_parental c)
           else (st_filtering setts, st_safebrowsing setts, st_parental setts)) \<and>
        (st_safesearch setts', st_client_safesearch setts') =
          (if pc_own_settings c then (ssc_enabled (pc_safe_search_conf c), pc_safe_search c)
           else (st_safesearch setts, st_client_safesearch setts)) \<and>
        st_services_rules setts' = st_services_rules setts \<and> st_protection setts' = st_protection setts \<and>
        st_client_ip setts' = st_client_ip setts))"
proof -
  obtain r where r: "request_client i a s = Some r"
    "finds (sg_clients s) (\<lambda>c. i \<in> set (pc_client_ids c) \<or> has_ip s a c) r"
    using request_client_finds [OF storage_okD(1) [OF storage_reach_ok [OF assms(1)]] assms(2)] by blast
  show ?thesis
  proof (cases r)
    case (Found c)
    then have "ApplyClientFiltering s i a setts = Some (apply_client c setts)"
      using r(1) by (simp add: ApplyClientFiltering_def flip: request_client_def)
    moreover have "sg_clients s (pc_uid c) = Some c" "i \<in> set (pc_client_ids c) \<or> has_ip s a c"
      using r(2) Found by (simp_all add: finds_def)
    ultimately show ?thesis
      by - (rule exI [of _ "apply_client c setts"], rule conjI, assumption, rule disjI2, rule exI [of _ c],
        simp add: apply_client_def Let_def)
  qed (use r in \<open>simp_all add: ApplyClientFiltering_def finds_def flip: request_client_def\<close>)
qed

definition blank_settings :: settings where
  "blank_settings = \<lparr>st_client_name = [], st_client_ip = ZeroAddr, st_client_tags = [], st_services_rules = [],
    st_blocked_services = None, st_protection = True, st_filtering = True, st_safesearch = False,
    st_safebrowsing = False, st_parental = False, st_client_safesearch = None\<rparr>"

theorem client_filtering_witness:
  "ApplyClientFiltering sample_storage ''none'' ZeroAddr blank_settings = Some blank_settings"
proof -
  have "(storage_step (\<lambda>_. None))\<^sup>*\<^sup>* (empty_storage EmptyDHCP ArpNone False) sample_storage"
    by (simp add: sample_storage_def)
  from client_filtering_spec [OF this sample_storage_ok(2), of "''none''" ZeroAddr blank_settings]
  show ?thesis by (auto simp: sample_storage_ok(3))
qed

end
