(* ===== verification/DnsProcess.thy ===== *)
theory DnsProcess
  imports DnsAnswers ClientSteps
begin

text \<open>
  The processing of a DNS request in package \<^verbatim>\<open>internal/dnsforward\<close>: the stages of
  \<^verbatim>\<open>process.go\<close> in their order, the filtering of requests and responses (\<^verbatim>\<open>filter.go\<close>), DNS64
  (\<^verbatim>\<open>dns64.go\<close>), the addresses given to ipset (\<^verbatim>\<open>ipset.go\<close>), the query log and statistics
  (\<^verbatim>\<open>stats.go\<close>) and the protection status (\<^verbatim>\<open>config.go\<close>).

  A stage maps the server and the context of the request to an outcome: go on, stop, fail or panic.
  Arguments of the model, fields of \<open>proc_env\<close>: the resolver of the proxy module, absent once the server
  is closed, the subdomain relation and the reverse-name parser of module \<^verbatim>\<open>golibs\<close>, the rules of the
  blocked services, the parser of upstream configurations, the cache of ClientIDs and the clock.
\<close>

section \<open>State\<close>

record proxy_ctx =
  xc_proto :: proto
  xc_addr :: addr
  xc_request_id :: nat
  xc_req :: dns_msg
  xc_res :: "dns_msg option"
  xc_private_client :: bool
  xc_private_rdns :: prefix
  xc_custom :: "proxy_conf option"

record log_entry =
  le_question :: dns_msg
  le_answer :: "dns_msg option"
  le_orig_answer :: "dns_msg option"
  le_result :: filter_result
  le_client_id :: string
  le_client_ip :: addr
  le_client_proto :: string
  le_ad :: bool

datatype stat_result = RNotFiltered | RFiltered | RSafeBrowsing | RSafeSearch | RParental

record stat_entry =
  se_client :: string
  se_domain :: string
  se_result :: stat_result

record dns_context =
  dx_pctx :: proxy_ctx
  dx_setts :: settings
  dx_result :: filter_result
  dx_orig_resp :: "dns_msg option"
  dx_client_id :: string
  dx_orig_question :: dns_question
  dx_protection :: bool
  dx_from_upstream :: bool
  dx_response_ad :: bool
  dx_is_dhcp :: bool

type_synonym should = "string \<Rightarrow> qtype \<Rightarrow> nat \<Rightarrow> string list \<Rightarrow> bool"

record dns_server =
  sv_filter :: dns_filter
  sv_aaaa_disabled :: bool
  sv_handle_ddr :: bool
  sv_enable_dnssec :: bool
  sv_refuse_any :: bool
  sv_tls :: tls_conf
  sv_https_ports :: "nat list"
  sv_tls_ports :: "nat list"
  sv_quic_ports :: "nat list"
  sv_has_ip_addrs :: bool
  sv_dns64_pref :: prefix
  sv_local_suffix :: string
  sv_dhcp_enabled :: bool
  sv_ip_by_host :: "string \<Rightarrow> addr"
  sv_host_by_ip :: "addr \<Rightarrow> string"
  sv_clients :: "storage option"
  sv_ipset :: bool
  sv_anonymize :: "addr \<Rightarrow> addr"
  sv_should_log :: "should option"
  sv_should_count :: "should option"
  sv_protection_update :: bool
  sv_seen :: "addr list"
  sv_ipset_added :: "(string \<times> addr list \<times> addr list) list"
  sv_log :: "log_entry list"
  sv_counted :: "stat_entry list"

record proc_env =
  pe_msg :: msg_env
  pe_resolve :: "proxy_conf resolver option"
  pe_subdomain :: "string \<Rightarrow> string \<Rightarrow> bool"
  pe_rev_addr :: "string \<Rightarrow> addr option"
  pe_service_rules :: service_rules
  pe_parse_upstreams :: "string list \<Rightarrow> string option"
  pe_client_id :: "nat \<Rightarrow> string option"
  pe_now :: instant

datatype proc_error = CheckError "string \<times> string" | RewriteError rewrite_error | ServerClosed | ResolveError string
  | AnswerError nat string

type_synonym proc_state = "dns_server \<times> dns_context"

datatype outcome = Success proc_state | Finish proc_state | Failed proc_error proc_state | Panicked

type_synonym stage = "proc_state \<Rightarrow> outcome"

definition set_res :: "dns_msg \<Rightarrow> dns_context \<Rightarrow> dns_context" where
  "set_res r c = c\<lparr>dx_pctx := (dx_pctx c)\<lparr>xc_res := Some r\<rparr>\<rparr>"

definition map_req :: "(dns_msg \<Rightarrow> dns_msg) \<Rightarrow> dns_context \<Rightarrow> dns_context" where
  "map_req f c = c\<lparr>dx_pctx := (dx_pctx c)\<lparr>xc_req := f (xc_req (dx_pctx c))\<rparr>\<rparr>"

abbreviation dx_req :: "dns_context \<Rightarrow> dns_msg" where
  "dx_req c \<equiv> xc_req (dx_pctx c)"

abbreviation dx_res :: "dns_context \<Rightarrow> dns_msg option" where
  "dx_res c \<equiv> xc_res (dx_pctx c)"

section \<open>Protection status\<close>

text \<open>The values are updated by a goroutine, a separate step, unless one is already running.\<close>

definition UpdatedProtectionStatus :: "instant \<Rightarrow> dns_server \<Rightarrow> (bool \<times> instant option) \<times> dns_server" where
  "UpdatedProtectionStatus now s =
     (case ProtectionStatus (sv_filter s) of (enabled, disabledUntil) \<Rightarrow>
        (case disabledUntil of
           None \<Rightarrow> ((enabled, None), s)
         | Some until \<Rightarrow>
             if now < until then ((False, Some until), s)
             else ((True, None), s\<lparr>sv_protection_update := True\<rparr>)))"

definition enableProtectionAfterPause :: "dns_server \<Rightarrow> dns_server" where
  "enableProtectionAfterPause s =
     s\<lparr>sv_filter := SetProtectionStatus True None (sv_filter s), sv_protection_update := False\<rparr>"

section \<open>The first stages\<close>

definition mozillaFQDN :: string where
  "mozillaFQDN = ''use-application-dns.net.''"

definition healthcheckFQDN :: string where
  "healthcheckFQDN = ''healthcheck.adguardhome.test.''"

definition ddrHostFQDN :: string where
  "ddrHostFQDN = ''_dns.resolver.arpa.''"

definition processClientIP :: "addr \<Rightarrow> dns_server \<Rightarrow> dns_server" where
  "processClientIP a s = (if \<not> is_valid a then s else s\<lparr>sv_seen := sv_seen s @ [a]\<rparr>)"

definition clientRequestFilteringSettings :: "proc_env \<Rightarrow> dns_server \<Rightarrow> dns_context \<Rightarrow> settings option" where
  "clientRequestFilteringSettings env s c =
     ApplyAdditionalFiltering (pe_service_rules env) (pe_now env) (sv_filter s) (xc_addr (dx_pctx c)) (dx_client_id c)
       ((filter_Settings (sv_filter s))\<lparr>st_protection := dx_protection c\<rparr>)"

definition processInitial :: "proc_env \<Rightarrow> stage" where
  "processInitial env = (\<lambda>(s0, c).
     (let s = processClientIP (xc_addr (dx_pctx c)) s0;
          req = dx_req c; q = first_question req; qt = dq_type q
      in if sv_aaaa_disabled s \<and> qt = TypeAAAA
         then Finish (s, set_res (NewMsgNODATA (pe_msg env) (sv_filter s) req) c)
         else if (qt = TypeA \<or> qt = TypeAAAA) \<and> dq_name q = mozillaFQDN
         then Finish (s, set_res (NewMsgNXDOMAIN (pe_msg env) (sv_filter s) req) c)
         else if dq_name q = healthcheckFQDN
         then Finish (s, set_res (replyCompressed (pe_msg env) req) c)
         else
           let c1 = c\<lparr>dx_client_id := (case pe_client_id env (xc_request_id (dx_pctx c)) of None \<Rightarrow> [] | Some i \<Rightarrow> i)\<rparr>;
               ((enabled, _), s1) = UpdatedProtectionStatus (pe_now env) s;
               c2 = c1\<lparr>dx_protection := enabled\<rparr>
           in case clientRequestFilteringSettings env s1 c2 of
                None \<Rightarrow> Panicked
              | Some setts \<Rightarrow> Success (s1, c2\<lparr>dx_setts := setts\<rparr>)))"

definition ddr_answer :: "msg_env \<Rightarrow> dns_server \<Rightarrow> dns_msg \<Rightarrow> svcb_kv list \<Rightarrow> rr" where
  "ddr_answer env s req values =
     RRSVCB (hdr (sv_filter s) req TypeSVCB) 1 (me_Fqdn env (tc_server_name (sv_tls s))) values"

text \<open>Ports are converted to 16 bits.\<close>

definition makeDDRResponse :: "msg_env \<Rightarrow> dns_server \<Rightarrow> dns_msg \<Rightarrow> dns_msg" where
  "makeDDRResponse env s req =
     (let resp = replyCompressed env req in
      if dq_type (first_question req) \<noteq> TypeSVCB then resp
      else resp\<lparr>dm_answer := dm_answer resp
        @ map (\<lambda>p. ddr_answer env s req [KVAlpn [''h2''], KVPort (p mod 65536), KVDoHPath ''/dns-query{?dns}''])
            (sv_https_ports s)
        @ (if sv_has_ip_addrs s
           then map (\<lambda>p. ddr_answer env s req [KVAlpn [''dot''], KVPort (p mod 65536)]) (sv_tls_ports s) else [])
        @ map (\<lambda>p. ddr_answer env s req [KVAlpn [''doq''], KVPort (p mod 65536)]) (sv_quic_ports s)\<rparr>)"

definition processDDRQuery :: "proc_env \<Rightarrow> stage" where
  "processDDRQuery env = (\<lambda>(s, c).
     (if sv_handle_ddr s \<and> dq_name (first_question (dx_req c)) = ddrHostFQDN
      then Finish (s, set_res (makeDDRResponse (pe_msg env) s (dx_req c)) c)
      else Success (s, c)))"

section \<open>Names and addresses of DHCP clients\<close>

text \<open>\<^term>\<open>None\<close> is a slice out of range.\<close>

definition dhcpHostFromRequest :: "proc_env \<Rightarrow> dns_server \<Rightarrow> dns_question \<Rightarrow> string option" where
  "dhcpHostFromRequest env s q =
     (if \<not> sv_dhcp_enabled s then Some []
      else if dq_type q \<noteq> TypeA \<and> dq_type q \<noteq> TypeAAAA then Some []
      else if dq_name q = [] then None
      else
        let reqHost = to_lower (butlast (dq_name q)) in
        if \<not> pe_subdomain env reqHost (sv_local_suffix s) then Some []
        else if length reqHost < length (sv_local_suffix s) + 1 then None
        else Some (take (length reqHost - length (sv_local_suffix s) - 1) reqHost))"

definition setupDNS64 :: "bool \<Rightarrow> prefix list \<Rightarrow> dns_server \<Rightarrow> dns_server" where
  "setupDNS64 useDNS64 prefixes s =
     (if \<not> useDNS64 then s
      else s\<lparr>sv_dns64_pref := (case prefixes of
                [] \<Rightarrow> Prefix (Addr6 0x0064FF9B000000000000000000000000 []) 96 | p # _ \<Rightarrow> p)\<rparr>)"

definition mapDNS64 :: "prefix \<Rightarrow> addr \<Rightarrow> addr option" where
  "mapDNS64 pref ip =
     map_option (\<lambda>w.
       (let keep = nat (int (128 - bit_len (pfx_addr pref)) + pfx_bits pref);
            p = push_bit (128 - keep) (drop_bit (128 - keep) (word16 (pfx_addr pref)))
        in Addr6 (or (push_bit 32 (drop_bit 32 p)) (ucast w)) [])) (word4 ip)"

definition processDHCPHosts :: "proc_env \<Rightarrow> stage" where
  "processDHCPHosts env = (\<lambda>(s, c0).
     (let req = dx_req c0; q = first_question req; d = sv_filter s in
      case dhcpHostFromRequest env s q of
        None \<Rightarrow> Panicked
      | Some dhcpHost \<Rightarrow>
          (let c = c0\<lparr>dx_is_dhcp := (dhcpHost \<noteq> [])\<rparr> in
           if dhcpHost = [] then Success (s, c)
           else if \<not> xc_private_client (dx_pctx c)
           then Finish (s, set_res (NewMsgNXDOMAIN (pe_msg env) d req) c)
           else
             let ip = sv_ip_by_host s dhcpHost; resp = replyCompressed (pe_msg env) req in
             if ip = ZeroAddr then Success (s, c)
             else if dq_type q = TypeA
             then Success (s, set_res (resp\<lparr>dm_answer := dm_answer resp @
                    [RRA (hdr d req TypeA) (with_zone [] ip)]\<rparr>) c)
             else if dq_type q = TypeAAAA \<and> sv_dns64_pref s \<noteq> zero_prefix
             then (case mapDNS64 (sv_dns64_pref s) ip of
                     None \<Rightarrow> Panicked
                   | Some a \<Rightarrow> Success (s, set_res (resp\<lparr>dm_answer := dm_answer resp @
                       [RRAAAA (hdr d req TypeAAAA) a]\<rparr>) c))
             else Success (s, set_res resp c))))"

definition processDHCPAddrs :: "proc_env \<Rightarrow> stage" where
  "processDHCPAddrs env = (\<lambda>(s, c).
     (let req = dx_req c; q = first_question req; pref = xc_private_rdns (dx_pctx c) in
      if dx_res c \<noteq> None then Success (s, c)
      else if pref = zero_prefix \<or> dq_type q \<noteq> TypePTR then Success (s, c)
      else
        let host = sv_host_by_ip s (pfx_addr pref) in
        if host = [] then Success (s, c)
        else
          let resp = replyCompressed (pe_msg env) req;
              ptr = RRPTR \<lparr>rh_name = dq_name q, rh_type = TypePTR, rh_ttl = BlockedResponseTTL (sv_filter s),
                           rh_class = ClassINET\<rparr> (me_Fqdn (pe_msg env) (host @ ''.'' @ sv_local_suffix s))
          in Success (s, set_res (resp\<lparr>dm_answer := dm_answer resp @ [ptr]\<rparr>) c)))"

section \<open>Filtering the request\<close>

definition isRewrittenCNAME :: "filter_result \<Rightarrow> bool" where
  "isRewrittenCNAME res \<longleftrightarrow>
     reason_In (fr_reason res) [Rewritten, RewrittenRule, FilteredSafeSearch] \<and> fr_canon_name res \<noteq> [] \<and>
     fr_ip_list res = []"

definition filterDNSRequest ::
  "proc_env \<Rightarrow> dns_server \<Rightarrow> dns_context \<Rightarrow> (proc_error, filter_result \<times> dns_context) result" where
  "filterDNSRequest env s c =
     (let req = dx_req c; q = first_question req; host = trim_suffix (dq_name q) ''.''; d = sv_filter s in
      case CheckHost (pe_rev_addr env) d host (dq_type q) (dx_setts c) of
        Inl e \<Rightarrow> Inl (CheckError e)
      | Inr res \<Rightarrow>
          if isRewrittenCNAME res then
            Inr (res, map_req (set_qname (me_Fqdn (pe_msg env) (fr_canon_name res))) (c\<lparr>dx_orig_question := q\<rparr>))
          else if fr_filtered res then
            Inr (res, set_res (genDNSFilterMessage (pe_msg env) (pe_resolve env) d req res) c)
          else if reason_In (fr_reason res) [Rewritten, FilteredSafeSearch] then
            Inr (res, set_res (getCNAMEWithIPs (pe_msg env) d req (fr_ip_list res) (fr_canon_name res)) c)
          else if reason_In (fr_reason res) [RewrittenRule, RewrittenAutoHosts] then
            (case filterDNSRewrite (pe_msg env) d req res of
               Inl e \<Rightarrow> Inl (RewriteError e)
             | Inr resp \<Rightarrow> Inr (res, set_res resp c))
          else Inr (res, c))"

text \<open>Redundant filters are disabled for the reverse names that are served locally.\<close>

definition before_request_setts :: "dns_context \<Rightarrow> settings" where
  "before_request_setts c =
     (if xc_private_rdns (dx_pctx c) \<noteq> zero_prefix
      then (dx_setts c)\<lparr>st_parental := False, st_safebrowsing := False, st_safesearch := False,
             st_services_rules := []\<rparr>
      else dx_setts c)"

definition processFilteringBeforeRequest :: "proc_env \<Rightarrow> stage" where
  "processFilteringBeforeRequest env = (\<lambda>(s, c0).
     (let c = c0\<lparr>dx_setts := before_request_setts c0\<rparr>
      in if dx_res c \<noteq> None then Success (s, c)
         else case filterDNSRequest env s c of
           Inl e \<Rightarrow> Failed e (s, c)
         | Inr (res, c1) \<Rightarrow> Success (s, c1\<lparr>dx_result := res\<rparr>)))"

section \<open>The upstream\<close>

definition hasDO :: "dns_msg \<Rightarrow> bool" where
  "hasDO m = (case dm_edns m of None \<Rightarrow> False | Some (_, d) \<Rightarrow> d)"

definition setReqAD :: "dns_server \<Rightarrow> dns_msg \<Rightarrow> bool \<times> dns_msg" where
  "setReqAD s req =
     (if \<not> sv_enable_dnssec s then (False, req) else (dm_ad req \<or> hasDO req, req\<lparr>dm_ad := True\<rparr>))"

definition setRespAD :: "dns_server \<Rightarrow> bool \<Rightarrow> dns_msg \<times> dns_msg \<Rightarrow> dns_msg \<times> dns_msg" where
  "setRespAD s reqWantsDNSSEC = (\<lambda>(req, res).
     (if sv_enable_dnssec s \<and> \<not> reqWantsDNSSEC then (req\<lparr>dm_ad := False\<rparr>, res\<lparr>dm_ad := False\<rparr>) else (req, res)))"

text \<open>\<^term>\<open>None\<close> is a panic of the storage of clients.\<close>

definition setCustomUpstream :: "proc_env \<Rightarrow> string \<Rightarrow> dns_server \<Rightarrow> proxy_ctx \<Rightarrow> (dns_server \<times> proxy_ctx) option" where
  "setCustomUpstream env clientID s p =
     (case sv_clients s of
        None \<Rightarrow> Some (s, p)
      | Some st \<Rightarrow>
          if \<not> is_valid (xc_addr p) then Some (s, p)
          else map_option (\<lambda>(conf, st'). (s\<lparr>sv_clients := Some st'\<rparr>,
                 if conf \<noteq> None then p\<lparr>xc_custom := conf\<rparr> else p))
               (CustomUpstreamConfig (pe_parse_upstreams env) clientID (xc_addr p) st))"

definition processUpstream :: "proc_env \<Rightarrow> stage" where
  "processUpstream env = (\<lambda>(s, c).
     (if dx_res c \<noteq> None then Success (s, c)
      else if dx_is_dhcp c
      then Finish (s, set_res (NewMsgNXDOMAIN (pe_msg env) (sv_filter s) (dx_req c)) c)
      else case setCustomUpstream env (dx_client_id c) s (dx_pctx c) of
        None \<Rightarrow> Panicked
      | Some (s1, p) \<Rightarrow>
          (case setReqAD s1 (xc_req p) of (wants, req) \<Rightarrow>
           (case pe_resolve env of
              None \<Rightarrow> Failed ServerClosed (s1, c\<lparr>dx_pctx := p\<lparr>xc_req := req\<rparr>\<rparr>)
            | Some resolve \<Rightarrow>
                (case resolve (xc_custom p) req of
                   Inl e \<Rightarrow> Failed (ResolveError e) (s1, c\<lparr>dx_pctx := p\<lparr>xc_req := req\<rparr>\<rparr>)
                 | Inr None \<Rightarrow> Panicked
                 | Inr (Some res) \<Rightarrow>
                     (case setRespAD s1 wants (req, res) of (req', res') \<Rightarrow>
                        Success (s1, c\<lparr>dx_pctx := p\<lparr>xc_req := req', xc_res := Some res'\<rparr>,
                          dx_from_upstream := True, dx_response_ad := dm_ad res\<rparr>)))))))"

section \<open>Filtering the response\<close>

fun net_ip_string :: "addr \<Rightarrow> string" where
  "net_ip_string ZeroAddr = ''<nil>''"
| "net_ip_string a = addr_string (unmap (with_zone [] a))"

fun is_ipv6_hint :: "svcb_kv \<Rightarrow> bool" where
  "is_ipv6_hint (KVIPv6Hint _) = True"
| "is_ipv6_hint _ = False"

definition removeIPv6Hints :: "svcb_kv list \<Rightarrow> svcb_kv list" where
  "removeIPv6Hints = filter (\<lambda>kv. \<not> is_ipv6_hint kv)"

fun filterSVCBHint :: "dns_filter \<Rightarrow> addr list \<Rightarrow> settings \<Rightarrow> (string, filter_result option) result" where
  "filterSVCBHint d [] setts = Inr None"
| "filterSVCBHint d (h # hs) setts =
     (case CheckHostRules d (net_ip_string h) TypeHTTPS setts of
        Inl e \<Rightarrow> Inl e
      | Inr res \<Rightarrow> if fr_filtered res then Inr (Some res) else filterSVCBHint d hs setts)"

fun hint_ips :: "svcb_kv \<Rightarrow> addr list" where
  "hint_ips (KVIPv4Hint ips) = ips"
| "hint_ips (KVIPv6Hint ips) = ips"
| "hint_ips _ = []"

fun filter_hints :: "dns_filter \<Rightarrow> svcb_kv list \<Rightarrow> settings \<Rightarrow> (string, filter_result option) result" where
  "filter_hints d [] setts = Inr None"
| "filter_hints d (kv # kvs) setts =
     (case filterSVCBHint d (hint_ips kv) setts of
        Inl e \<Rightarrow> Inl e
      | Inr (Some r) \<Rightarrow> Inr (Some r)
      | Inr None \<Rightarrow> filter_hints d kvs setts)"

text \<open>The record with its hints, and the result of the check.\<close>

definition filterHTTPSRecords ::
  "dns_server \<Rightarrow> svcb_kv list \<Rightarrow> settings \<Rightarrow> svcb_kv list \<times> (string, filter_result option) result" where
  "filterHTTPSRecords s values setts =
     (let vs = (if sv_aaaa_disabled s then removeIPv6Hints values else values)
      in (vs, filter_hints (sv_filter s) vs setts))"

definition check_record ::
  "dns_server \<Rightarrow> settings \<Rightarrow> rr \<Rightarrow> rr \<times> (string, filter_result option) result" where
  "check_record s setts a =
     (let check = (\<lambda>host rrtype. map_sum id Some (CheckHostRules (sv_filter s) host rrtype setts)) in
      case a of
        RRCNAME h t \<Rightarrow> (a, check (trim_suffix t ''.'') TypeCNAME)
      | RRA h ip \<Rightarrow> (a, check (net_ip_string ip) TypeA)
      | RRAAAA h ip \<Rightarrow> (a, check (net_ip_string ip) TypeAAAA)
      | RRHTTPS h p t vs \<Rightarrow> (case filterHTTPSRecords s vs setts of (vs', r) \<Rightarrow> (RRHTTPS h p t vs', r))
      | _ \<Rightarrow> (a, Inr None))"

text \<open>The answers after the loop, which ends at the first error or filtered record.\<close>

fun filter_answers ::
  "dns_server \<Rightarrow> settings \<Rightarrow> nat \<Rightarrow> rr list \<Rightarrow> rr list \<times> (proc_error, filter_result option) result" where
  "filter_answers s setts i [] = ([], Inr None)"
| "filter_answers s setts i (a # as) =
     (case check_record s setts a of
        (a', Inl e) \<Rightarrow> (a' # as, Inl (AnswerError i e))
      | (a', Inr r) \<Rightarrow>
          if (case r of None \<Rightarrow> False | Some res \<Rightarrow> fr_filtered res) then (a' # as, Inr r)
          else (case filter_answers s setts (i + 1) as of (as', r') \<Rightarrow> (a' # as', r')))"

text \<open>It is called only for a response from the upstream, which is then set.\<close>

definition filterDNSResponse :: "proc_env \<Rightarrow> dns_server \<Rightarrow> dns_context \<Rightarrow> dns_context \<times> proc_error option" where
  "filterDNSResponse env s c =
     (if \<not> st_filtering (dx_setts c) then (c, None)
      else case dx_res c of
        None \<Rightarrow> (c, None)
      | Some resp \<Rightarrow>
          (case filter_answers s (dx_setts c) 0 (dm_answer resp) of (as, r) \<Rightarrow>
             (let resp' = resp\<lparr>dm_answer := as\<rparr>; c1 = set_res resp' c in
              case r of
                Inl e \<Rightarrow> (c1, Some e)
              | Inr None \<Rightarrow> (c1, None)
              | Inr (Some res) \<Rightarrow>
                  (set_res (genDNSFilterMessage (pe_msg env) (pe_resolve env) (sv_filter s) (dx_req c) res)
                     (c1\<lparr>dx_result := res, dx_orig_resp := Some resp'\<rparr>), None))))"

definition filterAfterResponse :: "proc_env \<Rightarrow> stage" where
  "filterAfterResponse env = (\<lambda>(s, c).
     (if \<not> dx_protection c \<or> \<not> dx_from_upstream c then Success (s, c)
      else case filterDNSResponse env s c of
        (c1, Some e) \<Rightarrow> Failed e (s, c1)
      | (c1, None) \<Rightarrow> Success (s, c1)))"

definition processFilteringAfterResponse :: "proc_env \<Rightarrow> stage" where
  "processFilteringAfterResponse env = (\<lambda>(s, c).
     (let reason = fr_reason (dx_result c) in
      if reason = NotFilteredAllowList then Success (s, c)
      else if reason \<in> {Rewritten, RewrittenRule, FilteredSafeSearch} then
        (if dq_name (dx_orig_question c) = [] then Success (s, c)
         else case dx_res c of
           None \<Rightarrow> Panicked
         | Some res \<Rightarrow>
             if dm_question res = [] then Panicked
             else
               let c1 = map_req (set_question (dx_orig_question c)) c;
                   rr = genAnswerCNAME (pe_msg env) (sv_filter s) (dx_req c1) (fr_canon_name (dx_result c));
                   res1 = set_question (dx_orig_question c) res
               in Success (s, set_res (res1\<lparr>dm_answer := rr # dm_answer res1\<rparr>) c1))
      else filterAfterResponse env (s, c)))"

section \<open>Ipset, query log and statistics\<close>

fun ipFromRR :: "rr \<Rightarrow> addr" where
  "ipFromRR (RRA _ a) = a"
| "ipFromRR (RRAAAA _ a) = a"
| "ipFromRR _ = ZeroAddr"

definition ipsFromAnswer :: "rr list \<Rightarrow> addr list \<times> addr list" where
  "ipsFromAnswer as =
     (let ips = filter (\<lambda>a. a \<noteq> ZeroAddr) (map ipFromRR as)
      in (filter (\<lambda>a. is4 (unmap a)) ips, filter (\<lambda>a. \<not> is4 (unmap a)) ips))"

text \<open>Errors of the manager of sets are not critical; the calls are recorded in order.\<close>

definition ipset_process :: stage where
  "ipset_process = (\<lambda>(s, c).
     (let q = first_question (dx_req c) in
      if \<not> sv_ipset s \<or> \<not> dx_from_upstream c \<or> dm_question (dx_req c) = [] then Success (s, c)
      else case dx_res c of
        None \<Rightarrow> Success (s, c)
      | Some res \<Rightarrow>
          if dq_type q \<noteq> TypeA \<and> dq_type q \<noteq> TypeAAAA \<and> dq_type q \<noteq> TypeANY then Success (s, c)
          else
            let host = to_lower (trim_suffix (dq_name q) ''.''); (ip4s, ip6s) = ipsFromAnswer (dm_answer res)
            in Success (s\<lparr>sv_ipset_added := sv_ipset_added s @ [(host, ip4s, ip6s)]\<rparr>, c)))"

definition AnonymizeIP :: "addr \<Rightarrow> addr" where
  "AnonymizeIP a =
     (case a of
        Addr4 w \<Rightarrow> Addr4 (and w 0xFFFF0000)
      | Addr6 w z \<Rightarrow> if is4in6 a then Addr6 (push_bit 16 (drop_bit 16 w)) z else Addr6 (push_bit 80 (drop_bit 80 w)) z
      | ZeroAddr \<Rightarrow> ZeroAddr)"

definition shouldLog :: "dns_server \<Rightarrow> should" where
  "shouldLog s host qt cl ids \<longleftrightarrow>
     \<not> (qt = TypeANY \<and> sv_refuse_any s) \<and> (case sv_should_log s of None \<Rightarrow> False | Some f \<Rightarrow> f host qt cl ids)"

definition shouldCountStat :: "dns_server \<Rightarrow> should" where
  "shouldCountStat s host qt cl ids \<longleftrightarrow> (case sv_should_count s of None \<Rightarrow> False | Some f \<Rightarrow> f host qt cl ids)"

fun client_proto :: "proto \<Rightarrow> string" where
  "client_proto ProtoHTTPS = ''doh''"
| "client_proto ProtoQUIC = ''doq''"
| "client_proto ProtoTLS = ''dot''"
| "client_proto ProtoDNSCrypt = ''dnscrypt''"
| "client_proto _ = []"

definition logQuery :: "dns_context \<Rightarrow> addr \<Rightarrow> dns_server \<Rightarrow> dns_server" where
  "logQuery c ip s = s\<lparr>sv_log := sv_log s @ [
     \<lparr>le_question = dx_req c, le_answer = dx_res c, le_orig_answer = dx_orig_resp c, le_result = dx_result c,
      le_client_id = dx_client_id c, le_client_ip = ip, le_client_proto = client_proto (xc_proto (dx_pctx c)),
      le_ad = dx_response_ad c\<rparr>]\<rparr>"

fun stat_of_reason :: "reason \<Rightarrow> stat_result" where
  "stat_of_reason FilteredSafeBrowsing = RSafeBrowsing"
| "stat_of_reason FilteredParental = RParental"
| "stat_of_reason FilteredSafeSearch = RSafeSearch"
| "stat_of_reason FilteredBlockList = RFiltered"
| "stat_of_reason FilteredInvalid = RFiltered"
| "stat_of_reason FilteredBlockedService = RFiltered"
| "stat_of_reason _ = RNotFiltered"

definition updateStats :: "dns_context \<Rightarrow> string \<Rightarrow> dns_server \<Rightarrow> dns_server" where
  "updateStats c clientIP s = s\<lparr>sv_counted := sv_counted s @ [
     \<lparr>se_client = (if dx_client_id c \<noteq> [] then dx_client_id c else clientIP),
      se_domain = NormalizeDomain (dq_name (first_question (dx_req c))),
      se_result = stat_of_reason (fr_reason (dx_result c))\<rparr>]\<rparr>"

definition processQueryLogsAndStats :: stage where
  "processQueryLogsAndStats = (\<lambda>(s, c).
     (let q = first_question (dx_req c);
          host = NormalizeDomain (dq_name q);
          ip = sv_anonymize s (with_zone [] (xc_addr (dx_pctx c)));
          ipStr = net_ip_string ip;
          ids = (if dx_client_id c \<noteq> [] then [dx_client_id c, ipStr] else [ipStr]);
          s1 = (if shouldLog s host (dq_type q) (dq_class q) ids then logQuery c ip s else s);
          s2 = (if shouldCountStat s1 host (dq_type q) (dq_class q) ids then updateStats c ipStr s1 else s1)
      in Success (s2, c)))"

section \<open>The whole request\<close>

fun run_stages :: "stage list \<Rightarrow> stage" where
  "run_stages [] st = Success st"
| "run_stages (p # ps) st = (case p st of Success st' \<Rightarrow> run_stages ps st' | r \<Rightarrow> r)"

definition process_stages :: "proc_env \<Rightarrow> stage list" where
  "process_stages env =
     [processInitial env, processDDRQuery env, processDHCPHosts env, processDHCPAddrs env,
      processFilteringBeforeRequest env, processUpstream env, processFilteringAfterResponse env,
      ipset_process, processQueryLogsAndStats]"

definition new_context :: "proxy_ctx \<Rightarrow> settings \<Rightarrow> dns_context" where
  "new_context p setts =
     \<lparr>dx_pctx = p, dx_setts = setts, dx_result = empty_result, dx_orig_resp = None, dx_client_id = [],
      dx_orig_question = zero_question, dx_protection = False, dx_from_upstream = False,
      dx_response_ad = False, dx_is_dhcp = False\<rparr>"

text \<open>The settings are set by the first stage; before it they are those of the filter.\<close>

definition handleDNSRequest :: "proc_env \<Rightarrow> dns_server \<Rightarrow> proxy_ctx \<Rightarrow> outcome" where
  "handleDNSRequest env s p =
     (if dm_question (xc_req p) = [] then Panicked
      else case run_stages (process_stages env) (s, new_context p (filter_Settings (sv_filter s))) of
        Success (s', c) \<Rightarrow>
          Success (s', (case dx_res c of None \<Rightarrow> c | Some r \<Rightarrow> set_res (r\<lparr>dm_compress := True\<rparr>) c))
      | r \<Rightarrow> r)"

end
