(* ===== verification/DnsGuarantees.thy ===== *)
theory DnsGuarantees
  imports DnsProcess
begin

text \<open>
  Guarantees of the processing of a request: the client gets an answer to the question it asked, whatever
  rewrites happened on the way; a request blocked by a rule is answered without asking the upstream; the
  authenticated-data flag is set only for clients that asked for it; a pause of the protection ends.
\<close>

section \<open>The question of a response\<close>

lemma reply_question [simp]:
  assumes "msg_env_ok env"
  shows "dm_question (reply env req c) = take 1 (dm_question req)"
    "dm_question (replyCompressed env req) = take 1 (dm_question req)"
    "dm_question (NewMsgNODATA env d req) = take 1 (dm_question req)"
    "dm_question (NewMsgNXDOMAIN env d req) = take 1 (dm_question req)"
    "dm_question (NewMsgSERVFAIL env req) = take 1 (dm_question req)"
    "dm_question (makeResponseREFUSED env req) = take 1 (dm_question req)"
    "dm_question (genResponseWithIPs env d req ips) = take 1 (dm_question req)"
    "dm_question (getCNAMEWithIPs env d req ips cn) = take 1 (dm_question req)"
    "dm_question (makeDDRResponse env sv req) = take 1 (dm_question req)"
  using responds_reply [OF assms] responds_IPs [OF assms]
  by (simp_all add: responds_def getCNAMEWithIPs_def makeDDRResponse_def Let_def replyCompressed_def
      reply_fields [OF assms])

lemma blocked_host_question:
  "msg_env_ok env \<Longrightarrow> dm_question (genBlockedHost env prx d req h) = take 1 (dm_question req)"
  by (simp add: genBlockedHost_def Let_def split: option.split sum.split)

lemma filter_message_question [simp]:
  "msg_env_ok env \<Longrightarrow> dm_question (genDNSFilterMessage env prx d req res) = take 1 (dm_question req)"
  using responds_blocking_mode [of env req d]
  by (simp add: genDNSFilterMessage_def Let_def blocked_host_question responds_def split: reason.split)

lemma rewrite_message_question:
  "msg_env_ok env \<Longrightarrow> filterDNSRewrite env d req res = Inr resp \<Longrightarrow> dm_question resp = take 1 (dm_question req)"
  by (auto simp: filterDNSRewrite_def Let_def bind_result_Inr_iff split: option.splits if_splits)

text \<open>The documented behaviour of the resolver that the program relies on.\<close>

definition resolver_ok :: "proc_env \<Rightarrow> bool" where
  "resolver_ok env \<longleftrightarrow>
     (case pe_resolve env of
        None \<Rightarrow> True
      | Some f \<Rightarrow> \<forall>conf req r. f conf req = Inr (Some r) \<longrightarrow> dm_question r = dm_question req)"

text \<open>
  The context before the request is filtered: the question is the one of the client, and a response, if
  there is one, is about it.
\<close>

definition asks :: "dns_question \<Rightarrow> dns_context \<Rightarrow> bool" where
  "asks q c \<longleftrightarrow> dm_question (dx_req c) = [q] \<and> (\<forall>r. dx_res c = Some r \<longrightarrow> dm_question r = [q])"

definition ctx_fresh :: "dns_question \<Rightarrow> dns_context \<Rightarrow> bool" where
  "ctx_fresh q c \<longleftrightarrow> asks q c \<and> dq_name (dx_orig_question c) = [] \<and> dx_result c = empty_result \<and>
     \<not> dx_from_upstream c \<and> \<not> dx_is_dhcp c"

text \<open>The context of a request rewritten to an alias, whose answer is to be put behind the alias.\<close>

definition ctx_aliased :: "dns_question \<Rightarrow> dns_context \<Rightarrow> bool" where
  "ctx_aliased q c \<longleftrightarrow> dx_orig_question c = q \<and> isRewrittenCNAME (dx_result c) \<and> \<not> dx_is_dhcp c \<and>
     (\<exists>n. asks (q\<lparr>dq_name := n\<rparr>) c)"

definition ctx_plain :: "dns_question \<Rightarrow> dns_context \<Rightarrow> bool" where
  "ctx_plain q c \<longleftrightarrow> asks q c \<and> dq_name (dx_orig_question c) = [] \<and> \<not> dx_is_dhcp c"

text \<open>The states in which a stage may leave a request.\<close>

fun leaves :: "(proc_state \<Rightarrow> bool) \<Rightarrow> (proc_state \<Rightarrow> bool) \<Rightarrow> outcome \<Rightarrow> bool" where
  "leaves P Q (Success st) = P st"
| "leaves P Q (Finish st) = Q st"
| "leaves P Q (Failed e st) = True"
| "leaves P Q Panicked = True"

definition stages_ok ::
  "(proc_state \<Rightarrow> bool) \<Rightarrow> stage list \<Rightarrow> (proc_state \<Rightarrow> bool) \<Rightarrow> (proc_state \<Rightarrow> bool) \<Rightarrow> bool" where
  "stages_ok P ps Q R \<longleftrightarrow> (\<forall>s c. P (s, c) \<longrightarrow> leaves Q R (run_stages ps (s, c)))"

lemma stages_ok_Nil [intro]: "stages_ok Q [] Q R"
  by (simp add: stages_ok_def)

lemma stages_ok_Cons:
  assumes "\<And>s c. P (s, c) \<Longrightarrow> leaves P' R (p (s, c))" "stages_ok P' ps Q R"
  shows "stages_ok P (p # ps) Q R"
  unfolding stages_ok_def
proof (intro allI impI)
  fix s c
  assume "P (s, c)"
  from assms(1) [OF this] assms(2) show "leaves Q R (run_stages (p # ps) (s, c))"
    by (cases "p (s, c)") (auto simp: stages_ok_def)
qed

lemma set_res_simps [simp]:
  "dx_req (set_res r c) = dx_req c" "dx_res (set_res r c) = Some r" "dx_orig_question (set_res r c) = dx_orig_question c"
  "dx_result (set_res r c) = dx_result c" "dx_from_upstream (set_res r c) = dx_from_upstream c"
  "dx_is_dhcp (set_res r c) = dx_is_dhcp c" "dx_protection (set_res r c) = dx_protection c"
  "dx_setts (set_res r c) = dx_setts c" "dx_client_id (set_res r c) = dx_client_id c"
  by (simp_all add: set_res_def)

lemma map_req_simps [simp]:
  "dx_req (map_req f c) = f (dx_req c)" "dx_res (map_req f c) = dx_res c"
  "dx_orig_question (map_req f c) = dx_orig_question c" "dx_result (map_req f c) = dx_result c"
  "dx_from_upstream (map_req f c) = dx_from_upstream c" "dx_is_dhcp (map_req f c) = dx_is_dhcp c"
  by (simp_all add: map_req_def)

lemma question_set_question [simp]: "dm_question m = [q0] \<Longrightarrow> dm_question (set_question q m) = [q]"
  by (simp add: set_question_def)

lemma question_set_qname [simp]: "dm_question m = [q] \<Longrightarrow> dm_question (set_qname n m) = [q\<lparr>dq_name := n\<rparr>]"
  by (simp add: set_qname_def first_question_def)

abbreviation ends :: "dns_question \<Rightarrow> proc_state \<Rightarrow> bool" where
  "ends q \<equiv> \<lambda>(s, c). asks q c \<and> dx_res c \<noteq> None"

lemma initial_asks:
  assumes "msg_env_ok (pe_msg env)" "ctx_fresh q c" "\<not> sv_dhcp_enabled s"
  shows "leaves (\<lambda>(s', c'). ctx_fresh q c' \<and> \<not> sv_dhcp_enabled s') (ends q) (processInitial env (s, c))"
proof -
  let ?s = "processClientIP (xc_addr (dx_pctx c)) s"
  have q: "dm_question (dx_req c) = [q]" using assms(2) by (simp add: ctx_fresh_def asks_def)
  have frame: "ctx_fresh q (c\<lparr>dx_client_id := i, dx_protection := e, dx_setts := st\<rparr>)" for i e st
    using assms(2) by (simp add: ctx_fresh_def asks_def)
  obtain e u s1 where up: "UpdatedProtectionStatus (pe_now env) ?s = ((e, u), s1)" by (metis surj_pair)
  then have "sv_dhcp_enabled s1 = sv_dhcp_enabled s"
    by (auto simp: UpdatedProtectionStatus_def processClientIP_def split: prod.splits option.splits if_splits)
  with frame q assms(1,3) show ?thesis
    by (simp add: processInitial_def Let_def up asks_def split: option.split)
qed

lemma ddr_asks:
  assumes "msg_env_ok (pe_msg env)" "ctx_fresh q c" "\<not> sv_dhcp_enabled s"
  shows "leaves (\<lambda>(s', c'). ctx_fresh q c' \<and> \<not> sv_dhcp_enabled s') (ends q) (processDDRQuery env (s, c))"
  using assms by (auto simp: processDDRQuery_def ctx_fresh_def asks_def)

lemma dhcp_hosts_asks:
  assumes "msg_env_ok (pe_msg env)" "ctx_fresh q c" "\<not> sv_dhcp_enabled s"
  shows "leaves (\<lambda>(s', c'). ctx_fresh q c') (ends q) (processDHCPHosts env (s, c))"
  using assms by (auto simp: processDHCPHosts_def dhcpHostFromRequest_def Let_def ctx_fresh_def asks_def)

lemma dhcp_addrs_asks:
  assumes "msg_env_ok (pe_msg env)" "ctx_fresh q c"
  shows "leaves (\<lambda>(s', c'). ctx_fresh q c') (ends q) (processDHCPAddrs env (s, c))"
  using assms by (auto simp: processDHCPAddrs_def Let_def ctx_fresh_def asks_def)

lemma filter_request_asks:
  assumes "msg_env_ok (pe_msg env)" "ctx_fresh q c" "dx_res c = None" "filterDNSRequest env s c = Inr (res, c1)"
  shows "ctx_plain q (c1\<lparr>dx_result := res\<rparr>) \<or> ctx_aliased q (c1\<lparr>dx_result := res\<rparr>) \<and> dx_res c1 = None"
proof -
  have q: "dm_question (dx_req c) = [q]" "first_question (dx_req c) = q"
    using assms(2) by (simp_all add: ctx_fresh_def asks_def first_question_def)
  show ?thesis
    using assms q rewrite_message_question [OF assms(1)]
    by (auto simp: filterDNSRequest_def Let_def ctx_fresh_def ctx_plain_def ctx_aliased_def asks_def
        split: sum.splits if_splits)
qed

lemma filter_before_asks:
  assumes "msg_env_ok (pe_msg env)" "ctx_fresh q c"
  shows "leaves (\<lambda>(s', c'). ctx_plain q c' \<or> ctx_aliased q c' \<and> dx_res c' = None) (ends q)
    (processFilteringBeforeRequest env (s, c))"
proof -
  let ?c = "c\<lparr>dx_setts := before_request_setts c\<rparr>"
  have fresh: "ctx_fresh q ?c" using assms(2) by (simp add: ctx_fresh_def asks_def)
  then have "ctx_plain q ?c" by (simp add: ctx_fresh_def ctx_plain_def)
  moreover have "ctx_plain q (c1\<lparr>dx_result := res\<rparr>) \<or> ctx_aliased q (c1\<lparr>dx_result := res\<rparr>) \<and> dx_res c1 = None"
    if "filterDNSRequest env s ?c = Inr (res, c1)" "dx_res ?c = None" for res c1
    by (rule filter_request_asks [OF assms(1) fresh that(2,1)])
  ultimately show ?thesis
    unfolding processFilteringBeforeRequest_def
    by (simp only: prod.case Let_def) (simp split: sum.split prod.split)
qed

lemma custom_upstream_frame:
  "setCustomUpstream env i s p = Some (s1, p1) \<Longrightarrow> xc_req p1 = xc_req p \<and> xc_res p1 = xc_res p"
  by (auto simp: setCustomUpstream_def split: option.splits if_splits)

lemma processUpstream_success:
  assumes "processUpstream env (s, c) = Success (s', c')" "dx_res c = None"
  obtains p f res wants req req' res' where
    "setCustomUpstream env (dx_client_id c) s (dx_pctx c) = Some (s', p)" "setReqAD s' (xc_req p) = (wants, req)"
    "pe_resolve env = Some f" "f (xc_custom p) req = Inr (Some res)" "setRespAD s' wants (req, res) = (req', res')"
    "c' = c\<lparr>dx_pctx := p\<lparr>xc_req := req', xc_res := Some res'\<rparr>, dx_from_upstream := True, dx_response_ad := dm_ad res\<rparr>"
  using assms
  by (auto simp: processUpstream_def split: if_splits option.splits sum.splits prod.splits)

lemma AD_question [simp]:
  "setReqAD s req = (wants, req') \<Longrightarrow> dm_question req' = dm_question req"
  "setRespAD s wants (req, res) = (req', res') \<Longrightarrow> dm_question req' = dm_question req \<and> dm_question res' = dm_question res"
  by (auto simp: setReqAD_def setRespAD_def split: if_splits)

lemma upstream_question:
  assumes "resolver_ok env" "processUpstream env (s, c) = Success (s', c')" "dx_res c = None"
  shows "dm_question (dx_req c') = dm_question (dx_req c)" "\<exists>r. dx_res c' = Some r \<and> dm_question r = dm_question (dx_req c)"
    "dx_orig_question c' = dx_orig_question c" "dx_result c' = dx_result c" "dx_is_dhcp c' = dx_is_dhcp c"
proof -
  obtain p f res wants req req' res' where
    up: "setCustomUpstream env (dx_client_id c) s (dx_pctx c) = Some (s', p)" "setReqAD s' (xc_req p) = (wants, req)"
    "pe_resolve env = Some f" "f (xc_custom p) req = Inr (Some res)" "setRespAD s' wants (req, res) = (req', res')"
    "c' = c\<lparr>dx_pctx := p\<lparr>xc_req := req', xc_res := Some res'\<rparr>, dx_from_upstream := True, dx_response_ad := dm_ad res\<rparr>"
    using processUpstream_success [OF assms(2,3)] .
  have "dm_question res = dm_question req" using assms(1) up(3,4) by (simp add: resolver_ok_def)
  with AD_question(1) [OF up(2)] AD_question(2) [OF up(5)] custom_upstream_frame [OF up(1)]
  show "dm_question (dx_req c') = dm_question (dx_req c)" "\<exists>r. dx_res c' = Some r \<and> dm_question r = dm_question (dx_req c)"
    "dx_orig_question c' = dx_orig_question c" "dx_result c' = dx_result c" "dx_is_dhcp c' = dx_is_dhcp c"
    by (simp_all add: up(6))
qed

lemma upstream_asks:
  assumes "resolver_ok env" "ctx_plain q c \<or> ctx_aliased q c \<and> dx_res c = None"
  shows "leaves (\<lambda>(s', c'). (ctx_plain q c' \<or> ctx_aliased q c') \<and> dx_res c' \<noteq> None) (ends q)
    (processUpstream env (s, c))"
proof (cases "dx_res c = None")
  case False
  with assms(2) show ?thesis by (auto simp: processUpstream_def)
next
  case True
  have dhcp: "\<not> dx_is_dhcp c" using assms(2) by (auto simp: ctx_plain_def ctx_aliased_def)
  show ?thesis
  proof (cases "processUpstream env (s, c)")
    case (Success st)
    obtain s' c' where st: "st = (s', c')" by force
    note up = upstream_question [OF assms(1) Success [unfolded st] True]
    from assms(2) up show ?thesis
      unfolding Success st by (auto simp: ctx_plain_def ctx_aliased_def asks_def)
  next
    case (Finish st)
    with True dhcp show ?thesis
      by (auto simp: processUpstream_def split: option.splits sum.splits prod.splits)
  qed simp_all
qed

lemma after_response_asks:
  assumes "msg_env_ok (pe_msg env)" "ctx_plain q c \<or> ctx_aliased q c" "dx_res c \<noteq> None" "dq_name q \<noteq> []"
  shows "leaves (ends q) (ends q) (processFilteringAfterResponse env (s, c))"
proof -
  obtain r where r: "dx_res c = Some r" using assms(3) by blast
  show ?thesis
  proof (cases "ctx_aliased q c")
    case True
    then obtain n where n: "dm_question (dx_req c) = [q\<lparr>dq_name := n\<rparr>]" "dm_question r = [q\<lparr>dq_name := n\<rparr>]"
      "dx_orig_question c = q" "fr_reason (dx_result c) \<in> {Rewritten, RewrittenRule, FilteredSafeSearch}"
      using r by (auto simp: ctx_aliased_def asks_def isRewrittenCNAME_def reason_In_def)
    then show ?thesis
      using r assms(4) by (auto simp: processFilteringAfterResponse_def Let_def asks_def)
  next
    case False
    with assms(2) have plain: "asks q c" "dq_name (dx_orig_question c) = []" by (auto simp: ctx_plain_def)
    have "leaves (ends q) (ends q) (filterAfterResponse env (s, c))"
    proof (cases "filterDNSResponse env s c")
      case (Pair c1 e)
      then have "asks q c1 \<and> dx_res c1 \<noteq> None"
        using plain(1) r assms(1)
        by (auto simp: filterDNSResponse_def asks_def Let_def split: if_splits prod.splits sum.splits option.splits)
      with Pair plain r show ?thesis by (simp add: filterAfterResponse_def split: option.split)
    qed
    with plain r show ?thesis by (simp add: processFilteringAfterResponse_def Let_def)
  qed
qed

lemma last_stages_asks:
  "asks q c \<Longrightarrow> dx_res c \<noteq> None \<Longrightarrow> leaves (ends q) (ends q) (ipset_process (s, c))"
  "asks q c \<Longrightarrow> dx_res c \<noteq> None \<Longrightarrow> leaves (ends q) (ends q) (processQueryLogsAndStats (s, c))"
  by (auto simp: ipset_process_def processQueryLogsAndStats_def Let_def split: option.split prod.split)

text \<open>C1: For a request with one question, when DHCP is off, the context at the end has the client's
  question again and the response is about it, whether the answer was made by the server, came from the
  upstream or was found under the alias of a rewrite.  The proxy is assumed to return responses to the
  question asked and the message module to copy the question into a reply.\<close>

theorem question_restored:
  assumes "msg_env_ok (pe_msg env)" "resolver_ok env" "dm_question (xc_req p) = [q]" "dq_name q \<noteq> []"
    and "xc_res p = None" "\<not> sv_dhcp_enabled s"
  shows "case handleDNSRequest env s p of
     Success (s', c) \<Rightarrow> dm_question (dx_req c) = [q] \<and> (\<exists>r. dx_res c = Some r \<and> dm_question r = [q])
   | Finish (s', c) \<Rightarrow> dm_question (dx_req c) = [q] \<and> (\<exists>r. dx_res c = Some r \<and> dm_question r = [q])
   | _ \<Rightarrow> True"
proof -
  have fresh: "ctx_fresh q (new_context p setts)" for setts
    using assms(3,5) by (simp add: ctx_fresh_def asks_def new_context_def zero_question_def)
  have s7: "stages_ok (\<lambda>(s, c). (ctx_plain q c \<or> ctx_aliased q c) \<and> dx_res c \<noteq> None)
      [processFilteringAfterResponse env, ipset_process, processQueryLogsAndStats] (ends q) (ends q)"
    by (rule stages_ok_Cons [where P' = "ends q", OF _ stages_ok_Cons [where P' = "ends q", OF _
          stages_ok_Cons [where P' = "ends q", OF _ stages_ok_Nil]]])
      (use after_response_asks [OF assms(1)] last_stages_asks assms(4) in auto)
  have s5: "stages_ok (\<lambda>(s, c). ctx_fresh q c) [processFilteringBeforeRequest env, processUpstream env,
      processFilteringAfterResponse env, ipset_process, processQueryLogsAndStats] (ends q) (ends q)"
    by (rule stages_ok_Cons [OF _ stages_ok_Cons [OF _ s7,
          where P = "\<lambda>(s, c). ctx_plain q c \<or> ctx_aliased q c \<and> dx_res c = None"]])
      (use filter_before_asks [OF assms(1)] upstream_asks [OF assms(2)] in auto)
  have s3: "stages_ok (\<lambda>(s, c). ctx_fresh q c \<and> \<not> sv_dhcp_enabled s) [processDHCPHosts env, processDHCPAddrs env,
      processFilteringBeforeRequest env, processUpstream env, processFilteringAfterResponse env, ipset_process,
      processQueryLogsAndStats] (ends q) (ends q)"
    by (rule stages_ok_Cons [OF _ stages_ok_Cons [OF _ s5, where P = "\<lambda>(s, c). ctx_fresh q c"]])
      (use dhcp_hosts_asks [OF assms(1)] dhcp_addrs_asks [OF assms(1)] in auto)
  have "stages_ok (\<lambda>(s, c). ctx_fresh q c \<and> \<not> sv_dhcp_enabled s) (process_stages env) (ends q) (ends q)"
    unfolding process_stages_def
    by (rule stages_ok_Cons [OF _ stages_ok_Cons [OF _ s3, where P = "\<lambda>(s, c). ctx_fresh q c \<and> \<not> sv_dhcp_enabled s"]])
      (use initial_asks [OF assms(1)] ddr_asks [OF assms(1)] in auto)
  with fresh assms(6) have "leaves (ends q) (ends q)
      (run_stages (process_stages env) (s, new_context p (filter_Settings (sv_filter s))))"
    by (simp add: stages_ok_def)
  then show ?thesis
    using assms(3)
    by (cases "run_stages (process_stages env) (s, new_context p (filter_Settings (sv_filter s)))")
      (auto simp: handleDNSRequest_def asks_def)
qed

section \<open>Blocked requests\<close>

lemma before_filter_not_upstream:
  "stages_ok (\<lambda>(s, c). \<not> dx_from_upstream c) (take 4 (process_stages env)) (\<lambda>(s, c). \<not> dx_from_upstream c) (\<lambda>_. True)"
proof -
  let ?P = "\<lambda>(s :: dns_server, c). \<not> dx_from_upstream c"
  have "leaves ?P (\<lambda>_. True) (processInitial env (s, c))" if "\<not> dx_from_upstream c" for s c
    using that by (simp add: processInitial_def Let_def split: option.split prod.split)
  moreover have "leaves ?P (\<lambda>_. True) (processDDRQuery env (s, c))" if "\<not> dx_from_upstream c" for s c
    using that by (simp add: processDDRQuery_def)
  moreover have "leaves ?P (\<lambda>_. True) (processDHCPHosts env (s, c))" if "\<not> dx_from_upstream c" for s c
    using that by (simp add: processDHCPHosts_def Let_def split: option.split)
  moreover have "leaves ?P (\<lambda>_. True) (processDHCPAddrs env (s, c))" if "\<not> dx_from_upstream c" for s c
    using that by (simp add: processDHCPAddrs_def Let_def)
  ultimately show ?thesis
    unfolding process_stages_def
    by (simp add: numeral_eq_Suc)
      (rule stages_ok_Cons [where P' = ?P, OF _ stages_ok_Cons [where P' = ?P, OF _ stages_ok_Cons [where P' = ?P,
        OF _ stages_ok_Cons [where P' = ?P, OF _ stages_ok_Nil]]]]; simp)
qed

lemma run_stages_append:
  "run_stages (ps @ qs) st = (case run_stages ps st of Success st' \<Rightarrow> run_stages qs st' | r \<Rightarrow> r)"
  by (induction ps arbitrary: st) (auto split: outcome.split)

definition blocking_reasons :: "reason set" where
  "blocking_reasons = {FilteredBlockList, FilteredInvalid, FilteredBlockedService}"

lemma filter_message_no_upstream:
  "fr_reason res \<in> blocking_reasons \<Longrightarrow>
   genDNSFilterMessage env prx d req res = genDNSFilterMessage env (None :: proxy_conf resolver option) d req res"
  by (auto simp: blocking_reasons_def genDNSFilterMessage_def Let_def)

text \<open>C2: A request that reaches the filter unanswered and is blocked there by a rule or a blocked service is
  answered by the blocking response, which does not depend on the upstream: the request is never
  forwarded, and the later stages keep the response and the result of the filter.\<close>

theorem blocked_request_spec:
  assumes "dm_question (xc_req p) \<noteq> []"
    and "run_stages (take 4 (process_stages env)) (s, new_context p (filter_Settings (sv_filter s))) = Success (s1, c1)"
    and "dx_res c1 = None"
    and "CheckHost (pe_rev_addr env) (sv_filter s1) (trim_suffix (dq_name (first_question (dx_req c1))) ''.'')
           (dq_type (first_question (dx_req c1))) (before_request_setts c1) = Inr res"
    and "fr_filtered res" "fr_reason res \<in> blocking_reasons"
  shows "\<exists>s' c. handleDNSRequest env s p = Success (s', c) \<and> \<not> dx_from_upstream c \<and> dx_result c = res \<and>
    dx_res c = Some ((genDNSFilterMessage (pe_msg env) (None :: proxy_conf resolver option) (sv_filter s1)
      (dx_req c1) res)\<lparr>dm_compress := True\<rparr>)"
proof -
  let ?st = "(s, new_context p (filter_Settings (sv_filter s)))"
  let ?m = "genDNSFilterMessage (pe_msg env) (None :: proxy_conf resolver option) (sv_filter s1) (dx_req c1) res"
  let ?c = "(set_res ?m (c1\<lparr>dx_setts := before_request_setts c1\<rparr>))\<lparr>dx_result := res\<rparr>"
  have up: "\<not> dx_from_upstream c1"
    using before_filter_not_upstream [of env] assms(2) unfolding stages_ok_def
    by (metis (no_types, lifting) case_prodI leaves.simps(1) new_context_def dns_context.select_convs(8) prod.case)
  have no_alias: "\<not> isRewrittenCNAME res"
    using assms(6) by (auto simp: isRewrittenCNAME_def reason_In_def blocking_reasons_def)
  have before: "processFilteringBeforeRequest env (s1, c1) = Success (s1, ?c)"
    using assms(3,4,5) no_alias
      filter_message_no_upstream [OF assms(6), of "pe_msg env" "pe_resolve env" "sv_filter s1" "dx_req c1"]
    by (simp add: processFilteringBeforeRequest_def filterDNSRequest_def Let_def)
  have upstream: "processUpstream env (s1, ?c) = Success (s1, ?c)" by (simp add: processUpstream_def set_res_def)
  have after: "processFilteringAfterResponse env (s1, ?c) = Success (s1, ?c)"
    using assms(6) up by (auto simp: processFilteringAfterResponse_def filterAfterResponse_def blocking_reasons_def Let_def)
  have ipset: "ipset_process (s1, ?c) = Success (s1, ?c)" using up by (simp add: ipset_process_def Let_def)
  obtain s' where "processQueryLogsAndStats (s1, ?c) = Success (s', ?c)"
    by (simp add: processQueryLogsAndStats_def Let_def)
  then have "run_stages (drop 4 (process_stages env)) (s1, c1) = Success (s', ?c)"
    using before upstream after ipset by (simp add: process_stages_def)
  then have "run_stages (process_stages env) ?st = Success (s', ?c)"
    using run_stages_append [of "take 4 (process_stages env)" "drop 4 (process_stages env)" ?st] assms(2) by simp
  then show ?thesis using assms(1) up by (simp add: handleDNSRequest_def)
qed

section \<open>The authenticated-data flag\<close>

lemma reply_ad [simp]:
  assumes "msg_env_ok env"
  shows "\<not> dm_ad (reply env req c)" "\<not> dm_ad (replyCompressed env req)" "\<not> dm_ad (NewMsgNODATA env d req)"
    "\<not> dm_ad (NewMsgNXDOMAIN env d req)" "\<not> dm_ad (NewMsgSERVFAIL env req)" "\<not> dm_ad (makeResponseREFUSED env req)"
    "\<not> dm_ad (genResponseWithIPs env d req ips)" "\<not> dm_ad (getCNAMEWithIPs env d req ips cn)"
    "\<not> dm_ad (makeDDRResponse env sv req)"
  using assms
  by (simp_all add: reply_def replyCompressed_def NewMsgNODATA_def NewMsgNXDOMAIN_def NewMsgSERVFAIL_def
      makeResponseREFUSED_def genResponseWithIPs_def getCNAMEWithIPs_def makeDDRResponse_def Let_def msg_env_ok_def)

lemma filter_message_ad [simp]:
  assumes "msg_env_ok env"
  shows "\<not> dm_ad (genDNSFilterMessage env prx d req res)"
proof -
  have "\<not> dm_ad (genForBlockingMode env d req ips)" for ips
    using assms
    by (simp add: genForBlockingMode_def makeResponseCustomIP_def genARecord_def genAAAARecord_def
        makeResponseNullIP_def Let_def split: blocking_mode.split prod.split)
  moreover have "\<not> dm_ad (genBlockedHost env prx d req h)" for h
    using assms by (simp add: genBlockedHost_def Let_def split: option.split sum.split)
  ultimately show ?thesis using assms by (simp add: genDNSFilterMessage_def Let_def split: reason.split)
qed

lemma rewrite_message_ad: "msg_env_ok env \<Longrightarrow> filterDNSRewrite env d req res = Inr resp \<Longrightarrow> \<not> dm_ad resp"
  by (auto simp: filterDNSRewrite_def Let_def bind_result_Inr_iff split: option.splits if_splits)

lemma set_question_ad [simp]: "dm_ad (set_question q m) = dm_ad m" "dm_edns (set_question q m) = dm_edns m"
  "dm_ad (set_qname n m) = dm_ad m" "dm_edns (set_qname n m) = dm_edns m"
  by (simp_all add: set_question_def set_qname_def split: list.split)

text \<open>Before the upstream is asked, with the flags of the client's request, and afterwards.\<close>

definition ad_before :: "bool \<Rightarrow> (nat \<times> bool) option \<Rightarrow> proc_state \<Rightarrow> bool" where
  "ad_before a e = (\<lambda>(s, c). sv_enable_dnssec s \<and> dm_ad (dx_req c) = a \<and> dm_edns (dx_req c) = e \<and>
     (\<forall>r. dx_res c = Some r \<longrightarrow> \<not> dm_ad r))"

definition ad_after :: "bool \<Rightarrow> proc_state \<Rightarrow> bool" where
  "ad_after wants = (\<lambda>(s, c). \<forall>r. dx_res c = Some r \<and> dm_ad r \<longrightarrow> wants)"

lemma ad_stages_before:
  assumes "msg_env_ok (pe_msg env)" "ad_before a e (s, c)"
  shows "leaves (ad_before a e) (ad_after w) (processInitial env (s, c))"
    "leaves (ad_before a e) (ad_after w) (processDDRQuery env (s, c))"
    "leaves (ad_before a e) (ad_after w) (processDHCPHosts env (s, c))"
    "leaves (ad_before a e) (ad_after w) (processDHCPAddrs env (s, c))"
proof -
  let ?s = "processClientIP (xc_addr (dx_pctx c)) s"
  obtain en u s1 where up: "UpdatedProtectionStatus (pe_now env) ?s = ((en, u), s1)" by (metis surj_pair)
  then have "sv_enable_dnssec s1 = sv_enable_dnssec s"
    by (auto simp: UpdatedProtectionStatus_def processClientIP_def split: prod.splits option.splits if_splits)
  with assms show "leaves (ad_before a e) (ad_after w) (processInitial env (s, c))"
    by (simp add: processInitial_def Let_def up ad_before_def ad_after_def split: option.split)
  show "leaves (ad_before a e) (ad_after w) (processDDRQuery env (s, c))"
    using assms by (simp add: processDDRQuery_def ad_before_def ad_after_def)
  show "leaves (ad_before a e) (ad_after w) (processDHCPHosts env (s, c))"
    using assms by (simp add: processDHCPHosts_def Let_def ad_before_def ad_after_def split: option.split)
  show "leaves (ad_before a e) (ad_after w) (processDHCPAddrs env (s, c))"
    using assms by (simp add: processDHCPAddrs_def Let_def ad_before_def)
qed

lemma ad_filter_before:
  assumes "msg_env_ok (pe_msg env)" "ad_before a e (s, c)"
  shows "leaves (ad_before a e) (ad_after w) (processFilteringBeforeRequest env (s, c))"
proof -
  have "ad_before a e (s, c1\<lparr>dx_result := res\<rparr>)"
    if "filterDNSRequest env s (c\<lparr>dx_setts := before_request_setts c\<rparr>) = Inr (res, c1)" "dx_res c = None" for res c1
    using that assms rewrite_message_ad [OF assms(1)]
    by (auto simp: filterDNSRequest_def Let_def ad_before_def split: sum.splits if_splits)
  moreover have "ad_before a e (s, c\<lparr>dx_setts := st\<rparr>)" for st using assms(2) by (simp add: ad_before_def)
  ultimately show ?thesis
    by (simp add: processFilteringBeforeRequest_def Let_def split: sum.split prod.split)
qed

lemma ad_upstream:
  assumes "msg_env_ok (pe_msg env)" "ad_before a e (s, c)"
    and "w \<longleftrightarrow> a \<or> (case e of None \<Rightarrow> False | Some (_, d) \<Rightarrow> d)"
  shows "leaves (ad_after w) (ad_after w) (processUpstream env (s, c))"
proof (cases "processUpstream env (s, c)")
  case (Success st)
  obtain s' c' where st: "st = (s', c')" by force
  show ?thesis
  proof (cases "dx_res c = None")
    case True
    obtain p f res wants req req' res' where
      up: "setCustomUpstream env (dx_client_id c) s (dx_pctx c) = Some (s', p)" "setReqAD s' (xc_req p) = (wants, req)"
      "pe_resolve env = Some f" "f (xc_custom p) req = Inr (Some res)" "setRespAD s' wants (req, res) = (req', res')"
      "c' = c\<lparr>dx_pctx := p\<lparr>xc_req := req', xc_res := Some res'\<rparr>, dx_from_upstream := True, dx_response_ad := dm_ad res\<rparr>"
      using processUpstream_success [OF Success [unfolded st] True] .
    have "sv_enable_dnssec s'" "xc_req p = dx_req c"
      using up(1) assms(2) by (auto simp: setCustomUpstream_def ad_before_def split: option.splits if_splits)
    then have "dm_ad res' \<longrightarrow> w"
      using up(2,5) assms(2,3)
      by (auto simp: setReqAD_def setRespAD_def ad_before_def hasDO_def split: if_splits)
    then show ?thesis by (simp add: Success st ad_after_def up(6))
  next
    case False
    with assms(2) have "processUpstream env (s, c) = Success (s, c)" by (simp add: processUpstream_def)
    with assms(2) show ?thesis by (auto simp: ad_before_def ad_after_def)
  qed
next
  case (Finish st)
  with assms(1) show ?thesis
    by (auto simp: processUpstream_def ad_after_def split: if_splits option.splits sum.splits prod.splits)
qed simp_all

lemma ad_stages_after:
  assumes "msg_env_ok (pe_msg env)" "ad_after w (s, c)"
  shows "leaves (ad_after w) (ad_after w) (processFilteringAfterResponse env (s, c))"
    "leaves (ad_after w) (ad_after w) (ipset_process (s, c))"
    "leaves (ad_after w) (ad_after w) (processQueryLogsAndStats (s, c))"
proof -
  have "leaves (ad_after w) (ad_after w) (filterAfterResponse env (s, c))"
  proof (cases "filterDNSResponse env s c")
    case (Pair c1 e)
    then have "ad_after w (s, c1)"
      using assms
      by (auto simp: filterDNSResponse_def ad_after_def Let_def split: if_splits prod.splits sum.splits option.splits)
    with Pair assms(2) show ?thesis by (simp add: filterAfterResponse_def split: option.split)
  qed
  with assms(2) show "leaves (ad_after w) (ad_after w) (processFilteringAfterResponse env (s, c))"
    by (simp add: processFilteringAfterResponse_def Let_def ad_after_def split: option.split)
  show "leaves (ad_after w) (ad_after w) (ipset_process (s, c))"
    using assms(2) by (simp add: ipset_process_def Let_def ad_after_def split: option.split prod.split)
  show "leaves (ad_after w) (ad_after w) (processQueryLogsAndStats (s, c))"
    using assms(2) by (simp add: processQueryLogsAndStats_def Let_def ad_after_def)
qed

text \<open>C10: With DNSSEC enabled the server asks the upstream for authenticated data in every request, but
  the response to the client has the authenticated-data flag only if the client's request had this flag or
  the DNSSEC-OK flag.\<close>

theorem ad_only_if_requested:
  assumes "msg_env_ok (pe_msg env)" "sv_enable_dnssec s" "xc_res p = None"
    and "handleDNSRequest env s p \<in> {Success (s', c), Finish (s', c)}" "dx_res c = Some r" "dm_ad r"
  shows "dm_ad (xc_req p) \<or> hasDO (xc_req p)"
proof -
  let ?w = "dm_ad (xc_req p) \<or> hasDO (xc_req p)"
  let ?B = "ad_before (dm_ad (xc_req p)) (dm_edns (xc_req p))"
  let ?A = "ad_after ?w"
  have w: "?w \<longleftrightarrow> dm_ad (xc_req p) \<or> (case dm_edns (xc_req p) of None \<Rightarrow> False | Some (_, d) \<Rightarrow> d)"
    by (simp add: hasDO_def)
  have after: "stages_ok ?A [processFilteringAfterResponse env, ipset_process, processQueryLogsAndStats] ?A ?A"
    by (rule stages_ok_Cons [where P' = ?A, OF _ stages_ok_Cons [where P' = ?A, OF _
          stages_ok_Cons [where P' = ?A, OF _ stages_ok_Nil]]])
      (erule ad_stages_after [OF assms(1)])+
  have "stages_ok ?B (process_stages env) ?A ?A"
    unfolding process_stages_def
    by (rule stages_ok_Cons [where P' = ?B, OF _ stages_ok_Cons [where P' = ?B, OF _ stages_ok_Cons [where P' = ?B,
          OF _ stages_ok_Cons [where P' = ?B, OF _ stages_ok_Cons [where P' = ?B, OF _
          stages_ok_Cons [where P' = ?A, OF _ after]]]]]])
      (erule ad_stages_before [OF assms(1)] ad_filter_before [OF assms(1)] ad_upstream [OF assms(1) _ w])+
  moreover have "?B (s, new_context p (filter_Settings (sv_filter s)))"
    using assms(2,3) by (simp add: ad_before_def new_context_def)
  ultimately have run: "leaves ?A ?A (run_stages (process_stages env) (s, new_context p (filter_Settings (sv_filter s))))"
    by (simp add: stages_ok_def)
  have "?A (s', c)"
    using run assms(4) unfolding handleDNSRequest_def
    by (cases "run_stages (process_stages env) (s, new_context p (filter_Settings (sv_filter s)))")
      (auto simp: ad_after_def split: if_splits option.splits)
  with assms(5,6) show ?thesis by (simp add: ad_after_def)
qed

section \<open>Rewritten names of DHCP clients\<close>

text \<open>A request for the name of a DHCP client without a lease that a rewrite maps to an alias is not
  resolved under the alias: it is answered by a name error, and the response is about the alias, a name
  that the client never asked for.\<close>

theorem dhcp_alias_lost:
  assumes "msg_env_ok (pe_msg env)" "dm_question (dx_req c) = [q]" "dx_res c = None" "dx_is_dhcp c"
    and "CheckHost (pe_rev_addr env) (sv_filter s) (trim_suffix (dq_name q) ''.'') (dq_type q)
           (before_request_setts c) = Inr res" "isRewrittenCNAME res"
  shows "\<exists>c' r. run_stages [processFilteringBeforeRequest env, processUpstream env] (s, c) = Finish (s, c') \<and>
    dx_res c' = Some r \<and> dm_rcode r = RcodeNameError \<and> dm_answer r = [] \<and>
    dm_question r = [q\<lparr>dq_name := me_Fqdn (pe_msg env) (fr_canon_name res)\<rparr>]"
proof -
  have q: "first_question (dx_req c) = q" using assms(2) by (simp add: first_question_def)
  let ?c = "(map_req (set_qname (me_Fqdn (pe_msg env) (fr_canon_name res)))
    (c\<lparr>dx_setts := before_request_setts c, dx_orig_question := q\<rparr>))\<lparr>dx_result := res\<rparr>"
  have "processFilteringBeforeRequest env (s, c) = Success (s, ?c)"
    using assms(3,5,6) q by (simp add: processFilteringBeforeRequest_def filterDNSRequest_def Let_def)
  moreover have "processUpstream env (s, ?c) =
      Finish (s, set_res (NewMsgNXDOMAIN (pe_msg env) (sv_filter s) (dx_req ?c)) ?c)"
    using assms(3,4) by (simp add: processUpstream_def map_req_def)
  ultimately have "run_stages [processFilteringBeforeRequest env, processUpstream env] (s, c) =
      Finish (s, set_res (NewMsgNXDOMAIN (pe_msg env) (sv_filter s) (dx_req ?c)) ?c)" by simp
  moreover have "dm_rcode (NewMsgNXDOMAIN (pe_msg env) (sv_filter s) m) = RcodeNameError"
    "dm_answer (NewMsgNXDOMAIN (pe_msg env) (sv_filter s) m) = []" for m
    by (simp_all add: NewMsgNXDOMAIN_def reply_fields [OF assms(1)])
  ultimately show ?thesis using assms(1,2) by auto
qed

section \<open>A pause of the protection ends\<close>

text \<open>While the protection is paused requests are processed without it; from the end of the pause on
  they are processed with it, even before the setting has been updated, and the update that the first of
  them starts makes this permanent.\<close>

theorem protection_pause_ends:
  assumes "fc_disabled_until (df_conf (sv_filter s)) = Some until"
  shows "(now < until \<longrightarrow> UpdatedProtectionStatus now s = ((False, Some until), s)) \<and>
    (until \<le> now \<longrightarrow> (\<exists>s'. UpdatedProtectionStatus now s = ((True, None), s') \<and> sv_protection_update s' \<and>
      sv_filter s' = sv_filter s \<and>
      (\<forall>t. fst (UpdatedProtectionStatus t (enableProtectionAfterPause s')) = (True, None))))"
  using assms
  by (auto simp: UpdatedProtectionStatus_def ProtectionStatus_def enableProtectionAfterPause_def
      SetProtectionStatus_def update_conf_def)

section \<open>Witnesses\<close>

text \<open>A server with a given filter and nothing else switched on but DNSSEC, a resolver that answers every
  question with authenticated data, and a request of a client.\<close>

definition sample_msg_env :: msg_env where
  "sample_msg_env =
     \<lparr>me_SetRcode = (\<lambda>req c. req\<lparr>dm_rcode := c, dm_response := True, dm_question := take 1 (dm_question req),
        dm_answer := [], dm_ns := [], dm_ad := False\<rparr>),
      me_SetQuestion = (\<lambda>n t. \<lparr>dm_id = 0, dm_response = False, dm_rcode = 0, dm_rd = True, dm_ra = False,
        dm_ad = False, dm_compress = False, dm_question = [\<lparr>dq_name = n, dq_type = t, dq_class = 1\<rparr>],
        dm_answer = [], dm_ns = [], dm_edns = None\<rparr>),
      me_Fqdn = (\<lambda>n. if n \<noteq> [] \<and> last n = CHR ''.'' then n else n @ ''.'')\<rparr>"

definition sample_proc_env :: proc_env where
  "sample_proc_env =
     \<lparr>pe_msg = sample_msg_env,
      pe_resolve = Some (\<lambda>_ req. Inr (Some (req\<lparr>dm_response := True, dm_ad := True\<rparr>))),
      pe_subdomain = (\<lambda>_ _. False), pe_rev_addr = (\<lambda>_. None), pe_service_rules = [],
      pe_parse_upstreams = (\<lambda>_. None), pe_client_id = (\<lambda>_. None), pe_now = 100\<rparr>"

definition sample_server :: "dns_engine option \<Rightarrow> dns_server" where
  "sample_server e =
     \<lparr>sv_filter = (update_conf (\<lambda>c. c\<lparr>fc_blocked_services :=
          Some \<lparr>bs_schedule = Some (EmptyWeekly utc_location), bs_ids = []\<rparr>, fc_safebrowsing := False,
            fc_parental := False\<rparr>) sample_filter)\<lparr>df_engine := e\<rparr>,
      sv_aaaa_disabled = False, sv_handle_ddr = False, sv_enable_dnssec = True, sv_refuse_any = False,
      sv_tls = \<lparr>tc_server_name = [], tc_strict_sni = False\<rparr>, sv_https_ports = [], sv_tls_ports = [],
      sv_quic_ports = [], sv_has_ip_addrs = False, sv_dns64_pref = zero_prefix, sv_local_suffix = ''lan'',
      sv_dhcp_enabled = False, sv_ip_by_host = (\<lambda>_. ZeroAddr), sv_host_by_ip = (\<lambda>_. []), sv_clients = None,
      sv_ipset = False, sv_anonymize = id, sv_should_log = None, sv_should_count = None,
      sv_protection_update = False, sv_seen = [], sv_ipset_added = [], sv_log = [], sv_counted = []\<rparr>"

text \<open>An engine that maps every name to an alias.\<close>

definition alias_engine :: dns_engine where
  "alias_engine req =
     (\<lparr>res_network_rule = None, res_host_rules_v4 = None, res_host_rules_v6 = None,
       res_dns_rewrites = [(sample_rule ''a'')\<lparr>nr_rewrite :=
         \<lparr>dw_cname = ''b'', dw_rcode = 0, dw_rrtype = 0, dw_value = RVString []\<rparr>\<rparr>]\<rparr>, True)"

definition sample_request :: "string \<Rightarrow> proxy_ctx" where
  "sample_request n =
     \<lparr>xc_proto = ProtoUDP, xc_addr = Addr4 0x7F000001, xc_request_id = 1,
      xc_req = (me_SetQuestion sample_msg_env n TypeA)\<lparr>dm_ad := True\<rparr>, xc_res = None,
      xc_private_client = True, xc_private_rdns = zero_prefix, xc_custom = None\<rparr>"

lemma sample_msg_env_ok: "msg_env_ok (pe_msg sample_proc_env)"
  by (simp add: msg_env_ok_def sample_msg_env_def sample_proc_env_def)

theorem protection_pause_witness:
  "fst (UpdatedProtectionStatus 100 ((sample_server None)\<lparr>sv_filter :=
     update_conf (\<lambda>c. c\<lparr>fc_disabled_until := Some 50\<rparr>) sample_filter\<rparr>)) = (True, None)"
proof -
  let ?s = "(sample_server None)\<lparr>sv_filter := update_conf (\<lambda>c. c\<lparr>fc_disabled_until := Some 50\<rparr>) sample_filter\<rparr>"
  have "fc_disabled_until (df_conf (sv_filter ?s)) = Some 50" by (simp add: update_conf_def)
  from protection_pause_ends [OF this, of 100] show ?thesis by auto
qed

lemma to_lower_a [simp]: "to_lower ''a'' = ''a''"
  by code_simp

lemma sample_server_simps [simp]:
  "sv_aaaa_disabled (sample_server e) = False" "sv_handle_ddr (sample_server e) = False"
  "sv_enable_dnssec (sample_server e)" "sv_dhcp_enabled (sample_server e) = False" "sv_clients (sample_server e) = None"
  "sv_seen (sample_server e) = []" "sv_ipset (sample_server e) = False"
  "ProtectionStatus (sv_filter (sample_server e)) = (True, None)" "sv_should_log (sample_server e) = None"
  "sv_should_count (sample_server e) = None"
  by (simp_all add: sample_server_def ProtectionStatus_def update_conf_def sample_filter_def)

lemma sample_env_simps [simp]:
  "pe_now sample_proc_env = 100" "pe_client_id sample_proc_env i = None"
  "first_question (xc_req (sample_request n)) = \<lparr>dq_name = n, dq_type = TypeA, dq_class = 1\<rparr>"
  "dm_question (xc_req (sample_request n)) = [\<lparr>dq_name = n, dq_type = TypeA, dq_class = 1\<rparr>]"
  "xc_res (sample_request n) = None" "xc_private_rdns (sample_request n) = zero_prefix"
  "xc_addr (sample_request n) = Addr4 0x7F000001" "dm_answer (xc_req (sample_request n)) = []" "dm_ad (xc_req (sample_request n))"
  "pe_resolve sample_proc_env = Some (\<lambda>_ req. Inr (Some (req\<lparr>dm_response := True, dm_ad := True\<rparr>)))"
  "pe_rev_addr sample_proc_env = (\<lambda>_. None)"
  by (simp_all add: sample_request_def sample_proc_env_def sample_msg_env_def first_question_def)

lemma sample_settings_of_client:
  "clientRequestFilteringSettings sample_proc_env ((sample_server e)\<lparr>sv_seen := l\<rparr>) c =
     Some ((filter_Settings (sv_filter (sample_server e)))\<lparr>st_protection := dx_protection c,
       st_client_ip := xc_addr (dx_pctx c)\<rparr>)"
  by (simp add: clientRequestFilteringSettings_def ApplyAdditionalFiltering_def ApplyBlockedServices_def
      sample_server_def sample_proc_env_def update_conf_def sample_filter_def filter_Settings_def Let_def)

definition sample_ctx :: "dns_engine option \<Rightarrow> dns_context" where
  "sample_ctx e = (new_context (sample_request ''a.'') ((filter_Settings (sv_filter (sample_server e)))
      \<lparr>st_protection := True, st_client_ip := Addr4 0x7F000001\<rparr>))\<lparr>dx_protection := True\<rparr>"

lemma sample_first_stages:
  "run_stages (take 4 (process_stages sample_proc_env))
      (sample_server e, new_context (sample_request ''a.'') (filter_Settings (sv_filter (sample_server e)))) =
    Success ((sample_server e)\<lparr>sv_seen := [Addr4 0x7F000001]\<rparr>, sample_ctx e)"
proof -
  let ?s = "(sample_server e)\<lparr>sv_seen := [Addr4 0x7F000001]\<rparr>"
  have "processClientIP (Addr4 0x7F000001) (sample_server e) = ?s"
    by (simp add: processClientIP_def is_valid_def)
  moreover have "UpdatedProtectionStatus 100 ?s = ((True, None), ?s)"
    by (simp add: UpdatedProtectionStatus_def)
  ultimately show ?thesis
    by (simp add: process_stages_def numeral_eq_Suc processInitial_def processDDRQuery_def processDHCPHosts_def
        processDHCPAddrs_def Let_def new_context_def sample_settings_of_client mozillaFQDN_def healthcheckFQDN_def
        dhcpHostFromRequest_def sample_ctx_def)
qed

lemma sample_check:
  "CheckHost (\<lambda>_. None) (sv_filter (sample_server None)) ''a'' TypeA (dx_setts (sample_ctx None)) = Inr empty_result"
  "CheckHost (\<lambda>_. None) (sv_filter (sample_server (Some (sample_engine (\<lambda>_. True))))) ''a'' TypeA
     (dx_setts (sample_ctx (Some (sample_engine (\<lambda>_. True))))) =
   Inr (makeResult [NetRule (sample_rule ''a'')] FilteredBlockList)"
  "CheckHost (\<lambda>_. None) (sv_filter (sample_server (Some alias_engine))) ''a'' TypeA
     (dx_setts (sample_ctx (Some alias_engine))) =
   Inr (empty_result\<lparr>fr_rules := [nr_result_rule (sample_rule ''a'')], fr_reason := RewrittenRule,
     fr_canon_name := ''b''\<rparr>)"
proof -
  have rw: "processRewrites [] ''a'' TypeA = empty_result"
    by (simp add: processRewrites_def findRewrites_def)
  note defs = CheckHost_def rw hostCheckers_def sample_ctx_def new_context_def sample_server_def update_conf_def
    matchSysHosts_def matchHost_def sample_defs makeResult_def reason_Matched_def
  show "CheckHost (\<lambda>_. None) (sv_filter (sample_server None)) ''a'' TypeA (dx_setts (sample_ctx None)) = Inr empty_result"
    by (simp add: defs matchBlockedServicesRules_def checkSafeBrowsing_def checkParental_def checkSafeSearch_def
        hash_prefix_check_def)
  show "CheckHost (\<lambda>_. None) (sv_filter (sample_server (Some (sample_engine (\<lambda>_. True))))) ''a'' TypeA
      (dx_setts (sample_ctx (Some (sample_engine (\<lambda>_. True))))) =
    Inr (makeResult [NetRule (sample_rule ''a'')] FilteredBlockList)"
    by (simp add: defs processDNSResultRewrites_def matchHostProcessDNSResult_def)
  show "CheckHost (\<lambda>_. None) (sv_filter (sample_server (Some alias_engine))) ''a'' TypeA
      (dx_setts (sample_ctx (Some alias_engine))) =
    Inr (empty_result\<lparr>fr_rules := [nr_result_rule (sample_rule ''a'')], fr_reason := RewrittenRule,
      fr_canon_name := ''b''\<rparr>)"
    by (simp add: defs processDNSResultRewrites_def processDNSRewrites_def alias_engine_def nr_result_rule_def)
qed

lemma sample_trim [simp]: "trim_suffix ''a.'' ''.'' = ''a''"
  by code_simp

lemma sample_ctx_simps [simp]:
  "dx_pctx (sample_ctx e) = sample_request ''a.''" "before_request_setts (sample_ctx e) = dx_setts (sample_ctx e)"
  by (simp_all add: sample_ctx_def new_context_def before_request_setts_def)

theorem blocked_request_witness:
  "\<exists>s' c r. handleDNSRequest sample_proc_env (sample_server (Some (sample_engine (\<lambda>_. True)))) (sample_request ''a.'') =
     Success (s', c) \<and> \<not> dx_from_upstream c \<and> dx_res c = Some r \<and> fr_reason (dx_result c) = FilteredBlockList"
  using blocked_request_spec [OF _ sample_first_stages [of "Some (sample_engine (\<lambda>_. True))"],
      of "makeResult [NetRule (sample_rule ''a'')] FilteredBlockList"]
  by (auto simp: sample_check(2) blocking_reasons_def makeResult_def)

theorem question_restored_witness:
  "case handleDNSRequest sample_proc_env (sample_server (Some alias_engine)) (sample_request ''a.'') of
     Success (s', c) \<Rightarrow> \<exists>r. dx_res c = Some r \<and> dm_question r = [\<lparr>dq_name = ''a.'', dq_type = TypeA, dq_class = 1\<rparr>]
   | Finish (s', c) \<Rightarrow> \<exists>r. dx_res c = Some r \<and> dm_question r = [\<lparr>dq_name = ''a.'', dq_type = TypeA, dq_class = 1\<rparr>]
   | _ \<Rightarrow> True"
  using question_restored [OF sample_msg_env_ok, where p = "sample_request ''a.''" and s = "sample_server (Some alias_engine)"
      and q = "\<lparr>dq_name = ''a.'', dq_type = TypeA, dq_class = 1\<rparr>"]
  by (auto simp: resolver_ok_def split: outcome.splits)

theorem dhcp_alias_witness:
  "\<exists>c' r. run_stages [processFilteringBeforeRequest sample_proc_env, processUpstream sample_proc_env]
      (sample_server (Some alias_engine), (sample_ctx (Some alias_engine))\<lparr>dx_is_dhcp := True\<rparr>) =
      Finish (sample_server (Some alias_engine), c') \<and>
    dx_res c' = Some r \<and> dm_rcode r = RcodeNameError \<and> dm_question r = [\<lparr>dq_name = ''b.'', dq_type = TypeA, dq_class = 1\<rparr>]"
  using dhcp_alias_lost [OF sample_msg_env_ok, where s = "sample_server (Some alias_engine)" and
      c = "(sample_ctx (Some alias_engine))\<lparr>dx_is_dhcp := True\<rparr>" and
      q = "\<lparr>dq_name = ''a.'', dq_type = TypeA, dq_class = 1\<rparr>"]
  by (auto simp: sample_check(3) before_request_setts_def isRewrittenCNAME_def reason_In_def sample_proc_env_def
      sample_msg_env_def)

theorem ad_only_if_requested_witness:
  "\<exists>s' c r. handleDNSRequest sample_proc_env (sample_server None) (sample_request ''a.'') = Success (s', c) \<and>
     dx_res c = Some r \<and> dm_ad r \<and>
     (dm_ad (xc_req (sample_request ''a.'')) \<or> hasDO (xc_req (sample_request ''a.'')))"
proof -
  let ?s = "(sample_server None)\<lparr>sv_seen := [Addr4 0x7F000001]\<rparr>"
  let ?c = "(sample_ctx None)\<lparr>dx_result := empty_result\<rparr>"
  have 1: "processFilteringBeforeRequest sample_proc_env (?s, sample_ctx None) = Success (?s, ?c)"
    by (simp add: processFilteringBeforeRequest_def filterDNSRequest_def sample_check(1) isRewrittenCNAME_def
        reason_In_def Let_def)
  have up: "dx_is_dhcp (sample_ctx None) = False" by (simp add: sample_ctx_def new_context_def)
  obtain c1 where c1: "processUpstream sample_proc_env (?s, ?c) = Success (?s, c1)" "dx_result c1 = empty_result"
    "\<exists>r. dx_res c1 = Some r \<and> dm_ad r \<and> dm_answer r = []"
    by (simp add: processUpstream_def setCustomUpstream_def setReqAD_def setRespAD_def Let_def up)
  then have "\<exists>c2. processFilteringAfterResponse sample_proc_env (?s, c1) = Success (?s, c2) \<and>
      (\<exists>r. dx_res c2 = Some r \<and> dm_ad r)"
    by (cases "dx_protection c1 \<longrightarrow> \<not> dx_from_upstream c1")
      (auto simp: processFilteringAfterResponse_def filterAfterResponse_def filterDNSResponse_def Let_def)
  moreover have "ipset_process (?s, c) = Success (?s, c)" "processQueryLogsAndStats (?s, c) = Success (?s, c)" for c
    by (simp_all add: ipset_process_def processQueryLogsAndStats_def shouldLog_def shouldCountStat_def Let_def)
  ultimately have "\<exists>c r. run_stages (drop 4 (process_stages sample_proc_env)) (?s, sample_ctx None) = Success (?s, c) \<and>
      dx_res c = Some r \<and> dm_ad r"
    using 1 c1(1) by (auto simp: process_stages_def)
  then obtain c r where "run_stages (process_stages sample_proc_env)
      (sample_server None, new_context (sample_request ''a.'') (filter_Settings (sv_filter (sample_server None)))) =
      Success (?s, c)" "dx_res c = Some r" "dm_ad r"
    using run_stages_append [of "take 4 (process_stages sample_proc_env)" "drop 4 (process_stages sample_proc_env)"]
      sample_first_stages [of None] by auto
  then have "handleDNSRequest sample_proc_env (sample_server None) (sample_request ''a.'') =
      Success (?s, set_res (r\<lparr>dm_compress := True\<rparr>) c)" "dm_ad (r\<lparr>dm_compress := True\<rparr>)"
    by (simp_all add: handleDNSRequest_def)
  then show ?thesis
    using ad_only_if_requested [OF sample_msg_env_ok, of "sample_server None" "sample_request ''a.''" ?s
        "set_res (r\<lparr>dm_compress := True\<rparr>) c" "r\<lparr>dm_compress := True\<rparr>"] by auto
qed

end
