(* ===== verification/DhcpTypes.thy ===== *)
theory DhcpTypes
  imports NetIP
begin

text \<open>
  The data of the DHCP server in package \<^verbatim>\<open>internal/dhcpd\<close>: the sparse set of leased offsets
  (\<^verbatim>\<open>bitset.go\<close>), ranges of addresses (\<^verbatim>\<open>iprange.go\<close>), the configuration and its validation
  (\<^verbatim>\<open>config.go\<close>), leases (\<^verbatim>\<open>internal/dhcpsvc/lease.go\<close>) and the names of clients.

  A value of type \<^verbatim>\<open>net.IP\<close> is an address without a zone, and nil is the zero address.
\<close>

section \<open>Sparse sets of bits\<close>

type_synonym bitset = "(64 word \<rightharpoonup> 64 word) option"

definition newBitSet :: bitset where
  "newBitSet = Some Map.empty"

definition bs_isSet :: "bitset \<Rightarrow> 64 word \<Rightarrow> bool" where
  "bs_isSet s n =
     (case s of
        None \<Rightarrow> False
      | Some ws \<Rightarrow>
          (case ws (n div 64) of
             None \<Rightarrow> False
           | Some w \<Rightarrow> and w (push_bit (unat (n mod 64)) 1) \<noteq> 0))"

definition bs_set :: "64 word \<Rightarrow> bool \<Rightarrow> bitset \<Rightarrow> bitset" where
  "bs_set n ok s =
     (case s of
        None \<Rightarrow> None
      | Some ws \<Rightarrow>
          (let w = (case ws (n div 64) of None \<Rightarrow> 0 | Some w \<Rightarrow> w);
               b = push_bit (unat (n mod 64)) 1
           in Some (ws(n div 64 \<mapsto> (if ok then or w b else and w (not b))))))"

lemma word_div_mod_64: "n div 64 = m div 64 \<Longrightarrow> n mod 64 = m mod 64 \<Longrightarrow> n = m" for n m :: "64 word"
  by (metis div_mult_mod_eq)

lemma bs_isSet_bit:
  "bs_isSet (Some ws) n \<longleftrightarrow> (case ws (n div 64) of None \<Rightarrow> False | Some w \<Rightarrow> bit w (unat (n mod 64)))"
  by (simp add: bs_isSet_def bit_iff_and_push_bit_not_eq_0 split: option.split)

text \<open>The sparse set behaves as a set of numbers.\<close>

definition bs_members :: "bitset \<Rightarrow> 64 word set" where
  "bs_members s = {n. bs_isSet s n}"

lemma unat_mod_64: "unat (n mod 64) < 64" for n :: "64 word"
  by (simp add: unat_mod)

lemma bs_members_set:
  assumes "s \<noteq> None"
  shows "bs_members (bs_set n ok s) = (if ok then insert n (bs_members s) else bs_members s - {n})"
proof -
  obtain ws where s: "s = Some ws" using assms by blast
  have bits: "bit (if ok then or w (push_bit (unat (n mod 64)) 1) else and w (not (push_bit (unat (n mod 64)) 1)))
      (unat (m mod 64)) = (if n mod 64 = m mod 64 then ok else bit w (unat (m mod 64)))" for w :: "64 word" and m
    using unat_mod_64 [of m] unat_mod_64 [of n]
    by (auto simp: bit_simps word_unat_eq_iff)
  have "bs_isSet (bs_set n ok s) m = (if m = n then ok else bs_isSet s m)" for m
  proof (cases "m div 64 = n div 64")
    case True
    then show ?thesis
      using word_div_mod_64 [of m n] bits [of "case ws (n div 64) of None \<Rightarrow> 0 | Some w \<Rightarrow> w" m]
      by (auto simp: s bs_set_def bs_isSet_bit Let_def split: option.splits if_splits)
  next
    case False
    then show ?thesis by (auto simp: s bs_set_def bs_isSet_bit Let_def)
  qed
  then show ?thesis by (auto simp: bs_members_def)
qed

lemma bs_members_new [simp]: "bs_members newBitSet = {}"
  by (simp add: bs_members_def newBitSet_def bs_isSet_def)

lemma bs_set_not_None [simp]: "bs_set n ok s = None \<longleftrightarrow> s = None"
  by (simp add: bs_set_def Let_def split: option.split)

section \<open>Ranges of addresses\<close>

record ip_range =
  ir_start :: int
  ir_end :: int

definition maxRangeLen :: int where
  "maxRangeLen = 4294967295"

datatype conf_error = NilConfig | NotIPv4 addr string | RangeOrder | RangeTooLarge | GatewayInRange
  | RangeStartOutside | RangeEndOutside

definition ip_int :: "addr \<Rightarrow> int" where
  "ip_int a = uint (word16 a)"

definition newIPRange :: "addr \<Rightarrow> addr \<Rightarrow> (conf_error, ip_range) result" where
  "newIPRange start stop =
     (let diff = ip_int stop - ip_int start in
      if diff \<le> 0 then Inl RangeOrder
      else if diff \<ge> 2 ^ 64 \<or> diff > maxRangeLen then Inl RangeTooLarge
      else Inr \<lparr>ir_start = ip_int start, ir_end = ip_int stop\<rparr>)"

definition containsInt :: "ip_range \<Rightarrow> int \<Rightarrow> bool" where
  "containsInt r i \<longleftrightarrow> ir_start r \<le> i \<and> i \<le> ir_end r"

definition ir_contains :: "ip_range option \<Rightarrow> addr \<Rightarrow> bool" where
  "ir_contains r ip = (case r of None \<Rightarrow> False | Some r \<Rightarrow> containsInt r (ip_int ip))"

text \<open>The loop over the numbers of a range; the predicate is given the address in the 16-byte form.\<close>

definition ip_of_int :: "int \<Rightarrow> addr" where
  "ip_of_int i = Addr6 (word_of_int i) []"

function ir_find_from :: "int \<Rightarrow> int \<Rightarrow> (addr \<Rightarrow> bool) \<Rightarrow> addr" where
  "ir_find_from i stop p =
     (if i \<le> stop then if p (ip_of_int i) then ip_of_int i else ir_find_from (i + 1) stop p else ZeroAddr)"
  by pat_completeness auto
termination by (relation "measure (\<lambda>(i, stop, _). nat (stop + 1 - i))") auto

declare ir_find_from.simps [simp del]

definition ir_find :: "ip_range option \<Rightarrow> (addr \<Rightarrow> bool) \<Rightarrow> addr" where
  "ir_find r p = (case r of None \<Rightarrow> ZeroAddr | Some r \<Rightarrow> ir_find_from (ir_start r) (ir_end r) p)"

definition ir_offset :: "ip_range option \<Rightarrow> addr \<Rightarrow> 64 word \<times> bool" where
  "ir_offset r ip =
     (case r of
        None \<Rightarrow> (0, False)
      | Some r \<Rightarrow>
          if \<not> containsInt r (ip_int ip) then (0, False) else (word_of_int (ip_int ip - ir_start r), True))"

text \<open>A range made by the constructor, for addresses of the fourth version.\<close>

definition range_wf :: "ip_range \<Rightarrow> bool" where
  "range_wf r \<longleftrightarrow> (\<exists>a b. newIPRange (Addr4 a) (Addr4 b) = Inr r)"

lemma word16_v4: "uint (word16 (Addr4 w)) = 0xFFFF00000000 + uint w"
proof -
  have w: "uint w < 2 ^ 32" using unsigned_less [of w] by simp
  then have "uint (ucast w :: 128 word) = uint w"
    by (simp add: unsigned_ucast_eq take_bit_int_eq_self)
  with w show ?thesis by (simp add: uint_word_ariths)
qed

lemma ir_find_from_spec:
  "ir_find_from i stop p = ZeroAddr \<and> (\<forall>j. i \<le> j \<and> j \<le> stop \<longrightarrow> \<not> p (ip_of_int j)) \<or>
   (\<exists>j. i \<le> j \<and> j \<le> stop \<and> ir_find_from i stop p = ip_of_int j \<and> p (ip_of_int j) \<and>
      (\<forall>k. i \<le> k \<and> k < j \<longrightarrow> \<not> p (ip_of_int k)))"
proof (induction i stop p rule: ir_find_from.induct)
  case (1 i stop p)
  show ?case
  proof (cases "i \<le> stop \<and> \<not> p (ip_of_int i)")
    case True
    have split: "j = i \<or> i + 1 \<le> j" if "i \<le> j" for j using that by linarith
    from 1 True True show ?thesis
      by (subst (1 2) ir_find_from.simps) (smt (verit) split)
  next
    case False
    then show ?thesis by (subst (1 2) ir_find_from.simps) auto
  qed
qed

section \<open>Leases\<close>

text \<open>Instants and durations are in nanoseconds.\<close>

record lease =
  ls_ip :: addr
  ls_expiry :: int
  ls_hostname :: string
  ls_hwaddr :: mac
  ls_static :: bool

definition zero_time :: int where
  "zero_time = - 62135596800000000000"

section \<open>Configuration\<close>

record v4_conf =
  vc_enabled :: bool
  vc_gateway :: addr
  vc_mask :: addr
  vc_broadcast :: addr
  vc_range_start :: addr
  vc_range_end :: addr
  vc_lease_duration :: "32 word"
  vc_icmp_timeout :: "32 word"
  vc_options :: "string list"
  vc_range :: "ip_range option"
  vc_lease_time :: int
  vc_dns :: "addr list"
  vc_subnet :: prefix

definition ensureV4 :: "addr \<Rightarrow> string \<Rightarrow> (conf_error, addr) result" where
  "ensureV4 ip kind = (if is4 (unmap ip) then Inr (unmap ip) else Inl (NotIPv4 ip kind))"

text \<open>The length of a canonical mask, and 0 for any other.\<close>

definition mask_size :: "addr \<Rightarrow> int" where
  "mask_size a =
     (case a of
        Addr4 w \<Rightarrow> (case find (\<lambda>n. w = push_bit (32 - n) (mask n)) [0..<33] of Some n \<Rightarrow> int n | None \<Rightarrow> 0)
      | _ \<Rightarrow> 0)"

definition BroadcastFromPref :: "prefix \<Rightarrow> addr" where
  "BroadcastFromPref p =
     (case unmap (pfx_addr p) of
        ZeroAddr \<Rightarrow> ZeroAddr
      | Addr4 w \<Rightarrow> Addr4 (or w (mask (32 - nat (pfx_bits p))))
      | Addr6 w z \<Rightarrow> if pfx_bits p = 128 then Addr6 w z else Addr6 (or w (mask (128 - nat (pfx_bits p)))) [])"

definition v4_Validate :: "v4_conf option \<Rightarrow> (conf_error, v4_conf) result" where
  "v4_Validate conf =
     (case conf of
        None \<Rightarrow> Inl NilConfig
      | Some c \<Rightarrow>
          bind_result (ensureV4 (vc_gateway c) ''address'') (\<lambda>gatewayIP.
          bind_result (ensureV4 (vc_mask c) ''subnet mask'') (\<lambda>subnetMask.
            (let subnet = prefix_from gatewayIP (mask_size subnetMask) in
             bind_result (ensureV4 (vc_range_start c) ''address'') (\<lambda>rangeStart.
             bind_result (ensureV4 (vc_range_end c) ''address'') (\<lambda>rangeEnd.
             bind_result (newIPRange rangeStart rangeEnd) (\<lambda>r.
               if ir_contains (Some r) gatewayIP then Inl GatewayInRange
               else if \<not> prefix_contains subnet rangeStart then Inl RangeStartOutside
               else if \<not> prefix_contains subnet rangeEnd then Inl RangeEndOutside
               else Inr (c\<lparr>vc_subnet := subnet, vc_broadcast := BroadcastFromPref subnet, vc_range := Some r\<rparr>))))))))"

section \<open>Names of clients\<close>

text \<open>
  \<open>outer\<close> stands for \<^verbatim>\<open>netutil.IsValidHostOuterRune\<close> of module \<^verbatim>\<open>golibs\<close>.  The expanded form of an
  address has four digits in each group.
\<close>

definition normalizeHostname :: "(char \<Rightarrow> bool) \<Rightarrow> string \<Rightarrow> string option" where
  "normalizeHostname outer hostname =
     (if hostname = [] then Some []
      else
        let parts = fields_func (\<lambda>c. c \<noteq> CHR ''.'' \<and> \<not> outer c) (to_lower hostname) in
        if parts = [] then None else Some (trim_suffix (join_with ''-'' parts) ''-''))"

definition pad4 :: "string \<Rightarrow> string" where
  "pad4 s = replicate (4 - length s) (CHR ''0'') @ s"

definition GenerateHostname :: "addr \<Rightarrow> string option" where
  "GenerateHostname ip =
     (case unmap ip of
        ZeroAddr \<Rightarrow> None
      | Addr4 w \<Rightarrow> Some (map (\<lambda>c. if c = CHR ''.'' then CHR ''-'' else c) (ipv4_string w))
      | Addr6 w z \<Rightarrow>
          Some (join_with ''-'' (map (pad4 \<circ> num_string 16) (groups16 w)) @
            (if z = [] then [] else map (\<lambda>c. if c = CHR '':'' then CHR ''-'' else c) (''%'' @ z))))"

end
