(* ===== verification/DhcpV4.thy ===== *)
theory DhcpV4
  imports DhcpTypes RuleParser
begin

text \<open>
  The DHCPv4 server of package \<^verbatim>\<open>internal/dhcpd\<close>: \<^verbatim>\<open>v4_unix.go\<close> and the options of
  \<^verbatim>\<open>options_unix.go\<close>.

  Leases are shared between the slice of leases and the two indexes, and are changed in place, so the
  server has a heap of leases and the slice and indexes hold references.  A loop over the slice goes on
  over the array that the slice had at its start, whose elements a removal shifts; the part of the array
  behind the end of the slice is the field \<open>v4_tail\<close>.

  Arguments of the model: the checks of host names and hardware addresses of module \<^verbatim>\<open>golibs\<close>, the reply
  to an echo request and the clock, whose reading is the same throughout one call.
\<close>

section \<open>Options\<close>

datatype msg_type = MsgDiscover | MsgOffer | MsgRequest | MsgDecline | MsgAck | MsgNak | MsgRelease | MsgOther nat

datatype opt_val = OMsg msg_type | OAddr addr | OAddrs "addr list" | OText string | OTime int | ORaw "nat list"

type_synonym options = "nat \<rightharpoonup> opt_val"

definition parse_bool :: "string \<Rightarrow> bool option" where
  "parse_bool s =
     (if s \<in> {''1'', ''t'', ''T'', ''TRUE'', ''true'', ''True''} then Some True
      else if s \<in> {''0'', ''f'', ''F'', ''FALSE'', ''false'', ''False''} then Some False
      else None)"

text \<open>
  \<open>parse_dur\<close> stands for the parser of durations of module \<^verbatim>\<open>golibs\<close>.  An option with no value is one to be
  removed.
\<close>

definition parseDHCPOptionIPs :: "string \<Rightarrow> addr list option" where
  "parseDHCPOptionIPs s = all_some (map parse_ipv4 (split_on (CHR '','') s))"

definition parseDHCPOptionVal :: "(string \<Rightarrow> int option) \<Rightarrow> string \<Rightarrow> string \<Rightarrow> opt_val option option" where
  "parseDHCPOptionVal parse_dur typ valStr =
     (if typ = ''bool'' then map_option (\<lambda>b. Some (ORaw [if b then 1 else 0])) (parse_bool valStr)
      else if typ = ''del'' then Some None
      else if typ = ''dur'' then map_option (Some \<circ> OTime) (parse_dur valStr)
      else if typ = ''hex'' then map_option (Some \<circ> ORaw) (hex_bytes valStr)
      else if typ = ''ip'' then map_option (Some \<circ> OAddr) (parse_ipv4 valStr)
      else if typ = ''ips'' then map_option (Some \<circ> OAddrs) (parseDHCPOptionIPs valStr)
      else if typ = ''text'' then Some (Some (OText valStr))
      else if typ = ''u8'' then map_option (\<lambda>n. Some (ORaw [n])) (parse_uint 8 valStr)
      else if typ = ''u16'' then map_option (\<lambda>n. Some (ORaw [n div 256, n mod 256])) (parse_uint 16 valStr)
      else None)"

definition split_space3 :: "string \<Rightarrow> string list" where
  "split_space3 s =
     (case split_on (CHR '' '') s of
        a # b # c # rest \<Rightarrow> [a, b, join_with '' '' (c # rest)]
      | parts \<Rightarrow> parts)"

definition parseDHCPOption :: "(string \<Rightarrow> int option) \<Rightarrow> string \<Rightarrow> (nat \<times> opt_val option) option" where
  "parseDHCPOption parse_dur s =
     (let parts = split_space3 (TrimSpace s) in
      if length parts < 3 \<and> (length parts < 2 \<or> parts ! 1 \<noteq> ''del'') then None
      else
        let valStr = (if length parts < 3 then [] else parts ! 2) in
        case parse_uint 8 (parts ! 0) of
          None \<Rightarrow> None
        | Some code \<Rightarrow>
            map_option (\<lambda>val. (code, val)) (parseDHCPOptionVal parse_dur (parts ! 1) valStr))"

definition second_dur :: int where
  "second_dur = 1000000000"

definition default_options :: "v4_conf \<Rightarrow> options" where
  "default_options c =
     [19 \<mapsto> ORaw [0], 20 \<mapsto> ORaw [0], 22 \<mapsto> ORaw [2, 64], 23 \<mapsto> ORaw [64], 24 \<mapsto> OTime (600 * second_dur),
      25 \<mapsto> ORaw [0, 0x44, 1, 0x28, 1, 0xFC, 3, 0xEE, 5, 0xD4, 7, 0xD2, 0x11, 0, 0x1F, 0xE6, 0x45, 0xFA],
      27 \<mapsto> ORaw [0], 29 \<mapsto> ORaw [0], 30 \<mapsto> ORaw [0], 31 \<mapsto> ORaw [1], 32 \<mapsto> OAddr (Addr4 0xE0000002),
      28 \<mapsto> OAddr (Addr4 0xFFFFFFFF), 34 \<mapsto> ORaw [0], 35 \<mapsto> OTime (60 * second_dur), 36 \<mapsto> ORaw [0],
      37 \<mapsto> OTime (60 * second_dur), 38 \<mapsto> OTime (7200 * second_dur), 39 \<mapsto> ORaw [1],
      3 \<mapsto> OAddrs [vc_gateway c], 1 \<mapsto> OAddr (vc_mask c)]"

text \<open>The implicit options, and the explicit ones with those to be removed.\<close>

definition prepareOptions ::
  "(string \<Rightarrow> int option) \<Rightarrow> v4_conf \<Rightarrow> options \<times> (nat \<rightharpoonup> opt_val option)" where
  "prepareOptions parse_dur c =
     fold (\<lambda>str (imp, exp). case parseDHCPOption parse_dur str of
              None \<Rightarrow> (imp, exp)
            | Some (code, val) \<Rightarrow> (imp(code := None), exp(code \<mapsto> val)))
       (vc_options c) (default_options c, Map.empty)"

section \<open>State\<close>

datatype lease_change = LeaseAdded | LeaseAddedStatic | LeaseRemovedStatic | LeaseRemovedAll

text \<open>Storing the database writes the leases as they are at that time.\<close>

datatype lease_event = DBStored "lease list" | LeaseChanged lease_change

type_synonym lref = nat

record v4_server =
  v4_conf :: "v4_conf option"
  v4_implicit :: options
  v4_explicit :: "nat \<rightharpoonup> opt_val option"
  v4_offsets :: bitset
  v4_heap :: "lref \<Rightarrow> lease"
  v4_fresh :: lref
  v4_leases :: "lref list"
  v4_tail :: "lref list"
  v4_hosts :: "string \<rightharpoonup> lref"
  v4_ips :: "addr \<rightharpoonup> lref"
  v4_events :: "lease_event list"

record dhcp_env =
  de_outer :: "char \<Rightarrow> bool"
  de_valid_hostname :: "string \<Rightarrow> bool"
  de_valid_mac :: "mac \<Rightarrow> bool"
  de_in_use :: "addr \<Rightarrow> bool"
  de_now :: int

datatype v4_error = ErrUnconfigured | NotV4Lease addr | GatewayLease addr | BadMAC mac | BadHostname string
  | ErrDupHostname | ErrDupIP | OutsideSubnet addr | OutOfRange addr | StaticLeaseExists | DifferentLease addr
  | LeaseNotFound | CantFindLease mac

abbreviation lease_at :: "v4_server \<Rightarrow> lref \<Rightarrow> lease" where
  "lease_at s r \<equiv> v4_heap s r"

definition upd_lease :: "lref \<Rightarrow> (lease \<Rightarrow> lease) \<Rightarrow> v4_server \<Rightarrow> v4_server" where
  "upd_lease r f s = s\<lparr>v4_heap := (v4_heap s)(r := f (v4_heap s r))\<rparr>"

definition alloc_lease :: "lease \<Rightarrow> v4_server \<Rightarrow> lref \<times> v4_server" where
  "alloc_lease l s = (v4_fresh s, s\<lparr>v4_heap := (v4_heap s)(v4_fresh s := l), v4_fresh := v4_fresh s + 1\<rparr>)"

definition notify_store :: "v4_server \<Rightarrow> v4_server" where
  "notify_store s = s\<lparr>v4_events := v4_events s @ [DBStored (map (lease_at s) (v4_leases s))]\<rparr>"

definition notify_change :: "lease_change \<Rightarrow> v4_server \<Rightarrow> v4_server" where
  "notify_change ch s = s\<lparr>v4_events := v4_events s @ [LeaseChanged ch]\<rparr>"

section \<open>Lookups\<close>

text \<open>\<^term>\<open>None\<close> is a panic, for an address that is not valid.\<close>

definition validHostnameForClient :: "dhcp_env \<Rightarrow> string \<Rightarrow> addr \<Rightarrow> string option" where
  "validHostnameForClient env cliHostname ip =
     (let h0 = (case normalizeHostname (de_outer env) cliHostname of None \<Rightarrow> [] | Some n \<Rightarrow> n);
          h1 = (if h0 = [] then GenerateHostname ip else Some h0)
      in map_option (\<lambda>h. if de_valid_hostname env h then h else []) h1)"

definition HostByIP :: "addr \<Rightarrow> v4_server \<Rightarrow> string" where
  "HostByIP ip s = (case v4_ips s ip of Some r \<Rightarrow> ls_hostname (lease_at s r) | None \<Rightarrow> [])"

definition IPByHost :: "string \<Rightarrow> v4_server \<Rightarrow> addr" where
  "IPByHost host s = (case v4_hosts s host of Some r \<Rightarrow> ls_ip (lease_at s r) | None \<Rightarrow> ZeroAddr)"

definition isBlocklisted :: "lease \<Rightarrow> bool" where
  "isBlocklisted l \<longleftrightarrow> ls_hwaddr l \<noteq> [] \<and> (\<forall>b \<in> set (ls_hwaddr l). b = 0)"

definition GetLeases :: "int \<Rightarrow> bool \<Rightarrow> bool \<Rightarrow> v4_server \<Rightarrow> lease list" where
  "GetLeases now getDynamic getStatic s =
     filter (\<lambda>l. getDynamic \<and> now < ls_expiry l \<and> \<not> isBlocklisted l \<or> getStatic \<and> ls_static l)
       (map (lease_at s) (v4_leases s))"

definition FindMACbyIP :: "int \<Rightarrow> addr \<Rightarrow> v4_server \<Rightarrow> mac option" where
  "FindMACbyIP now ip s =
     (if \<not> is4 ip then None
      else case v4_ips s ip of
        Some r \<Rightarrow> if ls_static (lease_at s r) \<or> now < ls_expiry (lease_at s r) then Some (ls_hwaddr (lease_at s r)) else None
      | None \<Rightarrow> None)"

definition findLease :: "mac \<Rightarrow> v4_server \<Rightarrow> lref option" where
  "findLease m s = find (\<lambda>r. ls_hwaddr (lease_at s r) = m) (v4_leases s)"

definition findLeaseForIP :: "addr \<Rightarrow> mac \<Rightarrow> v4_server \<Rightarrow> lref option" where
  "findLeaseForIP ip m s =
     (if ip = ZeroAddr then None
      else find (\<lambda>r. ls_hwaddr (lease_at s r) = m \<and> ls_ip (lease_at s r) = ip) (v4_leases s))"

section \<open>Adding and removing leases\<close>

definition blocklistLease :: "dhcp_env \<Rightarrow> v4_conf \<Rightarrow> lref \<Rightarrow> v4_server \<Rightarrow> v4_server" where
  "blocklistLease env c r =
     upd_lease r (\<lambda>l. l\<lparr>ls_hwaddr := replicate 6 0, ls_hostname := [], ls_expiry := de_now env + vc_lease_time c\<rparr>)"

definition rmLeaseByIndex :: "v4_conf \<Rightarrow> nat \<Rightarrow> v4_server \<Rightarrow> v4_server" where
  "rmLeaseByIndex c i s =
     (if length (v4_leases s) \<le> i then s
      else
        let l = lease_at s (v4_leases s ! i); (offset, ok) = ir_offset (vc_range c) (ls_ip l)
        in s\<lparr>v4_leases := take i (v4_leases s) @ drop (i + 1) (v4_leases s),
             v4_tail := last (v4_leases s) # v4_tail s,
             v4_offsets := (if ok then bs_set offset False (v4_offsets s) else v4_offsets s),
             v4_hosts := (v4_hosts s)(ls_hostname l := None),
             v4_ips := (v4_ips s)(ls_ip l := None)\<rparr>)"

text \<open>
  The loop of \<open>rmDynamicLease\<close> from index \<open>i\<close> on with \<open>k\<close> elements left.  The error is returned with the
  state reached; \<^term>\<open>None\<close> is an index out of range.
\<close>

fun rm_dynamic_loop :: "v4_conf \<Rightarrow> lref \<Rightarrow> nat \<Rightarrow> nat \<Rightarrow> v4_server \<Rightarrow> (v4_error option \<times> v4_server) option" where
  "rm_dynamic_loop c x i 0 s = Some (None, s)"
| "rm_dynamic_loop c x i (Suc k) s =
     (let r = (v4_leases s @ v4_tail s) ! i; l = lease_at s r; isStatic = ls_static l;
          clear = (\<lambda>r s. if \<not> isStatic \<and> ls_hostname (lease_at s r) = ls_hostname (lease_at s x)
                         then upd_lease r (\<lambda>l. l\<lparr>ls_hostname := []\<rparr>) s else s)
      in if ls_hwaddr l = ls_hwaddr (lease_at s x) \<or> ls_ip l = ls_ip (lease_at s x) then
           if isStatic then Some (Some StaticLeaseExists, s)
           else
             let s1 = rmLeaseByIndex c i s in
             if i = length (v4_leases s1) then Some (None, s1)
             else if length (v4_leases s1) < i then None
             else rm_dynamic_loop c x (i + 1) k (clear (v4_leases s1 ! i) s1)
         else rm_dynamic_loop c x (i + 1) k (clear r s))"

definition rmDynamicLease :: "v4_conf \<Rightarrow> lref \<Rightarrow> v4_server \<Rightarrow> (v4_error option \<times> v4_server) option" where
  "rmDynamicLease c x s = rm_dynamic_loop c x 0 (length (v4_leases s)) s"

text \<open>The offset of an address outside the range is 0, and is marked too.\<close>

definition addLease :: "v4_conf \<Rightarrow> lref \<Rightarrow> v4_server \<Rightarrow> v4_error option \<times> v4_server" where
  "addLease c r s =
     (let l = lease_at s r; (offset, inOffset) = ir_offset (vc_range c) (ls_ip l) in
      if ls_static l \<and> \<not> prefix_contains (vc_subnet c) (ls_ip l) then (Some (OutsideSubnet (ls_ip l)), s)
      else if \<not> ls_static l \<and> \<not> inOffset then (Some (OutOfRange (ls_ip l)), s)
      else if ls_hostname l \<noteq> [] \<and> v4_hosts s (ls_hostname l) \<noteq> None then (Some ErrDupHostname, s)
      else (None, s\<lparr>v4_hosts := (if ls_hostname l \<noteq> [] then (v4_hosts s)(ls_hostname l \<mapsto> r) else v4_hosts s),
                    v4_ips := (v4_ips s)(ls_ip l \<mapsto> r),
                    v4_leases := v4_leases s @ [r], v4_tail := drop 1 (v4_tail s),
                    v4_offsets := bs_set offset True (v4_offsets s)\<rparr>))"

definition rmLease :: "v4_conf \<Rightarrow> lease \<Rightarrow> v4_server \<Rightarrow> v4_error option \<times> v4_server" where
  "rmLease c x s =
     (if v4_leases s = [] then (None, s)
      else case find (\<lambda>i. ls_ip (lease_at s (v4_leases s ! i)) = ls_ip x) [0..<length (v4_leases s)] of
        None \<Rightarrow> (Some LeaseNotFound, s)
      | Some i \<Rightarrow>
          (let l = lease_at s (v4_leases s ! i) in
           if ls_hwaddr l \<noteq> ls_hwaddr x \<or> ls_hostname l \<noteq> ls_hostname x then (Some (DifferentLease (ls_ip x)), s)
           else (None, rmLeaseByIndex c i s)))"

section \<open>Static leases\<close>

definition updateStaticLease :: "v4_conf \<Rightarrow> lref \<Rightarrow> v4_server \<Rightarrow> (v4_error option \<times> v4_server) option" where
  "updateStaticLease c x s =
     (case rmDynamicLease c x s of
        None \<Rightarrow> None
      | Some (Some e, s1) \<Rightarrow> Some (Some e, s1)
      | Some (None, s1) \<Rightarrow> Some (addLease c x s1))"

text \<open>The host name of a static lease, normalised and checked.\<close>

definition static_hostname :: "dhcp_env \<Rightarrow> string \<Rightarrow> (v4_error, string) result" where
  "static_hostname env h =
     (case normalizeHostname (de_outer env) h of
        None \<Rightarrow> Inl (BadHostname h)
      | Some n \<Rightarrow> if de_valid_hostname env n then Inr n else Inl (BadHostname n))"

definition AddStaticLease :: "dhcp_env \<Rightarrow> lease \<Rightarrow> v4_server \<Rightarrow> (v4_error option \<times> v4_server) option" where
  "AddStaticLease env l0 s =
     (case v4_conf s of
        None \<Rightarrow> Some (Some ErrUnconfigured, s)
      | Some c \<Rightarrow>
          (let l = l0\<lparr>ls_ip := unmap (ls_ip l0), ls_static := True\<rparr> in
           if \<not> is4 (ls_ip l) then Some (Some (NotV4Lease (ls_ip l)), s)
           else if vc_gateway c = ls_ip l then Some (Some (GatewayLease (ls_ip l)), s)
           else if \<not> de_valid_mac env (ls_hwaddr l) then Some (Some (BadMAC (ls_hwaddr l)), s)
           else
             case (if ls_hostname l \<noteq> [] then static_hostname env (ls_hostname l) else Inr []) of
               Inl e \<Rightarrow> Some (Some e, s)
             | Inr hostname \<Rightarrow>
                 (case alloc_lease (l\<lparr>ls_hostname := hostname\<rparr>) s of (x, s1) \<Rightarrow>
                    (case updateStaticLease c x s1 of
                       None \<Rightarrow> None
                     | Some (Some e, s2) \<Rightarrow> Some (Some e, s2)
                     | Some (None, s2) \<Rightarrow> Some (None, notify_change LeaseAddedStatic (notify_store s2))))))"

definition validateStaticLease :: "dhcp_env \<Rightarrow> v4_conf \<Rightarrow> lease \<Rightarrow> v4_server \<Rightarrow> (v4_error, lease) result" where
  "validateStaticLease env c l s =
     (case static_hostname env (ls_hostname l) of
        Inl e \<Rightarrow> Inl e
      | Inr hostname \<Rightarrow>
          (let other = (\<lambda>d. case d of None \<Rightarrow> False | Some r \<Rightarrow> ls_hwaddr (lease_at s r) \<noteq> ls_hwaddr l) in
           if other (v4_hosts s hostname) then Inl ErrDupHostname
           else if other (v4_ips s (ls_ip l)) then Inl ErrDupIP
           else if vc_gateway c = ls_ip l then Inl (GatewayLease (ls_ip l))
           else if \<not> prefix_contains (vc_subnet c) (ls_ip l) then Inl (OutsideSubnet (ls_ip l))
           else Inr (l\<lparr>ls_hostname := hostname\<rparr>)))"

text \<open>A server that is not configured has no leases, so the first check fails.\<close>

definition UpdateStaticLease :: "dhcp_env \<Rightarrow> lease \<Rightarrow> v4_server \<Rightarrow> v4_error option \<times> v4_server" where
  "UpdateStaticLease env l0 s =
     (case (findLease (ls_hwaddr l0) s, v4_conf s) of
        (Some found, Some c) \<Rightarrow>
          (case validateStaticLease env c l0 s of
             Inl e \<Rightarrow> (Some e, s)
           | Inr l \<Rightarrow>
               (case rmLease c (lease_at s found) s of
                  (Some e, s1) \<Rightarrow> (Some e, s1)
                | (None, s1) \<Rightarrow>
                    (case alloc_lease l s1 of (x, s2) \<Rightarrow>
                       (case addLease c x s2 of
                          (Some e, s3) \<Rightarrow> (Some e, s3)
                        | (None, s3) \<Rightarrow> (None, notify_change LeaseRemovedStatic (notify_store s3))))))
      | _ \<Rightarrow> (Some (CantFindLease (ls_hwaddr l0)), s))"

definition RemoveStaticLease :: "dhcp_env \<Rightarrow> lease \<Rightarrow> v4_server \<Rightarrow> v4_error option \<times> v4_server" where
  "RemoveStaticLease env l s =
     (case v4_conf s of
        None \<Rightarrow> (Some ErrUnconfigured, s)
      | Some c \<Rightarrow>
          if \<not> is4 (ls_ip l) then (Some (NotV4Lease (ls_ip l)), s)
          else if \<not> de_valid_mac env (ls_hwaddr l) then (Some (BadMAC (ls_hwaddr l)), s)
          else case rmLease c l s of
            (Some e, s1) \<Rightarrow> (Some e, s1)
          | (None, s1) \<Rightarrow> (None, notify_change LeaseRemovedStatic (notify_store s1)))"

text \<open>A lease that cannot be added is skipped.\<close>

fun reset_loop :: "dhcp_env \<Rightarrow> v4_conf \<Rightarrow> lease list \<Rightarrow> v4_server \<Rightarrow> v4_server option" where
  "reset_loop env c [] s = Some s"
| "reset_loop env c (l # ls) s =
     (case (if ls_static l then Some (ls_hostname l) else validHostnameForClient env (ls_hostname l) (ls_ip l)) of
        None \<Rightarrow> None
      | Some h \<Rightarrow>
          (case alloc_lease (l\<lparr>ls_hostname := h\<rparr>) s of (x, s1) \<Rightarrow> reset_loop env c ls (snd (addLease c x s1))))"

definition ResetLeases :: "dhcp_env \<Rightarrow> lease list \<Rightarrow> v4_server \<Rightarrow> v4_server option" where
  "ResetLeases env ls s =
     (case v4_conf s of
        None \<Rightarrow> Some s
      | Some c \<Rightarrow>
          reset_loop env c ls (s\<lparr>v4_offsets := newBitSet, v4_hosts := Map.empty, v4_ips := Map.empty,
            v4_leases := [], v4_tail := []\<rparr>))"

section \<open>Allocating leases\<close>

fun to4 :: "addr \<Rightarrow> addr" where
  "to4 a = (case unmap a of Addr4 w \<Rightarrow> Addr4 w | _ \<Rightarrow> ZeroAddr)"

definition addrAvailable :: "dhcp_env \<Rightarrow> v4_conf \<Rightarrow> addr \<Rightarrow> bool" where
  "addrAvailable env c target = (if vc_icmp_timeout c = 0 then True else \<not> de_in_use env target)"

definition nextIP :: "v4_conf \<Rightarrow> v4_server \<Rightarrow> addr" where
  "nextIP c s =
     to4 (ir_find (vc_range c) (\<lambda>next.
       (case ir_offset (vc_range c) next of (offset, ok) \<Rightarrow> ok \<and> \<not> bs_isSet (v4_offsets s) offset)))"

definition expired :: "int \<Rightarrow> lease \<Rightarrow> bool" where
  "expired now l \<longleftrightarrow> \<not> ls_static l \<and> ls_expiry l < now"

definition findExpiredLease :: "int \<Rightarrow> v4_server \<Rightarrow> nat option" where
  "findExpiredLease now s = find (\<lambda>i. expired now (lease_at s (v4_leases s ! i))) [0..<length (v4_leases s)]"

text \<open>An address copied over another one replaces as many bytes as both have.\<close>

definition copy_mac :: "mac \<Rightarrow> mac \<Rightarrow> mac" where
  "copy_mac dst src = take (length dst) src @ drop (length src) dst"

definition reserveLease ::
  "dhcp_env \<Rightarrow> v4_conf \<Rightarrow> mac \<Rightarrow> v4_server \<Rightarrow> (v4_error, lref option) result \<times> v4_server" where
  "reserveLease env c m s =
     (let ip = nextIP c s in
      if ip = ZeroAddr then
        (case findExpiredLease (de_now env) s of
           None \<Rightarrow> (Inr None, s)
         | Some i \<Rightarrow>
             (let r = v4_leases s ! i
              in (Inr (Some r), upd_lease r (\<lambda>l. l\<lparr>ls_hwaddr := copy_mac (ls_hwaddr l) m\<rparr>) s)))
      else
        case alloc_lease \<lparr>ls_ip = ip, ls_expiry = zero_time, ls_hostname = [], ls_hwaddr = m, ls_static = False\<rparr> s of
          (r, s1) \<Rightarrow>
            (case addLease c r s1 of
               (Some e, s2) \<Rightarrow> (Inl e, s2)
             | (None, s2) \<Rightarrow> (Inr (Some r), s2)))"

definition commitLease :: "dhcp_env \<Rightarrow> v4_conf \<Rightarrow> lref \<Rightarrow> string \<Rightarrow> v4_server \<Rightarrow> v4_server option" where
  "commitLease env c r hostname s =
     (let prev = ls_hostname (lease_at s r); ip = ls_ip (lease_at s r) in
      case validHostnameForClient env hostname ip of
        None \<Rightarrow> None
      | Some h0 \<Rightarrow>
          (case (if v4_hosts s h0 \<noteq> None then if prev = [] then GenerateHostname ip else Some prev else Some h0) of
             None \<Rightarrow> None
           | Some h \<Rightarrow>
               (let s1 = upd_lease r (\<lambda>l. l\<lparr>ls_hostname := h, ls_expiry := de_now env + vc_lease_time c\<rparr>) s;
                    hosts1 = (if prev \<noteq> [] \<and> prev \<noteq> h then (v4_hosts s)(prev := None) else v4_hosts s)
                in Some (s1\<lparr>v4_hosts := (if h \<noteq> [] then hosts1(h \<mapsto> r) else hosts1),
                            v4_ips := (v4_ips s)(ip \<mapsto> r)\<rparr>))))"

text \<open>The loop until an address is found that no device uses.\<close>

partial_function (option) allocateLease ::
  "dhcp_env \<Rightarrow> v4_conf \<Rightarrow> mac \<Rightarrow> v4_server \<Rightarrow> ((v4_error, lref option) result \<times> v4_server) option" where
  "allocateLease env c m s =
     (case reserveLease env c m s of
        (Inl e, s1) \<Rightarrow> Some (Inl e, s1)
      | (Inr None, s1) \<Rightarrow> Some (Inr None, s1)
      | (Inr (Some r), s1) \<Rightarrow>
          if addrAvailable env c (ls_ip (lease_at s1 r)) then Some (Inr (Some r), s1)
          else allocateLease env c m (blocklistLease env c r s1))"

section \<open>Messages\<close>

record dhcp_req =
  rq_type :: msg_type
  rq_mac :: mac
  rq_ciaddr :: addr
  rq_req_ip :: addr
  rq_sid :: addr
  rq_hostname :: string
  rq_params :: "nat list"

record dhcp_resp =
  rs_yiaddr :: addr
  rs_opts :: options

definition opt_MessageType :: nat where "opt_MessageType = 53"
definition opt_ServerIdentifier :: nat where "opt_ServerIdentifier = 54"
definition opt_LeaseTime :: nat where "opt_LeaseTime = 51"
definition opt_HostName :: nat where "opt_HostName = 12"
definition opt_FQDN :: nat where "opt_FQDN = 81"

definition set_opt :: "nat \<Rightarrow> opt_val \<Rightarrow> dhcp_resp \<Rightarrow> dhcp_resp" where
  "set_opt code v resp = resp\<lparr>rs_opts := (rs_opts resp)(code \<mapsto> v)\<rparr>"

definition is_unspecified :: "addr \<Rightarrow> bool" where
  "is_unspecified a \<longleftrightarrow> unmap a \<in> {Addr4 0, Addr6 0 []}"

definition ip_equal :: "addr \<Rightarrow> addr \<Rightarrow> bool" where
  "ip_equal a b \<longleftrightarrow> unmap a = unmap b"

definition handleDiscover ::
  "dhcp_env \<Rightarrow> v4_conf \<Rightarrow> dhcp_req \<Rightarrow> dhcp_resp \<Rightarrow> v4_server \<Rightarrow>
   ((v4_error, lref option) result \<times> dhcp_resp \<times> v4_server) option" where
  "handleDiscover env c req resp s =
     (case findLease (rq_mac req) s of
        Some r \<Rightarrow> Some (Inr (Some r), set_opt opt_MessageType (OMsg MsgOffer) resp, notify_store s)
      | None \<Rightarrow>
          (case allocateLease env c (rq_mac req) s of
             None \<Rightarrow> None
           | Some (Inl e, s1) \<Rightarrow> Some (Inl e, resp, notify_store s1)
           | Some (Inr None, s1) \<Rightarrow> Some (Inr None, resp, notify_store s1)
           | Some (Inr (Some r), s1) \<Rightarrow>
               Some (Inr (Some r), set_opt opt_MessageType (OMsg MsgOffer) resp, notify_store s1)))"

definition OptionFQDN :: "string \<Rightarrow> opt_val" where
  "OptionFQDN fqdn = ORaw (3 # 0xFF # 0xFF # map of_char fqdn)"

definition checkLease :: "mac \<Rightarrow> addr \<Rightarrow> v4_server \<Rightarrow> lref option \<times> bool" where
  "checkLease m ip s =
     (if ip = ZeroAddr then (None, False)
      else case findLease m s of
        None \<Rightarrow> (None, False)
      | Some r \<Rightarrow> if ls_ip (lease_at s r) = ip then (Some r, False) else (None, True))"

definition nonzero_ciaddr :: "dhcp_req \<Rightarrow> bool" where
  "nonzero_ciaddr req \<longleftrightarrow> rq_ciaddr req \<noteq> ZeroAddr \<and> \<not> is_unspecified (rq_ciaddr req)"

text \<open>The first address of the server is there, or the message has been answered by a panic before.\<close>

definition handleSelecting :: "v4_conf \<Rightarrow> dhcp_req \<Rightarrow> v4_server \<Rightarrow> lref option \<times> bool" where
  "handleSelecting c req s =
     (if \<not> ip_equal (rq_sid req) (hd (vc_dns c)) then (None, False)
      else if nonzero_ciaddr req then (None, False)
      else if to4 (rq_req_ip req) = ZeroAddr then (None, False)
      else case checkLease (rq_mac req) (rq_req_ip req) s of
        (_, True) \<Rightarrow> (None, True)
      | (l, False) \<Rightarrow> (l, True))"

definition handleInitReboot :: "v4_conf \<Rightarrow> dhcp_req \<Rightarrow> v4_server \<Rightarrow> lref option \<times> bool" where
  "handleInitReboot c req s =
     (if to4 (rq_req_ip req) = ZeroAddr then (None, False)
      else if nonzero_ciaddr req then (None, False)
      else if \<not> prefix_contains (vc_subnet c) (to4 (rq_req_ip req)) then (None, True)
      else case checkLease (rq_mac req) (rq_req_ip req) s of
        (_, True) \<Rightarrow> (None, True)
      | (None, False) \<Rightarrow> (None, False)
      | (Some r, False) \<Rightarrow> (Some r, True))"

definition handleRenew :: "dhcp_req \<Rightarrow> v4_server \<Rightarrow> lref option \<times> bool" where
  "handleRenew req s =
     (if rq_ciaddr req = ZeroAddr \<or> is_unspecified (rq_ciaddr req) \<or> to4 (rq_ciaddr req) = ZeroAddr
      then (None, False)
      else case checkLease (rq_mac req) (rq_ciaddr req) s of
        (_, True) \<Rightarrow> (None, True)
      | (None, False) \<Rightarrow> (None, False)
      | (Some r, False) \<Rightarrow> (Some r, True))"

definition handleByRequestType :: "v4_conf \<Rightarrow> dhcp_req \<Rightarrow> v4_server \<Rightarrow> lref option \<times> bool" where
  "handleByRequestType c req s =
     (if rq_sid req \<noteq> ZeroAddr \<and> \<not> is_unspecified (rq_sid req) then handleSelecting c req s
      else if rq_req_ip req \<noteq> ZeroAddr \<and> \<not> is_unspecified (rq_req_ip req) then handleInitReboot c req s
      else handleRenew req s)"

definition handleRequest ::
  "dhcp_env \<Rightarrow> v4_conf \<Rightarrow> dhcp_req \<Rightarrow> dhcp_resp \<Rightarrow> v4_server \<Rightarrow>
   ((lref option \<times> bool) \<times> dhcp_resp \<times> v4_server) option" where
  "handleRequest env c req resp s =
     (case handleByRequestType c req s of
        (None, needsReply) \<Rightarrow> Some ((None, needsReply), resp, s)
      | (Some r, needsReply) \<Rightarrow>
          (let resp1 = set_opt opt_MessageType (OMsg MsgAck) resp;
               isRequested = (rq_hostname req \<noteq> [] \<or> opt_HostName \<in> set (rq_params req));
               done = (\<lambda>s. notify_store (notify_change LeaseAdded s))
           in if ls_static (lease_at s r) then
                Some ((Some r, needsReply),
                      if ls_hostname (lease_at s r) \<noteq> [] then set_opt opt_FQDN (OptionFQDN (ls_hostname (lease_at s r))) resp1
                      else resp1,
                      done s)
              else
                case commitLease env c r (rq_hostname req) s of
                  None \<Rightarrow> None
                | Some s1 \<Rightarrow>
                    Some ((Some r, needsReply),
                          if isRequested then set_opt opt_HostName (OText (ls_hostname (lease_at s1 r))) resp1 else resp1,
                          done s1)))"

definition claimed_ip :: "dhcp_req \<Rightarrow> addr" where
  "claimed_ip req = (if rq_req_ip req = ZeroAddr then rq_ciaddr req else rq_req_ip req)"

text \<open>The database is stored before the leases change.\<close>

definition handleDecline ::
  "dhcp_env \<Rightarrow> v4_conf \<Rightarrow> dhcp_req \<Rightarrow> dhcp_resp \<Rightarrow> v4_server \<Rightarrow>
   (v4_error option \<times> dhcp_resp \<times> v4_server) option" where
  "handleDecline env c req resp s0 =
     (let s = notify_store s0; ack = set_opt opt_MessageType (OMsg MsgAck) in
      case findLeaseForIP (claimed_ip req) (rq_mac req) s of
        None \<Rightarrow> Some (None, resp, s)
      | Some old \<Rightarrow>
          (case rmDynamicLease c old s of
             None \<Rightarrow> None
           | Some (Some e, s1) \<Rightarrow> Some (Some e, resp, s1)
           | Some (None, s1) \<Rightarrow>
               (case allocateLease env c (rq_mac req) s1 of
                  None \<Rightarrow> None
                | Some (Inl e, s2) \<Rightarrow> Some (Some e, resp, s2)
                | Some (Inr None, s2) \<Rightarrow> Some (None, ack (resp\<lparr>rs_yiaddr := Addr4 0\<rparr>), s2)
                | Some (Inr (Some r), s2) \<Rightarrow>
                    (let s3 = upd_lease r (\<lambda>l. l\<lparr>ls_hostname := ls_hostname (lease_at s2 old),
                           ls_expiry := de_now env + vc_lease_time c\<rparr>) s2
                     in case addLease c r s3 of
                          (Some e, s4) \<Rightarrow> Some (Some e, resp, s4)
                        | (None, s4) \<Rightarrow> Some (None, ack (resp\<lparr>rs_yiaddr := ls_ip (lease_at s4 r)\<rparr>), s4)))))"

text \<open>The loop over the array of the slice; each match removes the leases like it.\<close>

fun release_loop :: "v4_conf \<Rightarrow> mac \<Rightarrow> addr \<Rightarrow> nat \<Rightarrow> nat \<Rightarrow> v4_server \<Rightarrow> (v4_error option \<times> v4_server) option" where
  "release_loop c m ip i 0 s = Some (None, s)"
| "release_loop c m ip i (Suc k) s =
     (let r = (v4_leases s @ v4_tail s) ! i in
      if ls_hwaddr (lease_at s r) \<noteq> m \<or> ls_ip (lease_at s r) \<noteq> ip then release_loop c m ip (i + 1) k s
      else case rmDynamicLease c r s of
        None \<Rightarrow> None
      | Some (Some e, s1) \<Rightarrow> Some (Some e, s1)
      | Some (None, s1) \<Rightarrow> release_loop c m ip (i + 1) k s1)"

definition handleRelease ::
  "v4_conf \<Rightarrow> dhcp_req \<Rightarrow> dhcp_resp \<Rightarrow> v4_server \<Rightarrow> (v4_error option \<times> dhcp_resp \<times> v4_server) option" where
  "handleRelease c req resp s =
     (if claimed_ip req = ZeroAddr then Some (None, resp, notify_store s)
      else case release_loop c (rq_mac req) (claimed_ip req) 0 (length (v4_leases s)) s of
        None \<Rightarrow> None
      | Some (Some e, s1) \<Rightarrow> Some (Some e, resp, notify_store s1)
      | Some (None, s1) \<Rightarrow> Some (None, set_opt opt_MessageType (OMsg MsgAck) resp, notify_store s1))"

definition updateOptions :: "v4_conf \<Rightarrow> dhcp_req \<Rightarrow> v4_server \<Rightarrow> dhcp_resp \<Rightarrow> dhcp_resp" where
  "updateOptions c req s resp =
     (let resp1 = set_opt opt_LeaseTime (OTime (vc_lease_time c)) resp;
          resp2 = fold (\<lambda>code r. case v4_implicit s code of None \<Rightarrow> r | Some v \<Rightarrow> set_opt code v r)
                    (rq_params req) resp1
      in resp2\<lparr>rs_opts := (\<lambda>code. case v4_explicit s code of
                 None \<Rightarrow> rs_opts resp2 code | Some v \<Rightarrow> v)\<rparr>)"

text \<open>A handler returns 1 for a reply, 0 for a refusal, -1 for silence, with the lease, if any.\<close>

definition messageHandlers ::
  "dhcp_env \<Rightarrow> v4_conf \<Rightarrow> dhcp_req \<Rightarrow> dhcp_resp \<Rightarrow> v4_server \<Rightarrow>
   ((v4_error, int \<times> lref option) result \<times> dhcp_resp \<times> v4_server) option" where
  "messageHandlers env c req resp s =
     (case rq_type req of
        MsgDiscover \<Rightarrow>
          map_option (\<lambda>(res, resp1, s1).
            (case res of Inl e \<Rightarrow> Inl e | Inr None \<Rightarrow> Inr (0, None) | Inr (Some r) \<Rightarrow> Inr (1, Some r), resp1, s1))
            (handleDiscover env c req resp s)
      | MsgRequest \<Rightarrow>
          map_option (\<lambda>((l, toReply), resp1, s1).
            (case l of None \<Rightarrow> Inr (if toReply then 0 else - 1, None) | Some r \<Rightarrow> Inr (1, Some r), resp1, s1))
            (handleRequest env c req resp s)
      | MsgDecline \<Rightarrow>
          map_option (\<lambda>(e, resp1, s1). (case e of None \<Rightarrow> Inr (1, None) | Some e \<Rightarrow> Inl e, resp1, s1))
            (handleDecline env c req resp s)
      | MsgRelease \<Rightarrow>
          map_option (\<lambda>(e, resp1, s1). (case e of None \<Rightarrow> Inr (1, None) | Some e \<Rightarrow> Inl e, resp1, s1))
            (handleRelease c req resp s)
      | _ \<Rightarrow> Some (Inr (1, None), resp, s))"

definition v4_handle ::
  "dhcp_env \<Rightarrow> v4_conf \<Rightarrow> dhcp_req \<Rightarrow> dhcp_resp \<Rightarrow> v4_server \<Rightarrow> (int \<times> dhcp_resp \<times> v4_server) option" where
  "v4_handle env c req resp s =
     (if vc_dns c = [] then None
      else case messageHandlers env c req (set_opt opt_ServerIdentifier (OAddr (hd (vc_dns c))) resp) s of
        None \<Rightarrow> None
      | Some (Inl e, resp1, s1) \<Rightarrow> Some (0, resp1, s1)
      | Some (Inr (rCode, l), resp1, s1) \<Rightarrow>
          if rCode \<noteq> 1 then Some (rCode, resp1, s1)
          else
            let resp2 = (case l of None \<Rightarrow> resp1 | Some r \<Rightarrow> resp1\<lparr>rs_yiaddr := ls_ip (lease_at s1 r)\<rparr>)
            in Some (1, updateOptions c req s1 resp2, s1))"

text \<open>
  \<open>reply\<close> is the response that the DHCP module makes for the request, if it can.  The result is the
  response to be sent, if any.
\<close>

definition packetHandler ::
  "dhcp_env \<Rightarrow> v4_conf \<Rightarrow> dhcp_req \<Rightarrow> dhcp_resp option \<Rightarrow> v4_server \<Rightarrow> (dhcp_resp option \<times> v4_server) option" where
  "packetHandler env c req reply s =
     (if rq_type req \<notin> {MsgDiscover, MsgRequest, MsgDecline, MsgRelease} then Some (None, s)
      else case reply of
        None \<Rightarrow> Some (None, s)
      | Some resp \<Rightarrow>
          if \<not> de_valid_mac env (rq_mac req) then Some (None, s)
          else case v4_handle env c req resp s of
            None \<Rightarrow> None
          | Some (r, resp1, s1) \<Rightarrow>
              if r < 0 then Some (None, s1)
              else if r = 0 then Some (Some (set_opt opt_MessageType (OMsg MsgNak) resp1), s1)
              else Some (Some resp1, s1))"

section \<open>Creation\<close>

definition v4Create :: "(string \<Rightarrow> int option) \<Rightarrow> v4_conf \<Rightarrow> conf_error option \<times> v4_server" where
  "v4Create parse_dur conf =
     (let s = \<lparr>v4_conf = None, v4_implicit = Map.empty, v4_explicit = Map.empty, v4_offsets = None,
               v4_heap = (\<lambda>_. \<lparr>ls_ip = ZeroAddr, ls_expiry = zero_time, ls_hostname = [], ls_hwaddr = [], ls_static = False\<rparr>),
               v4_fresh = 0, v4_leases = [], v4_tail = [], v4_hosts = Map.empty, v4_ips = Map.empty, v4_events = []\<rparr>
      in case v4_Validate (Some conf) of
           Inl e \<Rightarrow> (Some e, s)
         | Inr c0 \<Rightarrow>
             (let c = (if vc_lease_duration c0 = 0
                       then c0\<lparr>vc_lease_time := 86400 * second_dur, vc_lease_duration := 86400\<rparr>
                       else c0\<lparr>vc_lease_time := second_dur * uint (vc_lease_duration c0)\<rparr>);
                  (imp, exp) = prepareOptions parse_dur c
              in (None, s\<lparr>v4_conf := Some c, v4_implicit := imp, v4_explicit := exp, v4_offsets := newBitSet\<rparr>)))"

text \<open>The addresses of the interface, known when the server starts, are added to the configuration.\<close>

definition configureDNSIPAddrs :: "addr list \<Rightarrow> v4_server \<Rightarrow> v4_server" where
  "configureDNSIPAddrs dnsIPAddrs s =
     s\<lparr>v4_implicit := (if v4_explicit s 6 = None then (v4_implicit s)(6 \<mapsto> OAddrs dnsIPAddrs) else v4_implicit s),
       v4_conf := map_option (\<lambda>c. c\<lparr>vc_dns := vc_dns c @ filter is4 (map unmap dnsIPAddrs)\<rparr>) (v4_conf s)\<rparr>"

end
