(* ===== verification/DhcpInv.thy ===== *)
theory DhcpInv
  imports DhcpV4
begin

text \<open>
  Correctness of the DHCPv4 server: an invariant of the leases and its preservation by the messages of
  clients and by the handling of static leases, the end of the allocation of an address, and the cases in
  which the invariant is lost.
\<close>

section \<open>Offsets of addresses\<close>

abbreviation in_range :: "v4_conf \<Rightarrow> addr \<Rightarrow> bool" where
  "in_range c a \<equiv> snd (ir_offset (vc_range c) a)"

abbreviation offset_of :: "v4_conf \<Rightarrow> addr \<Rightarrow> 64 word" where
  "offset_of c a \<equiv> fst (ir_offset (vc_range c) a)"

definition conf_ok :: "v4_conf \<Rightarrow> bool" where
  "conf_ok c \<longleftrightarrow> (\<exists>r. vc_range c = Some r \<and> range_wf r) \<and> 0 \<le> vc_lease_time c \<and>
     is4 (pfx_addr (vc_subnet c))"

definition v4_base :: int where
  "v4_base = 0xFFFF00000000"

lemma ip_int_v4: "ip_int (Addr4 w) = v4_base + uint w"
  unfolding ip_int_def v4_base_def by (rule word16_v4)

lemma range_wf_bounds:
  assumes "range_wf r"
  obtains a b :: "32 word" where "ir_start r = v4_base + uint a" "ir_end r = v4_base + uint b" "uint a < uint b"
  using assms by (auto simp: range_wf_def newIPRange_def ip_int_v4 Let_def split: if_splits)

lemma uint_32_less: "uint (w :: 32 word) < 4294967296"
  using unsigned_less [of w] by simp

lemma in_range_v4:
  assumes "vc_range c = Some r"
  shows "in_range c (Addr4 w) \<longleftrightarrow> ir_start r \<le> v4_base + uint w \<and> v4_base + uint w \<le> ir_end r"
    "in_range c (Addr4 w) \<Longrightarrow> offset_of c (Addr4 w) = word_of_int (v4_base + uint w - ir_start r)"
  using assms by (auto simp: ir_offset_def containsInt_def ip_int_v4 split: if_splits)

lemma word_of_int_64_inj:
  assumes "word_of_int a = (word_of_int b :: 64 word)" "0 \<le> a" "a < 18446744073709551616" "0 \<le> b" "b < 18446744073709551616"
  shows "a = b"
proof -
  have "uint (word_of_int a :: 64 word) = uint (word_of_int b :: 64 word)" using assms(1) by simp
  then show ?thesis unfolding uint_word_of_int using assms(2-) by simp
qed

lemma offset_inj:
  assumes "conf_ok c" "is4 a" "is4 b" "in_range c a" "in_range c b" "offset_of c a = offset_of c b"
  shows "a = b"
proof -
  obtain r where r: "vc_range c = Some r" "range_wf r" using assms(1) by (auto simp: conf_ok_def)
  obtain x y :: "32 word" where xy: "ir_start r = v4_base + uint x" "ir_end r = v4_base + uint y"
    using range_wf_bounds [OF r(2)] by blast
  obtain v w where vw: "a = Addr4 v" "b = Addr4 w" using assms(2,3) by (cases a; cases b) auto
  let ?d = "\<lambda>u. v4_base + uint u - ir_start r"
  have bounds: "0 \<le> ?d u \<and> ?d u < 18446744073709551616" if "in_range c (Addr4 u)" for u
    using that in_range_v4(1) [OF r(1), of u] uint_32_less [of u] uint_ge_0 [of x] unfolding xy by linarith
  have "word_of_int (?d v) = (word_of_int (?d w) :: 64 word)"
    using assms(4-6) in_range_v4(2) [OF r(1)] vw by metis
  then have "?d v = ?d w"
    using bounds [of v] bounds [of w] assms(4,5) vw by (intro word_of_int_64_inj) auto
  then show ?thesis using vw by (simp add: word_uint_eq_iff)
qed

lemma ip_of_int_v4:
  assumes "0 \<le> n" "n < 4294967296"
  shows "unmap (ip_of_int (v4_base + n)) = Addr4 (word_of_int n)" "ip_int (ip_of_int (v4_base + n)) = v4_base + n"
proof -
  let ?w = "word_of_int (v4_base + n) :: 128 word"
  have u: "uint ?w = v4_base + n"
    using assms unfolding uint_word_of_int v4_base_def by simp
  have "uint (drop_bit 32 ?w) = drop_bit 32 (v4_base + n)"
    using assms unfolding unsigned_drop_bit_eq u by (simp add: v4_base_def take_bit_eq_mod)
  also have "\<dots> = 0xFFFF" using assms by (simp add: v4_base_def drop_bit_eq_div)
  finally have "uint (drop_bit 32 ?w) = 0xFFFF" .
  then have "drop_bit 32 ?w = 0xFFFF" by (simp add: word_uint_eq_iff)
  moreover have "ucast ?w = (word_of_int n :: 32 word)"
    using assms mod_mult_self1 [of n 65535 4294967296]
    unfolding word_uint_eq_iff unsigned_ucast_eq u uint_word_of_int
    by (simp add: v4_base_def take_bit_eq_mod add.commute)
  ultimately show "unmap (ip_of_int (v4_base + n)) = Addr4 (word_of_int n)" by (simp add: ip_of_int_def)
  show "ip_int (ip_of_int (v4_base + n)) = v4_base + n" unfolding ip_int_def ip_of_int_def word16.simps by (rule u)
qed

text \<open>The next address is one of the range whose offset is not marked, and there is none only if all are marked.\<close>

lemma nextIP_spec:
  assumes "conf_ok c"
  shows "nextIP c s = ZeroAddr \<and> (\<forall>w. in_range c (Addr4 w) \<longrightarrow> offset_of c (Addr4 w) \<in> bs_members (v4_offsets s)) \<or>
    (\<exists>w. nextIP c s = Addr4 w \<and> in_range c (Addr4 w) \<and> offset_of c (Addr4 w) \<notin> bs_members (v4_offsets s))"
proof -
  obtain r where r: "vc_range c = Some r" "range_wf r" using assms by (auto simp: conf_ok_def)
  obtain x y :: "32 word" where xy: "ir_start r = v4_base + uint x" "ir_end r = v4_base + uint y"
    using range_wf_bounds [OF r(2)] by blast
  let ?p = "\<lambda>next. (case ir_offset (vc_range c) next of (offset, ok) \<Rightarrow> ok \<and> \<not> bs_isSet (v4_offsets s) offset)"
  have same: "ir_offset (vc_range c) (ip_of_int (v4_base + uint w)) = ir_offset (vc_range c) (Addr4 w)" for w :: "32 word"
    using ip_of_int_v4(2) [of "uint w"] uint_32_less [of w] by (simp add: ir_offset_def r(1) ip_int_v4)
  have p: "?p (ip_of_int (v4_base + uint w)) \<longleftrightarrow>
      in_range c (Addr4 w) \<and> offset_of c (Addr4 w) \<notin> bs_members (v4_offsets s)" for w :: "32 word"
    by (simp add: same bs_members_def split_beta)
  have next_eq: "nextIP c s = to4 (ir_find_from (ir_start r) (ir_end r) ?p)"
    by (simp add: nextIP_def ir_find_def r(1))
  from ir_find_from_spec [of "ir_start r" "ir_end r" ?p] show ?thesis
  proof (elim disjE conjE exE)
    assume none: "ir_find_from (ir_start r) (ir_end r) ?p = ZeroAddr"
      "\<forall>j. ir_start r \<le> j \<and> j \<le> ir_end r \<longrightarrow> \<not> ?p (ip_of_int j)"
    have "offset_of c (Addr4 w) \<in> bs_members (v4_offsets s)" if "in_range c (Addr4 w)" for w
    proof -
      have "\<not> ?p (ip_of_int (v4_base + uint w))"
        using that none(2) in_range_v4(1) [OF r(1), of w] by simp
      with that p [of w] show ?thesis by simp
    qed
    then show ?thesis using none(1) by (simp add: next_eq)
  next
    fix j
    assume j: "ir_start r \<le> j" "j \<le> ir_end r" "ir_find_from (ir_start r) (ir_end r) ?p = ip_of_int j" "?p (ip_of_int j)"
    define n where "n = j - v4_base"
    have n: "0 \<le> n" "n < 4294967296" "j = v4_base + n"
      using j(1,2) uint_32_less [of y] by (simp_all add: n_def xy) (smt (verit) uint_ge_0)
    let ?w = "word_of_int n :: 32 word"
    have u: "uint ?w = n" using n(1,2) unfolding uint_word_of_int by simp
    have "to4 (ip_of_int j) = Addr4 ?w" using ip_of_int_v4(1) [OF n(1,2)] by (simp add: n(3))
    moreover have "in_range c (Addr4 ?w) \<and> offset_of c (Addr4 ?w) \<notin> bs_members (v4_offsets s)"
      using p [of ?w] j(4) u n(3) by simp
    ultimately show ?thesis by (auto simp: next_eq j(3))
  qed
qed

section \<open>The invariant\<close>

abbreviation ip_at :: "v4_server \<Rightarrow> lref \<Rightarrow> addr" where
  "ip_at s r \<equiv> ls_ip (lease_at s r)"

abbreviation hw_at :: "v4_server \<Rightarrow> lref \<Rightarrow> mac" where
  "hw_at s r \<equiv> ls_hwaddr (lease_at s r)"

text \<open>
  No address is leased twice, no client other than those that stand for blocked addresses has two leases,
  the addresses of dynamic leases are in the range, the offsets of leased addresses are marked, and the
  index by address has exactly the leases.
\<close>

definition lease_ok :: "v4_conf \<Rightarrow> v4_server \<Rightarrow> lref \<Rightarrow> bool" where
  "lease_ok c s r \<longleftrightarrow> r < v4_fresh s \<and> is4 (ip_at s r) \<and> length (hw_at s r) = 6 \<and>
     (\<not> ls_static (lease_at s r) \<longrightarrow> in_range c (ip_at s r)) \<and>
     (in_range c (ip_at s r) \<longrightarrow> offset_of c (ip_at s r) \<in> bs_members (v4_offsets s))"

definition macs_unique :: "v4_server \<Rightarrow> bool" where
  "macs_unique s \<longleftrightarrow> (\<forall>r \<in> set (v4_leases s). \<forall>q \<in> set (v4_leases s).
     hw_at s r = hw_at s q \<and> \<not> isBlocklisted (lease_at s r) \<longrightarrow> r = q)"

definition index_exact :: "v4_server \<Rightarrow> bool" where
  "index_exact s \<longleftrightarrow> (\<forall>a r. v4_ips s a = Some r \<longleftrightarrow> r \<in> set (v4_leases s) \<and> ip_at s r = a)"

definition lease_inv :: "v4_conf \<Rightarrow> v4_server \<Rightarrow> bool" where
  "lease_inv c s \<longleftrightarrow> conf_ok c \<and> v4_conf s = Some c \<and> v4_offsets s \<noteq> None \<and>
     distinct (map (ip_at s) (v4_leases s)) \<and> (\<forall>r \<in> set (v4_leases s). lease_ok c s r) \<and>
     macs_unique s \<and> index_exact s"

lemma lease_invD:
  assumes "lease_inv c s"
  shows "conf_ok c" "v4_conf s = Some c" "v4_offsets s \<noteq> None" "distinct (map (ip_at s) (v4_leases s))"
    "distinct (v4_leases s)" "macs_unique s" "index_exact s"
    and "\<And>r. r \<in> set (v4_leases s) \<Longrightarrow> lease_ok c s r"
    and "\<And>r q. r \<in> set (v4_leases s) \<Longrightarrow> q \<in> set (v4_leases s) \<Longrightarrow> ip_at s r = ip_at s q \<Longrightarrow> r = q"
  using assms unfolding lease_inv_def distinct_map inj_on_def by blast+

text \<open>States that agree on all that the invariant speaks of.\<close>

definition same_core :: "v4_server \<Rightarrow> v4_server \<Rightarrow> bool" where
  "same_core s s' \<longleftrightarrow> v4_leases s' = v4_leases s \<and> v4_tail s' = v4_tail s \<and> v4_offsets s' = v4_offsets s \<and>
     v4_ips s' = v4_ips s \<and> v4_conf s' = v4_conf s \<and> v4_fresh s' = v4_fresh s \<and>
     (\<forall>r. ip_at s' r = ip_at s r \<and> hw_at s' r = hw_at s r \<and> ls_static (lease_at s' r) = ls_static (lease_at s r))"

lemma same_core_refl [simp]: "same_core s s"
  by (simp add: same_core_def)

lemma same_core_trans: "same_core s t \<Longrightarrow> same_core t u \<Longrightarrow> same_core s u"
  by (simp add: same_core_def)

lemma same_core_notify [simp]: "same_core s (notify_store s')  \<longleftrightarrow> same_core s s'"
  "same_core s (notify_change ch s') \<longleftrightarrow> same_core s s'"
  by (simp_all add: same_core_def notify_store_def notify_change_def)

lemma same_core_upd:
  "(\<And>l. ls_ip (f l) = ls_ip l \<and> ls_hwaddr (f l) = ls_hwaddr l \<and> ls_static (f l) = ls_static l) \<Longrightarrow>
   same_core s (upd_lease r f s)"
  by (simp add: same_core_def upd_lease_def)

lemma lease_inv_same_core:
  assumes "lease_inv c s" "same_core s s'"
  shows "lease_inv c s'"
proof -
  have eqs: "v4_leases s' = v4_leases s" "v4_offsets s' = v4_offsets s" "v4_ips s' = v4_ips s" "v4_conf s' = v4_conf s"
    "v4_fresh s' = v4_fresh s" and at: "\<And>r. ip_at s' r = ip_at s r" "\<And>r. hw_at s' r = hw_at s r"
    "\<And>r. ls_static (lease_at s' r) = ls_static (lease_at s r)"
    using assms(2) by (simp_all add: same_core_def)
  have "isBlocklisted (lease_at s' r) = isBlocklisted (lease_at s r)" for r by (simp add: isBlocklisted_def at)
  with assms(1) show ?thesis
    by (simp add: lease_inv_def lease_ok_def macs_unique_def index_exact_def eqs at)
qed

section \<open>Adding and removing\<close>

lemma bs_set_Some [simp]: "(\<exists>y. bs_set n ok s = Some y) \<longleftrightarrow> (\<exists>y. s = Some y)"
  using bs_set_not_None [of n ok s] by (metis not_None_eq)

lemma rmLeaseByIndex_simps [simp]:
  "v4_heap (rmLeaseByIndex c i s) = v4_heap s" "v4_conf (rmLeaseByIndex c i s) = v4_conf s"
  "v4_fresh (rmLeaseByIndex c i s) = v4_fresh s"
  "v4_leases (rmLeaseByIndex c i s) = take i (v4_leases s) @ drop (i + 1) (v4_leases s)"
  by (auto simp: rmLeaseByIndex_def Let_def split: prod.split)

lemma set_remove_nth:
  assumes "distinct xs" "i < length xs"
  shows "set (take i xs @ drop (i + 1) xs) = set xs - {xs ! i}"
proof -
  have "xs = take i xs @ xs ! i # drop (i + 1) xs" using assms(2) id_take_nth_drop [of i xs] by simp
  with assms(1) show ?thesis by (metis Diff_insert_absorb Un_insert_right distinct.simps(2) distinct_append
        insert_is_Un list.set(2) set_append disjoint_insert(1) Un_iff)
qed

lemma distinct_remove_nth: "distinct xs \<Longrightarrow> distinct (take i xs @ drop (i + 1) xs)"
  using set_take_disj_set_drop_if_distinct [of xs i "i + 1"] by simp

lemma lease_inv_rmLeaseByIndex:
  assumes "lease_inv c s"
  shows "lease_inv c (rmLeaseByIndex c i s)"
proof (cases "i < length (v4_leases s)")
  case False
  then have "rmLeaseByIndex c i s = s" by (simp add: rmLeaseByIndex_def)
  with assms show ?thesis by simp
next
  case True
  note inv = lease_invD [OF assms]
  let ?r = "v4_leases s ! i" and ?s = "rmLeaseByIndex c i s"
  have r: "?r \<in> set (v4_leases s)" using True by simp
  have set: "set (v4_leases ?s) = set (v4_leases s) - {?r}"
    using set_remove_nth [OF inv(5) True] by simp
  have ips: "v4_ips ?s = (v4_ips s)(ip_at s ?r := None)"
    using True by (auto simp: rmLeaseByIndex_def Let_def split: prod.split)
  have offs: "v4_offsets ?s = (if in_range c (ip_at s ?r) then bs_set (offset_of c (ip_at s ?r)) False (v4_offsets s)
      else v4_offsets s)"
    using True by (auto simp: rmLeaseByIndex_def Let_def split: prod.split)
  have "offset_of c (ip_at s q) \<in> bs_members (v4_offsets ?s)"
    if "q \<in> set (v4_leases s)" "q \<noteq> ?r" "in_range c (ip_at s q)" for q
  proof -
    have "offset_of c (ip_at s q) \<noteq> offset_of c (ip_at s ?r)" if "in_range c (ip_at s ?r)"
      using offset_inj [OF inv(1), of "ip_at s q" "ip_at s ?r"] inv(8) [OF \<open>q \<in> _\<close>] inv(8) [OF r]
        inv(9) [OF \<open>q \<in> _\<close> r] \<open>q \<noteq> ?r\<close> \<open>in_range c (ip_at s q)\<close> that by (auto simp: lease_ok_def)
    with that inv(8) [OF \<open>q \<in> _\<close>] show ?thesis
      by (auto simp: offs lease_ok_def bs_members_set [OF inv(3)])
  qed
  then have "lease_ok c ?s q" if "q \<in> set (v4_leases ?s)" for q
    using that inv(8) [of q] unfolding set lease_ok_def rmLeaseByIndex_simps(1-3) by blast
  moreover have "distinct (map (ip_at ?s) (v4_leases ?s))"
    using distinct_remove_nth [OF inv(4)] by (simp add: take_map drop_map)
  moreover have "macs_unique ?s"
    using inv(6) set by (simp add: macs_unique_def)
  moreover have "index_exact ?s"
    using inv(7) inv(9) [OF r] unfolding index_exact_def set ips rmLeaseByIndex_simps(1)
    by (metis Diff_iff fun_upd_apply option.distinct(1) r singleton_iff)
  moreover have "v4_offsets ?s \<noteq> None" using inv(3) by (simp add: offs)
  ultimately show ?thesis using inv(1,2) by (simp add: lease_inv_def)
qed

lemma addLease_ok:
  assumes "addLease c r s = (None, s')"
  shows "v4_leases s' = v4_leases s @ [r]" "v4_heap s' = v4_heap s" "v4_conf s' = v4_conf s" "v4_fresh s' = v4_fresh s"
    "v4_ips s' = (v4_ips s)(ip_at s r \<mapsto> r)" "v4_offsets s' = bs_set (offset_of c (ip_at s r)) True (v4_offsets s)"
    "\<not> ls_static (lease_at s r) \<longrightarrow> in_range c (ip_at s r)"
  using assms by (auto simp: addLease_def Let_def split: prod.splits if_splits)

lemma addLease_error: "addLease c r s = (Some e, s') \<Longrightarrow> s' = s"
  by (auto simp: addLease_def Let_def split: prod.splits if_splits)

lemma lease_inv_addLease:
  assumes "lease_inv c s" "addLease c r s = (None, s')"
    and "r \<notin> set (v4_leases s)" "r < v4_fresh s" "is4 (ip_at s r)" "length (hw_at s r) = 6"
    and "\<And>q. q \<in> set (v4_leases s) \<Longrightarrow> ip_at s q \<noteq> ip_at s r"
    and "\<And>q. q \<in> set (v4_leases s) \<Longrightarrow> hw_at s q = hw_at s r \<Longrightarrow> isBlocklisted (lease_at s r)"
  shows "lease_inv c s'"
proof -
  note inv = lease_invD [OF assms(1)] and new = addLease_ok [OF assms(2)]
  have same: "isBlocklisted (lease_at s q) = isBlocklisted (lease_at s r)" if "hw_at s q = hw_at s r" for q
    using that by (simp add: isBlocklisted_def)
  have "lease_ok c s' q" if "q \<in> set (v4_leases s')" for q
    using that inv(8) [of q] assms(4-6) new(7)
    by (auto simp: lease_ok_def new bs_members_set [OF inv(3)])
  moreover have "distinct (map (ip_at s') (v4_leases s'))" using inv(4) assms(7) unfolding new by simp (metis imageE)
  moreover have "macs_unique s'"
    unfolding macs_unique_def new(1,2)
  proof (intro ballI impI)
    fix a b
    assume "a \<in> set (v4_leases s @ [r])" "b \<in> set (v4_leases s @ [r])"
      and eq: "hw_at s a = hw_at s b \<and> \<not> isBlocklisted (lease_at s a)"
    then consider "a \<in> set (v4_leases s)" "b \<in> set (v4_leases s)" | "a = r" "b = r"
      | "a \<in> set (v4_leases s)" "b = r" | "a = r" "b \<in> set (v4_leases s)" by auto
    then show "a = b"
    proof cases
      case 1
      with eq inv(6) show ?thesis unfolding macs_unique_def by blast
    next
      case 3
      with eq assms(8) [of a] same [of a] show ?thesis by simp
    next
      case 4
      with eq assms(8) [of b] show ?thesis by simp
    qed simp
  qed
  moreover have "index_exact s'"
    using inv(7) assms(3,7) unfolding index_exact_def new by auto
  ultimately show ?thesis using inv(1-3) by (simp add: lease_inv_def new)
qed

section \<open>Removing dynamic leases\<close>

text \<open>Both loops only take leases away and clear names.\<close>

definition shrinks :: "v4_server \<Rightarrow> v4_server \<Rightarrow> bool" where
  "shrinks s s' \<longleftrightarrow> set (v4_leases s') \<subseteq> set (v4_leases s) \<and> v4_fresh s' = v4_fresh s \<and>
     (\<forall>r. ip_at s' r = ip_at s r \<and> hw_at s' r = hw_at s r \<and> ls_static (lease_at s' r) = ls_static (lease_at s r))"

lemma shrinks_refl [simp]: "shrinks s s"
  by (simp add: shrinks_def)

lemma shrinks_trans: "shrinks s t \<Longrightarrow> shrinks t u \<Longrightarrow> shrinks s u"
  by (auto simp: shrinks_def)

lemma shrinks_same_core: "same_core s s' \<Longrightarrow> shrinks s s'"
  by (simp add: shrinks_def same_core_def)

lemma shrinks_rmLeaseByIndex: "shrinks s (rmLeaseByIndex c i s)"
  by (auto simp: shrinks_def dest: in_set_takeD in_set_dropD)

lemma same_core_clear:
  "same_core s (if b then upd_lease r (\<lambda>l. l\<lparr>ls_hostname := h\<rparr>) s else s)"
  by (simp add: same_core_upd)

lemma rm_dynamic_loop_inv:
  assumes "rm_dynamic_loop c x i k s = Some (e, s')" "lease_inv c s"
  shows "lease_inv c s' \<and> shrinks s s'"
  using assms
proof (induction k arbitrary: i s)
  case (Suc k)
  let ?r = "(v4_leases s @ v4_tail s) ! i" and ?s1 = "rmLeaseByIndex c i s"
  let ?match = "hw_at s ?r = hw_at s x \<or> ip_at s ?r = ip_at s x"
  let ?clear = "\<lambda>r t. if \<not> ls_static (lease_at s ?r) \<and> ls_hostname (lease_at t r) = ls_hostname (lease_at t x)
      then upd_lease r (\<lambda>l. l\<lparr>ls_hostname := []\<rparr>) t else t"
  note rm = lease_inv_rmLeaseByIndex [OF Suc.prems(2), of i] shrinks_rmLeaseByIndex [of s c i]
  have clear: "lease_inv c (?clear r t) \<and> shrinks s (?clear r t)" if "lease_inv c t" "shrinks s t" for r t
    using that lease_inv_same_core [OF that(1) same_core_clear] shrinks_trans [OF that(2) shrinks_same_core [OF same_core_clear]]
    by blast
  consider "?match" "ls_static (lease_at s ?r)" "s' = s"
    | "?match" "s' = ?s1"
    | "?match" "rm_dynamic_loop c x (i + 1) k (?clear (v4_leases ?s1 ! i) ?s1) = Some (e, s')"
    | "\<not> ?match" "rm_dynamic_loop c x (i + 1) k (?clear ?r s) = Some (e, s')"
    using Suc.prems(1) by (simp only: rm_dynamic_loop.simps Let_def) (auto split: if_splits)
  then show ?case
  proof cases
    case 1
    with Suc.prems(2) show ?thesis by simp
  next
    case 2
    with rm show ?thesis by simp
  next
    case 3
    with Suc.IH [OF 3(2)] clear [OF rm, of "v4_leases ?s1 ! i"] show ?thesis by (meson shrinks_trans)
  next
    case 4
    with Suc.IH [OF 4(2)] clear [OF Suc.prems(2) shrinks_refl, of ?r] show ?thesis by (meson shrinks_trans)
  qed
qed simp

lemma rmDynamicLease_inv:
  "rmDynamicLease c x s = Some (e, s') \<Longrightarrow> lease_inv c s \<Longrightarrow> lease_inv c s' \<and> shrinks s s'"
  unfolding rmDynamicLease_def by (rule rm_dynamic_loop_inv)

text \<open>Without a match the loop only clears names.\<close>

abbreviation matches :: "v4_server \<Rightarrow> lref \<Rightarrow> lref \<Rightarrow> bool" where
  "matches s x r \<equiv> hw_at s r = hw_at s x \<or> ip_at s r = ip_at s x"

lemma matches_same_core: "same_core s s' \<Longrightarrow> matches s' x r = matches s x r"
  by (simp add: same_core_def)

lemma rm_dynamic_loop_nomatch:
  assumes "\<And>j. i \<le> j \<Longrightarrow> j < i + k \<Longrightarrow> \<not> matches s x ((v4_leases s @ v4_tail s) ! j)"
  shows "\<exists>s'. rm_dynamic_loop c x i k s = Some (None, s') \<and> same_core s s'"
  using assms
proof (induction k arbitrary: i s)
  case (Suc k)
  let ?r = "(v4_leases s @ v4_tail s) ! i"
  let ?s1 = "if \<not> ls_static (lease_at s ?r) \<and> ls_hostname (lease_at s ?r) = ls_hostname (lease_at s x)
      then upd_lease ?r (\<lambda>l. l\<lparr>ls_hostname := []\<rparr>) s else s"
  have core: "same_core s ?s1" by (rule same_core_clear)
  have "\<not> matches ?s1 x ((v4_leases ?s1 @ v4_tail ?s1) ! j)" if "i + 1 \<le> j" "j < i + 1 + k" for j
    using Suc.prems [of j] that core matches_same_core [OF core] by (simp add: same_core_def)
  from Suc.IH [OF this] obtain s' where "rm_dynamic_loop c x (i + 1) k ?s1 = Some (None, s')" "same_core ?s1 s'" by blast
  moreover have "rm_dynamic_loop c x i (Suc k) s = rm_dynamic_loop c x (i + 1) k ?s1"
    using Suc.prems [of i] by (simp only: rm_dynamic_loop.simps Let_def) simp
  ultimately show ?case using same_core_trans [OF core] by metis
qed simp

text \<open>If one lease only is like the given one, it is removed or it is static.\<close>

lemma array_after_removal:
  assumes "distinct (v4_leases s)" "j < length (v4_leases s)" "j < i" "i < length (v4_leases s)"
  shows "(v4_leases (rmLeaseByIndex c j s) @ v4_tail (rmLeaseByIndex c j s)) ! i \<in> set (v4_leases s) - {v4_leases s ! j}"
proof -
  let ?l = "v4_leases s"
  have "v4_tail (rmLeaseByIndex c j s) = last ?l # v4_tail s"
    using assms(2) by (auto simp: rmLeaseByIndex_def Let_def split: prod.split)
  then have "(v4_leases (rmLeaseByIndex c j s) @ v4_tail (rmLeaseByIndex c j s)) ! i =
      (if i = length ?l - 1 then last ?l else ?l ! (i + 1))"
    using assms(2-4) by (auto simp: nth_append)
  also have "\<dots> = ?l ! (if i = length ?l - 1 then i else i + 1)"
    using assms(4) last_conv_nth [of ?l] by (cases "?l = []") auto
  finally have eq: "(v4_leases (rmLeaseByIndex c j s) @ v4_tail (rmLeaseByIndex c j s)) ! i =
      ?l ! (if i = length ?l - 1 then i else i + 1)" .
  have "(if i = length ?l - 1 then i else i + 1) < length ?l" using assms(4) by auto
  with assms(1-3) show ?thesis unfolding eq by (auto simp: nth_eq_iff_index_eq)
qed

lemma rm_dynamic_loop_unique:
  assumes "distinct (v4_leases s)" "i \<le> j" "j < length (v4_leases s)" "i + k = length (v4_leases s)"
    and "matches s x (v4_leases s ! j)" "\<And>r. r \<in> set (v4_leases s) \<Longrightarrow> matches s x r \<Longrightarrow> r = v4_leases s ! j"
  shows "if ls_static (lease_at s (v4_leases s ! j))
    then \<exists>s'. rm_dynamic_loop c x i k s = Some (Some StaticLeaseExists, s') \<and> same_core s s'
    else \<exists>s1 s'. rm_dynamic_loop c x i k s = Some (None, s') \<and> same_core s s1 \<and> same_core (rmLeaseByIndex c j s1) s'"
  using assms
proof (induction k arbitrary: i s)
  case (Suc k)
  let ?r = "(v4_leases s @ v4_tail s) ! i"
  have r: "?r = v4_leases s ! i" using Suc.prems(4) by (simp add: nth_append)
  show ?case
  proof (cases "i = j")
    case False
    define t where "t = (if \<not> ls_static (lease_at s ?r) \<and> ls_hostname (lease_at s ?r) = ls_hostname (lease_at s x)
        then upd_lease ?r (\<lambda>l. l\<lparr>ls_hostname := []\<rparr>) s else s)"
    have core: "same_core s t" unfolding t_def by (rule same_core_clear)
    then have t: "v4_leases t = v4_leases s" "\<And>q. ls_static (lease_at t q) = ls_static (lease_at s q)"
      by (simp_all add: same_core_def)
    have "i < length (v4_leases s)" using Suc.prems(4) by simp
    then have no: "\<not> matches s x ?r"
      unfolding r using Suc.prems(1,3,6) False by (metis nth_eq_iff_index_eq nth_mem)
    have eq: "rm_dynamic_loop c x i (Suc k) s = rm_dynamic_loop c x (i + 1) k t"
      using no unfolding t_def by (simp only: rm_dynamic_loop.simps Let_def) simp
    have "if ls_static (lease_at t (v4_leases t ! j))
      then \<exists>s'. rm_dynamic_loop c x (i + 1) k t = Some (Some StaticLeaseExists, s') \<and> same_core t s'
      else \<exists>s1 s'. rm_dynamic_loop c x (i + 1) k t = Some (None, s') \<and> same_core t s1 \<and> same_core (rmLeaseByIndex c j s1) s'"
    proof (rule Suc.IH)
      show "matches t x (v4_leases t ! j)" using Suc.prems(5) by (simp add: matches_same_core [OF core] t(1))
      show "r = v4_leases t ! j" if "r \<in> set (v4_leases t)" "matches t x r" for r
        using Suc.prems(6) [of r] that by (simp add: matches_same_core [OF core] t(1))
    qed (use Suc.prems(1-4) False t(1) in auto)
    then show ?thesis unfolding eq t by (meson same_core_trans [OF core])
  next
    case True
    show ?thesis
    proof (cases "ls_static (lease_at s (v4_leases s ! j))")
      case True
      with Suc.prems(5) r \<open>i = j\<close> show ?thesis by (simp add: Let_def)
    next
      case False
      let ?s1 = "rmLeaseByIndex c j s"
      have len: "length (v4_leases ?s1) = length (v4_leases s) - 1" using Suc.prems(3) by simp
      show ?thesis
      proof (cases "j = length (v4_leases ?s1)")
        case True
        with False Suc.prems(5) r \<open>i = j\<close> have "rm_dynamic_loop c x i (Suc k) s = Some (None, ?s1)"
          by (simp add: Let_def del: rmLeaseByIndex_simps(4))
        then show ?thesis
          unfolding if_not_P [OF False] by (intro exI conjI) (assumption, rule same_core_refl, rule same_core_refl)
      next
        case last: False
        let ?q = "v4_leases ?s1 ! j"
        let ?s2 = "if \<not> ls_static (lease_at s ?r) \<and> ls_hostname (lease_at ?s1 ?q) = ls_hostname (lease_at ?s1 x)
            then upd_lease ?q (\<lambda>l. l\<lparr>ls_hostname := []\<rparr>) ?s1 else ?s1"
        have core: "same_core ?s1 ?s2" by (rule same_core_clear)
        have eq: "rm_dynamic_loop c x i (Suc k) s = rm_dynamic_loop c x (i + 1) k ?s2"
          using False Suc.prems(3,5) r \<open>i = j\<close> last len
          by (simp only: rm_dynamic_loop.simps Let_def) (auto simp del: rmLeaseByIndex_simps(4))
        have "\<not> matches ?s2 x ((v4_leases ?s2 @ v4_tail ?s2) ! n)" if "i + 1 \<le> n" "n < i + 1 + k" for n
        proof -
          have "(v4_leases ?s1 @ v4_tail ?s1) ! n \<in> set (v4_leases s) - {v4_leases s ! j}"
            using array_after_removal [OF Suc.prems(1,3), of n c] that \<open>i = j\<close> Suc.prems(4) by simp
          then have "\<not> matches ?s1 x ((v4_leases ?s1 @ v4_tail ?s1) ! n)"
            using Suc.prems(6) unfolding rmLeaseByIndex_simps(1) by blast
          then show ?thesis using core matches_same_core [OF core] by (simp add: same_core_def)
        qed
        from rm_dynamic_loop_nomatch [OF this] obtain s' where
          s': "rm_dynamic_loop c x (i + 1) k ?s2 = Some (None, s')" "same_core ?s2 s'" by blast
        show ?thesis
          unfolding if_not_P [OF False] eq
          by (intro exI conjI) (rule s'(1), rule same_core_refl, rule same_core_trans [OF core s'(2)])
      qed
    qed
  qed
qed simp

lemma rmDynamicLease_single:
  assumes "lease_inv c s" "\<And>r q. r \<in> set (v4_leases s) \<Longrightarrow> q \<in> set (v4_leases s) \<Longrightarrow> matches s x r \<Longrightarrow> matches s x q \<Longrightarrow> r = q"
  obtains s' where "rmDynamicLease c x s = Some (Some StaticLeaseExists, s')" "same_core s s'"
    | s' where "rmDynamicLease c x s = Some (None, s')" "lease_inv c s'" "shrinks s s'"
      "set (v4_leases s') = {r \<in> set (v4_leases s). \<not> matches s x r}"
      "\<And>r. r \<in> set (v4_leases s) \<Longrightarrow> matches s x r \<Longrightarrow> in_range c (ip_at s r) \<Longrightarrow>
         offset_of c (ip_at s r) \<notin> bs_members (v4_offsets s')"
proof (cases "\<exists>r \<in> set (v4_leases s). matches s x r")
  case False
  then have "\<not> matches s x ((v4_leases s @ v4_tail s) ! j)" if "j < 0 + length (v4_leases s)" for j
    using that by (simp add: nth_append)
  from rm_dynamic_loop_nomatch [OF this, where i = 0] obtain s' where
    s': "rmDynamicLease c x s = Some (None, s')" "same_core s s'" unfolding rmDynamicLease_def by blast
  have "v4_leases s' = v4_leases s" using s'(2) by (simp add: same_core_def)
  with False have "set (v4_leases s') = {r \<in> set (v4_leases s). \<not> matches s x r}" by auto
  then show ?thesis using False
    by (intro that(2) [OF s'(1) lease_inv_same_core [OF assms(1) s'(2)] shrinks_same_core [OF s'(2)]]) auto
next
  case True
  then obtain j where j: "j < length (v4_leases s)" "matches s x (v4_leases s ! j)" by (metis in_set_conv_nth)
  note inv = lease_invD [OF assms(1)]
  from rm_dynamic_loop_unique [of s 0 j "length (v4_leases s)" x c] inv(5) j assms(2)
  have res: "if ls_static (lease_at s (v4_leases s ! j))
    then \<exists>s'. rmDynamicLease c x s = Some (Some StaticLeaseExists, s') \<and> same_core s s'
    else \<exists>s1 s'. rmDynamicLease c x s = Some (None, s') \<and> same_core s s1 \<and> same_core (rmLeaseByIndex c j s1) s'"
    unfolding rmDynamicLease_def by simp
  show ?thesis
  proof (cases "ls_static (lease_at s (v4_leases s ! j))")
    case True
    with res that(1) show ?thesis by auto
  next
    case False
    with res obtain s1 s' where s': "rmDynamicLease c x s = Some (None, s')" "same_core s s1"
      "same_core (rmLeaseByIndex c j s1) s'" by auto
    have "v4_leases s1 = v4_leases s" using s'(2) by (simp add: same_core_def)
    then have "set (v4_leases s') = set (v4_leases s) - {v4_leases s ! j}"
      using s'(3) set_remove_nth [OF inv(5) j(1)] by (simp add: same_core_def)
    moreover have "\<dots> = {r \<in> set (v4_leases s). \<not> matches s x r}"
      using j assms(2) [of _ "v4_leases s ! j"] by auto
    moreover have "offset_of c (ip_at s r) \<notin> bs_members (v4_offsets s')"
      if "r \<in> set (v4_leases s)" "matches s x r" "in_range c (ip_at s r)" for r
    proof -
      have "r = v4_leases s ! j" using assms(2) [OF that(1) _ that(2)] j by simp
      then have "v4_offsets s' = bs_set (offset_of c (ip_at s r)) False (v4_offsets s)"
        using s'(2,3) that(3) j(1) by (auto simp: same_core_def rmLeaseByIndex_def Let_def split: prod.splits)
      then show ?thesis using inv(3) by (simp add: bs_members_set)
    qed
    ultimately show ?thesis using that(2) [OF s'(1)] rmDynamicLease_inv [OF s'(1) assms(1)] by simp
  qed
qed

end
