(* ===== verification/DhcpAlloc.thy ===== *)
theory DhcpAlloc
  imports DhcpInv
begin

text \<open>
  The allocation of addresses by the DHCPv4 server: it ends, gives an address that nobody else has, and
  finds one whenever there is one.
\<close>

section \<open>Changing one lease\<close>

definition zero_mac :: "mac \<Rightarrow> bool" where
  "zero_mac m \<longleftrightarrow> m \<noteq> [] \<and> (\<forall>b \<in> set m. b = 0)"

lemma isBlocklisted_zero: "isBlocklisted l = zero_mac (ls_hwaddr l)"
  by (simp add: isBlocklisted_def zero_mac_def)

lemma lease_inv_set_mac:
  assumes "lease_inv c s" "r \<in> set (v4_leases s)"
    and f: "\<And>l. ls_ip (f l) = ls_ip l" "\<And>l. ls_static (f l) = ls_static l" "ls_hwaddr (f (lease_at s r)) = m" "length m = 6"
    and "\<And>q. q \<in> set (v4_leases s) \<Longrightarrow> q \<noteq> r \<Longrightarrow> hw_at s q = m \<Longrightarrow> zero_mac m"
  shows "lease_inv c (upd_lease r f s)"
proof -
  note inv = lease_invD [OF assms(1)]
  let ?s = "upd_lease r f s"
  have eqs: "v4_leases ?s = v4_leases s" "v4_offsets ?s = v4_offsets s" "v4_ips ?s = v4_ips s" "v4_conf ?s = v4_conf s"
    "v4_fresh ?s = v4_fresh s" "\<And>q. ip_at ?s q = ip_at s q" "\<And>q. ls_static (lease_at ?s q) = ls_static (lease_at s q)"
    "\<And>q. hw_at ?s q = (if q = r then m else hw_at s q)"
    by (simp_all add: upd_lease_def f)
  have "macs_unique ?s"
    unfolding macs_unique_def isBlocklisted_zero eqs
  proof (intro ballI impI)
    fix a b
    assume ab: "a \<in> set (v4_leases s)" "b \<in> set (v4_leases s)"
      and eq: "(if a = r then m else hw_at s a) = (if b = r then m else hw_at s b) \<and>
        \<not> zero_mac (if a = r then m else hw_at s a)"
    show "a = b"
    proof (cases "a = r \<or> b = r")
      case True
      then show ?thesis using eq assms(7) ab by (auto split: if_splits)
    next
      case False
      then show ?thesis using eq inv(6) ab by (auto simp: macs_unique_def isBlocklisted_zero)
    qed
  qed
  moreover have "lease_ok c ?s q" if "q \<in> set (v4_leases s)" for q
    using inv(8) [OF that] f(4) by (simp add: lease_ok_def eqs)
  ultimately show ?thesis
    using inv(1-4,7) by (simp add: lease_inv_def eqs index_exact_def)
qed

lemma lease_inv_alloc:
  assumes "lease_inv c s" "alloc_lease l s = (r, s1)"
  shows "lease_inv c s1" "r \<notin> set (v4_leases s1)" "r < v4_fresh s1" "lease_at s1 r = l" "v4_leases s1 = v4_leases s"
    "v4_offsets s1 = v4_offsets s" "\<And>q. q \<in> set (v4_leases s) \<Longrightarrow> lease_at s1 q = lease_at s q" "v4_hosts s1 = v4_hosts s"
proof -
  note inv = lease_invD [OF assms(1)]
  have s1: "s1 = s\<lparr>v4_heap := (v4_heap s)(r := l), v4_fresh := v4_fresh s + 1\<rparr>" "r = v4_fresh s"
    using assms(2) by (auto simp: alloc_lease_def)
  have neq: "q \<noteq> r" if "q \<in> set (v4_leases s)" for q
    using inv(8) [OF that] by (auto simp: lease_ok_def s1(2))
  show "r \<notin> set (v4_leases s1)" "r < v4_fresh s1" "lease_at s1 r = l" "v4_leases s1 = v4_leases s" "v4_hosts s1 = v4_hosts s"
    "v4_offsets s1 = v4_offsets s" "\<And>q. q \<in> set (v4_leases s) \<Longrightarrow> lease_at s1 q = lease_at s q"
    using neq by (auto simp: s1)
  have at: "lease_at s1 q = lease_at s q" if "q \<in> set (v4_leases s)" for q using neq [OF that] by (simp add: s1(1))
  have "lease_ok c s1 q" if "q \<in> set (v4_leases s)" for q
    using inv(8) [OF that] by (simp add: lease_ok_def at [OF that]) (simp add: s1(1))
  moreover have "distinct (map (ip_at s1) (v4_leases s))"
  proof -
    have "map (ip_at s1) (v4_leases s) = map (ip_at s) (v4_leases s)" using at by (intro map_cong) simp_all
    with inv(4) show ?thesis by (simp only:)
  qed
  moreover have "macs_unique s1" using inv(6) at by (simp add: macs_unique_def s1(1))
  moreover have "index_exact s1"
    using inv(7) at unfolding index_exact_def by (simp add: s1(1)) (metis neq)
  moreover have "v4_leases s1 = v4_leases s" "v4_offsets s1 = v4_offsets s" "v4_conf s1 = v4_conf s" by (simp_all add: s1(1))
  ultimately show "lease_inv c s1" using inv(1-3) by (simp add: lease_inv_def)
qed

section \<open>Reserving a lease\<close>

definition no_other :: "mac \<Rightarrow> v4_server \<Rightarrow> bool" where
  "no_other m s \<longleftrightarrow> (\<forall>q \<in> set (v4_leases s). hw_at s q = m \<longrightarrow> zero_mac m)"

definition free_words :: "v4_conf \<Rightarrow> v4_server \<Rightarrow> 32 word set" where
  "free_words c s = {w. in_range c (Addr4 w) \<and> offset_of c (Addr4 w) \<notin> bs_members (v4_offsets s)}"

definition expired_leases :: "int \<Rightarrow> v4_server \<Rightarrow> lref list" where
  "expired_leases now s = filter (\<lambda>r. expired now (lease_at s r)) (v4_leases s)"

lemma findExpiredLease_None: "findExpiredLease now s = None \<longleftrightarrow> expired_leases now s = []"
  by (auto simp: findExpiredLease_def expired_leases_def find_None_iff filter_empty_conv) (metis in_set_conv_nth)

lemma findExpiredLease_Some:
  "findExpiredLease now s = Some i \<Longrightarrow> v4_leases s ! i \<in> set (expired_leases now s)"
  by (auto simp: findExpiredLease_def expired_leases_def find_Some_iff)

lemma copy_mac_same_length: "length a = length b \<Longrightarrow> copy_mac a b = b"
  by (simp add: copy_mac_def)

text \<open>The outcome of a reservation.\<close>

lemma reserveLease_spec:
  assumes "lease_inv c s" "length m = 6" "no_other m s" "reserveLease env c m s = (res, s')"
  obtains "res = Inr None" "s' = s" "free_words c s = {}" "expired_leases (de_now env) s = []"
    | r where "res = Inr (Some r)" "lease_inv c s'" "r \<in> set (expired_leases (de_now env) s)" "free_words c s = {}"
      "s' = upd_lease r (\<lambda>l. l\<lparr>ls_hwaddr := m\<rparr>) s"
    | r w where "res = Inr (Some r)" "lease_inv c s'" "w \<in> free_words c s" "v4_leases s' = v4_leases s @ [r]"
      "lease_at s' r = \<lparr>ls_ip = Addr4 w, ls_expiry = zero_time, ls_hostname = [], ls_hwaddr = m, ls_static = False\<rparr>"
      "\<And>q. q \<in> set (v4_leases s) \<Longrightarrow> q \<noteq> r \<and> lease_at s' q = lease_at s q"
      "v4_offsets s' = bs_set (offset_of c (Addr4 w)) True (v4_offsets s)"
proof -
  note inv = lease_invD [OF assms(1)]
  from nextIP_spec [OF inv(1), of s] show ?thesis
  proof (elim disjE conjE exE)
    assume none: "nextIP c s = ZeroAddr" "\<forall>w. in_range c (Addr4 w) \<longrightarrow> offset_of c (Addr4 w) \<in> bs_members (v4_offsets s)"
    then have free: "free_words c s = {}" by (auto simp: free_words_def)
    show ?thesis
    proof (cases "findExpiredLease (de_now env) s")
      case None
      with none(1) assms(4) have "res = Inr None" "s' = s" by (simp_all add: reserveLease_def)
      with None free that(1) show ?thesis by (simp add: findExpiredLease_None)
    next
      case (Some i)
      let ?r = "v4_leases s ! i"
      have r: "?r \<in> set (expired_leases (de_now env) s)" using findExpiredLease_Some [OF Some] .
      then have mem: "?r \<in> set (v4_leases s)" by (simp add: expired_leases_def)
      have "copy_mac (hw_at s ?r) m = m" using inv(8) [OF mem] assms(2) by (simp add: copy_mac_same_length lease_ok_def)
      then have "upd_lease ?r (\<lambda>l. l\<lparr>ls_hwaddr := copy_mac (ls_hwaddr l) m\<rparr>) s = upd_lease ?r (\<lambda>l. l\<lparr>ls_hwaddr := m\<rparr>) s"
        by (simp add: upd_lease_def)
      with Some none(1) assms(4) have res: "res = Inr (Some ?r)" "s' = upd_lease ?r (\<lambda>l. l\<lparr>ls_hwaddr := m\<rparr>) s"
        by (simp_all add: reserveLease_def Let_def)
      moreover have "lease_inv c s'"
        unfolding res(2) by (rule lease_inv_set_mac [OF assms(1) mem]) (use assms(2,3) in \<open>auto simp: no_other_def\<close>)
      ultimately show ?thesis using that(2) r free by blast
    qed
  next
    fix w
    assume w: "nextIP c s = Addr4 w" "in_range c (Addr4 w)" "offset_of c (Addr4 w) \<notin> bs_members (v4_offsets s)"
    let ?l = "\<lparr>ls_ip = Addr4 w, ls_expiry = zero_time, ls_hostname = [], ls_hwaddr = m, ls_static = False\<rparr>"
    obtain r s1 where al: "alloc_lease ?l s = (r, s1)" by force
    note new = lease_inv_alloc [OF assms(1) al]
    have "\<exists>s2. addLease c r s1 = (None, s2)"
      using w(2) by (cases "ir_offset (vc_range c) (Addr4 w)") (simp add: addLease_def new(4))
    then obtain s2 where add: "addLease c r s1 = (None, s2)" ..
    have res: "res = Inr (Some r)" "s' = s2" using w(1) assms(4) al add by (auto simp: reserveLease_def)
    have "ip_at s1 q \<noteq> ip_at s1 r" if "q \<in> set (v4_leases s1)" for q
      using that inv(8) [of q] w(2,3) by (auto simp: new lease_ok_def)
    moreover have "isBlocklisted (lease_at s1 r)" if "q \<in> set (v4_leases s1)" "hw_at s1 q = hw_at s1 r" for q
      using that assms(3) by (auto simp: new isBlocklisted_zero no_other_def)
    ultimately have "lease_inv c s2"
      using lease_inv_addLease [OF new(1) add new(2,3)] assms(2) new(4) by simp
    moreover have "w \<in> free_words c s" using w by (simp add: free_words_def)
    moreover have "q \<noteq> r \<and> lease_at s2 q = lease_at s q" if "q \<in> set (v4_leases s)" for q
      using that new(2,5,7) by (auto simp: addLease_ok(2) [OF add])
    ultimately show ?thesis
      using that(3) [of r w] res addLease_ok [OF add] new(4-6) by simp
  qed
qed

section \<open>Allocating a lease\<close>

abbreviation work_left :: "dhcp_env \<Rightarrow> v4_conf \<Rightarrow> v4_server \<Rightarrow> nat" where
  "work_left env c s \<equiv> card (free_words c s) + length (expired_leases (de_now env) s)"

lemma blocklist_simps [simp]:
  "v4_leases (blocklistLease env c r s) = v4_leases s" "v4_offsets (blocklistLease env c r s) = v4_offsets s"
  "free_words c' (blocklistLease env c r s) = free_words c' s" "ip_at (blocklistLease env c r s) q = ip_at s q"
  "q \<noteq> r \<Longrightarrow> lease_at (blocklistLease env c r s) q = lease_at s q"
  by (auto simp: blocklistLease_def upd_lease_def free_words_def)

lemma blocklist_inv:
  assumes "lease_inv c s" "r \<in> set (v4_leases s)" "no_other m s \<or> hw_at s r = m \<and> macs_unique s"
  shows "lease_inv c (blocklistLease env c r s)" "no_other m (blocklistLease env c r s)"
proof -
  have z: "zero_mac (replicate 6 0)" by (simp add: zero_mac_def)
  show "lease_inv c (blocklistLease env c r s)"
    unfolding blocklistLease_def by (rule lease_inv_set_mac [OF assms(1,2)]) (use z in auto)
  have "zero_mac m" if "q \<in> set (v4_leases s)" "hw_at (blocklistLease env c r s) q = m" for q
  proof (cases "q = r")
    case True
    with that(2) z show ?thesis by (auto simp: blocklistLease_def upd_lease_def)
  next
    case False
    then have hw: "hw_at s q = m" using that(2) by simp
    from assms(3) show ?thesis
    proof
      assume "no_other m s"
      with hw that(1) show ?thesis by (auto simp: no_other_def)
    next
      assume "hw_at s r = m \<and> macs_unique s"
      with hw that(1) assms(2) False show ?thesis unfolding macs_unique_def isBlocklisted_zero by metis
    qed
  qed
  then show "no_other m (blocklistLease env c r s)" by (simp add: no_other_def)
qed

lemma expired_blocklist:
  assumes "conf_ok c"
  shows "expired_leases (de_now env) (blocklistLease env c r s) = filter (\<lambda>q. q \<noteq> r) (expired_leases (de_now env) s)"
proof -
  have "expired (de_now env) (lease_at (blocklistLease env c r s) q) \<longleftrightarrow> q \<noteq> r \<and> expired (de_now env) (lease_at s q)" for q
    using assms by (auto simp: blocklistLease_def upd_lease_def expired_def conf_ok_def)
  then show ?thesis by (simp add: expired_leases_def conj_commute)
qed

definition kept :: "v4_server \<Rightarrow> v4_server \<Rightarrow> bool" where
  "kept s s' \<longleftrightarrow> (\<forall>q \<in> set (v4_leases s). q \<in> set (v4_leases s') \<and> ip_at s' q = ip_at s q)"

lemma allocateLease_step:
  assumes "lease_inv c s" "length m = 6" "no_other m s"
  obtains "allocateLease env c m s = Some (Inr None, s)" "free_words c s = {}" "expired_leases (de_now env) s = []"
    | r s1 where "allocateLease env c m s = Some (Inr (Some r), s1)" "lease_inv c s1" "kept s s1" "r \<in> set (v4_leases s1)"
        "hw_at s1 r = m" "\<not> ls_static (lease_at s1 r)" "addrAvailable env c (ip_at s1 r)"
    | s1 where "allocateLease env c m s = allocateLease env c m s1" "lease_inv c s1" "kept s s1" "no_other m s1"
        "work_left env c s1 < work_left env c s"
        "\<And>w. w \<in> free_words c s \<Longrightarrow> w \<notin> free_words c s1 \<Longrightarrow> \<not> addrAvailable env c (Addr4 w)"
proof -
  obtain res s1 where res: "reserveLease env c m s = (res, s1)" by force
  note inv = lease_invD [OF assms(1)]
  from reserveLease_spec [OF assms res] show ?thesis
  proof cases
    case 1
    with res that(1) show ?thesis by (simp add: allocateLease.simps)
  next
    case (2 r)
    have r: "r \<in> set (v4_leases s)" "\<not> ls_static (lease_at s r)" using 2(3) by (auto simp: expired_leases_def expired_def)
    have s1: "v4_leases s1 = v4_leases s" "ip_at s1 q = ip_at s q" "ls_static (lease_at s1 q) = ls_static (lease_at s q)"
      "hw_at s1 r = m" "free_words c s1 = free_words c s" for q
      by (auto simp: 2(5) upd_lease_def free_words_def)
    have ex: "expired_leases (de_now env) s1 = expired_leases (de_now env) s"
      unfolding expired_leases_def s1(1) by (rule filter_cong) (auto simp: 2(5) upd_lease_def expired_def)
    have kept: "kept s s1" by (simp add: kept_def s1)
    show ?thesis
    proof (cases "addrAvailable env c (ip_at s1 r)")
      case True
      with res 2(1) that(2) [of r s1] 2(2) kept r show ?thesis by (simp add: allocateLease.simps s1)
    next
      case False
      let ?s2 = "blocklistLease env c r s1"
      have s2: "lease_inv c ?s2" "no_other m ?s2"
        using blocklist_inv [OF 2(2), of r m env] r s1(1,4) lease_invD(6) [OF 2(2)] by simp_all
      have "length (expired_leases (de_now env) ?s2) < length (expired_leases (de_now env) s)"
        using 2(3) by (simp add: expired_blocklist [OF inv(1)] ex length_filter_less)
      moreover have "allocateLease env c m s = allocateLease env c m ?s2"
        using res 2(1) False by (subst allocateLease.simps) simp
      ultimately show ?thesis using that(3) [of ?s2] s2 kept by (simp add: s1 kept_def)
    qed
  next
    case (3 r w)
    have r: "r \<in> set (v4_leases s1)" "hw_at s1 r = m" "\<not> ls_static (lease_at s1 r)" using 3 by simp_all
    have kept: "kept s s1" using 3(4,6) by (simp add: kept_def)
    show ?thesis
    proof (cases "addrAvailable env c (ip_at s1 r)")
      case True
      with res 3(1) that(2) [of r s1] 3(2) kept r show ?thesis by (simp add: allocateLease.simps)
    next
      case False
      let ?s2 = "blocklistLease env c r s1"
      have s2: "lease_inv c ?s2" "no_other m ?s2"
        using blocklist_inv [OF 3(2) r(1), of m env] r(2) lease_invD(6) [OF 3(2)] by simp_all
      have "free_words c s1 \<subseteq> free_words c s - {w}"
        by (auto simp: free_words_def 3(7) bs_members_set [OF inv(3)])
      then have "card (free_words c s1) < card (free_words c s)"
        using 3(3) by (intro psubset_card_mono) auto
      moreover have "\<not> addrAvailable env c (Addr4 v)" if "v \<in> free_words c s" "v \<notin> free_words c ?s2" for v
      proof -
        have "offset_of c (Addr4 v) = offset_of c (Addr4 w)"
          using that by (auto simp: free_words_def 3(7) bs_members_set [OF inv(3)])
        then have "v = w"
          using offset_inj [OF inv(1), of "Addr4 v" "Addr4 w"] that(1) 3(3) by (simp add: free_words_def)
        with False 3(5) show ?thesis by simp
      qed
      moreover have "expired_leases (de_now env) ?s2 = expired_leases (de_now env) s"
        using 3(4,6) unfolding expired_blocklist [OF inv(1)]
        by (auto simp: expired_leases_def intro!: filter_cong)
      moreover have "allocateLease env c m s = allocateLease env c m ?s2"
        using res 3(1) False by (subst allocateLease.simps) simp
      ultimately show ?thesis using that(3) [of ?s2] s2 kept by (simp add: kept_def)
    qed
  qed
qed

lemma allocateLease_spec:
  assumes "lease_inv c s" "length m = 6" "no_other m s"
  shows "\<exists>res s'. allocateLease env c m s = Some (Inr res, s') \<and> lease_inv c s' \<and> kept s s' \<and>
    (case res of
       None \<Rightarrow> expired_leases (de_now env) s' = [] \<and> (\<forall>w \<in> free_words c s. \<not> addrAvailable env c (Addr4 w))
     | Some r \<Rightarrow> r \<in> set (v4_leases s') \<and> hw_at s' r = m \<and> \<not> ls_static (lease_at s' r) \<and>
         addrAvailable env c (ip_at s' r))"
  using assms
proof (induction "work_left env c s" arbitrary: s rule: less_induct)
  case less
  from allocateLease_step [OF less.prems, of env] show ?case
  proof cases
    case 1
    with less.prems(1) show ?thesis by (intro exI [of _ None] exI [of _ s]) (simp add: kept_def)
  next
    case (2 r s1)
    then show ?thesis by (intro exI [of _ "Some r"] exI [of _ s1]) simp
  next
    case (3 s1)
    obtain res s' where res: "allocateLease env c m s1 = Some (Inr res, s')" "lease_inv c s'" "kept s1 s'"
      "case res of None \<Rightarrow> expired_leases (de_now env) s' = [] \<and> (\<forall>w \<in> free_words c s1. \<not> addrAvailable env c (Addr4 w))
       | Some r \<Rightarrow> r \<in> set (v4_leases s') \<and> hw_at s' r = m \<and> \<not> ls_static (lease_at s' r) \<and> addrAvailable env c (ip_at s' r)"
      using less.hyps [OF 3(5) 3(2) less.prems(2) 3(4)] by blast
    have "kept s s'" using res(3) 3(3) by (auto simp: kept_def)
    moreover have "\<forall>w \<in> free_words c s. \<not> addrAvailable env c (Addr4 w)" if "\<forall>w \<in> free_words c s1. \<not> addrAvailable env c (Addr4 w)"
      using that 3(6) by blast
    ultimately show ?thesis unfolding 3(1) using res
      by (intro exI [of _ res] exI [of _ s']) (auto split: option.splits)
  qed
qed

end
