(* ===== verification/DhcpProps.thy ===== *)
theory DhcpProps
  imports DhcpSafety
begin

text \<open>
  The properties of the DHCPv4 server: no address is leased twice over all runs, a discovering client is served
  while an address is left, only the client's own lease is acknowledged, the name of a dynamic lease stays taken
  for static ones, and a declined lease is entered twice.  The instances are on a small server with two addresses.
\<close>

section \<open>A server with two addresses\<close>

definition sample_v4 :: v4_conf where
  "sample_v4 = \<lparr>vc_enabled = True, vc_gateway = Addr4 0xC0A80001, vc_mask = Addr4 0xFFFFFF00, vc_broadcast = ZeroAddr,
     vc_range_start = Addr4 0xC0A80064, vc_range_end = Addr4 0xC0A80065, vc_lease_duration = 0, vc_icmp_timeout = 0,
     vc_options = [], vc_range = None, vc_lease_time = 0, vc_dns = [], vc_subnet = zero_prefix\<rparr>"

definition sample_range :: ip_range where
  "sample_range = \<lparr>ir_start = 0xFFFFC0A80064, ir_end = 0xFFFFC0A80065\<rparr>"

lemma sample_valid:
  "v4_Validate (Some sample_v4) = Inr (sample_v4\<lparr>vc_subnet := prefix_from (Addr4 0xC0A80001) 24,
     vc_broadcast := Addr4 0xC0A800FF, vc_range := Some sample_range\<rparr>)"
proof -
  have range: "newIPRange (Addr4 0xC0A80064) (Addr4 0xC0A80065) = Inr sample_range"
    by (simp add: newIPRange_def ip_int_v4 v4_base_def sample_range_def maxRangeLen_def)
  have size: "mask_size (Addr4 0xFFFFFF00) = 24" by code_simp
  have inside: "prefix_contains (prefix_from (Addr4 0xC0A80001) 24) (Addr4 0xC0A80064)"
    "prefix_contains (prefix_from (Addr4 0xC0A80001) 24) (Addr4 0xC0A80065)" by code_simp+
  have gateway: "ir_contains (Some sample_range) (Addr4 0xC0A80001) = False"
    by (simp add: ir_contains_def containsInt_def ip_int_v4 v4_base_def sample_range_def)
  have broadcast: "BroadcastFromPref (prefix_from (Addr4 0xC0A80001) 24) = Addr4 0xC0A800FF" by code_simp
  show ?thesis by (simp add: v4_Validate_def sample_v4_def ensureV4_def range size inside gateway broadcast)
qed

definition sample_conf :: v4_conf where
  "sample_conf = sample_v4\<lparr>vc_subnet := prefix_from (Addr4 0xC0A80001) 24, vc_broadcast := Addr4 0xC0A800FF,
     vc_range := Some sample_range, vc_lease_time := 86400 * second_dur, vc_lease_duration := 86400,
     vc_dns := [Addr4 0xC0A80001]\<rparr>"

definition sample_start :: v4_server where
  "sample_start = configureDNSIPAddrs [Addr4 0xC0A80001] (snd (v4Create (\<lambda>_. None) sample_v4))"

lemma sample_v4_simps [simp]:
  "vc_options sample_v4 = []" "vc_lease_duration sample_v4 = 0" "vc_dns sample_v4 = []" "vc_gateway sample_v4 = Addr4 0xC0A80001"
  by (simp_all add: sample_v4_def)

lemma sample_start_simps [simp]:
  "fst (v4Create (\<lambda>_. None) sample_v4) = None" "v4_conf sample_start = Some sample_conf" "v4_leases sample_start = []"
  "v4_offsets sample_start = newBitSet" "v4_hosts sample_start = Map.empty" "v4_ips sample_start = Map.empty"
  "v4_tail sample_start = []" "v4_fresh sample_start = 0"
  by (simp_all add: sample_start_def v4Create_def sample_valid sample_conf_def configureDNSIPAddrs_def Let_def split_beta
      prepareOptions_def)

lemma sample_conf_simps [simp]:
  "vc_icmp_timeout sample_conf = 0" "vc_range sample_conf = Some sample_range" "vc_lease_time sample_conf = 86400000000000"
  "vc_dns sample_conf = [Addr4 0xC0A80001]" "vc_subnet sample_conf = prefix_from (Addr4 0xC0A80001) 24"
  "vc_gateway sample_conf = Addr4 0xC0A80001"
  by (simp_all add: sample_conf_def second_dur_def) (simp_all add: sample_v4_def)

lemma sample_reachable: "v4_reachable sample_conf sample_start"
  by (rule v4_reachable.start [of "\<lambda>_. None" sample_v4 "snd (v4Create (\<lambda>_. None) sample_v4)" "[Addr4 0xC0A80001]"])
    (simp_all add: prod_eq_iff flip: sample_start_def)

section \<open>A client is served\<close>

definition sample_env :: dhcp_env where
  "sample_env = \<lparr>de_outer = (\<lambda>_. True), de_valid_hostname = (\<lambda>_. True), de_valid_mac = (\<lambda>_. True),
     de_in_use = (\<lambda>_. False), de_now = 1000\<rparr>"

definition sample_mac :: mac where
  "sample_mac = [2, 0, 0, 0, 0, 1]"

definition sample_req :: dhcp_req where
  "sample_req = \<lparr>rq_type = MsgDiscover, rq_mac = sample_mac, rq_ciaddr = ZeroAddr, rq_req_ip = ZeroAddr, rq_sid = ZeroAddr,
     rq_hostname = [], rq_params = []\<rparr>"

definition sample_resp :: dhcp_resp where
  "sample_resp = \<lparr>rs_yiaddr = ZeroAddr, rs_opts = Map.empty\<rparr>"

definition sample_lease :: lease where
  "sample_lease = \<lparr>ls_ip = Addr4 0xC0A80064, ls_expiry = zero_time, ls_hostname = [], ls_hwaddr = sample_mac, ls_static = False\<rparr>"

definition sample_leased :: v4_server where
  "sample_leased = snd (addLease sample_conf 0 (snd (alloc_lease sample_lease sample_start)))"

lemma sample_offset: "ir_offset (Some sample_range) (Addr4 0xC0A80064) = (0, True)"
  by (simp add: ir_offset_def containsInt_def ip_int_v4 v4_base_def sample_range_def)

lemma sample_next:
  assumes "\<not> bs_isSet (v4_offsets s) 0"
  shows "nextIP sample_conf s = Addr4 0xC0A80064"
proof -
  have ip: "unmap (ip_of_int 0xFFFFC0A80064) = Addr4 0xC0A80064" "ip_int (ip_of_int 0xFFFFC0A80064) = 0xFFFFC0A80064"
    using ip_of_int_v4 [of "0xC0A80064"] by (simp_all add: v4_base_def)
  have "ir_find_from (ir_start sample_range) (ir_end sample_range)
      (\<lambda>next. (case ir_offset (Some sample_range) next of (offset, ok) \<Rightarrow> ok \<and> \<not> bs_isSet (v4_offsets s) offset)) =
      ip_of_int 0xFFFFC0A80064"
    by (subst ir_find_from.simps) (simp add: sample_range_def ir_offset_def containsInt_def ip assms)
  then show ?thesis by (simp add: nextIP_def ir_find_def ip)
qed

lemma sample_free: "\<not> bs_isSet newBitSet 0" "\<not> bs_isSet (bs_set 0 False (bs_set 0 True newBitSet)) 0"
  by code_simp+

lemma sample_leased_simps [simp]:
  "addLease sample_conf 0 (snd (alloc_lease sample_lease sample_start)) = (None, sample_leased)"
  "v4_conf sample_leased = Some sample_conf" "v4_leases sample_leased = [0]" "v4_fresh sample_leased = 1"
  "lease_at sample_leased 0 = sample_lease" "v4_hosts sample_leased = Map.empty" "v4_ips sample_leased = [Addr4 0xC0A80064 \<mapsto> 0]"
  "v4_offsets sample_leased = bs_set 0 True newBitSet" "v4_tail sample_leased = []"
  by (simp_all add: sample_leased_def addLease_def alloc_lease_def sample_offset sample_lease_def Let_def)

lemma sample_discover:
  "handleDiscover sample_env sample_conf sample_req resp sample_start =
   Some (Inr (Some 0), set_opt opt_MessageType (OMsg MsgOffer) resp, notify_store sample_leased)"
proof -
  have "reserveLease sample_env sample_conf sample_mac sample_start = (Inr (Some 0), sample_leased)"
    using sample_leased_simps(1)
    by (simp add: reserveLease_def Let_def sample_next sample_free alloc_lease_def flip: sample_lease_def)
  then have "allocateLease sample_env sample_conf sample_mac sample_start = Some (Inr (Some 0), sample_leased)"
    by (simp add: allocateLease.simps addrAvailable_def)
  then show ?thesis by (simp add: handleDiscover_def findLease_def sample_req_def)
qed

lemma sample_offered: "v4_reachable sample_conf (notify_store sample_leased)"
proof -
  obtain out where "packetHandler sample_env sample_conf sample_req (Some sample_resp) sample_start =
      Some (out, notify_store sample_leased)"
    using sample_discover
    by (simp add: packetHandler_def v4_handle_def messageHandlers_def sample_req_def [THEN arg_cong, of rq_type]
        sample_env_def [THEN arg_cong, of de_valid_mac])
  then show ?thesis
    by (rule v4_reachable.packet [OF sample_reachable]) (simp_all add: sample_req_def sample_mac_def)
qed

section \<open>Properties\<close>



text \<open>In every reachable state a lookup by address gives the hardware address of the lease with that address, for a
  lease that is static or has not expired, and nothing else.
\<close>

theorem find_mac_exact:
  assumes "v4_reachable c s"
  shows "FindMACbyIP now ip s = Some m \<longleftrightarrow>
    (\<exists>r \<in> set (v4_leases s). ls_ip (lease_at s r) = ip \<and> ls_hwaddr (lease_at s r) = m \<and>
      (ls_static (lease_at s r) \<or> now < ls_expiry (lease_at s r)))"
proof -
  note inv = lease_invD [OF v4_reachable_inv [OF assms]]
  have ips: "v4_ips s ip = Some r \<longleftrightarrow> r \<in> set (v4_leases s) \<and> ip_at s r = ip" for r
    using inv(7) by (simp add: index_exact_def)
  have "is4 ip" if "v4_ips s ip = Some r" for r using that ips inv(8) by (auto simp: lease_ok_def)
  moreover have "q = r" if "v4_ips s ip = Some r" "q \<in> set (v4_leases s)" "ip_at s q = ip" for q r
    using that ips [of q] by simp
  ultimately show ?thesis
    using ips by (cases "v4_ips s ip") (auto simp: FindMACbyIP_def)
qed

theorem find_mac_exact_witness:
  "FindMACbyIP 0 (Addr4 0xC0A80064) (notify_store sample_leased) = None"
  using find_mac_exact [OF sample_offered, of 0 "Addr4 0xC0A80064" "sample_mac"]
    find_mac_exact [OF sample_offered, of 0 "Addr4 0xC0A80064"]
  by (cases "FindMACbyIP 0 (Addr4 0xC0A80064) (notify_store sample_leased)")
    (auto simp: notify_store_def sample_lease_def zero_time_def)



lemma GenerateHostname_is4: "is4 a \<Longrightarrow> \<exists>h. GenerateHostname a = Some h"
  by (cases a) (auto simp: GenerateHostname_def)

lemma validHostnameForClient_is4: "is4 a \<Longrightarrow> \<exists>h. validHostnameForClient env n a = Some h"
  using GenerateHostname_is4 [of a] by (auto simp: validHostnameForClient_def Let_def)

lemma commitLease_total:
  assumes "is4 (ip_at s r)"
  shows "\<exists>s'. commitLease env c r h s = Some s' \<and> ls_expiry (lease_at s' r) = de_now env + vc_lease_time c \<and>
    (\<forall>q. q \<noteq> r \<longrightarrow> lease_at s' q = lease_at s q)"
proof -
  obtain h0 h1 where "validHostnameForClient env h (ip_at s r) = Some h0" "GenerateHostname (ip_at s r) = Some h1"
    using validHostnameForClient_is4 [OF assms] GenerateHostname_is4 [OF assms] by blast
  then show ?thesis by (simp add: commitLease_def Let_def upd_lease_def)
qed

text \<open>A request is always handled.  When it is not acknowledged nothing changes.  When it is,
  the lease has the client's hardware address and the address that the client named, a dynamic lease
  then ends after the lease time, no other lease changes, and the leases stay consistent.
\<close>

theorem request_own_lease:
  assumes "v4_reachable c s"
  shows "\<exists>l b resp' s'. handleRequest env c req resp s = Some ((l, b), resp', s') \<and>
    (case l of
       None \<Rightarrow> s' = s \<and> resp' = resp
     | Some r \<Rightarrow> r \<in> set (v4_leases s) \<and> ls_hwaddr (lease_at s r) = rq_mac req \<and>
         ls_ip (lease_at s r) \<in> {rq_req_ip req, rq_ciaddr req} \<and> rs_opts resp' opt_MessageType = Some (OMsg MsgAck) \<and>
         (\<not> ls_static (lease_at s r) \<longrightarrow> ls_expiry (lease_at s' r) = de_now env + vc_lease_time c) \<and>
         (\<forall>q. q \<noteq> r \<longrightarrow> lease_at s' q = lease_at s q) \<and> lease_inv c s')"
proof (cases "handleByRequestType c req s")
  case (Pair l b)
  note inv = v4_reachable_inv [OF assms]
  show ?thesis
  proof (cases l)
    case None
    then show ?thesis using Pair by (simp add: handleRequest_def)
  next
    case (Some r)
    note mem = handleByRequestType_mem [OF Pair [unfolded Some]]
    have "is4 (ip_at s r)" using lease_invD(8) [OF inv mem(1)] by (simp add: lease_ok_def)
    from commitLease_total [OF this, of env c "rq_hostname req"] obtain s1 where
      s1: "commitLease env c r (rq_hostname req) s = Some s1" "ls_expiry (lease_at s1 r) = de_now env + vc_lease_time c"
        "\<And>q. q \<noteq> r \<Longrightarrow> lease_at s1 q = lease_at s q" by blast
    obtain resp' s' where eq: "handleRequest env c req resp s = Some ((Some r, b), resp', s')"
      and ack: "rs_opts resp' opt_MessageType = Some (OMsg MsgAck)"
      and heap: "v4_heap s' = (if ls_static (lease_at s r) then v4_heap s else v4_heap s1)"
      using Pair Some s1(1)
      by (cases "ls_static (lease_at s r)")
        (simp_all add: handleRequest_def Let_def set_opt_def opt_MessageType_def opt_FQDN_def opt_HostName_def
          notify_store_def notify_change_def)
    have "lease_inv c s'" by (rule lease_inv_same_core [OF inv handleRequest_core [OF inv eq]])
    with mem eq ack heap s1(2,3) show ?thesis by (intro exI conjI) (auto simp del: v4_server.simps)
  qed
qed

definition sample_request :: dhcp_req where
  "sample_request = sample_req\<lparr>rq_type := MsgRequest, rq_req_ip := Addr4 0xC0A80064, rq_sid := Addr4 0xC0A80001\<rparr>"

lemma sample_granted: "handleByRequestType sample_conf sample_request (notify_store sample_leased) = (Some 0, True)"
  by (simp add: handleByRequestType_def handleSelecting_def sample_request_def sample_req_def is_unspecified_def ip_equal_def
      nonzero_ciaddr_def checkLease_def findLease_def notify_store_def sample_lease_def)

theorem request_own_lease_witness:
  "\<exists>resp' s'. handleRequest sample_env sample_conf sample_request sample_resp (notify_store sample_leased) =
      Some ((Some 0, True), resp', s') \<and> rs_opts resp' opt_MessageType = Some (OMsg MsgAck) \<and>
      ls_expiry (lease_at s' 0) = 86400000001000"
proof -
  have "\<And>l b resp' s'. handleRequest sample_env sample_conf sample_request sample_resp (notify_store sample_leased) =
      Some ((l, b), resp', s') \<Longrightarrow> l = Some 0 \<and> b"
    by (auto simp: handleRequest_def sample_granted Let_def split: if_splits option.splits)
  moreover have "\<not> ls_static (lease_at (notify_store sample_leased) 0)" by (simp add: notify_store_def sample_lease_def)
  ultimately show ?thesis
    using request_own_lease [OF sample_offered, of sample_env sample_request sample_resp] by (fastforce simp: sample_env_def)
qed

section \<open>The name of a dynamic lease\<close>

definition clear_names :: "string \<Rightarrow> lref set \<Rightarrow> (lref \<Rightarrow> lease) \<Rightarrow> lref \<Rightarrow> lease" where
  "clear_names h R heap r =
     (if r \<in> R \<and> \<not> ls_static (heap r) \<and> ls_hostname (heap r) = h then (heap r)\<lparr>ls_hostname := []\<rparr> else heap r)"

lemma clear_names_core:
  "ls_ip (clear_names h R heap r) = ls_ip (heap r)" "ls_hwaddr (clear_names h R heap r) = ls_hwaddr (heap r)"
  "ls_static (clear_names h R heap r) = ls_static (heap r)" "r \<notin> R \<Longrightarrow> clear_names h R heap r = heap r"
  by (simp_all add: clear_names_def)

text \<open>The loop with nothing to remove clears the names and leaves the index by name.\<close>

lemma rm_dynamic_loop_names:
  assumes "\<And>j. i \<le> j \<Longrightarrow> j < i + k \<Longrightarrow> \<not> matches s x ((v4_leases s @ v4_tail s) ! j)"
    "\<And>j. i \<le> j \<Longrightarrow> j < i + k \<Longrightarrow> (v4_leases s @ v4_tail s) ! j \<noteq> x"
  shows "rm_dynamic_loop c x i k s =
    Some (None, s\<lparr>v4_heap := clear_names (ls_hostname (lease_at s x)) ((!) (v4_leases s @ v4_tail s) ` {i..<i + k}) (v4_heap s)\<rparr>)"
  using assms
proof (induction k arbitrary: i s)
  case 0
  have "clear_names h {} heap = heap" for h heap by (simp add: clear_names_def fun_eq_iff)
  then show ?case by simp
next
  case (Suc k)
  let ?arr = "v4_leases s @ v4_tail s" and ?h = "ls_hostname (lease_at s x)"
  define t where "t = s\<lparr>v4_heap := clear_names ?h {?arr ! i} (v4_heap s)\<rparr>"
  have eqs: "v4_leases t = v4_leases s" "v4_tail t = v4_tail s" by (simp_all add: t_def)
  have x: "lease_at t x = lease_at s x" using Suc.prems(2) [of i] by (simp add: t_def clear_names_core(4))
  have core: "matches t x r = matches s x r" for r by (simp add: t_def clear_names_core)
  have step: "rm_dynamic_loop c x i (Suc k) s = rm_dynamic_loop c x (i + 1) k t"
  proof -
    have "(if \<not> ls_static (lease_at s (?arr ! i)) \<and> ls_hostname (lease_at s (?arr ! i)) = ?h
        then upd_lease (?arr ! i) (\<lambda>l. l\<lparr>ls_hostname := []\<rparr>) s else s) = t"
      by (auto simp: t_def upd_lease_def clear_names_def fun_eq_iff intro!: v4_server.equality)
    then show ?thesis using Suc.prems(1) [of i] by (simp only: rm_dynamic_loop.simps Let_def) simp
  qed
  have "rm_dynamic_loop c x (i + 1) k t =
      Some (None, t\<lparr>v4_heap := clear_names (ls_hostname (lease_at t x)) ((!) ?arr ` {i + 1..<i + 1 + k}) (v4_heap t)\<rparr>)"
    using Suc.IH [of "i + 1" t] Suc.prems unfolding eqs core by simp
  moreover have "clear_names ?h A (clear_names ?h {r} heap) = clear_names ?h (insert r A) heap" for A r heap
    by (auto simp: clear_names_def fun_eq_iff)
  moreover have "(!) ?arr ` {i..<i + Suc k} = insert (?arr ! i) ((!) ?arr ` {i + 1..<i + 1 + k})"
  proof -
    have "{i..<i + Suc k} = insert i {i + 1..<i + 1 + k}" by auto
    then show ?thesis by simp
  qed
  ultimately show ?case unfolding step x by (simp add: t_def)
qed

text \<open>A static lease with the name of a dynamic lease of another client and another address is refused because
  of that name, and the name of the dynamic lease is emptied all the same.
\<close>

theorem static_name_conflict:
  assumes inv: "lease_inv c s" and l: "like (l\<lparr>ls_ip := unmap (ls_ip l)\<rparr>) s = {}"
    "is4 (unmap (ls_ip l))" "vc_gateway c \<noteq> unmap (ls_ip l)" "de_valid_mac env (ls_hwaddr l)"
    "prefix_contains (vc_subnet c) (unmap (ls_ip l))"
    and name: "static_hostname env (ls_hostname l) = Inr h" "ls_hostname l \<noteq> []" "h \<noteq> []"
    and r: "r \<in> set (v4_leases s)" "\<not> ls_static (lease_at s r)" "ls_hostname (lease_at s r) = h" "v4_hosts s h = Some r"
  shows "\<exists>s'. AddStaticLease env l s = Some (Some ErrDupHostname, s') \<and> ls_hostname (lease_at s' r) = []"
proof -
  define l' where "l' = l\<lparr>ls_ip := unmap (ls_ip l), ls_static := True, ls_hostname := h\<rparr>"
  obtain x s1 where al: "alloc_lease l' s = (x, s1)" by force
  note new = lease_inv_alloc [OF inv al]
  define s2 where "s2 = s1\<lparr>v4_heap := clear_names h (set (v4_leases s)) (v4_heap s1)\<rparr>"
  have arr: "(v4_leases s1 @ v4_tail s1) ! j = v4_leases s ! j" if "j < 0 + length (v4_leases s1)" for j
    using that new(5) by (simp add: nth_append)
  have out: "v4_leases s ! j \<noteq> x \<and> \<not> matches s1 x (v4_leases s ! j)" if "j < length (v4_leases s)" for j
  proof -
    have mem: "v4_leases s ! j \<in> set (v4_leases s)" using that by simp
    then have "\<not> (hw_at s (v4_leases s ! j) = ls_hwaddr l \<or> ip_at s (v4_leases s ! j) = unmap (ls_ip l))"
      using l(1) by (auto simp: like_def)
    with mem show ?thesis using new(2,4,5,7) by (auto simp: l'_def)
  qed
  have image: "(!) (v4_leases s1 @ v4_tail s1) ` {0..<0 + length (v4_leases s1)} = set (v4_leases s)"
    using arr new(5) by (auto simp: set_conv_nth image_iff)
  have "rmDynamicLease c x s1 = Some (None, s2)"
    unfolding rmDynamicLease_def s2_def
    by (subst rm_dynamic_loop_names) (use arr out new(4,5) image in \<open>auto simp: l'_def\<close>)
  moreover have x: "lease_at s2 x = l'" using new(2,4,5) by (simp add: s2_def clear_names_core)
  moreover have "addLease c x s2 = (Some ErrDupHostname, s2)"
    unfolding addLease_def Let_def x using l(5) name(3) r(4) new(8)
    by (simp add: l'_def s2_def split_beta)
  ultimately have "updateStaticLease c x s1 = Some (Some ErrDupHostname, s2)" by (simp add: updateStaticLease_def)
  then have "AddStaticLease env l s = Some (Some ErrDupHostname, s2)"
    using al l(2-4) name lease_invD(2) [OF inv] by (simp add: AddStaticLease_def Let_def l'_def)
  moreover have "ls_hostname (lease_at s2 r) = []"
    using r(1,2,3) new(7) by (simp add: s2_def clear_names_def)
  ultimately show ?thesis by blast
qed

definition sample_named :: v4_server where
  "sample_named = (upd_lease 0 (\<lambda>l. l\<lparr>ls_hostname := ''box''\<rparr>) sample_leased)\<lparr>v4_hosts := [''box'' \<mapsto> 0]\<rparr>"

definition sample_static :: lease where
  "sample_static = \<lparr>ls_ip = Addr4 0xC0A80065, ls_expiry = 0, ls_hostname = ''box'', ls_hwaddr = [2, 0, 0, 0, 0, 2], ls_static = True\<rparr>"

lemma sample_named_inv: "lease_inv sample_conf sample_named"
proof -
  have "lease_inv sample_conf (notify_store sample_leased)" by (rule v4_reachable_inv [OF sample_offered])
  then show ?thesis
    by (rule lease_inv_same_core) (auto simp: same_core_def sample_named_def upd_lease_def notify_store_def)
qed

theorem static_name_conflict_witness:
  "\<exists>s'. AddStaticLease sample_env sample_static sample_named = Some (Some ErrDupHostname, s') \<and> ls_hostname (lease_at s' 0) = []"
proof (rule static_name_conflict [OF sample_named_inv])
  have "v4_leases sample_named = [0]" "lease_at sample_named 0 = sample_lease\<lparr>ls_hostname := ''box''\<rparr>"
    by (simp_all add: sample_named_def upd_lease_def)
  then show "like (sample_static\<lparr>ls_ip := unmap (ls_ip sample_static)\<rparr>) sample_named = {}"
    "0 \<in> set (v4_leases sample_named)" "\<not> ls_static (lease_at sample_named 0)" "ls_hostname (lease_at sample_named 0) = ''box''"
    by (auto simp: like_def sample_lease_def sample_static_def sample_mac_def)
  show "prefix_contains (vc_subnet sample_conf) (unmap (ls_ip sample_static))"
    unfolding sample_conf_simps sample_static_def by code_simp
  have "normalizeHostname (\<lambda>_. True) ''box'' = Some ''box''" by code_simp
  then show "static_hostname sample_env (ls_hostname sample_static) = Inr ''box''"
    by (simp add: static_hostname_def sample_env_def sample_static_def)
  show "v4_hosts sample_named ''box'' = Some 0" by (simp add: sample_named_def)
qed (simp_all add: sample_static_def sample_env_def)

section \<open>Declined leases\<close>

lemma handleDecline_eq:
  assumes "t = notify_store s" "findLeaseForIP (claimed_ip req) (rq_mac req) t = Some old"
  shows "handleDecline env c req resp s =
    (case rmDynamicLease c old t of
       None \<Rightarrow> None
     | Some (Some e, s1) \<Rightarrow> Some (Some e, resp, s1)
     | Some (None, s1) \<Rightarrow>
         (case allocateLease env c (rq_mac req) s1 of
            None \<Rightarrow> None
          | Some (Inl e, s2) \<Rightarrow> Some (Some e, resp, s2)
          | Some (Inr None, s2) \<Rightarrow> Some (None, set_opt opt_MessageType (OMsg MsgAck) (resp\<lparr>rs_yiaddr := Addr4 0\<rparr>), s2)
          | Some (Inr (Some r), s2) \<Rightarrow>
              (case addLease c r (upd_lease r (\<lambda>l. l\<lparr>ls_hostname := ls_hostname (lease_at s2 old),
                   ls_expiry := de_now env + vc_lease_time c\<rparr>) s2) of
                 (Some e, s4) \<Rightarrow> Some (Some e, resp, s4)
               | (None, s4) \<Rightarrow> Some (None, set_opt opt_MessageType (OMsg MsgAck) (resp\<lparr>rs_yiaddr := ls_ip (lease_at s4 r)\<rparr>), s4))))"
  unfolding handleDecline_def Let_def assms(1) [symmetric] assms(2) by simp

text \<open>When a client declines a dynamic lease and is given another one, the list of leases holds an entry twice.
\<close>

theorem decline_duplicates:
  assumes "v4_reachable c s" "length (rq_mac req) = 6" "\<not> zero_mac (rq_mac req)"
    and "handleDecline env c req resp s = Some (None, resp', s')" "findLeaseForIP (claimed_ip req) (rq_mac req) s = Some old"
    and "rs_yiaddr resp' \<noteq> Addr4 0"
  shows "\<not> distinct (v4_leases s')"
proof -
  define t where "t = notify_store s"
  have inv: "lease_inv c t" unfolding t_def by (rule lease_inv_same_core [OF v4_reachable_inv [OF assms(1)]]) simp
  have same: "v4_leases t = v4_leases s" "v4_heap t = v4_heap s" by (simp_all add: t_def notify_store_def)
  have found: "findLeaseForIP (claimed_ip req) (rq_mac req) t = Some old"
    unfolding assms(5) [symmetric] by (simp add: findLeaseForIP_def same)
  have old: "old \<in> set (v4_leases t)" "hw_at t old = rq_mac req"
    using found by (auto simp: findLeaseForIP_def dest: find_mem split: if_splits)
  have single: "r = q" if "r \<in> set (v4_leases t)" "q \<in> set (v4_leases t)" "matches t old r" "matches t old q" for r q
  proof -
    have "p = old" if "p \<in> set (v4_leases t)" "matches t old p" for p
      using that old assms(3) lease_invD(6,9) [OF inv] unfolding macs_unique_def isBlocklisted_zero by metis
    with that show ?thesis by blast
  qed
  note dec = handleDecline_eq [OF t_def found, where env = env and c = c and resp = resp]
  show ?thesis
  proof (rule rmDynamicLease_single [OF inv, of old])
    show "r = q" if "r \<in> set (v4_leases t)" "q \<in> set (v4_leases t)" "matches t old r" "matches t old q" for r q
      by (rule single [OF that])
  next
    fix s1
    assume "rmDynamicLease c old t = Some (Some StaticLeaseExists, s1)"
    with assms(4) show ?thesis unfolding dec by simp
  next
    fix s1
    assume 2: "rmDynamicLease c old t = Some (None, s1)" "lease_inv c s1" "shrinks t s1"
      "set (v4_leases s1) = {r \<in> set (v4_leases t). \<not> matches t old r}"
    have "no_other (rq_mac req) s1"
      using 2(3,4) old(2) by (auto simp: no_other_def shrinks_def)
    from allocateLease_spec [OF 2(2) assms(2) this, of env] obtain res s2 where
      al: "allocateLease env c (rq_mac req) s1 = Some (Inr res, s2)" "\<And>r. res = Some r \<Longrightarrow> r \<in> set (v4_leases s2)"
      by (auto split: option.splits)
    show ?thesis
    proof (cases res)
      case None
      with assms(4,6) 2(1) al(1) show ?thesis unfolding dec by (auto simp: set_opt_def)
    next
      case (Some r)
      then obtain s3 where "addLease c r (upd_lease r (\<lambda>l. l\<lparr>ls_hostname := ls_hostname (lease_at s2 old),
          ls_expiry := de_now env + vc_lease_time c\<rparr>) s2) = (None, s3)" "s' = s3"
        using assms(4) 2(1) al(1) unfolding dec by (auto split: prod.splits option.splits)
      then have "v4_leases s' = v4_leases s2 @ [r]" using addLease_ok(1) by (fastforce simp: upd_lease_def)
      with al(2) [OF Some] show ?thesis by simp
    qed
  qed
qed

definition sample_decline :: dhcp_req where
  "sample_decline = sample_req\<lparr>rq_type := MsgDecline, rq_req_ip := Addr4 0xC0A80064\<rparr>"

text \<open>Without a check for other devices, the new address is the declined one.\<close>

lemma sample_declined:
  "\<exists>resp' s'. handleDecline sample_env sample_conf sample_decline sample_resp (notify_store sample_leased) =
    Some (None, resp', s') \<and> rs_yiaddr resp' = Addr4 0xC0A80064"
proof -
  define t where "t = notify_store (notify_store sample_leased)"
  have t: "v4_leases t = [0]" "lease_at t 0 = sample_lease" "v4_tail t = []" "v4_fresh t = 1" "v4_hosts t = Map.empty"
    "v4_offsets t = bs_set 0 True newBitSet"
    by (simp_all add: t_def notify_store_def)
  have claimed: "claimed_ip sample_decline = Addr4 0xC0A80064" and mac: "rq_mac sample_decline = sample_mac"
    by (simp_all add: claimed_ip_def sample_decline_def sample_req_def)
  have found: "findLeaseForIP (claimed_ip sample_decline) (rq_mac sample_decline) t = Some 0"
    by (simp add: findLeaseForIP_def claimed mac t sample_lease_def)
  define s1 where "s1 = rmLeaseByIndex sample_conf 0 t"
  have s1: "v4_leases s1 = []" "v4_fresh s1 = 1" "v4_hosts s1 = Map.empty" "v4_heap s1 = v4_heap t"
    "v4_offsets s1 = bs_set 0 False (bs_set 0 True newBitSet)"
    using sample_offset by (auto simp: s1_def rmLeaseByIndex_def t Let_def sample_lease_def)
  have rm: "rmDynamicLease sample_conf 0 t = Some (None, s1)"
    by (simp add: rmDynamicLease_def t Let_def flip: s1_def) (simp add: s1 sample_lease_def)
  obtain s2 where s2: "reserveLease sample_env sample_conf sample_mac s1 = (Inr (Some 1), s2)"
    "lease_at s2 1 = sample_lease" "v4_hosts s2 = Map.empty" "lease_at s2 0 = sample_lease"
    by (simp add: reserveLease_def Let_def sample_next sample_free alloc_lease_def s1 addLease_def sample_offset t
        flip: sample_lease_def) (simp add: sample_lease_def sample_offset s1 t)
  have "allocateLease sample_env sample_conf sample_mac s1 = Some (Inr (Some 1), s2)"
    by (simp add: allocateLease.simps s2 addrAvailable_def)
  with rm s2(2-) show ?thesis
    unfolding handleDecline_eq [OF t_def found] mac
    by (simp add: addLease_def upd_lease_def sample_lease_def sample_offset set_opt_def)
qed

theorem decline_duplicates_witness:
  "\<exists>resp' s'. handleDecline sample_env sample_conf sample_decline sample_resp (notify_store sample_leased) =
      Some (None, resp', s') \<and> rs_yiaddr resp' = Addr4 0xC0A80064 \<and> \<not> distinct (v4_leases s')"
proof -
  obtain resp' s' where *: "handleDecline sample_env sample_conf sample_decline sample_resp (notify_store sample_leased) =
    Some (None, resp', s')" "rs_yiaddr resp' = Addr4 0xC0A80064" using sample_declined by blast
  have "\<not> distinct (v4_leases s')"
    by (rule decline_duplicates [OF sample_offered _ _ *(1), of 0])
      (simp_all add: *(2) sample_decline_def sample_req_def sample_mac_def zero_mac_def findLeaseForIP_def claimed_ip_def
        notify_store_def sample_lease_def)
  with * show ?thesis by blast
qed

end
