(* ===== verification/Bytes.thy ===== *)
theory Bytes
  imports NetIP
begin

text \<open>
  Bytes as natural numbers below 256: numbers in big-endian order, hexadecimal text, and hardware addresses, which are
  read back from what is printed.
\<close>

type_synonym bytes = "nat list"

section \<open>Numbers\<close>

lemma octets_Suc:
  assumes "0 \<le> n"
  shows "octets (Suc k) n = octets k (n div 256) @ [nat (n mod 256)]"
proof -
  have "n div 256 ^ (k - i) = n div 256 div 256 ^ (k - 1 - i)" if "i < k" for i
  proof -
    have "k - i = Suc (k - 1 - i)" using that by simp
    then show ?thesis by (simp add: zdiv_zmult2_eq)
  qed
  then show ?thesis by (auto simp: octets_def)
qed

lemma be_num_snoc: "be_num (bs @ [b]) = be_num bs * 256 + int b"
  by (simp add: be_num_def)

lemma be_num_octets: "0 \<le> n \<Longrightarrow> n < 256 ^ k \<Longrightarrow> be_num (octets k n) = n"
proof (induction k arbitrary: n)
  case 0
  then show ?case by (simp add: octets_def be_num_def)
next
  case (Suc k)
  have "n div 256 < 256 ^ k" using Suc.prems(2) by simp
  with Suc.IH [of "n div 256"] Suc.prems(1) show ?case by (simp add: octets_Suc be_num_snoc pos_imp_zdiv_nonneg_iff)
qed

lemma length_octets [simp]: "length (octets k n) = k"
  by (simp add: octets_def)

section \<open>Hexadecimal digits\<close>

definition hex_string :: "bytes \<Rightarrow> string" where
  "hex_string bs = concat (map (\<lambda>b. [digit_char (b div 16), digit_char (b mod 16)]) bs)"

lemma hex_val_digit_char: "n < 16 \<Longrightarrow> hex_val (digit_char n) = Some n"
  by (auto simp: hex_val_def digit_char_def Let_def)

lemma hex2_digits: "b < 256 \<Longrightarrow> hex2 [digit_char (b div 16), digit_char (b mod 16)] = Some b"
  by (simp add: hex2_def hex_val_digit_char)

lemma hex_string_Cons: "hex_string (b # bs) = digit_char (b div 16) # digit_char (b mod 16) # hex_string bs"
  by (simp add: hex_string_def)

lemma length_hex_string [simp]: "length (hex_string bs) = 2 * length bs"
  by (induction bs) (simp_all add: hex_string_Cons, simp add: hex_string_def)

lemma all_some_map: "all_some (map Some xs) = Some xs"
  by (induction xs) auto

lemma hex_bytes_string: "\<forall>b \<in> set bs. b < 256 \<Longrightarrow> hex_bytes (hex_string bs) = Some bs"
proof -
  assume bytes: "\<forall>b \<in> set bs. b < 256"
  have nth: "hex_string bs ! (2 * i) = digit_char (bs ! i div 16) \<and> hex_string bs ! (2 * i + 1) = digit_char (bs ! i mod 16)"
    if "i < length bs" for i
    using that
  proof (induction bs arbitrary: i)
    case (Cons b bs)
    then show ?case by (cases i) (auto simp: hex_string_Cons)
  qed simp
  have "map (\<lambda>i. hex2 [hex_string bs ! (2 * i), hex_string bs ! (2 * i + 1)]) [0..<length bs] = map Some bs"
    by (rule nth_equalityI) (use nth bytes hex2_digits in auto)
  then show ?thesis by (simp add: hex_bytes_def all_some_map)
qed

section \<open>Text as bytes\<close>

definition string_bytes :: "string \<Rightarrow> bytes" where
  "string_bytes s = map of_char s"

definition bytes_string :: "bytes \<Rightarrow> string" where
  "bytes_string bs = map char_of bs"

lemma bytes_string_bytes [simp]: "bytes_string (string_bytes s) = s"
  by (simp add: bytes_string_def string_bytes_def comp_def)

lemma be_num_octets_word: "LENGTH('a) = 8 * k \<Longrightarrow> be_num (octets k (uint (w :: 'a::len word))) = uint w"
proof (rule be_num_octets)
  assume "LENGTH('a) = 8 * k"
  then have "(2 :: int) ^ LENGTH('a) = 256 ^ k" by (simp add: power_mult)
  with uint_bounded [of w] show "uint w < 256 ^ k" by simp
qed simp

lemma length_string_bytes [simp]: "length (string_bytes s) = length s"
  by (simp add: string_bytes_def)

section \<open>Hardware addresses as text\<close>

lemma split_on_append: "c \<notin> set x \<Longrightarrow> split_on c (x @ c # rest) = x # split_on c rest"
  by (induction x) auto

lemma split_on_single: "c \<notin> set x \<Longrightarrow> split_on c x = [x]"
  by (induction x) auto

lemma split_on_join: "xs \<noteq> [] \<Longrightarrow> \<forall>x \<in> set xs. c \<notin> set x \<Longrightarrow> split_on c (join_with [c] xs) = xs"
  by (induction "[c]" xs rule: join_with.induct) (auto simp: split_on_append split_on_single)

lemma length_join_pairs: "\<forall>x \<in> set xs. length x = 2 \<Longrightarrow> xs \<noteq> [] \<Longrightarrow> length (join_with [c] xs) = 3 * length xs - 1"
  by (induction "[c]" xs rule: join_with.induct) auto

lemma digit_char_sep: "n < 16 \<Longrightarrow> digit_char n \<noteq> CHR '':''"
  using hex_val_digit_char [of n] by (auto simp: hex_val_def)

lemma parse_mac_string:
  assumes "length m \<in> {6, 8, 20}"
  shows "parse_mac (mac_string m) = Some m"
proof -
  let ?digits = "\<lambda>b :: 8 word. [digit_char (unat b div 16), digit_char (unat b mod 16)]"
  let ?parts = "map ?digits m"
  have small: "unat b < 256" for b :: "8 word" using unsigned_less [of b, where ?'a = nat] by simp
  then have div: "unat b div 16 < 16" for b :: "8 word" using less_mult_imp_div_less [of "unat b" 16 16] by simp
  have str: "mac_string m = join_with [CHR '':''] ?parts" by (simp add: mac_string_def)
  have nonempty: "?parts \<noteq> []" using assms by auto
  have split: "split_on (CHR '':'') (mac_string m) = ?parts"
    unfolding str using nonempty
    by (intro split_on_join) (auto simp: digit_char_sep div dest: sym)
  have len: "length (mac_string m) = 3 * length m - 1"
    unfolding str using nonempty length_join_pairs [of ?parts "CHR '':''"] by simp
  obtain b b' m' where "m = b # b' # m'" using assms by (cases m; cases "tl m") auto
  then have sep: "mac_string m ! 2 = CHR '':''" by (simp add: mac_string_def)
  have "map hex2 ?parts = map Some (map unat m)" using small hex2_digits by simp
  then have "all_some (map hex2 ?parts) = Some (map unat m)" by (simp only: all_some_map)
  moreover have "\<not> length (mac_string m) < 14" using assms len by auto
  ultimately show ?thesis using assms by (simp add: parse_mac_def sep split Let_def comp_def)
qed

end
