(* ===== verification/HashPrefix.thy ===== *)
theory HashPrefix
  imports DnsMsg Cache Bytes
begin

text \<open>
  Package \<^verbatim>\<open>internal/filtering/hashprefix\<close>: the checks of safe browsing and parental control.  A checker sends
  the first two bytes of the hashes of a host and its parent domains to a service, gets all blocked hashes with these
  prefixes and keeps them in a cache (\<^verbatim>\<open>hashprefix.go\<close>, \<^verbatim>\<open>cache.go\<close>).

  Arguments of the model: the hash function, the list of public suffixes, the list of the parent domains of a name,
  the upstream that answers a TXT question, and the cache.  Bytes are natural numbers below 256, instants are in
  nanoseconds.
\<close>

definition prefixLen :: nat where "prefixLen = 2"
definition hashSize :: nat where "hashSize = 32"
definition expirySize :: nat where "expirySize = 8"

record hash_env =
  he_sha256 :: "string \<Rightarrow> bytes"
  he_public_suffix :: "string \<Rightarrow> string \<times> bool"
  he_subdomains :: "string \<Rightarrow> string list"
  he_exchange :: "string \<Rightarrow> (string, rr list) result"

record 'c hash_checker =
  hc_cache :: 'c
  hc_txt_suffix :: string
  hc_cache_time :: int

type_synonym 'c hash_cache = "('c, bytes, bytes) cache_ops"

definition findMatch :: "bytes list \<Rightarrow> bytes list \<Rightarrow> bool" where
  "findMatch a b = list_ex (\<lambda>h. h \<in> set b) a"

section \<open>Hashes of a host\<close>

text \<open>The characters from the end of the host up to the dot that is the \<open>n\<close>-th from the end.\<close>

fun until_dot :: "nat \<Rightarrow> string \<Rightarrow> string" where
  "until_dot n [] = []"
| "until_dot n (c # cs) =
     (if c = CHR ''.'' then if n = 1 then [] else c # until_dot (n - 1) cs else c # until_dot n cs)"

definition hostnameToHashes :: "hash_env \<Rightarrow> string \<Rightarrow> bytes list" where
  "hostnameToHashes env host =
     (let (suf, icann) = he_public_suffix env host;
          pubSuf = (if icann then suf else []);
          sub = he_subdomains env (rev (until_dot 4 (rev host)))
      in map (he_sha256 env) (takeWhile (\<lambda>s. s \<noteq> pubSuf) sub))"

section \<open>The cache\<close>

definition seconds :: "int \<Rightarrow> int" where
  "seconds t = t div 1000000000"

definition fromCacheItem :: "int \<Rightarrow> bytes list \<Rightarrow> bytes" where
  "fromCacheItem expiry hashes = octets 8 (uint (word_of_int (seconds expiry) :: 64 word)) @ concat hashes"

text \<open>\<^term>\<open>None\<close> is an index out of range.\<close>

function hash_chunks :: "bytes \<Rightarrow> bytes list option" where
  "hash_chunks data =
     (if data = [] then Some []
      else if length data < hashSize then None
      else map_option ((#) (take hashSize data)) (hash_chunks (drop hashSize data)))"
  by pat_completeness auto
termination by (relation "measure length") (auto simp: hashSize_def)

declare hash_chunks.simps [simp del]

definition toCacheItem :: "bytes \<Rightarrow> (int \<times> bytes list) option" where
  "toCacheItem data =
     (if length data < expirySize then None
      else map_option (\<lambda>hashes. (sint (of_int (be_num (take 8 data)) :: 64 word) * 1000000000, hashes))
             (hash_chunks (drop expirySize data)))"

definition setCache :: "'c hash_cache \<Rightarrow> int \<Rightarrow> bytes \<Rightarrow> bytes list \<Rightarrow> 'c hash_checker \<Rightarrow> 'c hash_checker" where
  "setCache ops now pref hashes c =
     c\<lparr>hc_cache := cache_set ops pref (fromCacheItem (now + hc_cache_time c) hashes) (hc_cache c)\<rparr>"

text \<open>
  The loop over the hashes from index \<open>k\<close> on, \<open>n\<close> of which are left.  It moves the hashes that have to be
  requested to the front, over those that it has read.
\<close>

fun find_loop ::
  "'c hash_cache \<Rightarrow> int \<Rightarrow> 'c hash_checker \<Rightarrow> nat \<Rightarrow> nat \<Rightarrow> nat \<Rightarrow> bytes list \<Rightarrow> (bool \<times> bool \<times> bytes list) option" where
  "find_loop ops now c 0 k i hs = Some (if i = 0 then (True, False, []) else (False, False, take i hs))"
| "find_loop ops now c (Suc n) k i hs =
     (let request = find_loop ops now c n (k + 1) (i + 1) (hs[i := hs ! k]) in
      case cache_get ops (hc_cache c) (take prefixLen (hs ! k)) of
        None \<Rightarrow> request
      | Some data \<Rightarrow>
          (case toCacheItem data of
             None \<Rightarrow> None
           | Some (expiry, items) \<Rightarrow>
               if expiry < now then request
               else if findMatch hs items then Some (True, True, [])
               else find_loop ops now c n (k + 1) i hs))"

definition findInCache :: "'c hash_cache \<Rightarrow> int \<Rightarrow> 'c hash_checker \<Rightarrow> bytes list \<Rightarrow> (bool \<times> bool \<times> bytes list) option" where
  "findInCache ops now c hashes = find_loop ops now c (length hashes) 0 0 hashes"

definition add_hash :: "bytes \<Rightarrow> (bytes, bytes list) gomap \<Rightarrow> (bytes, bytes list) gomap" where
  "add_hash h m =
     gm_put (take prefixLen h) ((case gm_get m (take prefixLen h) of None \<Rightarrow> [] | Some hs \<Rightarrow> hs) @ [h]) m"

definition storeInCache ::
  "'c hash_cache \<Rightarrow> int \<Rightarrow> bytes list \<Rightarrow> bytes list \<Rightarrow> 'c hash_checker \<Rightarrow> 'c hash_checker" where
  "storeInCache ops now hashesToRequest respHashes c =
     (let hashToStore = fold add_hash respHashes [];
          c1 = fold (\<lambda>(pref, hash). setCache ops now pref hash) hashToStore c
      in fold (\<lambda>h c. if cache_get ops (hc_cache c) (take prefixLen h) = None
                     then setCache ops now (take prefixLen h) [] c else c) hashesToRequest c1)"

section \<open>The question and its answer\<close>

definition getQuestion :: "'c hash_checker \<Rightarrow> bytes list \<Rightarrow> string" where
  "getQuestion c hashes = concat (map (\<lambda>h. hex_string (take prefixLen h) @ ''.'') hashes) @ hc_txt_suffix c"

definition appendHashesFromTXT :: "bytes list \<Rightarrow> string list \<Rightarrow> bytes list" where
  "appendHashesFromTXT hashes txt =
     fold (\<lambda>t hs. if length t \<noteq> 2 * hashSize then hs
                  else case hex_bytes t of None \<Rightarrow> hs | Some buf \<Rightarrow> hs @ [buf]) txt hashes"

definition processAnswer :: "bytes list \<Rightarrow> rr list \<Rightarrow> bool \<times> bytes list" where
  "processAnswer hashesToRequest answer =
     (let received = fold (\<lambda>a hs. case a of RRTXT _ txt \<Rightarrow> appendHashesFromTXT hs txt | _ \<Rightarrow> hs) answer []
      in (findMatch hashesToRequest received, received))"

definition hash_Check ::
  "hash_env \<Rightarrow> 'c hash_cache \<Rightarrow> int \<Rightarrow> string \<Rightarrow> 'c hash_checker \<Rightarrow> ((string, bool) result \<times> 'c hash_checker) option" where
  "hash_Check env ops now host c =
     (case findInCache ops now c (hostnameToHashes env host) of
        None \<Rightarrow> None
      | Some (found, blocked, hashesToRequest) \<Rightarrow>
          if found then Some (Inr blocked, c)
          else
            case he_exchange env (getQuestion c hashesToRequest) of
              Inl e \<Rightarrow> Some (Inl e, c)
            | Inr answer \<Rightarrow>
                (let (matched, receivedHashes) = processAnswer hashesToRequest answer
                 in Some (Inr matched, storeInCache ops now hashesToRequest receivedHashes c)))"

section \<open>Items of the cache\<close>

lemma hash_chunks_concat: "\<forall>h \<in> set hs. length h = hashSize \<Longrightarrow> hash_chunks (concat hs) = Some hs"
proof (induction hs)
  case Nil
  then show ?case by (simp add: hash_chunks.simps)
next
  case (Cons h hs)
  then have "h \<noteq> []" by (auto simp: hashSize_def)
  with Cons show ?case by (subst hash_chunks.simps) simp
qed

definition int64 :: "int \<Rightarrow> bool" where
  "int64 n \<longleftrightarrow> - 9223372036854775808 \<le> n \<and> n < 9223372036854775808"

lemma toCacheItem_fromCacheItem:
  assumes "int64 (seconds t)" "\<forall>h \<in> set hs. length h = hashSize"
  shows "toCacheItem (fromCacheItem t hs) = Some (t - t mod 1000000000, hs)"
proof -
  let ?w = "word_of_int (seconds t) :: 64 word"
  have "be_num (octets 8 (uint ?w)) = uint ?w"
    by (rule be_num_octets) (use uint_bounded [of ?w] in \<open>simp_all\<close>)
  moreover have "sint ?w = seconds t"
    using assms(1) by (simp add: signed_of_int signed_take_bit_int_eq_self int64_def)
  moreover have "seconds t * 1000000000 = t - t mod 1000000000"
    unfolding seconds_def by (simp add: minus_mod_eq_div_mult)
  ultimately show ?thesis
    by (simp add: toCacheItem_def fromCacheItem_def hash_chunks_concat [OF assms(2)] expirySize_def)
qed

text \<open>An item of the cache is read back as it was stored, with the expiry time cut to whole seconds.\<close>

theorem cache_item_roundtrip:
  assumes "int64 (seconds t)" "\<forall>h \<in> set hs. length h = hashSize"
  shows "toCacheItem (fromCacheItem t hs) = Some (t - t mod 1000000000, hs)"
  using assms by (rule toCacheItem_fromCacheItem)

theorem cache_item_roundtrip_witness:
  "toCacheItem (fromCacheItem 1700000000999999999 [replicate 32 7, replicate 32 9]) =
   Some (1700000000000000000, [replicate 32 7, replicate 32 9])"
  using cache_item_roundtrip [of 1700000000999999999 "[replicate 32 7, replicate 32 9]"]
  by (simp add: int64_def seconds_def hashSize_def)

section \<open>The search in the cache\<close>

text \<open>\<open>B\<close> is the set of hashes that the service blocks.\<close>

definition items_of :: "bytes set \<Rightarrow> bytes \<Rightarrow> bytes set" where
  "items_of B pref = {b \<in> B. take prefixLen b = pref}"

definition hash_cache_ok :: "'c hash_cache \<Rightarrow> bytes set \<Rightarrow> 'c hash_checker \<Rightarrow> bool" where
  "hash_cache_ok ops B c \<longleftrightarrow>
     all_cached ops (\<lambda>k data. \<exists>e hs. toCacheItem data = Some (e, hs) \<and> set hs = items_of B k) (hc_cache c)"

lemma hash_cache_okD:
  assumes "hash_cache_ok ops B c" "cache_get ops (hc_cache c) k = Some data"
  obtains e hs where "toCacheItem data = Some (e, hs)" "set hs = items_of B k"
  using assms unfolding hash_cache_ok_def by (blast dest: all_cachedD)

lemma findMatch_iff: "findMatch a b \<longleftrightarrow> (\<exists>h \<in> set a. h \<in> set b)"
  by (auto simp: findMatch_def list_ex_iff)

text \<open>
  At index \<open>k\<close> every hash before it is to be requested or not blocked, and the list agrees with the original
  one from \<open>k\<close> on.
\<close>

lemma find_loop_spec:
  assumes "hash_cache_ok ops B c" "k + n = length os" "length hs = length os" "i \<le> k" "drop k hs = drop k os"
    and "set hs \<subseteq> set os" "\<forall>j < k. os ! j \<in> set (take i hs) \<or> os ! j \<notin> B"
  shows "\<exists>found blocked req. find_loop ops now c n k i hs = Some (found, blocked, req) \<and> set req \<subseteq> set os \<and>
    (if found then blocked \<longleftrightarrow> (\<exists>h \<in> set os. h \<in> B) else (\<exists>h \<in> set os. h \<in> B) \<longleftrightarrow> (\<exists>h \<in> set req. h \<in> B))"
  using assms(2-)
proof (induction n arbitrary: k i hs)
  case 0
  have req: "set (take i hs) \<subseteq> set os" using 0(5) set_take_subset by fastforce
  have "(\<exists>h \<in> set os. h \<in> B) \<longleftrightarrow> (\<exists>h \<in> set (take i hs). h \<in> B)"
    using 0(1,6) req by (metis add_0_right in_set_conv_nth subsetD)
  with req show ?case by (cases "i = 0") auto
next
  case (Suc n)
  have k: "k < length os" using Suc.prems(1) by simp
  then have hk: "hs ! k = os ! k" using Suc.prems(2,4) by (metis hd_drop_conv_nth)
  have mem: "hs ! k \<in> set hs" using k Suc.prems(2) by simp
  have dropk: "drop (k + 1) hs = drop (k + 1) os" using Suc.prems(4) by (metis drop_drop add.commute)
  note IH = Suc.IH [of "k + 1"]
  have request: "\<exists>found blocked req. find_loop ops now c n (k + 1) (i + 1) (hs[i := hs ! k]) = Some (found, blocked, req) \<and>
      set req \<subseteq> set os \<and>
      (if found then blocked \<longleftrightarrow> (\<exists>h \<in> set os. h \<in> B) else (\<exists>h \<in> set os. h \<in> B) \<longleftrightarrow> (\<exists>h \<in> set req. h \<in> B))"
  proof (rule IH)
    have take: "take (i + 1) (hs[i := hs ! k]) = take i hs @ [hs ! k]"
      using Suc.prems(2,3) k by (simp add: take_Suc_conv_app_nth)
    show "set (hs[i := hs ! k]) \<subseteq> set os" by (rule set_update_subsetI [OF Suc.prems(5)]) (use mem Suc.prems(5) in blast)
    show "\<forall>j < k + 1. os ! j \<in> set (take (i + 1) (hs[i := hs ! k])) \<or> os ! j \<notin> B"
      unfolding take using Suc.prems(6) hk by (auto simp: less_Suc_eq)
    show "drop (k + 1) (hs[i := hs ! k]) = drop (k + 1) os" using dropk Suc.prems(3) by simp
  qed (use Suc.prems in auto)
  show ?case
  proof (cases "cache_get ops (hc_cache c) (take prefixLen (hs ! k))")
    case None
    with request show ?thesis by simp
  next
    case (Some data)
    with assms(1) obtain e items where items: "toCacheItem data = Some (e, items)"
      "set items = items_of B (take prefixLen (hs ! k))" by (rule hash_cache_okD)
    show ?thesis
    proof (cases "e < now")
      case True
      with request Some items(1) show ?thesis by simp
    next
      case False
      show ?thesis
      proof (cases "findMatch hs items")
        case True
        then have "\<exists>h \<in> set os. h \<in> B" using items(2) Suc.prems(5) by (auto simp: findMatch_iff items_of_def)
        with True False Some items(1) show ?thesis by auto
      next
        case nomatch: False
        then have "os ! k \<notin> B" using items(2) mem unfolding hk by (auto simp: findMatch_iff items_of_def)
        then have "\<forall>j < k + 1. os ! j \<in> set (take i hs) \<or> os ! j \<notin> B" using Suc.prems(6) by (auto simp: less_Suc_eq)
        from IH [OF _ Suc.prems(2) _ dropk Suc.prems(5) this] Suc.prems(1,3) False nomatch Some items(1)
        show ?thesis by simp
      qed
    qed
  qed
qed

lemma findInCache_spec:
  assumes "hash_cache_ok ops B c"
  obtains found blocked req where "findInCache ops now c os = Some (found, blocked, req)" "set req \<subseteq> set os"
    "if found then blocked \<longleftrightarrow> (\<exists>h \<in> set os. h \<in> B) else (\<exists>h \<in> set os. h \<in> B) \<longleftrightarrow> (\<exists>h \<in> set req. h \<in> B)"
  using find_loop_spec [OF assms, of 0 "length os" os os 0 now] that unfolding findInCache_def by auto

section \<open>Storing in the cache\<close>

lemma add_hashes:
  "gm_get (fold add_hash hs m) p =
   (let new = filter (\<lambda>h. take prefixLen h = p) hs in
    if new = [] then gm_get m p else Some ((case gm_get m p of None \<Rightarrow> [] | Some old \<Rightarrow> old) @ new))"
proof (induction hs arbitrary: m)
  case (Cons h hs)
  show ?case unfolding fold_simps Cons.IH by (auto simp: add_hash_def Let_def split: option.splits)
qed simp

lemma add_hashes_distinct: "distinct (map fst m) \<Longrightarrow> distinct (map fst (fold add_hash hs m))"
  by (induction hs arbitrary: m) (auto simp: add_hash_def distinct_update)

text \<open>An item for a prefix with all the blocked hashes that have it.\<close>

lemma setCache_ok:
  assumes "cache_laws ops" "hash_cache_ok ops B c" "int64 (seconds (now + hc_cache_time c))"
    "\<forall>h \<in> B. length h = hashSize" "set hs = items_of B p"
  shows "hash_cache_ok ops B (setCache ops now p hs c)" "hc_cache_time (setCache ops now p hs c) = hc_cache_time c"
    "hc_txt_suffix (setCache ops now p hs c) = hc_txt_suffix c"
proof -
  have "\<forall>h \<in> set hs. length h = hashSize" using assms(4,5) by (simp add: items_of_def)
  from toCacheItem_fromCacheItem [OF assms(3) this] assms(5)
  show "hash_cache_ok ops B (setCache ops now p hs c)"
    using assms(1,2) unfolding hash_cache_ok_def setCache_def by (simp add: all_cached_set)
qed (simp_all add: setCache_def)

lemma setCaches_ok:
  assumes "cache_laws ops" "hash_cache_ok ops B c" "int64 (seconds (now + hc_cache_time c))"
    "\<forall>h \<in> B. length h = hashSize" "\<forall>(p, hs) \<in> set ps. set hs = items_of B p"
  shows "hash_cache_ok ops B (fold (\<lambda>(p, hs). setCache ops now p hs) ps c)"
    "hc_cache_time (fold (\<lambda>(p, hs). setCache ops now p hs) ps c) = hc_cache_time c"
    "hc_txt_suffix (fold (\<lambda>(p, hs). setCache ops now p hs) ps c) = hc_txt_suffix c"
proof -
  have "hash_cache_ok ops B (fold (\<lambda>(p, hs). setCache ops now p hs) ps c) \<and>
    hc_cache_time (fold (\<lambda>(p, hs). setCache ops now p hs) ps c) = hc_cache_time c \<and>
    hc_txt_suffix (fold (\<lambda>(p, hs). setCache ops now p hs) ps c) = hc_txt_suffix c"
    using assms(2,3,5)
  proof (induction ps arbitrary: c)
    case (Cons x ps)
    obtain p hs where x: "x = (p, hs)" by force
    have "set hs = items_of B p" using Cons.prems(3) by (simp add: x)
    from setCache_ok [OF assms(1) Cons.prems(1,2) assms(4) this] Cons.IH [of "setCache ops now p hs c"] Cons.prems(2,3)
    show ?case by (simp add: x)
  qed simp
  then show "hash_cache_ok ops B (fold (\<lambda>(p, hs). setCache ops now p hs) ps c)"
    "hc_cache_time (fold (\<lambda>(p, hs). setCache ops now p hs) ps c) = hc_cache_time c"
    "hc_txt_suffix (fold (\<lambda>(p, hs). setCache ops now p hs) ps c) = hc_txt_suffix c" by blast+
qed

text \<open>A cache that keeps what is stored in it, at least as long as one response is being stored.\<close>

definition cache_keeps :: "('c, 'k, 'v) cache_ops \<Rightarrow> bool" where
  "cache_keeps ops \<longleftrightarrow> (\<forall>c k v k'. cache_get ops (cache_set ops k v c) k' = (if k' = k then Some v else cache_get ops c k'))"

lemma setCache_keeps:
  assumes "cache_keeps ops" "cache_get ops (hc_cache c) p \<noteq> None \<or> p \<in> fst ` set ps"
  shows "cache_get ops (hc_cache (fold (\<lambda>(p, hs). setCache ops now p hs) ps c)) p \<noteq> None"
  using assms(2)
proof (induction ps arbitrary: c)
  case (Cons x ps)
  obtain q hs where x: "x = (q, hs)" by force
  have "cache_get ops (hc_cache (setCache ops now q hs c)) p \<noteq> None \<or> p \<in> fst ` set ps"
    using Cons.prems assms(1) unfolding cache_keeps_def by (auto simp: x setCache_def)
  from Cons.IH [OF this] show ?case by (simp add: x)
qed simp

text \<open>What a service with the blocked hashes \<open>B\<close> answers: all of them that have a requested prefix.\<close>

definition received_hashes :: "rr list \<Rightarrow> bytes list" where
  "received_hashes answer = snd (processAnswer [] answer)"

lemma processAnswer_eq: "processAnswer req answer = (findMatch req (received_hashes answer), received_hashes answer)"
  by (simp add: received_hashes_def processAnswer_def Let_def)

lemma storeInCache_ok:
  assumes laws: "cache_laws ops" "cache_keeps ops" and c: "hash_cache_ok ops B c" "int64 (seconds (now + hc_cache_time c))"
    and B: "\<forall>h \<in> B. length h = hashSize"
    and received: "set received = {b \<in> B. \<exists>h \<in> set req. take prefixLen b = take prefixLen h}"
  shows "hash_cache_ok ops B (storeInCache ops now req received c)"
proof -
  define store where "store = fold add_hash received []"
  define c1 where "c1 = fold (\<lambda>(p, hs). setCache ops now p hs) store c"
  have get: "gm_get store p = (let new = filter (\<lambda>h. take prefixLen h = p) received in if new = [] then None else Some new)" for p
    by (simp add: store_def add_hashes Let_def)
  have distinct: "distinct (map fst store)" unfolding store_def by (rule add_hashes_distinct) simp
  have mem: "x \<in> set received \<longleftrightarrow> x \<in> B \<and> (\<exists>h \<in> set req. take prefixLen x = take prefixLen h)" for x
    unfolding received by simp
  have items: "\<forall>(p, hs) \<in> set store. set hs = items_of B p"
  proof clarify
    fix p hs
    assume "(p, hs) \<in> set store"
    then have "gm_get store p = Some hs" using distinct by simp
    then have filt: "hs = filter (\<lambda>h. take prefixLen h = p) received" "hs \<noteq> []"
      by (auto simp: get Let_def split: if_splits)
    then obtain b where "b \<in> set hs" using last_in_set by blast
    then have hs: "set hs = {h \<in> set received. take prefixLen h = p}" and "\<exists>h \<in> set req. take prefixLen h = p"
      using mem [of b] unfolding filt(1) by auto
    then show "set hs = items_of B p" unfolding hs items_of_def using mem by fastforce
  qed
  have c1: "hash_cache_ok ops B c1" "hc_cache_time c1 = hc_cache_time c"
    unfolding c1_def by (rule setCaches_ok [OF laws(1) c B items])+
  have known: "items_of B (take prefixLen h) = {}" if "h \<in> set req" "cache_get ops (hc_cache c1) (take prefixLen h) = None" for h
  proof (rule ccontr)
    assume "items_of B (take prefixLen h) \<noteq> {}"
    then have "filter (\<lambda>b. take prefixLen b = take prefixLen h) received \<noteq> []"
      using that(1) received by (auto simp: items_of_def filter_empty_conv)
    then have "gm_get store (take prefixLen h) \<noteq> None" by (simp add: get Let_def)
    then have "take prefixLen h \<in> fst ` set store" by (simp add: map_of_eq_None_iff)
    with setCache_keeps [OF laws(2), of c "take prefixLen h" store now] that(2) show False unfolding c1_def by simp
  qed
  have loop: "hash_cache_ok ops B (fold (\<lambda>h c. if cache_get ops (hc_cache c) (take prefixLen h) = None
      then setCache ops now (take prefixLen h) [] c else c) hs d)"
    if "set hs \<subseteq> set req" "hash_cache_ok ops B d" "hc_cache_time d = hc_cache_time c"
      "\<And>p. cache_get ops (hc_cache d) p = None \<Longrightarrow> cache_get ops (hc_cache c1) p = None" for hs d
    using that
  proof (induction hs arbitrary: d)
    case (Cons h hs)
    show ?case
    proof (cases "cache_get ops (hc_cache d) (take prefixLen h) = None")
      case True
      have "set [] = items_of B (take prefixLen h)" using known [of h] Cons.prems(1,4) True by simp
      note set = setCache_ok [OF laws(1) Cons.prems(2) c(2) [folded Cons.prems(3)] B this]
      have "cache_get ops (hc_cache c1) p = None"
        if "cache_get ops (hc_cache (setCache ops now (take prefixLen h) [] d)) p = None" for p
        using that laws(2) Cons.prems(4) [of p] by (auto simp: setCache_def cache_keeps_def split: if_splits)
      with Cons.IH [OF _ set(1)] set(2) Cons.prems(1,3) True show ?thesis by simp
    next
      case False
      with Cons.IH [OF _ Cons.prems(2-4)] Cons.prems(1) show ?thesis by auto
    qed
  qed simp
  show ?thesis
    unfolding storeInCache_def Let_def store_def [symmetric] c1_def [symmetric]
    by (rule loop) (use c1 in auto)
qed

section \<open>Properties\<close>


text \<open>A service that blocks the name \<open>b\<close>, the parent of \<open>a.b\<close>; it reads a question in pieces of five characters.\<close>

definition sample_hash :: "string \<Rightarrow> bytes" where
  "sample_hash s = length s # replicate 31 0"

fun pieces :: "string \<Rightarrow> string list" where
  "pieces (a # b # c # d # e # cs) = [a, b, c, d, e] # pieces cs"
| "pieces _ = []"

definition sample_hash_env :: hash_env where
  "sample_hash_env = \<lparr>he_sha256 = sample_hash, he_public_suffix = (\<lambda>_. ([], False)),
     he_subdomains = (\<lambda>s. if s = ''a.b'' then [''a.b'', ''b''] else [s]),
     he_exchange = (\<lambda>q. Inr (if ''0100.'' \<in> set (pieces q)
        then [RRTXT \<lparr>rh_name = [], rh_type = 16, rh_ttl = 0, rh_class = 1\<rparr> [hex_string (sample_hash ''b'')]] else []))\<rparr>"

definition sample_checker :: "'c \<Rightarrow> 'c hash_checker" where
  "sample_checker cache = \<lparr>hc_cache = cache, hc_txt_suffix = ''sb.'', hc_cache_time = 1000000000\<rparr>"

lemma sample_hashes: "hostnameToHashes sample_hash_env ''a.b'' = [3 # replicate 31 0, 1 # replicate 31 0]"
  by code_simp

lemma sample_received:
  "received_hashes [RRTXT h [hex_string (sample_hash ''b'')]] = [1 # replicate 31 0]" "received_hashes [] = []"
proof -
  have "hex_bytes (hex_string (sample_hash ''b'')) = Some (sample_hash ''b'')"
    by (rule hex_bytes_string) (simp add: sample_hash_def)
  then have "appendHashesFromTXT [] [hex_string (sample_hash ''b'')] = [1 # replicate 31 0]"
    by (simp add: appendHashesFromTXT_def hashSize_def sample_hash_def)
  then show "received_hashes [RRTXT h [hex_string (sample_hash ''b'')]] = [1 # replicate 31 0]"
    by (simp add: received_hashes_def processAnswer_def Let_def)
qed (simp add: received_hashes_def processAnswer_def)

lemma sample_answer:
  assumes "set req \<subseteq> {3 # replicate 31 0, 1 # replicate 31 0}"
  shows "\<exists>answer. he_exchange sample_hash_env (getQuestion (sample_checker cache) req) = Inr answer \<and>
    set (received_hashes answer) =
      {b \<in> {1 # replicate 31 0}. \<exists>h \<in> set req. take prefixLen b = take prefixLen h}"
proof -
  have prefixes: "take prefixLen (3 # replicate 31 0) = [3, 0 :: nat]" "take prefixLen (1 # replicate 31 0) = [1, 0 :: nat]"
    by code_simp+
  have asked: "''0100.'' \<in> set (pieces (getQuestion (sample_checker cache) req)) \<longleftrightarrow> 1 # replicate 31 0 \<in> set req"
    using assms
  proof (induction req)
    case (Cons h req)
    have hex: "hex_string [3, 0] = ''0300''" "hex_string [1, 0] = ''0100''" by code_simp+
    have "pieces (getQuestion (sample_checker cache) (h # req)) =
        (if h = 1 # replicate 31 0 then ''0100.'' else ''0300.'') # pieces (getQuestion (sample_checker cache) req)"
      using Cons.prems by (auto simp: getQuestion_def prefixes prefixes [unfolded One_nat_def] hex hex [unfolded One_nat_def])
    with Cons show ?case by simp
  qed (simp add: getQuestion_def sample_checker_def)
  have "(\<exists>h \<in> set req. take prefixLen (1 # replicate 31 0) = take prefixLen h) \<longleftrightarrow> 1 # replicate 31 0 \<in> set req"
  proof
    assume "\<exists>h \<in> set req. take prefixLen (1 # replicate 31 0) = take prefixLen h"
    then obtain h where "h \<in> set req" "take prefixLen h = [1, 0]" unfolding prefixes by metis
    moreover from this assms have "h = 1 # replicate 31 0" using prefixes(1) by auto
    ultimately show "1 # replicate 31 0 \<in> set req" by simp
  qed blast
  then have "{b \<in> {1 # replicate 31 0}. \<exists>h \<in> set req. take prefixLen b = take prefixLen h} =
      (if 1 # replicate 31 0 \<in> set req then {1 # replicate 31 0} else {})"
    by auto
  then show ?thesis by (simp add: sample_hash_env_def asked sample_received)
qed


text \<open>A cache with room for one entry.\<close>

definition one_entry :: "(('k \<times> 'v) option, 'k, 'v) cache_ops" where
  "one_entry = \<lparr>cache_get = (\<lambda>c k. case c of Some (k', v) \<Rightarrow> if k = k' then Some v else None | None \<Rightarrow> None),
     cache_set = (\<lambda>k v c. Some (k, v)), cache_del = (\<lambda>k c. case c of Some (k', v) \<Rightarrow> if k = k' then None else c | None \<Rightarrow> None),
     cache_clear = (\<lambda>_. None)\<rparr>"

lemma one_entry_laws: "cache_laws one_entry"
  by (auto simp: cache_laws_def one_entry_def split: option.splits if_splits)

definition sample_left :: "(bytes \<times> bytes) option hash_checker" where
  "sample_left = sample_checker (Some ([1, 0], [0, 0, 0, 0, 0, 0, 0, 1]))"

lemma sample_first_check:
  "hash_Check sample_hash_env one_entry 0 ''a.b'' (sample_checker None) = Some (Inr True, sample_left)"
proof -
  have "findInCache one_entry 0 (sample_checker None) (hostnameToHashes sample_hash_env ''a.b'') =
      Some (False, False, [sample_hash ''a.b'', sample_hash ''b''])" by code_simp
  moreover have "he_exchange sample_hash_env
      (getQuestion (sample_checker None :: (bytes \<times> bytes) option hash_checker) [sample_hash ''a.b'', sample_hash ''b'']) =
      Inr [RRTXT \<lparr>rh_name = [], rh_type = 16, rh_ttl = 0, rh_class = 1\<rparr> [hex_string (sample_hash ''b'')]]" by code_simp
  moreover have "processAnswer [sample_hash ''a.b'', sample_hash ''b'']
      [RRTXT \<lparr>rh_name = [], rh_type = 16, rh_ttl = 0, rh_class = 1\<rparr> [hex_string (sample_hash ''b'')]] = (True, [sample_hash ''b''])"
    unfolding processAnswer_eq sample_received by (simp add: findMatch_iff sample_hash_def)
  moreover have "storeInCache one_entry 0 [sample_hash ''a.b'', sample_hash ''b''] [sample_hash ''b''] (sample_checker None) =
      sample_left" by code_simp
  ultimately show ?thesis by (simp add: hash_Check_def)
qed

lemma sample_second_check:
  "\<exists>c. hash_Check sample_hash_env one_entry 0 ''a.b'' sample_left = Some (Inr False, c)"
proof -
  have "findInCache one_entry 0 sample_left (hostnameToHashes sample_hash_env ''a.b'') =
      Some (False, False, [sample_hash ''a.b''])" by code_simp
  moreover have "he_exchange sample_hash_env (getQuestion sample_left [sample_hash ''a.b'']) = Inr []" by code_simp
  moreover have "processAnswer [sample_hash ''a.b''] [] = (False, [])" by code_simp
  ultimately show ?thesis by (simp add: hash_Check_def)
qed

text \<open>With a cache that has no room for the entries of one response, a host whose parent domain is blocked is
  blocked the first time and not blocked the second time, as what the response filled in has been forgotten
  when the prefixes without an entry are stored as having no hashes.
\<close>

theorem tiny_cache_unblocks:
  "\<exists>c1 c2. hash_Check sample_hash_env one_entry 0 ''a.b'' (sample_checker None) = Some (Inr True, c1) \<and>
     hash_Check sample_hash_env one_entry 0 ''a.b'' c1 = Some (Inr False, c2)"
  using sample_first_check sample_second_check by blast

end
