(* ===== verification/Stats.thy ===== *)
theory Stats
  imports Bytes AghAlg
begin

text \<open>
  Package \<^verbatim>\<open>internal/stats\<close>: the counters of one hour (\<^verbatim>\<open>unit.go\<close>), their database and its
  maintenance (\<^verbatim>\<open>stats.go\<close>), and the handlers (\<^verbatim>\<open>http.go\<close>).

  The database of module \<^verbatim>\<open>bbolt\<close> is a map from bucket names to the units stored there; an entry without a unit
  is one that cannot be decoded.  Whether its operations succeed, the matching of ignored hosts and the
  settings of clients are arguments.  Durations are in nanoseconds, with the arithmetic of 64-bit integers where they
  are converted.  Averages are left in whole microseconds; their conversion to floating-point
  seconds, and the average time of each upstream, which is a floating-point number throughout, are not modelled.
\<close>

section \<open>Entries and units\<close>

type_synonym counts = "(string, 64 word) gomap"

type_synonym count_pair = "string \<times> 64 word"

definition RNotFiltered :: int where "RNotFiltered = 1"
definition RFiltered :: nat where "RFiltered = 2"
definition RSafeBrowsing :: nat where "RSafeBrowsing = 3"
definition RSafeSearch :: nat where "RSafeSearch = 4"
definition RParental :: nat where "RParental = 5"
definition resultLast :: nat where "resultLast = 6"

definition maxDomains :: nat where "maxDomains = 100"
definition maxClients :: nat where "maxClients = 100"
definition maxUpstreams :: nat where "maxUpstreams = 100"

record upstream_stat =
  us_address :: string
  us_cached :: bool
  us_error :: bool
  us_duration :: int

record stats_entry =
  se_client :: string
  se_domain :: string
  se_upstreams :: "upstream_stat list"
  se_result :: int
  se_time :: int

datatype entry_error = ResultNotSet | UnknownResult int | EmptyDomain | EmptyClient

definition entry_validate :: "stats_entry \<Rightarrow> entry_error option" where
  "entry_validate e =
     (if se_result e = 0 then Some ResultNotSet
      else if int resultLast \<le> se_result e then Some (UnknownResult (se_result e))
      else if se_domain e = [] then Some EmptyDomain
      else if se_client e = [] then Some EmptyClient
      else None)"

record stats_unit =
  un_domains :: counts
  un_blocked :: counts
  un_clients :: counts
  un_responses :: counts
  un_time_sums :: counts
  un_result :: "64 word list"
  un_id :: "32 word"
  un_total :: "64 word"
  un_time :: "64 word"

definition newUnit :: "32 word \<Rightarrow> stats_unit" where
  "newUnit i = \<lparr>un_domains = [], un_blocked = [], un_clients = [], un_responses = [], un_time_sums = [],
     un_result = replicate resultLast 0, un_id = i, un_total = 0, un_time = 0\<rparr>"

record stats_udb =
  ud_result :: "64 word list"
  ud_domains :: "count_pair list"
  ud_blocked :: "count_pair list"
  ud_clients :: "count_pair list"
  ud_responses :: "count_pair list"
  ud_time_sums :: "count_pair list"
  ud_total :: "64 word"
  ud_avg :: "32 word"

text \<open>A new count is one more than the old, or than zero.\<close>

definition count_of :: "counts \<Rightarrow> string \<Rightarrow> 64 word" where
  "count_of m k = (case gm_get m k of None \<Rightarrow> 0 | Some n \<Rightarrow> n)"

definition add_count :: "string \<Rightarrow> 64 word \<Rightarrow> counts \<Rightarrow> counts" where
  "add_count k n m = gm_put k (count_of m k + n) m"

definition microseconds :: "int \<Rightarrow> 64 word" where
  "microseconds d = word_of_int (if 0 \<le> d then d div 1000 else - (- d div 1000))"

definition add_upstream :: "upstream_stat \<Rightarrow> stats_unit \<Rightarrow> stats_unit" where
  "add_upstream s u =
     (if us_cached s \<or> us_error s then u
      else u\<lparr>un_responses := add_count (us_address s) 1 (un_responses u),
             un_time_sums := add_count (us_address s) (microseconds (us_duration s)) (un_time_sums u)\<rparr>)"

text \<open>\<^term>\<open>None\<close> is an index out of range, for a result code below zero.\<close>

definition unit_add :: "stats_entry \<Rightarrow> stats_unit \<Rightarrow> stats_unit option" where
  "unit_add e u =
     (if se_result e < 0 \<or> int (length (un_result u)) \<le> se_result e then None
      else
        let r = nat (se_result e);
            u1 = u\<lparr>un_result := (un_result u)[r := un_result u ! r + 1]\<rparr>;
            u2 = (if se_result e = RNotFiltered then u1\<lparr>un_domains := add_count (se_domain e) 1 (un_domains u1)\<rparr>
                  else u1\<lparr>un_blocked := add_count (se_domain e) 1 (un_blocked u1)\<rparr>)
        in Some (fold add_upstream (se_upstreams e)
             (u2\<lparr>un_clients := add_count (se_client e) 1 (un_clients u2),
                 un_time := un_time u2 + microseconds (se_time e), un_total := un_total u2 + 1\<rparr>)))"

section \<open>Storing units\<close>

definition compareCount :: "count_pair \<Rightarrow> count_pair \<Rightarrow> int" where
  "compareCount a b = (if snd b < snd a then - 1 else if snd a < snd b then 1 else 0)"

definition convertMapToSlice :: "counts \<Rightarrow> nat \<Rightarrow> count_pair list" where
  "convertMapToSlice m maxVal = take maxVal (sort_cmp compareCount m)"

definition convertSliceToMap :: "count_pair list \<Rightarrow> counts" where
  "convertSliceToMap a = fold (\<lambda>(k, n). gm_put k n) a []"

definition serialize :: "stats_unit \<Rightarrow> stats_udb" where
  "serialize u =
     \<lparr>ud_result = un_result u, ud_domains = convertMapToSlice (un_domains u) maxDomains,
      ud_blocked = convertMapToSlice (un_blocked u) maxDomains, ud_clients = convertMapToSlice (un_clients u) maxClients,
      ud_responses = convertMapToSlice (un_responses u) maxUpstreams,
      ud_time_sums = convertMapToSlice (un_time_sums u) maxUpstreams, ud_total = un_total u,
      ud_avg = (if un_total u = 0 then 0 else ucast (un_time u div un_total u))\<rparr>"

definition deserialize :: "stats_udb option \<Rightarrow> stats_unit \<Rightarrow> stats_unit" where
  "deserialize udb u =
     (case udb of
        None \<Rightarrow> u
      | Some d \<Rightarrow>
          u\<lparr>un_total := ud_total d,
            un_result := take resultLast (ud_result d) @ replicate (resultLast - length (ud_result d)) 0,
            un_domains := convertSliceToMap (ud_domains d), un_blocked := convertSliceToMap (ud_blocked d),
            un_clients := convertSliceToMap (ud_clients d), un_responses := convertSliceToMap (ud_responses d),
            un_time_sums := convertSliceToMap (ud_time_sums d), un_time := ucast (ud_avg d) * ud_total d\<rparr>)"

section \<open>The database\<close>

type_synonym stats_db = "(bytes, stats_udb option) gomap"

record stats_env =
  st_begin :: bool
  st_put :: bool
  st_delete :: bool
  st_commit :: bool
  st_rollback :: bool
  st_close :: bool
  st_open :: bool
  st_remove :: bool
  st_has :: "string list \<Rightarrow> string \<Rightarrow> bool"
  st_count_client :: "string list \<Rightarrow> bool"

text \<open>The content of the database file, and whether it is open.\<close>

record stats_ctx =
  sc_curr :: "stats_unit option"
  sc_file :: stats_db
  sc_open :: bool
  sc_ignored :: "string list"
  sc_limit :: int
  sc_enabled :: bool

definition hour :: int where "hour = 3600000000000"
definition day :: int where "day = 24 * hour"

definition hours_of :: "int \<Rightarrow> 32 word" where
  "hours_of d = word_of_int (d div hour)"

definition newUnitID :: "int \<Rightarrow> 32 word" where
  "newUnitID unix = word_of_int (if 0 \<le> unix then unix div 3600 else - (- unix div 3600))"

definition idToUnitName :: "32 word \<Rightarrow> bytes" where
  "idToUnitName i = octets 8 (uint i)"

definition unitNameToID :: "bytes \<Rightarrow> 32 word \<times> bool" where
  "unitNameToID name = (if length name < 8 then (0, False) else (word_of_int (be_num (take 8 name)), True))"

definition loadUnitFromDB :: "stats_db \<Rightarrow> 32 word \<Rightarrow> stats_udb option" where
  "loadUnitFromDB db i = (case gm_get db (idToUnitName i) of None \<Rightarrow> None | Some v \<Rightarrow> v)"

definition flushUnitToDB :: "stats_env \<Rightarrow> stats_udb \<Rightarrow> 32 word \<Rightarrow> stats_db \<Rightarrow> stats_db option" where
  "flushUnitToDB env udb i db = (if st_put env then Some (gm_put (idToUnitName i) (Some udb) db) else None)"

text \<open>The buckets are walked in the order of the list, which stands for that of the database.\<close>

fun delete_walk :: "bool \<Rightarrow> 32 word \<Rightarrow> bytes list \<Rightarrow> stats_db \<Rightarrow> nat \<times> stats_db" where
  "delete_walk ok first [] db = (0, db)"
| "delete_walk ok first (name # names) db =
     (case unitNameToID name of
        (nameID, valid) \<Rightarrow>
          if valid \<and> first \<le> nameID then (0, db)
          else if \<not> ok then delete_walk ok first names db
          else case delete_walk ok first names (gm_del name db) of (n, db') \<Rightarrow> (n + 1, db'))"

definition deleteOldUnits :: "stats_env \<Rightarrow> 32 word \<Rightarrow> stats_db \<Rightarrow> nat \<times> stats_db" where
  "deleteOldUnits env first db = delete_walk (st_delete env) first (map fst db) db"

datatype ivl_error = LessThanHour | MoreThanYear

definition validateIvl :: "int \<Rightarrow> ivl_error option" where
  "validateIvl ivl = (if ivl < hour then Some LessThanHour else if day * 365 < ivl then Some MoreThanYear else None)"

definition checkInterval :: "32 word \<Rightarrow> bool" where
  "checkInterval days \<longleftrightarrow> days = 0 \<or> days = 1 \<or> days = 7 \<or> days = 30 \<or> days = 90"

datatype stats_error = BadInterval ivl_error | NoClientFunction | OpenFailed | BeginFailed | WriteFailed
  | CloseFailed | UnsupportedInterval | EnabledNull | BadIgnored

text \<open>
  A new context over the database in the file.  \<open>count_client\<close> tells whether the function for clients is
  set.  The transaction that deletes old units is committed when it deleted any.
\<close>

definition stats_New ::
  "stats_env \<Rightarrow> bool \<Rightarrow> 32 word \<Rightarrow> string list \<Rightarrow> int \<Rightarrow> bool \<Rightarrow> stats_db \<Rightarrow> (stats_error, stats_ctx) result" where
  "stats_New env count_client i ignored limit enabled file =
     (case validateIvl limit of
        Some e \<Rightarrow> Inl (BadInterval e)
      | None \<Rightarrow>
          if \<not> count_client then Inl NoClientFunction
          else if \<not> st_open env then Inl OpenFailed
          else if \<not> st_begin env then Inl BeginFailed
          else
            case deleteOldUnits env (i - hours_of limit - 1) file of
              (deleted, db) \<Rightarrow>
                Inr \<lparr>sc_curr = Some (deserialize (loadUnitFromDB db i) (newUnit i)),
                     sc_file = (if 0 < deleted \<and> st_commit env then db else file), sc_open = True,
                     sc_ignored = ignored, sc_limit = limit, sc_enabled = enabled\<rparr>)"

definition stats_Close :: "stats_env \<Rightarrow> stats_ctx \<Rightarrow> stats_error option \<times> stats_ctx" where
  "stats_Close env s =
     (if \<not> sc_open s then (None, s)
      else
        let s1 = s\<lparr>sc_open := False\<rparr>; closed = (if st_close env then None else Some CloseFailed) in
        if \<not> st_begin env then (Some BeginFailed, s1)
        else case sc_curr s of
          None \<Rightarrow> (if st_commit env then closed else Some WriteFailed, s1)
        | Some u \<Rightarrow>
            (case flushUnitToDB env (serialize u) (un_id u) (sc_file s) of
               None \<Rightarrow> (Some WriteFailed, s1)
             | Some db \<Rightarrow>
                 if st_commit env then (closed, s1\<lparr>sc_file := db\<rparr>) else (Some WriteFailed, s1)))"

text \<open>\<^term>\<open>None\<close> is a panic.\<close>

definition stats_Update :: "stats_entry \<Rightarrow> stats_ctx \<Rightarrow> stats_ctx option" where
  "stats_Update e s =
     (if \<not> sc_enabled s \<or> sc_limit s = 0 then Some s
      else if entry_validate e \<noteq> None then Some s
      else case sc_curr s of
        None \<Rightarrow> Some s
      | Some u \<Rightarrow> map_option (\<lambda>u'. s\<lparr>sc_curr := Some u'\<rparr>) (unit_add e u))"

text \<open>The result says whether to go on, and after how long.\<close>

definition flushDB :: "stats_env \<Rightarrow> 32 word \<Rightarrow> 32 word \<Rightarrow> stats_unit \<Rightarrow> stats_ctx \<Rightarrow> (bool \<times> int) \<times> stats_ctx" where
  "flushDB env i limit ptr s =
     (if \<not> sc_open s \<or> \<not> st_begin env then ((True, 0), s)
      else
        let db = sc_file s;
            (db1, flushed) = (case flushUnitToDB env (serialize ptr) (un_id ptr) db of
                                None \<Rightarrow> (db, False) | Some db' \<Rightarrow> (db', True));
            old = idToUnitName (i - limit);
            (db2, deleted) = (if gm_get db1 old = None then (db1, True)
                              else if st_delete env then (gm_del old db1, True) else (db1, False))
        in ((True, 0), s\<lparr>sc_curr := Some (newUnit i),
             sc_file := (if flushed \<and> deleted \<and> st_commit env then db2 else db)\<rparr>))"

definition stats_flush :: "stats_env \<Rightarrow> 32 word \<Rightarrow> stats_ctx \<Rightarrow> (bool \<times> int) \<times> stats_ctx" where
  "stats_flush env i s =
     (case sc_curr s of
        None \<Rightarrow> ((False, 0), s)
      | Some ptr \<Rightarrow>
          if hours_of (sc_limit s) = 0 \<or> un_id ptr = i then ((True, 1000000000), s)
          else flushDB env i (hours_of (sc_limit s)) ptr s)"

text \<open>An error of removing the old file or opening the new one is only logged.\<close>

definition stats_clear :: "stats_env \<Rightarrow> 32 word \<Rightarrow> stats_ctx \<Rightarrow> stats_error option \<times> stats_ctx" where
  "stats_clear env i s =
     (let s1 = s\<lparr>sc_open := False\<rparr> in
      if sc_open s \<and> st_begin env \<and> \<not> st_rollback env then (Some WriteFailed, s1)
      else if sc_open s \<and> \<not> st_close env then (Some CloseFailed, s1)
      else (None, s1\<lparr>sc_file := (if st_remove env then [] else sc_file s), sc_open := st_open env,
              sc_curr := Some (newUnit i)\<rparr>))"

definition stats_setLimit :: "stats_env \<Rightarrow> 32 word \<Rightarrow> int \<Rightarrow> stats_ctx \<Rightarrow> stats_ctx" where
  "stats_setLimit env i limit s =
     (if limit \<noteq> 0 then s\<lparr>sc_enabled := True, sc_limit := limit\<rparr>
      else snd (stats_clear env i (s\<lparr>sc_enabled := False\<rparr>)))"

section \<open>Loading the units of the last hours\<close>

definition empty_udb :: stats_udb where
  "empty_udb = \<lparr>ud_result = replicate resultLast 0, ud_domains = [], ud_blocked = [], ud_clients = [],
     ud_responses = [], ud_time_sums = [], ud_total = 0, ud_avg = 0\<rparr>"

definition unit_at :: "stats_db \<Rightarrow> 32 word \<Rightarrow> stats_udb" where
  "unit_at db i = (case loadUnitFromDB db i of None \<Rightarrow> empty_udb | Some u \<Rightarrow> u)"

lemma word_pred_less: "(w :: 32 word) \<noteq> 0 \<Longrightarrow> unat (w - 1) < unat w"
  by (simp add: unat_minus_one unat_gt_0)

function load_loop :: "stats_db \<Rightarrow> 32 word \<Rightarrow> 32 word \<Rightarrow> stats_udb list" where
  "load_loop db i cur = (if i = cur then [] else unit_at db i # load_loop db (i + 1) cur)"
  by pat_completeness auto

termination
  by (relation "measure (\<lambda>(db, i, cur). unat (cur - i))") (auto simp: diff_diff_eq [symmetric] intro!: word_pred_less)

declare load_loop.simps [simp del]

text \<open>The outer option is the panic on a wrong number of units.\<close>

definition loadUnits :: "stats_env \<Rightarrow> 32 word \<Rightarrow> 32 word \<Rightarrow> stats_ctx \<Rightarrow> (stats_udb list \<times> 32 word) option option" where
  "loadUnits env i limit s =
     (if \<not> sc_open s \<or> \<not> st_begin env then Some None
      else
        let curID = (case sc_curr s of Some u \<Rightarrow> un_id u | None \<Rightarrow> i);
            units = load_loop (sc_file s) (curID - limit + 1) curID @
                      (case sc_curr s of Some u \<Rightarrow> [serialize u] | None \<Rightarrow> [])
        in if length units \<noteq> unat limit then None else Some (Some (units, curID)))"

section \<open>Reports\<close>

record stats_resp =
  sr_units :: string
  sr_queried :: "count_pair list"
  sr_clients :: "count_pair list"
  sr_blocked :: "count_pair list"
  sr_responses :: "count_pair list"
  sr_queries :: "64 word list"
  sr_filtered :: "64 word list"
  sr_safebrowsing :: "64 word list"
  sr_parental :: "64 word list"
  sr_num_queries :: "64 word"
  sr_num_filtered :: "64 word"
  sr_num_safebrowsing :: "64 word"
  sr_num_safesearch :: "64 word"
  sr_num_parental :: "64 word"
  sr_avg :: "32 word"

definition empty_resp :: stats_resp where
  "empty_resp = \<lparr>sr_units = [], sr_queried = [], sr_clients = [], sr_blocked = [], sr_responses = [], sr_queries = [],
     sr_filtered = [], sr_safebrowsing = [], sr_parental = [], sr_num_queries = 0, sr_num_filtered = 0,
     sr_num_safebrowsing = 0, sr_num_safesearch = 0, sr_num_parental = 0, sr_avg = 0\<rparr>"

definition add_pairs :: "(string \<Rightarrow> bool) \<Rightarrow> count_pair list \<Rightarrow> counts \<Rightarrow> counts" where
  "add_pairs skip pairs m = fold (\<lambda>(k, n) m. if skip k then m else add_count k n m) pairs m"

definition topsCollector ::
  "stats_udb list \<Rightarrow> nat \<Rightarrow> (string \<Rightarrow> bool) \<Rightarrow> (stats_udb \<Rightarrow> count_pair list) \<Rightarrow> count_pair list" where
  "topsCollector units maxVal ignored pg =
     convertMapToSlice (fold (\<lambda>u m. add_pairs ignored (pg u) m) units []) maxVal"

definition topClientPairs :: "stats_env \<Rightarrow> stats_udb \<Rightarrow> count_pair list" where
  "topClientPairs env u = filter (\<lambda>(k, n). k = [] \<or> st_count_client env [k]) (ud_clients u)"

definition topUpstreams :: "stats_udb list \<Rightarrow> count_pair list" where
  "topUpstreams units =
     convertMapToSlice (fold (\<lambda>u m. add_pairs (\<lambda>_. False) (ud_responses u) m) units []) maxUpstreams"

definition countHours :: "32 word \<Rightarrow> nat \<Rightarrow> nat" where
  "countHours curHour days =
     (days - 1) * 24 + (if unat curHour mod 24 = 0 then 24 else unat curHour mod 24)"

text \<open>The values of the units, the \<open>i\<close>-th added at index \<open>i div n\<close>.\<close>

definition sum_groups :: "nat \<Rightarrow> nat \<Rightarrow> 64 word list \<Rightarrow> 64 word list" where
  "sum_groups n groups vs = fold (\<lambda>(i, v) acc. acc[i div n := acc ! (i div n) + v]) (enumerate 0 vs) (replicate groups 0)"

definition fillCollectedStats :: "stats_resp \<Rightarrow> stats_udb list \<Rightarrow> 32 word \<Rightarrow> stats_resp" where
  "fillCollectedStats resp units curID =
     (let days = length units div 24; daily = 7 < days;
          us = (if daily then drop (length units - countHours curID days) units else units);
          fill = (\<lambda>f. if daily then sum_groups 24 days (map f us) else sum_groups 1 (length units) (map f us))
      in resp\<lparr>sr_units := (if daily then ''days'' else ''hours''), sr_queries := fill ud_total,
           sr_filtered := fill (\<lambda>u. ud_result u ! RFiltered), sr_safebrowsing := fill (\<lambda>u. ud_result u ! RSafeBrowsing),
           sr_parental := fill (\<lambda>u. ud_result u ! RParental)\<rparr>)"

definition total_of :: "(stats_udb \<Rightarrow> 'a :: len word) \<Rightarrow> stats_udb list \<Rightarrow> 'a word" where
  "total_of f units = foldl (\<lambda>n u. n + f u) 0 units"

text \<open>\<^term>\<open>None\<close> is an index out of range, for a stored unit with too few results.\<close>

definition dataFromUnits :: "stats_env \<Rightarrow> stats_ctx \<Rightarrow> stats_udb list \<Rightarrow> 32 word \<Rightarrow> stats_resp option" where
  "dataFromUnits env s units curID =
     (if list_ex (\<lambda>u. length (ud_result u) \<le> RParental) units then None
      else
        let resp = fillCollectedStats empty_resp units curID;
            timeN = of_nat (length (filter (\<lambda>u. ud_avg u \<noteq> 0) units))
        in Some (resp\<lparr>
             sr_queried := topsCollector units maxDomains (st_has env (sc_ignored s)) ud_domains,
             sr_blocked := topsCollector units maxDomains (st_has env (sc_ignored s)) ud_blocked,
             sr_responses := topUpstreams units,
             sr_clients := topsCollector units maxClients (\<lambda>_. False) (topClientPairs env),
             sr_num_queries := total_of ud_total units,
             sr_num_filtered := total_of (\<lambda>u. ud_result u ! RFiltered) units,
             sr_num_safebrowsing := total_of (\<lambda>u. ud_result u ! RSafeBrowsing) units,
             sr_num_safesearch := total_of (\<lambda>u. ud_result u ! RSafeSearch) units,
             sr_num_parental := total_of (\<lambda>u. ud_result u ! RParental) units,
             sr_avg := (if timeN = 0 then 0 else total_of ud_avg units div timeN)\<rparr>))"

text \<open>The inner option is a failure to load the units.\<close>

definition getData :: "stats_env \<Rightarrow> 32 word \<Rightarrow> 32 word \<Rightarrow> stats_ctx \<Rightarrow> stats_resp option option" where
  "getData env i limit s =
     (if limit = 0 then Some (Some (empty_resp\<lparr>sr_units := ''days''\<rparr>))
      else case loadUnits env i limit s of
        None \<Rightarrow> None
      | Some None \<Rightarrow> Some None
      | Some (Some (units, curID)) \<Rightarrow> map_option Some (dataFromUnits env s units curID))"

definition TopClientsIP :: "stats_env \<Rightarrow> 32 word \<Rightarrow> nat \<Rightarrow> stats_ctx \<Rightarrow> addr list option" where
  "TopClientsIP env i maxCount s =
     (if \<not> sc_enabled s \<or> hours_of (sc_limit s) = 0 then Some []
      else case loadUnits env i (hours_of (sc_limit s)) s of
        None \<Rightarrow> None
      | Some None \<Rightarrow> Some []
      | Some (Some (units, _)) \<Rightarrow>
          Some (List.map_filter (\<lambda>(k, _). parse_addr k)
            (convertMapToSlice (fold (\<lambda>u m. add_pairs (\<lambda>_. False) (ud_clients u) m) units []) maxCount)))"

definition ShouldCount :: "stats_env \<Rightarrow> stats_ctx \<Rightarrow> string \<Rightarrow> string list \<Rightarrow> bool" where
  "ShouldCount env s host ids \<longleftrightarrow> st_count_client env ids \<and> \<not> st_has env (sc_ignored s) host"

section \<open>Handlers\<close>

definition handleStats :: "stats_env \<Rightarrow> 32 word \<Rightarrow> stats_ctx \<Rightarrow> stats_resp option option" where
  "handleStats env i s = getData env i (hours_of (sc_limit s)) s"

definition handleStatsInfo :: "stats_ctx \<Rightarrow> 32 word" where
  "handleStatsInfo s =
     (let days = word_of_int (sc_limit s div day) in
      if \<not> sc_enabled s then 0 else if \<not> checkInterval days \<or> days = 0 then 90 else days)"

text \<open>Ignored hosts, the interval in milliseconds, and whether the statistics are enabled.\<close>

definition handleGetStatsConfig :: "stats_ctx \<Rightarrow> string list \<times> int \<times> null_bool" where
  "handleGetStatsConfig s = (sc_ignored s, sc_limit s div 1000000, bool_to_null_bool (sc_enabled s))"

definition handleStatsConfig :: "stats_env \<Rightarrow> 32 word \<Rightarrow> 32 word \<Rightarrow> stats_ctx \<Rightarrow> stats_error option \<times> stats_ctx" where
  "handleStatsConfig env i days s =
     (if \<not> checkInterval days then (Some UnsupportedInterval, s)
      else (None, stats_setLimit env i (uint days * day) s))"

text \<open>\<open>valid_rules\<close> tells whether an engine can be made of the ignored hosts.  The product wraps.\<close>

definition handlePutStatsConfig ::
  "(string list \<Rightarrow> bool) \<Rightarrow> string list \<Rightarrow> int \<Rightarrow> null_bool \<Rightarrow> stats_ctx \<Rightarrow> stats_error option \<times> stats_ctx" where
  "handlePutStatsConfig valid_rules ignored interval enabled s =
     (let ivl = sint (word_of_int (interval * 1000000) :: 64 word) in
      if \<not> valid_rules ignored then (Some BadIgnored, s)
      else case validateIvl ivl of
        Some e \<Rightarrow> (Some (BadInterval e), s)
      | None \<Rightarrow>
          if enabled = NBNull then (Some EnabledNull, s)
          else (None, s\<lparr>sc_ignored := ignored, sc_limit := ivl, sc_enabled := enabled = NBTrue\<rparr>))"

definition handleStatsReset :: "stats_env \<Rightarrow> 32 word \<Rightarrow> stats_ctx \<Rightarrow> stats_error option \<times> stats_ctx" where
  "handleStatsReset env i s = stats_clear env i s"

end
