(* ===== verification/Sorting.thy ===== *)
theory Sorting
  imports Prelude "HOL-Library.Multiset"
begin

text \<open>
  The elements of a list under the operations that the components share: sorting by a comparison, and the removal of an
  element whose place the last one takes.
\<close>

lemma mset_insert_cmp: "mset (insert_cmp cmp x ys) = add_mset x (mset ys)"
  by (induction ys) auto

lemma mset_sort_cmp [simp]: "mset (sort_cmp cmp xs) = mset xs"
  by (induction xs) (simp_all add: mset_insert_cmp)

lemma mset_swap_remove:
  assumes "i < length xs"
  shows "mset (butlast (xs[i := last xs])) = mset xs - {#xs ! i#}"
proof -
  let ?ys = "xs[i := last xs]"
  have "xs \<noteq> []" using assms by auto
  then have "last ?ys = last xs" by (simp add: last_list_update)
  moreover have "mset (butlast ?ys) = mset ?ys - {#last ?ys#}"
    using append_butlast_last_id [of ?ys] \<open>xs \<noteq> []\<close> by (metis add_diff_cancel_right' list_update_nonempty mset.simps mset_append union_commute)
  ultimately show ?thesis using assms by (simp add: mset_update)
qed

end
