(* ===== verification/StatsProps.thy ===== *)
theory StatsProps
  imports Stats Sorting
begin

text \<open>
  The properties of the statistics: a unit counts the entries, a stored unit is read back, and a report is about the
  entries of the last hours; the places where the numbers are wrong.
\<close>

section \<open>Counting\<close>

lemma count_of_add: "count_of (add_count k n m) k' = count_of m k' + (if k' = k then n else 0)"
  by (simp add: count_of_def add_count_def)

lemma count_of_Nil [simp]: "count_of [] k = 0"
  by (simp add: count_of_def)

lemma gm_wf_add_count [simp]: "gm_wf m \<Longrightarrow> gm_wf (add_count k n m)"
  by (simp add: add_count_def)

definition unit_wf :: "stats_unit \<Rightarrow> bool" where
  "unit_wf u \<longleftrightarrow> gm_wf (un_domains u) \<and> gm_wf (un_blocked u) \<and> gm_wf (un_clients u) \<and> gm_wf (un_responses u) \<and>
     gm_wf (un_time_sums u) \<and> length (un_result u) = resultLast"

lemma unit_wf_new [simp]: "unit_wf (newUnit i)"
  by (simp add: unit_wf_def newUnit_def)

lemma add_upstream_fields:
  "un_domains (add_upstream s u) = un_domains u" "un_blocked (add_upstream s u) = un_blocked u"
  "un_clients (add_upstream s u) = un_clients u" "un_result (add_upstream s u) = un_result u"
  "un_total (add_upstream s u) = un_total u" "un_id (add_upstream s u) = un_id u"
  "un_time (add_upstream s u) = un_time u" "unit_wf u \<Longrightarrow> unit_wf (add_upstream s u)"
  by (auto simp: add_upstream_def unit_wf_def)

lemma add_upstreams_fields:
  "un_domains (fold add_upstream ss u) = un_domains u" "un_blocked (fold add_upstream ss u) = un_blocked u"
  "un_clients (fold add_upstream ss u) = un_clients u" "un_result (fold add_upstream ss u) = un_result u"
  "un_total (fold add_upstream ss u) = un_total u" "un_id (fold add_upstream ss u) = un_id u"
  "un_time (fold add_upstream ss u) = un_time u" "unit_wf u \<Longrightarrow> unit_wf (fold add_upstream ss u)"
  by (induction ss arbitrary: u) (simp_all add: add_upstream_fields)

definition entry_ok :: "stats_entry \<Rightarrow> bool" where
  "entry_ok e \<longleftrightarrow> entry_validate e = None \<and> 0 < se_result e"

lemma entry_okD: "entry_ok e \<Longrightarrow> 1 \<le> se_result e \<and> se_result e < int resultLast"
  by (auto simp: entry_ok_def entry_validate_def split: if_splits)

text \<open>The counters of \<open>u'\<close> are those of \<open>u\<close> and the entries \<open>es\<close>.\<close>

definition counted :: "('a \<Rightarrow> bool) \<Rightarrow> 'a list \<Rightarrow> 64 word" where
  "counted P xs = of_nat (length (filter P xs))"

lemma counted_simps [simp]:
  "counted P [] = 0" "counted P (x # xs) = (if P x then 1 else 0) + counted P xs"
  "counted P (xs @ ys) = counted P xs + counted P ys"
  by (simp_all add: counted_def)

definition counts_more :: "stats_entry list \<Rightarrow> stats_unit \<Rightarrow> stats_unit \<Rightarrow> bool" where
  "counts_more es u u' \<longleftrightarrow> un_id u' = un_id u \<and> un_total u' = un_total u + of_nat (length es) \<and>
     (\<forall>r < resultLast. un_result u' ! r = un_result u ! r + counted (\<lambda>e. se_result e = int r) es) \<and>
     (\<forall>d. count_of (un_domains u') d =
       count_of (un_domains u) d + counted (\<lambda>e. se_result e = RNotFiltered \<and> se_domain e = d) es) \<and>
     (\<forall>d. count_of (un_blocked u') d =
       count_of (un_blocked u) d + counted (\<lambda>e. se_result e \<noteq> RNotFiltered \<and> se_domain e = d) es) \<and>
     (\<forall>k. count_of (un_clients u') k = count_of (un_clients u) k + counted (\<lambda>e. se_client e = k) es)"

lemma counts_more_append: "counts_more xs u v \<Longrightarrow> counts_more ys v w \<Longrightarrow> counts_more (xs @ ys) u w"
  by (simp add: counts_more_def add.assoc)

lemma counts_more_Nil [simp]: "counts_more [] u u"
  by (simp add: counts_more_def)

lemma unit_add_spec:
  assumes "entry_ok e" "unit_wf u"
  shows "\<exists>u'. unit_add e u = Some u' \<and> unit_wf u' \<and> counts_more [e] u u'"
proof -
  note r = entry_okD [OF assms(1)]
  have len: "length (un_result u) = resultLast" using assms(2) by (simp add: unit_wf_def)
  have range: "\<not> (se_result e < 0 \<or> int (length (un_result u)) \<le> se_result e)" using r len by simp
  define u2 where "u2 = (let r = nat (se_result e); u1 = u\<lparr>un_result := (un_result u)[r := un_result u ! r + 1]\<rparr> in
      if se_result e = RNotFiltered then u1\<lparr>un_domains := add_count (se_domain e) 1 (un_domains u1)\<rparr>
      else u1\<lparr>un_blocked := add_count (se_domain e) 1 (un_blocked u1)\<rparr>)"
  define u3 where "u3 = u2\<lparr>un_clients := add_count (se_client e) 1 (un_clients u2),
      un_time := un_time u2 + microseconds (se_time e), un_total := un_total u2 + 1\<rparr>"
  have add: "unit_add e u = Some (fold add_upstream (se_upstreams e) u3)"
    using range by (simp add: unit_add_def Let_def u3_def u2_def)
  have u3: "unit_wf u3" "un_id u3 = un_id u" "un_total u3 = un_total u + 1"
    "un_result u3 = (un_result u)[nat (se_result e) := un_result u ! nat (se_result e) + 1]"
    "\<And>d. count_of (un_domains u3) d = count_of (un_domains u) d + (if se_result e = RNotFiltered \<and> se_domain e = d then 1 else 0)"
    "\<And>d. count_of (un_blocked u3) d = count_of (un_blocked u) d + (if se_result e \<noteq> RNotFiltered \<and> se_domain e = d then 1 else 0)"
    "\<And>k. count_of (un_clients u3) k = count_of (un_clients u) k + (if se_client e = k then 1 else 0)"
    using assms(2) by (auto simp: u3_def u2_def unit_wf_def Let_def count_of_add)
  have "un_result u3 ! q = un_result u ! q + (if int q = se_result e then 1 else 0)" if "q < resultLast" for q
    using that r len unfolding u3(4) by (auto simp: nth_list_update)
  with u3 show ?thesis unfolding add by (auto simp: add_upstreams_fields counts_more_def)
qed

text \<open>The entries of an hour.\<close>

fun add_all :: "stats_entry list \<Rightarrow> stats_unit \<Rightarrow> stats_unit option" where
  "add_all [] u = Some u"
| "add_all (e # es) u = (case unit_add e u of None \<Rightarrow> None | Some u' \<Rightarrow> add_all es u')"

lemma add_all_spec:
  assumes "\<forall>e \<in> set es. entry_ok e" "unit_wf u"
  shows "\<exists>u'. add_all es u = Some u' \<and> unit_wf u' \<and> counts_more es u u'"
  using assms
proof (induction es arbitrary: u)
  case (Cons e es)
  from Cons.prems unit_add_spec [of e u] obtain u1 where
    u1: "unit_add e u = Some u1" "unit_wf u1" "counts_more [e] u u1" by auto
  from Cons.IH [OF _ u1(2)] Cons.prems(1) obtain u2 where
    u2: "add_all es u1 = Some u2" "unit_wf u2" "counts_more es u1 u2" by auto
  from counts_more_append [OF u1(3) u2(3)] u1(1) u2(1,2) show ?case by simp
qed simp

section \<open>Storing\<close>

interpretation count_order: preorder_cmp compareCount
  by unfold_locales (auto simp: compareCount_def split: if_splits)

lemma distinct_sorted_keys: "distinct (map fst (sort_cmp cmp m)) \<longleftrightarrow> distinct (map fst m)"
proof -
  have "mset (map fst (sort_cmp cmp m)) = mset (map fst m)" by simp
  then show ?thesis by (metis mset_eq_imp_distinct_iff)
qed

lemma fold_put_get:
  "distinct (map fst a) \<Longrightarrow> gm_get (fold (\<lambda>(k, n). gm_put k n) a m) = gm_get m ++ map_of a"
proof (induction a arbitrary: m)
  case (Cons x a)
  obtain k n where x: "x = (k, n)" by force
  have "map_of a k = None" using Cons.prems by (simp add: x map_of_eq_None_iff)
  then show ?case using Cons by (auto simp: x fun_eq_iff map_add_def split: option.splits)
qed simp

lemma counts_roundtrip:
  assumes "gm_wf m" "length m \<le> k"
  shows "count_of (convertSliceToMap (convertMapToSlice m k)) = count_of m"
    "gm_get (convertSliceToMap (convertMapToSlice m k)) = gm_get m"
proof -
  let ?s = "sort_cmp compareCount m"
  have distinct: "distinct (map fst ?s)" using assms(1) by (simp add: distinct_sorted_keys gm_wf_def)
  have "map_of ?s = map_of m"
    using distinct assms(1) by (intro map_of_inject_set [THEN iffD2]) (simp_all add: gm_wf_def)
  then show "gm_get (convertSliceToMap (convertMapToSlice m k)) = gm_get m"
    using assms(2) fold_put_get [OF distinct, of "[]"] by (simp add: convertSliceToMap_def convertMapToSlice_def)
  then show "count_of (convertSliceToMap (convertMapToSlice m k)) = count_of m" by (simp add: count_of_def fun_eq_iff)
qed

text \<open>A stored unit is read back with its counters, as long as no counter has more than one hundred names;
  of the sum of the processing times only the whole average is kept.
\<close>

theorem unit_roundtrip:
  assumes "unit_wf u" "length (un_domains u) \<le> 100" "length (un_blocked u) \<le> 100" "length (un_clients u) \<le> 100"
    "length (un_responses u) \<le> 100" "length (un_time_sums u) \<le> 100"
    and "un_total u \<noteq> 0" "un_time u div un_total u < 4294967296"
  shows "let u' = deserialize (Some (serialize u)) (newUnit (un_id u)) in
    un_id u' = un_id u \<and> un_total u' = un_total u \<and> un_result u' = un_result u \<and>
    gm_get (un_domains u') = gm_get (un_domains u) \<and> gm_get (un_blocked u') = gm_get (un_blocked u) \<and>
    gm_get (un_clients u') = gm_get (un_clients u) \<and> gm_get (un_responses u') = gm_get (un_responses u) \<and>
    gm_get (un_time_sums u') = gm_get (un_time_sums u) \<and>
    un_time u' = un_time u - un_time u mod un_total u"
proof -
  let ?q = "un_time u div un_total u"
  have "?q mod 4294967296 = ?q" using assms(8) by (rule mod_word_less)
  then have "ucast (ucast ?q :: 32 word) = ?q"
    by (intro word_uint_eqI) (simp add: unsigned_ucast_eq take_bit_eq_mod)
  moreover have "?q * un_total u = un_time u - un_time u mod un_total u" by (simp add: minus_mod_eq_div_mult)
  moreover have "length (un_result u) = resultLast" using assms(1) by (simp add: unit_wf_def)
  ultimately show ?thesis
    using assms(1-7)
    by (simp add: deserialize_def serialize_def Let_def newUnit_def unit_wf_def counts_roundtrip maxDomains_def
        maxClients_def maxUpstreams_def)
qed

section \<open>Loading\<close>

lemma load_loop_spec:
  "load_loop db i cur = map (\<lambda>k. unit_at db (i + of_nat k)) [0..<unat (cur - i)]"
proof (induction db i cur rule: load_loop.induct)
  case (1 db i cur)
  show ?case
  proof (cases "i = cur")
    case True
    then show ?thesis by (simp add: load_loop.simps)
  next
    case False
    then have n: "unat (cur - i) = Suc (unat (cur - (i + 1)))"
      using unat_minus_one [of "cur - i"] by (simp add: diff_diff_eq unat_gt_0)
    have "map (\<lambda>k. unit_at db (i + of_nat k)) [0..<unat (cur - i)] =
        unit_at db i # map (\<lambda>k. unit_at db (i + of_nat (Suc k))) [0..<unat (cur - (i + 1))]"
      unfolding n by (subst upt_rec) (simp add: map_Suc_upt [symmetric] del: upt_Suc)
    with False 1 show ?thesis by (subst load_loop.simps) (simp add: add.assoc)
  qed
qed

section \<open>Hours\<close>

definition unit_of :: "stats_entry list \<Rightarrow> 32 word \<Rightarrow> stats_unit" where
  "unit_of es i = the (add_all es (newUnit i))"

lemma unit_of_spec:
  assumes "\<forall>e \<in> set es. entry_ok e"
  shows "add_all es (newUnit i) = Some (unit_of es i)" "un_id (unit_of es i) = i"
    "ud_total (serialize (unit_of es i)) = of_nat (length es)" "length (ud_result (serialize (unit_of es i))) = resultLast"
    "r < resultLast \<Longrightarrow> ud_result (serialize (unit_of es i)) ! r = counted (\<lambda>e. se_result e = int r) es"
proof -
  obtain u where u: "add_all es (newUnit i) = Some u" "unit_wf u" "counts_more es (newUnit i) u"
    using add_all_spec [OF assms unit_wf_new] by blast
  then have "unit_of es i = u" by (simp add: unit_of_def)
  with u show "add_all es (newUnit i) = Some (unit_of es i)" "un_id (unit_of es i) = i"
    "ud_total (serialize (unit_of es i)) = of_nat (length es)" "length (ud_result (serialize (unit_of es i))) = resultLast"
    "r < resultLast \<Longrightarrow> ud_result (serialize (unit_of es i)) ! r = counted (\<lambda>e. se_result e = int r) es"
    by (simp_all add: counts_more_def newUnit_def serialize_def unit_wf_def)
qed

fun updates :: "stats_entry list \<Rightarrow> stats_ctx \<Rightarrow> stats_ctx option" where
  "updates [] s = Some s"
| "updates (e # es) s = (case stats_Update e s of None \<Rightarrow> None | Some s' \<Rightarrow> updates es s')"

text \<open>Each hour ends with a flush under the identifier of the next one.\<close>

fun run_hours :: "stats_env \<Rightarrow> stats_entry list list \<Rightarrow> stats_ctx \<Rightarrow> stats_ctx option" where
  "run_hours env [] s = Some s"
| "run_hours env (es # ess) s =
     (case updates es s of
        None \<Rightarrow> None
      | Some s' \<Rightarrow>
          run_hours env ess (snd (stats_flush env ((case sc_curr s' of Some u \<Rightarrow> un_id u + 1 | None \<Rightarrow> 0)) s')))"

definition db_works :: "stats_env \<Rightarrow> bool" where
  "db_works env \<longleftrightarrow> st_begin env \<and> st_put env \<and> st_delete env \<and> st_commit env"

text \<open>The file holds the units of the last hours before the current one, of which \<open>h\<close> has the latest first.\<close>

definition hist_ok :: "stats_entry list list \<Rightarrow> 32 word \<Rightarrow> stats_ctx \<Rightarrow> bool" where
  "hist_ok h cur s \<longleftrightarrow> sc_open s \<and> sc_enabled s \<and> hours_of (sc_limit s) \<noteq> 0 \<and>
     (\<forall>j. 1 \<le> j \<and> j < unat (hours_of (sc_limit s)) \<longrightarrow>
       loadUnitFromDB (sc_file s) (cur - of_nat j) =
         (if j \<le> length h then Some (serialize (unit_of (h ! (j - 1)) (cur - of_nat j))) else None))"

lemma updates_spec:
  assumes "sc_enabled s" "hours_of (sc_limit s) \<noteq> 0" "sc_curr s = Some u" "\<forall>e \<in> set es. entry_ok e" "unit_wf u"
  shows "updates es s = Some (s\<lparr>sc_curr := add_all es u\<rparr>)"
  using assms
proof (induction es arbitrary: s u)
  case (Cons e es)
  obtain u1 where u1: "unit_add e u = Some u1" "unit_wf u1" using unit_add_spec [of e u] Cons.prems by auto
  have "sc_limit s \<noteq> 0" using Cons.prems(2) by (auto simp: hours_of_def)
  then have "stats_Update e s = Some (s\<lparr>sc_curr := Some u1\<rparr>)"
    using Cons.prems u1 by (simp add: stats_Update_def entry_ok_def)
  with Cons.IH [of "s\<lparr>sc_curr := Some u1\<rparr>" u1] Cons.prems u1 show ?case by simp
qed simp

lemma idToUnitName_inj [simp]: "idToUnitName a = idToUnitName b \<longleftrightarrow> a = b"
proof
  assume "idToUnitName a = idToUnitName b"
  then have "be_num (octets 8 (uint a)) = be_num (octets 8 (uint b))" by (simp add: idToUnitName_def)
  moreover have "be_num (octets 8 (uint w)) = uint w" for w :: "32 word"
  proof (rule be_num_octets)
    have "uint w < 4294967296" using uint_bounded [of w] by simp
    then show "uint w < 256 ^ 8" by simp
  qed simp
  ultimately show "a = b" by (simp add: word_uint_eq_iff)
qed simp

lemma of_nat_less_eq_iff:
  "a < 2 ^ 32 \<Longrightarrow> b < 2 ^ 32 \<Longrightarrow> (of_nat a :: 32 word) = of_nat b \<longleftrightarrow> a = b"
  by (simp add: word_of_nat_eq_iff take_bit_nat_eq_self)

lemma unat_32_less: "unat (w :: 32 word) < 2 ^ 32"
  using unsigned_less [where ?'a = nat, of w] by simp

lemma hist_flush:
  assumes "db_works env" "hist_ok h cur s" "sc_curr s = Some (unit_of es cur)" "\<forall>e \<in> set es. entry_ok e"
  shows "hist_ok (es # h) (cur + 1) (snd (stats_flush env (cur + 1) s))"
    "sc_curr (snd (stats_flush env (cur + 1) s)) = Some (newUnit (cur + 1))"
    "sc_limit (snd (stats_flush env (cur + 1) s)) = sc_limit s"
proof -
  let ?u = "unit_of es cur" and ?L = "hours_of (sc_limit s)"
  have L: "?L \<noteq> 0" "sc_open s" "sc_enabled s" using assms(2) by (simp_all add: hist_ok_def)
  have id: "un_id ?u = cur" by (rule unit_of_spec(2) [OF assms(4)])
  define db where "db = gm_del (idToUnitName (cur + 1 - ?L)) (gm_put (idToUnitName cur) (Some (serialize ?u)) (sc_file s))"
  have get: "gm_get db = (gm_get (sc_file s)) (idToUnitName cur \<mapsto> Some (serialize ?u), idToUnitName (cur + 1 - ?L) := None)"
    by (simp add: db_def)
  obtain db' where db': "snd (stats_flush env (cur + 1) s) = s\<lparr>sc_curr := Some (newUnit (cur + 1)), sc_file := db'\<rparr>"
    "gm_get db' = gm_get db"
  proof
    let ?db' = "if gm_get (gm_put (idToUnitName cur) (Some (serialize ?u)) (sc_file s)) (idToUnitName (cur + 1 - ?L)) = None
      then gm_put (idToUnitName cur) (Some (serialize ?u)) (sc_file s) else db"
    show "snd (stats_flush env (cur + 1) s) = s\<lparr>sc_curr := Some (newUnit (cur + 1)), sc_file := ?db'\<rparr>"
      using L assms(1,3) id by (simp add: stats_flush_def flushDB_def db_works_def flushUnitToDB_def db_def Let_def)
    show "gm_get ?db' = gm_get db" by (auto simp: get fun_eq_iff)
  qed
  show "sc_curr (snd (stats_flush env (cur + 1) s)) = Some (newUnit (cur + 1))"
    "sc_limit (snd (stats_flush env (cur + 1) s)) = sc_limit s" by (simp_all add: db'(1))
  have "loadUnitFromDB db' (cur + 1 - of_nat j) =
      (if j \<le> length (es # h) then Some (serialize (unit_of ((es # h) ! (j - 1)) (cur + 1 - of_nat j))) else None)"
    if j: "1 \<le> j" "j < unat ?L" for j
  proof -
    have lt: "j < 2 ^ 32" using j(2) unat_32_less [of ?L] by (rule less_trans)
    have "cur + 1 - of_nat j \<noteq> cur + 1 - ?L"
      using of_nat_less_eq_iff [OF lt unat_32_less [of ?L]] j(2) by simp
    then have load: "loadUnitFromDB db' (cur + 1 - of_nat j) =
        (if cur + 1 - of_nat j = cur then Some (serialize ?u) else loadUnitFromDB (sc_file s) (cur + 1 - of_nat j))"
      by (simp add: loadUnitFromDB_def db'(2) get)
    show ?thesis
    proof (cases "j = 1")
      case True
      then show ?thesis using load by simp
    next
      case False
      then obtain k where k: "j = Suc k" "1 \<le> k" using j(1) by (cases j) auto
      have shift: "cur + 1 - of_nat j = cur - of_nat k" by (simp add: k(1))
      have "(of_nat k :: 32 word) \<noteq> 0" using of_nat_less_eq_iff [of k 0] lt k by simp
      then have "cur - of_nat k \<noteq> cur" by simp
      moreover have "loadUnitFromDB (sc_file s) (cur - of_nat k) =
          (if k \<le> length h then Some (serialize (unit_of (h ! (k - 1)) (cur - of_nat k))) else None)"
        using assms(2) k j(2) by (simp add: hist_ok_def)
      ultimately show ?thesis using load k(2) unfolding shift by (simp add: k(1))
    qed
  qed
  then show "hist_ok (es # h) (cur + 1) (snd (stats_flush env (cur + 1) s))"
    using L by (simp add: hist_ok_def db'(1))
qed

lemma run_hours_spec:
  assumes "db_works env" "hist_ok h cur s" "sc_curr s = Some (newUnit cur)" "\<forall>es \<in> set ess. \<forall>e \<in> set es. entry_ok e"
  shows "\<exists>s'. run_hours env ess s = Some s' \<and> hist_ok (rev ess @ h) (cur + of_nat (length ess)) s' \<and>
    sc_curr s' = Some (newUnit (cur + of_nat (length ess))) \<and> sc_limit s' = sc_limit s"
  using assms(2-)
proof (induction ess arbitrary: h cur s)
  case (Cons es ess)
  have ok: "\<forall>e \<in> set es. entry_ok e" using Cons.prems(3) by simp
  define s1 where "s1 = s\<lparr>sc_curr := Some (unit_of es cur)\<rparr>"
  have "hours_of (sc_limit s) \<noteq> 0" "sc_enabled s" using Cons.prems(1) by (simp_all add: hist_ok_def)
  then have up: "updates es s = Some s1"
    using updates_spec [OF _ _ Cons.prems(2) ok] unit_of_spec(1) [OF ok] by (simp add: s1_def)
  have s1: "hist_ok h cur s1" "sc_curr s1 = Some (unit_of es cur)" "sc_limit s1 = sc_limit s"
    using Cons.prems(1) by (simp_all add: s1_def hist_ok_def)
  note fl = hist_flush [OF assms(1) s1(1,2) ok]
  have "run_hours env (es # ess) s = run_hours env ess (snd (stats_flush env (cur + 1) s1))"
    using up s1(2) unit_of_spec(2) [OF ok] by simp
  moreover from Cons.IH [OF fl(1,2)] Cons.prems(3) obtain s' where
    "run_hours env ess (snd (stats_flush env (cur + 1) s1)) = Some s'"
    "hist_ok (rev ess @ es # h) (cur + 1 + of_nat (length ess)) s'"
    "sc_curr s' = Some (newUnit (cur + 1 + of_nat (length ess)))" "sc_limit s' = sc_limit s"
    using fl(3) s1(3) by auto
  ultimately show ?case by (simp add: add.assoc)
qed simp

lemma total_of_sum: "total_of f units = sum_list (map f units)"
proof -
  have "foldl (\<lambda>n u. n + f u) a us = a + sum_list (map f us)" for a us
    by (induction us arbitrary: a) (simp_all add: add.assoc)
  then show ?thesis by (simp add: total_of_def)
qed

text \<open>The hours before the current one from the file.\<close>

lemma load_loop_hours:
  assumes "L \<noteq> 0"
  shows "load_loop db (cur - L + 1) cur = map (\<lambda>j. unit_at db (cur - of_nat j)) (rev [1..<unat L])"
proof -
  have n: "unat (cur - (cur - L + 1)) = unat L - 1" using unat_minus_one [OF assms] by (simp add: diff_diff_eq)
  show ?thesis
    unfolding load_loop_spec n
  proof (rule nth_equalityI)
    fix k
    assume "k < length (map (\<lambda>k. unit_at db (cur - L + 1 + of_nat k)) [0..<unat L - 1])"
    then have k: "k < unat L - 1" by simp
    have "(of_nat (unat L - 1 - k) :: 32 word) = L - 1 - of_nat k"
      using k by (simp add: of_nat_diff)
    moreover have "rev [1..<unat L] ! k = unat L - 1 - k" using k by (simp add: rev_nth)
    ultimately show "map (\<lambda>k. unit_at db (cur - L + 1 + of_nat k)) [0..<unat L - 1] ! k =
        map (\<lambda>j. unit_at db (cur - of_nat j)) (rev [1..<unat L]) ! k"
      using k by (simp add: algebra_simps)
  qed simp
qed

text \<open>A counter \<open>f\<close> of units that counts \<open>F\<close> of the entries, summed over the hours.\<close>

lemma sum_hours:
  assumes "hist_ok h cur s" "\<And>es i. \<forall>e \<in> set es. entry_ok e \<Longrightarrow> f (serialize (unit_of es i)) = F es"
    "f empty_udb = 0" "F [] = (0 :: 64 word)" "\<And>xs ys. F (xs @ ys) = F xs + F ys" "\<forall>es \<in> set h. \<forall>e \<in> set es. entry_ok e"
  shows "sum_list (map (\<lambda>j. f (unit_at (sc_file s) (cur - of_nat j))) (rev [1..<unat (hours_of (sc_limit s))])) =
    F (concat (take (unat (hours_of (sc_limit s)) - 1) h))"
proof -
  let ?L = "unat (hours_of (sc_limit s))"
  have val: "f (unit_at (sc_file s) (cur - of_nat j)) = (if j \<le> length h then F (h ! (j - 1)) else 0)" if "1 \<le> j" "j < ?L" for j
  proof -
    have "\<forall>e \<in> set (h ! (j - 1)). entry_ok e" if "j \<le> length h"
      using assms(6) nth_mem [of "j - 1" h] that \<open>1 \<le> j\<close> by auto
    with assms(1-3) that show ?thesis by (simp add: hist_ok_def unit_at_def)
  qed
  have split: "F (concat xss) = sum_list (map F xss)" for xss
    by (induction xss) (simp_all add: assms(4,5))
  have take: "sum_list (map (\<lambda>j. if j < length h then F (h ! j) else 0) [0..<n]) = sum_list (map F (take n h))" for n
    by (induction n) (auto simp: take_Suc_conv_app_nth)
  have "sum_list (map (\<lambda>j. f (unit_at (sc_file s) (cur - of_nat j))) (rev [1..<?L])) =
      sum_list (map (\<lambda>j. if j \<le> length h then F (h ! (j - 1)) else 0) [1..<?L])"
    unfolding rev_map [symmetric] sum_list_rev by (rule arg_cong [where f = sum_list]) (simp add: val)
  also have "\<dots> = sum_list (map (\<lambda>j. if j < length h then F (h ! j) else 0) [0..<?L - 1])"
  proof -
    have upt: "[1..<?L] = map Suc [0..<?L - 1]" by (cases ?L) (simp_all add: map_Suc_upt)
    show ?thesis unfolding upt by (simp add: comp_def Suc_le_eq cong: if_cong)
  qed
  finally show ?thesis unfolding take split .
qed

lemma fill_simps:
  "sr_num_queries (fillCollectedStats r us c) = sr_num_queries r" "sr_avg (fillCollectedStats r us c) = sr_avg r"
  by (simp_all add: fillCollectedStats_def Let_def)

text \<open>C14: After any number of hours the totals of a report are those of the entries of the last hours, as many
  as the limit says and the current one among them, when the database works.
\<close>

theorem report_counts_last_hours:
  assumes "db_works env" "\<forall>es' \<in> set (es # ess). \<forall>e \<in> set es'. entry_ok e" "hours_of limit \<noteq> 0"
    and "s = \<lparr>sc_curr = Some (newUnit i0), sc_file = [], sc_open = True, sc_ignored = ignored, sc_limit = limit, sc_enabled = True\<rparr>"
  shows "\<exists>s1 s2 resp. run_hours env ess s = Some s1 \<and> updates es s1 = Some s2 \<and> handleStats env i s2 = Some (Some resp) \<and>
    (let recent = concat (take (unat (hours_of limit)) (es # rev ess)); result = (\<lambda>r. counted (\<lambda>e. se_result e = int r) recent) in
     sr_num_queries resp = of_nat (length recent) \<and> sr_num_filtered resp = result RFiltered \<and>
     sr_num_safebrowsing resp = result RSafeBrowsing \<and> sr_num_safesearch resp = result RSafeSearch \<and>
     sr_num_parental resp = result RParental)"
proof -
  have es: "\<forall>e \<in> set es. entry_ok e" and ess: "\<forall>es \<in> set ess. \<forall>e \<in> set es. entry_ok e" using assms(2) by simp_all
  have "hist_ok [] i0 s" using assms(3,4) by (simp add: hist_ok_def loadUnitFromDB_def)
  from run_hours_spec [OF assms(1) this _ ess] assms(4) obtain s1 where s1: "run_hours env ess s = Some s1"
    "hist_ok (rev ess) (i0 + of_nat (length ess)) s1" "sc_curr s1 = Some (newUnit (i0 + of_nat (length ess)))" "sc_limit s1 = limit"
    by auto
  define cur where "cur = i0 + of_nat (length ess)"
  define s2 where "s2 = s1\<lparr>sc_curr := Some (unit_of es cur)\<rparr>"
  have up: "updates es s1 = Some s2"
    using updates_spec [OF _ _ s1(3) es] unit_of_spec(1) [OF es] s1(2,4) assms(3) by (simp add: s2_def hist_ok_def cur_def)
  have hist: "hist_ok (rev ess) cur s2" "sc_limit s2 = limit" using s1(2,4) by (simp_all add: s2_def hist_ok_def cur_def)
  let ?L = "unat (hours_of limit)"
  have L: "0 < ?L" using assms(3) by (simp add: unat_gt_0)
  define units where "units = map (\<lambda>j. unit_at (sc_file s2) (cur - of_nat j)) (rev [1..<?L]) @ [serialize (unit_of es cur)]"
  have load: "loadUnits env i (hours_of limit) s2 = Some (Some (units, cur))"
    using hist assms(1) L unit_of_spec(2) [OF es] load_loop_hours [OF assms(3), of "sc_file s2" cur]
    by (simp add: loadUnits_def hist_ok_def db_works_def s2_def units_def)
  have result: "length (ud_result u) = resultLast" if "u \<in> set units" for u
  proof -
    have "length (ud_result (unit_at (sc_file s2) (cur - of_nat j))) = resultLast" if "j \<in> {1..<?L}" for j
    proof (cases "j \<le> length ess")
      case True
      then have "j - 1 < length (rev ess)" using that by auto
      from nth_mem [OF this] have "\<forall>e \<in> set (rev ess ! (j - 1)). entry_ok e" using ess by simp
      with True that hist unit_of_spec(4) show ?thesis by (simp add: hist_ok_def unit_at_def)
    next
      case False
      with that hist show ?thesis by (simp add: hist_ok_def unit_at_def empty_udb_def)
    qed
    with that unit_of_spec(4) [OF es] show ?thesis by (auto simp: units_def)
  qed
  have total: "total_of f units = F (concat (take ?L (es # rev ess)))"
    if "\<And>es i. \<forall>e \<in> set es. entry_ok e \<Longrightarrow> f (serialize (unit_of es i)) = F es" "f empty_udb = 0" "F [] = (0 :: 64 word)"
      "\<And>xs ys. F (xs @ ys) = F xs + F ys" for f :: "stats_udb \<Rightarrow> 64 word" and F
    using sum_hours [OF hist(1) that] ess that(1) [OF es] L
    by (simp add: total_of_sum units_def hist(2) that(4) take_Cons' add.commute comp_def)
  have results: "total_of (\<lambda>u. ud_result u ! r) units = counted (\<lambda>e. se_result e = int r) (concat (take ?L (es # rev ess)))"
    if "r < resultLast" for r
    by (rule total) (use that unit_of_spec(5) in \<open>auto simp: empty_udb_def\<close>)
  have queries: "total_of ud_total units = of_nat (length (concat (take ?L (es # rev ess))))"
    by (rule total) (use unit_of_spec(3) in \<open>auto simp: empty_udb_def\<close>)
  have "\<not> list_ex (\<lambda>u. length (ud_result u) \<le> RParental) units"
    using result by (auto simp: list_ex_iff RParental_def resultLast_def)
  then obtain resp where "handleStats env i s2 = Some (Some resp)" "sr_num_queries resp = total_of ud_total units"
    "sr_num_filtered resp = total_of (\<lambda>u. ud_result u ! RFiltered) units"
    "sr_num_safebrowsing resp = total_of (\<lambda>u. ud_result u ! RSafeBrowsing) units"
    "sr_num_safesearch resp = total_of (\<lambda>u. ud_result u ! RSafeSearch) units"
    "sr_num_parental resp = total_of (\<lambda>u. ud_result u ! RParental) units"
    using load assms(3) hist(2) by (simp add: handleStats_def getData_def dataFromUnits_def Let_def)
  with s1(1) up show ?thesis
    by (simp add: queries results Let_def RFiltered_def RSafeBrowsing_def RSafeSearch_def RParental_def resultLast_def)
qed

definition sample_st_env :: stats_env where
  "sample_st_env = \<lparr>st_begin = True, st_put = True, st_delete = True, st_commit = True, st_rollback = True, st_close = True,
     st_open = True, st_remove = True, st_has = (\<lambda>_ _. False), st_count_client = (\<lambda>_. True)\<rparr>"

definition sample_entry :: "int \<Rightarrow> stats_entry" where
  "sample_entry r = \<lparr>se_client = ''1.2.3.4'', se_domain = ''a.test'', se_upstreams = [], se_result = r, se_time = 5000\<rparr>"

lemma sample_entries_ok: "r \<in> {1, 2, 3, 4, 5} \<Longrightarrow> entry_ok (sample_entry r)"
  by (auto simp: entry_ok_def entry_validate_def sample_entry_def resultLast_def)

theorem report_counts_last_hours_witness:
  "\<exists>s1 s2 resp. run_hours sample_st_env [[sample_entry 1], [sample_entry 2, sample_entry 1]]
       \<lparr>sc_curr = Some (newUnit 100), sc_file = [], sc_open = True, sc_ignored = [], sc_limit = 2 * hour, sc_enabled = True\<rparr> = Some s1 \<and>
     updates [sample_entry 2] s1 = Some s2 \<and> handleStats sample_st_env 0 s2 = Some (Some resp) \<and>
     sr_num_queries resp = 3 \<and> sr_num_filtered resp = 2"
proof -
  let ?es = "[sample_entry 2]" and ?ess = "[[sample_entry 1], [sample_entry 2, sample_entry 1]]"
  have works: "db_works sample_st_env" by (simp add: db_works_def sample_st_env_def)
  have limit: "hours_of (2 * hour) = 2" by (simp add: hours_of_def hour_def)
  have ok: "\<forall>es' \<in> set (?es # ?ess). \<forall>e \<in> set es'. entry_ok e" using sample_entries_ok by simp
  have recent: "concat (take (unat (hours_of (2 * hour))) (?es # rev ?ess)) = [sample_entry 2, sample_entry 2, sample_entry 1]"
    by (simp add: limit take_Cons')
  have two: "hours_of (2 * hour) \<noteq> 0" by (simp add: limit)
  have count: "counted (\<lambda>e. se_result e = int RFiltered) [sample_entry 2, sample_entry 2, sample_entry 1] = 2"
    "of_nat (length [sample_entry 2, sample_entry 2, sample_entry 1]) = (3 :: 64 word)"
    by (simp_all add: RFiltered_def sample_entry_def)
  show ?thesis
    using report_counts_last_hours [OF works ok two refl, of 100 "[]" 0] unfolding Let_def recent count by blast
qed

definition sample_unit :: stats_unit where
  "sample_unit = unit_of [sample_entry 1, sample_entry 2] 7"

theorem unit_roundtrip_witness:
  "gm_get (un_clients (deserialize (Some (serialize sample_unit)) (newUnit 7))) = [''1.2.3.4'' \<mapsto> 2]"
proof -
  have unit: "sample_unit = \<lparr>un_domains = [(''a.test'', 1)], un_blocked = [(''a.test'', 1)], un_clients = [(''1.2.3.4'', 2)],
      un_responses = [], un_time_sums = [], un_result = [0, 1, 1, 0, 0, 0], un_id = 7, un_total = 2, un_time = 10\<rparr>"
    by (simp add: sample_unit_def unit_of_def unit_add_def sample_entry_def newUnit_def resultLast_def RNotFiltered_def
        add_count_def count_of_def Let_def microseconds_def numeral_eq_Suc)
  show ?thesis
    using unit_roundtrip [of sample_unit] by (simp add: unit unit_wf_def gm_wf_def resultLast_def Let_def)
qed

section \<open>Wrong numbers\<close>

lemma sum_groups_length [simp]: "length (sum_groups n g vs) = g"
proof -
  have "length (fold (\<lambda>(i, v) acc. acc[i div n := acc ! (i div n) + v]) xs a) = length a" for xs and a :: "64 word list"
    by (induction xs arbitrary: a) auto
  then show ?thesis by (simp add: sum_groups_def)
qed

lemma sum_groups_nth:
  assumes "d < g"
  shows "sum_groups n g vs ! d = (\<Sum>i \<leftarrow> filter (\<lambda>i. i div n = d) [0..<length vs]. vs ! i)"
proof (induction vs rule: rev_induct)
  case Nil
  with assms show ?case by (simp add: sum_groups_def)
next
  case (snoc v vs)
  have "sum_groups n g (vs @ [v]) = (sum_groups n g vs)[length vs div n := sum_groups n g vs ! (length vs div n) + v]"
    by (simp add: sum_groups_def enumerate_append_eq)
  then have "sum_groups n g (vs @ [v]) ! d = sum_groups n g vs ! d + (if length vs div n = d then v else 0)"
    using assms by (simp add: nth_list_update)
  moreover have "(\<Sum>i \<leftarrow> filter (\<lambda>i. i div n = d) [0..<length vs]. (vs @ [v]) ! i) =
      (\<Sum>i \<leftarrow> filter (\<lambda>i. i div n = d) [0..<length vs]. vs ! i)"
    by (intro arg_cong [where f = sum_list] map_cong) (auto simp: nth_append)
  ultimately show ?case using snoc.IH by simp
qed

text \<open>In a report by days, the current day at its first hour, the one after midnight, is given the requests of
  the last twenty-four hours: the hours of a day are counted as if it began at one o'clock.
\<close>

theorem midnight_day:
  assumes "7 < length units div 24" "unat cur mod 24 = 0"
  shows "last (sr_queries (fillCollectedStats resp units cur)) = (\<Sum>u \<leftarrow> drop (length units - 24) units. ud_total u)"
proof -
  let ?days = "length units div 24"
  define us where "us = map ud_total (drop (length units - ?days * 24) units)"
  have hours: "countHours cur ?days = ?days * 24"
    using assms by (cases ?days) (simp_all add: countHours_def)
  have len: "length us = ?days * 24" by (simp add: us_def)
  have last: "last (sum_groups 24 ?days us) = sum_groups 24 ?days us ! (?days - 1)"
    using assms(1) by (subst last_conv_nth) (auto simp flip: length_0_conv)
  have "filter (\<lambda>i. i div 24 = ?days - 1) [0..<length us] = [(?days - 1) * 24..<length us]"
  proof -
    have "filter (\<lambda>i. i div 24 = ?days - 1) [0..<length us] = filter (\<lambda>i. (?days - 1) * 24 \<le> i) [0..<length us]"
      by (rule filter_cong) (auto simp: len)
    also have "\<dots> = filter (\<lambda>i. (?days - 1) * 24 \<le> i) ([0..<(?days - 1) * 24] @ [(?days - 1) * 24..<length us])"
      using upt_add_eq_append [of 0 "(?days - 1) * 24" 24] assms(1) by (simp add: len algebra_simps)
    also have "\<dots> = [(?days - 1) * 24..<length us]" by (simp add: filter_empty_conv)
    finally show ?thesis .
  qed
  moreover have "map ((!) us) [(?days - 1) * 24..<length us] = drop ((?days - 1) * 24) us"
    by (rule nth_equalityI) auto
  ultimately have "sum_groups 24 ?days us ! (?days - 1) = sum_list (drop ((?days - 1) * 24) us)"
    using assms(1) by (subst sum_groups_nth) simp_all
  moreover have "drop ((?days - 1) * 24) us = map ud_total (drop (length units - 24) units)"
  proof -
    have "(?days - 1) * 24 + (length units - ?days * 24) = length units - 24" using assms(1) by simp
    then show ?thesis by (simp add: us_def drop_map)
  qed
  moreover have "sr_queries (fillCollectedStats resp units cur) = sum_groups 24 ?days us"
    using assms(1) by (simp add: fillCollectedStats_def Let_def hours us_def)
  ultimately show ?thesis using last by simp
qed

definition busy_unit :: stats_udb where
  "busy_unit = \<lparr>ud_result = replicate resultLast 0, ud_domains = [], ud_blocked = [], ud_clients = [], ud_responses = [],
     ud_time_sums = [], ud_total = 2, ud_avg = 500000\<rparr>"

theorem midnight_day_witness:
  "last (sr_queries (fillCollectedStats empty_resp (replicate 192 busy_unit) 240)) = 48"
  using midnight_day [of "replicate 192 busy_unit" 240 empty_resp] by (simp add: sum_list_replicate busy_unit_def)

text \<open>The average time of a report is wrong when the averages of the units add up to more than 32 bits, as those of a
  year with half a second each.
\<close>

theorem average_wraps:
  assumes "ud_avg u = 500000" "length (ud_result u) = resultLast"
  shows "\<exists>resp. dataFromUnits env s (replicate 8760 u) cur = Some resp \<and> sr_avg resp = 9706"
proof -
  have "total_of ud_avg (replicate 8760 u) = 85032704"
    using assms(1) by (simp add: total_of_sum sum_list_replicate)
  moreover have "\<not> list_ex (\<lambda>u. length (ud_result u) \<le> RParental) (replicate 8760 u)"
    using assms(2) by (simp add: list_ex_iff RParental_def resultLast_def)
  ultimately show ?thesis using assms(1) by (simp add: dataFromUnits_def Let_def fill_simps)
qed

theorem average_wraps_witness:
  "\<exists>resp. dataFromUnits sample_st_env
     \<lparr>sc_curr = Some (newUnit 9000), sc_file = [], sc_open = True, sc_ignored = [], sc_limit = 8760 * hour, sc_enabled = True\<rparr>
     (replicate 8760 busy_unit) 9000 = Some resp \<and> sr_avg resp = 9706"
  by (rule average_wraps) (simp_all add: busy_unit_def)

end
