(* ===== verification/Auth.thy ===== *)
theory Auth
  imports Bytes
begin

text \<open>
  Authentication of package \<^verbatim>\<open>internal/home\<close>: the limiter of login attempts
  (\<^verbatim>\<open>authratelimiter.go\<close>), sessions and users (\<^verbatim>\<open>auth.go\<close>), the handlers of logins and logouts and the
  gate in front of every other handler (\<^verbatim>\<open>authhttp.go\<close>), and the tokens of GL.iNet routers
  (\<^verbatim>\<open>authglinet.go\<close>).

  Arguments of the model: the comparison of a password with a hash, whether the operations of the
  session database succeed, and the files with tokens.  Instants are in nanoseconds.
\<close>

section \<open>The limiter of login attempts\<close>

definition failedAuthTTL :: int where
  "failedAuthTTL = 60000000000"

record failed_auth =
  fa_until :: int
  fa_num :: "64 word"

record limiter =
  rl_failed :: "string \<rightharpoonup> failed_auth"
  rl_block :: int
  rl_max :: "64 word"

definition newAuthRateLimiter :: "int \<Rightarrow> 64 word \<Rightarrow> limiter" where
  "newAuthRateLimiter blockDur maxAttempts = \<lparr>rl_failed = Map.empty, rl_block = blockDur, rl_max = maxAttempts\<rparr>"

definition cleanupLocked :: "int \<Rightarrow> limiter \<Rightarrow> limiter" where
  "cleanupLocked now ab =
     ab\<lparr>rl_failed := (\<lambda>k. case rl_failed ab k of None \<Rightarrow> None | Some v \<Rightarrow> if fa_until v < now then None else Some v)\<rparr>"

definition checkLocked :: "string \<Rightarrow> int \<Rightarrow> limiter \<Rightarrow> int" where
  "checkLocked usr now ab =
     (case rl_failed ab usr of
        None \<Rightarrow> 0
      | Some a \<Rightarrow> if fa_num a < rl_max ab then 0 else fa_until a - now)"

definition limiter_check :: "string \<Rightarrow> int \<Rightarrow> limiter \<Rightarrow> int \<times> limiter" where
  "limiter_check usr now ab = (let ab1 = cleanupLocked now ab in (checkLocked usr now ab1, ab1))"

definition limiter_inc :: "string \<Rightarrow> int \<Rightarrow> limiter \<Rightarrow> limiter" where
  "limiter_inc usr now ab =
     (let (til, attNum) = (case rl_failed ab usr of
             None \<Rightarrow> (now + failedAuthTTL, 1)
           | Some a \<Rightarrow> (fa_until a, fa_num a + 1));
          til' = (if rl_max ab \<le> attNum then now + rl_block ab else til)
      in ab\<lparr>rl_failed := (rl_failed ab)(usr \<mapsto> \<lparr>fa_until = til', fa_num = attNum\<rparr>)\<rparr>)"

definition limiter_remove :: "string \<Rightarrow> limiter \<Rightarrow> limiter" where
  "limiter_remove usr ab = ab\<lparr>rl_failed := (rl_failed ab)(usr := None)\<rparr>"

section \<open>Sessions\<close>

record web_session =
  ws_user :: string
  ws_expire :: "32 word"

record web_user =
  wu_name :: string
  wu_hash :: string

definition session_serialize :: "web_session \<Rightarrow> bytes" where
  "session_serialize s =
     octets 4 (uint (ws_expire s)) @ octets 2 (uint (of_nat (length (ws_user s)) :: 16 word)) @ string_bytes (ws_user s)"

text \<open>All that follows the length is taken as the name.\<close>

definition session_deserialize :: "bytes \<Rightarrow> web_session option" where
  "session_deserialize data =
     (if length data < 6 then None
      else
        let nameLen = be_num (take 2 (drop 4 data)); rest = drop 6 data in
        if int (length rest) < nameLen then None
        else Some \<lparr>ws_user = bytes_string rest, ws_expire = word_of_int (be_num (take 4 data))\<rparr>)"

text \<open>The bytes before the first pair of characters that are no hexadecimal digits.\<close>

fun hex_prefix :: "string \<Rightarrow> bytes" where
  "hex_prefix (a # b # cs) = (case hex2 [a, b] of Some n \<Rightarrow> n # hex_prefix cs | None \<Rightarrow> [])"
| "hex_prefix _ = []"

record auth_env =
  ae_begin :: bool
  ae_write :: bool
  ae_commit :: bool
  ae_compare :: "string \<Rightarrow> string \<Rightarrow> bool"
  ae_hash :: "string \<Rightarrow> string option"
  ae_gl_mode :: bool
  ae_gl_file :: "string \<Rightarrow> bytes option option"
  ae_native :: "bytes \<Rightarrow> 32 word option"

text \<open>The bucket of the sessions may be missing; \<open>au_old\<close> is the presence of the bucket of an older version.\<close>

record auth =
  au_sessions :: "string \<rightharpoonup> web_session"
  au_bucket :: "(bytes \<rightharpoonup> bytes) option"
  au_old :: bool
  au_limiter :: "limiter option"
  au_users :: "web_user list"
  au_ttl :: "32 word"

definition unix32 :: "int \<Rightarrow> 32 word" where
  "unix32 now = word_of_int (now div 1000000000)"

definition kept_session :: "32 word \<Rightarrow> bytes \<Rightarrow> web_session option" where
  "kept_session now v =
     (case session_deserialize v of None \<Rightarrow> None | Some s \<Rightarrow> if ws_expire s \<le> now then None else Some s)"

text \<open>
  Loading the sessions: the keys, in hexadecimal digits, of the entries that are read and have not expired.  The other
  entries are deleted.
\<close>

definition loadSessions :: "auth_env \<Rightarrow> int \<Rightarrow> auth \<Rightarrow> auth" where
  "loadSessions env now a =
     (if \<not> ae_begin env then a
      else case au_bucket a of
        None \<Rightarrow> a
      | Some bkt \<Rightarrow>
          (let t = unix32 now;
               kept = (\<lambda>k. case bkt k of None \<Rightarrow> None | Some v \<Rightarrow> kept_session t v);
               bkt' = (\<lambda>k. if kept k = None \<and> ae_write env then None else bkt k);
               removed = au_old a \<or> bkt' \<noteq> bkt
           in a\<lparr>au_sessions := (\<lambda>name. case hex_bytes name of
                     None \<Rightarrow> au_sessions a name
                   | Some k \<Rightarrow> if kept k \<noteq> None \<and> hex_string k = name then kept k else au_sessions a name),
                au_bucket := (if removed \<and> ae_commit env then Some bkt' else Some bkt),
                au_old := (if removed \<and> ae_commit env \<and> ae_write env then False else au_old a)\<rparr>))"

definition InitAuth ::
  "auth_env \<Rightarrow> int \<Rightarrow> web_user list \<Rightarrow> 32 word \<Rightarrow> limiter option \<Rightarrow> (bytes \<rightharpoonup> bytes) option \<Rightarrow> bool \<Rightarrow> auth" where
  "InitAuth env now users ttl lim bucket old =
     loadSessions env now \<lparr>au_sessions = Map.empty, au_bucket = bucket, au_old = old, au_limiter = lim, au_users = users,
       au_ttl = ttl\<rparr>"

definition storeSession :: "auth_env \<Rightarrow> bytes \<Rightarrow> web_session \<Rightarrow> auth \<Rightarrow> bool \<times> auth" where
  "storeSession env data s a =
     (if ae_begin env \<and> ae_write env \<and> ae_commit env
      then (True, a\<lparr>au_bucket := Some ((case au_bucket a of None \<Rightarrow> Map.empty | Some b \<Rightarrow> b)(data \<mapsto> session_serialize s))\<rparr>)
      else (False, a))"

definition addSession :: "auth_env \<Rightarrow> bytes \<Rightarrow> web_session \<Rightarrow> auth \<Rightarrow> auth" where
  "addSession env data s a = snd (storeSession env data s (a\<lparr>au_sessions := (au_sessions a)(hex_string data \<mapsto> s)\<rparr>))"

definition removeSessionFromFile :: "auth_env \<Rightarrow> bytes \<Rightarrow> auth \<Rightarrow> auth" where
  "removeSessionFromFile env key a =
     (case au_bucket a of
        None \<Rightarrow> a
      | Some b \<Rightarrow>
          if ae_begin env \<and> ae_write env \<and> ae_commit env then a\<lparr>au_bucket := Some (b(key := None))\<rparr> else a)"

datatype session_check = SessionOK | SessionNotFound | SessionExpired

definition secs_per_day :: "32 word" where
  "secs_per_day = 86400"

definition checkSession :: "auth_env \<Rightarrow> int \<Rightarrow> string \<Rightarrow> auth \<Rightarrow> session_check \<times> auth" where
  "checkSession env now sess a =
     (case au_sessions a sess of
        None \<Rightarrow> (SessionNotFound, a)
      | Some s \<Rightarrow>
          if ws_expire s \<le> unix32 now then
            (SessionExpired, removeSessionFromFile env (hex_prefix sess) (a\<lparr>au_sessions := (au_sessions a)(sess := None)\<rparr>))
          else
            let newExpire = unix32 now + au_ttl a in
            if ws_expire s div secs_per_day \<noteq> newExpire div secs_per_day then
              let s' = s\<lparr>ws_expire := newExpire\<rparr>
              in (SessionOK, snd (storeSession env (hex_prefix sess) s' (a\<lparr>au_sessions := (au_sessions a)(sess \<mapsto> s')\<rparr>)))
            else (SessionOK, a))"

definition removeSession :: "auth_env \<Rightarrow> string \<Rightarrow> auth \<Rightarrow> auth" where
  "removeSession env sess a =
     removeSessionFromFile env (hex_prefix sess) (a\<lparr>au_sessions := (au_sessions a)(sess := None)\<rparr>)"

section \<open>Users\<close>

definition addUser :: "auth_env \<Rightarrow> string \<Rightarrow> string \<Rightarrow> auth \<Rightarrow> bool \<times> auth" where
  "addUser env name password a =
     (if password = [] then (False, a)
      else case ae_hash env password of
        None \<Rightarrow> (False, a)
      | Some h \<Rightarrow> (True, a\<lparr>au_users := au_users a @ [\<lparr>wu_name = name, wu_hash = h\<rparr>]\<rparr>))"

definition findUser :: "auth_env \<Rightarrow> string \<Rightarrow> string \<Rightarrow> auth \<Rightarrow> web_user option" where
  "findUser env login password a =
     find (\<lambda>u. wu_name u = login \<and> ae_compare env (wu_hash u) password) (au_users a)"

definition authRequired :: "auth_env \<Rightarrow> auth \<Rightarrow> bool" where
  "authRequired env a \<longleftrightarrow> ae_gl_mode env \<or> au_users a \<noteq> []"

record web_req =
  wr_path :: string
  wr_cookie :: "string option"
  wr_gl_cookie :: "string option"
  wr_basic :: "(string \<times> string) option"
  wr_remote :: "string option"
  wr_header :: "string \<Rightarrow> string"

definition getCurrentUser :: "auth_env \<Rightarrow> web_req \<Rightarrow> auth \<Rightarrow> web_user option" where
  "getCurrentUser env r a =
     (case wr_cookie r of
        None \<Rightarrow> (case wr_basic r of None \<Rightarrow> None | Some (user, pass) \<Rightarrow> findUser env user pass a)
      | Some c \<Rightarrow>
          (case au_sessions a c of
             None \<Rightarrow> None
           | Some s \<Rightarrow> find (\<lambda>u. wu_name u = ws_user s) (au_users a)))"

section \<open>Logging in and out\<close>

text \<open>\<open>token\<close> is the random token of the new session.  The result is the value of the cookie.\<close>

definition newCookie :: "auth_env \<Rightarrow> int \<Rightarrow> bytes \<Rightarrow> string \<Rightarrow> string \<Rightarrow> string \<Rightarrow> auth \<Rightarrow> string option \<times> auth" where
  "newCookie env now token name password addr a =
     (case findUser env name password a of
        None \<Rightarrow> (None, a\<lparr>au_limiter := map_option (limiter_inc addr now) (au_limiter a)\<rparr>)
      | Some u \<Rightarrow>
          (Some (hex_string token),
           addSession env token \<lparr>ws_user = wu_name u, ws_expire = unix32 now + au_ttl a\<rparr>
             (a\<lparr>au_limiter := map_option (limiter_remove addr) (au_limiter a)\<rparr>)))"

definition proxy_headers :: "string list" where
  "proxy_headers = [''Cf-Connecting-Ip'', ''True-Client-Ip'', ''X-Real-Ip'']"

definition realIP :: "web_req \<Rightarrow> addr option" where
  "realIP r =
     (case find_some (\<lambda>h. parse_addr (wr_header r h)) proxy_headers of
        Some ip \<Rightarrow> Some ip
      | None \<Rightarrow>
          (case parse_addr (takeWhile (\<lambda>c. c \<noteq> CHR '','') (wr_header r ''X-Forwarded-For'')) of
             Some ip \<Rightarrow> Some ip
           | None \<Rightarrow> Option.bind (wr_remote r) parse_addr))"

datatype login_response = LoginBadRequest | LoginTooMany int | LoginForbidden | LoginOK string

text \<open>\<open>creds\<close> are the name and the password of the body, if it can be decoded.\<close>

definition handleLogin ::
  "auth_env \<Rightarrow> int \<Rightarrow> bytes \<Rightarrow> (string \<times> string) option \<Rightarrow> web_req \<Rightarrow> auth \<Rightarrow> login_response \<times> auth" where
  "handleLogin env now token creds r a =
     (case (creds, wr_remote r) of
        (Some (name, password), Some remoteIP) \<Rightarrow>
          (let (left, a1) = (case au_limiter a of
                 None \<Rightarrow> (0, a)
               | Some ab \<Rightarrow> (case limiter_check remoteIP now ab of (left, ab1) \<Rightarrow> (left, a\<lparr>au_limiter := Some ab1\<rparr>)))
           in if 0 < left then (LoginTooMany left, a1)
              else case newCookie env now token name password remoteIP a1 of
                (None, a2) \<Rightarrow> (LoginForbidden, a2)
              | (Some c, a2) \<Rightarrow> (LoginOK c, a2))
      | _ \<Rightarrow> (LoginBadRequest, a))"

definition handleLogout :: "auth_env \<Rightarrow> web_req \<Rightarrow> auth \<Rightarrow> auth" where
  "handleLogout env r a = (case wr_cookie r of None \<Rightarrow> a | Some c \<Rightarrow> removeSession env c a)"

section \<open>The gate\<close>

definition glTokenDate :: "auth_env \<Rightarrow> string \<Rightarrow> 32 word" where
  "glTokenDate env file =
     (case ae_gl_file env file of
        Some (Some bs) \<Rightarrow> (case ae_native env (take (1024 * 1024) bs) of Some d \<Rightarrow> d | None \<Rightarrow> 0)
      | _ \<Rightarrow> 0)"

definition glCheckToken :: "auth_env \<Rightarrow> int \<Rightarrow> string \<Rightarrow> bool" where
  "glCheckToken env now sess =
     (let file = ''/tmp/gl_token_'' @ sess in
      ae_gl_file env file \<noteq> None \<and> unix32 now \<le> glTokenDate env file + 3600)"

definition glProcessCookie :: "auth_env \<Rightarrow> int \<Rightarrow> web_req \<Rightarrow> bool" where
  "glProcessCookie env now r \<longleftrightarrow>
     ae_gl_mode env \<and> (case wr_gl_cookie r of None \<Rightarrow> False | Some c \<Rightarrow> glCheckToken env now c)"

datatype gate = Served | ToDashboard | ToLogin | ToGLLogin | Forbidden

definition optionalAuthThird :: "auth_env \<Rightarrow> int \<Rightarrow> web_req \<Rightarrow> auth \<Rightarrow> gate option \<times> auth" where
  "optionalAuthThird env now r a =
     (if glProcessCookie env now r then (None, a)
      else
        let (ok, a1) = (case wr_cookie r of
               None \<Rightarrow> (case wr_basic r of None \<Rightarrow> False | Some (user, pass) \<Rightarrow> findUser env user pass a \<noteq> None, a)
             | Some c \<Rightarrow> (case checkSession env now c a of (res, a1) \<Rightarrow> (res = SessionOK, a1)))
        in if ok then (None, a1)
           else (Some (if wr_path r = ''/'' \<or> wr_path r = ''/index.html''
                       then if ae_gl_mode env then ToGLLogin else ToLogin
                       else Forbidden), a1))"

text \<open>A star matches characters other than a slash.\<close>

definition star_match :: "string \<Rightarrow> string \<Rightarrow> bool" where
  "star_match pre p \<longleftrightarrow> has_prefix p pre \<and> CHR ''/'' \<notin> set (drop (length pre) p)"

definition isPublicResource :: "string \<Rightarrow> bool" where
  "isPublicResource p \<longleftrightarrow> star_match ''/assets/'' p \<or> star_match ''/login.'' p"

text \<open>The handler behind the gate runs exactly in the case \<open>Served\<close>.\<close>

definition optionalAuth :: "auth_env \<Rightarrow> int \<Rightarrow> web_req \<Rightarrow> auth option \<Rightarrow> gate \<times> auth option" where
  "optionalAuth env now r auth =
     (let required = (case auth of None \<Rightarrow> False | Some a \<Rightarrow> authRequired env a) in
      if wr_path r = ''/login.html'' then
        (case (wr_cookie r, auth) of
           (Some c, Some a) \<Rightarrow>
             if required then
               (case checkSession env now c a of (res, a1) \<Rightarrow> (if res = SessionOK then ToDashboard else Served, Some a1))
             else (Served, auth)
         | _ \<Rightarrow> (Served, auth))
      else if isPublicResource (wr_path r) then (Served, auth)
      else case auth of
        Some a \<Rightarrow>
          if required then
            (case optionalAuthThird env now r a of
               (None, a1) \<Rightarrow> (Served, Some a1)
             | (Some g, a1) \<Rightarrow> (g, Some a1))
          else (Served, auth)
      | None \<Rightarrow> (Served, auth))"

end
