(* ===== verification/AghUser.thy ===== *)
theory AghUser
  imports Auth
begin

text \<open>
  Package \<^verbatim>\<open>internal/aghuser\<close>: the database of web users (\<^verbatim>\<open>db.go\<close>) and the storage of their sessions
  (\<^verbatim>\<open>sessionstorage.go\<close>), with the authentication middleware of \<^verbatim>\<open>internal/home/authhttp.go\<close> that uses both.

  Arguments of the model: the comparison of a password with a hash, the random tokens, and whether the operations of
  the database of sessions succeed.  Instants are in nanoseconds since the epoch.
\<close>

section \<open>Users\<close>

type_synonym user_id = bytes

definition zero_user_id :: user_id where
  "zero_user_id = replicate 16 0"

record agh_user =
  ag_password :: bytes
  ag_login :: string
  ag_id :: user_id

definition NewLogin :: "string \<Rightarrow> string option" where
  "NewLogin s = (if s = [] then None else Some s)"

record user_db =
  ud_login_id :: "(string, user_id) gomap"
  ud_id_user :: "(user_id, agh_user) gomap"

definition NewDefaultDB :: user_db where
  "NewDefaultDB = \<lparr>ud_login_id = [], ud_id_user = []\<rparr>"

definition db_All :: "user_db \<Rightarrow> agh_user list" where
  "db_All db = sort_cmp (\<lambda>a b. cmp_ord (ag_login a) (ag_login b)) (map snd (ud_id_user db))"

text \<open>The outer option is the panic on a login without a user.\<close>

definition db_ByLogin :: "string \<Rightarrow> user_db \<Rightarrow> agh_user option option" where
  "db_ByLogin login db =
     (case gm_get (ud_login_id db) login of
        None \<Rightarrow> Some None
      | Some i \<Rightarrow> (case gm_get (ud_id_user db) i of None \<Rightarrow> None | Some u \<Rightarrow> Some (Some u)))"

definition db_ByUUID :: "user_id \<Rightarrow> user_db \<Rightarrow> agh_user option" where
  "db_ByUUID i db = gm_get (ud_id_user db) i"

datatype create_error = EmptyUserID | DuplicateUserID | DuplicateLogin

definition db_Create :: "agh_user \<Rightarrow> user_db \<Rightarrow> (create_error, user_db) result" where
  "db_Create u db =
     (if ag_id u = zero_user_id then Inl EmptyUserID
      else if gm_get (ud_id_user db) (ag_id u) \<noteq> None then Inl DuplicateUserID
      else if gm_get (ud_login_id db) (ag_login u) \<noteq> None then Inl DuplicateLogin
      else Inr \<lparr>ud_login_id = gm_put (ag_login u) (ag_id u) (ud_login_id db),
                ud_id_user = gm_put (ag_id u) u (ud_id_user db)\<rparr>)"

section \<open>Sessions\<close>

definition session_token_length :: nat where
  "session_token_length = 16"

record user_session =
  us_expire :: int
  us_login :: string
  us_token :: bytes
  us_user_id :: user_id

definition bboltEncode :: "user_session \<Rightarrow> bytes" where
  "bboltEncode s =
     octets 4 (uint (word_of_int (us_expire s div 1000000000) :: 32 word)) @
     octets 2 (uint (of_nat (length (us_login s)) :: 16 word)) @ string_bytes (us_login s)"

text \<open>Token and user are filled in by the caller.\<close>

definition bboltDecode :: "bytes \<Rightarrow> user_session option" where
  "bboltDecode data =
     (if length data < 6 then None
      else
        let nameLen = be_num (take 2 (drop 4 data)); nameData = drop 6 data in
        if int (length nameData) \<noteq> nameLen then None
        else Some \<lparr>us_expire = be_num (take 4 data) * 1000000000, us_login = bytes_string nameData,
                   us_token = replicate 16 0, us_user_id = zero_user_id\<rparr>)"

text \<open>The bucket may be missing.\<close>

record session_storage =
  ss_sessions :: "(bytes, user_session) gomap"
  ss_bucket :: "(bytes, bytes) gomap option"
  ss_ttl :: int

record storage_env =
  se_begin :: bool
  se_create :: bool
  se_put :: bool
  se_delete :: "bytes \<Rightarrow> bool"
  se_commit :: bool

text \<open>
  One entry of the bucket: the sessions and the keys to be removed so far.  \<^term>\<open>None\<close> is a panic: of the database of
  users, or of the conversion of a key that is shorter than a token.
\<close>

definition bboltSessionHandler ::
  "user_db \<Rightarrow> int \<Rightarrow> bytes \<times> bytes \<Rightarrow> (bytes, user_session) gomap \<times> bytes list \<Rightarrow>
     ((bytes, user_session) gomap \<times> bytes list) option" where
  "bboltSessionHandler db now kv acc =
     (case (kv, acc) of ((k, v), (sessions, invalid)) \<Rightarrow>
       (case bboltDecode v of
          None \<Rightarrow> Some (sessions, invalid @ [k])
        | Some s \<Rightarrow>
            if us_expire s < now then Some (sessions, invalid @ [k])
            else case db_ByLogin (us_login s) db of
              None \<Rightarrow> None
            | Some None \<Rightarrow> Some (sessions, invalid @ [k])
            | Some (Some u) \<Rightarrow>
                if length k < session_token_length then None
                else let t = take session_token_length k
                     in Some (gm_put t (s\<lparr>us_token := t, us_user_id := ag_id u\<rparr>) sessions, invalid)))"

fun session_entries ::
  "user_db \<Rightarrow> int \<Rightarrow> (bytes \<times> bytes) list \<Rightarrow> (bytes, user_session) gomap \<times> bytes list \<Rightarrow>
     ((bytes, user_session) gomap \<times> bytes list) option" where
  "session_entries db now [] acc = Some acc"
| "session_entries db now (kv # kvs) acc = Option.bind (bboltSessionHandler db now kv acc) (session_entries db now kvs)"

text \<open>
  The removal of the invalid entries; \<^term>\<open>None\<close> is an error of a removal.  The result has the bucket as it is within the
  transaction.
\<close>

definition processSessions ::
  "storage_env \<Rightarrow> user_db \<Rightarrow> int \<Rightarrow> (bytes, bytes) gomap \<Rightarrow> (bytes, user_session) gomap \<Rightarrow>
     ((bytes, user_session) gomap \<times> nat \<times> (bytes, bytes) gomap) option option" where
  "processSessions env db now bkt sessions =
     (case session_entries db now bkt (sessions, []) of
        None \<Rightarrow> None
      | Some (ss, invalid) \<Rightarrow>
          Some (if list_all (se_delete env) invalid then Some (ss, length invalid, gm_del_all invalid bkt) else None))"

datatype storage_error = ErrBegin | ErrProcess | ErrCommit | ErrBucket | ErrPut | ErrNoBucket | ErrDelete

definition ss_loadSessions ::
  "storage_env \<Rightarrow> user_db \<Rightarrow> int \<Rightarrow> session_storage \<Rightarrow> (storage_error option \<times> session_storage) option" where
  "ss_loadSessions env db now ds =
     (if \<not> se_begin env then Some (Some ErrBegin, ds)
      else case ss_bucket ds of
        None \<Rightarrow> Some (None, ds)
      | Some bkt \<Rightarrow>
          (case processSessions env db now bkt (ss_sessions ds) of
             None \<Rightarrow> None
           | Some None \<Rightarrow> Some (Some ErrProcess, ds)
           | Some (Some (ss, removed, bkt')) \<Rightarrow>
               Some (if removed = 0 then (None, ds\<lparr>ss_sessions := ss\<rparr>)
                     else if \<not> se_commit env then (Some ErrCommit, ds\<lparr>ss_sessions := ss\<rparr>)
                     else (None, ds\<lparr>ss_sessions := ss, ss_bucket := Some bkt'\<rparr>))))"

text \<open>The arguments are the bucket in the opened file and the time to live.  There is no storage after an error.\<close>

definition NewDefaultSessionStorage ::
  "storage_env \<Rightarrow> user_db \<Rightarrow> int \<Rightarrow> (bytes, bytes) gomap option \<Rightarrow> int \<Rightarrow> (storage_error, session_storage) result option" where
  "NewDefaultSessionStorage env db now bucket ttl =
     (case ss_loadSessions env db now \<lparr>ss_sessions = [], ss_bucket = bucket, ss_ttl = ttl\<rparr> of
        None \<Rightarrow> None
      | Some (Some e, _) \<Rightarrow> Some (Inl e)
      | Some (None, ds) \<Rightarrow> Some (Inr ds))"

definition ss_store :: "storage_env \<Rightarrow> user_session \<Rightarrow> session_storage \<Rightarrow> storage_error option \<times> session_storage" where
  "ss_store env s ds =
     (if \<not> se_begin env then (Some ErrBegin, ds)
      else if \<not> se_create env then (Some ErrBucket, ds)
      else if \<not> se_put env then (Some ErrPut, ds)
      else if \<not> se_commit env then (Some ErrCommit, ds)
      else (None, ds\<lparr>ss_bucket := Some (gm_put (us_token s) (bboltEncode s)
                                          (case ss_bucket ds of None \<Rightarrow> [] | Some b \<Rightarrow> b))\<rparr>))"

text \<open>\<open>t\<close> is the random token.\<close>

definition ss_New ::
  "storage_env \<Rightarrow> int \<Rightarrow> bytes \<Rightarrow> agh_user \<Rightarrow> session_storage \<Rightarrow> (storage_error, user_session) result \<times> session_storage" where
  "ss_New env now t u ds =
     (let s = \<lparr>us_expire = now + ss_ttl ds, us_login = ag_login u, us_token = t, us_user_id = ag_id u\<rparr> in
      case ss_store env s ds of
        (Some e, ds1) \<Rightarrow> (Inl e, ds1)
      | (None, ds1) \<Rightarrow> (Inr s, ds1\<lparr>ss_sessions := gm_put t s (ss_sessions ds1)\<rparr>))"

definition ss_remove :: "storage_env \<Rightarrow> bytes \<Rightarrow> session_storage \<Rightarrow> storage_error option \<times> session_storage" where
  "ss_remove env t ds =
     (if \<not> se_begin env then (Some ErrBegin, ds)
      else case ss_bucket ds of
        None \<Rightarrow> (Some ErrNoBucket, ds)
      | Some b \<Rightarrow>
          if \<not> se_delete env t then (Some ErrDelete, ds)
          else if \<not> se_commit env then (Some ErrCommit, ds)
          else (None, ds\<lparr>ss_bucket := Some (gm_del t b)\<rparr>))"

definition DeleteByToken :: "storage_env \<Rightarrow> bytes \<Rightarrow> session_storage \<Rightarrow> storage_error option \<times> session_storage" where
  "DeleteByToken env t ds =
     (case ss_remove env t ds of
        (Some e, ds1) \<Rightarrow> (Some e, ds1)
      | (None, ds1) \<Rightarrow> (None, ds1\<lparr>ss_sessions := gm_del t (ss_sessions ds1)\<rparr>))"

definition FindByToken ::
  "storage_env \<Rightarrow> int \<Rightarrow> bytes \<Rightarrow> session_storage \<Rightarrow> (storage_error, user_session option) result \<times> session_storage" where
  "FindByToken env now t ds =
     (case gm_get (ss_sessions ds) t of
        None \<Rightarrow> (Inr None, ds)
      | Some s \<Rightarrow>
          if us_expire s < now then
            (case DeleteByToken env t ds of
               (Some e, ds1) \<Rightarrow> (Inl e, ds1)
             | (None, ds1) \<Rightarrow> (Inr None, ds1))
          else (Inr (Some s), ds))"

section \<open>The middleware\<close>

datatype mw_error = CookieDecoding | TokenLength | SessionSearch storage_error | NoCredentials | InvalidLogin

definition needsAuthentication :: "user_db \<Rightarrow> bool" where
  "needsAuthentication db \<longleftrightarrow> db_All db \<noteq> []"

definition userFromRequestBasicAuth ::
  "(bytes \<Rightarrow> string \<Rightarrow> bool) \<Rightarrow> user_db \<Rightarrow> web_req \<Rightarrow> (mw_error, agh_user option) result option" where
  "userFromRequestBasicAuth compare db r =
     (case wr_basic r of
        None \<Rightarrow> Some (Inl NoCredentials)
      | Some (login, pass) \<Rightarrow>
          (case db_ByLogin login db of
             None \<Rightarrow> None
           | Some None \<Rightarrow> Some (Inl InvalidLogin)
           | Some (Some u) \<Rightarrow> Some (if compare (ag_password u) pass then Inr (Some u) else Inl InvalidLogin)))"

definition userFromRequest ::
  "storage_env \<Rightarrow> (bytes \<Rightarrow> string \<Rightarrow> bool) \<Rightarrow> user_db \<Rightarrow> int \<Rightarrow> web_req \<Rightarrow> session_storage \<Rightarrow>
     ((mw_error, agh_user option) result \<times> session_storage) option" where
  "userFromRequest env compare db now r ds =
     (case wr_cookie r of
        None \<Rightarrow> map_option (\<lambda>res. (res, ds)) (userFromRequestBasicAuth compare db r)
      | Some c \<Rightarrow>
          (case hex_bytes c of
             None \<Rightarrow> Some (Inl CookieDecoding, ds)
           | Some t \<Rightarrow>
               if length t \<noteq> session_token_length then Some (Inl TokenLength, ds)
               else case FindByToken env now t ds of
                 (Inl e, ds1) \<Rightarrow> Some (Inl (SessionSearch e), ds1)
               | (Inr None, ds1) \<Rightarrow> Some (Inr None, ds1)
               | (Inr (Some s), ds1) \<Rightarrow> map_option (\<lambda>u. (Inr u, ds1)) (db_ByLogin (us_login s) db)))"

text \<open>What the wrapped handler gets: it runs with the user, if one is needed, or the request is unauthorized.\<close>

datatype mw_response = Handled "agh_user option" | Unauthorized

definition mw_Wrap ::
  "storage_env \<Rightarrow> (bytes \<Rightarrow> string \<Rightarrow> bool) \<Rightarrow> user_db \<Rightarrow> int \<Rightarrow> web_req \<Rightarrow> session_storage \<Rightarrow>
     (mw_response \<times> session_storage) option" where
  "mw_Wrap env compare db now r ds =
     (if \<not> needsAuthentication db then Some (Handled None, ds)
      else case userFromRequest env compare db now r ds of
        None \<Rightarrow> None
      | Some (Inr (Some u), ds1) \<Rightarrow> Some (Handled (Some u), ds1)
      | Some (_, ds1) \<Rightarrow> Some (Unauthorized, ds1))"

end
