(* ===== verification/AuthProps.thy ===== *)
theory AuthProps
  imports Auth
begin

text \<open>
  The guarantees of the authentication: what passes the gate, how long an address is locked out after failed
  logins, where sessions come from and that they end with a logout.
\<close>

section \<open>The gate\<close>

text \<open>What a request has to show: a token of the router, a live session, or, without a cookie, a name and a password.\<close>

definition authenticated :: "auth_env \<Rightarrow> int \<Rightarrow> web_req \<Rightarrow> auth \<Rightarrow> bool" where
  "authenticated env now r a \<longleftrightarrow>
     glProcessCookie env now r \<or>
     (\<exists>c s. wr_cookie r = Some c \<and> au_sessions a c = Some s \<and> unix32 now < ws_expire s) \<or>
     (\<exists>user pass u. wr_cookie r = None \<and> wr_basic r = Some (user, pass) \<and> u \<in> set (au_users a) \<and> wu_name u = user \<and>
        ae_compare env (wu_hash u) pass)"

lemma checkSession_ok:
  "fst (checkSession env now c a) = SessionOK \<longleftrightarrow> (\<exists>s. au_sessions a c = Some s \<and> unix32 now < ws_expire s)"
  by (auto simp: checkSession_def Let_def not_le split: option.splits)

lemma findUser_iff:
  "findUser env name pass a \<noteq> None \<longleftrightarrow> (\<exists>u \<in> set (au_users a). wu_name u = name \<and> ae_compare env (wu_hash u) pass)"
  by (auto simp: findUser_def find_None_iff2 [symmetric] find_None_iff)


definition sample_auth_env :: auth_env where
  "sample_auth_env = \<lparr>ae_begin = True, ae_write = True, ae_commit = True, ae_compare = (\<lambda>h p. h = p), ae_hash = Some,
     ae_gl_mode = False, ae_gl_file = (\<lambda>_. None), ae_native = (\<lambda>_. None)\<rparr>"

definition sample_auth :: auth where
  "sample_auth = \<lparr>au_sessions = [''0a'' \<mapsto> \<lparr>ws_user = ''admin'', ws_expire = 5000\<rparr>], au_bucket = None, au_old = False,
     au_limiter = Some (newAuthRateLimiter 900000000000 2), au_users = [\<lparr>wu_name = ''admin'', wu_hash = ''pw''\<rparr>], au_ttl = 3600\<rparr>"

definition sample_web_req :: "string option \<Rightarrow> web_req" where
  "sample_web_req cookie = \<lparr>wr_path = ''/control/status'', wr_cookie = cookie, wr_gl_cookie = None, wr_basic = None,
     wr_remote = Some ''1.2.3.4'', wr_header = (\<lambda>_. [])\<rparr>"

lemma sample_path: "\<not> isPublicResource ''/control/status''"
  by (simp add: isPublicResource_def star_match_def has_prefix_def)


section \<open>Locking out an address\<close>

record attempt =
  at_time :: int
  at_token :: bytes
  at_name :: string
  at_password :: string
  at_req :: web_req

definition login :: "auth_env \<Rightarrow> attempt \<Rightarrow> auth \<Rightarrow> login_response \<times> auth" where
  "login env t a = handleLogin env (at_time t) (at_token t) (Some (at_name t, at_password t)) (at_req t) a"

definition logins :: "auth_env \<Rightarrow> attempt list \<Rightarrow> auth \<Rightarrow> auth" where
  "logins env ts a = fold (\<lambda>t a. snd (login env t a)) ts a"

text \<open>The entry of an address with the limiter of a state.\<close>

definition failed_of :: "string \<Rightarrow> auth \<Rightarrow> failed_auth option" where
  "failed_of ip a = Option.bind (au_limiter a) (\<lambda>ab. rl_failed ab ip)"

definition limits :: "auth \<Rightarrow> (int \<times> 64 word) option" where
  "limits a = map_option (\<lambda>ab. (rl_block ab, rl_max ab)) (au_limiter a)"

lemma store_keeps [simp]:
  "au_limiter (snd (storeSession env d s a)) = au_limiter a" "au_users (snd (storeSession env d s a)) = au_users a"
  "au_limiter (addSession env d s a) = au_limiter a" "au_users (addSession env d s a) = au_users a"
  by (simp_all add: storeSession_def addSession_def)

lemma login_limits: "limits (snd (login env t a)) = limits a" "au_users (snd (login env t a)) = au_users a"
  by (auto simp: login_def handleLogin_def newCookie_def limits_def limiter_check_def cleanupLocked_def limiter_inc_def
      limiter_remove_def Let_def split: option.splits prod.splits if_splits)

text \<open>The entry of an address after an attempt: that of other addresses, a refused one, a failed one.\<close>

definition fresh_entry :: "int \<Rightarrow> string \<Rightarrow> auth \<Rightarrow> failed_auth option" where
  "fresh_entry now ip a = (case failed_of ip a of None \<Rightarrow> None | Some v \<Rightarrow> if fa_until v < now then None else Some v)"

lemma login_other:
  assumes "wr_remote (at_req t) \<noteq> Some ip"
  shows "failed_of ip (snd (login env t a)) \<in> {failed_of ip a, fresh_entry (at_time t) ip a}"
  using assms
  by (auto simp: login_def handleLogin_def newCookie_def failed_of_def fresh_entry_def limiter_check_def cleanupLocked_def
      limiter_inc_def limiter_remove_def Let_def split: option.splits prod.splits if_splits)

definition locked :: "int \<Rightarrow> string \<Rightarrow> auth \<Rightarrow> bool" where
  "locked now ip a \<longleftrightarrow>
     (case (fresh_entry now ip a, limits a) of (Some v, Some (_, n)) \<Rightarrow> n \<le> fa_num v \<and> now < fa_until v | _ \<Rightarrow> False)"

lemma login_locked:
  assumes "wr_remote (at_req t) = Some ip" "locked (at_time t) ip a"
  shows "\<exists>left. fst (login env t a) = LoginTooMany left" "failed_of ip (snd (login env t a)) = failed_of ip a"
  using assms
  by (auto simp: login_def handleLogin_def locked_def limits_def failed_of_def fresh_entry_def limiter_check_def
      cleanupLocked_def checkLocked_def Let_def split: option.splits prod.splits if_splits)

lemma login_failed:
  assumes "wr_remote (at_req t) = Some ip" "\<not> locked (at_time t) ip a" "limits a = Some (block, n)"
    and "findUser env (at_name t) (at_password t) a = None"
  shows "fst (login env t a) = LoginForbidden"
    "failed_of ip (snd (login env t a)) =
     (let (til, num) = (case fresh_entry (at_time t) ip a of
            None \<Rightarrow> (at_time t + failedAuthTTL, 1) | Some v \<Rightarrow> (fa_until v, fa_num v + 1))
      in Some \<lparr>fa_until = (if n \<le> num then at_time t + block else til), fa_num = num\<rparr>)"
proof -
  obtain ab where ab: "au_limiter a = Some ab" "rl_block ab = block" "rl_max ab = n"
    using assms(3) by (auto simp: limits_def)
  define ab1 where "ab1 = cleanupLocked (at_time t) ab"
  have ab1: "rl_block ab1 = block" "rl_max ab1 = n" using ab by (simp_all add: ab1_def cleanupLocked_def)
  have fresh: "rl_failed ab1 ip = fresh_entry (at_time t) ip a"
    by (simp add: ab1_def cleanupLocked_def fresh_entry_def failed_of_def ab(1))
  have "checkLocked ip (at_time t) ab1 \<le> 0"
    using assms(2) ab fresh
    by (auto simp: checkLocked_def locked_def limits_def ab1_def cleanupLocked_def not_less split: option.splits)
  then have "login env t a = (LoginForbidden, a\<lparr>au_limiter := Some (limiter_inc ip (at_time t) ab1)\<rparr>)"
    using assms(1,4) ab(1)
    by (simp add: login_def handleLogin_def limiter_check_def newCookie_def findUser_def ab1_def Let_def)
  then show "fst (login env t a) = LoginForbidden"
    "failed_of ip (snd (login env t a)) =
     (let (til, num) = (case fresh_entry (at_time t) ip a of
            None \<Rightarrow> (at_time t + failedAuthTTL, 1) | Some v \<Rightarrow> (fa_until v, fa_num v + 1))
      in Some \<lparr>fa_until = (if n \<le> num then at_time t + block else til), fa_num = num\<rparr>)"
    using ab1 by (simp_all add: failed_of_def limiter_inc_def fresh split_beta Let_def)
qed

text \<open>
  A run of attempts in a period in which no failure is forgotten.  While the attempts of the address fail, its entry
  counts them; \<open>prev\<close> is the time of the last one.
\<close>

definition counting :: "int \<Rightarrow> 64 word \<Rightarrow> int \<Rightarrow> nat \<Rightarrow> int \<Rightarrow> failed_auth option \<Rightarrow> bool" where
  "counting block n start k prev e \<longleftrightarrow>
     (if k = 0 then e = None
      else \<exists>v. e = Some v \<and> fa_num v = of_nat k \<and>
        (if k < unat n then start + failedAuthTTL \<le> fa_until v else fa_until v = prev + block))"

definition invalid :: "auth_env \<Rightarrow> web_user list \<Rightarrow> attempt \<Rightarrow> bool" where
  "invalid env users t \<longleftrightarrow> find (\<lambda>u. wu_name u = at_name t \<and> ae_compare env (wu_hash u) (at_password t)) users = None"

lemma login_counting:
  assumes "limits a = Some (block, n)" "counting block n start k prev (failed_of ip a)" "k < unat n"
    and "start \<le> at_time t" "at_time t \<le> start + failedAuthTTL"
    and "wr_remote (at_req t) = Some ip \<Longrightarrow> invalid env (au_users a) t"
  shows "counting block n start (if wr_remote (at_req t) = Some ip then k + 1 else k)
    (if wr_remote (at_req t) = Some ip then at_time t else prev) (failed_of ip (snd (login env t a)))"
proof -
  have fresh: "fresh_entry (at_time t) ip a = failed_of ip a"
    using assms(2,3,5) by (auto simp: fresh_entry_def counting_def split: option.splits if_splits)
  have max: "2 ^ 64 > unat n" using unsigned_less [where ?'a = nat, of n] by simp
  have num: "of_nat k < n" "n \<le> of_nat (k + 1) \<longleftrightarrow> \<not> k + 1 < unat n"
  proof -
    have k: "unat (of_nat k :: 64 word) = k" "unat (of_nat (k + 1) :: 64 word) = k + 1"
      unfolding unat_of_nat using assms(3) max by simp_all
    show "of_nat k < n" using k(1) assms(3) by (simp add: word_less_nat_alt)
    show "n \<le> of_nat (k + 1) \<longleftrightarrow> \<not> k + 1 < unat n" unfolding word_le_nat_alt k(2) by auto
  qed
  show ?thesis
  proof (cases "wr_remote (at_req t) = Some ip")
    case False
    with login_other [OF this, of env a] fresh assms(2) show ?thesis by auto
  next
    case True
    have "\<not> locked (at_time t) ip a"
      using assms(1-3) num(1) unfolding locked_def fresh by (auto simp: counting_def split: option.splits if_splits)
    from login_failed(2) [OF True this assms(1)] assms(6) [OF True] have after: "failed_of ip (snd (login env t a)) =
        (let (til, num) = (case failed_of ip a of
            None \<Rightarrow> (at_time t + failedAuthTTL, 1) | Some v \<Rightarrow> (fa_until v, fa_num v + 1))
         in Some \<lparr>fa_until = (if n \<le> num then at_time t + block else til), fa_num = num\<rparr>)"
      unfolding fresh by (simp add: invalid_def findUser_def)
    show ?thesis
    proof (cases "failed_of ip a")
      case None
      with assms(2) have "k = 0" by (auto simp: counting_def split: if_splits)
      with None True num(2) assms(4) show ?thesis unfolding after by (auto simp: counting_def)
    next
      case (Some v)
      then have "fa_num v = of_nat k" "start + failedAuthTTL \<le> fa_until v"
        using assms(2,3) by (auto simp: counting_def split: if_splits)
      with Some True num(2) show ?thesis unfolding after by (auto simp: counting_def add.commute)
    qed
  qed
qed

abbreviation from_ip :: "string \<Rightarrow> attempt \<Rightarrow> bool" where
  "from_ip ip t \<equiv> wr_remote (at_req t) = Some ip"

lemma logins_simps [simp]:
  "logins env [] a = a" "logins env (t # ts) a = logins env ts (snd (login env t a))"
  "logins env (ts @ us) a = logins env us (logins env ts a)"
  by (simp_all add: logins_def)

lemma logins_limits: "limits (logins env ts a) = limits a" "au_users (logins env ts a) = au_users a"
  by (induction ts arbitrary: a) (simp_all add: login_limits)

lemma logins_counting:
  assumes "limits a = Some (block, n)" "counting block n start k prev (failed_of ip a)"
    "k + length (filter (from_ip ip) ts) < unat n"
    and "\<forall>t \<in> set ts. start \<le> at_time t \<and> at_time t \<le> start + failedAuthTTL \<and> (from_ip ip t \<longrightarrow> invalid env (au_users a) t)"
  shows "\<exists>prev'. counting block n start (k + length (filter (from_ip ip) ts)) prev' (failed_of ip (logins env ts a))"
  using assms
proof (induction ts arbitrary: a k prev)
  case (Cons t ts)
  have "k < unat n" using Cons.prems(3) by simp
  from login_counting [OF Cons.prems(1,2) this, of t env] Cons.prems(4) have
    "counting block n start (if from_ip ip t then k + 1 else k) (if from_ip ip t then at_time t else prev)
      (failed_of ip (snd (login env t a)))" by simp
  from Cons.IH [OF _ this] Cons.prems show ?case
    by (cases "from_ip ip t") (simp_all add: login_limits)
qed auto

lemma logins_locked:
  assumes "limits a = Some (block, n)" "failed_of ip a = Some v" "n \<le> fa_num v" "\<forall>u \<in> set us. at_time u < fa_until v"
  shows "failed_of ip (logins env us a) = Some v"
  using assms
proof (induction us arbitrary: a)
  case (Cons u us)
  have "failed_of ip (snd (login env u a)) = Some v"
  proof (cases "from_ip ip u")
    case True
    have "locked (at_time u) ip a" using Cons.prems by (auto simp: locked_def fresh_entry_def)
    with login_locked(2) [OF True this, of env] Cons.prems(2) show ?thesis by simp
  next
    case False
    with login_other [OF this, of env a] Cons.prems(2,4) show ?thesis by (auto simp: fresh_entry_def)
  qed
  with Cons show ?case by (simp add: login_limits)
qed simp


definition sample_attempt :: "int \<Rightarrow> string \<Rightarrow> attempt" where
  "sample_attempt t pw = \<lparr>at_time = t, at_token = [1], at_name = ''admin'', at_password = pw, at_req = sample_web_req None\<rparr>"


section \<open>Sessions and their database\<close>

lemma session_roundtrip [simp]: "session_deserialize (session_serialize s) = Some s"
proof -
  let ?n = "of_nat (length (ws_user s)) :: 16 word"
  have "uint ?n \<le> int (length (ws_user s))"
    by (simp add: unsigned_of_nat take_bit_eq_mod flip: of_nat_mod)
  then show ?thesis
    by (simp add: session_deserialize_def session_serialize_def Let_def be_num_octets_word string_bytes_def)
      (simp flip: string_bytes_def)
qed

lemma hex_prefix_string: "\<forall>b \<in> set k. b < 256 \<Longrightarrow> hex_prefix (hex_string k) = k"
  by (induction k) (simp_all add: hex_string_Cons hex2_digits, simp add: hex_string_def)

lemma hex_string_inj: "\<forall>b \<in> set k. b < 256 \<Longrightarrow> \<forall>b \<in> set k'. b < 256 \<Longrightarrow> hex_string k = hex_string k' \<Longrightarrow> k = k'"
  by (metis hex_prefix_string)

definition bucket_of :: "auth \<Rightarrow> bytes \<rightharpoonup> bytes" where
  "bucket_of a = (case au_bucket a of None \<Rightarrow> Map.empty | Some b \<Rightarrow> b)"

text \<open>The sessions in memory are those of the database, under the names of their keys.\<close>

definition in_sync :: "auth \<Rightarrow> bool" where
  "in_sync a \<longleftrightarrow> (\<forall>k \<in> dom (bucket_of a). \<forall>b \<in> set k. b < 256) \<and>
     (\<forall>k v. bucket_of a k = Some v \<longrightarrow> (\<exists>s. session_deserialize v = Some s \<and> au_sessions a (hex_string k) = Some s)) \<and>
     (\<forall>name s. au_sessions a name = Some s \<longrightarrow>
       (\<exists>k. hex_string k = name \<and> (\<forall>b \<in> set k. b < 256) \<and> bucket_of a k = Some (session_serialize s)))"

lemma in_syncD:
  assumes "in_sync a"
  shows "bucket_of a k = Some v \<Longrightarrow> b \<in> set k \<Longrightarrow> b < 256"
    "bucket_of a k = Some v \<Longrightarrow> \<exists>s. session_deserialize v = Some s \<and> au_sessions a (hex_string k) = Some s"
    "au_sessions a name = Some s \<Longrightarrow> \<exists>k. hex_string k = name \<and> (\<forall>b \<in> set k. b < 256) \<and> bucket_of a k = Some (session_serialize s)"
  using assms unfolding in_sync_def by blast+

definition db_ok :: "auth_env \<Rightarrow> bool" where
  "db_ok env \<longleftrightarrow> ae_begin env \<and> ae_write env \<and> ae_commit env"

lemma in_sync_store:
  assumes "in_sync a" "db_ok env" "\<forall>b \<in> set k. b < 256"
  shows "in_sync (addSession env k s a)"
proof -
  have eqs: "bucket_of (addSession env k s a) = (bucket_of a)(k \<mapsto> session_serialize s)"
    "au_sessions (addSession env k s a) = (au_sessions a)(hex_string k \<mapsto> s)"
    using assms(2) by (auto simp: addSession_def storeSession_def db_ok_def bucket_of_def split: option.splits)
  note sync = in_syncD [OF assms(1)]
  show ?thesis
    unfolding in_sync_def eqs
  proof (intro conjI allI ballI impI)
    fix k' b
    assume "k' \<in> dom ((bucket_of a)(k \<mapsto> session_serialize s))" "b \<in> set k'"
    then show "b < 256" using sync(1) assms(3) by (auto split: if_splits)
  next
    fix k' v
    assume v: "((bucket_of a)(k \<mapsto> session_serialize s)) k' = Some v"
    show "\<exists>s'. session_deserialize v = Some s' \<and> ((au_sessions a)(hex_string k \<mapsto> s)) (hex_string k') = Some s'"
    proof (cases "k' = k")
      case False
      then have "hex_string k' \<noteq> hex_string k" using v sync(1) assms(3) hex_string_inj [of k' k] by auto
      with False v sync(2) show ?thesis by simp
    qed (use v in auto)
  next
    fix name s'
    assume n: "((au_sessions a)(hex_string k \<mapsto> s)) name = Some s'"
    show "\<exists>k'. hex_string k' = name \<and> (\<forall>b \<in> set k'. b < 256) \<and> ((bucket_of a)(k \<mapsto> session_serialize s)) k' = Some (session_serialize s')"
    proof (cases "name = hex_string k")
      case True
      with n assms(3) show ?thesis by auto
    next
      case False
      with n sync(3) [of name s'] show ?thesis by auto
    qed
  qed
qed

lemma in_sync_remove:
  assumes "in_sync a" "db_ok env" "\<forall>b \<in> set k. b < 256"
  shows "in_sync (removeSession env (hex_string k) a)"
    "bucket_of (removeSession env (hex_string k) a) = (bucket_of a)(k := None)"
    "au_sessions (removeSession env (hex_string k) a) = (au_sessions a)(hex_string k := None)"
proof -
  show eqs: "bucket_of (removeSession env (hex_string k) a) = (bucket_of a)(k := None)"
    "au_sessions (removeSession env (hex_string k) a) = (au_sessions a)(hex_string k := None)"
    using assms(2) hex_prefix_string [OF assms(3)]
    by (auto simp: removeSession_def removeSessionFromFile_def db_ok_def bucket_of_def split: option.splits)
  note sync = in_syncD [OF assms(1)]
  show "in_sync (removeSession env (hex_string k) a)"
    unfolding in_sync_def eqs
  proof (intro conjI allI ballI impI)
    fix k' b
    assume "k' \<in> dom ((bucket_of a)(k := None))" "b \<in> set k'"
    then show "b < 256" using sync(1) by (auto split: if_splits)
  next
    fix k' v
    assume v: "((bucket_of a)(k := None)) k' = Some v"
    then have "k' \<noteq> k" "bucket_of a k' = Some v" by (auto split: if_splits)
    moreover from this have "hex_string k' \<noteq> hex_string k" using sync(1) assms(3) hex_string_inj [of k' k] by auto
    ultimately show "\<exists>s'. session_deserialize v = Some s' \<and> ((au_sessions a)(hex_string k := None)) (hex_string k') = Some s'"
      using sync(2) by simp
  next
    fix name s'
    assume n: "((au_sessions a)(hex_string k := None)) name = Some s'"
    then have "name \<noteq> hex_string k" "au_sessions a name = Some s'" by (auto split: if_splits)
    with sync(3) [of name s'] show "\<exists>k'. hex_string k' = name \<and> (\<forall>b \<in> set k'. b < 256) \<and> ((bucket_of a)(k := None)) k' = Some (session_serialize s')"
      by auto
  qed
qed

text \<open>
  Histories of the authentication with a database that works: users are added, people log in, out and use their sessions,
  and the program is restarted, perhaps with other users.
\<close>

inductive auth_reachable :: "auth_env \<Rightarrow> auth \<Rightarrow> bool" for env where
  start: "auth_reachable env (InitAuth env now users ttl lim None False)"
| add_user: "auth_reachable env a \<Longrightarrow> auth_reachable env (snd (addUser env name password a))"
| log_in: "auth_reachable env a \<Longrightarrow> \<forall>b \<in> set token. b < 256 \<Longrightarrow>
    auth_reachable env (snd (handleLogin env now token creds r a))"
| gate: "auth_reachable env a \<Longrightarrow> optionalAuth env now r (Some a) = (g, Some a') \<Longrightarrow> auth_reachable env a'"
| log_out: "auth_reachable env a \<Longrightarrow> wr_cookie r = Some (hex_string k) \<Longrightarrow> \<forall>b \<in> set k. b < 256 \<Longrightarrow>
    auth_reachable env (handleLogout env r a)"
| restart: "auth_reachable env a \<Longrightarrow> au_bucket a = bucket \<Longrightarrow>
    auth_reachable env (InitAuth env now users ttl lim bucket old)"

lemma in_sync_cong:
  "in_sync a \<Longrightarrow> au_sessions a' = au_sessions a \<Longrightarrow> au_bucket a' = au_bucket a \<Longrightarrow> in_sync a'"
  by (simp add: in_sync_def bucket_of_def)

text \<open>A restart keeps what has not expired.\<close>

lemma hex_bytes_of_string: "\<forall>b \<in> set k. b < 256 \<Longrightarrow> hex_bytes (hex_string k) = Some k"
  by (rule hex_bytes_string) 

definition live_sessions :: "int \<Rightarrow> auth \<Rightarrow> string \<rightharpoonup> web_session" where
  "live_sessions now a name =
     (case au_sessions a name of Some s \<Rightarrow> if unix32 now < ws_expire s then Some s else None | None \<Rightarrow> None)"

lemma InitAuth_sessions:
  assumes "in_sync a" "db_ok env" "au_bucket a = bucket"
  shows "au_sessions (InitAuth env now users ttl lim bucket old) = live_sessions now a"
    "bucket_of (InitAuth env now users ttl lim bucket old) k =
       (case bucket_of a k of Some v \<Rightarrow> if kept_session (unix32 now) v = None then None else Some v | None \<Rightarrow> None)"
proof -
  note sync = in_syncD [OF assms(1)]
  let ?t = "unix32 now"
  have ok: "ae_begin env" "ae_write env" "ae_commit env" using assms(2) by (auto simp: db_ok_def)
  show "bucket_of (InitAuth env now users ttl lim bucket old) k =
       (case bucket_of a k of Some v \<Rightarrow> if kept_session ?t v = None then None else Some v | None \<Rightarrow> None)"
    using ok assms(3)
    by (auto simp: InitAuth_def loadSessions_def bucket_of_def Let_def split: option.splits dest!: fun_cong [where x = k])
  show "au_sessions (InitAuth env now users ttl lim bucket old) = live_sessions now a"
  proof
    fix name
    have loaded: "au_sessions (InitAuth env now users ttl lim bucket old) name =
        (case hex_bytes name of
           None \<Rightarrow> None
         | Some k \<Rightarrow> if hex_string k = name then Option.bind (bucket_of a k) (kept_session ?t) else None)"
      using ok assms(3)
      by (auto simp: InitAuth_def loadSessions_def bucket_of_def Let_def Option.bind_def split: option.splits)
    show "au_sessions (InitAuth env now users ttl lim bucket old) name = live_sessions now a name"
    proof (cases "au_sessions a name")
      case None
      have "Option.bind (bucket_of a k) (kept_session ?t) = None" if "hex_string k = name" for k
        using that None sync(2) [of k] by (cases "bucket_of a k") auto
      with None loaded show ?thesis by (simp add: live_sessions_def split: option.splits)
    next
      case (Some s)
      from sync(3) [OF this] obtain k where k: "hex_string k = name" "\<forall>b \<in> set k. b < 256"
        "bucket_of a k = Some (session_serialize s)" by blast
      with Some loaded hex_bytes_of_string [OF k(2)] show ?thesis
        by (auto simp: live_sessions_def kept_session_def not_le)
    qed
  qed
qed

lemma in_sync_restart:
  assumes "in_sync a" "db_ok env" "au_bucket a = bucket"
  shows "in_sync (InitAuth env now users ttl lim bucket old)"
proof -
  note sync = in_syncD [OF assms(1)]
  note eqs = InitAuth_sessions [OF assms(1-3), of now users ttl lim old]
  show ?thesis
    unfolding in_sync_def eqs(1)
  proof (intro conjI allI ballI impI)
    fix k b
    assume "k \<in> dom (bucket_of (InitAuth env now users ttl lim bucket old))" "b \<in> set k"
    then show "b < 256" using sync(1) by (auto simp: eqs(2) split: option.splits)
  next
    fix k v
    assume "bucket_of (InitAuth env now users ttl lim bucket old) k = Some v"
    then have v: "bucket_of a k = Some v" "kept_session (unix32 now) v \<noteq> None"
      by (auto simp: eqs(2) split: option.splits if_splits)
    from sync(2) [OF v(1)] v(2) show "\<exists>s. session_deserialize v = Some s \<and> live_sessions now a (hex_string k) = Some s"
      by (auto simp: kept_session_def live_sessions_def not_le split: if_splits)
  next
    fix name s
    assume "live_sessions now a name = Some s"
    then have s: "au_sessions a name = Some s" "unix32 now < ws_expire s"
      by (auto simp: live_sessions_def split: option.splits if_splits)
    from sync(3) [OF s(1)] obtain k where "hex_string k = name" "\<forall>b \<in> set k. b < 256"
      "bucket_of a k = Some (session_serialize s)" by blast
    with s(2) show "\<exists>k. hex_string k = name \<and> (\<forall>b \<in> set k. b < 256) \<and>
        bucket_of (InitAuth env now users ttl lim bucket old) k = Some (session_serialize s)"
      by (intro exI [of _ k]) (simp add: eqs(2) kept_session_def not_le)
  qed
qed

lemma in_sync_check:
  assumes "in_sync a" "db_ok env"
  shows "in_sync (snd (checkSession env now c a))"
proof (cases "au_sessions a c")
  case (Some s)
  from in_syncD(3) [OF assms(1) Some] obtain k where k: "c = hex_string k" "\<forall>b \<in> set k. b < 256" by blast
  have "removeSessionFromFile env (hex_prefix c) (a\<lparr>au_sessions := (au_sessions a)(c := None)\<rparr>) = removeSession env (hex_string k) a"
    by (simp add: removeSession_def k(1))
  moreover have "snd (storeSession env (hex_prefix c) s' (a\<lparr>au_sessions := (au_sessions a)(c \<mapsto> s')\<rparr>)) = addSession env k s' a" for s'
    by (simp add: addSession_def k(1) hex_prefix_string [OF k(2)])
  ultimately show ?thesis
    using in_sync_remove(1) [OF assms k(2)] in_sync_store [OF assms k(2)] assms(1)
    by (simp add: checkSession_def Some Let_def)
qed (use assms in \<open>simp add: checkSession_def\<close>)

lemma in_sync_gate:
  assumes "in_sync a" "db_ok env" "optionalAuth env now r (Some a) = (g, Some a')"
  shows "in_sync a'"
proof -
  have third: "in_sync (snd (optionalAuthThird env now r a))"
    using in_sync_check [OF assms(1,2), of now] assms(1)
    by (auto simp: optionalAuthThird_def Let_def split: option.splits prod.splits) (metis snd_conv)+
  have "a' = a \<or> (\<exists>c. a' = snd (checkSession env now c a)) \<or> a' = snd (optionalAuthThird env now r a)"
    using assms(3) by (auto simp: optionalAuth_def Let_def split: option.splits prod.splits if_splits) (metis snd_conv)+
  with third assms(1) in_sync_check [OF assms(1,2), of now] show ?thesis by blast
qed

lemma in_sync_login:
  assumes "in_sync a" "db_ok env" "\<forall>b \<in> set token. b < 256"
  shows "in_sync (snd (handleLogin env now token creds r a))"
proof -
  have cookie: "in_sync (snd (newCookie env now token name pass ip b))" if "in_sync b" for b name pass ip
  proof (cases "findUser env name pass b")
    case None
    then show ?thesis using that by (auto simp: newCookie_def elim!: in_sync_cong)
  next
    case (Some u)
    have "in_sync (b\<lparr>au_limiter := l\<rparr>)" for l by (rule in_sync_cong [OF that]) auto
    then show ?thesis
      by (simp add: newCookie_def Some in_sync_store assms(2,3))
  qed
  have "in_sync (a\<lparr>au_limiter := l\<rparr>)" for l by (rule in_sync_cong [OF assms(1)]) auto
  with cookie assms(1) show ?thesis
    by (auto simp: handleLogin_def Let_def split: option.splits prod.splits) (metis snd_conv)+
qed

lemma reachable_in_sync:
  assumes "auth_reachable env a" "db_ok env"
  shows "in_sync a"
  using assms(1)
proof induction
  case (start now users ttl lim)
  then show ?case using assms(2) by (simp add: InitAuth_def loadSessions_def in_sync_def bucket_of_def db_ok_def)
next
  case (add_user a name password)
  then show ?case by (auto simp: addUser_def split: option.splits elim!: in_sync_cong)
next
  case (log_in a token now creds r)
  then show ?case using in_sync_login assms(2) by blast
next
  case (gate a now r g a')
  then show ?case using in_sync_gate assms(2) by blast
next
  case (log_out a r k)
  then show ?case using in_sync_remove(1) assms(2) by (auto simp: handleLogout_def)
next
  case (restart a bucket now users ttl lim old)
  then show ?case using assms(2) by (intro in_sync_restart) auto
qed


definition sample_web_user :: web_user where
  "sample_web_user = \<lparr>wu_name = ''admin'', wu_hash = ''pw''\<rparr>"

definition logged_in :: auth where
  "logged_in = snd (handleLogin sample_auth_env 0 [10] (Some (''admin'', ''pw'')) (sample_web_req None)
     (InitAuth sample_auth_env 0 [sample_web_user] 3600 None None False))"

lemma logged_in_reachable: "auth_reachable sample_auth_env logged_in" "db_ok sample_auth_env"
  unfolding logged_in_def
  by (rule auth_reachable.log_in [OF auth_reachable.start], simp) (simp add: db_ok_def sample_auth_env_def)

lemma logged_in_session: "au_sessions logged_in = [''0a'' \<mapsto> \<lparr>ws_user = ''admin'', ws_expire = 3600\<rparr>]"
  by (simp add: logged_in_def handleLogin_def InitAuth_def loadSessions_def newCookie_def findUser_def sample_web_user_def
      sample_web_req_def sample_auth_env_def addSession_def storeSession_def unix32_def hex_string_def digit_char_def char_of_def bit_Suc_0_iff)


text \<open>After a logout the session of the cookie is gone, in memory and in the database: no later check accepts it,
  and no restart brings it back.
\<close>

theorem logout_ends_session:
  assumes "auth_reachable env a" "db_ok env" "wr_cookie r = Some c" "au_sessions a c \<noteq> None"
  shows "fst (checkSession env now c (handleLogout env r a)) = SessionNotFound \<and>
    fst (checkSession env later c (InitAuth env now users ttl lim (au_bucket (handleLogout env r a)) old)) = SessionNotFound"
proof -
  note sync = reachable_in_sync [OF assms(1,2)]
  from assms(4) in_syncD(3) [OF sync] obtain k where k: "c = hex_string k" "\<forall>b \<in> set k. b < 256" by blast
  have out: "handleLogout env r a = removeSession env (hex_string k) a" using assms(3) k by (simp add: handleLogout_def)
  note removed = in_sync_remove [OF sync assms(2) k(2)]
  have "fst (checkSession env now c (handleLogout env r a)) = SessionNotFound"
    by (simp add: out checkSession_def k(1) removed(3))
  moreover have "fst (checkSession env later c (InitAuth env now users ttl lim (au_bucket (handleLogout env r a)) old)) = SessionNotFound"
    using InitAuth_sessions(1) [OF removed(1) assms(2) refl, of now users ttl lim old]
    by (simp add: out checkSession_def k(1) removed(3) live_sessions_def)
  ultimately show ?thesis ..
qed

theorem logout_ends_session_witness:
  "fst (checkSession sample_auth_env 0 ''0a'' (handleLogout sample_auth_env (sample_web_req (Some ''0a'')) logged_in)) = SessionNotFound"
  by (rule logout_ends_session [OF logged_in_reachable, THEN conjunct1]) (simp_all add: sample_web_req_def logged_in_session)

end
