(* ===== verification/AghUserProps.thy ===== *)
theory AghUserProps
  imports AghUser AuthProps
begin

text \<open>
  The database of users stays consistent, the sessions of the storage survive a restart up to the second, and the
  middleware lets a request through exactly with a live session or the password of a user.
\<close>

section \<open>Users\<close>

definition user_db_ok :: "user_db \<Rightarrow> bool" where
  "user_db_ok db \<longleftrightarrow> gm_wf (ud_id_user db) \<and>
     (\<forall>l i. gm_get (ud_login_id db) l = Some i \<longleftrightarrow> (\<exists>u. gm_get (ud_id_user db) i = Some u \<and> ag_login u = l)) \<and>
     (\<forall>i u. gm_get (ud_id_user db) i = Some u \<longrightarrow> ag_id u = i \<and> i \<noteq> zero_user_id)"

lemma user_db_okD:
  assumes "user_db_ok db"
  shows "gm_get (ud_login_id db) l = Some i \<longleftrightarrow> (\<exists>u. gm_get (ud_id_user db) i = Some u \<and> ag_login u = l)"
    and "gm_get (ud_id_user db) i = Some u \<Longrightarrow> ag_id u = i \<and> i \<noteq> zero_user_id"
    and "gm_wf (ud_id_user db)"
  using assms by (auto simp: user_db_ok_def)

text \<open>The databases that a start and any additions of users lead to.\<close>

inductive user_db_reach :: "user_db \<Rightarrow> bool" where
  start: "user_db_reach NewDefaultDB"
| create: "user_db_reach db \<Longrightarrow> db_Create u db = Inr db' \<Longrightarrow> user_db_reach db'"

lemma create_ok:
  assumes "user_db_ok db" "db_Create u db = Inr db'"
  shows "user_db_ok db'"
proof -
  from assms(2) have new: "ag_id u \<noteq> zero_user_id" "gm_get (ud_id_user db) (ag_id u) = None"
      "gm_get (ud_login_id db) (ag_login u) = None"
    and db': "db' = \<lparr>ud_login_id = gm_put (ag_login u) (ag_id u) (ud_login_id db),
                ud_id_user = gm_put (ag_id u) u (ud_id_user db)\<rparr>"
    by (auto simp: db_Create_def split: if_splits)
  from new(3) user_db_okD(1) [OF assms(1), of "ag_login u"]
  have other: "ag_login v \<noteq> ag_login u" if "gm_get (ud_id_user db) i = Some v" for i v
    using that by (metis option.distinct(1))
  show ?thesis
    unfolding user_db_ok_def
  proof (intro conjI allI impI)
    show "gm_wf (ud_id_user db')" using user_db_okD(3) [OF assms(1)] by (simp add: db')
    fix l i v
    show "gm_get (ud_login_id db') l = Some i \<longleftrightarrow> (\<exists>u. gm_get (ud_id_user db') i = Some u \<and> ag_login u = l)"
      using user_db_okD(1) [OF assms(1), of l i] new(2) other by (auto simp: db')
    assume "gm_get (ud_id_user db') i = Some v"
    then show "ag_id v = i" "i \<noteq> zero_user_id"
      using user_db_okD(2) [OF assms(1), of i v] new(1) by (auto simp: db' split: if_splits)
  qed
qed

lemma user_db_reach_ok: "user_db_reach db \<Longrightarrow> user_db_ok db"
proof (induction rule: user_db_reach.induct)
  case start
  show ?case by (simp add: user_db_ok_def NewDefaultDB_def)
qed (rule create_ok)

lemma ByLogin_eq:
  assumes "user_db_ok db"
  shows "db_ByLogin l db = Some (case gm_get (ud_login_id db) l of None \<Rightarrow> None | Some i \<Rightarrow> gm_get (ud_id_user db) i)"
proof (cases "gm_get (ud_login_id db) l")
  case (Some i)
  with user_db_okD(1) [OF assms, of l i] show ?thesis by (auto simp: db_ByLogin_def)
qed (simp add: db_ByLogin_def)

interpretation by_login: preorder_cmp "\<lambda>a b. cmp_ord (ag_login a) (ag_login b)"
  by unfold_locales auto

lemma All_set: "user_db_ok db \<Longrightarrow> u \<in> set (db_All db) \<longleftrightarrow> gm_get (ud_id_user db) (ag_id u) = Some u"
proof -
  assume ok: "user_db_ok db"
  have "u \<in> set (db_All db) \<longleftrightarrow> (\<exists>i. (i, u) \<in> set (ud_id_user db))" by (force simp: db_All_def)
  also have "\<dots> \<longleftrightarrow> (\<exists>i. gm_get (ud_id_user db) i = Some u)" using user_db_okD(3) [OF ok] by (simp flip: gm_get_iff)
  also have "\<dots> \<longleftrightarrow> gm_get (ud_id_user db) (ag_id u) = Some u" using user_db_okD(2) [OF ok] by metis
  finally show ?thesis .
qed

lemma All_logins: "user_db_ok db \<Longrightarrow> u \<in> set (db_All db) \<Longrightarrow> v \<in> set (db_All db) \<Longrightarrow> ag_login u = ag_login v \<Longrightarrow> u = v"
  using user_db_okD(1) [of db "ag_login u"] by (metis All_set option.inject)

text \<open>C18: In every database that a start and any additions of users lead to, the list of all users is sorted by their
  logins and its users have identifiers; a search by login or by identifier finds exactly the user of the list with it,
  and the search by login never panics.
\<close>

theorem user_db_consistent:
  assumes "user_db_reach db"
  shows "sorted (map ag_login (db_All db)) \<and> zero_user_id \<notin> ag_id ` set (db_All db) \<and>
    (\<forall>l. \<exists>r. db_ByLogin l db = Some r \<and> (\<forall>u. r = Some u \<longleftrightarrow> u \<in> set (db_All db) \<and> ag_login u = l)) \<and>
    (\<forall>i u. db_ByUUID i db = Some u \<longleftrightarrow> u \<in> set (db_All db) \<and> ag_id u = i)"
proof (intro conjI allI)
  note ok = user_db_reach_ok [OF assms]
  show "sorted (map ag_login (db_All db))"
    using by_login.sorted_sort_cmp [of "map snd (ud_id_user db)"]
    unfolding cmp_le_def cmp_ord_le by (simp add: db_All_def sorted_map)
  show "zero_user_id \<notin> ag_id ` set (db_All db)"
    using user_db_okD(2) [OF ok] All_set [OF ok] by fastforce
  show "db_ByUUID i db = Some u \<longleftrightarrow> u \<in> set (db_All db) \<and> ag_id u = i" for i u
    using user_db_okD(2) [OF ok, of i u] All_set [OF ok, of u] by (auto simp: db_ByUUID_def)
  show "\<exists>r. db_ByLogin l db = Some r \<and> (\<forall>u. r = Some u \<longleftrightarrow> u \<in> set (db_All db) \<and> ag_login u = l)" for l
  proof (intro exI conjI allI)
    show "db_ByLogin l db = Some (case gm_get (ud_login_id db) l of None \<Rightarrow> None | Some i \<Rightarrow> gm_get (ud_id_user db) i)"
      by (rule ByLogin_eq [OF ok])
    show "(case gm_get (ud_login_id db) l of None \<Rightarrow> None | Some i \<Rightarrow> gm_get (ud_id_user db) i) = Some u \<longleftrightarrow>
        u \<in> set (db_All db) \<and> ag_login u = l" for u
    proof (cases "gm_get (ud_login_id db) l")
      case None
      with user_db_okD(1) [OF ok, of l "ag_id u"] show ?thesis by (auto simp: All_set [OF ok])
    next
      case (Some i)
      then obtain v where v: "gm_get (ud_id_user db) i = Some v" "ag_login v = l"
        using user_db_okD(1) [OF ok] by blast
      have "i = ag_id u" if "gm_get (ud_id_user db) (ag_id u) = Some u" "ag_login u = l"
        using that user_db_okD(1) [OF ok, of l "ag_id u"] Some by auto
      with v Some user_db_okD(2) [OF ok, of i u] show ?thesis by (auto simp: All_set [OF ok])
    qed
  qed
qed

text \<open>An addition of a user with the identifier and the login of others.\<close>

definition sample_agh_user :: "string \<Rightarrow> nat \<Rightarrow> agh_user" where
  "sample_agh_user l n = \<lparr>ag_password = [], ag_login = l, ag_id = replicate 16 n\<rparr>"

definition sample_user_db :: user_db where
  "sample_user_db = (case db_Create (sample_agh_user ''bob'' 1) NewDefaultDB of
     Inr db \<Rightarrow> (case db_Create (sample_agh_user ''al'' 2) db of Inr db' \<Rightarrow> db'))"

lemma sample_user_db: "sample_user_db =
    \<lparr>ud_login_id = [(''bob'', replicate 16 1), (''al'', replicate 16 2)],
     ud_id_user = [(replicate 16 1, sample_agh_user ''bob'' 1), (replicate 16 2, sample_agh_user ''al'' 2)]\<rparr>"
  by (simp add: sample_user_db_def db_Create_def sample_agh_user_def NewDefaultDB_def zero_user_id_def replicate_eq_replicate)

lemma sample_user_db_reach: "user_db_reach sample_user_db"
proof -
  obtain db where db: "db_Create (sample_agh_user ''bob'' 1) NewDefaultDB = Inr db"
    "db_Create (sample_agh_user ''al'' 2) db = Inr sample_user_db"
    by (simp add: sample_user_db db_Create_def sample_agh_user_def NewDefaultDB_def zero_user_id_def replicate_eq_replicate)
  show ?thesis by (rule user_db_reach.create [OF user_db_reach.create [OF user_db_reach.start db(1)] db(2)])
qed

theorem user_db_consistent_witness:
  "\<exists>r. db_ByLogin ''al'' sample_user_db = Some r \<and>
     (\<forall>u. r = Some u \<longleftrightarrow> u \<in> set (db_All sample_user_db) \<and> ag_login u = ''al'')"
  using user_db_consistent [OF sample_user_db_reach] by blast

section \<open>Sessions\<close>

definition storage_works :: "storage_env \<Rightarrow> bool" where
  "storage_works env \<longleftrightarrow> se_begin env \<and> se_create env \<and> se_put env \<and> se_commit env \<and> (\<forall>k. se_delete env k)"

text \<open>Expiries that fit into the 32 bits of seconds, tokens of the right length, names whose length is stored in full.\<close>

definition session_ok :: "user_db \<Rightarrow> bytes \<Rightarrow> user_session \<Rightarrow> bool" where
  "session_ok db t s \<longleftrightarrow> us_token s = t \<and> length t = session_token_length \<and> length (us_login s) < 65536 \<and>
     0 \<le> us_expire s \<and> us_expire s div 1000000000 < 4294967296 \<and>
     (\<exists>u. db_ByLogin (us_login s) db = Some (Some u) \<and> ag_id u = us_user_id s)"

definition whole_seconds :: "int \<Rightarrow> int" where
  "whole_seconds ns = ns div 1000000000 * 1000000000"

lemma bbolt_roundtrip:
  assumes "length (us_login s) < 65536" "0 \<le> us_expire s" "us_expire s div 1000000000 < 4294967296"
  shows "bboltDecode (bboltEncode s) =
     Some \<lparr>us_expire = whole_seconds (us_expire s), us_login = us_login s, us_token = replicate 16 0, us_user_id = zero_user_id\<rparr>"
proof -
  have "uint (of_nat (length (us_login s)) :: 16 word) = int (length (us_login s))"
    using assms(1) by (simp add: unsigned_of_nat take_bit_nat_eq_self)
  moreover have "uint (word_of_int (us_expire s div 1000000000) :: 32 word) = us_expire s div 1000000000"
    using assms(2,3) by (simp add: uint_word_of_int pos_imp_zdiv_nonneg_iff)
  moreover have "be_num (octets 4 (us_expire s div 1000000000)) = us_expire s div 1000000000"
    by (rule be_num_octets) (use assms in \<open>simp_all add: pos_imp_zdiv_nonneg_iff\<close>)
  moreover have "be_num (octets 2 (int (length (us_login s)))) = int (length (us_login s))"
    by (rule be_num_octets) (use assms in simp_all)
  ultimately show ?thesis
    by (simp add: bboltDecode_def bboltEncode_def whole_seconds_def Let_def)
qed

definition kept_user_session :: "user_db \<Rightarrow> int \<Rightarrow> bytes \<Rightarrow> bytes \<Rightarrow> user_session option" where
  "kept_user_session db now t v =
     (case bboltDecode v of
        None \<Rightarrow> None
      | Some s \<Rightarrow>
          if us_expire s < now then None
          else case db_ByLogin (us_login s) db of
            Some (Some u) \<Rightarrow> Some (s\<lparr>us_token := t, us_user_id := ag_id u\<rparr>)
          | _ \<Rightarrow> None)"

lemma session_handler_eq:
  assumes "user_db_ok db" "length k = session_token_length"
  shows "bboltSessionHandler db now (k, v) (ss, bad) =
    Some (case kept_user_session db now k v of None \<Rightarrow> (ss, bad @ [k]) | Some s \<Rightarrow> (gm_put k s ss, bad))"
  using assms(2) ByLogin_eq [OF assms(1)]
  by (auto simp: bboltSessionHandler_def kept_user_session_def Let_def split: option.splits)

lemma session_entries_spec:
  assumes "user_db_ok db" "\<forall>(k, v) \<in> set kvs. length k = session_token_length" "gm_wf kvs" "gm_wf ss"
  shows "\<exists>ss'. session_entries db now kvs (ss, bad) =
      Some (ss', bad @ map fst (filter (\<lambda>(k, v). kept_user_session db now k v = None) kvs)) \<and> gm_wf ss' \<and>
    gm_get ss' = gm_get ss ++ (\<lambda>t. Option.bind (gm_get kvs t) (kept_user_session db now t))"
  using assms(2-)
proof (induction kvs arbitrary: ss bad)
  case (Cons kv kvs)
  obtain k v where kv: "kv = (k, v)" by fastforce
  from Cons.prems have prems: "length k = session_token_length" "\<forall>(k, v) \<in> set kvs. length k = session_token_length"
    "gm_wf kvs" "gm_get kvs k = None"
    by (auto simp: kv gm_wf_def map_of_eq_None_iff)
  note head = session_handler_eq [OF assms(1) prems(1), of now v ss bad]
  show ?case
  proof (cases "kept_user_session db now k v")
    case None
    with prems(4) have "(\<lambda>t. Option.bind (gm_get (kv # kvs) t) (kept_user_session db now t)) =
        (\<lambda>t. Option.bind (gm_get kvs t) (kept_user_session db now t))"
      by (auto simp: kv)
    with Cons.IH [OF prems(2,3) Cons.prems(3), of "bad @ [k]"] None show ?thesis by (simp add: kv head)
  next
    case (Some s)
    with prems(4) have eq: "gm_get (gm_put k s ss) ++ (\<lambda>t. Option.bind (gm_get kvs t) (kept_user_session db now t)) =
        gm_get ss ++ (\<lambda>t. Option.bind (gm_get (kv # kvs) t) (kept_user_session db now t))"
      by (auto simp: kv map_add_def fun_eq_iff split: option.splits)
    from Cons.prems(3) have "gm_wf (gm_put k s ss)" by simp
    note Cons.IH [OF prems(2,3) this, of bad, unfolded eq]
    then show ?thesis using Some by (simp add: kv head del: map_of.simps)
  qed
qed (simp add: map_add_def)

definition bucket_or_empty :: "session_storage \<Rightarrow> (bytes, bytes) gomap" where
  "bucket_or_empty ds = (case ss_bucket ds of None \<Rightarrow> [] | Some b \<Rightarrow> b)"

definition sessions_synced :: "user_db \<Rightarrow> session_storage \<Rightarrow> bool" where
  "sessions_synced db ds \<longleftrightarrow> gm_wf (bucket_or_empty ds) \<and>
     (\<forall>t. gm_get (bucket_or_empty ds) t = map_option bboltEncode (gm_get (ss_sessions ds) t)) \<and>
     (\<forall>t s. gm_get (ss_sessions ds) t = Some s \<longrightarrow> session_ok db t s)"

text \<open>The sessions as a restart at the instant \<open>now\<close> finds them.\<close>

definition restarted :: "int \<Rightarrow> user_session option \<Rightarrow> user_session option" where
  "restarted now so =
     (case so of None \<Rightarrow> None
      | Some s \<Rightarrow> if whole_seconds (us_expire s) < now then None else Some (s\<lparr>us_expire := whole_seconds (us_expire s)\<rparr>))"

lemma kept_encoded:
  assumes "session_ok db t s"
  shows "kept_user_session db now t (bboltEncode s) = restarted now (Some s)"
  using assms by (auto simp: session_ok_def kept_user_session_def bbolt_roundtrip restarted_def)

lemma encode_restarted: "restarted now (Some s) = Some s' \<Longrightarrow> bboltEncode s' = bboltEncode s"
  by (auto simp: restarted_def bboltEncode_def whole_seconds_def split: if_splits)

lemma session_ok_restarted: "session_ok db t s \<Longrightarrow> restarted now (Some s) = Some s' \<Longrightarrow> session_ok db t s'"
  by (auto simp: restarted_def session_ok_def whole_seconds_def pos_imp_zdiv_nonneg_iff split: if_splits)

lemma restart_spec:
  assumes "user_db_ok db" "storage_works env" "sessions_synced db ds"
  shows "\<exists>ds'. NewDefaultSessionStorage env db now (ss_bucket ds) ttl = Some (Inr ds') \<and> sessions_synced db ds' \<and>
    (\<forall>t. gm_get (ss_sessions ds') t = restarted now (gm_get (ss_sessions ds) t))"
proof (cases "ss_bucket ds")
  case None
  with assms(2,3) show ?thesis
    by (simp add: NewDefaultSessionStorage_def ss_loadSessions_def storage_works_def sessions_synced_def bucket_or_empty_def restarted_def)
next
  case (Some b)
  with assms(3) have b: "gm_wf b" "gm_get b t = map_option bboltEncode (gm_get (ss_sessions ds) t)"
      "gm_get (ss_sessions ds) t = Some s \<Longrightarrow> session_ok db t s" for t s
    by (auto simp: sessions_synced_def bucket_or_empty_def)
  have "length k = session_token_length" if "(k, v) \<in> set b" for k v
    using that b(1) b(2) [of k] b(3) [of k] by (auto simp: session_ok_def simp flip: gm_get_iff)
  then have "\<forall>(k, v) \<in> set b. length k = session_token_length" by blast
  from session_entries_spec [OF assms(1) this b(1), of "[]" now "[]"] obtain ss where
    ss: "session_entries db now b ([], []) = Some (ss, map fst (filter (\<lambda>(k, v). kept_user_session db now k v = None) b))"
    "gm_get ss t = Option.bind (gm_get b t) (kept_user_session db now t)" for t
    by (auto simp: map_add_def split: option.splits)
  define bad where "bad = map fst (filter (\<lambda>(k, v). kept_user_session db now k v = None) b)"
  have new: "gm_get ss t = restarted now (gm_get (ss_sessions ds) t)" for t
    using b(3) [of t] by (cases "gm_get (ss_sessions ds) t") (simp_all add: ss(2) b(2) kept_encoded restarted_def)
  have bad: "t \<in> set bad \<longleftrightarrow> gm_get b t \<noteq> None \<and> gm_get ss t = None" for t
  proof -
    have "t \<in> set bad \<longleftrightarrow> (\<exists>v. (t, v) \<in> set b \<and> kept_user_session db now t v = None)" by (force simp: bad_def)
    also have "\<dots> \<longleftrightarrow> gm_get b t \<noteq> None \<and> gm_get ss t = None" by (auto simp: ss(2) simp flip: gm_get_iff [OF b(1)])
    finally show ?thesis .
  qed
  have left: "gm_get (gm_del_all bad b) t = map_option bboltEncode (gm_get ss t)" for t
    using bad [of t] b(2) [of t] encode_restarted
    by (cases "gm_get (ss_sessions ds) t") (auto simp: gm_get_del_all new restarted_def [of _ None])
  from ss(1) have loaded: "session_entries db now b ([], []) = Some (ss, bad)" by (simp add: bad_def)
  have "gm_del_all [] b = b" by (simp add: gm_del_all_def)
  with assms(2) loaded have "NewDefaultSessionStorage env db now (ss_bucket ds) ttl =
      Some (Inr \<lparr>ss_sessions = ss, ss_bucket = Some (gm_del_all bad b), ss_ttl = ttl\<rparr>)"
    by (auto simp: NewDefaultSessionStorage_def ss_loadSessions_def Some storage_works_def processSessions_def list_all_iff)
  moreover have "session_ok db t s" if "gm_get ss t = Some s" for t s
  proof -
    from that new [of t] obtain s0 where s0: "gm_get (ss_sessions ds) t = Some s0" "restarted now (Some s0) = Some s"
      by (cases "gm_get (ss_sessions ds) t") (auto simp: restarted_def [of _ None])
    show ?thesis by (rule session_ok_restarted [OF b(3) [OF s0(1)] s0(2)])
  qed
  with b(1) left have "sessions_synced db \<lparr>ss_sessions = ss, ss_bucket = Some (gm_del_all bad b), ss_ttl = ttl\<rparr>"
    by (simp add: sessions_synced_def bucket_or_empty_def)
  ultimately show ?thesis using new by auto
qed

text \<open>
  The storages that new sessions, searches, removals and restarts lead to.  A token is 16 bytes long, and the user of a
  new session is in the database of users.
\<close>

inductive storage_of_users :: "storage_env \<Rightarrow> user_db \<Rightarrow> session_storage \<Rightarrow> bool" for env db where
  empty: "storage_of_users env db \<lparr>ss_sessions = [], ss_bucket = None, ss_ttl = ttl\<rparr>"
| restart: "storage_of_users env db ds \<Longrightarrow> NewDefaultSessionStorage env db now (ss_bucket ds) ttl = Some (Inr ds') \<Longrightarrow>
    storage_of_users env db ds'"
| new: "storage_of_users env db ds \<Longrightarrow> u \<in> set (db_All db) \<Longrightarrow> length (ag_login u) < 65536 \<Longrightarrow> length t = session_token_length \<Longrightarrow>
    0 \<le> now + ss_ttl ds \<Longrightarrow> (now + ss_ttl ds) div 1000000000 < 4294967296 \<Longrightarrow> storage_of_users env db (snd (ss_New env now t u ds))"
| find: "storage_of_users env db ds \<Longrightarrow> storage_of_users env db (snd (FindByToken env now t ds))"
| delete: "storage_of_users env db ds \<Longrightarrow> storage_of_users env db (snd (DeleteByToken env t ds))"

lemma synced_delete:
  assumes "storage_works env" "sessions_synced db ds"
  shows "sessions_synced db (snd (DeleteByToken env t ds))"
    and "gm_get (ss_sessions ds) t \<noteq> None \<Longrightarrow> fst (DeleteByToken env t ds) = None"
proof -
  from assms(2) have none: "ss_bucket ds = None \<Longrightarrow> gm_get (ss_sessions ds) t = None" for t
    by (auto simp: sessions_synced_def bucket_or_empty_def)
  from assms show "sessions_synced db (snd (DeleteByToken env t ds))"
    by (auto simp: DeleteByToken_def ss_remove_def storage_works_def sessions_synced_def bucket_or_empty_def split: option.splits)
  show "fst (DeleteByToken env t ds) = None" if "gm_get (ss_sessions ds) t \<noteq> None"
    using that none [of t] assms(1) by (cases "ss_bucket ds") (auto simp: DeleteByToken_def ss_remove_def storage_works_def)
qed

lemma synced_new:
  assumes "storage_works env" "sessions_synced db ds"
    "session_ok db t \<lparr>us_expire = now + ss_ttl ds, us_login = ag_login u, us_token = t, us_user_id = ag_id u\<rparr>"
  shows "sessions_synced db (snd (ss_New env now t u ds))"
  using assms
  by (auto simp: ss_New_def ss_store_def storage_works_def sessions_synced_def bucket_or_empty_def Let_def split: option.splits)

lemma synced_find: "storage_works env \<Longrightarrow> sessions_synced db ds \<Longrightarrow> sessions_synced db (snd (FindByToken env now t ds))"
  using synced_delete(1) [of env db ds t]
  by (auto simp: FindByToken_def split: option.splits prod.splits)

lemma user_in_db:
  assumes "user_db_ok db" "u \<in> set (db_All db)"
  shows "db_ByLogin (ag_login u) db = Some (Some u)"
  using assms(2) user_db_okD(1) [OF assms(1), of "ag_login u" "ag_id u"]
  by (auto simp: ByLogin_eq [OF assms(1)] All_set [OF assms(1)])

lemma storage_synced:
  assumes "storage_of_users env db ds" "user_db_ok db" "storage_works env"
  shows "sessions_synced db ds"
  using assms(1)
proof (induction rule: storage_of_users.induct)
  case (restart ds now ttl ds')
  with restart_spec [OF assms(2,3) restart.IH, of now ttl] show ?case by auto
next
  case (new ds u t now)
  then have "session_ok db t \<lparr>us_expire = now + ss_ttl ds, us_login = ag_login u, us_token = t, us_user_id = ag_id u\<rparr>"
    by (auto simp: session_ok_def user_in_db [OF assms(2)])
  with new show ?case by (blast intro: synced_new assms(3))
qed (simp_all add: synced_find synced_delete assms(3), simp add: sessions_synced_def bucket_or_empty_def)

text \<open>C20: In every state that new sessions, searches, removals and restarts lead to with a working database, a restart
  succeeds without a panic and finds exactly the sessions whose whole seconds have not passed, with their users and with
  their ends cut to whole seconds.
\<close>

theorem user_sessions_survive_restart:
  assumes "user_db_reach db" "storage_works env" "storage_of_users env db ds"
  shows "\<exists>ds'. NewDefaultSessionStorage env db now (ss_bucket ds) ttl = Some (Inr ds') \<and>
    (\<forall>t. gm_get (ss_sessions ds') t =
      (case gm_get (ss_sessions ds) t of
         None \<Rightarrow> None
       | Some s \<Rightarrow> if whole_seconds (us_expire s) < now then None else Some (s\<lparr>us_expire := whole_seconds (us_expire s)\<rparr>)))"
  using restart_spec [OF user_db_reach_ok [OF assms(1)] assms(2), of ds now ttl]
    storage_synced [OF assms(3) user_db_reach_ok [OF assms(1)] assms(2)]
  unfolding restarted_def by blast

section \<open>The middleware\<close>

lemma find_token_works:
  assumes "storage_works env" "sessions_synced db ds"
  shows "fst (FindByToken env now t ds) =
    Inr (case gm_get (ss_sessions ds) t of None \<Rightarrow> None | Some s \<Rightarrow> if us_expire s < now then None else Some s)"
  using synced_delete(2) [OF assms, of t]
  by (auto simp: FindByToken_def split: option.splits prod.splits)

lemma login_found:
  assumes "user_db_ok db"
  obtains v where "db_ByLogin l db = Some v" "\<And>u. v = Some u \<longleftrightarrow> u \<in> set (db_All db) \<and> ag_login u = l"
proof (cases "\<exists>u. u \<in> set (db_All db) \<and> ag_login u = l")
  case True
  then obtain u where "u \<in> set (db_All db)" "ag_login u = l" by blast
  then show ?thesis using user_in_db [OF assms] All_logins [OF assms] that by blast
next
  case False
  obtain v where v: "db_ByLogin l db = Some v" by (simp add: ByLogin_eq [OF assms])
  have "v = None"
    using False v user_db_okD(1,2) [OF assms] by (auto simp: ByLogin_eq [OF assms] All_set [OF assms] split: option.splits) blast
  with False v that show ?thesis by auto
qed

lemma basic_user:
  assumes "user_db_ok db"
  obtains v where "userFromRequestBasicAuth compare db r = Some v"
    "\<And>u. v = Inr (Some u) \<longleftrightarrow>
      u \<in> set (db_All db) \<and> (\<exists>pass. wr_basic r = Some (ag_login u, pass) \<and> compare (ag_password u) pass)"
proof (cases "wr_basic r")
  case None
  with that [of "Inl NoCredentials"] show ?thesis by (simp add: userFromRequestBasicAuth_def)
next
  case (Some lp)
  obtain l p where lp: "lp = (l, p)" by fastforce
  obtain v where v: "db_ByLogin l db = Some v" "\<And>u. v = Some u \<longleftrightarrow> u \<in> set (db_All db) \<and> ag_login u = l"
    using login_found [OF assms, of l] by blast
  show ?thesis
  proof (cases v)
    case None
    with v that [of "Inl InvalidLogin"] Some lp show ?thesis by (auto simp: userFromRequestBasicAuth_def)
  next
    case a: (Some a)
    have iff: "u \<in> set (db_All db) \<and> (\<exists>pass. wr_basic r = Some (ag_login u, pass) \<and> compare (ag_password u) pass) \<longleftrightarrow>
        u = a \<and> compare (ag_password a) p" for u
      using v(2) [of u] a by (auto simp: Some lp)
    show ?thesis
    proof (rule that)
      show "userFromRequestBasicAuth compare db r = Some (if compare (ag_password a) p then Inr (Some a) else Inl InvalidLogin)"
        by (simp add: userFromRequestBasicAuth_def v(1) a Some lp)
    qed (unfold iff, auto)
  qed
qed

lemma cookie_user:
  assumes "user_db_ok db" "storage_works env" "storage_of_users env db ds" "wr_cookie r = Some c"
  obtains v ds' where "userFromRequest env compare db now r ds = Some (v, ds')" "storage_of_users env db ds'"
    "\<And>u. v = Inr (Some u) \<longleftrightarrow> u \<in> set (db_All db) \<and>
      (\<exists>t s. hex_bytes c = Some t \<and> gm_get (ss_sessions ds) t = Some s \<and> now \<le> us_expire s \<and> us_login s = ag_login u)"
proof (cases "\<exists>t. hex_bytes c = Some t \<and> length t = session_token_length")
  case False
  note sync = storage_synced [OF assms(3,1,2)]
  have "gm_get (ss_sessions ds) t = None" if "hex_bytes c = Some t" for t
  proof (rule ccontr)
    assume "gm_get (ss_sessions ds) t \<noteq> None"
    with sync have "length t = session_token_length" by (auto simp: sessions_synced_def session_ok_def)
    with that False show False by blast
  qed
  with False that [of "Inl CookieDecoding" ds] that [of "Inl TokenLength" ds] assms(3,4) show ?thesis
    by (cases "hex_bytes c") (auto simp: userFromRequest_def)
next
  case True
  then obtain t where t: "hex_bytes c = Some t" "length t = session_token_length" by blast
  obtain ds1 where find: "FindByToken env now t ds =
      (Inr (case gm_get (ss_sessions ds) t of None \<Rightarrow> None | Some s \<Rightarrow> if us_expire s < now then None else Some s), ds1)"
    using find_token_works [OF assms(2) storage_synced [OF assms(3,1,2)], of now t] by (metis prod.collapse)
  have ds1: "storage_of_users env db ds1"
    using storage_of_users.find [OF assms(3), of now t] by (simp add: find)
  show ?thesis
  proof (cases "gm_get (ss_sessions ds) t")
    case None
    with that [of "Inr None" ds1] t ds1 assms(4) show ?thesis by (simp add: userFromRequest_def find)
  next
    case (Some s)
    obtain v where v: "db_ByLogin (us_login s) db = Some v"
      "\<And>u. v = Some u \<longleftrightarrow> u \<in> set (db_All db) \<and> ag_login u = us_login s" using login_found [OF assms(1), of "us_login s"] by blast
    have "u \<in> set (db_All db) \<and>
      (\<exists>t s. hex_bytes c = Some t \<and> gm_get (ss_sessions ds) t = Some s \<and> now \<le> us_expire s \<and> us_login s = ag_login u) \<longleftrightarrow>
        v = Some u \<and> now \<le> us_expire s" for u
      using v(2) [of u] t Some by auto
    then show ?thesis
      using that [of "Inr (if us_expire s < now then None else v)" ds1] ds1
      by (simp add: userFromRequest_def find v(1) t Some assms(4) not_less [symmetric])
  qed
qed

text \<open>C19: The middleware never panics.  It runs the handler without a user exactly if there are no users; otherwise it runs
  it for a user exactly if the cookie is the token of a session of theirs that has not ended or, without a cookie, the
  request has their login and password.  A request with a wrong cookie is unauthorized whatever credentials it has.
\<close>

theorem middleware_gate:
  assumes "user_db_reach db" "storage_works env" "storage_of_users env db ds"
  shows "\<exists>res ds'. mw_Wrap env compare db now r ds = Some (res, ds') \<and> storage_of_users env db ds' \<and>
    (res = Handled None \<longleftrightarrow> db_All db = []) \<and>
    (\<forall>u. res = Handled (Some u) \<longleftrightarrow> u \<in> set (db_All db) \<and>
      (case wr_cookie r of
         Some c \<Rightarrow> \<exists>t s. hex_bytes c = Some t \<and> gm_get (ss_sessions ds) t = Some s \<and> now \<le> us_expire s \<and> us_login s = ag_login u
       | None \<Rightarrow> \<exists>pass. wr_basic r = Some (ag_login u, pass) \<and> compare (ag_password u) pass))"
proof -
  note ok = user_db_reach_ok [OF assms(1)]
  show ?thesis
  proof (cases "db_All db = [] \<or> wr_cookie r = None")
    case True
    obtain v where "userFromRequestBasicAuth compare db r = Some v"
      "\<And>u. v = Inr (Some u) \<longleftrightarrow>
        u \<in> set (db_All db) \<and> (\<exists>pass. wr_basic r = Some (ag_login u, pass) \<and> compare (ag_password u) pass)"
      using basic_user [OF ok] by blast
    with True assms(3) show ?thesis
      by (auto simp: mw_Wrap_def needsAuthentication_def userFromRequest_def split: sum.split option.split) (metis All_logins [OF ok])
  next
    case False
    then obtain c where c: "wr_cookie r = Some c" by blast
    obtain v ds' where "userFromRequest env compare db now r ds = Some (v, ds')" "storage_of_users env db ds'"
      "\<And>u. v = Inr (Some u) \<longleftrightarrow> u \<in> set (db_All db) \<and>
        (\<exists>t s. hex_bytes c = Some t \<and> gm_get (ss_sessions ds) t = Some s \<and> now \<le> us_expire s \<and> us_login s = ag_login u)"
      using cookie_user [OF ok assms(2,3) c] by blast
    with False c show ?thesis
      by (auto simp: mw_Wrap_def needsAuthentication_def split: sum.split option.split) (metis All_logins [OF ok])
  qed
qed

definition sample_storage_env :: storage_env where
  "sample_storage_env = \<lparr>se_begin = True, se_create = True, se_put = True, se_delete = (\<lambda>_. True), se_commit = True\<rparr>"

text \<open>A session of an hour that starts a second and a half after the epoch.\<close>

definition sample_sessions :: session_storage where
  "sample_sessions = snd (ss_New sample_storage_env 1500000000 (replicate 16 7) (sample_agh_user ''al'' 2)
     \<lparr>ss_sessions = [], ss_bucket = None, ss_ttl = 3600000000000\<rparr>)"

lemma sample_storage_works: "storage_works sample_storage_env"
  by (simp add: storage_works_def sample_storage_env_def)

lemma sample_in_db: "sample_agh_user ''al'' 2 \<in> set (db_All sample_user_db)"
  unfolding All_set [OF user_db_reach_ok [OF sample_user_db_reach]]
  by (simp add: sample_user_db sample_agh_user_def replicate_eq_replicate)

lemma sample_sessions_reach: "storage_of_users sample_storage_env sample_user_db sample_sessions"
  unfolding sample_sessions_def
  by (rule storage_of_users.new [OF storage_of_users.empty sample_in_db])
    (simp_all add: session_token_length_def sample_agh_user_def)

lemma sample_session_get: "gm_get (ss_sessions sample_sessions) (replicate 16 7) =
    Some \<lparr>us_expire = 3601500000000, us_login = ''al'', us_token = replicate 16 7, us_user_id = replicate 16 2\<rparr>"
  by (simp add: sample_sessions_def ss_New_def ss_store_def sample_storage_env_def sample_agh_user_def Let_def)

text \<open>After the restart the session ends half a second earlier.\<close>

theorem user_sessions_survive_restart_witness:
  "\<exists>ds'. NewDefaultSessionStorage sample_storage_env sample_user_db 3600000000000 (ss_bucket sample_sessions) 60 = Some (Inr ds') \<and>
     map_option us_expire (gm_get (ss_sessions ds') (replicate 16 7)) = Some 3601000000000"
proof -
  obtain ds' where ds': "NewDefaultSessionStorage sample_storage_env sample_user_db 3600000000000 (ss_bucket sample_sessions) 60 = Some (Inr ds')"
    "\<forall>t. gm_get (ss_sessions ds') t =
      (case gm_get (ss_sessions sample_sessions) t of
         None \<Rightarrow> None
       | Some s \<Rightarrow> if whole_seconds (us_expire s) < 3600000000000 then None
           else Some (s\<lparr>us_expire := whole_seconds (us_expire s)\<rparr>))"
    using user_sessions_survive_restart [OF sample_user_db_reach sample_storage_works sample_sessions_reach] by blast
  then show ?thesis by (simp add: sample_session_get whole_seconds_def)
qed

theorem middleware_gate_witness:
  "\<exists>ds'. mw_Wrap sample_storage_env (\<lambda>_ _. False) sample_user_db 0 (sample_web_req (Some (hex_string (replicate 16 7)))) sample_sessions =
     Some (Handled (Some (sample_agh_user ''al'' 2)), ds')"
proof -
  let ?r = "sample_web_req (Some (hex_string (replicate 16 7)))"
  have c: "wr_cookie ?r = Some (hex_string (replicate 16 7))" by (simp add: sample_web_req_def)
  have t: "hex_bytes (hex_string (replicate 16 7)) = Some (replicate 16 7)" by (rule hex_bytes_string) simp
  obtain res ds' where "mw_Wrap sample_storage_env (\<lambda>_ _. False) sample_user_db 0 ?r sample_sessions = Some (res, ds')"
    "\<forall>u. res = Handled (Some u) \<longleftrightarrow> u \<in> set (db_All sample_user_db) \<and>
      (\<exists>t s. hex_bytes (hex_string (replicate 16 7)) = Some t \<and> gm_get (ss_sessions sample_sessions) t = Some s \<and>
         0 \<le> us_expire s \<and> us_login s = ag_login u)"
    using middleware_gate [OF sample_user_db_reach sample_storage_works sample_sessions_reach, of "\<lambda>_ _. False" 0 ?r]
    unfolding c option.case by blast
  then show ?thesis by (simp add: t sample_session_get sample_in_db) (simp add: sample_agh_user_def)
qed

end
