(* ===== verification/QLogFile.thy ===== *)
theory QLogFile
  imports Prelude
begin

text \<open>
  The files of the query log (package \<^verbatim>\<open>internal/querylog\<close>): a file is read backwards line by line
  through a buffer and searched for a timestamp by bisection (\<^verbatim>\<open>qlogfile.go\<close>), and several files are
  read as one (\<^verbatim>\<open>qlogreader.go\<close>).  The content of a file does not change while it is read, and reading
  fails at its end only.  The parser of timestamps is an argument.
\<close>

section \<open>Lines and timestamps\<close>

definition maxEntrySize :: nat where
  "maxEntrySize = 16 * 1024"

definition bufferSize :: nat where
  "bufferSize = 100 * maxEntrySize"

definition nl :: char where
  "nl = CHR 0x0A"

text \<open>The index of the first occurrence.\<close>

fun index_of :: "string \<Rightarrow> string \<Rightarrow> nat option" where
  "index_of [] pat = (if pat = [] then Some 0 else None)"
| "index_of (c # s) pat = (if has_prefix (c # s) pat then Some 0 else map_option Suc (index_of s pat))"

definition readJSONValue :: "string \<Rightarrow> string \<Rightarrow> string" where
  "readJSONValue s pre =
     (case index_of s pre of
        None \<Rightarrow> []
      | Some i \<Rightarrow>
          let rest = drop (i + length pre) s
          in if CHR 0x22 \<in> set rest then takeWhile (\<lambda>c. c \<noteq> CHR 0x22) rest else [])"

text \<open>Zero stands for a record without a timestamp.\<close>

definition readQLogTimestamp :: "(string \<Rightarrow> int option) \<Rightarrow> string \<Rightarrow> int" where
  "readQLogTimestamp parse_time str =
     (let v = readJSONValue str [CHR 0x22, CHR ''T'', CHR 0x22, CHR '':'', CHR 0x22];
          val = (if v = [] then readJSONValue str (CHR 0x22 # ''Time'' @ [CHR 0x22, CHR '':'', CHR 0x22]) else v)
      in if val = [] then 0 else case parse_time val of None \<Rightarrow> 0 | Some t \<Rightarrow> t)"

section \<open>A file\<close>

datatype qlog_error = QEOF | TSNotFound | TSTooLate | TSTooEarly | TSEmpty | OutOfRange

record qlog_file =
  qf_data :: string
  qf_buffer :: "string option"
  qf_position :: nat
  qf_start :: nat

definition newQLogFile :: "string \<Rightarrow> qlog_file" where
  "newQLogFile content = \<lparr>qf_data = content, qf_buffer = None, qf_position = 0, qf_start = 0\<rparr>"

definition validateQLogLineIdx :: "nat \<Rightarrow> int \<Rightarrow> nat \<Rightarrow> qlog_error option" where
  "validateQLogLineIdx lineIdx lastProbe fSize =
     (if int lineIdx = lastProbe then Some (if lineIdx = 0 then TSTooEarly else TSNotFound)
      else if lineIdx = fSize then Some TSTooLate
      else None)"

text \<open>Reading into a buffer leaves the bytes behind the read ones as they are.\<close>

definition read_at :: "string \<Rightarrow> nat \<Rightarrow> string \<Rightarrow> string" where
  "read_at content pos buf = (let got = take (length buf) (drop pos content) in got @ drop (length got) buf)"

text \<open>The start of the line that ends before an index: the loops that go left to a line break.\<close>

fun scan_back :: "string \<Rightarrow> nat \<Rightarrow> nat" where
  "scan_back buf 0 = 0"
| "scan_back buf (Suc i) = (if buf ! i = nl then Suc i else scan_back buf i)"

definition readProbeLine :: "nat \<Rightarrow> qlog_file \<Rightarrow> (qlog_error, string \<times> nat \<times> nat) result" where
  "readProbeLine position q =
     (let seek = (if maxEntrySize < position then position - maxEntrySize else 0);
          rel = (if maxEntrySize < position then maxEntrySize else position);
          n = length (take (2 * maxEntrySize) (drop seek (qf_data q)));
          buf = read_at (qf_data q) seek (replicate (2 * maxEntrySize) (CHR 0x00))
      in if n = 0 then Inl QEOF
         else
           let startLine = scan_back buf rel;
               tail = takeWhile (\<lambda>c. c \<noteq> nl) (take (n - rel) (drop rel buf));
               found = rel + length tail < n;
               endLine = (if found then rel + length tail else n);
               lineEndIdx = (if found then endLine + seek + 1 else n + seek)
           in Inr (drop startLine (take endLine buf), startLine + seek, lineEndIdx))"

text \<open>The search: \<open>start\<close> and \<open>end\<close> bound the interval, and the depth is at most 100.\<close>

function seek_loop ::
  "(string \<Rightarrow> int option) \<Rightarrow> int \<Rightarrow> qlog_file \<Rightarrow> nat \<Rightarrow> nat \<Rightarrow> int \<Rightarrow> nat \<Rightarrow> (qlog_error, nat \<times> nat) result" where
  "seek_loop parse_time timestamp q lo hi lastProbe depth =
     (case readProbeLine (lo + (hi - lo) div 2) q of
        Inl e \<Rightarrow> Inl e
      | Inr (line, lineIdx, lineEndIdx) \<Rightarrow>
          (case validateQLogLineIdx lineIdx lastProbe (length (qf_data q)) of
             Some e \<Rightarrow> Inl e
           | None \<Rightarrow>
               let ts = readQLogTimestamp parse_time line in
               if ts = 0 then Inl TSEmpty
               else if ts = timestamp then Inr (lineIdx + length line, depth)
               else if 100 \<le> depth + 1 then Inl TSNotFound
               else if timestamp < ts then seek_loop parse_time timestamp q lo lineIdx (int lineIdx) (depth + 1)
               else seek_loop parse_time timestamp q lineEndIdx hi (int lineIdx) (depth + 1)))"
  by pat_completeness auto
termination by (relation "measure (\<lambda>(_, _, _, _, _, _, depth). 100 - depth)") auto

declare seek_loop.simps [simp del]

text \<open>The state is unchanged but for the buffer when the search fails.\<close>

definition file_seekTS :: "(string \<Rightarrow> int option) \<Rightarrow> int \<Rightarrow> qlog_file \<Rightarrow> (qlog_error, nat \<times> nat) result \<times> qlog_file" where
  "file_seekTS parse_time timestamp q =
     (let q1 = q\<lparr>qf_buffer := None\<rparr> in
      case seek_loop parse_time timestamp q1 0 (length (qf_data q)) (- 1) 0 of
        Inl e \<Rightarrow> (Inl e, q1)
      | Inr (pos, depth) \<Rightarrow> (Inr (pos, depth), q1\<lparr>qf_position := pos\<rparr>))"

definition file_SeekStart :: "qlog_file \<Rightarrow> qlog_file" where
  "file_SeekStart q = q\<lparr>qf_buffer := None, qf_position := length (qf_data q) - 1\<rparr>"

definition initBuffer :: "nat \<Rightarrow> qlog_file \<Rightarrow> (qlog_error, unit) result \<times> qlog_file" where
  "initBuffer position q =
     (let st = (if bufferSize < position then position - bufferSize else 0);
          buf = (case qf_buffer q of None \<Rightarrow> replicate bufferSize (CHR 0x00) | Some b \<Rightarrow> b)
      in (if drop st (qf_data q) = [] then Inl QEOF else Inr (),
          q\<lparr>qf_start := st, qf_buffer := Some (read_at (qf_data q) st buf)\<rparr>))"

definition readNextLine :: "nat \<Rightarrow> qlog_file \<Rightarrow> (qlog_error, string \<times> nat) result \<times> qlog_file" where
  "readNextLine position q =
     (let renew = qf_buffer q = None \<or> (int position - int (qf_start q) < int maxEntrySize \<and> qf_start q \<noteq> 0) in
      case (if renew then initBuffer position q else (Inr (), q)) of
        (Inl e, q1) \<Rightarrow> (Inl e, q1)
      | (Inr _, q1) \<Rightarrow>
          (case qf_buffer q1 of
             None \<Rightarrow> (Inl OutOfRange, q1)
           | Some buf \<Rightarrow>
               let rel = position - qf_start q1 in
               if length buf < rel then (Inl OutOfRange, q1)
               else (Inr (drop (scan_back buf rel) (take rel buf), qf_start q1 + scan_back buf rel), q1)))"

definition file_ReadNext :: "qlog_file \<Rightarrow> (qlog_error, string) result \<times> qlog_file" where
  "file_ReadNext q =
     (if qf_position q = 0 then (Inl QEOF, q)
      else case readNextLine (qf_position q) q of
        (Inl e, q1) \<Rightarrow> (Inl e, q1)
      | (Inr (line, lineIdx), q1) \<Rightarrow> (Inr line, q1\<lparr>qf_position := lineIdx - 1\<rparr>))"

section \<open>Several files\<close>

text \<open>The files from the oldest to the newest; the current file is counted from one, and is zero behind the oldest.\<close>

record qlog_reader =
  qr_files :: "qlog_file list"
  qr_current :: nat

text \<open>Files that do not exist are skipped.\<close>

definition newQLogReader :: "string option list \<Rightarrow> qlog_reader" where
  "newQLogReader contents =
     (let files = concat (map (\<lambda>c. case c of None \<Rightarrow> [] | Some s \<Rightarrow> [newQLogFile s]) contents)
      in \<lparr>qr_files = files, qr_current = length files\<rparr>)"

definition reader_SeekStart :: "qlog_reader \<Rightarrow> qlog_reader" where
  "reader_SeekStart r =
     (let n = length (qr_files r) in
      if n = 0 then r
      else r\<lparr>qr_current := n, qr_files := (qr_files r)[n - 1 := file_SeekStart (qr_files r ! (n - 1))]\<rparr>)"

text \<open>The result is the error of the search, if any.  \<open>i\<close> is the number of the file to look at.\<close>

fun reader_seek :: "(string \<Rightarrow> int option) \<Rightarrow> int \<Rightarrow> nat \<Rightarrow> qlog_reader \<Rightarrow> qlog_error option \<times> qlog_reader" where
  "reader_seek parse_time ts 0 r = (if qr_files r = [] then None else Some TSNotFound, r)"
| "reader_seek parse_time ts (Suc i) r =
     (case file_seekTS parse_time ts (qr_files r ! i) of
        (res, q) \<Rightarrow>
          let r1 = r\<lparr>qr_files := (qr_files r)[i := q]\<rparr> in
          (case res of
             Inr _ \<Rightarrow> (None, r1\<lparr>qr_current := Suc i\<rparr>)
           | Inl TSTooEarly \<Rightarrow> reader_seek parse_time ts i r1
           | Inl TSTooLate \<Rightarrow> (None, reader_SeekStart r1)
           | Inl e \<Rightarrow> (Some e, r1)))"

definition reader_seekTS :: "(string \<Rightarrow> int option) \<Rightarrow> int \<Rightarrow> qlog_reader \<Rightarrow> qlog_error option \<times> qlog_reader" where
  "reader_seekTS parse_time ts r = reader_seek parse_time ts (length (qr_files r)) r"

fun read_loop :: "nat \<Rightarrow> qlog_file list \<Rightarrow> (qlog_error, string) result \<times> qlog_file list \<times> nat" where
  "read_loop 0 fs = (Inl QEOF, fs, 0)"
| "read_loop (Suc i) fs =
     (if length fs \<le> i then (Inl OutOfRange, fs, Suc i)
      else case file_ReadNext (fs ! i) of
        (Inr line, q) \<Rightarrow> (Inr line, fs[i := q], Suc i)
      | (Inl _, q) \<Rightarrow>
          (case i of
             0 \<Rightarrow> (Inl QEOF, fs[i := q], 0)
           | Suc j \<Rightarrow> read_loop i ((fs[i := q])[j := file_SeekStart (fs ! j)])))"

definition reader_ReadNext :: "qlog_reader \<Rightarrow> (qlog_error, string) result \<times> qlog_reader" where
  "reader_ReadNext r =
     (if qr_files r = [] then (Inl QEOF, r)
      else case read_loop (qr_current r) (qr_files r) of
        (res, fs, cur) \<Rightarrow> (res, r\<lparr>qr_files := fs, qr_current := cur\<rparr>))"

end
