(* ===== verification/QLogDecode.thy ===== *)
theory QLogDecode
  imports FilterTypes
begin

text \<open>
  The entries of the query log and their decoding from lines of the log file (\<^verbatim>\<open>entry.go\<close> and
  \<^verbatim>\<open>decode.go\<close> of package \<^verbatim>\<open>internal/querylog\<close>).  The decoder works on the tokens of a JSON
  value; a list of tokens ends where the text ends or is malformed, which the code treats alike.  Arguments are the
  parser of timestamps, the base64 decoder, which gives what it could decode, and the function that makes names fully
  qualified.
\<close>

section \<open>JSON values and tokens\<close>

datatype json = JNull | JBool bool | JNum string | JStr string | JArr "json list" | JObj "(string \<times> json) list"

datatype json_token = TNull | TBool bool | TNum string | TStr string | TDelim char

fun json_tokens :: "json \<Rightarrow> json_token list" where
  "json_tokens JNull = [TNull]"
| "json_tokens (JBool b) = [TBool b]"
| "json_tokens (JNum s) = [TNum s]"
| "json_tokens (JStr s) = [TStr s]"
| "json_tokens (JArr js) = TDelim (CHR ''['') # concat (map json_tokens js) @ [TDelim (CHR '']'')]"
| "json_tokens (JObj ms) = TDelim (CHR ''{'') # concat (map (\<lambda>(k, j). TStr k # json_tokens j) ms) @ [TDelim (CHR ''}'')]"

text \<open>One value read from the tokens, of which the fuel bounds the number.\<close>

fun parse_json :: "nat \<Rightarrow> json_token list \<Rightarrow> (json \<times> json_token list) option"
  and parse_items :: "nat \<Rightarrow> json_token list \<Rightarrow> (json list \<times> json_token list) option"
  and parse_members :: "nat \<Rightarrow> json_token list \<Rightarrow> ((string \<times> json) list \<times> json_token list) option" where
  "parse_json (Suc n) (TNull # ts) = Some (JNull, ts)"
| "parse_json (Suc n) (TBool b # ts) = Some (JBool b, ts)"
| "parse_json (Suc n) (TNum s # ts) = Some (JNum s, ts)"
| "parse_json (Suc n) (TStr s # ts) = Some (JStr s, ts)"
| "parse_json (Suc n) (TDelim d # ts) =
     (if d = CHR ''['' then map_option (map_prod JArr id) (parse_items n ts)
      else if d = CHR ''{'' then map_option (map_prod JObj id) (parse_members n ts)
      else None)"
| "parse_json _ _ = None"
| "parse_items (Suc n) (t # ts) =
     (if t = TDelim (CHR '']'') then Some ([], ts)
      else case parse_json n (t # ts) of
        None \<Rightarrow> None
      | Some (j, ts1) \<Rightarrow> map_option (map_prod (Cons j) id) (parse_items n ts1))"
| "parse_items _ _ = None"
| "parse_members (Suc n) (TStr k # ts) =
     (case parse_json n ts of
        None \<Rightarrow> None
      | Some (j, ts1) \<Rightarrow> map_option (map_prod (Cons (k, j)) id) (parse_members n ts1))"
| "parse_members (Suc n) (TDelim d # ts) = (if d = CHR ''}'' then Some ([], ts) else None)"
| "parse_members _ _ = None"

text \<open>\<^verbatim>\<open>json.Number.Int64\<close>: the value and whether it is exact; an integer out of range gives the nearest one in it.\<close>

definition number_int64 :: "string \<Rightarrow> int \<times> bool" where
  "number_int64 s =
     (let neg = has_prefix s ''-''; ds = (if neg then drop 1 s else s) in
      if ds = [] then (0, False)
      else case decimal ds 0 of
        None \<Rightarrow> (0, False)
      | Some n \<Rightarrow>
          let i = (if neg then - int n else int n) in
          if i < - (2 ^ 63) then (- (2 ^ 63), False) else if 2 ^ 63 \<le> i then (2 ^ 63 - 1, False) else (i, True))"

section \<open>Entries\<close>

text \<open>A value of a rewrite response: an IP address, nil if its text is none, or what the JSON says.\<close>

datatype log_value = LIP "addr option" | LJson json

record log_rewrite =
  lw_response :: "(qtype, log_value list) gomap option"
  lw_rcode :: int

record log_rule =
  lg_text :: string
  lg_ip :: addr
  lg_list :: int

record log_result =
  lr_rewrite :: "log_rewrite option"
  lr_canon :: string
  lr_service :: string
  lr_ips :: "addr list"
  lr_rules :: "log_rule list"
  lr_reason :: int
  lr_filtered :: bool

definition empty_rule :: log_rule where
  "empty_rule = \<lparr>lg_text = [], lg_ip = ZeroAddr, lg_list = 0\<rparr>"

definition empty_log_result :: log_result where
  "empty_log_result = \<lparr>lr_rewrite = None, lr_canon = [], lr_service = [], lr_ips = [], lr_rules = [], lr_reason = 0,
     lr_filtered = False\<rparr>"

definition empty_rewrite :: log_rewrite where
  "empty_rewrite = \<lparr>lw_response = None, lw_rcode = 0\<rparr>"

record ql_client =
  qc_name :: string
  qc_ignore :: bool

text \<open>An IP address is kept without the IPv6 form of IPv4.\<close>

record qlog_entry =
  en_client :: "ql_client option"
  en_time :: int
  en_host :: string
  en_qtype :: string
  en_qclass :: string
  en_ecs :: string
  en_client_id :: string
  en_proto :: string
  en_upstream :: string
  en_answer :: "nat list"
  en_orig :: "nat list"
  en_ip :: "addr option"
  en_result :: log_result
  en_elapsed :: int
  en_cached :: bool
  en_ad :: bool

definition no_time :: int where
  "no_time = - 62135596800000000000"

definition empty_entry :: qlog_entry where
  "empty_entry = \<lparr>en_client = None, en_time = no_time, en_host = [], en_qtype = [], en_qclass = [], en_ecs = [],
     en_client_id = [], en_proto = [], en_upstream = [], en_answer = [], en_orig = [], en_ip = None,
     en_result = empty_log_result, en_elapsed = 0, en_cached = False, en_ad = False\<rparr>"

definition NewClientProto :: "string \<Rightarrow> string option" where
  "NewClientProto s = (if s \<in> {''doh'', ''doq'', ''dot'', ''dnscrypt'', ''''} then Some s else None)"

section \<open>The fields of an entry\<close>

record dec_env =
  de_time :: "string \<Rightarrow> int option"
  de_base64 :: "string \<Rightarrow> nat list \<times> bool"
  de_fqdn :: "string \<Rightarrow> string"

type_synonym 'a handler = "json_token \<Rightarrow> 'a \<Rightarrow> bool \<times> 'a"

definition on_string :: "(string \<Rightarrow> 'a \<Rightarrow> bool \<times> 'a) \<Rightarrow> 'a handler" where
  "on_string f t x = (case t of TStr s \<Rightarrow> f s x | _ \<Rightarrow> (True, x))"

definition on_bool :: "(bool \<Rightarrow> 'a \<Rightarrow> 'a) \<Rightarrow> 'a handler" where
  "on_bool f t x = (case t of TBool b \<Rightarrow> (True, f b x) | _ \<Rightarrow> (True, x))"

text \<open>A number that is no integer of 64 bits is an error.\<close>

definition on_int :: "(int \<Rightarrow> 'a \<Rightarrow> 'a) \<Rightarrow> 'a handler" where
  "on_int f t x =
     (case t of TNum s \<Rightarrow> (case number_int64 s of (i, ok) \<Rightarrow> if ok then (True, f i x) else (False, x)) | _ \<Rightarrow> (True, x))"

text \<open>The handlers by key; the first component says whether there was no error.\<close>

definition logEntryHandlers :: "dec_env \<Rightarrow> (string \<times> qlog_entry handler) list" where
  "logEntryHandlers env =
     [(''CID'', on_string (\<lambda>v e. (True, e\<lparr>en_client_id := v\<rparr>))),
      (''IP'', on_string (\<lambda>v e. (True, if en_ip e = None then e\<lparr>en_ip := map_option unmap (net_ParseIP v)\<rparr> else e))),
      (''T'', on_string (\<lambda>v e. case de_time env v of Some t \<Rightarrow> (True, e\<lparr>en_time := t\<rparr>) | None \<Rightarrow> (False, e\<lparr>en_time := no_time\<rparr>))),
      (''QH'', on_string (\<lambda>v e. (True, e\<lparr>en_host := v\<rparr>))),
      (''QT'', on_string (\<lambda>v e. (True, e\<lparr>en_qtype := v\<rparr>))),
      (''QC'', on_string (\<lambda>v e. (True, e\<lparr>en_qclass := v\<rparr>))),
      (''CP'', on_string (\<lambda>v e. case NewClientProto v of Some p \<Rightarrow> (True, e\<lparr>en_proto := p\<rparr>) | None \<Rightarrow> (False, e\<lparr>en_proto := []\<rparr>))),
      (''Answer'', on_string (\<lambda>v e. case de_base64 env v of (bs, ok) \<Rightarrow> (ok, e\<lparr>en_answer := bs\<rparr>))),
      (''OrigAnswer'', on_string (\<lambda>v e. case de_base64 env v of (bs, ok) \<Rightarrow> (ok, e\<lparr>en_orig := bs\<rparr>))),
      (''ECS'', on_string (\<lambda>v e. (True, e\<lparr>en_ecs := v\<rparr>))),
      (''Cached'', on_bool (\<lambda>v e. e\<lparr>en_cached := v\<rparr>)),
      (''AD'', on_bool (\<lambda>v e. e\<lparr>en_ad := v\<rparr>)),
      (''Upstream'', on_string (\<lambda>v e. (True, e\<lparr>en_upstream := v\<rparr>))),
      (''Elapsed'', on_int (\<lambda>v e. e\<lparr>en_elapsed := v\<rparr>))]"

text \<open>The last rule is changed, and is made first if there is none.\<close>

definition last_rule :: "(log_rule \<Rightarrow> log_rule) \<Rightarrow> log_result \<Rightarrow> log_result" where
  "last_rule f r =
     (let rules = (if lr_rules r = [] then [empty_rule] else lr_rules r)
      in r\<lparr>lr_rules := rules[length rules - 1 := f (rules ! (length rules - 1))]\<rparr>)"

definition resultHandlers :: "(string \<times> log_result handler) list" where
  "resultHandlers =
     [(''IsFiltered'', on_bool (\<lambda>v r. r\<lparr>lr_filtered := v\<rparr>)),
      (''Rule'', on_string (\<lambda>s r. (True, last_rule (\<lambda>g. g\<lparr>lg_text := s\<rparr>) r))),
      (''FilterID'', on_int (\<lambda>i. last_rule (\<lambda>g. g\<lparr>lg_list := i\<rparr>))),
      (''Reason'', on_int (\<lambda>i r. r\<lparr>lr_reason := i\<rparr>)),
      (''ServiceName'', on_string (\<lambda>s r. (True, r\<lparr>lr_service := s\<rparr>))),
      (''CanonName'', on_string (\<lambda>s r. (True, r\<lparr>lr_canon := s\<rparr>)))]"

section \<open>The rules, addresses and rewrites of a result\<close>

text \<open>What a value does to a rule, if anything.\<close>

definition rule_field :: "string \<Rightarrow> json_token \<Rightarrow> (log_rule \<Rightarrow> log_rule) option" where
  "rule_field key v =
     (if key = ''FilterListID'' then (case v of TNum s \<Rightarrow> Some (\<lambda>g. g\<lparr>lg_list := fst (number_int64 s)\<rparr>) | _ \<Rightarrow> None)
      else if key = ''IP'' then
        (case v of TStr s \<Rightarrow> map_option (\<lambda>ip g. g\<lparr>lg_ip := ip\<rparr>) (parse_addr s) | _ \<Rightarrow> None)
      else (case v of TStr s \<Rightarrow> Some (\<lambda>g. g\<lparr>lg_text := s\<rparr>) | _ \<Rightarrow> None))"

text \<open>\<open>i\<close> is the index of the rule.  \<^term>\<open>None\<close> is an index out of range, which is a panic.\<close>

fun decodeResultRuleToken :: "nat \<Rightarrow> json_token list \<Rightarrow> log_rule list \<Rightarrow> (log_rule list \<times> json_token list) option" where
  "decodeResultRuleToken i [] rules = Some (rules, [])"
| "decodeResultRuleToken i (TDelim d # ts) rules =
     (if d = CHR ''}'' then decodeResultRuleToken (i + 1) ts rules
      else if d = CHR '']'' then Some (rules, ts)
      else decodeResultRuleToken i ts rules)"
| "decodeResultRuleToken i (TStr key # ts) rules =
     (if key \<notin> {''FilterListID'', ''IP'', ''Text''} then decodeResultRuleToken i ts rules
      else case ts of
        [] \<Rightarrow> Some (rules, [])
      | v # ts1 \<Rightarrow>
          let rules1 = (if length rules < i + 1 then rules @ [empty_rule] else rules) in
          (case rule_field key v of
             None \<Rightarrow> decodeResultRuleToken i ts1 rules1
           | Some f \<Rightarrow> if i < length rules1 then decodeResultRuleToken i ts1 (rules1[i := f (rules1 ! i)]) else None))"
| "decodeResultRuleToken i (t # ts) rules = Some (rules, ts)"

definition decodeResultRules :: "json_token list \<Rightarrow> log_rule list \<Rightarrow> (log_rule list \<times> json_token list) option" where
  "decodeResultRules ts rules =
     (case ts of
        [] \<Rightarrow> Some (rules, [])
      | TDelim _ # ts1 \<Rightarrow> decodeResultRuleToken 0 ts1 rules
      | _ # ts1 \<Rightarrow> Some (rules, ts1))"

definition add_ptr :: "string \<Rightarrow> log_rewrite option \<Rightarrow> log_rewrite option" where
  "add_ptr v rw =
     Some (case rw of
        None \<Rightarrow> \<lparr>lw_response = Some [(TypePTR, [LJson (JStr v)])], lw_rcode = 0\<rparr>
      | Some r \<Rightarrow> r\<lparr>lw_rcode := 0, lw_response := Some (case lw_response r of
            None \<Rightarrow> [(TypePTR, [LJson (JStr v)])]
          | Some m \<Rightarrow> gm_put TypePTR ((case gm_get m TypePTR of None \<Rightarrow> [] | Some vs \<Rightarrow> vs) @ [LJson (JStr v)]) m)\<rparr>)"

fun decodeResultReverseHosts :: "dec_env \<Rightarrow> json_token list \<Rightarrow> log_rewrite option \<Rightarrow> log_rewrite option \<times> json_token list" where
  "decodeResultReverseHosts env [] rw = (rw, [])"
| "decodeResultReverseHosts env (TDelim d # ts) rw =
     (if d = CHR ''['' then decodeResultReverseHosts env ts rw else (rw, ts))"
| "decodeResultReverseHosts env (TStr v # ts) rw = decodeResultReverseHosts env ts (add_ptr (de_fqdn env v) rw)"
| "decodeResultReverseHosts env (t # ts) rw = decodeResultReverseHosts env ts rw"

fun decodeResultIPList :: "json_token list \<Rightarrow> addr list \<Rightarrow> addr list \<times> json_token list" where
  "decodeResultIPList [] ips = (ips, [])"
| "decodeResultIPList (TDelim d # ts) ips = (if d = CHR ''['' then decodeResultIPList ts ips else (ips, ts))"
| "decodeResultIPList (TStr v # ts) ips =
     decodeResultIPList ts (case parse_addr v of None \<Rightarrow> ips | Some ip \<Rightarrow> ips @ [ip])"
| "decodeResultIPList (t # ts) ips = decodeResultIPList ts ips"

text \<open>Decoding into the map of a response: keys that are no record types are skipped, values that are no lists are empty.\<close>

definition response_of_json :: "json \<Rightarrow> (qtype, log_value list) gomap \<Rightarrow> (qtype, log_value list) gomap option" where
  "response_of_json j m =
     (case j of
        JNull \<Rightarrow> None
      | JObj ms \<Rightarrow> Some (fold (\<lambda>(k, v) m.
          case parse_uint 16 k of None \<Rightarrow> m
          | Some t \<Rightarrow> gm_put t (case v of JArr xs \<Rightarrow> map LJson xs | _ \<Rightarrow> []) m) ms m)
      | _ \<Rightarrow> Some m)"

definition parseDNSRewriteResultIPs :: "(qtype, log_value list) gomap \<Rightarrow> (qtype, log_value list) gomap" where
  "parseDNSRewriteResultIPs m =
     map (\<lambda>(t, vs). (t, if t = TypeA \<or> t = TypeAAAA then
        map (\<lambda>v. LIP (case v of LJson (JStr s) \<Rightarrow> map_option unmap (net_ParseIP s) | _ \<Rightarrow> None)) vs else vs)) m"

text \<open>An incomplete response ends the decoding.\<close>

definition decodeResultDNSRewriteResultKey ::
  "string \<Rightarrow> json_token list \<Rightarrow> log_rewrite option \<Rightarrow> log_rewrite option \<times> json_token list" where
  "decodeResultDNSRewriteResultKey key ts rw =
     (let r = (case rw of None \<Rightarrow> empty_rewrite | Some r \<Rightarrow> r) in
      if key = ''RCode'' then
        (case ts of
           [] \<Rightarrow> (rw, [])
         | v # ts1 \<Rightarrow> (Some (case v of TNum s \<Rightarrow> r\<lparr>lw_rcode := fst (number_int64 s)\<rparr> | _ \<Rightarrow> r), ts1))
      else if key = ''Response'' then
        let m = (case lw_response r of None \<Rightarrow> [] | Some m \<Rightarrow> m) in
        (case parse_json (length ts) ts of
           None \<Rightarrow> (Some (r\<lparr>lw_response := Some (parseDNSRewriteResultIPs m)\<rparr>), [])
         | Some (j, ts1) \<Rightarrow> (Some (r\<lparr>lw_response := map_option parseDNSRewriteResultIPs (response_of_json j m)\<rparr>), ts1))
      else (rw, ts))"

text \<open>A key: \<^term>\<open>Inl True\<close> is the end, \<^term>\<open>Inl False\<close> a token to be passed over.\<close>

definition parseKeyToken :: "json_token \<Rightarrow> bool + string" where
  "parseKeyToken t =
     (case t of
        TDelim d \<Rightarrow> Inl (d = CHR ''}'')
      | TStr key \<Rightarrow> (if key = [] then Inl False else Inr key)
      | _ \<Rightarrow> Inl True)"

text \<open>No reading step lengthens what is left.\<close>

lemma parse_json_length:
  "parse_json n ts = Some (j, ts') \<Longrightarrow> length ts' < length ts"
  "parse_items n ts = Some (js, ts') \<Longrightarrow> length ts' < length ts"
  "parse_members n ts = Some (ms, ts') \<Longrightarrow> length ts' < length ts"
proof (induction n ts and n ts and n ts arbitrary: j ts' and js ts' and ms ts' rule: parse_json_parse_items_parse_members.induct)
qed (auto split: if_splits option.splits, (force dest: less_trans)+)

lemma rewrite_key_length: "decodeResultDNSRewriteResultKey key ts rw = (rw', ts') \<Longrightarrow> length ts' \<le> length ts"
  by (auto simp: decodeResultDNSRewriteResultKey_def Let_def split: if_splits list.splits option.splits
      dest: parse_json_length(1))

function decodeResultDNSRewriteResult :: "json_token list \<Rightarrow> log_rewrite option \<Rightarrow> log_rewrite option \<times> json_token list" where
  "decodeResultDNSRewriteResult [] rw = (rw, [])"
| "decodeResultDNSRewriteResult (t # ts) rw =
     (case parseKeyToken t of
        Inl True \<Rightarrow> (rw, ts)
      | Inl False \<Rightarrow> decodeResultDNSRewriteResult ts rw
      | Inr key \<Rightarrow> (case decodeResultDNSRewriteResultKey key ts rw of (rw', ts') \<Rightarrow> decodeResultDNSRewriteResult ts' rw'))"
  by pat_completeness auto
termination by (relation "measure (\<lambda>(ts, _). length ts)") (auto dest!: rewrite_key_length [OF sym])

text \<open>Addresses of the hosts file in an older form become a rewrite.\<close>

definition translateResult :: "log_result \<Rightarrow> log_result" where
  "translateResult r =
     (if lr_reason r \<noteq> 10 \<or> lr_ips r = [] then r
      else
        let rw = (case lr_rewrite r of None \<Rightarrow> empty_rewrite | Some rw \<Rightarrow> rw);
            m = (case lw_response rw of None \<Rightarrow> [] | Some m \<Rightarrow> m);
            add = (\<lambda>ip m. let t = (if is4 ip then TypeA else TypeAAAA)
                     in gm_put t ((case gm_get m t of None \<Rightarrow> [] | Some vs \<Rightarrow> vs) @ [LIP (Some ip)]) m)
        in r\<lparr>lr_rewrite := Some (rw\<lparr>lw_response := Some (fold add (lr_ips r) m)\<rparr>), lr_ips := []\<rparr>)"

section \<open>Results and entries\<close>

text \<open>The outer option says whether there is such a handler, the inner one is a panic.\<close>

definition resultDecHandler ::
  "dec_env \<Rightarrow> string \<Rightarrow> json_token list \<Rightarrow> log_result \<Rightarrow> (log_result \<times> json_token list) option option" where
  "resultDecHandler env name ts r =
     (if name = ''ReverseHosts'' then
        (case decodeResultReverseHosts env ts (lr_rewrite r) of (rw, ts1) \<Rightarrow> Some (Some (r\<lparr>lr_rewrite := rw\<rparr>, ts1)))
      else if name = ''IPList'' then
        (case decodeResultIPList ts (lr_ips r) of (ips, ts1) \<Rightarrow> Some (Some (r\<lparr>lr_ips := ips\<rparr>, ts1)))
      else if name = ''Rules'' then
        Some (map_option (\<lambda>(rules, ts1). (r\<lparr>lr_rules := rules\<rparr>, ts1)) (decodeResultRules ts (lr_rules r)))
      else if name = ''DNSRewriteResult'' then
        (case decodeResultDNSRewriteResult ts (lr_rewrite r) of (rw, ts1) \<Rightarrow> Some (Some (r\<lparr>lr_rewrite := rw\<rparr>, ts1)))
      else None)"

lemma reverse_hosts_length: "decodeResultReverseHosts env ts rw = (rw', ts') \<Longrightarrow> length ts' \<le> length ts"
  by (induction env ts rw rule: decodeResultReverseHosts.induct) (auto split: if_splits)

lemma ip_list_length: "decodeResultIPList ts ips = (ips', ts') \<Longrightarrow> length ts' \<le> length ts"
  by (induction ts ips rule: decodeResultIPList.induct) (auto split: if_splits)

lemma rule_token_length: "decodeResultRuleToken i ts rules = Some (rules', ts') \<Longrightarrow> length ts' \<le> length ts"
  by (induction i ts rules rule: decodeResultRuleToken.induct)
    (auto simp: Let_def split: if_splits list.splits option.splits intro!: le_SucI)

lemma rewrite_length: "decodeResultDNSRewriteResult ts rw = (rw', ts') \<Longrightarrow> length ts' \<le> length ts"
  by (induction ts rw rule: decodeResultDNSRewriteResult.induct)
    (fastforce split: sum.splits bool.splits prod.splits dest: rewrite_key_length)+

lemma result_handler_length: "resultDecHandler env name ts r = Some (Some (r', ts')) \<Longrightarrow> length ts' \<le> length ts"
  by (auto simp: resultDecHandler_def decodeResultRules_def split: if_splits prod.splits list.splits json_token.splits
      dest: reverse_hosts_length ip_list_length rule_token_length rewrite_length)

text \<open>The result is translated whichever way the decoding ends.\<close>

function decode_result_loop :: "dec_env \<Rightarrow> json_token list \<Rightarrow> log_result \<Rightarrow> (log_result \<times> json_token list) option" where
  "decode_result_loop env [] r = Some (r, [])"
| "decode_result_loop env (t # ts) r =
     (case parseKeyToken t of
        Inl True \<Rightarrow> Some (r, ts)
      | Inl False \<Rightarrow> decode_result_loop env ts r
      | Inr key \<Rightarrow>
          (case resultDecHandler env key ts r of
             Some None \<Rightarrow> None
           | Some (Some (r', ts')) \<Rightarrow> decode_result_loop env ts' r'
           | None \<Rightarrow>
               (case map_of resultHandlers key of
                  None \<Rightarrow> decode_result_loop env ts r
                | Some handle \<Rightarrow>
                    (case ts of
                       [] \<Rightarrow> Some (r, [])
                     | v # ts1 \<Rightarrow>
                         (case handle v r of (ok, r') \<Rightarrow> if ok then decode_result_loop env ts1 r' else Some (r', ts1))))))"
  by pat_completeness auto
termination by (relation "measure (\<lambda>(_, ts, _). length ts)") (auto dest!: result_handler_length)

definition decodeResult :: "dec_env \<Rightarrow> json_token list \<Rightarrow> log_result \<Rightarrow> (log_result \<times> json_token list) option" where
  "decodeResult env ts r = map_option (map_prod translateResult id) (decode_result_loop env ts r)"

lemma result_loop_length: "decode_result_loop env ts r = Some (r', ts') \<Longrightarrow> length ts' \<le> length ts"
  by (induction env ts r rule: decode_result_loop.induct)
    (fastforce split: sum.splits bool.splits option.splits prod.splits list.splits if_splits dest: result_handler_length)+

lemma result_length: "decodeResult env ts r = Some (r', ts') \<Longrightarrow> length ts' \<le> length ts"
  by (auto simp: decodeResult_def dest: result_loop_length)

function decode_entry_loop :: "dec_env \<Rightarrow> json_token list \<Rightarrow> qlog_entry \<Rightarrow> qlog_entry option" where
  "decode_entry_loop env [] e = Some e"
| "decode_entry_loop env (t # ts) e =
     (case t of
        TDelim _ \<Rightarrow> decode_entry_loop env ts e
      | TStr key \<Rightarrow>
          if key = ''Result'' then
            (case decodeResult env ts (en_result e) of
               None \<Rightarrow> None
             | Some (r, ts') \<Rightarrow> decode_entry_loop env ts' (e\<lparr>en_result := r\<rparr>))
          else
            (case map_of (logEntryHandlers env) key of
               None \<Rightarrow> decode_entry_loop env ts e
             | Some handle \<Rightarrow>
                 (case ts of
                    [] \<Rightarrow> Some e
                  | v # ts1 \<Rightarrow> (case handle v e of (ok, e') \<Rightarrow> if ok then decode_entry_loop env ts1 e' else Some e')))
      | _ \<Rightarrow> Some e)"
  by pat_completeness auto
termination by (relation "measure (\<lambda>(_, ts, _). length ts)") (auto dest!: result_length)

definition decodeLogEntry :: "dec_env \<Rightarrow> json_token list \<Rightarrow> qlog_entry option" where
  "decodeLogEntry env ts = decode_entry_loop env ts empty_entry"

end
