(* ===== verification/QueryLog.thy ===== *)
theory QueryLog
  imports QLogFile QLogDecode DnsProcess AghAlg
begin

text \<open>
  The query log (package \<^verbatim>\<open>internal/querylog\<close>): entries are collected in a ring buffer, flushed to
  a file, rotated (\<^verbatim>\<open>qlog.go\<close>, \<^verbatim>\<open>querylogfile.go\<close>), searched in memory and in the
  files (\<^verbatim>\<open>search.go\<close>, \<^verbatim>\<open>searchparams.go\<close>, \<^verbatim>\<open>searchcriterion.go\<close>), and configured by handlers
  (\<^verbatim>\<open>http.go\<close>).

  Arguments are the ring buffer of the container library, the JSON encoder and tokenizer, the search for clients, the
  engine for ignored hosts, and whether operations on files succeed.  A panic is \<^term>\<open>None\<close>.
\<close>

section \<open>The state\<close>

record 'b ring_ops =
  rb_push :: "qlog_entry \<Rightarrow> 'b \<Rightarrow> 'b"
  rb_items :: "'b \<Rightarrow> qlog_entry list"
  rb_clear :: "'b \<Rightarrow> 'b"

record ql_conf =
  lc_ignored :: "string list"
  lc_ivl :: int
  lc_mem :: nat
  lc_enabled :: bool
  lc_file_enabled :: bool
  lc_anon :: bool

text \<open>The log file, that of the previous interval, and whether addresses are anonymized.\<close>

record 'b query_log =
  ql_conf :: ql_conf
  ql_buffer :: 'b
  ql_pending :: bool
  ql_file :: "string option"
  ql_old :: "string option"
  ql_anonymize :: bool

record ql_env =
  qe_dec :: dec_env
  qe_tokens :: "string \<Rightarrow> json_token list"
  qe_encode :: "qlog_entry \<Rightarrow> string option"
  qe_find :: "string list \<Rightarrow> ql_client option option"
  qe_has :: "string list \<Rightarrow> string \<Rightarrow> bool"
  qe_open :: bool
  qe_write :: bool
  qe_rename :: bool
  qe_remove :: bool
  qe_remove_old :: bool
  qe_type_string :: "nat \<Rightarrow> string"
  qe_class_string :: "nat \<Rightarrow> string"
  qe_ascii :: "string \<Rightarrow> string option"

definition ql_hour :: int where "ql_hour = 3600000000000"
definition ql_day :: int where "ql_day = 24 * ql_hour"

definition ql_checkInterval :: "int \<Rightarrow> bool" where
  "ql_checkInterval ivl \<longleftrightarrow> ivl = ql_day div 4 \<or> ivl = ql_day \<or> ivl = ql_day * 7 \<or> ivl = ql_day * 30 \<or> ivl = ql_day * 90"

datatype ql_error = QLLessThanHour | QLMoreThanYear | QLNoQuestion | QLManyQuestions | QLNoHost | QLNoClientIP
  | QLNothing | QLEncode | QLCreate | QLWrite | QLRename | QLBadIgnored | QLEnabledNull | QLAnonNull | QLUnsupported
  | QLBadTime | QLBadStatus

definition ql_validateIvl :: "int \<Rightarrow> ql_error option" where
  "ql_validateIvl ivl =
     (if ivl < ql_hour then Some QLLessThanHour else if ql_day * 365 < ivl then Some QLMoreThanYear else None)"

text \<open>\<open>ring\<close> makes a ring buffer with room for a number of entries.\<close>

definition newQueryLog :: "(nat \<Rightarrow> 'b) \<Rightarrow> bool \<Rightarrow> ql_conf \<Rightarrow> string option \<Rightarrow> string option \<Rightarrow> (ql_error, 'b query_log) result" where
  "newQueryLog ring anonymize conf file old =
     (case ql_validateIvl (lc_ivl conf) of
        Some e \<Rightarrow> Inl e
      | None \<Rightarrow> Inr \<lparr>ql_conf = conf, ql_buffer = ring (if lc_mem conf = 0 then 1 else lc_mem conf), ql_pending = False,
                   ql_file = file, ql_old = old, ql_anonymize = anonymize\<rparr>)"

section \<open>Adding entries\<close>

text \<open>The questions are those of the message, the answers are packed messages.\<close>

record add_params =
  ap_questions :: "(string \<times> nat \<times> nat) list option"
  ap_ecs :: "string option"
  ap_answer :: "nat list option"
  ap_orig :: "nat list option"
  ap_result :: "log_result option"
  ap_client_id :: string
  ap_upstream :: string
  ap_proto :: string
  ap_ip :: "addr option"
  ap_elapsed :: int
  ap_cached :: bool
  ap_ad :: bool

definition ap_validate :: "add_params \<Rightarrow> ql_error option" where
  "ap_validate p =
     (case ap_questions p of
        None \<Rightarrow> Some QLNoQuestion
      | Some [(name, _, _)] \<Rightarrow>
          if name = [] then Some QLNoHost else if ap_ip p = None then Some QLNoClientIP else None
      | Some _ \<Rightarrow> Some QLManyQuestions)"

text \<open>The parameters are valid here.\<close>

definition newLogEntry :: "ql_env \<Rightarrow> int \<Rightarrow> add_params \<Rightarrow> qlog_entry" where
  "newLogEntry env now p =
     (case hd (the (ap_questions p)) of
        (name, qt, qc) \<Rightarrow>
          \<lparr>en_client = None, en_time = now, en_host = NormalizeDomain name, en_qtype = qe_type_string env qt,
           en_qclass = qe_class_string env qc, en_ecs = (case ap_ecs p of None \<Rightarrow> [] | Some s \<Rightarrow> s),
           en_client_id = ap_client_id p, en_proto = ap_proto p, en_upstream = ap_upstream p,
           en_answer = (case ap_answer p of None \<Rightarrow> [] | Some bs \<Rightarrow> bs), en_orig = (case ap_orig p of None \<Rightarrow> [] | Some bs \<Rightarrow> bs),
           en_ip = ap_ip p, en_result = (case ap_result p of None \<Rightarrow> empty_log_result | Some r \<Rightarrow> r),
           en_elapsed = ap_elapsed p, en_cached = ap_cached p, en_ad = ap_ad p\<rparr>)"

text \<open>The flag says whether a goroutine that flushes the buffer is started.\<close>

definition ql_Add :: "ql_env \<Rightarrow> 'b ring_ops \<Rightarrow> int \<Rightarrow> add_params \<Rightarrow> 'b query_log \<Rightarrow> bool \<times> 'b query_log" where
  "ql_Add env ops now p l =
     (if \<not> lc_enabled (ql_conf l) \<or> ap_validate p \<noteq> None then (False, l)
      else
        let buf = rb_push ops (newLogEntry env now p) (ql_buffer l);
            flush = (\<not> ql_pending l \<and> lc_file_enabled (ql_conf l) \<and> lc_mem (ql_conf l) \<le> length (rb_items ops buf))
        in (flush, l\<lparr>ql_buffer := buf, ql_pending := ql_pending l \<or> flush\<rparr>))"

definition ql_isIgnored :: "ql_env \<Rightarrow> string \<Rightarrow> 'b query_log \<Rightarrow> bool" where
  "ql_isIgnored env host l = qe_has env (lc_ignored (ql_conf l)) host"

definition ql_ShouldLog :: "ql_env \<Rightarrow> string \<Rightarrow> string list \<Rightarrow> 'b query_log \<Rightarrow> bool" where
  "ql_ShouldLog env host ids l \<longleftrightarrow>
     (case qe_find env ids of Some (Some c) \<Rightarrow> \<not> qc_ignore c | _ \<Rightarrow> True) \<and> \<not> ql_isIgnored env host l"

section \<open>The files\<close>

text \<open>The buffer is kept when an entry cannot be encoded, and is cleared otherwise.\<close>

definition encodeEntries :: "ql_env \<Rightarrow> 'b ring_ops \<Rightarrow> 'b query_log \<Rightarrow> (ql_error, string) result \<times> 'b query_log" where
  "encodeEntries env ops l =
     (let es = rb_items ops (ql_buffer l) in
      if es = [] then (Inl QLNothing, l)
      else case all_some (map (qe_encode env) es) of
        None \<Rightarrow> (Inl QLEncode, l)
      | Some ls \<Rightarrow> (Inr (concat (map (\<lambda>s. s @ [nl]) ls)), l\<lparr>ql_buffer := rb_clear ops (ql_buffer l), ql_pending := False\<rparr>))"

definition flushToFile :: "ql_env \<Rightarrow> string \<Rightarrow> 'b query_log \<Rightarrow> ql_error option \<times> 'b query_log" where
  "flushToFile env b l =
     (if \<not> qe_open env then (Some QLCreate, l)
      else
        let old = (case ql_file l of None \<Rightarrow> [] | Some s \<Rightarrow> s) in
        if \<not> qe_write env then (Some QLWrite, l\<lparr>ql_file := Some old\<rparr>) else (None, l\<lparr>ql_file := Some (old @ b)\<rparr>))"

definition flushLogBuffer :: "ql_env \<Rightarrow> 'b ring_ops \<Rightarrow> 'b query_log \<Rightarrow> ql_error option \<times> 'b query_log" where
  "flushLogBuffer env ops l =
     (case encodeEntries env ops l of
        (Inl e, l1) \<Rightarrow> (Some e, l1)
      | (Inr b, l1) \<Rightarrow> flushToFile env b l1)"

definition ql_Shutdown :: "ql_env \<Rightarrow> 'b ring_ops \<Rightarrow> 'b query_log \<Rightarrow> ql_error option \<times> 'b query_log" where
  "ql_Shutdown env ops l = (if lc_file_enabled (ql_conf l) then flushLogBuffer env ops l else (None, l))"

definition ql_clear :: "ql_env \<Rightarrow> 'b ring_ops \<Rightarrow> 'b query_log \<Rightarrow> 'b query_log" where
  "ql_clear env ops l =
     l\<lparr>ql_buffer := rb_clear ops (ql_buffer l), ql_pending := False,
       ql_old := (if qe_remove_old env then None else ql_old l), ql_file := (if qe_remove env then None else ql_file l)\<rparr>"

definition rotate :: "ql_env \<Rightarrow> 'b query_log \<Rightarrow> ql_error option \<times> 'b query_log" where
  "rotate env l =
     (case ql_file l of
        None \<Rightarrow> (None, l)
      | Some s \<Rightarrow> if qe_rename env then (None, l\<lparr>ql_file := None, ql_old := Some s\<rparr>) else (Some QLRename, l))"

text \<open>The inner option is a file that exists but has no time that can be read.\<close>

definition readFileFirstTimeValue :: "ql_env \<Rightarrow> 'b query_log \<Rightarrow> int option option" where
  "readFileFirstTimeValue env l =
     (case ql_file l of
        None \<Rightarrow> None
      | Some s \<Rightarrow>
          if s = [] then Some None
          else Some (de_time (qe_dec env) (readJSONValue (take 512 s) [CHR 0x22, CHR ''T'', CHR 0x22, CHR '':'', CHR 0x22])))"

definition checkAndRotate :: "ql_env \<Rightarrow> int \<Rightarrow> 'b query_log \<Rightarrow> 'b query_log" where
  "checkAndRotate env now l =
     (let check = (\<lambda>oldest. if now < oldest + lc_ivl (ql_conf l) then l else snd (rotate env l)) in
      case readFileFirstTimeValue env l of
        None \<Rightarrow> check no_time
      | Some None \<Rightarrow> l
      | Some (Some t) \<Rightarrow> check t)"

section \<open>Criteria\<close>

datatype criterion_type = ctTerm | ctFilteringStatus

record search_criterion =
  sc_value :: string
  sc_ascii :: string
  sc_type :: criterion_type
  sc_strict :: bool

definition equal_fold :: "string \<Rightarrow> string \<Rightarrow> bool" where
  "equal_fold s t \<longleftrightarrow> to_lower s = to_lower t"

definition contains_fold :: "string \<Rightarrow> string \<Rightarrow> bool" where
  "contains_fold s t \<longleftrightarrow> index_of (to_lower s) (to_lower t) \<noteq> None"

definition ctDomainOrClientCaseStrict :: "string \<Rightarrow> string \<Rightarrow> string \<Rightarrow> string \<Rightarrow> string \<Rightarrow> string \<Rightarrow> bool" where
  "ctDomainOrClientCaseStrict trm asciiTerm clientID name host ip \<longleftrightarrow>
     equal_fold host trm \<or> (asciiTerm \<noteq> [] \<and> equal_fold host asciiTerm) \<or> equal_fold clientID trm \<or> equal_fold ip trm \<or>
     equal_fold name trm"

definition ctDomainOrClientCaseNonStrict :: "string \<Rightarrow> string \<Rightarrow> string \<Rightarrow> string \<Rightarrow> string \<Rightarrow> string \<Rightarrow> bool" where
  "ctDomainOrClientCaseNonStrict trm asciiTerm clientID name host ip \<longleftrightarrow>
     contains_fold clientID trm \<or> contains_fold host trm \<or> (asciiTerm \<noteq> [] \<and> contains_fold host asciiTerm) \<or>
     contains_fold ip trm \<or> contains_fold name trm"

definition term_match :: "search_criterion \<Rightarrow> string \<Rightarrow> string \<Rightarrow> string \<Rightarrow> string \<Rightarrow> bool" where
  "term_match c clientID name host ip =
     (if sc_strict c then ctDomainOrClientCaseStrict (sc_value c) (sc_ascii c) clientID name host ip
      else ctDomainOrClientCaseNonStrict (sc_value c) (sc_ascii c) clientID name host ip)"

definition client_name :: "ql_client option \<Rightarrow> string" where
  "client_name c = (case c of None \<Rightarrow> [] | Some c \<Rightarrow> qc_name c)"

definition ip_text :: "addr option \<Rightarrow> string" where
  "ip_text ip = (case ip of None \<Rightarrow> ''<nil>'' | Some a \<Rightarrow> addr_string a)"

definition ctDomainOrClientCase :: "search_criterion \<Rightarrow> qlog_entry \<Rightarrow> bool" where
  "ctDomainOrClientCase c e = term_match c (en_client_id e) (client_name (en_client e)) (en_host e) (ip_text (en_ip e))"

text \<open>The number of a reason.\<close>

fun reason_code :: "reason \<Rightarrow> int" where
  "reason_code NotFilteredNotFound = 0" | "reason_code NotFilteredAllowList = 1" | "reason_code NotFilteredError = 2"
| "reason_code FilteredBlockList = 3" | "reason_code FilteredSafeBrowsing = 4" | "reason_code FilteredParental = 5"
| "reason_code FilteredInvalid = 6" | "reason_code FilteredSafeSearch = 7" | "reason_code FilteredBlockedService = 8"
| "reason_code Rewritten = 9" | "reason_code RewrittenAutoHosts = 10" | "reason_code RewrittenRule = 11"

definition code_in :: "int \<Rightarrow> reason list \<Rightarrow> bool" where
  "code_in i reasons \<longleftrightarrow> i \<in> set (map reason_code reasons)"

definition isFilteredWithReason :: "string \<Rightarrow> int \<Rightarrow> bool" where
  "isFilteredWithReason v reason =
     (if v = ''blocked'' then code_in reason [FilteredBlockList, FilteredBlockedService]
      else if v = ''blocked_parental'' then reason = reason_code FilteredParental
      else if v = ''blocked_safebrowsing'' then reason = reason_code FilteredSafeBrowsing
      else if v = ''blocked_services'' then reason = reason_code FilteredBlockedService
      else reason = reason_code FilteredSafeSearch)"

definition ctFilteringStatusCase :: "string \<Rightarrow> int \<Rightarrow> bool \<Rightarrow> bool" where
  "ctFilteringStatusCase v reason isFiltered =
     (if v = ''all'' then True
      else if v = ''filtered'' then
        isFiltered \<or> code_in reason [NotFilteredAllowList, Rewritten, RewrittenAutoHosts, RewrittenRule]
      else if v \<in> {''blocked'', ''blocked_parental'', ''blocked_safebrowsing'', ''blocked_services'', ''safe_search''} then
        isFiltered \<and> isFilteredWithReason v reason
      else if v = ''whitelisted'' then reason = reason_code NotFilteredAllowList
      else if v = ''rewritten'' then code_in reason [Rewritten, RewrittenAutoHosts, RewrittenRule]
      else if v = ''processed'' then \<not> code_in reason [FilteredBlockList, FilteredBlockedService, NotFilteredAllowList]
      else False)"

definition criterion_match :: "search_criterion \<Rightarrow> qlog_entry \<Rightarrow> bool" where
  "criterion_match c e =
     (case sc_type c of
        ctTerm \<Rightarrow> ctDomainOrClientCase c e
      | ctFilteringStatus \<Rightarrow> ctFilteringStatusCase (sc_value c) (lr_reason (en_result e)) (lr_filtered (en_result e)))"

text \<open>The time is absent when none is requested; limits are integers of 64 bits.\<close>

record search_params =
  sp_older :: "int option"
  sp_criteria :: "search_criterion list"
  sp_offset :: int
  sp_limit :: int
  sp_max :: int

definition newSearchParams :: search_params where
  "newSearchParams = \<lparr>sp_older = None, sp_criteria = [], sp_offset = 0, sp_limit = 500, sp_max = 50000\<rparr>"

definition params_match :: "search_params \<Rightarrow> qlog_entry \<Rightarrow> bool" where
  "params_match p e \<longleftrightarrow>
     (case sp_older p of None \<Rightarrow> True | Some t \<Rightarrow> en_time e < t) \<and> list_all (\<lambda>c. criterion_match c e) (sp_criteria p)"

section \<open>Searching\<close>

text \<open>The clients found in a search are remembered.  The flag tells whether the client could be looked up.\<close>

type_synonym client_cache = "string \<times> string \<rightharpoonup> ql_client option"

definition query_client :: "ql_env \<Rightarrow> string \<Rightarrow> string \<Rightarrow> client_cache \<Rightarrow> ql_client option \<times> client_cache" where
  "query_client env clientID ip cache =
     (case cache (clientID, ip) of
        Some c \<Rightarrow> (c, cache)
      | None \<Rightarrow>
          (case qe_find env ((if clientID = [] then [] else [clientID]) @ (if ip = [] then [] else [ip])) of
             None \<Rightarrow> (None, cache)
           | Some c \<Rightarrow> (c, cache((clientID, ip) \<mapsto> c))))"

definition json_key :: "string \<Rightarrow> string" where
  "json_key k = CHR 0x22 # k @ [CHR 0x22, CHR '':'', CHR 0x22]"

definition criterion_quickMatch :: "ql_env \<Rightarrow> search_criterion \<Rightarrow> string \<Rightarrow> client_cache \<Rightarrow> bool \<times> client_cache" where
  "criterion_quickMatch env c line cache =
     (case sc_type c of
        ctTerm \<Rightarrow>
          (let host = readJSONValue line (json_key ''QH''); ip = readJSONValue line (json_key ''IP'');
               clientID = readJSONValue line (json_key ''CID'')
           in case query_client env clientID ip cache of (cli, cache1) \<Rightarrow> (term_match c clientID (client_name cli) host ip, cache1))
      | ctFilteringStatus \<Rightarrow> (True, cache))"

fun quickMatch :: "ql_env \<Rightarrow> search_criterion list \<Rightarrow> string \<Rightarrow> client_cache \<Rightarrow> bool \<times> client_cache" where
  "quickMatch env [] line cache = (True, cache)"
| "quickMatch env (c # cs) line cache =
     (case criterion_quickMatch env c line cache of
        (ok, cache1) \<Rightarrow> if ok then quickMatch env cs line cache1 else (False, cache1))"

text \<open>The entries from the newest on.\<close>

fun memory_loop :: "ql_env \<Rightarrow> search_params \<Rightarrow> qlog_entry list \<Rightarrow> client_cache \<Rightarrow> qlog_entry list \<times> client_cache" where
  "memory_loop env p [] cache = ([], cache)"
| "memory_loop env p (e # es) cache =
     (case query_client env (en_client_id e) (ip_text (en_ip e)) cache of
        (cli, cache1) \<Rightarrow>
          let e1 = e\<lparr>en_client := cli\<rparr> in
          (case memory_loop env p es cache1 of
             (found, cache2) \<Rightarrow> (if params_match p e1 then e1 # found else found, cache2)))"

definition searchMemory ::
  "ql_env \<Rightarrow> 'b ring_ops \<Rightarrow> search_params \<Rightarrow> 'b query_log \<Rightarrow> client_cache \<Rightarrow> qlog_entry list \<times> client_cache" where
  "searchMemory env ops p l cache =
     (if lc_mem (ql_conf l) = 0 then ([], cache) else memory_loop env p (rev (rb_items ops (ql_buffer l))) cache)"

text \<open>
  The next entry of the files: the outer option is a panic, the sum an error of the reader.  An entry that does not match
  is none; with it comes its time, which is zero for an entry of an ignored host or client.
\<close>

definition readNextEntry ::
  "ql_env \<Rightarrow> 'b query_log \<Rightarrow> search_params \<Rightarrow> qlog_reader \<Rightarrow> client_cache \<Rightarrow>
   ((qlog_error, qlog_entry option \<times> int) result \<times> qlog_reader \<times> client_cache) option" where
  "readNextEntry env l p r cache =
     (case reader_ReadNext r of
        (Inl err, r1) \<Rightarrow> Some (Inl err, r1, cache)
      | (Inr line, r1) \<Rightarrow>
          (case quickMatch env (sp_criteria p) line cache of
             (quick, cache1) \<Rightarrow>
               if \<not> quick then Some (Inr (None, readQLogTimestamp (de_time (qe_dec env)) line), r1, cache1)
               else
                 (case decodeLogEntry (qe_dec env) (qe_tokens env line) of
                    None \<Rightarrow> None
                  | Some e \<Rightarrow>
                      if ql_isIgnored env (en_host e) l then Some (Inr (None, 0), r1, cache1)
                      else
                        (case query_client env (en_client_id e) (ip_text (en_ip e)) cache1 of
                           (cli, cache2) \<Rightarrow>
                             let e1 = e\<lparr>en_client := cli\<rparr> in
                             if (case cli of None \<Rightarrow> False | Some c \<Rightarrow> qc_ignore c) then Some (Inr (None, 0), r1, cache2)
                             else Some (Inr (if params_match p e1 then Some e1 else None, en_time e1), r1, cache2)))))"

text \<open>What is left to be read grows shorter with each line.\<close>

definition left_in :: "qlog_file list \<Rightarrow> nat \<Rightarrow> nat" where
  "left_in fs cur = (case cur of 0 \<Rightarrow> 0 | Suc c \<Rightarrow> qf_position (fs ! c) + (\<Sum>i < c. length (qf_data (fs ! i))))"

definition left_to_read :: "qlog_reader \<Rightarrow> nat" where
  "left_to_read r = left_in (qr_files r) (qr_current r)"

lemma scan_back_le: "scan_back buf n \<le> n"
  by (induction n) auto

lemma init_start: "snd (initBuffer p q) = q\<lparr>qf_start := qf_start (snd (initBuffer p q)), qf_buffer := qf_buffer (snd (initBuffer p q))\<rparr>"
  "qf_start (snd (initBuffer p q)) \<le> p"
  by (simp_all add: initBuffer_def Let_def)

lemma next_line_le:
  assumes "readNextLine p q = (Inr (line, lineIdx), q')"
  shows "lineIdx \<le> p" "qf_data q' = qf_data q"
proof -
  let ?renew = "qf_buffer q = None \<or> int p - int (qf_start q) < int maxEntrySize \<and> qf_start q \<noteq> 0"
  obtain res q1 where q1: "(if ?renew then initBuffer p q else (Inr (), q)) = (res, q1)" by fastforce
  have "q1 = (if ?renew then snd (initBuffer p q) else q)" using q1 by (auto split: if_splits)
  moreover have "qf_data (snd (initBuffer p q)) = qf_data q" by (simp add: initBuffer_def Let_def)
  ultimately have st: "qf_start q1 \<le> p" "qf_data q1 = qf_data q" using init_start(2) [of p q] by auto
  from assms obtain buf where "q' = q1" "lineIdx = qf_start q1 + scan_back buf (p - qf_start q1)"
    unfolding readNextLine_def Let_def q1 by (auto split: sum.splits option.splits if_splits)
  with st scan_back_le [of buf "p - qf_start q1"] show "lineIdx \<le> p" "qf_data q' = qf_data q" by auto
qed

lemma file_next_less:
  assumes "file_ReadNext q = (Inr line, q')"
  shows "qf_position q' < qf_position q" "qf_data q' = qf_data q"
proof -
  obtain lineIdx q1 where "readNextLine (qf_position q) q = (Inr (line, lineIdx), q1)" "q' = q1\<lparr>qf_position := lineIdx - 1\<rparr>"
    "qf_position q \<noteq> 0"
    using assms unfolding file_ReadNext_def by (simp split: if_splits sum.splits prod.splits)
  with next_line_le show "qf_position q' < qf_position q" "qf_data q' = qf_data q" by fastforce+
qed

lemma file_next_data: "qf_data (snd (file_ReadNext q)) = qf_data q"
proof (cases "qf_position q = 0")
  case False
  have "qf_data (snd (readNextLine p q)) = qf_data q" for p
    by (simp add: readNextLine_def initBuffer_def Let_def split: option.splits sum.splits prod.splits)
  with False show ?thesis
    by (auto simp: file_ReadNext_def split: sum.splits prod.splits) (metis snd_conv)+
qed (simp add: file_ReadNext_def)

lemma read_loop_less: "read_loop cur fs = (Inr line, fs', cur') \<Longrightarrow> left_in fs' cur' < left_in fs cur"
proof (induction cur arbitrary: fs)
  case (Suc c)
  then have c: "c < length fs" by (auto split: if_splits)
  obtain res q where next_file: "file_ReadNext (fs ! c) = (res, q)" by fastforce
  show ?case
  proof (cases res)
    case (Inr l)
    with Suc.prems c next_file file_next_less [of "fs ! c" l q] show ?thesis by (auto simp: left_in_def)
  next
    case (Inl e)
    show ?thesis
    proof (cases c)
      case 0
      with Inl Suc.prems c next_file show ?thesis by simp
    next
      case (Suc j)
      let ?fs = "(fs[c := q])[j := file_SeekStart (fs ! j)]"
      have "read_loop (Suc c) fs = read_loop c ?fs"
        using c by (subst read_loop.simps(2)) (simp only: Suc next_file [unfolded Suc] Inl prod.case sum.case nat.case not_le [symmetric] if_False)
      with Suc.IH Suc.prems have "left_in fs' cur' < left_in ?fs c" by simp
      also have "\<dots> \<le> left_in fs (Suc c)"
      proof -
        have "(\<Sum>i < j. length (qf_data (?fs ! i))) = (\<Sum>i < j. length (qf_data (fs ! i)))"
          by (rule sum.cong) (use Suc in auto)
        then show ?thesis using c Suc by (simp add: left_in_def file_SeekStart_def)
      qed
      finally show ?thesis .
    qed
  qed
qed simp

lemma reader_next_less: "reader_ReadNext r = (Inr line, r') \<Longrightarrow> left_to_read r' < left_to_read r"
  using read_loop_less [of "qr_current r" "qr_files r"]
  by (auto simp: reader_ReadNext_def left_to_read_def split: if_splits prod.splits)

lemma next_entry_less: "readNextEntry env l p r cache = Some (Inr x, r', cache') \<Longrightarrow> left_to_read r' < left_to_read r"
  by (auto simp: readNextEntry_def Let_def dest: reader_next_less split: sum.splits prod.splits option.splits if_splits)

text \<open>The reader gives no error but the end of the files.\<close>

function read_entries ::
  "ql_env \<Rightarrow> 'b query_log \<Rightarrow> search_params \<Rightarrow> int \<Rightarrow> int \<Rightarrow> qlog_reader \<Rightarrow> client_cache \<Rightarrow> qlog_entry list \<Rightarrow> int \<Rightarrow>
   (qlog_entry list \<times> int \<times> int) option" where
  "read_entries env l p totalLimit count r cache entries oldestNano =
     (if \<not> (count < sp_max p \<or> sp_max p \<le> 0) then Some (entries, oldestNano, count)
      else case readNextEntry env l p r cache of
        None \<Rightarrow> None
      | Some (Inl _, _, _) \<Rightarrow> Some (entries, 0, count)
      | Some (Inr (ent, ts), r1, cache1) \<Rightarrow>
          (case ent of
             None \<Rightarrow> read_entries env l p totalLimit (count + 1) r1 cache1 entries ts
           | Some e \<Rightarrow>
               if int (length (entries @ [e])) = totalLimit then Some (entries @ [e], ts, count + 1)
               else read_entries env l p totalLimit (count + 1) r1 cache1 (entries @ [e]) ts))"
  by pat_completeness auto
termination
  by (relation "measure (\<lambda>(_, _, _, _, _, r, _). left_to_read r)") (auto dest!: next_entry_less)

declare read_entries.simps [simp del]

definition readEntries ::
  "ql_env \<Rightarrow> 'b query_log \<Rightarrow> search_params \<Rightarrow> qlog_reader \<Rightarrow> client_cache \<Rightarrow> int \<Rightarrow> (qlog_entry list \<times> int \<times> int) option" where
  "readEntries env l p r cache totalLimit = read_entries env l p totalLimit 0 r cache [] 0"

definition seekRecord :: "ql_env \<Rightarrow> int option \<Rightarrow> qlog_reader \<Rightarrow> qlog_error option \<times> qlog_reader" where
  "seekRecord env olderThan r =
     (case olderThan of
        None \<Rightarrow> (None, reader_SeekStart r)
      | Some t \<Rightarrow>
          (case reader_seekTS (de_time (qe_dec env)) t r of
             (Some e, r1) \<Rightarrow> (Some e, r1)
           | (None, r1) \<Rightarrow> (case reader_ReadNext r1 of (Inl e, r2) \<Rightarrow> (Some e, r2) | (Inr _, r2) \<Rightarrow> (None, r2))))"

text \<open>There is no reader when the record cannot be found.\<close>

definition setQLogReader :: "ql_env \<Rightarrow> int option \<Rightarrow> 'b query_log \<Rightarrow> qlog_reader option" where
  "setQLogReader env olderThan l =
     (case seekRecord env olderThan (newQLogReader [ql_old l, ql_file l]) of
        (None, r) \<Rightarrow> Some r
      | (Some _, _) \<Rightarrow> None)"

definition wrap64 :: "int \<Rightarrow> int" where
  "wrap64 i = sint (word_of_int i :: 64 word)"

definition searchFiles ::
  "ql_env \<Rightarrow> search_params \<Rightarrow> 'b query_log \<Rightarrow> client_cache \<Rightarrow> (qlog_entry list \<times> int option \<times> int) option" where
  "searchFiles env p l cache =
     (case setQLogReader env (sp_older p) l of
        None \<Rightarrow> Some ([], None, 0)
      | Some r \<Rightarrow>
          map_option (\<lambda>(entries, oldest, count). (entries, if oldest = 0 then None else Some oldest, count))
            (readEntries env l p r cache (wrap64 (sp_offset p + sp_limit p))))"

definition time_compare :: "qlog_entry \<Rightarrow> qlog_entry \<Rightarrow> int" where
  "time_compare a b = - cmp_ord (en_time a) (en_time b)"

text \<open>Cutting a slice at a negative index is a panic.\<close>

definition ql_search :: "ql_env \<Rightarrow> 'b ring_ops \<Rightarrow> search_params \<Rightarrow> 'b query_log \<Rightarrow> (qlog_entry list \<times> int option) option" where
  "ql_search env ops p l =
     (if sp_limit p = 0 then Some ([], None)
      else case searchMemory env ops p l Map.empty of
        (memoryEntries, cache) \<Rightarrow>
          (case searchFiles env p l cache of
             None \<Rightarrow> None
           | Some (fileEntries, oldest, _) \<Rightarrow>
               let totalLimit = wrap64 (sp_offset p + sp_limit p); es = memoryEntries @ fileEntries in
               if totalLimit < int (length es) \<and> totalLimit < 0 then None
               else
                 let es1 = (if totalLimit < int (length es) then take (nat totalLimit) es else es);
                     es2 = sort_cmp time_compare es1;
                     (es3, oldest1) = (if 0 < sp_offset p
                        then if sp_offset p < int (length es2) then (drop (nat (sp_offset p)) es2, oldest) else ([], None)
                        else (es2, oldest))
                 in Some (es3, if es3 = [] then oldest1 else Some (en_time (last es3)))))"

section \<open>Handlers\<close>

definition getDoubleQuotesEnclosedValue :: "string \<Rightarrow> bool \<times> string" where
  "getDoubleQuotesEnclosedValue t =
     (if 2 \<le> length t \<and> hd t = CHR 0x22 \<and> last t = CHR 0x22 then (True, butlast (tl t)) else (False, t))"

definition filteringStatusValues :: "string list" where
  "filteringStatusValues = [''all'', ''filtered'', ''blocked'', ''blocked_services'', ''blocked_safebrowsing'',
     ''blocked_parental'', ''whitelisted'', ''rewritten'', ''safe_search'', ''processed'']"

definition parseSearchCriterion ::
  "ql_env \<Rightarrow> (string \<Rightarrow> string) \<Rightarrow> string \<Rightarrow> criterion_type \<Rightarrow> (ql_error, search_criterion option) result" where
  "parseSearchCriterion env q name ct =
     (let v = q name in
      if v = [] then Inr None
      else case getDoubleQuotesEnclosedValue v of
        (strict, val) \<Rightarrow>
          (case ct of
             ctTerm \<Rightarrow>
               (let ascii = (case qe_ascii env (to_lower val) of
                      None \<Rightarrow> [] | Some a \<Rightarrow> if a = to_lower val then [] else a)
                in Inr (Some \<lparr>sc_value = val, sc_ascii = ascii, sc_type = ct, sc_strict = strict\<rparr>))
           | ctFilteringStatus \<Rightarrow>
               if val \<in> set filteringStatusValues
               then Inr (Some \<lparr>sc_value = val, sc_ascii = [], sc_type = ct, sc_strict = strict\<rparr>)
               else Inl QLBadStatus))"

text \<open>The parameters of a query; a number may have a sign.\<close>

definition parse_int64 :: "string \<Rightarrow> int option" where
  "parse_int64 s =
     (case number_int64 (if has_prefix s ''+'' \<and> \<not> has_prefix s ''+-'' then drop 1 s else s) of
        (i, ok) \<Rightarrow> if ok then Some i else None)"

definition parseSearchParams :: "ql_env \<Rightarrow> (string \<Rightarrow> string) \<Rightarrow> (ql_error, search_params) result" where
  "parseSearchParams env q =
     (let p = newSearchParams; older = q ''older_than'';
          time = (if older = [] then Inr None
                  else case de_time (qe_dec env) older of
                    None \<Rightarrow> Inl QLBadTime | Some t \<Rightarrow> Inr (if t = no_time then None else Some t)) in
      bind_result time (\<lambda>t.
        let p1 = p\<lparr>sp_older := t\<rparr>;
            p2 = (case parse_int64 (q ''limit'') of None \<Rightarrow> p1 | Some i \<Rightarrow> p1\<lparr>sp_limit := i\<rparr>);
            p3 = (case parse_int64 (q ''offset'') of None \<Rightarrow> p2 | Some i \<Rightarrow> p2\<lparr>sp_offset := i, sp_max := 0\<rparr>) in
        bind_result (parseSearchCriterion env q ''search'' ctTerm) (\<lambda>c1.
        bind_result (parseSearchCriterion env q ''response_status'' ctFilteringStatus) (\<lambda>c2.
          Inr (p3\<lparr>sp_criteria := (case c1 of None \<Rightarrow> [] | Some c \<Rightarrow> [c]) @ (case c2 of None \<Rightarrow> [] | Some c \<Rightarrow> [c])\<rparr>)))))"

definition handleQueryLog ::
  "ql_env \<Rightarrow> 'b ring_ops \<Rightarrow> (string \<Rightarrow> string) \<Rightarrow> 'b query_log \<Rightarrow> (ql_error, qlog_entry list \<times> int option) result option" where
  "handleQueryLog env ops q l =
     (case parseSearchParams env q of Inl e \<Rightarrow> Some (Inl e) | Inr p \<Rightarrow> map_option Inr (ql_search env ops p l))"

definition handleQueryLogClear :: "ql_env \<Rightarrow> 'b ring_ops \<Rightarrow> 'b query_log \<Rightarrow> 'b query_log" where
  "handleQueryLogClear env ops l = ql_clear env ops l"

text \<open>The interval is reported in nanoseconds here.\<close>

definition handleQueryLogInfo :: "'b query_log \<Rightarrow> null_bool \<times> int \<times> null_bool" where
  "handleQueryLogInfo l =
     (let c = ql_conf l in
      (bool_to_null_bool (lc_enabled c), if ql_checkInterval (lc_ivl c) then lc_ivl c else ql_day * 90,
       bool_to_null_bool (lc_anon c)))"

definition handleGetQueryLogConfig :: "'b query_log \<Rightarrow> string list \<times> int \<times> null_bool \<times> null_bool" where
  "handleGetQueryLogConfig l =
     (let c = ql_conf l in
      (lc_ignored c, lc_ivl c div 1000000, bool_to_null_bool (lc_enabled c), bool_to_null_bool (lc_anon c)))"

text \<open>The interval of the request, if any, as a duration.\<close>

definition handleQueryLogConfig :: "int option \<Rightarrow> null_bool \<Rightarrow> null_bool \<Rightarrow> 'b query_log \<Rightarrow> ql_error option \<times> 'b query_log" where
  "handleQueryLogConfig ivl enabled anon l =
     (if (case ivl of None \<Rightarrow> False | Some i \<Rightarrow> \<not> ql_checkInterval i) then (Some QLUnsupported, l)
      else
        let c = ql_conf l;
            c1 = (if enabled = NBNull then c else c\<lparr>lc_enabled := enabled = NBTrue\<rparr>);
            c2 = (case ivl of None \<Rightarrow> c1 | Some i \<Rightarrow> c1\<lparr>lc_ivl := i\<rparr>)
        in (None, if anon = NBNull then l\<lparr>ql_conf := c2\<rparr>
             else l\<lparr>ql_conf := c2\<lparr>lc_anon := anon = NBTrue\<rparr>, ql_anonymize := anon = NBTrue\<rparr>))"

text \<open>The interval of the request in whole milliseconds.\<close>

definition handlePutQueryLogConfig ::
  "(string list \<Rightarrow> bool) \<Rightarrow> string list \<Rightarrow> int \<Rightarrow> null_bool \<Rightarrow> null_bool \<Rightarrow> 'b query_log \<Rightarrow> ql_error option \<times> 'b query_log" where
  "handlePutQueryLogConfig valid_rules ignored interval enabled anon l =
     (let ivl = wrap64 (interval * 1000000) in
      if \<not> valid_rules ignored then (Some QLBadIgnored, l)
      else case ql_validateIvl ivl of
        Some e \<Rightarrow> (Some e, l)
      | None \<Rightarrow>
          if enabled = NBNull then (Some QLEnabledNull, l)
          else if anon = NBNull then (Some QLAnonNull, l)
          else (None, l\<lparr>ql_conf := (ql_conf l)\<lparr>lc_ignored := ignored, lc_ivl := ivl, lc_enabled := enabled = NBTrue,
                    lc_anon := anon = NBTrue\<rparr>, ql_anonymize := anon = NBTrue\<rparr>))"

end
