(* ===== verification/QLogFileProps.thy ===== *)
theory QLogFileProps
  imports QLogFile
begin

text \<open>
  Reading query log files backwards gives their lines from the newest to the oldest, and the bisection finds the
  line of a timestamp, for files of short lines with growing timestamps.
\<close>

section \<open>Files of lines\<close>

definition lines_data :: "string list \<Rightarrow> string" where
  "lines_data ls = concat (map (\<lambda>l. l @ [nl]) ls)"

definition entry_line :: "string \<Rightarrow> bool" where
  "entry_line l \<longleftrightarrow> l \<noteq> [] \<and> nl \<notin> set l \<and> length l < maxEntrySize"

text \<open>The index at which a line starts.\<close>

definition off :: "string list \<Rightarrow> nat \<Rightarrow> nat" where
  "off ls i = length (lines_data (take i ls))"

lemma lines_data_simps [simp]:
  "lines_data [] = []" "lines_data (l # ls) = l @ nl # lines_data ls" "lines_data (xs @ ys) = lines_data xs @ lines_data ys"
  "lines_data ls = [] \<longleftrightarrow> ls = []"
  by (simp_all add: lines_data_def)

lemma sizes: "maxEntrySize = 16384" "bufferSize = 1638400"
  by (simp_all add: maxEntrySize_def bufferSize_def)

lemma off_0 [simp]: "off ls 0 = 0"
  by (simp add: off_def)

lemma off_Suc: "i < length ls \<Longrightarrow> off ls (Suc i) = off ls i + length (ls ! i) + 1"
  by (simp add: off_def take_Suc_conv_app_nth)

lemma off_all: "length ls \<le> n \<Longrightarrow> off ls n = length (lines_data ls)"
  by (simp add: off_def)

lemma off_mono: "i \<le> j \<Longrightarrow> off ls i \<le> off ls j"
proof -
  assume "i \<le> j"
  then have "take j ls = take i ls @ take (j - i) (drop i ls)" by (metis le_add_diff_inverse take_add)
  then show ?thesis by (simp add: off_def)
qed

lemma off_strict: "i < j \<Longrightarrow> j \<le> length ls \<Longrightarrow> off ls i < off ls j"
  using off_mono [of "Suc i" j ls] off_Suc [of i ls] by simp

lemma off_inj: "i \<le> length ls \<Longrightarrow> j \<le> length ls \<Longrightarrow> off ls i = off ls j \<longleftrightarrow> i = j"
  using off_strict [of i j ls] off_strict [of j i ls] by (cases i j rule: linorder_cases) auto

lemma lines_split: "i < length ls \<Longrightarrow> lines_data ls = lines_data (take i ls) @ ls ! i @ nl # lines_data (drop (Suc i) ls)"
  by (metis append_take_drop_id Cons_nth_drop_Suc lines_data_simps(2,3))

lemma line_chars:
  assumes "i < length ls"
  shows "k < length (ls ! i) \<Longrightarrow> lines_data ls ! (off ls i + k) = ls ! i ! k"
    and "lines_data ls ! (off ls i + length (ls ! i)) = nl"
    and "0 < i \<Longrightarrow> lines_data ls ! (off ls i - 1) = nl"
    and "off ls (Suc i) \<le> length (lines_data ls)"
proof -
  show "k < length (ls ! i) \<Longrightarrow> lines_data ls ! (off ls i + k) = ls ! i ! k"
    "lines_data ls ! (off ls i + length (ls ! i)) = nl"
    by (simp_all add: lines_split [OF assms] off_def nth_append)
  show "off ls (Suc i) \<le> length (lines_data ls)"
    using off_mono [of "Suc i" "length ls" ls] assms by (simp add: off_all)
  assume "0 < i"
  then obtain j where j: "i = Suc j" by (cases i) auto
  with assms show "lines_data ls ! (off ls i - 1) = nl"
    by (simp add: lines_split [of j ls] off_Suc) (simp add: off_def nth_append)
qed

lemma line_at:
  assumes "off ls a \<le> p" "p < off ls b" "b \<le> length ls"
  shows "\<exists>i. a \<le> i \<and> i < b \<and> off ls i \<le> p \<and> p < off ls (Suc i)"
  using assms
proof (induction b)
  case (Suc b)
  show ?case
  proof (cases "p < off ls b")
    case True
    with Suc show ?thesis by (meson Suc_leD less_Suc_eq)
  next
    case False
    then have "off ls b \<le> p" by simp
    moreover have "a \<le> b" using Suc.prems off_mono [of "Suc b" a ls] by (cases "a \<le> b") auto
    ultimately show ?thesis using Suc.prems by (intro exI [of _ b]) auto
  qed
qed simp

lemma line_sub:
  assumes "i < length ls"
  shows "take (length (ls ! i)) (drop (off ls i) (lines_data ls)) = ls ! i"
  by (simp add: lines_split [OF assms] off_def)

section \<open>Buffers\<close>

lemma length_read_at [simp]: "length (read_at content pos buf) = length buf"
  by (simp add: read_at_def Let_def)

lemma nth_read_at: "i < length buf \<Longrightarrow> pos + i < length content \<Longrightarrow> read_at content pos buf ! i = content ! (pos + i)"
  by (auto simp: read_at_def Let_def nth_append less_diff_conv add.commute)

lemma scan_back_eq:
  assumes "m \<le> n" "\<forall>i. m \<le> i \<and> i < n \<longrightarrow> buf ! i \<noteq> nl" "m = 0 \<or> buf ! (m - 1) = nl"
  shows "scan_back buf n = m"
  using assms
proof (induction n)
  case (Suc n)
  then show ?case by (cases "m = Suc n") auto
qed simp

text \<open>A buffer shows a part of the file.\<close>

definition shows_at :: "string \<Rightarrow> nat \<Rightarrow> string \<Rightarrow> bool" where
  "shows_at content pos buf \<longleftrightarrow> (\<forall>i < length buf. pos + i < length content \<longrightarrow> buf ! i = content ! (pos + i))"

lemma read_at_shows: "shows_at content pos (read_at content pos buf)"
  by (simp add: shows_at_def nth_read_at)

lemma scan_back_line:
  assumes "shows_at (lines_data ls) pos buf" "i < length ls" "nl \<notin> set (ls ! i)" "rel \<le> length buf"
    and "off ls i \<le> pos + rel" "pos + rel \<le> off ls i + length (ls ! i)" "pos < off ls i \<or> pos = 0 \<and> i = 0"
  shows "scan_back buf rel = off ls i - pos"
proof (rule scan_back_eq)
  note size = line_chars(4) [OF assms(2)] off_Suc [OF assms(2)]
  show "off ls i - pos \<le> rel" using assms(5) by simp
  show "\<forall>k. off ls i - pos \<le> k \<and> k < rel \<longrightarrow> buf ! k \<noteq> nl"
  proof (intro allI impI)
    fix k
    assume k: "off ls i - pos \<le> k \<and> k < rel"
    define m where "m = pos + k - off ls i"
    have m: "pos + k = off ls i + m" "m < length (ls ! i)" using k assms(6) by (auto simp: m_def)
    have "buf ! k = lines_data ls ! (off ls i + m)"
      using assms(1,4) k m size by (auto simp: shows_at_def)
    then show "buf ! k \<noteq> nl" using line_chars(1) [OF assms(2) m(2)] assms(3) m(2) by (metis nth_mem)
  qed
  show "off ls i - pos = 0 \<or> buf ! (off ls i - pos - 1) = nl"
  proof (cases "pos < off ls i")
    case True
    then have "0 < i" by (cases i) auto
    have "off ls i - pos - 1 < length buf" using True assms(4,5) by linarith
    then have "buf ! (off ls i - pos - 1) = lines_data ls ! (off ls i - 1)"
      using True assms(1) size by (auto simp: shows_at_def)
    with line_chars(3) [OF assms(2) \<open>0 < i\<close>] show ?thesis by simp
  qed simp
qed

text \<open>What a buffer holds of a line.\<close>

lemma buffer_line:
  assumes "shows_at (lines_data ls) pos buf" "i < length ls" "pos \<le> off ls i" "off ls i + n \<le> pos + length buf" "n \<le> length (ls ! i)"
  shows "drop (off ls i - pos) (take (off ls i + n - pos) buf) = take n (ls ! i)"
proof (rule nth_equalityI)
  show len: "length (drop (off ls i - pos) (take (off ls i + n - pos) buf)) = length (take n (ls ! i))"
    using assms by simp
  fix k
  assume "k < length (drop (off ls i - pos) (take (off ls i + n - pos) buf))"
  then have k: "k < n" "k < length (ls ! i)" using len assms by auto
  have "buf ! (off ls i - pos + k) = lines_data ls ! (off ls i + k)"
    using assms(1,3,4) k line_chars(4) [OF assms(2)] off_Suc [OF assms(2)] by (auto simp: shows_at_def)
  then show "drop (off ls i - pos) (take (off ls i + n - pos) buf) ! k = take n (ls ! i) ! k"
    using k assms(3,4) line_chars(1) [OF assms(2) k(2)] by simp
qed

text \<open>A probe inside a line reads this line, and one at the end of the file reads nothing.\<close>

lemma probe_line:
  assumes "qf_data q = lines_data ls" "i < length ls" "entry_line (ls ! i)" "off ls i \<le> p" "p < off ls (Suc i)"
  shows "readProbeLine p q = Inr (ls ! i, off ls i, off ls (Suc i))"
proof -
  define seek where "seek = (if maxEntrySize < p then p - maxEntrySize else 0)"
  define rel where "rel = (if maxEntrySize < p then maxEntrySize else p)"
  define n where "n = length (take (2 * maxEntrySize) (drop seek (lines_data ls)))"
  define buf where "buf = read_at (lines_data ls) seek (replicate (2 * maxEntrySize) (CHR 0x00))"
  define m where "m = off ls i + length (ls ! i) - p"
  have line: "nl \<notin> set (ls ! i)" "length (ls ! i) < maxEntrySize" using assms(3) by (auto simp: entry_line_def)
  note next_off = off_Suc [OF assms(2)] line_chars(4) [OF assms(2)]
  have pos: "seek + rel = p" "rel \<le> maxEntrySize" by (auto simp: seek_def rel_def)
  have len: "length buf = 2 * maxEntrySize" by (simp add: buf_def)
  have shown: "shows_at (lines_data ls) seek buf" unfolding buf_def by (rule read_at_shows)
  have start: "scan_back buf rel = off ls i - seek" "seek \<le> off ls i"
  proof -
    have near: "seek < off ls i \<or> seek = 0 \<and> i = 0"
      using assms(2,4,5) next_off line(2) off_strict [of 0 i ls] by (cases i) (auto simp: seek_def)
    show "scan_back buf rel = off ls i - seek"
      using assms(4,5) next_off pos len by (intro scan_back_line [OF shown assms(2) line(1) _ _ _ near]) auto
    show "seek \<le> off ls i" using near by auto
  qed
  have m: "rel + m < n" "rel + m = off ls i + length (ls ! i) - seek" "m \<le> length (ls ! i)"
    using assms(4,5) next_off line(2) pos by (auto simp: m_def n_def)
  have n: "n \<le> length buf" by (simp add: n_def len)
  have chars: "buf ! (rel + j) = lines_data ls ! (p + j)" if "j < n - rel" for j
    using that shown n unfolding pos(1) [symmetric] by (auto simp: shows_at_def n_def add.assoc)
  have "takeWhile (\<lambda>c. c \<noteq> nl) (take (n - rel) (drop rel buf)) = take m (take (n - rel) (drop rel buf))"
  proof (rule takeWhile_eq_take_P_nth)
    fix j
    assume "j < m"
    then have "buf ! (rel + j) = lines_data ls ! (off ls i + (p - off ls i + j))" "p - off ls i + j < length (ls ! i)"
      using chars m assms(4) by (auto simp: m_def)
    with line_chars(1) [OF assms(2)] line(1) have "buf ! (rel + j) \<noteq> nl" by (metis nth_mem)
    then show "take (n - rel) (drop rel buf) ! j \<noteq> nl" using \<open>j < m\<close> m n by simp
  next
    have "buf ! (rel + m) = lines_data ls ! (off ls i + length (ls ! i))"
      using chars [of m] m assms(4,5) next_off by (simp add: m_def)
    with line_chars(2) [OF assms(2)] show "\<not> take (n - rel) (drop rel buf) ! m \<noteq> nl" using m n by simp
  qed
  then have tail: "length (takeWhile (\<lambda>c. c \<noteq> nl) (take (n - rel) (drop rel buf))) = m" using m n by simp
  have "drop (off ls i - seek) (take (rel + m) buf) = ls ! i"
    using buffer_line [OF shown assms(2) start(2), of "length (ls ! i)"] m n by simp
  moreover have "n \<noteq> 0" using m by simp
  ultimately show ?thesis
    using start m(2) next_off(1)
    unfolding readProbeLine_def Let_def assms(1) seek_def [symmetric] rel_def [symmetric] n_def [symmetric] buf_def [symmetric] tail
    using m(1) by simp
qed

lemma lines_end: "ls \<noteq> [] \<Longrightarrow> lines_data ls ! (length (lines_data ls) - 1) = nl"
  using line_chars(2) [of "length ls - 1" ls] off_all [of ls "length ls"] off_Suc [of "length ls - 1" ls] by simp

lemma probe_end:
  assumes "qf_data q = lines_data ls" "ls \<noteq> []"
  shows "readProbeLine (length (lines_data ls)) q = Inr ([], length (lines_data ls), length (lines_data ls))"
proof -
  let ?p = "length (lines_data ls)"
  define seek where "seek = (if maxEntrySize < ?p then ?p - maxEntrySize else 0)"
  define rel where "rel = (if maxEntrySize < ?p then maxEntrySize else ?p)"
  define buf where "buf = read_at (lines_data ls) seek (replicate (2 * maxEntrySize) (CHR 0x00))"
  have pos: "seek + rel = ?p" "0 < rel" "rel \<le> maxEntrySize"
    using assms(2) by (auto simp: seek_def rel_def maxEntrySize_def)
  have n: "length (take (2 * maxEntrySize) (drop seek (lines_data ls))) = rel" using pos by simp
  have "buf ! (rel - 1) = nl"
    using lines_end [OF assms(2)] pos by (simp add: buf_def nth_read_at)
  then have "scan_back buf rel = rel" using pos(2) by (intro scan_back_eq) auto
  with pos n show ?thesis
    by (simp add: readProbeLine_def assms(1) Let_def flip: seek_def rel_def buf_def)
qed

section \<open>The bisection\<close>

text \<open>The lines of a log whose timestamps grow.\<close>

definition log_lines :: "(string \<Rightarrow> int option) \<Rightarrow> string list \<Rightarrow> bool" where
  "log_lines parse_time ls \<longleftrightarrow> (\<forall>l \<in> set ls. entry_line l \<and> readQLogTimestamp parse_time l \<noteq> 0) \<and>
     sorted_wrt (<) (map (readQLogTimestamp parse_time) ls)"

text \<open>What a search gives: the end of the line with the timestamp, or the reason why there is none.\<close>

definition seek_result :: "(string \<Rightarrow> int option) \<Rightarrow> string list \<Rightarrow> int \<Rightarrow> (qlog_error, nat) result" where
  "seek_result parse_time ls t =
     (let older = length (filter (\<lambda>l. readQLogTimestamp parse_time l < t) ls) in
      if older = length ls then Inl TSTooLate
      else if readQLogTimestamp parse_time (ls ! older) = t then Inr (off ls older + length (ls ! older))
      else if older = 0 then Inl TSTooEarly
      else Inl TSNotFound)"

lemma older_lines:
  assumes "sorted_wrt (<) (map f ls)" "a \<le> length ls" "\<forall>i < a. f (ls ! i) < (t :: int)" "\<forall>i. a \<le> i \<and> i < length ls \<longrightarrow> t \<le> f (ls ! i)"
  shows "length (filter (\<lambda>l. f l < t) ls) = a"
proof -
  have "filter (\<lambda>l. f l < t) ls = take a ls"
  proof -
    have "filter (\<lambda>l. f l < t) (take a ls) = take a ls" using assms(2,3) by (auto simp: filter_id_conv in_set_conv_nth)
    moreover have "filter (\<lambda>l. f l < t) (drop a ls) = []"
      using assms(4) by (auto simp: filter_empty_conv in_set_conv_nth not_less)
    ultimately show ?thesis by (metis append_Nil2 append_take_drop_id filter_append)
  qed
  with assms(2) show ?thesis by simp
qed

text \<open>An interval of the search: the lines before it are older, those behind it newer, and none of it is the last one probed.\<close>

definition interval :: "(string \<Rightarrow> int option) \<Rightarrow> string list \<Rightarrow> int \<Rightarrow> nat \<Rightarrow> nat \<Rightarrow> int \<Rightarrow> bool" where
  "interval parse_time ls t a b lastProbe \<longleftrightarrow> a \<le> b \<and> b \<le> length ls \<and>
     (\<forall>i < a. readQLogTimestamp parse_time (ls ! i) < t) \<and>
     (\<forall>i. b \<le> i \<and> i < length ls \<longrightarrow> t < readQLogTimestamp parse_time (ls ! i)) \<and>
     (lastProbe = - 1 \<and> a = 0 \<and> b = length ls \<or>
      0 < a \<and> lastProbe = int (off ls (a - 1)) \<or> b < length ls \<and> lastProbe = int (off ls b))"

lemma seek_step:
  assumes "qf_data q = lines_data ls" "log_lines parse_time ls" "i < length ls"
    and "off ls i \<le> lo + (hi - lo) div 2" "lo + (hi - lo) div 2 < off ls (Suc i)"
  shows "lastProbe = int (off ls i) \<Longrightarrow>
      seek_loop parse_time t q lo hi lastProbe d = Inl (if i = 0 then TSTooEarly else TSNotFound)"
    and "lastProbe \<noteq> int (off ls i) \<Longrightarrow> d < 99 \<Longrightarrow>
      seek_loop parse_time t q lo hi lastProbe d =
        (let ts = readQLogTimestamp parse_time (ls ! i) in
         if ts = t then Inr (off ls i + length (ls ! i), d)
         else if t < ts then seek_loop parse_time t q lo (off ls i) (int (off ls i)) (d + 1)
         else seek_loop parse_time t q (off ls (Suc i)) hi (int (off ls i)) (d + 1))"
proof -
  have line: "entry_line (ls ! i)" "readQLogTimestamp parse_time (ls ! i) \<noteq> 0"
    using assms(2,3) by (auto simp: log_lines_def)
  note probe = probe_line [OF assms(1,3) line(1) assms(4,5)]
  have "off ls i = 0 \<longleftrightarrow> i = 0" using off_inj [of i ls 0] assms(3) by simp
  then show "lastProbe = int (off ls i) \<Longrightarrow>
      seek_loop parse_time t q lo hi lastProbe d = Inl (if i = 0 then TSTooEarly else TSNotFound)"
    by (subst seek_loop.simps) (simp add: probe validateQLogLineIdx_def)
  have "off ls i \<noteq> length (lines_data ls)" using off_strict [of i "length ls" ls] off_all [of ls "length ls"] assms(3) by simp
  then show "lastProbe \<noteq> int (off ls i) \<Longrightarrow> d < 99 \<Longrightarrow>
      seek_loop parse_time t q lo hi lastProbe d =
        (let ts = readQLogTimestamp parse_time (ls ! i) in
         if ts = t then Inr (off ls i + length (ls ! i), d)
         else if t < ts then seek_loop parse_time t q lo (off ls i) (int (off ls i)) (d + 1)
         else seek_loop parse_time t q (off ls (Suc i)) hi (int (off ls i)) (d + 1))"
    using line(2) assms(1) by (subst seek_loop.simps) (simp add: probe validateQLogLineIdx_def Let_def)
qed

text \<open>An empty interval: the last one or two probes tell why there is no line.\<close>

lemma seek_none:
  assumes "qf_data q = lines_data ls" "log_lines parse_time ls" "ls \<noteq> []" "interval parse_time ls t a a lastProbe" "d \<le> 97"
  shows "map_sum (\<lambda>e. e) fst (seek_loop parse_time t q (off ls a) (off ls a) lastProbe d) = seek_result parse_time ls t"
proof -
  let ?f = "readQLogTimestamp parse_time"
  have a: "a \<le> length ls" "\<forall>i < a. ?f (ls ! i) < t" "\<forall>i. a \<le> i \<and> i < length ls \<longrightarrow> t < ?f (ls ! i)"
    using assms(4) by (auto simp: interval_def)
  have older: "length (filter (\<lambda>l. ?f l < t) ls) = a"
    using a assms(2) by (intro older_lines) (auto simp: log_lines_def less_imp_le)
  show ?thesis
  proof (cases "a = length ls")
    case True
    then have "0 < a" "lastProbe = - 1 \<or> lastProbe = int (off ls (a - 1))" using assms(3,4) by (auto simp: interval_def)
    then have "lastProbe \<noteq> int (length (lines_data ls))"
      using off_strict [of "a - 1" a ls] off_all [of ls a] True by auto
    with True older show ?thesis
      by (subst seek_loop.simps)
        (simp add: seek_result_def off_all probe_end [OF assms(1,3)] validateQLogLineIdx_def assms(1))
  next
    case False
    then have i: "a < length ls" using a(1) by simp
    have probe: "off ls a \<le> off ls a + (off ls a - off ls a) div 2" "off ls a + (off ls a - off ls a) div 2 < off ls (Suc a)"
      using off_strict [of a "Suc a" ls] i by auto
    note step = seek_step [OF assms(1,2) i probe]
    have newer: "t < ?f (ls ! a)" using a(3) i by simp
    show ?thesis
    proof (cases "lastProbe = int (off ls a)")
      case True
      with step(1) [OF True] newer older i show ?thesis by (simp add: seek_result_def)
    next
      case False
      then have "0 < a" using assms(4) i by (auto simp: interval_def)
      with step(2) [OF False] step(1) [OF refl] newer older i assms(5) show ?thesis by (simp add: seek_result_def Let_def)
    qed
  qed
qed

text \<open>Each probe halves the interval.\<close>

lemma seek_interval:
  assumes "qf_data q = lines_data ls" "log_lines parse_time ls" "ls \<noteq> []" "interval parse_time ls t a b lastProbe"
    and "off ls b - off ls a < 2 ^ m" "m + d \<le> 97"
  shows "map_sum (\<lambda>e. e) fst (seek_loop parse_time t q (off ls a) (off ls b) lastProbe d) = seek_result parse_time ls t"
  using assms(4-6)
proof (induction m arbitrary: a b lastProbe d)
  case 0
  then have "a = b" using off_strict [of a b ls] by (cases "a < b") (auto simp: interval_def)
  with seek_none [OF assms(1-3)] 0 show ?case by auto
next
  case (Suc m)
  let ?f = "readQLogTimestamp parse_time"
  let ?p = "off ls a + (off ls b - off ls a) div 2"
  have ab: "a \<le> b" "b \<le> length ls" using Suc.prems(1) by (auto simp: interval_def)
  show ?case
  proof (cases "a = b")
    case True
    with seek_none [OF assms(1-3)] Suc.prems show ?thesis by auto
  next
    case False
    then have "off ls a < off ls b" using off_strict [of a b ls] ab by simp
    then have p: "off ls a \<le> ?p" "?p < off ls b" by simp_all
    from line_at [OF p ab(2)] obtain i where i: "a \<le> i" "i < b" "off ls i \<le> ?p" "?p < off ls (Suc i)" by blast
    have len: "i < length ls" using i ab by simp
    have "lastProbe \<noteq> int (off ls i)"
      using Suc.prems(1) i ab off_inj [of i ls "a - 1"] off_inj [of i ls b] by (auto simp: interval_def)
    note step = seek_step(2) [OF assms(1,2) len i(3,4) this, of d t]
    have sorted: "\<forall>j < length ls. (j < i \<longrightarrow> ?f (ls ! j) < ?f (ls ! i)) \<and> (i < j \<longrightarrow> ?f (ls ! i) < ?f (ls ! j))"
      using assms(2) len by (auto simp: log_lines_def sorted_wrt_iff_nth_less)
    consider "?f (ls ! i) = t" | "t < ?f (ls ! i)" | "?f (ls ! i) < t" by linarith
    then show ?thesis
    proof cases
      case 1
      have "length (filter (\<lambda>l. ?f l < t) ls) = i"
      proof (rule older_lines)
        show "\<forall>j. i \<le> j \<and> j < length ls \<longrightarrow> t \<le> ?f (ls ! j)"
          using sorted 1 by (metis le_neq_implies_less less_imp_le order_refl)
      qed (use assms(2) len sorted 1 in \<open>auto simp: log_lines_def\<close>)
      with 1 step Suc.prems(3) len show ?thesis by (simp add: seek_result_def)
    next
      case 2
      have newer: "t < ?f (ls ! j)" if "i \<le> j" "j < length ls" for j
        using sorted 2 that by (cases "i = j") (auto intro: less_trans)
      then have "interval parse_time ls t a i (int (off ls i))"
        using Suc.prems(1) i len by (auto simp: interval_def)
      moreover have "off ls i - off ls a < 2 ^ m" using i(3) Suc.prems(2) by simp
      ultimately show ?thesis using Suc.IH [of a i "int (off ls i)" "d + 1"] step 2 Suc.prems(3) by (simp add: Let_def)
    next
      case 3
      have older: "?f (ls ! j) < t" if "j < Suc i" for j
      proof (cases "j = i")
        case False
        with that len sorted have "?f (ls ! j) < ?f (ls ! i)" by simp
        with 3 show ?thesis by simp
      qed (use 3 in simp)
      then have "interval parse_time ls t (Suc i) b (int (off ls i))"
        using Suc.prems(1) i len by (auto simp: interval_def)
      moreover have "off ls b - off ls (Suc i) < 2 ^ m" using i(4) Suc.prems(2) by simp
      ultimately show ?thesis using Suc.IH [of "Suc i" b "int (off ls i)" "d + 1"] step 3 Suc.prems(3) by (simp add: Let_def)
    qed
  qed
qed

lemma file_seek_spec:
  assumes "qf_data q = lines_data ls" "log_lines parse_time ls" "ls \<noteq> []" "length (lines_data ls) < 2 ^ 63"
  shows "map_sum (\<lambda>e. e) fst (fst (file_seekTS parse_time t q)) = seek_result parse_time ls t"
    and "snd (file_seekTS parse_time t q) = q\<lparr>qf_buffer := None,
      qf_position := (case seek_result parse_time ls t of Inr pos \<Rightarrow> pos | Inl _ \<Rightarrow> qf_position q)\<rparr>"
proof -
  have "map_sum (\<lambda>e. e) fst (seek_loop parse_time t (q\<lparr>qf_buffer := None\<rparr>) (off ls 0) (off ls (length ls)) (- 1) 0) =
      seek_result parse_time ls t"
    by (rule seek_interval [where m = 63]) (use assms in \<open>auto simp: interval_def off_all\<close>)
  then have found: "map_sum (\<lambda>e. e) fst (seek_loop parse_time t (q\<lparr>qf_buffer := None\<rparr>) 0 (length (qf_data q)) (- 1) 0) =
      seek_result parse_time ls t"
    by (simp add: off_all assms(1))
  show "map_sum (\<lambda>e. e) fst (fst (file_seekTS parse_time t q)) = seek_result parse_time ls t"
    unfolding found [symmetric] by (simp add: file_seekTS_def Let_def split: sum.splits prod.splits)
  show "snd (file_seekTS parse_time t q) = q\<lparr>qf_buffer := None,
      qf_position := (case seek_result parse_time ls t of Inr pos \<Rightarrow> pos | Inl _ \<Rightarrow> qf_position q)\<rparr>"
    unfolding found [symmetric] by (simp add: file_seekTS_def Let_def split: sum.splits prod.splits)
qed

section \<open>Reading backwards\<close>

text \<open>The next lines to be read are the first \<open>k\<close> lines, from the last of them on.\<close>

definition reads :: "qlog_file \<Rightarrow> string list \<Rightarrow> nat \<Rightarrow> bool" where
  "reads q ls k \<longleftrightarrow> qf_data q = lines_data ls \<and> (\<forall>l \<in> set ls. entry_line l) \<and> k \<le> length ls \<and> qf_position q = off ls k - 1 \<and>
     (\<forall>buf. qf_buffer q = Some buf \<longrightarrow> length buf = bufferSize \<and> shows_at (lines_data ls) (qf_start q) buf \<and>
        qf_position q \<le> qf_start q + bufferSize)"

lemma reads_none: "reads q ls 0 \<Longrightarrow> file_ReadNext q = (Inl QEOF, q)"
  by (simp add: reads_def file_ReadNext_def)

lemma reads_start:
  "qf_data q = lines_data ls \<Longrightarrow> \<forall>l \<in> set ls. entry_line l \<Longrightarrow> reads (file_SeekStart q) ls (length ls)"
  by (simp add: reads_def file_SeekStart_def off_all)

text \<open>The buffer after it has been read again, if need be.\<close>

lemma renew_buffer:
  assumes "reads q ls (Suc k)" "p = qf_position q"
    and "renew = (qf_buffer q = None \<or> (int p - int (qf_start q) < int maxEntrySize \<and> qf_start q \<noteq> 0))"
  shows "\<exists>q1 buf. (if renew then initBuffer p q else (Inr (), q)) = (Inr (), q1) \<and> qf_buffer q1 = Some buf \<and>
    q1 = q\<lparr>qf_buffer := Some buf, qf_start := qf_start q1\<rparr> \<and> length buf = bufferSize \<and>
    shows_at (lines_data ls) (qf_start q1) buf \<and> p \<le> qf_start q1 + bufferSize \<and>
    (qf_start q1 = 0 \<or> qf_start q1 + maxEntrySize \<le> p)"
proof (cases renew)
  case True
  have "0 < off ls (Suc k)" using off_strict [of 0 "Suc k" ls] assms(1) by (simp add: reads_def)
  then have "p < length (qf_data q)"
    using assms(1,2) off_mono [of "Suc k" "length ls" ls] by (auto simp: reads_def off_all)
  then have "drop (if bufferSize < p then p - bufferSize else 0) (qf_data q) \<noteq> []" by auto
  moreover have "length (case qf_buffer q of None \<Rightarrow> replicate bufferSize (CHR 0x00) | Some b \<Rightarrow> b) = bufferSize"
    using assms(1) by (auto simp: reads_def split: option.splits)
  moreover have "maxEntrySize \<le> bufferSize" by (simp add: sizes)
  ultimately show ?thesis
    using True assms(1) read_at_shows by (auto simp: initBuffer_def Let_def reads_def)
next
  case False
  with assms show ?thesis by (cases "qf_buffer q") (auto simp: reads_def)
qed

lemma reads_next:
  assumes "reads q ls (Suc k)"
  shows "\<exists>q'. file_ReadNext q = (Inr (ls ! k), q') \<and> reads q' ls k"
proof -
  define p where "p = qf_position q"
  have k: "k < length ls" "entry_line (ls ! k)" using assms by (auto simp: reads_def)
  then have p: "p = off ls k + length (ls ! k)" "0 < p"
    using assms by (auto simp: p_def reads_def off_Suc entry_line_def)
  from renew_buffer [OF assms p_def refl] obtain q1 buf where
    q1: "(if qf_buffer q = None \<or> (int p - int (qf_start q) < int maxEntrySize \<and> qf_start q \<noteq> 0) then initBuffer p q
         else (Inr (), q)) = (Inr (), q1)" "qf_buffer q1 = Some buf" "q1 = q\<lparr>qf_buffer := Some buf, qf_start := qf_start q1\<rparr>"
    and buf: "length buf = bufferSize" "shows_at (lines_data ls) (qf_start q1) buf" "p \<le> qf_start q1 + bufferSize"
      "qf_start q1 = 0 \<or> qf_start q1 + maxEntrySize \<le> p" by blast
  have line: "nl \<notin> set (ls ! k)" "length (ls ! k) < maxEntrySize" using k(2) by (auto simp: entry_line_def)
  have near: "qf_start q1 < off ls k \<or> qf_start q1 = 0 \<and> k = 0"
    using buf(4) p(1) line(2) off_strict [of 0 k ls] k(1) by (cases k) auto
  have start: "scan_back buf (p - qf_start q1) = off ls k - qf_start q1"
    using buf p near by (intro scan_back_line [OF buf(2) k(1) line(1) _ _ _ near]) auto
  have "drop (off ls k - qf_start q1) (take (p - qf_start q1) buf) = ls ! k"
    using buffer_line [OF buf(2) k(1), of "length (ls ! k)"] near buf(1,3) p by auto
  then have "readNextLine p q = (Inr (ls ! k, off ls k), q1)"
    unfolding readNextLine_def Let_def q1(1) using q1(2) buf(1,3) near start by auto
  then have next_line: "file_ReadNext q = (Inr (ls ! k), q1\<lparr>qf_position := off ls k - 1\<rparr>)"
    using p(2) by (simp add: file_ReadNext_def p_def)
  have eqs: "qf_data q1 = qf_data q" by (subst q1(3)) simp
  have "off ls k - 1 \<le> qf_start q1 + bufferSize" using buf(3) p(1) by simp
  with assms buf(1,2) q1(2) eqs have "reads (q1\<lparr>qf_position := off ls k - 1\<rparr>) ls k" by (simp add: reads_def)
  with next_line show ?thesis by blast
qed

section \<open>Several files\<close>

definition shows_files :: "qlog_file list \<Rightarrow> string list list \<Rightarrow> bool" where
  "shows_files fs lss \<longleftrightarrow> length fs = length lss \<and>
     (\<forall>i < length lss. qf_data (fs ! i) = lines_data (lss ! i) \<and> (\<forall>l \<in> set (lss ! i). entry_line l))"

lemma shows_files_all2:
  "shows_files fs lss \<longleftrightarrow> list_all2 (\<lambda>q ls. qf_data q = lines_data ls \<and> (\<forall>l \<in> set ls. entry_line l)) fs lss"
  by (auto simp: shows_files_def list_all2_conv_all_nth)

text \<open>The lines \<open>ls\<close> are still to be read, from the last of them on.\<close>

definition files_left :: "qlog_file list \<Rightarrow> nat \<Rightarrow> string list list \<Rightarrow> string list \<Rightarrow> bool" where
  "files_left fs cur lss ls \<longleftrightarrow> shows_files fs lss \<and>
     (case cur of
        0 \<Rightarrow> ls = []
      | Suc c \<Rightarrow> c < length lss \<and> (\<exists>k. reads (fs ! c) (lss ! c) k \<and> ls = concat (take c lss) @ take k (lss ! c)))"

definition reader_left :: "qlog_reader \<Rightarrow> string list list \<Rightarrow> string list \<Rightarrow> bool" where
  "reader_left r lss ls \<longleftrightarrow> files_left (qr_files r) (qr_current r) lss ls"

lemma shows_files_update:
  "shows_files fs lss \<Longrightarrow> i < length lss \<Longrightarrow> qf_data q = lines_data (lss ! i) \<Longrightarrow> shows_files (fs[i := q]) lss"
  by (auto simp: shows_files_def nth_list_update)

lemma SeekStart_data [simp]: "qf_data (file_SeekStart q) = qf_data q"
  by (simp add: file_SeekStart_def)

lemma reads_data: "reads q ls k \<Longrightarrow> qf_data q = lines_data ls"
  by (simp add: reads_def)

lemma read_loop_left:
  assumes "files_left fs cur lss ls"
  shows "ls = [] \<Longrightarrow> \<exists>fs'. read_loop cur fs = (Inl QEOF, fs', 0) \<and> shows_files fs' lss"
    and "ls = ms @ [l] \<Longrightarrow> \<exists>fs' cur'. read_loop cur fs = (Inr l, fs', cur') \<and> files_left fs' cur' lss ms"
proof -
  have "(ls = [] \<longrightarrow> (\<exists>fs'. read_loop cur fs = (Inl QEOF, fs', 0) \<and> shows_files fs' lss)) \<and>
    (\<forall>ms l. ls = ms @ [l] \<longrightarrow> (\<exists>fs' cur'. read_loop cur fs = (Inr l, fs', cur') \<and> files_left fs' cur' lss ms))"
    using assms
  proof (induction cur arbitrary: fs ls)
    case (Suc c)
    then obtain k where c: "c < length lss" "reads (fs ! c) (lss ! c) k" "ls = concat (take c lss) @ take k (lss ! c)"
      and wf: "shows_files fs lss" by (auto simp: files_left_def)
    then have len: "length fs = length lss" by (simp add: shows_files_def)
    show ?case
    proof (cases k)
      case 0
      with c(2) have eof: "file_ReadNext (fs ! c) = (Inl QEOF, fs ! c)" using reads_none by simp
      show ?thesis
      proof (cases c)
        case 0
        with eof wf c(1,3) len \<open>k = 0\<close> show ?thesis by simp
      next
        case (Suc j)
        let ?fs = "fs[j := file_SeekStart (fs ! j)]"
        have next_loop: "read_loop (Suc c) fs = read_loop c ?fs"
          using c(1) len
          by (subst read_loop.simps(2)) (simp only: Suc eof [unfolded Suc] prod.case sum.case nat.case list_update_id not_le [symmetric] if_False)
        have "j < length lss" using c(1) Suc by simp
        with wf have j: "qf_data (fs ! j) = lines_data (lss ! j)" "\<forall>l \<in> set (lss ! j). entry_line l" "j < length lss"
          by (simp_all add: shows_files_def)
        have "files_left ?fs c lss ls"
          using wf c Suc len j reads_start [OF j(1,2)] \<open>k = 0\<close>
          by (auto simp: files_left_def take_Suc_conv_app_nth intro!: shows_files_update exI [of _ "length (lss ! j)"])
        from Suc.IH [OF this] show ?thesis unfolding next_loop by blast
      qed
    next
      case (Suc k')
      with c(2) reads_next obtain q where q: "file_ReadNext (fs ! c) = (Inr (lss ! c ! k'), q)" "reads q (lss ! c) k'"
        by metis
      have k: "k' < length (lss ! c)" using c(2) Suc by (simp add: reads_def)
      have "files_left (fs[c := q]) (Suc c) lss (concat (take c lss) @ take k' (lss ! c))"
        using wf c(1) len q(2) by (auto simp: files_left_def intro!: shows_files_update dest: reads_data)
      then show ?thesis using c(1,3) len Suc k q(1) by (auto simp: take_Suc_conv_app_nth)
    qed
  qed (auto simp: files_left_def)
  then show "ls = [] \<Longrightarrow> \<exists>fs'. read_loop cur fs = (Inl QEOF, fs', 0) \<and> shows_files fs' lss"
    "ls = ms @ [l] \<Longrightarrow> \<exists>fs' cur'. read_loop cur fs = (Inr l, fs', cur') \<and> files_left fs' cur' lss ms"
    by blast+
qed

lemma reader_next:
  assumes "reader_left r lss ls"
  shows "ls = [] \<Longrightarrow> \<exists>r'. reader_ReadNext r = (Inl QEOF, r') \<and> reader_left r' lss []"
    and "ls = ms @ [l] \<Longrightarrow> \<exists>r'. reader_ReadNext r = (Inr l, r') \<and> reader_left r' lss ms"
proof -
  note left = assms [unfolded reader_left_def]
  show "ls = [] \<Longrightarrow> \<exists>r'. reader_ReadNext r = (Inl QEOF, r') \<and> reader_left r' lss []"
  proof (cases "qr_files r = []")
    case True
    assume "ls = []"
    with True assms show ?thesis by (simp add: reader_ReadNext_def)
  next
    case False
    assume "ls = []"
    from read_loop_left(1) [OF left this] False show ?thesis
      by (auto simp: reader_ReadNext_def reader_left_def files_left_def)
  qed
  assume ms: "ls = ms @ [l]"
  then have "qr_files r \<noteq> []" using left by (auto simp: files_left_def shows_files_def split: nat.splits)
  with read_loop_left(2) [OF left ms] show "\<exists>r'. reader_ReadNext r = (Inr l, r') \<and> reader_left r' lss ms"
    by (auto simp: reader_ReadNext_def reader_left_def)
qed

lemma reader_start:
  assumes "shows_files (qr_files r) lss" "lss = [] \<Longrightarrow> qr_current r = 0"
  shows "reader_left (reader_SeekStart r) lss (concat lss)"
proof (cases "lss = []")
  case False
  let ?n = "length lss - 1"
  have n: "length (qr_files r) = length lss" "?n < length lss" using assms(1) False by (auto simp: shows_files_def)
  then have newest: "qf_data (qr_files r ! ?n) = lines_data (lss ! ?n)" "\<forall>l \<in> set (lss ! ?n). entry_line l"
    using assms(1) by (auto simp: shows_files_def)
  have "concat lss = concat (take ?n lss) @ lss ! ?n"
    using False by (metis append_butlast_last_id butlast_conv_take concat.simps concat_append append_Nil2 last_conv_nth)
  with n False reads_start [OF newest] assms(1) newest show ?thesis
    by (auto simp: reader_left_def files_left_def reader_SeekStart_def Let_def Suc_diff_1
        intro!: shows_files_update exI [of _ "length (lss ! ?n)"] split: nat.splits)
next
  case True
  with assms show ?thesis by (simp add: reader_left_def files_left_def reader_SeekStart_def shows_files_def)
qed

text \<open>Searching the files from the newest on.\<close>

definition log_files :: "(string \<Rightarrow> int option) \<Rightarrow> string list list \<Rightarrow> bool" where
  "log_files parse_time lss \<longleftrightarrow> log_lines parse_time (concat lss) \<and> [] \<notin> set lss \<and>
     (\<forall>ls \<in> set lss. length (lines_data ls) < 2 ^ 63)"

lemma log_files_nth:
  assumes "log_files parse_time lss" "c < length lss"
  shows "log_lines parse_time (lss ! c)" "lss ! c \<noteq> []" "length (lines_data (lss ! c)) < 2 ^ 63"
    "\<forall>l \<in> set (concat (take c lss)). \<forall>m \<in> set (lss ! c). readQLogTimestamp parse_time l < readQLogTimestamp parse_time m"
    "\<forall>l \<in> set (lss ! c). \<forall>m \<in> set (concat (drop (Suc c) lss)). readQLogTimestamp parse_time l < readQLogTimestamp parse_time m"
proof -
  have "concat lss = concat (take c lss) @ lss ! c @ concat (drop (Suc c) lss)"
    by (metis append_take_drop_id assms(2) Cons_nth_drop_Suc concat.simps(2) concat_append)
  moreover have "log_lines parse_time (concat lss)" using assms(1) by (simp add: log_files_def)
  ultimately show "log_lines parse_time (lss ! c)"
    "\<forall>l \<in> set (concat (take c lss)). \<forall>m \<in> set (lss ! c). readQLogTimestamp parse_time l < readQLogTimestamp parse_time m"
    "\<forall>l \<in> set (lss ! c). \<forall>m \<in> set (concat (drop (Suc c) lss)). readQLogTimestamp parse_time l < readQLogTimestamp parse_time m"
    by (simp_all only: log_lines_def map_append sorted_wrt_append set_append set_map) blast+
  show "lss ! c \<noteq> []" "length (lines_data (lss ! c)) < 2 ^ 63"
    using assms by (auto simp: log_files_def) (metis nth_mem)
qed

lemma seek_result_early:
  assumes "ls \<noteq> []" "\<forall>l \<in> set ls. t < readQLogTimestamp parse_time l"
  shows "seek_result parse_time ls t = Inl TSTooEarly"
proof -
  have "filter (\<lambda>l. readQLogTimestamp parse_time l < t) ls = []" using assms(2) by (auto simp: filter_empty_conv)
  moreover have "t < readQLogTimestamp parse_time (ls ! 0)" using assms by simp
  ultimately show ?thesis using assms(1) by (simp add: seek_result_def)
qed

lemma seek_result_late: "\<forall>l \<in> set ls. readQLogTimestamp parse_time l < t \<Longrightarrow> seek_result parse_time ls t = Inl TSTooLate"
  by (simp add: seek_result_def filter_id_conv)

lemma seek_result_found:
  assumes "log_lines parse_time ls" "l \<in> set ls" "readQLogTimestamp parse_time l = t"
  shows "\<exists>k < length ls. seek_result parse_time ls t = Inr (off ls (Suc k) - 1) \<and>
    take (Suc k) ls = filter (\<lambda>l. readQLogTimestamp parse_time l \<le> t) ls"
proof -
  let ?f = "readQLogTimestamp parse_time"
  obtain k where k: "k < length ls" "ls ! k = l" using assms(2) by (auto simp: in_set_conv_nth)
  have sorted: "?f (ls ! i) < ?f (ls ! j)" if "i < j" "j < length ls" for i j
    using assms(1) that by (auto simp: log_lines_def sorted_wrt_iff_nth_less)
  have "length (filter (\<lambda>l. ?f l < t) ls) = k"
  proof (rule older_lines)
    show "\<forall>i. k \<le> i \<and> i < length ls \<longrightarrow> t \<le> ?f (ls ! i)"
      using sorted k assms(3) by (metis le_neq_implies_less less_imp_le order_refl)
  qed (use assms(1,3) k sorted in \<open>auto simp: log_lines_def\<close>)
  moreover have "filter (\<lambda>l. ?f l \<le> t) ls = take (Suc k) ls"
  proof -
    have "filter (\<lambda>l. ?f l \<le> t) (take (Suc k) ls) = take (Suc k) ls"
    proof (rule filter_True, rule ballI)
      fix m
      assume "m \<in> set (take (Suc k) ls)"
      then obtain i where "i \<le> k" "m = ls ! i" by (auto simp: in_set_conv_nth less_Suc_eq_le)
      then show "?f m \<le> t" using sorted [of i k] k assms(3) by (cases "i = k") auto
    qed
    moreover have "filter (\<lambda>l. ?f l \<le> t) (drop (Suc k) ls) = []"
    proof (rule filter_False, rule ballI)
      fix m
      assume "m \<in> set (drop (Suc k) ls)"
      then obtain i where "i < length (drop (Suc k) ls)" "m = drop (Suc k) ls ! i" by (auto simp: in_set_conv_nth)
      then show "\<not> ?f m \<le> t" using sorted [of k "Suc k + i"] k assms(3) by (simp add: not_le less_diff_conv add.commute)
    qed
    ultimately show ?thesis by (metis append_Nil2 append_take_drop_id filter_append)
  qed
  ultimately show ?thesis using k assms(3) by (intro exI [of _ k]) (simp add: seek_result_def off_Suc)
qed

lemma file_seek_cases:
  assumes "log_files parse_time lss" "c < length lss" "qf_data q = lines_data (lss ! c)"
  shows "seek_result parse_time (lss ! c) t = Inr p \<Longrightarrow>
      \<exists>d. file_seekTS parse_time t q = (Inr (p, d), q\<lparr>qf_buffer := None, qf_position := p\<rparr>)"
    and "seek_result parse_time (lss ! c) t = Inl e \<Longrightarrow> file_seekTS parse_time t q = (Inl e, q\<lparr>qf_buffer := None\<rparr>)"
proof -
  note spec = file_seek_spec [OF assms(3) log_files_nth(1-3) [OF assms(1,2)], of t]
  show "seek_result parse_time (lss ! c) t = Inr p \<Longrightarrow>
      \<exists>d. file_seekTS parse_time t q = (Inr (p, d), q\<lparr>qf_buffer := None, qf_position := p\<rparr>)"
    using spec by (cases "file_seekTS parse_time t q"; cases "fst (file_seekTS parse_time t q)") auto
  show "seek_result parse_time (lss ! c) t = Inl e \<Longrightarrow> file_seekTS parse_time t q = (Inl e, q\<lparr>qf_buffer := None\<rparr>)"
    using spec by (cases "file_seekTS parse_time t q"; cases "fst (file_seekTS parse_time t q)") auto
qed

text \<open>The search passes the files that are newer than the timestamp and comes to the file \<open>c\<close>.\<close>

lemma reader_seek_pass:
  assumes "log_files parse_time lss" "shows_files (qr_files r) lss" "c < i" "i \<le> length lss"
    and "\<forall>m \<in> set (concat (drop (Suc c) lss)). t < readQLogTimestamp parse_time m"
  shows "\<exists>r'. shows_files (qr_files r') lss \<and> reader_seek parse_time t i r = reader_seek parse_time t (Suc c) r'"
  using assms(2-4)
proof (induction i arbitrary: r)
  case (Suc j)
  show ?case
  proof (cases "j = c")
    case False
    then have j: "c < j" "j < length lss" using Suc.prems by simp_all
    then have "lss ! j \<in> set (drop (Suc c) lss)" by (auto simp: in_set_conv_nth intro!: exI [of _ "j - Suc c"])
    then have "\<forall>m \<in> set (lss ! j). t < readQLogTimestamp parse_time m" using assms(5) by auto
    with log_files_nth(2) [OF assms(1) j(2)] have early: "seek_result parse_time (lss ! j) t = Inl TSTooEarly"
      by (rule seek_result_early)
    have data: "qf_data (qr_files r ! j) = lines_data (lss ! j)" using Suc.prems(1) j by (simp add: shows_files_def)
    let ?r = "r\<lparr>qr_files := (qr_files r)[j := (qr_files r ! j)\<lparr>qf_buffer := None\<rparr>]\<rparr>"
    have "reader_seek parse_time t (Suc j) r = reader_seek parse_time t j ?r"
      by (simp add: file_seek_cases(2) [OF assms(1) j(2) data early])
    moreover have "shows_files (qr_files ?r) lss"
      using Suc.prems(1) j data by (auto intro!: shows_files_update)
    ultimately show ?thesis using Suc.IH [of ?r] j by simp
  qed (use Suc.prems in auto)
qed simp

lemma reader_seek_found:
  assumes "log_files parse_time lss" "shows_files (qr_files r) lss" "l \<in> set (concat lss)" "readQLogTimestamp parse_time l = t"
  shows "\<exists>r'. reader_seekTS parse_time t r = (None, r') \<and>
    reader_left r' lss (filter (\<lambda>l. readQLogTimestamp parse_time l \<le> t) (concat lss))"
proof -
  let ?f = "readQLogTimestamp parse_time"
  from assms(3) obtain c where c: "c < length lss" "l \<in> set (lss ! c)" by (metis UN_E in_set_conv_nth set_concat)
  note nth = log_files_nth [OF assms(1) c(1)]
  have len: "length (qr_files r) = length lss" using assms(2) by (simp add: shows_files_def)
  have newer: "\<forall>m \<in> set (concat (drop (Suc c) lss)). t < ?f m" using nth(5) c(2) assms(4) by blast
  from reader_seek_pass [OF assms(1,2) c(1) order_refl newer] len obtain r1 where
    r1: "shows_files (qr_files r1) lss" "reader_seekTS parse_time t r = reader_seek parse_time t (Suc c) r1"
    by (auto simp: reader_seekTS_def)
  then have data: "qf_data (qr_files r1 ! c) = lines_data (lss ! c)" "\<forall>l \<in> set (lss ! c). entry_line l"
    "length (qr_files r1) = length lss"
    using c(1) by (simp_all add: shows_files_def)
  from seek_result_found [OF nth(1) c(2) assms(4)] obtain k where
    k: "k < length (lss ! c)" "seek_result parse_time (lss ! c) t = Inr (off (lss ! c) (Suc k) - 1)"
      "take (Suc k) (lss ! c) = filter (\<lambda>l. ?f l \<le> t) (lss ! c)" by blast
  from file_seek_cases(1) [OF assms(1) c(1) data(1) k(2)] obtain q where
    q: "reader_seek parse_time t (Suc c) r1 = (None, r1\<lparr>qr_files := (qr_files r1)[c := q], qr_current := Suc c\<rparr>)"
      "q = (qr_files r1 ! c)\<lparr>qf_buffer := None, qf_position := off (lss ! c) (Suc k) - 1\<rparr>" by auto
  have "reads q (lss ! c) (Suc k)" using data k(1) by (simp add: q(2) reads_def)
  moreover have "filter (\<lambda>l. ?f l \<le> t) (concat lss) = concat (take c lss) @ take (Suc k) (lss ! c)"
  proof -
    have "concat lss = concat (take c lss) @ lss ! c @ concat (drop (Suc c) lss)"
      by (metis append_take_drop_id c(1) Cons_nth_drop_Suc concat.simps(2) concat_append)
    moreover have "filter (\<lambda>l. ?f l \<le> t) (concat (take c lss)) = concat (take c lss)"
      using nth(4) c(2) assms(4) by (intro filter_True) (auto intro: less_imp_le)
    moreover have "filter (\<lambda>l. ?f l \<le> t) (concat (drop (Suc c) lss)) = []"
      using newer by (intro filter_False) (simp add: not_le)
    ultimately show ?thesis by (simp add: k(3))
  qed
  ultimately show ?thesis
    using r1(2) q(1) c(1) data(1,3) r1(1) by (auto simp: reader_left_def files_left_def q(2) intro!: shows_files_update)
qed

text \<open>A timestamp between two files or behind the last one: the reader is left at the end of the newest file.\<close>

lemma reader_seek_late:
  assumes "log_files parse_time lss" "shows_files (qr_files r) lss" "c < length lss"
    and "\<forall>m \<in> set (lss ! c). readQLogTimestamp parse_time m < t"
    and "\<forall>m \<in> set (concat (drop (Suc c) lss)). t < readQLogTimestamp parse_time m"
  shows "\<exists>r'. reader_seekTS parse_time t r = (None, r') \<and> reader_left r' lss (concat lss)"
proof -
  have len: "length (qr_files r) = length lss" using assms(2) by (simp add: shows_files_def)
  from reader_seek_pass [OF assms(1-3) order_refl assms(5)] len obtain r1 where
    r1: "shows_files (qr_files r1) lss" "reader_seekTS parse_time t r = reader_seek parse_time t (Suc c) r1"
    by (auto simp: reader_seekTS_def)
  then have data: "qf_data (qr_files r1 ! c) = lines_data (lss ! c)" using assms(3) by (simp add: shows_files_def)
  let ?r = "r1\<lparr>qr_files := (qr_files r1)[c := (qr_files r1 ! c)\<lparr>qf_buffer := None\<rparr>]\<rparr>"
  have "reader_seek parse_time t (Suc c) r1 = (None, reader_SeekStart ?r)"
    by (simp add: file_seek_cases(2) [OF assms(1,3) data seek_result_late [OF assms(4)]])
  moreover have "reader_left (reader_SeekStart ?r) lss (concat lss)"
    using assms(3) r1(1) data by (intro reader_start) (auto intro!: shows_files_update)
  ultimately show ?thesis using r1(2) by simp
qed

section \<open>The search compared with a linear one\<close>

text \<open>C25: In a file of lines with growing timestamps the bisection gives what counting the older lines gives: the end of the
  line with the timestamp, or that it is too late, too early or missing; the limit on its depth is
  never reached.
\<close>

theorem seek_is_linear_search:
  assumes "log_lines parse_time ls" "ls \<noteq> []" "length (lines_data ls) < 2 ^ 63"
  shows "map_sum (\<lambda>e. e) fst (fst (file_seekTS parse_time t (newQLogFile (lines_data ls)))) = seek_result parse_time ls t"
  using assms by (intro file_seek_spec(1)) (simp_all add: newQLogFile_def)

definition dated_line :: "string \<Rightarrow> string" where
  "dated_line v = [CHR 0x22, CHR ''T'', CHR 0x22, CHR '':'', CHR 0x22] @ v @ [CHR 0x22]"

definition sample_time :: "string \<Rightarrow> int option" where
  "sample_time v = (if v = ''a'' then Some 1 else if v = ''b'' then Some 3 else if v = ''c'' then Some 4 else None)"

lemma sample_times: "readQLogTimestamp sample_time (dated_line ''a'') = 1" "readQLogTimestamp sample_time (dated_line ''b'') = 3"
  "readQLogTimestamp sample_time (dated_line ''c'') = 4"
  by (simp_all add: readQLogTimestamp_def readJSONValue_def dated_line_def has_prefix_def sample_time_def Let_def)

theorem seek_is_linear_search_witness:
  "map_sum (\<lambda>e. e) fst (fst (file_seekTS sample_time 3 (newQLogFile (lines_data [dated_line ''a'', dated_line ''b'', dated_line ''c'']))))
   = Inr 15"
proof -
  have "log_lines sample_time [dated_line ''a'', dated_line ''b'', dated_line ''c'']"
    by (simp add: log_lines_def sample_times entry_line_def) (simp add: dated_line_def nl_def maxEntrySize_def)
  from seek_is_linear_search [OF this, of 3] show ?thesis
    by (simp add: seek_result_def sample_times off_def) (simp add: dated_line_def)
qed

end
