(* ===== verification/QLogDecodeProps.thy ===== *)
theory QLogDecodeProps
  imports QLogDecode
begin

text \<open>
  An entry of the query log survives being written and read back.  The writer is the JSON encoder of the standard
  library applied to the structures of \<^verbatim>\<open>entry.go\<close>, whose tags say which fields are left out.
\<close>

section \<open>Written entries\<close>

definition opt_str :: "string \<Rightarrow> string \<Rightarrow> (string \<times> json) list" where
  "opt_str key s = (if s = [] then [] else [(key, JStr s)])"

definition opt_int :: "string \<Rightarrow> int \<Rightarrow> (string \<times> json) list" where
  "opt_int key i = (if i = 0 then [] else [(key, JNum (dec_int i))])"

definition opt_true :: "string \<Rightarrow> bool \<Rightarrow> (string \<times> json) list" where
  "opt_true key b = (if b then [(key, JBool True)] else [])"

definition opt_list :: "string \<Rightarrow> json list \<Rightarrow> (string \<times> json) list" where
  "opt_list key js = (if js = [] then [] else [(key, JArr js)])"

definition addr_text :: "addr \<Rightarrow> string" where
  "addr_text a = (if a = ZeroAddr then [] else addr_string a)"

definition rule_json :: "log_rule \<Rightarrow> json" where
  "rule_json g = JObj (opt_str ''Text'' (lg_text g) @ [(''IP'', JStr (addr_text (lg_ip g)))] @ opt_int ''FilterListID'' (lg_list g))"

fun value_json :: "log_value \<Rightarrow> json" where
  "value_json (LIP ip) = JStr (case ip of None \<Rightarrow> [] | Some a \<Rightarrow> addr_string a)"
| "value_json (LJson j) = j"

definition response_json :: "(qtype, log_value list) gomap \<Rightarrow> json" where
  "response_json m = JObj (map (\<lambda>(t, vs). (num_string 10 t, JArr (map value_json vs))) m)"

definition log_rewrite_json :: "log_rewrite \<Rightarrow> json" where
  "log_rewrite_json w = JObj ((case lw_response w of None \<Rightarrow> [] | Some m \<Rightarrow> if m = [] then [] else [(''Response'', response_json m)]) @
     opt_int ''RCode'' (lw_rcode w))"

definition result_json :: "log_result \<Rightarrow> json" where
  "result_json r = JObj ((case lr_rewrite r of None \<Rightarrow> [] | Some w \<Rightarrow> [(''DNSRewriteResult'', log_rewrite_json w)]) @
     opt_str ''CanonName'' (lr_canon r) @ opt_str ''ServiceName'' (lr_service r) @
     opt_list ''IPList'' (map (JStr \<circ> addr_text) (lr_ips r)) @ opt_list ''Rules'' (map rule_json (lr_rules r)) @
     opt_int ''Reason'' (lr_reason r) @ opt_true ''IsFiltered'' (lr_filtered r))"

text \<open>The writer of times and the encoder of bytes are arguments, as their counterparts are.\<close>

definition entry_json :: "(int \<Rightarrow> string) \<Rightarrow> (nat list \<Rightarrow> string) \<Rightarrow> qlog_entry \<Rightarrow> json" where
  "entry_json time_text base64 e = JObj (
     [(''T'', JStr (time_text (en_time e))), (''QH'', JStr (en_host e)), (''QT'', JStr (en_qtype e)), (''QC'', JStr (en_qclass e))] @
     opt_str ''ECS'' (en_ecs e) @ opt_str ''CID'' (en_client_id e) @ [(''CP'', JStr (en_proto e))] @
     opt_str ''Upstream'' (en_upstream e) @
     (if en_answer e = [] then [] else [(''Answer'', JStr (base64 (en_answer e)))]) @
     (if en_orig e = [] then [] else [(''OrigAnswer'', JStr (base64 (en_orig e)))]) @
     [(''IP'', JStr (case en_ip e of None \<Rightarrow> [] | Some a \<Rightarrow> addr_string a)), (''Result'', result_json (en_result e)),
      (''Elapsed'', JNum (dec_int (en_elapsed e)))] @
     opt_true ''Cached'' (en_cached e) @ opt_true ''AD'' (en_ad e))"

section \<open>Entries that can be read back\<close>

definition is_int64 :: "int \<Rightarrow> bool" where
  "is_int64 i \<longleftrightarrow> - (2 ^ 63) \<le> i \<and> i < 2 ^ 63"

definition reads_ip :: "addr \<Rightarrow> bool" where
  "reads_ip a \<longleftrightarrow> map_option unmap (net_ParseIP (addr_string a)) = Some a"

definition values_ok :: "qtype \<Rightarrow> log_value list \<Rightarrow> bool" where
  "values_ok t vs \<longleftrightarrow>
     (if t = TypeA \<or> t = TypeAAAA then list_all (\<lambda>v. case v of LIP None \<Rightarrow> True | LIP (Some a) \<Rightarrow> reads_ip a | _ \<Rightarrow> False) vs
      else list_all (\<lambda>v. case v of LJson _ \<Rightarrow> True | _ \<Rightarrow> False) vs)"

definition rewrite_ok :: "log_rewrite \<Rightarrow> bool" where
  "rewrite_ok w \<longleftrightarrow> is_int64 (lw_rcode w) \<and>
     (case lw_response w of
        None \<Rightarrow> lw_rcode w \<noteq> 0
      | Some m \<Rightarrow> m \<noteq> [] \<and> gm_wf m \<and> list_all (\<lambda>(t, vs). t < 2 ^ 16 \<and> values_ok t vs) m)"

definition rule_ok :: "log_rule \<Rightarrow> bool" where
  "rule_ok g \<longleftrightarrow> is_int64 (lg_list g) \<and> (lg_ip g = ZeroAddr \<or> parse_addr (addr_string (lg_ip g)) = Some (lg_ip g))"

definition result_ok :: "log_result \<Rightarrow> bool" where
  "result_ok r \<longleftrightarrow> (case lr_rewrite r of None \<Rightarrow> True | Some w \<Rightarrow> rewrite_ok w) \<and>
     list_all (\<lambda>a. a \<noteq> ZeroAddr \<and> parse_addr (addr_string a) = Some a) (lr_ips r) \<and> list_all rule_ok (lr_rules r) \<and>
     is_int64 (lr_reason r) \<and> (lr_reason r = 10 \<longrightarrow> lr_ips r = [])"

definition entry_ok :: "dec_env \<Rightarrow> (int \<Rightarrow> string) \<Rightarrow> (nat list \<Rightarrow> string) \<Rightarrow> qlog_entry \<Rightarrow> bool" where
  "entry_ok env time_text base64 e \<longleftrightarrow> en_client e = None \<and> de_time env (time_text (en_time e)) = Some (en_time e) \<and>
     de_base64 env (base64 (en_answer e)) = (en_answer e, True) \<and> de_base64 env (base64 (en_orig e)) = (en_orig e, True) \<and>
     NewClientProto (en_proto e) \<noteq> None \<and> is_int64 (en_elapsed e) \<and>
     (case en_ip e of None \<Rightarrow> True | Some a \<Rightarrow> reads_ip a) \<and> result_ok (en_result e)"

section \<open>Reading values\<close>

lemma digit_char_digit: "n < 10 \<Longrightarrow> digit_val (digit_char n) = Some n"
  by (simp add: digit_val_def digit_char_def Let_def)

lemma decimal_append: "decimal (s @ t) acc = Option.bind (decimal s acc) (decimal t)"
  by (induction s arbitrary: acc) (auto split: option.splits)

lemma decimal_num_string: "decimal (num_string 10 n) 0 = Some n"
proof (induction n rule: less_induct)
  case (less n)
  show ?case
  proof (cases "n < 10")
    case True
    then show ?thesis by (subst num_string.simps) (simp add: digit_char_digit)
  next
    case False
    with less [of "n div 10"] show ?thesis
      by (subst num_string.simps) (simp add: decimal_append digit_char_digit)
  qed
qed

lemma num_string_first: "num_string 10 n \<noteq> []" "\<not> has_prefix (num_string 10 n) ''-''"
proof -
  show "num_string 10 n \<noteq> []" by (subst num_string.simps) simp
  have "decimal (num_string 10 n) 0 \<noteq> None" by (simp add: decimal_num_string)
  then show "\<not> has_prefix (num_string 10 n) ''-''"
    by (cases "num_string 10 n") (auto simp: has_prefix_def digit_val_def split: option.splits)
qed

lemma number_int64_text: "is_int64 i \<Longrightarrow> number_int64 (dec_int i) = (i, True)"
  using num_string_first decimal_num_string
  by (auto simp: number_int64_def dec_int_def is_int64_def Let_def has_prefix_def)

lemma parse_uint_text: "t < 2 ^ 16 \<Longrightarrow> parse_uint 16 (num_string 10 t) = Some t"
  using num_string_first(1) decimal_num_string by (simp add: parse_uint_def)

lemma json_tokens_first: "\<exists>t ts. json_tokens j = t # ts \<and> t \<noteq> TDelim (CHR '']'') \<and> t \<noteq> TDelim (CHR ''}'')"
  by (cases j) auto

lemma parse_json_tokens: "length (json_tokens j) \<le> n \<Longrightarrow> parse_json n (json_tokens j @ ts) = Some (j, ts)"
proof (induction j arbitrary: n ts)
  case (JArr js)
  then obtain m where n: "n = Suc m" by (cases n) auto
  have "length (concat (map json_tokens js)) < m \<Longrightarrow>
      parse_items m (concat (map json_tokens js) @ TDelim (CHR '']'') # ts) = Some (js, ts)"
    using JArr.IH
  proof (induction js arbitrary: m)
    case Nil
    then show ?case by (cases m) auto
  next
    case (Cons j js)
    obtain k where k: "m = Suc k" using Cons.prems(1) by (cases m) auto
    from json_tokens_first obtain t us where j: "json_tokens j = t # us" "t \<noteq> TDelim (CHR '']'')" by blast
    have "parse_json k (json_tokens j @ concat (map json_tokens js) @ TDelim (CHR '']'') # ts) =
        Some (j, concat (map json_tokens js) @ TDelim (CHR '']'') # ts)"
      using Cons.prems k by (intro Cons.prems(2)) auto
    moreover have "parse_items k (concat (map json_tokens js) @ TDelim (CHR '']'') # ts) = Some (js, ts)"
      using Cons.prems k j(1) by (intro Cons.IH) auto
    ultimately show ?case using j k by simp
  qed
  with JArr.prems n show ?case by simp
next
  case (JObj ms)
  then obtain m where n: "n = Suc m" by (cases n) auto
  let ?toks = "\<lambda>ms. concat (map (\<lambda>(k, j). TStr k # json_tokens j) ms)"
  have "length (?toks ms) < m \<Longrightarrow> parse_members m (?toks ms @ TDelim (CHR ''}'') # ts) = Some (ms, ts)"
    using JObj.IH
  proof (induction ms arbitrary: m)
    case Nil
    then show ?case by (cases m) auto
  next
    case (Cons kj ms)
    obtain key j where kj: "kj = (key, j)" by (cases kj)
    obtain k where k: "m = Suc k" using Cons.prems(1) by (cases m) auto
    have "parse_json k (json_tokens j @ ?toks ms @ TDelim (CHR ''}'') # ts) = Some (j, ?toks ms @ TDelim (CHR ''}'') # ts)"
      by (rule Cons.prems(2) [of kj j]) (use Cons.prems k kj in auto)
    moreover have "parse_members k (?toks ms @ TDelim (CHR ''}'') # ts) = Some (ms, ts)"
      using Cons.prems(1) k kj by (intro Cons.IH Cons.prems(2)) auto
    ultimately show ?case using kj k by simp
  qed
  with JObj.prems n show ?case by simp
qed (auto simp: Suc_le_eq gr0_conv_Suc)

section \<open>Reading the parts of a result\<close>

lemma parse_empty [simp]: "parse_addr [] = None" "net_ParseIP [] = None"
  by (simp_all add: parse_addr_def net_ParseIP_def)

lemma addr_text_read: "a = ZeroAddr \<or> parse_addr (addr_string a) = Some a \<Longrightarrow> a \<noteq> ZeroAddr \<Longrightarrow> parse_addr (addr_text a) = Some a"
  by (simp add: addr_text_def)

lemma rule_read:
  assumes "rule_ok g" "i = length rules"
  shows "decodeResultRuleToken i (json_tokens (rule_json g) @ ts) rules = decodeResultRuleToken (i + 1) ts (rules @ [g])"
proof -
  have num: "number_int64 (dec_int (lg_list g)) = (lg_list g, True)" using assms(1) number_int64_text by (simp add: rule_ok_def)
  show ?thesis
    using assms num addr_text_read [of "lg_ip g"]
    by (cases g; cases "lg_ip g = ZeroAddr")
      (auto simp: rule_json_def opt_str_def opt_int_def rule_field_def rule_ok_def empty_rule_def addr_text_def list_update_append
        split: if_splits)
qed

lemma rules_read:
  "list_all rule_ok gs \<Longrightarrow> i = length rules \<Longrightarrow>
   decodeResultRuleToken i (concat (map (json_tokens \<circ> rule_json) gs) @ TDelim (CHR '']'') # ts) rules = Some (rules @ gs, ts)"
proof (induction gs arbitrary: i rules)
  case (Cons g gs)
  then show ?case using rule_read [of g i rules] Cons.IH [of "i + 1" "rules @ [g]"] by simp
qed simp

lemma ip_list_read:
  "list_all (\<lambda>a. a \<noteq> ZeroAddr \<and> parse_addr (addr_string a) = Some a) as \<Longrightarrow>
   decodeResultIPList (concat (map (json_tokens \<circ> (JStr \<circ> addr_text)) as) @ TDelim (CHR '']'') # ts) ips = (ips @ as, ts)"
  by (induction as arbitrary: ips) (auto simp: addr_text_def)

lemma values_read:
  assumes "values_ok t vs"
  shows "(if t = TypeA \<or> t = TypeAAAA then
        map (\<lambda>v. LIP (case v of LJson (JStr s) \<Rightarrow> map_option unmap (net_ParseIP s) | _ \<Rightarrow> None)) (map LJson (map value_json vs))
      else map LJson (map value_json vs)) = vs"
  using assms
  by (induction vs) (auto simp: values_ok_def reads_ip_def split: if_splits log_value.splits option.splits)

lemma fold_put_new:
  "distinct (map fst m @ map (fst \<circ> f) xs) \<Longrightarrow> fold (\<lambda>x. gm_put (fst (f x)) (snd (f x))) xs m = m @ map f xs"
proof (induction xs arbitrary: m)
  case (Cons x xs)
  then have "fst (f x) \<notin> fst ` set m" by auto
  then have "gm_put (fst (f x)) (snd (f x)) m = m @ [f x]"
    by (induction m) auto
  with Cons show ?case by (auto simp: comp_def)
qed simp

lemma parse_ips_map:
  "list_all (\<lambda>(t, vs). values_ok t vs) m \<Longrightarrow>
   parseDNSRewriteResultIPs (map (\<lambda>(t, vs). (t, map LJson (map value_json vs))) m) = m"
proof (induction m)
  case (Cons x m)
  obtain t vs where x: "x = (t, vs)" by (cases x)
  with Cons.prems have "values_ok t vs" by simp
  note values_read [OF this]
  moreover from Cons have "parseDNSRewriteResultIPs (map (\<lambda>(t, vs). (t, map LJson (map value_json vs))) m) = m" by simp
  ultimately show ?case unfolding parseDNSRewriteResultIPs_def list.map x prod.case by (simp only:)
qed (simp add: parseDNSRewriteResultIPs_def)

lemma response_read:
  assumes "gm_wf m" "list_all (\<lambda>(t, vs). t < 2 ^ 16 \<and> values_ok t vs) m"
  shows "map_option parseDNSRewriteResultIPs (response_of_json (response_json m) []) = Some m"
proof -
  let ?f = "\<lambda>(t, vs). (t, map LJson (map value_json vs))"
  have "response_of_json (response_json m) [] =
      Some (fold (\<lambda>x. gm_put (fst (?f x)) (snd (?f x))) m [])"
    unfolding response_of_json_def response_json_def
    using assms(2) by (auto simp: fold_map comp_def list_all_iff split_beta parse_uint_text intro!: fold_cong)
  also have "\<dots> = Some (map ?f m)"
    using assms(1) by (subst fold_put_new) (auto simp: gm_wf_def comp_def split_beta)
  finally have "map_option parseDNSRewriteResultIPs (response_of_json (response_json m) []) =
      Some (parseDNSRewriteResultIPs (map ?f m))" by simp
  also have "parseDNSRewriteResultIPs (map ?f m) = m"
    by (rule parse_ips_map) (use assms(2) in \<open>auto simp: list_all_iff\<close>)
  finally show ?thesis .
qed

lemma rewrite_read:
  assumes "rewrite_ok w"
  shows "decodeResultDNSRewriteResult (json_tokens (log_rewrite_json w) @ ts) None = (Some w, ts)"
proof -
  have num: "number_int64 (dec_int (lw_rcode w)) = (lw_rcode w, True)"
    using assms number_int64_text by (simp add: rewrite_ok_def)
  have code: "decodeResultDNSRewriteResult (concat (map (\<lambda>(k, j). TStr k # json_tokens j) (opt_int ''RCode'' (lw_rcode w))) @
      TDelim (CHR ''}'') # ts) rw =
      (if lw_rcode w = 0 then rw else Some (case rw of None \<Rightarrow> \<lparr>lw_response = None, lw_rcode = lw_rcode w\<rparr> | Some r \<Rightarrow> r\<lparr>lw_rcode := lw_rcode w\<rparr>), ts)"
    for rw
    using num by (auto simp: opt_int_def parseKeyToken_def decodeResultDNSRewriteResultKey_def empty_rewrite_def split: option.splits)
  show ?thesis
  proof (cases "lw_response w")
    case None
    then show ?thesis
      using assms code [of None] by (cases w) (auto simp: log_rewrite_json_def rewrite_ok_def parseKeyToken_def)
  next
    case (Some m)
    then have m: "m \<noteq> []" "map_option parseDNSRewriteResultIPs (response_of_json (response_json m) []) = Some m"
      using assms response_read by (auto simp: rewrite_ok_def)
    let ?rest = "concat (map (\<lambda>(k, j). TStr k # json_tokens j) (opt_int ''RCode'' (lw_rcode w))) @ TDelim (CHR ''}'') # ts"
    have "decodeResultDNSRewriteResultKey ''Response'' (json_tokens (response_json m) @ ?rest) None =
        (Some \<lparr>lw_response = Some m, lw_rcode = 0\<rparr>, ?rest)"
      using m(2) by (simp add: decodeResultDNSRewriteResultKey_def Let_def parse_json_tokens empty_rewrite_def)
    then show ?thesis
      using Some m(1) code [of "Some \<lparr>lw_response = Some m, lw_rcode = 0\<rparr>"]
      by (cases w) (auto simp: log_rewrite_json_def parseKeyToken_def)
  qed
qed

section \<open>Reading results and entries\<close>

abbreviation members :: "(string \<times> json) list \<Rightarrow> json_token list" where
  "members ms \<equiv> concat (map (\<lambda>(k, j). TStr k # json_tokens j) ms)"

lemma members_append [simp]: "members (ms @ ns) = members ms @ members ns"
  by simp

lemma read_result_fields:
  "key \<notin> {[], ''ReverseHosts'', ''IPList'', ''Rules'', ''DNSRewriteResult''} \<Longrightarrow> map_of resultHandlers key = Some handle \<Longrightarrow>
   decode_result_loop env (TStr key # v # ts) r =
     (case handle v r of (ok, r') \<Rightarrow> if ok then decode_result_loop env ts r' else Some (r', ts))"
  by (simp add: parseKeyToken_def resultDecHandler_def)

lemma empty_log_result_simps [simp]:
  "lr_rules empty_log_result = []" "lr_ips empty_log_result = []" "lr_rewrite empty_log_result = None"
  by (simp_all add: empty_log_result_def)

lemma result_read:
  assumes "result_ok r"
  shows "decodeResult env (json_tokens (result_json r) @ ts) empty_log_result = Some (r, ts)"
proof -
  let ?loop = "decode_result_loop env"
  have flt: "?loop (members (opt_true ''IsFiltered'' b) @ TDelim (CHR ''}'') # ts) x =
      Some (if b then x\<lparr>lr_filtered := True\<rparr> else x, ts)" for b x
    by (simp add: opt_true_def parseKeyToken_def resultDecHandler_def resultHandlers_def on_bool_def)
  have reason: "?loop (members (opt_int ''Reason'' (lr_reason r)) @ us) x =
      ?loop us (if lr_reason r = 0 then x else x\<lparr>lr_reason := lr_reason r\<rparr>)" for us x
    using assms number_int64_text
    by (simp add: opt_int_def result_ok_def parseKeyToken_def resultDecHandler_def resultHandlers_def on_int_def)
  have rules: "?loop (members (opt_list ''Rules'' (map rule_json (lr_rules r))) @ us) x =
      ?loop us (x\<lparr>lr_rules := lr_rules x @ lr_rules r\<rparr>)" if "lr_rules x = []" for us x
    using rules_read [of "lr_rules r" 0 "[]" us] assms that
    by (cases x) (simp add: opt_list_def result_ok_def parseKeyToken_def resultDecHandler_def decodeResultRules_def)
  have ips: "?loop (members (opt_list ''IPList'' (map (JStr \<circ> addr_text) (lr_ips r))) @ us) x =
      ?loop us (x\<lparr>lr_ips := lr_ips x @ lr_ips r\<rparr>)" for us x
    using ip_list_read [of "lr_ips r" us "lr_ips x"] assms
    by (simp add: opt_list_def result_ok_def parseKeyToken_def resultDecHandler_def)
  have str: "?loop (members (opt_str ''CanonName'' v) @ us) x = ?loop us (if v = [] then x else x\<lparr>lr_canon := v\<rparr>)"
    "?loop (members (opt_str ''ServiceName'' v) @ us) x = ?loop us (if v = [] then x else x\<lparr>lr_service := v\<rparr>)" for v us x
    by (simp_all add: opt_str_def parseKeyToken_def resultDecHandler_def resultHandlers_def on_string_def)
  have rewrite: "?loop (members (case lr_rewrite r of None \<Rightarrow> [] | Some w \<Rightarrow> [(''DNSRewriteResult'', log_rewrite_json w)]) @ us)
      empty_log_result = ?loop us (empty_log_result\<lparr>lr_rewrite := lr_rewrite r\<rparr>)" for us
    using rewrite_read assms
    by (auto simp: result_ok_def parseKeyToken_def resultDecHandler_def empty_log_result_def split: option.splits)
  have "?loop (json_tokens (result_json r) @ ts) empty_log_result = Some (r, ts)"
    unfolding result_json_def json_tokens.simps members_append append_assoc append_Cons
    by (simp add: parseKeyToken_def rewrite str ips rules reason flt)
      (cases r, simp add: empty_log_result_def)
  moreover have "translateResult r = r" using assms by (auto simp: translateResult_def result_ok_def)
  ultimately show ?thesis by (simp add: decodeResult_def)
qed

lemma entry_key:
  "key \<noteq> ''Result'' \<Longrightarrow> map_of (logEntryHandlers env) key = Some handle \<Longrightarrow>
   decode_entry_loop env (TStr key # v # ts) e = (case handle v e of (ok, e') \<Rightarrow> if ok then decode_entry_loop env ts e' else Some e')"
  by simp

lemma entry_read:
  assumes "entry_ok env time_text base64 e"
  shows "decodeLogEntry env (json_tokens (entry_json time_text base64 e)) = Some e"
proof -
  let ?loop = "decode_entry_loop env"
  have str: "?loop (members (opt_str ''ECS'' v) @ us) x = ?loop us (if v = [] then x else x\<lparr>en_ecs := v\<rparr>)"
    "?loop (members (opt_str ''CID'' v) @ us) x = ?loop us (if v = [] then x else x\<lparr>en_client_id := v\<rparr>)"
    "?loop (members (opt_str ''Upstream'' v) @ us) x = ?loop us (if v = [] then x else x\<lparr>en_upstream := v\<rparr>)" for v us x
    by (simp_all add: opt_str_def logEntryHandlers_def on_string_def)
  have flag: "?loop (members (opt_true ''Cached'' b) @ us) x = ?loop us (if b then x\<lparr>en_cached := True\<rparr> else x)"
    "?loop (members (opt_true ''AD'' b) @ us) x = ?loop us (if b then x\<lparr>en_ad := True\<rparr> else x)" for b us x
    by (simp_all add: opt_true_def logEntryHandlers_def on_bool_def)
  have bs: "?loop (members (if en_answer e = [] then [] else [(''Answer'', JStr (base64 (en_answer e)))]) @ us) x =
      ?loop us (if en_answer e = [] then x else x\<lparr>en_answer := en_answer e\<rparr>)"
    "?loop (members (if en_orig e = [] then [] else [(''OrigAnswer'', JStr (base64 (en_orig e)))]) @ us) x =
      ?loop us (if en_orig e = [] then x else x\<lparr>en_orig := en_orig e\<rparr>)" for us x
    using assms by (simp_all add: logEntryHandlers_def on_string_def entry_ok_def)
  have first: "?loop (members [(''T'', JStr (time_text (en_time e))), (''QH'', JStr (en_host e)), (''QT'', JStr (en_qtype e)),
      (''QC'', JStr (en_qclass e))] @ us) x =
      ?loop us (x\<lparr>en_time := en_time e, en_host := en_host e, en_qtype := en_qtype e, en_qclass := en_qclass e\<rparr>)" for us x
    using assms by (simp add: logEntryHandlers_def on_string_def entry_ok_def)
  have proto: "?loop (members [(''CP'', JStr (en_proto e))] @ us) x = ?loop us (x\<lparr>en_proto := en_proto e\<rparr>)" for us x
    using assms by (auto simp: logEntryHandlers_def on_string_def entry_ok_def NewClientProto_def split: if_splits)
  have mid: "?loop (members [(''IP'', JStr (case en_ip e of None \<Rightarrow> [] | Some a \<Rightarrow> addr_string a)), (''Result'', result_json (en_result e)),
      (''Elapsed'', JNum (dec_int (en_elapsed e)))] @ us) x =
      ?loop us (x\<lparr>en_ip := en_ip e, en_result := en_result e, en_elapsed := en_elapsed e\<rparr>)"
    if "en_ip x = None" "en_result x = empty_log_result" for us x
    using assms that number_int64_text [of "en_elapsed e"] result_read [of "en_result e" env]
    by (cases "en_ip e"; cases x) (auto simp: logEntryHandlers_def on_string_def on_int_def entry_ok_def reads_ip_def)
  have "members (case entry_json time_text base64 e of JObj ms \<Rightarrow> ms) @ [TDelim (CHR ''}'')] =
      members [(''T'', JStr (time_text (en_time e))), (''QH'', JStr (en_host e)), (''QT'', JStr (en_qtype e)),
        (''QC'', JStr (en_qclass e))] @ members (opt_str ''ECS'' (en_ecs e)) @ members (opt_str ''CID'' (en_client_id e)) @
      members [(''CP'', JStr (en_proto e))] @ members (opt_str ''Upstream'' (en_upstream e)) @
      members (if en_answer e = [] then [] else [(''Answer'', JStr (base64 (en_answer e)))]) @
      members (if en_orig e = [] then [] else [(''OrigAnswer'', JStr (base64 (en_orig e)))]) @
      members [(''IP'', JStr (case en_ip e of None \<Rightarrow> [] | Some a \<Rightarrow> addr_string a)), (''Result'', result_json (en_result e)),
        (''Elapsed'', JNum (dec_int (en_elapsed e)))] @
      members (opt_true ''Cached'' (en_cached e)) @ members (opt_true ''AD'' (en_ad e)) @ [TDelim (CHR ''}'')]"
    (is "_ = ?tokens")
    unfolding entry_json_def json.case members_append append_assoc ..
  then have tokens: "json_tokens (entry_json time_text base64 e) = TDelim (CHR ''{'') # ?tokens"
    by (simp only: entry_json_def json_tokens.simps json.case)
  have "?loop ?tokens empty_entry = Some e"
    unfolding first str proto bs
    by (subst mid) (simp_all only: flag, simp_all add: empty_entry_def, use assms in \<open>cases e, simp add: entry_ok_def\<close>)
  then show ?thesis unfolding decodeLogEntry_def tokens by simp
qed

text \<open>C26: An entry of the query log that is written as JSON is read back as it was, with its rules, its addresses and the
  rewrite of the response, when its addresses and numbers have texts that can be read.
\<close>

theorem log_entry_roundtrip:
  assumes "entry_ok env time_text base64 e"
  shows "decodeLogEntry env (json_tokens (entry_json time_text base64 e)) = Some e"
  using assms by (rule entry_read)

definition sample_dec_env :: dec_env where
  "sample_dec_env = \<lparr>de_time = (\<lambda>s. if s = ''now'' then Some 7 else None), de_base64 = (\<lambda>s. (map of_char s, True)),
     de_fqdn = (\<lambda>s. s @ ''.'')\<rparr>"

definition sample_log_entry :: qlog_entry where
  "sample_log_entry = empty_entry\<lparr>en_time := 7, en_host := ''a.test'', en_qtype := ''A'', en_qclass := ''IN'', en_client_id := ''pc'',
     en_proto := ''doh'', en_answer := [65], en_ip := Some (Addr4 0x01020304), en_elapsed := 1200, en_cached := True,
     en_result := empty_log_result\<lparr>lr_rules := [\<lparr>lg_text = ''||a.test^'', lg_ip = ZeroAddr, lg_list = 1\<rparr>],
       lr_rewrite := Some \<lparr>lw_response = Some [(TypePTR, [LJson (JStr ''b.'')])], lw_rcode = 0\<rparr>, lr_reason := 3, lr_filtered := True\<rparr>\<rparr>"

lemma sample_ip: "reads_ip (Addr4 0x01020304)"
  by (simp add: reads_ip_def net_ParseIP_def ipv4_string_def octets_def num_string.simps digit_char_def parse_addr_def
      parse_ipv4_def digit_val_def be_num_def upt_rec char_of_def of_char_def bit_Suc_0_iff)

theorem log_entry_roundtrip_witness:
  "decodeLogEntry sample_dec_env (json_tokens (entry_json (\<lambda>_. ''now'') (map char_of) sample_log_entry)) = Some sample_log_entry"
  by (rule log_entry_roundtrip)
    (simp add: entry_ok_def sample_dec_env_def sample_log_entry_def empty_entry_def NewClientProto_def is_int64_def sample_ip
      result_ok_def empty_log_result_def rewrite_ok_def values_ok_def qtype_defs gm_wf_def rule_ok_def)

text \<open>A line whose list of rules has an object without known fields before another rule stops the decoder with an
  index out of range.
\<close>

theorem empty_rule_panics:
  "decodeLogEntry env (json_tokens (JObj [(''Result'', JObj [(''Rules'', JArr [JObj [], JObj [(''Text'', JStr s)]])])])) = None"
  by (simp add: decodeLogEntry_def decodeResult_def parseKeyToken_def resultDecHandler_def decodeResultRules_def rule_field_def
      empty_entry_def Let_def)

text \<open>The value of a field that the decoder does not know is taken for a field: a line with the value QH there loses
  its host name.
\<close>

theorem unknown_field_shifts:
  assumes "key \<notin> set (''Result'' # map fst (logEntryHandlers env))" "host \<notin> set (''Result'' # map fst (logEntryHandlers env))"
  shows "decodeLogEntry env (json_tokens (JObj [(key, JStr ''QH''), (''QH'', JStr host)])) = Some (empty_entry\<lparr>en_host := ''QH''\<rparr>)"
proof -
  have "map_of (logEntryHandlers env) key = None" "map_of (logEntryHandlers env) host = None"
    using assms by (simp_all add: map_of_eq_None_iff)
  then show ?thesis using assms by (simp add: decodeLogEntry_def) (simp add: logEntryHandlers_def on_string_def)
qed

theorem unknown_field_shifts_witness:
  "decodeLogEntry sample_dec_env (json_tokens (JObj [(''Note'', JStr ''QH''), (''QH'', JStr ''a.test'')])) =
   Some (empty_entry\<lparr>en_host := ''QH''\<rparr>)"
  by (rule unknown_field_shifts) (simp_all add: logEntryHandlers_def)

end
