(* ===== verification/QueryLogProps.thy ===== *)
theory QueryLogProps
  imports QueryLog QLogFileProps QLogDecodeProps
begin

text \<open>
  The guarantees of the query log: what is added is found again, from the newest entry on, in memory and in the files,
  through flushes and rotations, and the queries for which this fails.
\<close>

section \<open>Clients\<close>

definition client_ids :: "string \<Rightarrow> string \<Rightarrow> string list" where
  "client_ids clientID ip = (if clientID = [] then [] else [clientID]) @ (if ip = [] then [] else [ip])"

definition lookup_client :: "ql_env \<Rightarrow> string \<Rightarrow> string \<Rightarrow> ql_client option" where
  "lookup_client env clientID ip = (case qe_find env (client_ids clientID ip) of None \<Rightarrow> None | Some c \<Rightarrow> c)"

text \<open>A cache remembers what the search for clients gives.\<close>

definition cache_ok :: "ql_env \<Rightarrow> client_cache \<Rightarrow> bool" where
  "cache_ok env cache \<longleftrightarrow> (\<forall>clientID ip c. cache (clientID, ip) = Some c \<longrightarrow> qe_find env (client_ids clientID ip) = Some c)"

lemma cache_empty [simp]: "cache_ok env Map.empty"
  by (simp add: cache_ok_def)

lemma query_client_spec:
  assumes "cache_ok env cache"
  shows "fst (query_client env clientID ip cache) = lookup_client env clientID ip" "cache_ok env (snd (query_client env clientID ip cache))"
proof -
  have "query_client env clientID ip cache =
    (case cache (clientID, ip) of
       Some c \<Rightarrow> (c, cache)
     | None \<Rightarrow> (case qe_find env (client_ids clientID ip) of None \<Rightarrow> (None, cache) | Some c \<Rightarrow> (c, cache((clientID, ip) \<mapsto> c))))"
    unfolding query_client_def client_ids_def ..
  with assms show "fst (query_client env clientID ip cache) = lookup_client env clientID ip"
    "cache_ok env (snd (query_client env clientID ip cache))"
    by (auto simp: cache_ok_def lookup_client_def split: option.splits)
qed

definition attach :: "ql_env \<Rightarrow> qlog_entry \<Rightarrow> qlog_entry" where
  "attach env e = e\<lparr>en_client := lookup_client env (en_client_id e) (ip_text (en_ip e))\<rparr>"

lemma memory_loop_spec:
  "cache_ok env cache \<Longrightarrow> fst (memory_loop env p es cache) = filter (params_match p) (map (attach env) es) \<and>
   cache_ok env (snd (memory_loop env p es cache))"
proof (induction es arbitrary: cache)
  case (Cons e es)
  obtain cli cache1 where cli: "query_client env (en_client_id e) (ip_text (en_ip e)) cache = (cli, cache1)" by fastforce
  with query_client_spec [OF Cons.prems] have "cli = lookup_client env (en_client_id e) (ip_text (en_ip e))" "cache_ok env cache1"
    by (metis fst_conv, metis snd_conv)
  with Cons.IH [of cache1] cli show ?case by (auto simp: attach_def Let_def split: prod.splits)
qed simp

section \<open>Lines and entries\<close>

text \<open>
  A line stands for an entry: it is decoded to it, and the quick readings of its fields and its time are right.  This is
  what the JSON encoder writes for an entry with an address and without characters that are escaped.
\<close>

definition line_of :: "ql_env \<Rightarrow> string \<Rightarrow> qlog_entry \<Rightarrow> bool" where
  "line_of env line e \<longleftrightarrow> entry_line line \<and> decodeLogEntry (qe_dec env) (qe_tokens env line) = Some e \<and>
     readQLogTimestamp (de_time (qe_dec env)) line = en_time e \<and> en_time e \<noteq> 0 \<and>
     readJSONValue line (json_key ''QH'') = en_host e \<and> readJSONValue line (json_key ''IP'') = ip_text (en_ip e) \<and>
     readJSONValue line (json_key ''CID'') = en_client_id e"

text \<open>What a search gives of the entries of the files.\<close>

definition file_match :: "ql_env \<Rightarrow> 'b query_log \<Rightarrow> search_params \<Rightarrow> qlog_entry \<Rightarrow> bool" where
  "file_match env l p e \<longleftrightarrow> \<not> ql_isIgnored env (en_host e) l \<and>
     \<not> (case en_client (attach env e) of None \<Rightarrow> False | Some c \<Rightarrow> qc_ignore c) \<and> params_match p (attach env e)"

lemma quickMatch_spec:
  assumes "line_of env line e" "cache_ok env cache"
  shows "cache_ok env (snd (quickMatch env cs line cache))"
    and "\<not> fst (quickMatch env cs line cache) \<Longrightarrow> \<not> list_all (\<lambda>c. criterion_match c (attach env e)) cs"
proof -
  have "cache_ok env (snd (quickMatch env cs line cache)) \<and>
    (\<not> fst (quickMatch env cs line cache) \<longrightarrow> \<not> list_all (\<lambda>c. criterion_match c (attach env e)) cs)"
    using assms(2)
  proof (induction cs arbitrary: cache)
    case (Cons c cs)
    have "cache_ok env (snd (criterion_quickMatch env c line cache)) \<and>
      (\<not> fst (criterion_quickMatch env c line cache) \<longrightarrow> \<not> criterion_match c (attach env e))"
      using query_client_spec [OF Cons.prems, of "en_client_id e" "ip_text (en_ip e)"] assms(1) Cons.prems
      by (auto simp: criterion_quickMatch_def line_of_def criterion_match_def ctDomainOrClientCase_def attach_def Let_def
          split: criterion_type.splits prod.splits)
    with Cons.IH [of "snd (criterion_quickMatch env c line cache)"] show ?case by (auto split: prod.splits)
  qed simp
  then show "cache_ok env (snd (quickMatch env cs line cache))"
    "\<not> fst (quickMatch env cs line cache) \<Longrightarrow> \<not> list_all (\<lambda>c. criterion_match c (attach env e)) cs" by blast+
qed

lemma next_entry_spec:
  assumes "reader_left r lss (ls @ [line])" "line_of env line e" "cache_ok env cache"
  shows "\<exists>ts r' cache'. readNextEntry env l p r cache =
      Some (Inr (if file_match env l p e then Some (attach env e) else None, ts), r', cache') \<and>
    reader_left r' lss ls \<and> cache_ok env cache'"
proof -
  from reader_next(2) [OF assms(1) refl] obtain r' where r': "reader_ReadNext r = (Inr line, r')" "reader_left r' lss ls" by blast
  obtain quick cache1 where quick: "quickMatch env (sp_criteria p) line cache = (quick, cache1)" by fastforce
  note qm = quickMatch_spec [OF assms(2,3), of "sp_criteria p", unfolded quick fst_conv snd_conv]
  obtain cli cache2 where cli: "query_client env (en_client_id e) (ip_text (en_ip e)) cache1 = (cli, cache2)" by fastforce
  note client = query_client_spec [OF qm(1), of "en_client_id e" "ip_text (en_ip e)", unfolded cli fst_conv snd_conv]
  have "\<not> quick \<Longrightarrow> \<not> file_match env l p e" using qm(2) by (auto simp: file_match_def params_match_def)
  then show ?thesis
    using r' quick qm(1) cli client assms(2)
    by (auto simp: readNextEntry_def line_of_def file_match_def attach_def Let_def)
qed

text \<open>The lines scanned by a search: all that are left, or the newest of them.\<close>

definition scanned :: "search_params \<Rightarrow> int \<Rightarrow> qlog_entry list \<Rightarrow> qlog_entry list" where
  "scanned p n es = (if sp_max p \<le> 0 then rev es else take (nat (sp_max p - n)) (rev es))"

lemma scanned_Cons: "n < sp_max p \<or> sp_max p \<le> 0 \<Longrightarrow> scanned p n (es @ [e]) = e # scanned p (n + 1) es"
proof -
  have "nat (sp_max p - n) = Suc (nat (sp_max p - (n + 1)))" if "n < sp_max p" using that by simp
  then show "n < sp_max p \<or> sp_max p \<le> 0 \<Longrightarrow> scanned p n (es @ [e]) = e # scanned p (n + 1) es"
    by (auto simp: scanned_def)
qed

lemma read_entries_spec:
  assumes "reader_left r lss ls" "list_all2 (line_of env) ls es" "cache_ok env cache" "int (length acc) < lim"
  shows "\<exists>oldest n'. read_entries env l p lim n r cache acc ts =
    Some (acc @ take (nat lim - length acc) (map (attach env) (filter (file_match env l p) (scanned p n es))), oldest, n')"
  using assms
proof (induction es arbitrary: ls r cache acc n ts rule: rev_induct)
  case Nil
  then have "ls = []" by simp
  with reader_next(1) [OF Nil.prems(1)] obtain r' where "reader_ReadNext r = (Inl QEOF, r')" by blast
  then show ?case
    by (subst read_entries.simps) (simp add: readNextEntry_def scanned_def)
next
  case (snoc e es)
  then obtain ls' line where ls: "ls = ls' @ [line]" "list_all2 (line_of env) ls' es" "line_of env line e"
    by (auto simp: list_all2_append2 list_all2_Cons2)
  show ?case
  proof (cases "n < sp_max p \<or> sp_max p \<le> 0")
    case False
    then have "scanned p n (es @ [e]) = []" by (simp add: scanned_def)
    with False show ?thesis by (subst read_entries.simps) simp
  next
    case True
    then have scan: "scanned p n (es @ [e]) = e # scanned p (n + 1) es"
      by (rule scanned_Cons)
    from next_entry_spec [OF snoc.prems(1) [unfolded ls(1)] ls(3) snoc.prems(3), of l p] obtain ts' r' cache' where
      step: "readNextEntry env l p r cache =
        Some (Inr (if file_match env l p e then Some (attach env e) else None, ts'), r', cache')"
      and left: "reader_left r' lss ls'" "cache_ok env cache'" by blast
    show ?thesis
    proof (cases "file_match env l p e")
      case False
      with True step have "read_entries env l p lim n r cache acc ts = read_entries env l p lim (n + 1) r' cache' acc ts'"
        by (subst read_entries.simps) auto
      with snoc.IH [OF left(1) ls(2) left(2) snoc.prems(4), of "n + 1" ts'] False show ?thesis by (simp add: scan)
    next
      case match: True
      show ?thesis
      proof (cases "int (length (acc @ [attach env e])) = lim")
        case full: True
        then have "nat lim - length acc = 1" by simp
        with True step match full show ?thesis by (subst read_entries.simps) (simp add: scan)
      next
        case more: False
        with True step match have
          "read_entries env l p lim n r cache acc ts = read_entries env l p lim (n + 1) r' cache' (acc @ [attach env e]) ts'"
          by (subst read_entries.simps) auto
        moreover have "int (length (acc @ [attach env e])) < lim" using snoc.prems(4) more by simp
        moreover from this have "nat lim - length acc = Suc (nat lim - length (acc @ [attach env e]))" by simp
        ultimately show ?thesis
          using snoc.IH [OF left(1) ls(2) left(2), of "acc @ [attach env e]" "n + 1" ts'] match by (simp add: scan)
      qed
    qed
  qed
qed

section \<open>Logs\<close>

text \<open>A file holds entries, and there is none when there are no entries.\<close>

definition file_of :: "ql_env \<Rightarrow> string option \<Rightarrow> qlog_entry list \<Rightarrow> bool" where
  "file_of env c es \<longleftrightarrow>
     (case c of
        None \<Rightarrow> es = []
      | Some s \<Rightarrow> es \<noteq> [] \<and> length s < 2 ^ 63 \<and> (\<exists>ls. s = lines_data ls \<and> list_all2 (line_of env) ls es))"

text \<open>A log of entries with growing times: those of the old file, of the log file and of the buffer.\<close>

definition log_of :: "ql_env \<Rightarrow> 'b ring_ops \<Rightarrow> 'b query_log \<Rightarrow> qlog_entry list \<times> qlog_entry list \<times> qlog_entry list \<Rightarrow> bool" where
  "log_of env ops l = (\<lambda>(old, new, mem). file_of env (ql_old l) old \<and> file_of env (ql_file l) new \<and>
     rb_items ops (ql_buffer l) = mem \<and> sorted_wrt (<) (map en_time (old @ new @ mem)))"

abbreviation times_of :: "ql_env \<Rightarrow> string \<Rightarrow> int" where
  "times_of env \<equiv> readQLogTimestamp (de_time (qe_dec env))"

lemma line_times: "list_all2 (line_of env) ls es \<Longrightarrow> map (times_of env) ls = map en_time es"
  by (induction rule: list_all2_induct) (auto simp: line_of_def)

lemma line_entries: "list_all2 (line_of env) ls es \<Longrightarrow> \<forall>l \<in> set ls. entry_line l \<and> times_of env l \<noteq> 0"
  by (induction rule: list_all2_induct) (auto simp: line_of_def)

lemma log_reader:
  assumes "log_of env ops l (old, new, mem)"
  shows "\<exists>lss. shows_files (qr_files (newQLogReader [ql_old l, ql_file l])) lss \<and> log_files (de_time (qe_dec env)) lss \<and>
    list_all2 (line_of env) (concat lss) (old @ new) \<and> qr_current (newQLogReader [ql_old l, ql_file l]) = length lss"
proof -
  have one: "\<exists>lss. shows_files (case c of None \<Rightarrow> [] | Some s \<Rightarrow> [newQLogFile s]) lss \<and> [] \<notin> set lss \<and>
      (\<forall>ls \<in> set lss. length (lines_data ls) < 2 ^ 63) \<and> list_all2 (line_of env) (concat lss) es"
    if holds: "file_of env c es" for c es
  proof (cases c)
    case None
    with holds show ?thesis by (intro exI [of _ "[]"]) (simp add: file_of_def shows_files_def)
  next
    case (Some s)
    with holds obtain ls where ls: "s = lines_data ls" "list_all2 (line_of env) ls es" "es \<noteq> []" "length s < 2 ^ 63"
      by (auto simp: file_of_def)
    with line_entries [OF ls(2)] Some show ?thesis
      by (intro exI [of _ "[ls]"]) (auto simp: shows_files_def newQLogFile_def)
  qed
  have "file_of env (ql_old l) old" "file_of env (ql_file l) new" and
    times: "sorted_wrt (<) (map en_time (old @ new))"
    using assms by (auto simp: log_of_def sorted_wrt_append)
  with one obtain lss1 lss2 where
    lss1: "shows_files (case ql_old l of None \<Rightarrow> [] | Some s \<Rightarrow> [newQLogFile s]) lss1" "[] \<notin> set lss1"
      "\<forall>ls \<in> set lss1. length (lines_data ls) < 2 ^ 63" "list_all2 (line_of env) (concat lss1) old" and
    lss2: "shows_files (case ql_file l of None \<Rightarrow> [] | Some s \<Rightarrow> [newQLogFile s]) lss2" "[] \<notin> set lss2"
      "\<forall>ls \<in> set lss2. length (lines_data ls) < 2 ^ 63" "list_all2 (line_of env) (concat lss2) new" by metis
  then have lines: "list_all2 (line_of env) (concat (lss1 @ lss2)) (old @ new)"
    by (simp add: list_all2_appendI)
  have "shows_files (qr_files (newQLogReader [ql_old l, ql_file l])) (lss1 @ lss2)"
    using lss1(1) lss2(1) by (simp add: newQLogReader_def shows_files_all2 Let_def list_all2_appendI)
  moreover have "log_files (de_time (qe_dec env)) (lss1 @ lss2)"
    using line_entries [OF lines] line_times [OF lines] times lss1(2,3) lss2(2,3)
    by (auto simp: log_files_def log_lines_def)
  moreover have "qr_current (newQLogReader [ql_old l, ql_file l]) = length (lss1 @ lss2)"
    using lss1(1) lss2(1) by (auto simp: newQLogReader_def shows_files_def Let_def)
  ultimately show ?thesis using lines by blast
qed

text \<open>The entries that a search reads in the files: those before the requested time.\<close>

lemma filter_prefix:
  assumes "sorted_wrt (<) (map f xs)" "x \<in> set xs" "f x = (t :: int)"
  shows "filter (\<lambda>x. f x \<le> t) xs = filter (\<lambda>x. f x < t) xs @ [x]"
  using assms
proof (induction xs)
  case (Cons y xs)
  show ?case
  proof (cases "x = y")
    case True
    with Cons.prems have "\<forall>z \<in> set xs. t < f z" by auto
    then have "filter (\<lambda>x. f x \<le> t) xs = []" "filter (\<lambda>x. f x < t) xs = []" by (auto simp: filter_empty_conv)
    with True Cons.prems(3) show ?thesis by simp
  next
    case False
    then have x: "x \<in> set xs" using Cons.prems(2) by simp
    with Cons.prems(1,3) have "f y < t" by auto
    with Cons.IH [OF _ x] Cons.prems(1,3) show ?thesis by simp
  qed
qed simp

lemma filter_lines:
  assumes "list_all2 (line_of env) ls es"
  shows "list_all2 (line_of env) (filter (\<lambda>l. times_of env l < t) ls) (filter (\<lambda>e. en_time e < t) es)"
  using assms by (induction rule: list_all2_induct) (auto simp: line_of_def)

lemma log_seek:
  assumes "log_of env ops l (old, new, mem)" "case older of None \<Rightarrow> True | Some t \<Rightarrow> t \<in> en_time ` set (old @ new)"
  shows "\<exists>r lss ls. setQLogReader env older l = Some r \<and> reader_left r lss ls \<and>
    list_all2 (line_of env) ls (filter (\<lambda>e. case older of None \<Rightarrow> True | Some t \<Rightarrow> en_time e < t) (old @ new))"
proof -
  let ?r = "newQLogReader [ql_old l, ql_file l]"
  from log_reader [OF assms(1)] obtain lss where lss: "shows_files (qr_files ?r) lss" "log_files (de_time (qe_dec env)) lss"
    "list_all2 (line_of env) (concat lss) (old @ new)" "qr_current ?r = length lss" by blast
  show ?thesis
  proof (cases older)
    case None
    then have "setQLogReader env older l = Some (reader_SeekStart ?r)" by (simp add: setQLogReader_def seekRecord_def)
    moreover have "reader_left (reader_SeekStart ?r) lss (concat lss)" by (rule reader_start) (use lss in auto)
    ultimately show ?thesis using None lss(3) by auto
  next
    case (Some t)
    with assms(2) have "t \<in> set (map (times_of env) (concat lss))" unfolding line_times [OF lss(3)] by auto
    then obtain line where line: "line \<in> set (concat lss)" "times_of env line = t" by auto
    from reader_seek_found [OF lss(2,1) line] obtain r1 where r1: "reader_seekTS (de_time (qe_dec env)) t ?r = (None, r1)"
      "reader_left r1 lss (filter (\<lambda>l. times_of env l \<le> t) (concat lss))" by blast
    have "sorted_wrt (<) (map (times_of env) (concat lss))" using lss(2) by (simp add: log_files_def log_lines_def)
    from reader_next(2) [OF r1(2) filter_prefix [OF this line]] obtain r2 where
      "reader_ReadNext r1 = (Inr line, r2)" "reader_left r2 lss (filter (\<lambda>l. times_of env l < t) (concat lss))" by blast
    with r1(1) Some filter_lines [OF lss(3), of t] show ?thesis
      by (auto simp: setQLogReader_def seekRecord_def)
  qed
qed

section \<open>What a search finds\<close>

lemma insert_cmp_first: "\<forall>y \<in> set ys. cmp_le cmp x y \<Longrightarrow> insert_cmp cmp x ys = x # ys"
  by (cases ys) (simp_all add: cmp_le_def)

lemma sort_cmp_sorted: "sorted_wrt (cmp_le cmp) xs \<Longrightarrow> sort_cmp cmp xs = xs"
  by (induction xs) (simp_all add: insert_cmp_first)

lemma wrap64_id: "- (2 ^ 63) \<le> i \<Longrightarrow> i < 2 ^ 63 \<Longrightarrow> wrap64 i = i"
  by (simp add: wrap64_def int_word_sint)

lemma attach_time [simp]: "en_time (attach env e) = en_time e"
  by (simp add: attach_def)

text \<open>The matching entries from the newest on: those of the buffer and those of the files.\<close>

definition matching :: "ql_env \<Rightarrow> 'b query_log \<Rightarrow> search_params \<Rightarrow> qlog_entry list \<Rightarrow> qlog_entry list \<Rightarrow> qlog_entry list" where
  "matching env l p saved mem =
     filter (params_match p) (map (attach env) (rev mem)) @ map (attach env) (filter (file_match env l p) (rev saved))"

lemma matching_sorted:
  assumes "sorted_wrt (<) (map en_time (saved @ mem))"
  shows "sorted_wrt (cmp_le time_compare) (matching env l p saved mem)"
proof -
  have "sorted_wrt (\<lambda>x y. en_time y < en_time x) (rev (saved @ mem))"
    using assms by (simp only: sorted_wrt_rev sorted_wrt_map)
  then have "sorted_wrt (\<lambda>x y. en_time y < en_time x) (map (attach env) (rev mem) @ map (attach env) (rev saved))"
    by (simp add: sorted_wrt_append sorted_wrt_map)
  then have "sorted_wrt (\<lambda>x y. en_time y < en_time x) (matching env l p saved mem)"
    by (auto simp: matching_def sorted_wrt_append sorted_wrt_map sorted_wrt_filter)
  then show ?thesis
    by (rule sorted_wrt_mono_rel [rotated]) (simp add: cmp_le_def time_compare_def cmp_ord_def)
qed

lemma search_core:
  assumes "setQLogReader env (sp_older p) l = Some r" "reader_left r lss ls" "list_all2 (line_of env) ls es"
    and "rb_items ops (ql_buffer l) = mem" "lc_mem (ql_conf l) \<noteq> 0" "sorted_wrt (<) (map en_time (es @ mem))"
    and "sp_max p \<le> 0" "0 \<le> sp_offset p" "0 < sp_limit p" "sp_offset p + sp_limit p < 2 ^ 63"
  shows "\<exists>oldest. ql_search env ops p l =
    Some (take (nat (sp_limit p)) (drop (nat (sp_offset p)) (matching env l p es mem)), oldest)"
proof -
  let ?M = "filter (params_match p) (map (attach env) (rev mem))"
  let ?F = "map (attach env) (filter (file_match env l p) (rev es))"
  define lim where "lim = sp_offset p + sp_limit p"
  have lim: "wrap64 (sp_offset p + sp_limit p) = lim" "0 < lim" using assms(8-10) by (simp_all add: lim_def wrap64_id)
  obtain found cache where mem: "searchMemory env ops p l Map.empty = (found, cache)" by fastforce
  then have found: "found = ?M" "cache_ok env cache"
    using memory_loop_spec [of env Map.empty p "rev mem"] assms(4,5) by (auto simp: searchMemory_def)
  from read_entries_spec [OF assms(2,3) found(2), of "[]" lim l p 0 0] lim(2) assms(7) obtain o1 n' where
    "readEntries env l p r cache lim = Some (take (nat lim) ?F, o1, n')"
    by (auto simp: readEntries_def scanned_def take_map)
  then obtain o2 where files: "searchFiles env p l cache = Some (take (nat lim) ?F, o2, n')"
    using assms(1) lim(1) by (simp add: searchFiles_def)
  have cut: "(if lim < int (length (?M @ take (nat lim) ?F)) then take (nat lim) (?M @ take (nat lim) ?F) else ?M @ take (nat lim) ?F) =
      take (nat lim) (matching env l p es mem)"
    by (auto simp: matching_def min_def)
  have "sorted_wrt (cmp_le time_compare) (take (nat lim) (matching env l p es mem))"
    by (intro sorted_wrt_take matching_sorted assms(6))
  note sorted = sort_cmp_sorted [OF this]
  have "\<exists>oldest. ql_search env ops p l = Some (drop (nat (sp_offset p)) (take (nat lim) (matching env l p es mem)), oldest)"
    unfolding ql_search_def mem files prod.case option.case found(1) Let_def lim(1) cut sorted
    using lim(2) assms(8,9) by auto
  moreover have "nat lim = nat (sp_limit p) + nat (sp_offset p)" using assms(8,9) by (simp add: lim_def nat_add_distrib)
  ultimately show ?thesis by (simp add: drop_take)
qed

lemma file_match_time: "file_match env l p e \<Longrightarrow> case sp_older p of None \<Rightarrow> True | Some t \<Rightarrow> en_time e < t"
  by (auto simp: file_match_def params_match_def split: option.splits)

lemma matching_older:
  "matching env l p (filter (\<lambda>e. case sp_older p of None \<Rightarrow> True | Some t \<Rightarrow> en_time e < t) es) mem = matching env l p es mem"
proof -
  have "(case sp_older p of None \<Rightarrow> True | Some t \<Rightarrow> en_time e < t) \<and> file_match env l p e \<longleftrightarrow> file_match env l p e" for e
    using file_match_time [of env l p e] by blast
  then show ?thesis by (simp add: matching_def rev_filter [symmetric])
qed

definition page :: "search_params \<Rightarrow> qlog_entry list \<Rightarrow> qlog_entry list" where
  "page p es = take (nat (sp_limit p)) (drop (nat (sp_offset p)) es)"

lemma search_finds:
  assumes "log_of env ops l (old, new, mem)" "lc_mem (ql_conf l) \<noteq> 0"
    and "case sp_older p of None \<Rightarrow> True | Some t \<Rightarrow> t \<in> en_time ` set (old @ new)"
    and "sp_max p \<le> 0" "0 \<le> sp_offset p" "0 < sp_limit p" "sp_offset p + sp_limit p < 2 ^ 63"
  shows "\<exists>oldest. ql_search env ops p l = Some (page p (matching env l p (old @ new) mem), oldest)"
proof -
  from log_seek [OF assms(1,3)] obtain r lss ls where
    r: "setQLogReader env (sp_older p) l = Some r" "reader_left r lss ls"
      "list_all2 (line_of env) ls (filter (\<lambda>e. case sp_older p of None \<Rightarrow> True | Some t \<Rightarrow> en_time e < t) (old @ new))" by blast
  have "sorted_wrt (<) (map en_time (filter (\<lambda>e. case sp_older p of None \<Rightarrow> True | Some t \<Rightarrow> en_time e < t) (old @ new) @ mem))"
    using assms(1) by (auto simp: log_of_def sorted_wrt_append sorted_wrt_map sorted_wrt_filter)
  moreover have "rb_items ops (ql_buffer l) = mem" using assms(1) by (simp add: log_of_def)
  ultimately show ?thesis using search_core [OF r _ assms(2) _ assms(4-7)] unfolding matching_older page_def by blast
qed

text \<open>A time behind all entries of the files: the newest of them is passed over.\<close>

lemma search_skips:
  assumes "log_of env ops l (old, new, mem)" "lc_mem (ql_conf l) \<noteq> 0"
    and "sp_older p = Some t" "old @ new = es @ [e]" "\<forall>x \<in> set (old @ new). en_time x < t"
    and "sp_max p \<le> 0" "0 \<le> sp_offset p" "0 < sp_limit p" "sp_offset p + sp_limit p < 2 ^ 63"
  shows "\<exists>oldest. ql_search env ops p l = Some (page p (matching env l p es mem), oldest)"
proof -
  let ?r = "newQLogReader [ql_old l, ql_file l]"
  from log_reader [OF assms(1)] obtain lss where lss: "shows_files (qr_files ?r) lss" "log_files (de_time (qe_dec env)) lss"
    "list_all2 (line_of env) (concat lss) (old @ new)" by blast
  then obtain ls line where ls: "concat lss = ls @ [line]" "list_all2 (line_of env) ls es" "line_of env line e"
    unfolding assms(4) by (auto simp: list_all2_append2 list_all2_Cons2)
  then have c: "length lss - 1 < length lss" by (cases lss) auto
  have "\<forall>m \<in> set (concat lss). times_of env m < t"
    using assms(5) line_times [OF lss(3)] by (metis in_set_conv_nth length_map nth_map)
  moreover have "set (lss ! (length lss - 1)) \<subseteq> set (concat lss)" using nth_mem [OF c] by auto
  ultimately have "\<forall>m \<in> set (lss ! (length lss - 1)). times_of env m < t" by blast
  from reader_seek_late [OF lss(2,1) c this] c obtain r1 where
    r1: "reader_seekTS (de_time (qe_dec env)) t ?r = (None, r1)" "reader_left r1 lss (ls @ [line])"
    by (auto simp: ls(1))
  from reader_next(2) [OF r1(2) refl] obtain r2 where r2: "reader_ReadNext r1 = (Inr line, r2)" "reader_left r2 lss ls" by blast
  have "setQLogReader env (sp_older p) l = Some r2" by (simp add: setQLogReader_def seekRecord_def assms(3) r1(1) r2(1))
  moreover have "sorted_wrt (<) (map en_time (es @ mem))"
    using assms(1) unfolding log_of_def prod.case append_assoc [symmetric] assms(4)
    by (auto simp: sorted_wrt_append)
  moreover have "rb_items ops (ql_buffer l) = mem" using assms(1) by (simp add: log_of_def)
  ultimately show ?thesis using search_core [OF _ r2(2) ls(2) _ assms(2) _ assms(6-9)] unfolding page_def by blast
qed

section \<open>The log as a list of entries\<close>

text \<open>A ring buffer with room for \<open>cap\<close> entries drops the oldest entry when it is full.\<close>

definition ring_laws :: "'b ring_ops \<Rightarrow> nat \<Rightarrow> bool" where
  "ring_laws ops cap \<longleftrightarrow> (\<forall>b. rb_items ops (rb_clear ops b) = []) \<and>
     (\<forall>e b. rb_items ops (rb_push ops e b) = (if length (rb_items ops b) < cap then rb_items ops b else tl (rb_items ops b)) @ [e])"

definition list_ring :: "nat \<Rightarrow> qlog_entry list ring_ops" where
  "list_ring cap = \<lparr>rb_push = (\<lambda>e b. (if length b < cap then b else tl b) @ [e]), rb_items = (\<lambda>b. b), rb_clear = (\<lambda>_. [])\<rparr>"

lemma list_ring_laws: "ring_laws (list_ring cap) cap"
  by (simp add: ring_laws_def list_ring_def)

text \<open>The time of an entry is near the start of its line, which stands for the entry.\<close>

definition starts_with :: "ql_env \<Rightarrow> string \<Rightarrow> qlog_entry \<Rightarrow> bool" where
  "starts_with env line e \<longleftrightarrow>
     (\<forall>rest. de_time (qe_dec env) (readJSONValue (take 512 (line @ rest)) (json_key ''T'')) = Some (en_time e))"

definition writable :: "ql_env \<Rightarrow> qlog_entry \<Rightarrow> bool" where
  "writable env e \<longleftrightarrow> (\<exists>line. qe_encode env e = Some line \<and> line_of env line e \<and> starts_with env line e)"

definition files_work :: "ql_env \<Rightarrow> bool" where
  "files_work env \<longleftrightarrow> qe_open env \<and> qe_write env \<and> qe_rename env"

datatype log_step = AddEntry int add_params | FlushBuffer | CheckRotation int

definition run_step :: "ql_env \<Rightarrow> 'b ring_ops \<Rightarrow> log_step \<Rightarrow> 'b query_log \<Rightarrow> 'b query_log" where
  "run_step env ops st l =
     (case st of
        AddEntry now p \<Rightarrow> snd (ql_Add env ops now p l)
      | FlushBuffer \<Rightarrow> snd (flushLogBuffer env ops l)
      | CheckRotation now \<Rightarrow> checkAndRotate env now l)"

type_synonym log_lists = "qlog_entry list \<times> qlog_entry list \<times> qlog_entry list"

text \<open>What the steps mean for the entries.\<close>

fun list_step :: "ql_env \<Rightarrow> ql_conf \<Rightarrow> log_step \<Rightarrow> log_lists \<Rightarrow> log_lists" where
  "list_step env c (AddEntry now p) (old, new, mem) =
     (if lc_enabled c \<and> ap_validate p = None then (old, new, mem @ [newLogEntry env now p]) else (old, new, mem))"
| "list_step env c FlushBuffer (old, new, mem) = (old, new @ mem, [])"
| "list_step env c (CheckRotation now) (old, new, mem) =
     (if new \<noteq> [] \<and> en_time (hd new) + lc_ivl c \<le> now then (new, [], mem) else (old, new, mem))"

text \<open>There is room for a new entry, which is newer than the others; the file does not grow beyond bounds.\<close>

fun step_ok :: "ql_env \<Rightarrow> ql_conf \<Rightarrow> log_step \<Rightarrow> log_lists \<Rightarrow> bool" where
  "step_ok env c (AddEntry now p) (old, new, mem) \<longleftrightarrow> lc_enabled c \<and> ap_validate p = None \<longrightarrow>
     length mem < max 1 (lc_mem c) \<and> writable env (newLogEntry env now p) \<and> (\<forall>e \<in> set (old @ new @ mem). en_time e < now)"
| "step_ok env c FlushBuffer (old, new, mem) \<longleftrightarrow> length (new @ mem) < 2 ^ 49"
| "step_ok env c (CheckRotation now) s \<longleftrightarrow> True"

fun steps_ok :: "ql_env \<Rightarrow> ql_conf \<Rightarrow> log_step list \<Rightarrow> log_lists \<Rightarrow> bool" where
  "steps_ok env c [] s \<longleftrightarrow> True"
| "steps_ok env c (st # sts) s \<longleftrightarrow> step_ok env c st s \<and> steps_ok env c sts (list_step env c st s)"

definition log_inv :: "ql_env \<Rightarrow> 'b ring_ops \<Rightarrow> 'b query_log \<Rightarrow> log_lists \<Rightarrow> bool" where
  "log_inv env ops l s \<longleftrightarrow> log_of env ops l s \<and>
     (case s of (old, new, mem) \<Rightarrow> (\<forall>e \<in> set mem. writable env e) \<and>
        (\<forall>c. ql_file l = Some c \<longrightarrow> (\<exists>line rest. c = line @ rest \<and> starts_with env line (hd new))))"

lemma newLogEntry_time [simp]: "ap_validate p = None \<Longrightarrow> en_time (newLogEntry env now p) = now"
  by (simp add: newLogEntry_def split: prod.splits)

lemma length_lines: "\<forall>l \<in> set ls. entry_line l \<Longrightarrow> length (lines_data ls) \<le> length ls * maxEntrySize"
  by (induction ls) (auto simp: entry_line_def)

lemma size_bound: "(n :: nat) < 2 ^ 49 \<Longrightarrow> k \<le> n * 16384 \<Longrightarrow> k < 2 ^ 63"
  by simp

lemma writable_lines:
  assumes "\<forall>e \<in> set es. writable env e"
  shows "\<exists>ls. all_some (map (qe_encode env) es) = Some ls \<and> list_all2 (line_of env) ls es \<and>
    (es \<noteq> [] \<longrightarrow> starts_with env (hd ls) (hd es))"
  using assms
proof (induction es)
  case (Cons e es)
  then obtain ls where "all_some (map (qe_encode env) es) = Some ls" "list_all2 (line_of env) ls es" by auto
  moreover from Cons.prems obtain line where "qe_encode env e = Some line" "line_of env line e" "starts_with env line e"
    by (auto simp: writable_def)
  ultimately show ?case by (intro exI [of _ "line # ls"]) simp
qed simp

lemma conf_kept: "ql_conf (run_step env ops st l) = ql_conf l"
  by (auto simp: run_step_def ql_Add_def flushLogBuffer_def encodeEntries_def flushToFile_def checkAndRotate_def rotate_def Let_def
      split: log_step.splits option.splits sum.splits prod.splits)

lemma flush_refines:
  assumes "log_inv env ops l (old, new, mem)" "ring_laws ops cap" "files_work env" "length (new @ mem) < 2 ^ 49"
  shows "log_inv env ops (snd (flushLogBuffer env ops l)) (old, new @ mem, [])"
proof (cases "mem = []")
  case True
  then show ?thesis
    using assms(1) by (simp add: log_inv_def log_of_def flushLogBuffer_def encodeEntries_def)
next
  case False
  have log: "file_of env (ql_old l) old" "file_of env (ql_file l) new" "rb_items ops (ql_buffer l) = mem"
    "sorted_wrt (<) (map en_time (old @ new @ mem))" "\<forall>e \<in> set mem. writable env e"
    using assms(1) by (auto simp: log_inv_def log_of_def)
  from writable_lines [OF log(5)] False obtain ls where ls: "all_some (map (qe_encode env) mem) = Some ls"
    "list_all2 (line_of env) ls mem" "starts_with env (hd ls) (hd mem)" by auto
  define c where "c = (case ql_file l of None \<Rightarrow> [] | Some s \<Rightarrow> s)"
  have flush: "snd (flushLogBuffer env ops l) =
      l\<lparr>ql_buffer := rb_clear ops (ql_buffer l), ql_pending := False, ql_file := Some (c @ lines_data ls)\<rparr>"
    using False log(3) ls(1) assms(3)
    by (simp add: flushLogBuffer_def encodeEntries_def flushToFile_def files_work_def lines_data_def c_def Let_def)
  have "\<exists>ms. c = lines_data ms \<and> list_all2 (line_of env) ms new"
    using log(2) by (auto simp: file_of_def c_def split: option.splits)
  then obtain ms where ms: "c = lines_data ms" "list_all2 (line_of env) ms new" by blast
  have lines: "list_all2 (line_of env) (ms @ ls) (new @ mem)" using ms(2) ls(2) by (rule list_all2_appendI)
  then have "length (ms @ ls) < 2 ^ 49" using assms(4) by (metis list_all2_lengthD)
  moreover have "length (lines_data (ms @ ls)) \<le> length (ms @ ls) * maxEntrySize"
    using line_entries [OF lines] by (intro length_lines) blast
  ultimately have bound: "length (lines_data (ms @ ls)) < 2 ^ 63" unfolding sizes(1) by (rule size_bound)
  have "\<exists>line rest. c @ lines_data ls = line @ rest \<and> starts_with env line (hd (new @ mem))"
  proof (cases "new = []")
    case True
    then have "c = []" using ms by simp
    moreover obtain us where "lines_data ls = hd ls @ us"
      using False ls(2) by (cases ls) auto
    ultimately show ?thesis using True ls(3) by auto
  next
    case new: False
    then obtain s where "ql_file l = Some s" using log(2) by (auto simp: file_of_def split: option.splits)
    then obtain line rest where "c = line @ rest" "starts_with env line (hd new)"
      using assms(1) by (auto simp: log_inv_def c_def)
    with new show ?thesis by auto
  qed
  moreover have "file_of env (Some (c @ lines_data ls)) (new @ mem)"
    using lines bound False ms(1) by (auto simp: file_of_def intro!: exI [of _ "ms @ ls"])
  ultimately show ?thesis
    using log assms(2) by (simp add: flush log_inv_def log_of_def ring_laws_def)
qed

lemma step_refines:
  assumes "log_inv env ops l s" "ring_laws ops (max 1 (lc_mem (ql_conf l)))" "files_work env" "step_ok env (ql_conf l) st s"
  shows "log_inv env ops (run_step env ops st l) (list_step env (ql_conf l) st s)"
proof -
  obtain old new mem where s: "s = (old, new, mem)" by (cases s)
  show ?thesis
  proof (cases st)
    case (AddEntry now p)
    then show ?thesis
      using assms by (auto simp: s run_step_def ql_Add_def log_inv_def log_of_def ring_laws_def Let_def sorted_wrt_append)
  next
    case FlushBuffer
    with flush_refines [of env ops l old new mem] assms show ?thesis by (simp add: s run_step_def)
  next
    case (CheckRotation now)
    show ?thesis
    proof (cases "ql_file l")
      case None
      then have "new = []" using assms(1) by (simp add: s log_inv_def log_of_def file_of_def)
      with None CheckRotation assms(1) show ?thesis
        by (simp add: s run_step_def checkAndRotate_def readFileFirstTimeValue_def rotate_def Let_def)
    next
      case (Some c)
      then obtain line rest where c: "c = line @ rest" "starts_with env line (hd new)" "new \<noteq> []"
        using assms(1) by (auto simp: s log_inv_def log_of_def file_of_def)
      have "c \<noteq> []" using Some assms(1) by (auto simp: s log_inv_def log_of_def file_of_def dest: list_all2_Nil2 [THEN iffD1])
      then have "readFileFirstTimeValue env l = Some (Some (en_time (hd new)))"
        using c(2) Some by (simp add: readFileFirstTimeValue_def c(1) starts_with_def json_key_def)
      then have "checkAndRotate env now l =
          (if now < en_time (hd new) + lc_ivl (ql_conf l) then l else l\<lparr>ql_file := None, ql_old := Some c\<rparr>)"
        using Some assms(3) by (simp add: checkAndRotate_def rotate_def files_work_def)
      then show ?thesis
        using assms(1) c(3) CheckRotation Some
        by (auto simp: s run_step_def log_inv_def log_of_def file_of_def sorted_wrt_append)
    qed
  qed
qed

definition run_steps :: "ql_env \<Rightarrow> 'b ring_ops \<Rightarrow> log_step list \<Rightarrow> 'b query_log \<Rightarrow> 'b query_log" where
  "run_steps env ops sts l = fold (run_step env ops) sts l"

definition list_steps :: "ql_env \<Rightarrow> ql_conf \<Rightarrow> log_step list \<Rightarrow> log_lists \<Rightarrow> log_lists" where
  "list_steps env c sts s = fold (list_step env c) sts s"

lemma steps_refine:
  assumes "log_inv env ops l s" "ring_laws ops (max 1 (lc_mem (ql_conf l)))" "files_work env" "steps_ok env (ql_conf l) sts s"
  shows "log_inv env ops (run_steps env ops sts l) (list_steps env (ql_conf l) sts s) \<and> ql_conf (run_steps env ops sts l) = ql_conf l"
  using assms
proof (induction sts arbitrary: l s)
  case (Cons st sts)
  have "log_inv env ops (run_step env ops st l) (list_step env (ql_conf l) st s)"
    using Cons.prems by (intro step_refines) auto
  from Cons.IH [OF this] Cons.prems show ?case by (simp add: run_steps_def list_steps_def conf_kept)
qed (simp add: run_steps_def list_steps_def)


text \<open>C38: A search for entries older than a time behind all entries of the files, such as that of an entry in the buffer,
  passes over the newest entry of the files.
\<close>

theorem page_skips_newest:
  assumes "log_inv env ops l (old, new, mem)" "lc_mem (ql_conf l) \<noteq> 0"
    and "sp_older p = Some t" "old @ new = es @ [e]" "\<forall>x \<in> set (old @ new). en_time x < t"
    and "sp_max p \<le> 0" "0 \<le> sp_offset p" "0 < sp_limit p" "sp_offset p + sp_limit p < 2 ^ 63"
  shows "\<exists>oldest. ql_search env ops p l = Some (page p (matching env l p es mem), oldest)"
  using search_skips [OF _ assms(2-9)] assms(1) by (simp add: log_inv_def)

text \<open>A query with a negative limit and no offset panics, as the list of entries is cut at a negative index.\<close>

theorem negative_limit_panics:
  assumes "sp_limit p < 0" "- (2 ^ 63) \<le> sp_limit p" "sp_offset p = 0"
  shows "ql_search env ops p l = None"
proof -
  have "wrap64 (sp_limit p) = sp_limit p" using assms by (intro wrap64_id) auto
  with assms show ?thesis by (simp add: ql_search_def Let_def split: prod.splits option.splits)
qed

section \<open>A log with one entry\<close>

definition sample_params :: add_params where
  "sample_params = \<lparr>ap_questions = Some [(''a.'', 1, 1)], ap_ecs = None, ap_answer = None, ap_orig = None, ap_result = None,
     ap_client_id = [], ap_upstream = [], ap_proto = [], ap_ip = Some (Addr4 0x01020304), ap_elapsed = 0, ap_cached = False,
     ap_ad = False\<rparr>"

definition short_entry :: qlog_entry where
  "short_entry = empty_entry\<lparr>en_time := 7, en_host := ''a'', en_ip := Some (Addr4 0x01020304)\<rparr>"

definition sample_line :: string where
  "sample_line = CHR ''{'' # json_key ''T'' @ ''now'' @ CHR 0x22 # json_key ''QH'' @ ''a'' @ CHR 0x22 # json_key ''IP'' @ ''1.2.3.4'' @
     [CHR 0x22, CHR ''}'']"

definition sample_ql_env :: ql_env where
  "sample_ql_env = \<lparr>qe_dec = sample_dec_env,
     qe_tokens = (\<lambda>_. json_tokens (JObj [(''T'', JStr ''now''), (''QH'', JStr ''a''), (''IP'', JStr ''1.2.3.4'')])),
     qe_encode = (\<lambda>_. Some sample_line), qe_find = (\<lambda>_. Some None), qe_has = (\<lambda>_ _. False), qe_open = True, qe_write = True,
     qe_rename = True, qe_remove = True, qe_remove_old = True, qe_type_string = (\<lambda>_. []), qe_class_string = (\<lambda>_. []),
     qe_ascii = Some\<rparr>"

definition sample_conf :: ql_conf where
  "sample_conf = \<lparr>lc_ignored = [], lc_ivl = ql_day, lc_mem = 2, lc_enabled = True, lc_file_enabled = True, lc_anon = False\<rparr>"

definition sample_log :: "qlog_entry list query_log" where
  "sample_log = \<lparr>ql_conf = sample_conf, ql_buffer = [], ql_pending = False, ql_file = None, ql_old = None, ql_anonymize = False\<rparr>"

lemma sample_new_entry: "ap_validate sample_params = None" "newLogEntry sample_ql_env 7 sample_params = short_entry"
  by (simp_all add: sample_params_def ap_validate_def newLogEntry_def short_entry_def empty_entry_def sample_ql_env_def
      NormalizeDomain_def trim_suffix_def has_suffix_def to_lower_def ascii_lower_def)

lemma sample_addr: "net_ParseIP ''1.2.3.4'' = Some (as16 (Addr4 0x01020304))" "addr_string (Addr4 0x01020304) = ''1.2.3.4''"
  by (simp_all add: net_ParseIP_def parse_addr_def parse_ipv4_def digit_val_def be_num_def ipv4_string_def octets_def upt_rec
      num_string.simps digit_char_def char_of_def of_char_def bit_Suc_0_iff)

lemma sample_fields: "readJSONValue sample_line (json_key ''QH'') = ''a''" "readJSONValue sample_line (json_key ''IP'') = ''1.2.3.4''"
  "readJSONValue sample_line (json_key ''CID'') = []" "readJSONValue sample_line (json_key ''T'') = ''now''"
  "readJSONValue (take 512 (sample_line @ rest)) (json_key ''T'') = ''now''"
  by (simp_all add: readJSONValue_def sample_line_def json_key_def has_prefix_def Let_def)

lemma sample_line_of: "line_of sample_ql_env sample_line short_entry" "starts_with sample_ql_env sample_line short_entry"
proof -
  have "entry_line sample_line"
    by (simp add: entry_line_def sample_line_def json_key_def nl_def maxEntrySize_def)
  moreover have "decodeLogEntry sample_dec_env (json_tokens (JObj [(''T'', JStr ''now''), (''QH'', JStr ''a''), (''IP'', JStr ''1.2.3.4'')]))
      = Some short_entry"
    using sample_addr(1)
    by (simp add: decodeLogEntry_def logEntryHandlers_def on_string_def sample_dec_env_def empty_entry_def short_entry_def)
  ultimately show "line_of sample_ql_env sample_line short_entry"
    using sample_fields sample_addr(2)
    by (simp add: line_of_def sample_ql_env_def readQLogTimestamp_def json_key_def sample_dec_env_def short_entry_def
        empty_entry_def ip_text_def)
  show "starts_with sample_ql_env sample_line short_entry"
    by (simp only: starts_with_def sample_fields) (simp add: sample_ql_env_def sample_dec_env_def short_entry_def)
qed

lemma sample_log_inv: "log_inv sample_ql_env (list_ring 2) sample_log ([], [], [])"
  by (simp add: log_inv_def log_of_def file_of_def sample_log_def list_ring_def)

lemma sample_writable: "writable sample_ql_env short_entry"
proof -
  have "qe_encode sample_ql_env short_entry = Some sample_line" by (simp add: sample_ql_env_def)
  with sample_line_of show ?thesis by (auto simp: writable_def)
qed

lemma sample_mem: "lc_mem sample_conf = 2" "lc_enabled sample_conf"
  by (simp_all add: sample_conf_def)

lemma sample_log_facts:
  "ql_conf sample_log = sample_conf" "ring_laws (list_ring 2) (max 1 (lc_mem sample_conf))" "files_work sample_ql_env"
  "steps_ok sample_ql_env sample_conf [AddEntry 7 sample_params, FlushBuffer] ([], [], [])"
  "list_steps sample_ql_env sample_conf [AddEntry 7 sample_params, FlushBuffer] ([], [], []) = ([], [short_entry], [])"
  "lc_mem sample_conf \<noteq> 0"
proof -
  have "max 1 (2 :: nat) = 2" by simp
  with list_ring_laws [of 2] show "ring_laws (list_ring 2) (max 1 (lc_mem sample_conf))" unfolding sample_mem by (simp only:)
qed (simp_all add: sample_log_def files_work_def list_steps_def sample_new_entry sample_writable sample_mem,
  simp add: sample_ql_env_def)


lemma flushed_log_inv:
  "log_inv sample_ql_env (list_ring 2) (run_steps sample_ql_env (list_ring 2) [AddEntry 7 sample_params, FlushBuffer] sample_log)
     ([], [short_entry], []) \<and>
   ql_conf (run_steps sample_ql_env (list_ring 2) [AddEntry 7 sample_params, FlushBuffer] sample_log) = sample_conf"
  using steps_refine [OF sample_log_inv, of "[AddEntry 7 sample_params, FlushBuffer]"] sample_log_facts by simp

theorem page_skips_newest_witness:
  "\<exists>oldest. ql_search sample_ql_env (list_ring 2) (newSearchParams\<lparr>sp_max := 0, sp_older := Some 9\<rparr>)
     (run_steps sample_ql_env (list_ring 2) [AddEntry 7 sample_params, FlushBuffer] sample_log) = Some ([], oldest)"
  using page_skips_newest [of sample_ql_env "list_ring 2"
      "run_steps sample_ql_env (list_ring 2) [AddEntry 7 sample_params, FlushBuffer] sample_log" "[]" "[short_entry]" "[]"
      "newSearchParams\<lparr>sp_max := 0, sp_older := Some 9\<rparr>" 9 "[]" short_entry] flushed_log_inv
  by (simp add: newSearchParams_def sample_conf_def short_entry_def page_def matching_def)

theorem negative_limit_panics_witness: "ql_search sample_ql_env (list_ring 2) (newSearchParams\<lparr>sp_limit := - 1\<rparr>) sample_log = None"
  by (rule negative_limit_panics) (simp_all add: newSearchParams_def)

end
