(* ===== verification/ConfigMigrate.thy ===== *)
theory ConfigMigrate
  imports NetIP
begin

text \<open>
  Package \<^verbatim>\<open>internal/configmigrate\<close>: the upgrades of the configuration file from one schema version to the
  next (\<^verbatim>\<open>v1.go\<close> to \<^verbatim>\<open>v29.go\<close>), their helpers (\<^verbatim>\<open>yaml.go\<close>) and the migrator (\<^verbatim>\<open>migrator.go\<close>).

  A configuration is the tree that the YAML library decodes into: maps with keys in any order, slices, booleans, integers,
  strings and nulls.  A key with a null value of the type of an object is a nil map: reading from it gives nothing, writing
  to it panics.  The maps of the program are shared by reference; here an upgrade takes an object out of the tree and puts
  the changed one back.  A failed upgrade leaves the file alone, so errors carry no tree.
\<close>

section \<open>Values\<close>

datatype yaml =
    YNull
  | YBool bool
  | YInt int
  | YStr string
  | YArr "yaml list"
  | YObj "(string \<times> yaml) list option"
  | YDur int
  | YMode string
  | YStrs "string list"
  | YOther string

text \<open>
  \<^term>\<open>YDur\<close>, \<^term>\<open>YMode\<close> and \<^term>\<open>YStrs\<close> are values of the types of durations, upstream modes and slices of
  strings, which upgrades write; \<^term>\<open>YOther\<close> stands for all other types.  An object is a map or a nil map.
\<close>

type_synonym yobj = "(string, yaml) gomap option"

definition yget :: "yobj \<Rightarrow> string \<Rightarrow> yaml option" where
  "yget ob k = (case ob of None \<Rightarrow> None | Some m \<Rightarrow> gm_get m k)"

definition ydel :: "string \<Rightarrow> yobj \<Rightarrow> yobj" where
  "ydel k ob = map_option (gm_del k) ob"

datatype mig_error =
    WrongType string
  | WrongItem nat
  | BadHash
  | BadHost string
  | UnknownCurrent
  | UnknownTarget
  | BadYaml

datatype 'a mig = Panic | Fail mig_error | Done 'a

fun mbind :: "'a mig \<Rightarrow> ('a \<Rightarrow> 'b mig) \<Rightarrow> 'b mig" where
  "mbind Panic f = Panic"
| "mbind (Fail e) f = Fail e"
| "mbind (Done x) f = f x"

text \<open>Writing to a nil map panics.\<close>

definition yput :: "string \<Rightarrow> yaml \<Rightarrow> yobj \<Rightarrow> yobj mig" where
  "yput k v ob = (case ob of None \<Rightarrow> Panic | Some m \<Rightarrow> Done (Some (gm_put k v m)))"

section \<open>The helpers\<close>

datatype ytype = TAny | TBool | TInt | TStr | TArr | TObj

fun of_ytype :: "ytype \<Rightarrow> yaml \<Rightarrow> bool" where
  "of_ytype TAny v = True"
| "of_ytype TBool (YBool _) = True"
| "of_ytype TInt (YInt _) = True"
| "of_ytype TStr (YStr _) = True"
| "of_ytype TArr (YArr _) = True"
| "of_ytype TObj (YObj _) = True"
| "of_ytype _ _ = False"

text \<open>A nil slice behaves as an empty one.\<close>

fun zero_of :: "ytype \<Rightarrow> yaml" where
  "zero_of TAny = YNull"
| "zero_of TBool = YBool False"
| "zero_of TInt = YInt 0"
| "zero_of TStr = YStr []"
| "zero_of TArr = YArr []"
| "zero_of TObj = YObj None"

text \<open>\<^term>\<open>Inr None\<close>: there is no such key.\<close>

definition fieldVal :: "ytype \<Rightarrow> yobj \<Rightarrow> string \<Rightarrow> (mig_error, yaml option) result" where
  "fieldVal T obj key =
     (case yget obj key of
        None \<Rightarrow> Inr None
      | Some v \<Rightarrow>
          if v = YNull then Inr (Some (zero_of T))
          else if of_ytype T v then Inr (Some v)
          else Inl (WrongType key))"

text \<open>The error, and the source and the destination after the move.\<close>

definition moveVal :: "ytype \<Rightarrow> string \<Rightarrow> string \<Rightarrow> yobj \<times> yobj \<Rightarrow> (mig_error option \<times> yobj \<times> yobj) mig" where
  "moveVal T srcKey dstKey sd =
     (case sd of (src, dst) \<Rightarrow>
       (case fieldVal T src srcKey of
          Inl e \<Rightarrow> Done (Some e, src, dst)
        | Inr None \<Rightarrow> Done (None, src, dst)
        | Inr (Some v) \<Rightarrow> mbind (yput dstKey v dst) (\<lambda>dst'. Done (None, ydel srcKey src, dst'))))"

text \<open>A move within one object.\<close>

definition moveWithin :: "ytype \<Rightarrow> string \<Rightarrow> string \<Rightarrow> yobj \<Rightarrow> yobj mig" where
  "moveWithin T srcKey dstKey obj =
     (case fieldVal T obj srcKey of
        Inl e \<Rightarrow> Fail e
      | Inr None \<Rightarrow> Done obj
      | Inr (Some v) \<Rightarrow> mbind (yput dstKey v obj) (\<lambda>obj'. Done (ydel srcKey obj')))"

text \<open>
  The moves under \<^verbatim>\<open>errors.Join\<close>: all of them are made, and then any error fails.  A single move is a list of one.
\<close>

fun moves :: "(ytype \<times> string \<times> string) list \<Rightarrow> mig_error option \<Rightarrow> yobj \<times> yobj \<Rightarrow> (yobj \<times> yobj) mig" where
  "moves [] None sd = Done sd"
| "moves [] (Some e) sd = Fail e"
| "moves ((T, s, d) # ms) err sd =
     mbind (moveVal T s d sd) (\<lambda>(e, sd'). moves ms (if err = None then e else err) sd')"

definition moveAll :: "(ytype \<times> string \<times> string) list \<Rightarrow> yobj \<Rightarrow> yobj \<Rightarrow> (yobj \<times> yobj) mig" where
  "moveAll ms src dst = moves ms None (src, dst)"

abbreviation moveSame :: "ytype \<Rightarrow> string \<Rightarrow> ytype \<times> string \<times> string" where
  "moveSame T k \<equiv> (T, k, k)"

text \<open>
  The common beginnings: \<open>get_field\<close> ends the upgrade without a change when there is no such key, with the error when
  its type is wrong; \<open>try_field\<close> does not take a wrong type for an error.
\<close>

definition get_field :: "ytype \<Rightarrow> yobj \<Rightarrow> string \<Rightarrow> 'a mig \<Rightarrow> (yaml \<Rightarrow> 'a mig) \<Rightarrow> 'a mig" where
  "get_field T obj key missing f =
     (case fieldVal T obj key of Inl e \<Rightarrow> Fail e | Inr None \<Rightarrow> missing | Inr (Some v) \<Rightarrow> f v)"

definition get_obj :: "yobj \<Rightarrow> string \<Rightarrow> 'a mig \<Rightarrow> (yobj \<Rightarrow> 'a mig) \<Rightarrow> 'a mig" where
  "get_obj obj key missing f = get_field TObj obj key missing (\<lambda>v. case v of YObj m \<Rightarrow> f m | _ \<Rightarrow> missing)"

definition get_arr :: "yobj \<Rightarrow> string \<Rightarrow> 'a mig \<Rightarrow> (yaml list \<Rightarrow> 'a mig) \<Rightarrow> 'a mig" where
  "get_arr obj key missing f = get_field TArr obj key missing (\<lambda>v. case v of YArr xs \<Rightarrow> f xs | _ \<Rightarrow> missing)"

definition try_field :: "ytype \<Rightarrow> yobj \<Rightarrow> string \<Rightarrow> yaml option" where
  "try_field T obj key = (case fieldVal T obj key of Inl e \<Rightarrow> None | Inr v \<Rightarrow> v)"

text \<open>Integers as \<^verbatim>\<open>fieldVal\<close> gives them, zero when there is none.\<close>

definition int_or_zero :: "yaml option \<Rightarrow> int" where
  "int_or_zero v = (case v of Some (YInt n) \<Rightarrow> n | _ \<Rightarrow> 0)"

definition true_value :: "yaml option \<Rightarrow> bool" where
  "true_value v = (v = Some (YBool True))"

definition duration64 :: "int \<Rightarrow> int \<Rightarrow> int" where
  "duration64 n unit = sint (word_of_int (n * unit) :: 64 word)"

definition day_ns :: int where
  "day_ns = 86400000000000"

definition hour_ns :: int where
  "hour_ns = 3600000000000"

section \<open>The upgrades\<close>

text \<open>
  The library functions and the environment that upgrades rely on: hashing a password, parsing and printing a URL, splitting
  a host from an address, printing a duration, the pattern of the user filters, and reading and writing YAML.
\<close>

record up_url =
  uu_scheme :: string
  uu_host :: string
  uu_rest :: "string list"

record mig_env =
  me_hash :: "string \<Rightarrow> string option"
  me_url :: "string \<Rightarrow> up_url option"
  me_url_string :: "up_url \<Rightarrow> string"
  me_split_host :: "string \<Rightarrow> string option"
  me_dur_string :: "int \<Rightarrow> string"
  me_userfilters :: string
  me_parse :: "string \<Rightarrow> yobj option"
  me_encode :: "yobj \<Rightarrow> string option"

definition set_version :: "int \<Rightarrow> yobj \<Rightarrow> (yobj \<Rightarrow> yobj mig) \<Rightarrow> yobj mig" where
  "set_version n c f = mbind (yput ''schema_version'' (YInt n) c) f"

text \<open>
  Putting a changed object or slice back in its place.  Behind a null there is nothing that could have been changed.
\<close>

definition put_back :: "string \<Rightarrow> yaml \<Rightarrow> yobj \<Rightarrow> yobj mig" where
  "put_back key v c = (if yget c key = Some YNull then Done c else yput key v c)"

text \<open>The common form: the object under a key is changed in place, or left alone if there is none.\<close>

definition on_obj :: "string \<Rightarrow> (yobj \<Rightarrow> yobj mig) \<Rightarrow> yobj \<Rightarrow> yobj mig" where
  "on_obj key f c = get_obj c key (Done c) (\<lambda>ob. mbind (f ob) (\<lambda>ob'. put_back key (YObj ob') c))"

text \<open>A loop over the items of a slice, with their indices.\<close>

fun each_item :: "(nat \<Rightarrow> yaml \<Rightarrow> yaml mig) \<Rightarrow> nat \<Rightarrow> yaml list \<Rightarrow> yaml list mig" where
  "each_item f i [] = Done []"
| "each_item f i (x # xs) = mbind (f i x) (\<lambda>y. mbind (each_item f (i + 1) xs) (\<lambda>ys. Done (y # ys)))"

definition migrateTo1 :: "yobj \<Rightarrow> yobj mig" where
  "migrateTo1 c = set_version 1 c Done"

definition migrateTo2 :: "yobj \<Rightarrow> yobj mig" where
  "migrateTo2 c = set_version 2 c (moveWithin TAny ''coredns'' ''dns'')"

definition migrateTo3 :: "yobj \<Rightarrow> yobj mig" where
  "migrateTo3 c = set_version 3 c (on_obj ''dns'' (\<lambda>dns.
     get_field TAny dns ''bootstrap_dns'' (Done dns) (\<lambda>v. yput ''bootstrap_dns'' (YArr [v]) dns)))"

definition migrateTo4 :: "yobj \<Rightarrow> yobj mig" where
  "migrateTo4 c = set_version 4 c (\<lambda>c.
     case try_field TArr c ''clients'' of
       Some (YArr xs) \<Rightarrow>
         mbind (each_item (\<lambda>_ x. case x of
             YObj ob \<Rightarrow> mbind (yput ''use_global_blocked_services'' (YBool True) ob) (\<lambda>ob'. Done (YObj ob'))
           | _ \<Rightarrow> Done x) 0 xs)
           (\<lambda>ys. put_back ''clients'' (YArr ys) c)
     | _ \<Rightarrow> Done c)"

text \<open>A login without a password is dropped.\<close>

definition migrateTo5 :: "mig_env \<Rightarrow> yobj \<Rightarrow> yobj mig" where
  "migrateTo5 env c = set_version 5 c (\<lambda>c.
     mbind (moveAll [(TStr, ''auth_name'', ''name'')] c (Some [])) (\<lambda>(c, user).
     get_field TStr c ''auth_pass'' (Done c) (\<lambda>v.
       let c = ydel ''auth_pass'' c in
       case me_hash env (case v of YStr s \<Rightarrow> s | _ \<Rightarrow> []) of
         None \<Rightarrow> Fail BadHash
       | Some h \<Rightarrow> mbind (yput ''password'' (YStr h) user) (\<lambda>user. yput ''users'' (YArr [YObj user]) c))))"

fun mig_client_ids :: "string list \<Rightarrow> yobj \<Rightarrow> yaml list mig" where
  "mig_client_ids [] ob = Done []"
| "mig_client_ids (k # ks) ob =
     (case fieldVal TStr ob k of
        Inl e \<Rightarrow> Fail e
      | Inr v \<Rightarrow> mbind (mig_client_ids ks ob) (\<lambda>ids.
          Done (case v of Some (YStr s) \<Rightarrow> if s = [] then ids else YStr s # ids | _ \<Rightarrow> ids)))"

definition migrateTo6 :: "yobj \<Rightarrow> yobj mig" where
  "migrateTo6 c = set_version 6 c (\<lambda>c. get_arr c ''clients'' (Done c) (\<lambda>xs.
     mbind (each_item (\<lambda>i x. case x of
         YObj ob \<Rightarrow> mbind (mig_client_ids [''ip'', ''mac''] ob) (\<lambda>ids. mbind (yput ''ids'' (YArr ids) ob) (\<lambda>ob'. Done (YObj ob')))
       | _ \<Rightarrow> Fail (WrongItem i)) 0 xs)
       (\<lambda>ys. put_back ''clients'' (YArr ys) c)))"

definition migrateTo7 :: "yobj \<Rightarrow> yobj mig" where
  "migrateTo7 c = set_version 7 c (\<lambda>c.
     case try_field TObj c ''dhcp'' of
       Some (YObj dhcp) \<Rightarrow>
         mbind (moveAll [moveSame TStr ''gateway_ip'', moveSame TStr ''subnet_mask'', moveSame TStr ''range_start'',
             moveSame TStr ''range_end'', moveSame TInt ''lease_duration'', moveSame TInt ''icmp_timeout_msec''] dhcp (Some []))
           (\<lambda>(dhcp, v4). mbind (yput ''dhcpv4'' (YObj v4) dhcp) (\<lambda>dhcp. put_back ''dhcp'' (YObj dhcp) c))
     | _ \<Rightarrow> Done c)"

definition migrateTo8 :: "yobj \<Rightarrow> yobj mig" where
  "migrateTo8 c = set_version 8 c (on_obj ''dns'' (\<lambda>dns.
     get_field TStr dns ''bind_host'' (Done dns) (\<lambda>v. yput ''bind_hosts'' (YArr [v]) (ydel ''bind_host'' dns))))"

definition migrateTo9 :: "yobj \<Rightarrow> yobj mig" where
  "migrateTo9 c = set_version 9 c (on_obj ''dns'' (moveWithin TStr ''autohost_tld'' ''local_domain_name''))"

function split_str :: "string \<Rightarrow> string \<Rightarrow> string list" where
  "split_str sep [] = [[]]"
| "split_str sep (c # cs) =
     (if has_prefix (c # cs) sep then [] # split_str sep (drop (length sep - 1) cs)
      else case split_str sep cs of [] \<Rightarrow> [[c]] | p # ps \<Rightarrow> (c # p) # ps)"
  by pat_completeness auto
termination by (relation "measure (\<lambda>(_, s). length s)") auto

fun has_infix :: "string \<Rightarrow> string \<Rightarrow> bool" where
  "has_infix [] sub = (sub = [])"
| "has_infix (c # cs) sub = (has_prefix (c # cs) sub \<or> has_infix cs sub)"

definition addQUICPort :: "mig_env \<Rightarrow> int \<Rightarrow> string \<Rightarrow> string" where
  "addQUICPort env port ups =
     (if ups = [] \<or> hd ups = CHR ''#'' then ups
      else
        let parts = (if has_prefix ups ''[/''
               then (case split_str ''/]'' (drop 2 ups) of [d, u] \<Rightarrow> Some (''[/'' @ d @ ''/]'', u) | _ \<Rightarrow> None)
               else Some ([], ups))
        in case parts of
          None \<Rightarrow> ups
        | Some (doms, withPort) \<Rightarrow>
            if \<not> has_infix withPort ''://'' then ups
            else case me_url env withPort of
              None \<Rightarrow> ups
            | Some u \<Rightarrow>
                if uu_scheme u \<noteq> ''quic'' then ups
                else if me_split_host env (uu_host u) \<noteq> Some (uu_host u) then ups
                else doms @ me_url_string env (u\<lparr>uu_host := uu_host u @ '':'' @ dec_int port\<rparr>))"

definition addQUICPorts :: "mig_env \<Rightarrow> int \<Rightarrow> yaml list \<Rightarrow> yaml list mig" where
  "addQUICPorts env port = each_item (\<lambda>i x. case x of YStr u \<Rightarrow> Done (YStr (addQUICPort env port u)) | _ \<Rightarrow> Fail (WrongItem i)) 0"

definition quic_ports :: "mig_env \<Rightarrow> string \<Rightarrow> yobj \<Rightarrow> yobj mig" where
  "quic_ports env key dns =
     get_arr dns key (Done dns) (\<lambda>ups. mbind (addQUICPorts env 784 ups) (\<lambda>ups. yput key (YArr ups) dns))"

definition migrateTo10 :: "mig_env \<Rightarrow> yobj \<Rightarrow> yobj mig" where
  "migrateTo10 env c = set_version 10 c (on_obj ''dns'' (\<lambda>dns.
     mbind (quic_ports env ''upstream_dns'' dns) (quic_ports env ''local_ptr_upstreams'')))"

definition migrateTo11 :: "yobj \<Rightarrow> yobj mig" where
  "migrateTo11 c = set_version 11 c (\<lambda>c.
     case fieldVal TInt c ''rlimit_nofile'' of
       Inl e \<Rightarrow> Fail e
     | Inr v \<Rightarrow> yput ''os'' (YObj (Some [(''group'', YStr []), (''rlimit_nofile'', YInt (int_or_zero v)), (''user'', YStr [])]))
         (ydel ''rlimit_nofile'' c))"

definition migrateTo12 :: "yobj \<Rightarrow> yobj mig" where
  "migrateTo12 c = set_version 12 c (on_obj ''dns'' (\<lambda>dns.
     case fieldVal TInt dns ''querylog_interval'' of
       Inl e \<Rightarrow> Fail e
     | Inr v \<Rightarrow> yput ''querylog_interval'' (YDur (duration64 (if v = None then 90 else int_or_zero v) day_ns)) dns))"

definition migrateTo13 :: "yobj \<Rightarrow> yobj mig" where
  "migrateTo13 c = set_version 13 c (\<lambda>c.
     get_obj c ''dns'' (Done c) (\<lambda>dns. get_obj c ''dhcp'' (Done c) (\<lambda>dhcp.
       mbind (moveAll [moveSame TStr ''local_domain_name''] dns dhcp) (\<lambda>(dns, dhcp).
       mbind (put_back ''dns'' (YObj dns) c) (put_back ''dhcp'' (YObj dhcp))))))"

definition runtime_sources :: yobj where
  "runtime_sources = Some [(''whois'', YBool True), (''arp'', YBool True), (''rdns'', YBool False), (''dhcp'', YBool True),
     (''hosts'', YBool True)]"

definition new_clients :: "yaml \<Rightarrow> yobj \<Rightarrow> yaml" where
  "new_clients persistent runtime = YObj (Some [(''persistent'', persistent), (''runtime_sources'', YObj runtime)])"

definition migrateTo14 :: "yobj \<Rightarrow> yobj mig" where
  "migrateTo14 c = set_version 14 c (\<lambda>c.
     case fieldVal TArr c ''clients'' of
       Inl e \<Rightarrow> Fail e
     | Inr v \<Rightarrow>
         let persistent = (case v of None \<Rightarrow> YArr [] | Some xs \<Rightarrow> xs) in
         mbind (yput ''clients'' (new_clients persistent runtime_sources) c) (\<lambda>c.
         get_obj c ''dns'' (Done c) (\<lambda>dns.
           mbind (moveAll [(TBool, ''resolve_clients'', ''rdns'')] dns runtime_sources) (\<lambda>(dns, runtime).
           mbind (yput ''clients'' (new_clients persistent runtime) c) (put_back ''dns'' (YObj dns))))))"

definition migrateTo15 :: "yobj \<Rightarrow> yobj mig" where
  "migrateTo15 c = set_version 15 c (\<lambda>c. get_obj c ''dns'' (Done c) (\<lambda>dns.
     mbind (moveAll [(TBool, ''querylog_enabled'', ''enabled''), (TBool, ''querylog_file_enabled'', ''file_enabled''),
         (TAny, ''querylog_interval'', ''interval''), (TInt, ''querylog_size_memory'', ''size_memory'')] dns
         (Some [(''ignored'', YArr []), (''enabled'', YBool True), (''file_enabled'', YBool True), (''interval'', YStr ''2160h''),
           (''size_memory'', YInt 1000)]))
       (\<lambda>(dns, qlog). mbind (yput ''querylog'' (YObj qlog) c) (put_back ''dns'' (YObj dns)))))"

definition stats_conf :: "bool \<Rightarrow> int \<Rightarrow> yaml" where
  "stats_conf enabled interval = YObj (Some [(''enabled'', YBool enabled), (''interval'', YInt interval), (''ignored'', YArr [])])"

definition migrateTo16 :: "yobj \<Rightarrow> yobj mig" where
  "migrateTo16 c = set_version 16 c (\<lambda>c. get_obj c ''dns'' (Done c) (\<lambda>dns.
     get_field TInt dns ''statistics_interval'' (yput ''statistics'' (stats_conf True 1) c) (\<lambda>v.
       let ivl = int_or_zero (Some v) in
       mbind (yput ''statistics'' (if ivl = 0 then stats_conf False 1 else stats_conf True ivl) c)
         (put_back ''dns'' (YObj (ydel ''statistics_interval'' dns))))))"

definition migrateTo17 :: "yobj \<Rightarrow> yobj mig" where
  "migrateTo17 c = set_version 17 c (on_obj ''dns'' (\<lambda>dns.
     yput ''edns_client_subnet'' (YObj (Some [(''enabled'', YBool (true_value (try_field TBool dns ''edns_client_subnet''))),
       (''use_custom'', YBool False), (''custom_ip'', YStr [])])) dns))"

definition all_engines :: yobj where
  "all_engines = Some [(''enabled'', YBool True), (''bing'', YBool True), (''duckduckgo'', YBool True), (''google'', YBool True),
     (''pixabay'', YBool True), (''yandex'', YBool True), (''youtube'', YBool True)]"

definition migrateTo18 :: "yobj \<Rightarrow> yobj mig" where
  "migrateTo18 c = set_version 18 c (on_obj ''dns'' (\<lambda>dns.
     mbind (yput ''safe_search'' (YObj all_engines) dns) (\<lambda>dns.
     mbind (moveAll [(TBool, ''safesearch_enabled'', ''enabled'')] dns all_engines) (\<lambda>(dns, safe).
     yput ''safe_search'' (YObj safe) dns))))"

text \<open>An error of the move is only logged.\<close>

definition migrateTo19 :: "yobj \<Rightarrow> yobj mig" where
  "migrateTo19 c = set_version 19 c (on_obj ''clients'' (\<lambda>clients.
     case try_field TArr clients ''persistent'' of
       Some (YArr xs) \<Rightarrow>
         mbind (each_item (\<lambda>_ x. case x of
             YObj ob \<Rightarrow> mbind (moveVal TBool ''safesearch_enabled'' ''enabled'' (ob, all_engines)) (\<lambda>(_, ob, safe).
               mbind (yput ''safe_search'' (YObj safe) ob) (\<lambda>ob. Done (YObj ob)))
           | _ \<Rightarrow> Done x) 0 xs)
           (\<lambda>ys. put_back ''persistent'' (YArr ys) clients)
     | _ \<Rightarrow> Done clients))"

definition migrateTo20 :: "yobj \<Rightarrow> yobj mig" where
  "migrateTo20 c = set_version 20 c (on_obj ''statistics'' (\<lambda>stats.
     case fieldVal TInt stats ''interval'' of
       Inl e \<Rightarrow> Fail e
     | Inr v \<Rightarrow>
         let ivl = int_or_zero v in yput ''interval'' (YDur (duration64 (if ivl = 0 then 1 else ivl) day_ns)) stats))"

definition local_schedule :: yaml where
  "local_schedule = YObj (Some [(''time_zone'', YStr ''Local'')])"

definition migrateTo21 :: "yobj \<Rightarrow> yobj mig" where
  "migrateTo21 c = set_version 21 c (on_obj ''dns'' (\<lambda>dns.
     mbind (moveAll [(TArr, ''blocked_services'', ''ids'')] dns (Some [(''schedule'', local_schedule)])) (\<lambda>(dns, svcs).
     yput ''blocked_services'' (YObj svcs) dns)))"

definition migrateTo22 :: "yobj \<Rightarrow> yobj mig" where
  "migrateTo22 c = set_version 22 c (on_obj ''clients'' (\<lambda>clients.
     get_arr clients ''persistent'' (Done clients) (\<lambda>xs.
       mbind (each_item (\<lambda>i x. case x of
           YObj ob \<Rightarrow> get_field TArr ob ''blocked_services'' (Done x) (\<lambda>services.
             mbind (yput ''blocked_services'' (YObj (Some [(''ids'', services), (''schedule'', local_schedule)])) ob)
               (\<lambda>ob. Done (YObj ob)))
         | _ \<Rightarrow> Fail (WrongItem i)) 0 xs)
         (\<lambda>ys. put_back ''persistent'' (YArr ys) clients))))"

definition addr_port_string :: "addr \<Rightarrow> 16 word \<Rightarrow> string" where
  "addr_port_string a port =
     (if is4 a then addr_string a else ''['' @ addr_string a @ '']'') @ '':'' @ dec_int (uint port)"

definition migrateTo23 :: "mig_env \<Rightarrow> yobj \<Rightarrow> yobj mig" where
  "migrateTo23 env c = set_version 23 c (\<lambda>c.
     get_field TStr c ''bind_host'' (Done c) (\<lambda>v.
       let bindHost = (case v of YStr s \<Rightarrow> s | _ \<Rightarrow> []) in
       case parse_addr bindHost of
         None \<Rightarrow> Fail (BadHost bindHost)
       | Some a \<Rightarrow>
           (case fieldVal TInt c ''bind_port'' of
              Inl e \<Rightarrow> Fail e
            | Inr port \<Rightarrow>
                (case fieldVal TInt c ''web_session_ttl'' of
                   Inl e \<Rightarrow> Fail e
                 | Inr ttl \<Rightarrow>
                     mbind (yput ''http'' (YObj (Some [
                         (''address'', YStr (addr_port_string a (word_of_int (int_or_zero port)))),
                         (''session_ttl'', YStr (me_dur_string env (duration64 (int_or_zero ttl) hour_ns)))])) c)
                       (\<lambda>c. Done (ydel ''web_session_ttl'' (ydel ''bind_port'' (ydel ''bind_host'' c))))))))"

definition log_moves :: "(ytype \<times> string \<times> string) list" where
  "log_moves = [
     (TStr, ''log_file'', ''file''), (TInt, ''log_max_backups'', ''max_backups''), (TInt, ''log_max_size'', ''max_size''),
     (TInt, ''log_max_age'', ''max_age''), (TBool, ''log_compress'', ''compress''), (TBool, ''log_localtime'', ''local_time''),
     (TBool, ''verbose'', ''verbose'')]"

definition migrateTo24 :: "yobj \<Rightarrow> yobj mig" where
  "migrateTo24 c = set_version 24 c (\<lambda>c.
     mbind (moveAll log_moves c (Some []))
       (\<lambda>(c, logObj). if logObj = Some [] then Done c else yput ''log'' (YObj logObj) c))"

definition migrateTo25 :: "yobj \<Rightarrow> yobj mig" where
  "migrateTo25 c = set_version 25 c (\<lambda>c. get_obj c ''http'' (Done c) (\<lambda>http.
     mbind (moveAll [(TBool, ''debug_pprof'', ''enabled'')] c (Some [(''enabled'', YBool False), (''port'', YInt 6060)])) (\<lambda>(c, pprof).
     mbind (yput ''pprof'' (YObj pprof) http) (\<lambda>http. put_back ''http'' (YObj http) c))))"

definition filtering_moves :: "(ytype \<times> string \<times> string) list" where
  "filtering_moves = [
     moveSame TBool ''filtering_enabled'', moveSame TInt ''filters_update_interval'', moveSame TBool ''parental_enabled'',
     moveSame TBool ''safebrowsing_enabled'', moveSame TInt ''safebrowsing_cache_size'', moveSame TInt ''safesearch_cache_size'',
     moveSame TInt ''parental_cache_size'', moveSame TObj ''safe_search'', moveSame TArr ''rewrites'', moveSame TObj ''blocked_services'',
     moveSame TBool ''protection_enabled'', moveSame TStr ''blocking_mode'', moveSame TStr ''blocking_ipv4'', moveSame TStr ''blocking_ipv6'',
     moveSame TInt ''blocked_response_ttl'', moveSame TAny ''protection_disabled_until'', moveSame TStr ''parental_block_host'',
     moveSame TStr ''safebrowsing_block_host'']"

definition migrateTo26 :: "yobj \<Rightarrow> yobj mig" where
  "migrateTo26 c = set_version 26 c (\<lambda>c. get_obj c ''dns'' (Done c) (\<lambda>dns.
     mbind (moveAll filtering_moves dns (Some []))
       (\<lambda>(dns, filteringObj).
         mbind (put_back ''dns'' (YObj dns) c) (\<lambda>c.
         if filteringObj = Some [] then Done c else yput ''filtering'' (YObj filteringObj) c))))"

definition replaceDot :: "string \<Rightarrow> yobj \<Rightarrow> yobj mig" where
  "replaceDot key = on_obj key (\<lambda>ob. get_arr ob ''ignored'' (Done ob) (\<lambda>xs.
     put_back ''ignored'' (YArr (map (\<lambda>x. if x = YStr ''.'' then YStr ''|.^'' else x) xs)) ob))"

definition migrateTo27 :: "yobj \<Rightarrow> yobj mig" where
  "migrateTo27 c = set_version 27 c (\<lambda>c. mbind (replaceDot ''querylog'' c) (replaceDot ''statistics''))"

definition migrateTo28 :: "yobj \<Rightarrow> yobj mig" where
  "migrateTo28 c = set_version 28 c (on_obj ''dns'' (\<lambda>dns.
     mbind (yput ''upstream_mode'' (YMode (
         if true_value (try_field TBool dns ''all_servers'') then ''parallel''
         else if true_value (try_field TBool dns ''fastest_addr'') then ''fastest_addr''
         else ''load_balance'')) dns)
       (\<lambda>dns. Done (ydel ''fastest_addr'' (ydel ''all_servers'' dns)))))"

fun filter_paths :: "nat \<Rightarrow> yaml list \<Rightarrow> string list mig" where
  "filter_paths i [] = Done []"
| "filter_paths i (YObj f # xs) =
     mbind (filter_paths (i + 1) xs) (\<lambda>ps.
       Done (case try_field TStr f ''url'' of Some (YStr u) \<Rightarrow> if has_prefix u ''/'' then u # ps else ps | _ \<Rightarrow> ps))"
| "filter_paths i (_ # xs) = Fail (WrongItem i)"

definition migrateTo29 :: "mig_env \<Rightarrow> yobj \<Rightarrow> yobj mig" where
  "migrateTo29 env c = set_version 29 c (\<lambda>c. get_arr c ''filters'' (Done c) (\<lambda>xs.
     mbind (filter_paths 0 xs) (\<lambda>ps.
     on_obj ''filtering'' (yput ''safe_fs_patterns'' (YStrs (me_userfilters env # ps))) c)))"

section \<open>The migrator\<close>

definition LastSchemaVersion :: nat where
  "LastSchemaVersion = 29"

definition mig_upgrades :: "mig_env \<Rightarrow> (yobj \<Rightarrow> yobj mig) list" where
  "mig_upgrades env = [migrateTo1, migrateTo2, migrateTo3, migrateTo4, migrateTo5 env, migrateTo6, migrateTo7, migrateTo8, migrateTo9,
     migrateTo10 env, migrateTo11, migrateTo12, migrateTo13, migrateTo14, migrateTo15, migrateTo16, migrateTo17, migrateTo18,
     migrateTo19, migrateTo20, migrateTo21, migrateTo22, migrateTo23 env, migrateTo24, migrateTo25, migrateTo26, migrateTo27,
     migrateTo28, migrateTo29 env]"

fun run_upgrades :: "(yobj \<Rightarrow> yobj mig) list \<Rightarrow> yobj \<Rightarrow> yobj mig" where
  "run_upgrades [] c = Done c"
| "run_upgrades (f # fs) c = mbind (f c) (run_upgrades fs)"

definition upgradeConfigSchema :: "mig_env \<Rightarrow> nat \<Rightarrow> nat \<Rightarrow> yobj \<Rightarrow> yobj mig" where
  "upgradeConfigSchema env current target = run_upgrades (take (target - current) (drop current (mig_upgrades env)))"

definition validateVersion :: "nat \<Rightarrow> nat \<Rightarrow> mig_error option" where
  "validateVersion current target =
     (if target < current then Some UnknownCurrent
      else if LastSchemaVersion < target then Some UnknownTarget
      else None)"

text \<open>The result has the new body and whether it was upgraded; after an error the body stays as it was.\<close>

definition Migrate :: "mig_env \<Rightarrow> string \<Rightarrow> nat \<Rightarrow> (string \<times> bool) mig" where
  "Migrate env body target =
     (case me_parse env body of
        None \<Rightarrow> Fail BadYaml
      | Some c \<Rightarrow>
          (case fieldVal TInt c ''schema_version'' of
             Inl e \<Rightarrow> Fail e
           | Inr v \<Rightarrow>
               let current = unat (word_of_int (int_or_zero v) :: 64 word) in
               case validateVersion current target of
                 Some e \<Rightarrow> Fail e
               | None \<Rightarrow>
                   if current = target then Done (body, False)
                   else mbind (upgradeConfigSchema env current target c) (\<lambda>c'.
                     case me_encode env c' of None \<Rightarrow> Fail BadYaml | Some b \<Rightarrow> Done (b, True))))"

end
