(* ===== verification/ConfigMigrateProps.thy ===== *)
theory ConfigMigrateProps
  imports ConfigMigrate
begin

text \<open>
  The upgrades of a configuration whose sections are not null never panic, reach the version they aim at, and leave every
  key alone that is not theirs.
\<close>

section \<open>Postconditions\<close>

text \<open>No panic, and a postcondition of the result if there is one.\<close>

definition mig_ok :: "'a mig \<Rightarrow> ('a \<Rightarrow> bool) \<Rightarrow> bool" where
  "mig_ok m Q = (case m of Panic \<Rightarrow> False | Fail _ \<Rightarrow> True | Done x \<Rightarrow> Q x)"

named_theorems mig_wp

lemma mig_ok_simps [simp, mig_wp]: "mig_ok (Fail e) Q" "mig_ok (Done x) Q = Q x" "\<not> mig_ok Panic Q"
  by (simp_all add: mig_ok_def)

lemma mig_ok_mbind [simp, mig_wp]: "mig_ok (mbind m f) Q = mig_ok m (\<lambda>x. mig_ok (f x) Q)"
  by (cases m) simp_all

lemma mig_ok_mono: "mig_ok m P \<Longrightarrow> (\<And>x. P x \<Longrightarrow> Q x) \<Longrightarrow> mig_ok m Q"
  by (cases m) simp_all

lemma yput_Some [simp]: "yput k v (Some m) = Done (Some (gm_put k v m))"
  by (simp add: yput_def)

lemma yget_Some [simp]: "yget (Some m) k = gm_get m k"
  by (simp add: yget_def)

lemma yget_None [simp]: "yget None k = None"
  by (simp add: yget_def)

lemma ydel_Some [simp]: "ydel k (Some m) = Some (gm_del k m)"
  by (simp add: ydel_def)

text \<open>The sections that upgrades write to.\<close>

definition sections :: "string list" where
  "sections = [''coredns'', ''dns'', ''dhcp'', ''clients'', ''statistics'', ''http'', ''querylog'', ''filtering'']"

definition is_null :: "yaml \<Rightarrow> bool" where
  "is_null v \<longleftrightarrow> v = YNull \<or> v = YObj None"

text \<open>The list of clients, in its place before and after version 14.\<close>

definition client_items :: "yaml option \<Rightarrow> yaml list" where
  "client_items v =
     (case v of
        Some (YArr xs) \<Rightarrow> xs
      | Some (YObj ob) \<Rightarrow> (case yget ob ''persistent'' of Some (YArr xs) \<Rightarrow> xs | _ \<Rightarrow> [])
      | _ \<Rightarrow> [])"

definition conf_ok :: "(string, yaml) gomap \<Rightarrow> bool" where
  "conf_ok m \<longleftrightarrow> (\<forall>k \<in> set sections. \<forall>v. gm_get m k = Some v \<longrightarrow> \<not> is_null v) \<and>
     YObj None \<notin> set (client_items (gm_get m ''clients''))"

text \<open>The keys that upgrades write, move or delete.\<close>

definition upgraded_keys :: "string list" where
  "upgraded_keys = sections @ [''schema_version'', ''auth_name'', ''auth_pass'', ''users'', ''rlimit_nofile'', ''os'',
     ''bind_host'', ''bind_port'', ''web_session_ttl'', ''log_file'', ''log_max_backups'', ''log_max_size'', ''log_max_age'',
     ''log_compress'', ''log_localtime'', ''verbose'', ''log'', ''debug_pprof'']"

definition upgraded_to :: "(string, yaml) gomap \<Rightarrow> int \<Rightarrow> yobj \<Rightarrow> bool" where
  "upgraded_to m n c \<longleftrightarrow> (\<exists>m'. c = Some m' \<and> conf_ok m' \<and> gm_get m' ''schema_version'' = Some (YInt n) \<and>
     (\<forall>k. k \<notin> set upgraded_keys \<longrightarrow> gm_get m' k = gm_get m k))"

definition upgrade_ok :: "int \<Rightarrow> (yobj \<Rightarrow> yobj mig) \<Rightarrow> bool" where
  "upgrade_ok n f \<longleftrightarrow> (\<forall>m. conf_ok m \<longrightarrow> mig_ok (f (Some m)) (upgraded_to m n))"

text \<open>The same for what is left of an upgrade once the version is set, with the keys it touches.\<close>

definition step_ok :: "string list \<Rightarrow> (yobj \<Rightarrow> yobj mig) \<Rightarrow> bool" where
  "step_ok ks f \<longleftrightarrow> (\<forall>m. conf_ok m \<longrightarrow> mig_ok (f (Some m)) (\<lambda>c. \<exists>m'. c = Some m' \<and> conf_ok m' \<and>
     (\<forall>k. k \<notin> set ks \<longrightarrow> gm_get m' k = gm_get m k)))"

lemma conf_ok_put:
  "conf_ok m \<Longrightarrow> k \<in> set sections \<longrightarrow> \<not> is_null v \<Longrightarrow> k = ''clients'' \<longrightarrow> YObj None \<notin> set (client_items (Some v)) \<Longrightarrow> conf_ok (gm_put k v m)"
  by (auto simp: conf_ok_def)

lemma conf_ok_del: "conf_ok m \<Longrightarrow> conf_ok (gm_del k m)"
  by (auto simp: conf_ok_def client_items_def split: if_splits)

lemma upgrade_okI:
  assumes "step_ok ks f" "''schema_version'' \<notin> set ks" "set ks \<subseteq> set upgraded_keys"
  shows "upgrade_ok n (\<lambda>c. set_version n c f)"
  unfolding upgrade_ok_def
proof (intro allI impI)
  fix m
  assume "conf_ok m"
  have version: "''schema_version'' \<in> set upgraded_keys" by (simp add: upgraded_keys_def)
  have other: "k \<notin> set ks" "k \<noteq> ''schema_version''" if "k \<notin> set upgraded_keys" for k
    using that assms(3) version by auto
  from \<open>conf_ok m\<close> have "conf_ok (gm_put ''schema_version'' (YInt n) m)" by (rule conf_ok_put) (simp_all add: sections_def)
  with assms(1) have "mig_ok (f (Some (gm_put ''schema_version'' (YInt n) m))) (\<lambda>c. \<exists>m'. c = Some m' \<and> conf_ok m' \<and>
     (\<forall>k. k \<notin> set ks \<longrightarrow> gm_get m' k = gm_get (gm_put ''schema_version'' (YInt n) m) k))"
    unfolding step_ok_def by blast
  then show "mig_ok (set_version n (Some m) f) (upgraded_to m n)"
    unfolding set_version_def yput_Some mbind.simps upgraded_to_def
    by (rule mig_ok_mono) (use assms(2) other version in auto)
qed

lemma conf_ok_sub: "conf_ok m \<Longrightarrow> \<forall>k. gm_get m' k = None \<or> gm_get m' k = gm_get m k \<Longrightarrow> conf_ok m'"
  unfolding conf_ok_def client_items_def by (metis (no_types, lifting) empty_iff empty_set option.distinct(1) option.simps(4))

section \<open>Rules for the common forms\<close>

definition typed :: "ytype \<Rightarrow> yaml \<Rightarrow> bool" where
  "typed T v \<longleftrightarrow> v = zero_of T \<or> of_ytype T v"

lemma get_field_ok:
  assumes "gm_get m key = None \<Longrightarrow> mig_ok missing Q"
    and "\<And>v. typed T v \<Longrightarrow> gm_get m key \<noteq> None \<Longrightarrow> gm_get m key = Some v \<or> gm_get m key = Some YNull \<Longrightarrow> mig_ok (f v) Q"
  shows "mig_ok (get_field T (Some m) key missing f) Q"
  using assms by (auto simp: get_field_def fieldVal_def typed_def split: option.splits)

lemma typed_cases: "typed TObj v \<longleftrightarrow> (\<exists>ob. v = YObj ob)" "typed TArr v \<longleftrightarrow> (\<exists>xs. v = YArr xs)"
  by (cases v; auto simp: typed_def)+

lemma get_obj_ok:
  assumes "conf_ok m" "key \<in> set sections"
    and "gm_get m key = None \<Longrightarrow> mig_ok missing Q"
    and "\<And>ob. gm_get m key = Some (YObj (Some ob)) \<Longrightarrow> mig_ok (f (Some ob)) Q"
  shows "mig_ok (get_obj (Some m) key missing f) Q"
  unfolding get_obj_def
proof (rule get_field_ok [OF assms(3)])
  fix v
  assume v: "typed TObj v" "gm_get m key \<noteq> None" "gm_get m key = Some v \<or> gm_get m key = Some YNull"
  with assms(1,2) have "gm_get m key = Some v" "\<not> is_null v" by (auto simp: conf_ok_def is_null_def)
  moreover from v(1) obtain ob' where "v = YObj ob'" by (auto simp: typed_cases)
  ultimately obtain ob where "v = YObj (Some ob)" by (cases ob') (auto simp: is_null_def)
  with assms(4) \<open>gm_get m key = Some v\<close> show "mig_ok (case v of YObj x \<Rightarrow> f x | _ \<Rightarrow> missing) Q" by simp
qed simp

lemma get_arr_ok:
  assumes "gm_get m key = None \<Longrightarrow> mig_ok missing Q"
    and "\<And>xs. gm_get m key = Some (YArr xs) \<Longrightarrow> mig_ok (f xs) Q"
    and "gm_get m key = Some YNull \<Longrightarrow> mig_ok (f []) Q"
  shows "mig_ok (get_arr (Some m) key missing f) Q"
  using assms by (auto simp: get_arr_def get_field_def fieldVal_def split: option.splits elim!: of_ytype.elims(2))

lemma put_back_Some: "gm_get m k \<noteq> Some YNull \<Longrightarrow> put_back k v (Some m) = Done (Some (gm_put k v m))"
  by (simp add: put_back_def)

lemma put_back_null: "gm_get m k = Some YNull \<Longrightarrow> put_back k v (Some m) = Done (Some m)"
  by (simp add: put_back_def)

lemma on_obj_ok:
  assumes "key \<in> set sections"
    and "\<And>ob. key = ''clients'' \<longrightarrow> YObj None \<notin> set (client_items (Some (YObj (Some ob)))) \<Longrightarrow>
      mig_ok (f (Some ob)) (\<lambda>r. r \<noteq> None \<and> (key = ''clients'' \<longrightarrow> YObj None \<notin> set (client_items (Some (YObj r)))))"
  shows "step_ok [key] (on_obj key f)"
  unfolding step_ok_def on_obj_def
proof (intro allI impI)
  fix m
  assume m: "conf_ok m"
  show "mig_ok (get_obj (Some m) key (Done (Some m)) (\<lambda>ob. mbind (f ob) (\<lambda>ob'. put_back key (YObj ob') (Some m))))
     (\<lambda>c. \<exists>m'. c = Some m' \<and> conf_ok m' \<and> (\<forall>k. k \<notin> set [key] \<longrightarrow> gm_get m' k = gm_get m k))"
  proof (rule get_obj_ok [OF m assms(1)])
    fix ob
    assume ob: "gm_get m key = Some (YObj (Some ob))"
    with m have items: "key = ''clients'' \<longrightarrow> YObj None \<notin> set (client_items (Some (YObj (Some ob))))" by (auto simp: conf_ok_def)
    show "mig_ok (mbind (f (Some ob)) (\<lambda>ob'. put_back key (YObj ob') (Some m)))
       (\<lambda>c. \<exists>m'. c = Some m' \<and> conf_ok m' \<and> (\<forall>k. k \<notin> set [key] \<longrightarrow> gm_get m' k = gm_get m k))"
      unfolding mig_ok_mbind
      by (rule mig_ok_mono [OF assms(2) [OF items]])
        (use ob in \<open>auto simp: put_back_Some is_null_def intro: conf_ok_put [OF m]\<close>)
  qed (simp add: m)
qed

lemma section_obj_ok:
  assumes "key \<in> set sections" "key \<noteq> ''clients''" "\<And>ob. mig_ok (f (Some ob)) (\<lambda>r. r \<noteq> None)"
  shows "step_ok [key] (on_obj key f)"
  by (rule on_obj_ok [OF assms(1)]) (use assms(2,3) in simp)

lemma step_ok_bind: "step_ok ks f \<Longrightarrow> step_ok ks' g \<Longrightarrow> step_ok (ks @ ks') (\<lambda>c. mbind (f c) g)"
  unfolding step_ok_def mig_ok_mbind by (fastforce elim: mig_ok_mono)

lemma moveVal_ok:
  "mig_ok (moveVal T s d (Some src, Some dst)) (\<lambda>(e, src', dst'). \<exists>m' n'. src' = Some m' \<and> dst' = Some n' \<and>
     (\<forall>k. k \<noteq> s \<longrightarrow> gm_get m' k = gm_get src k) \<and>
     (\<forall>k. gm_get m' k = None \<or> gm_get m' k = gm_get src k))"
  by (auto simp: moveVal_def split: sum.splits option.splits)

lemma moves_ok:
  "mig_ok (moves ms e (Some src, Some dst)) (\<lambda>(src', dst'). \<exists>m' n'. src' = Some m' \<and> dst' = Some n' \<and>
     (\<forall>k. k \<notin> (fst \<circ> snd) ` set ms \<longrightarrow> gm_get m' k = gm_get src k) \<and>
     (\<forall>k. gm_get m' k = None \<or> gm_get m' k = gm_get src k))"
proof (induction ms arbitrary: e src dst)
  case Nil
  show ?case by (cases e) simp_all
next
  case (Cons m ms)
  obtain T s d where m: "m = (T, s, d)" by (cases m)
  show ?case
    unfolding m moves.simps mig_ok_mbind
  proof (rule mig_ok_mono [OF moveVal_ok])
    fix r :: "mig_error option \<times> yobj \<times> yobj"
    assume "case r of (e, src', dst') \<Rightarrow> \<exists>m' n'. src' = Some m' \<and> dst' = Some n' \<and>
      (\<forall>k. k \<noteq> s \<longrightarrow> gm_get m' k = gm_get src k) \<and> (\<forall>k. gm_get m' k = None \<or> gm_get m' k = gm_get src k)"
    then obtain e1 m1 n1 where r: "r = (e1, Some m1, Some n1)" and
      m1: "\<forall>k. k \<noteq> s \<longrightarrow> gm_get m1 k = gm_get src k" "\<forall>k. gm_get m1 k = None \<or> gm_get m1 k = gm_get src k"
      by (auto split: prod.splits)
    show "mig_ok (case r of (e1, sd') \<Rightarrow> moves ms (if e = None then e1 else e) sd') (\<lambda>(src', dst'). \<exists>m' n'. src' = Some m' \<and> dst' = Some n' \<and>
       (\<forall>k. k \<notin> (fst \<circ> snd) ` set ((T, s, d) # ms) \<longrightarrow> gm_get m' k = gm_get src k) \<and>
       (\<forall>k. gm_get m' k = None \<or> gm_get m' k = gm_get src k))"
      unfolding r prod.case
      by (rule mig_ok_mono [OF Cons.IH]) (use m1 in \<open>clarsimp, metis\<close>)
  qed
qed

lemma moveAll_ok:
  assumes "\<And>m' n'. \<forall>k. k \<notin> (fst \<circ> snd) ` set ms \<longrightarrow> gm_get m' k = gm_get src k \<Longrightarrow>
    \<forall>k. gm_get m' k = None \<or> gm_get m' k = gm_get src k \<Longrightarrow> Q (Some m', Some n')"
  shows "mig_ok (moveAll ms (Some src) (Some dst)) Q"
  unfolding moveAll_def by (rule mig_ok_mono [OF moves_ok]) (use assms in blast)

lemma moveAll_conf:
  assumes "conf_ok src" "\<And>m' n'. \<forall>k. k \<notin> (fst \<circ> snd) ` set ms \<longrightarrow> gm_get m' k = gm_get src k \<Longrightarrow>
    \<forall>k. gm_get m' k = None \<or> gm_get m' k = gm_get src k \<Longrightarrow> conf_ok m' \<Longrightarrow> Q (Some m', Some n')"
  shows "mig_ok (moveAll ms (Some src) (Some dst)) Q"
  by (rule moveAll_ok) (use assms conf_ok_sub [OF assms(1)] in blast)

lemma moveWithin_ok:
  assumes "gm_get m s = None \<Longrightarrow> Q (Some m)"
    and "\<And>v. gm_get m s = Some v \<or> gm_get m s = Some YNull \<Longrightarrow> Q (Some (gm_del s (gm_put d v m)))"
  shows "mig_ok (moveWithin T s d (Some m)) Q"
  using assms by (auto simp: moveWithin_def fieldVal_def split: option.splits)

lemma each_item_ok:
  "(\<And>i x. x \<in> set xs \<Longrightarrow> mig_ok (f i x) P) \<Longrightarrow> mig_ok (each_item f i xs) (\<lambda>ys. \<forall>y \<in> set ys. P y)"
proof (induction xs arbitrary: i)
  case (Cons x xs)
  have rest: "mig_ok (each_item f (i + 1) xs) (\<lambda>ys. mig_ok (Done (y # ys)) (\<lambda>ys. \<forall>z \<in> set ys. P z))" if "P y" for y
    by (rule mig_ok_mono [OF Cons.IH]) (simp_all add: Cons.prems that)
  have "mig_ok (f i x) P" by (simp add: Cons.prems)
  then show ?case unfolding each_item.simps mig_ok_mbind by (rule mig_ok_mono) (rule rest)
qed simp

section \<open>Each upgrade\<close>

lemma step_Done: "step_ok [] Done"
  by (simp add: step_ok_def)

lemma up_1: "upgrade_ok 1 migrateTo1"
  unfolding migrateTo1_def by (rule upgrade_okI [OF step_Done]) simp_all

lemma up_2: "upgrade_ok 2 migrateTo2"
  unfolding migrateTo2_def
proof (rule upgrade_okI [where ks = "[''coredns'', ''dns'']"])
  show "step_ok [''coredns'', ''dns''] (moveWithin TAny ''coredns'' ''dns'')"
    unfolding step_ok_def
  proof (intro allI impI moveWithin_ok)
    fix m v
    assume m: "conf_ok m" "gm_get m ''coredns'' = Some v \<or> gm_get m ''coredns'' = Some YNull"
    then have "\<not> is_null v" "gm_get m ''coredns'' = Some v" by (auto simp: conf_ok_def sections_def is_null_def)
    with m(1) have "conf_ok (gm_del ''coredns'' (gm_put ''dns'' v m))" by (intro conf_ok_del conf_ok_put) simp_all
    then show "\<exists>m'. Some (gm_del ''coredns'' (gm_put ''dns'' v m)) = Some m' \<and> conf_ok m' \<and>
        (\<forall>k. k \<notin> set [''coredns'', ''dns''] \<longrightarrow> gm_get m' k = gm_get m k)" by simp
  qed simp
qed (simp_all add: upgraded_keys_def sections_def)

lemmas section_upgrade = upgrade_okI [OF section_obj_ok]

lemma up_3: "upgrade_ok 3 migrateTo3"
  unfolding migrateTo3_def
  by (rule section_upgrade) (auto simp: sections_def upgraded_keys_def intro: get_field_ok)

lemma up_8: "upgrade_ok 8 migrateTo8"
  unfolding migrateTo8_def
  by (rule section_upgrade) (auto simp: sections_def upgraded_keys_def intro: get_field_ok)

lemma up_9: "upgrade_ok 9 migrateTo9"
  unfolding migrateTo9_def
  by (rule section_upgrade) (auto simp: sections_def upgraded_keys_def intro: moveWithin_ok)

lemma quic_ports_ok: "mig_ok (quic_ports env key (Some ob)) (\<lambda>r. r \<noteq> None)"
proof -
  have "mig_ok (addQUICPorts env 784 ups) (\<lambda>_. True)" for ups
    unfolding addQUICPorts_def
    by (rule mig_ok_mono [OF each_item_ok [where P = "\<lambda>_. True"]]) (auto split: yaml.split)
  then have "mig_ok (addQUICPorts env 784 ups) (\<lambda>r. mig_ok (yput key (YArr r) (Some ob)) (\<lambda>r. r \<noteq> None))" for ups
    by (rule mig_ok_mono) simp
  then show ?thesis unfolding quic_ports_def by (intro get_arr_ok) simp_all
qed

lemma up_10: "upgrade_ok 10 (migrateTo10 env)"
proof -
  have "mig_ok (mbind (quic_ports env k ob) (quic_ports env k')) (\<lambda>r. r \<noteq> None)" if "ob \<noteq> None" for k k' ob
    unfolding mig_ok_mbind using that by (auto intro!: mig_ok_mono [OF quic_ports_ok] quic_ports_ok)
  then show ?thesis
    unfolding migrateTo10_def by (intro section_upgrade) (simp_all add: sections_def upgraded_keys_def del: mig_ok_mbind)
qed

lemma up_11: "upgrade_ok 11 migrateTo11"
  unfolding migrateTo11_def
  by (rule upgrade_okI [where ks = "[''rlimit_nofile'', ''os'']"])
    (auto simp: step_ok_def upgraded_keys_def sections_def split: sum.split intro!: conf_ok_put conf_ok_del)

lemma up_12: "upgrade_ok 12 migrateTo12"
  unfolding migrateTo12_def
  by (rule section_upgrade) (auto simp: sections_def upgraded_keys_def split: sum.split)

lemma up_17: "upgrade_ok 17 migrateTo17"
  unfolding migrateTo17_def
  by (rule section_upgrade) (auto simp: sections_def upgraded_keys_def)

lemma up_18: "upgrade_ok 18 migrateTo18"
  unfolding migrateTo18_def all_engines_def
  by (rule section_upgrade) (auto simp: sections_def upgraded_keys_def intro!: moveAll_ok)

lemma up_20: "upgrade_ok 20 migrateTo20"
  unfolding migrateTo20_def
  by (rule section_upgrade) (auto simp: sections_def upgraded_keys_def Let_def split: sum.split)

lemma up_21: "upgrade_ok 21 migrateTo21"
  unfolding migrateTo21_def
  by (rule section_upgrade) (auto simp: sections_def upgraded_keys_def intro!: moveAll_ok)

lemma up_28: "upgrade_ok 28 migrateTo28"
  unfolding migrateTo28_def
  by (rule section_upgrade) (auto simp: sections_def upgraded_keys_def)

text \<open>The list of clients at the top level, and below it.\<close>

lemma try_arr:
  assumes "\<And>xs. gm_get m key = Some (YArr xs) \<Longrightarrow> mig_ok (f xs) Q" "gm_get m key = Some YNull \<Longrightarrow> mig_ok (f []) Q" "mig_ok missing Q"
  shows "mig_ok (case try_field TArr (Some m) key of Some (YArr xs) \<Rightarrow> f xs | _ \<Rightarrow> missing) Q"
  using assms by (auto simp: try_field_def fieldVal_def split: option.split yaml.split)

lemma clients_step:
  assumes "conf_ok m" "gm_get m ''clients'' = Some (YArr xs)"
    and "\<And>i ob. mig_ok (f i (YObj (Some ob))) (\<lambda>y. y \<noteq> YObj None)"
    and "\<And>i x. \<forall>ob. x \<noteq> YObj ob \<Longrightarrow> mig_ok (f i x) (\<lambda>y. y \<noteq> YObj None)"
  shows "mig_ok (mbind (each_item f 0 xs) (\<lambda>ys. put_back ''clients'' (YArr ys) (Some m)))
    (\<lambda>c. \<exists>m'. c = Some m' \<and> conf_ok m' \<and> (\<forall>k. k \<noteq> ''clients'' \<longrightarrow> gm_get m' k = gm_get m k))"
proof -
  have "x \<noteq> YObj None" if "x \<in> set xs" for x using that assms(1,2) by (auto simp: conf_ok_def client_items_def)
  then have "mig_ok (each_item f 0 xs) (\<lambda>ys. \<forall>y \<in> set ys. y \<noteq> YObj None)"
    by (intro each_item_ok) (metis assms(3,4) not_None_eq)
  then show ?thesis
    unfolding mig_ok_mbind
  proof (rule mig_ok_mono)
    fix ys
    assume "\<forall>y \<in> set ys. y \<noteq> YObj None"
    then have "conf_ok (gm_put ''clients'' (YArr ys) m)"
      by (intro conf_ok_put [OF assms(1)]) (auto simp: is_null_def client_items_def)
    then show "mig_ok (put_back ''clients'' (YArr ys) (Some m))
        (\<lambda>c. \<exists>m'. c = Some m' \<and> conf_ok m' \<and> (\<forall>k. k \<noteq> ''clients'' \<longrightarrow> gm_get m' k = gm_get m k))"
      using assms(2) by (simp add: put_back_Some)
  qed
qed

lemma no_null_clients: "conf_ok m \<Longrightarrow> gm_get m ''clients'' \<noteq> Some YNull"
  by (auto simp: conf_ok_def sections_def is_null_def)

lemma up_4: "upgrade_ok 4 migrateTo4"
  unfolding migrateTo4_def
  apply (rule upgrade_okI [where ks = "[''clients'']"])
    apply (unfold step_ok_def, intro allI impI)
  subgoal for m
    by (rule try_arr) (auto simp: no_null_clients simp del: mig_ok_mbind split: yaml.split intro!: clients_step)
  by (simp_all add: upgraded_keys_def sections_def)

lemma mig_client_ids_ok: "mig_ok (mig_client_ids ks ob) (\<lambda>_. True)"
  by (induction ks) (auto split: sum.split elim: mig_ok_mono)

lemma up_6: "upgrade_ok 6 migrateTo6"
  unfolding migrateTo6_def
  apply (rule upgrade_okI [where ks = "[''clients'']"])
    apply (unfold step_ok_def, intro allI impI)
  subgoal for m
    by (rule get_arr_ok)
      (auto simp: no_null_clients simp del: mig_ok_mbind mig_client_ids.simps split: yaml.split intro!: clients_step,
        auto simp del: mig_client_ids.simps intro: mig_ok_mono [OF mig_client_ids_ok])
  by (simp_all add: upgraded_keys_def sections_def)

lemma up_5: "upgrade_ok 5 (migrateTo5 env)"
  unfolding migrateTo5_def
  apply (rule upgrade_okI [where ks = "[''auth_name'', ''auth_pass'', ''users'']"])
    apply (unfold step_ok_def, intro allI impI)
  subgoal for m
    by (auto intro!: moveAll_conf get_field_ok conf_ok_put conf_ok_del simp: Let_def sections_def split: option.split)
  by (simp_all add: upgraded_keys_def sections_def)

lemma try_obj:
  assumes "conf_ok m" "key \<in> set sections" "\<And>ob. gm_get m key = Some (YObj (Some ob)) \<Longrightarrow> mig_ok (f (Some ob)) Q" "mig_ok missing Q"
  shows "mig_ok (case try_field TObj (Some m) key of Some (YObj ob) \<Rightarrow> f ob | _ \<Rightarrow> missing) Q"
proof -
  have "\<not> is_null v" if "gm_get m key = Some v" for v using that assms(1,2) by (auto simp: conf_ok_def)
  then have "gm_get m key \<noteq> Some YNull" "gm_get m key \<noteq> Some (YObj None)" by (auto simp: is_null_def)
  with assms(3,4) show ?thesis
    by (auto simp: try_field_def fieldVal_def split: option.split yaml.split)
qed

lemma no_null_section: "conf_ok m \<Longrightarrow> k \<in> set sections \<Longrightarrow> gm_get m k \<noteq> Some YNull"
  by (auto simp: conf_ok_def is_null_def)

lemma up_7: "upgrade_ok 7 migrateTo7"
  unfolding migrateTo7_def
  apply (rule upgrade_okI [where ks = "[''dhcp'']"])
    apply (unfold step_ok_def, intro allI impI)
  subgoal for m
    by (rule try_obj) (auto intro!: moveAll_ok conf_ok_put simp: put_back_Some is_null_def sections_def)
  by (simp_all add: upgraded_keys_def sections_def)

lemma up_13: "upgrade_ok 13 migrateTo13"
  unfolding migrateTo13_def
  apply (rule upgrade_okI [where ks = "[''dns'', ''dhcp'']"])
    apply (unfold step_ok_def, intro allI impI)
  subgoal for m
    by (rule get_obj_ok, assumption, simp add: sections_def, simp, rule get_obj_ok, assumption, simp add: sections_def, simp)
      (auto intro!: moveAll_ok conf_ok_put simp: put_back_Some is_null_def)
  by (simp_all add: upgraded_keys_def sections_def)

lemma new_clients_items: "client_items (Some (new_clients (YArr xs) r)) = xs"
  by (simp add: client_items_def new_clients_def)

lemma up_14: "upgrade_ok 14 migrateTo14"
  unfolding migrateTo14_def
  apply (rule upgrade_okI [where ks = "[''dns'', ''clients'']"])
    apply (unfold step_ok_def, intro allI impI)
  subgoal premises m for m
  proof (cases "fieldVal TArr (Some m) ''clients''")
    case (Inr v)
    obtain xs where xs: "(case v of None \<Rightarrow> YArr [] | Some y \<Rightarrow> y) = YArr xs" "YObj None \<notin> set xs"
    proof (cases v)
      case (Some y)
      with Inr m obtain xs where "y = YArr xs" "gm_get m ''clients'' = Some (YArr xs)"
        using no_null_clients [OF m]
        by (auto simp: fieldVal_def split: option.splits if_splits elim!: of_ytype.elims(2))
      with m Some that show ?thesis by (auto simp: conf_ok_def client_items_def)
    qed (use that in simp)
    have put: "conf_ok (gm_put ''clients'' (new_clients (YArr xs) r) n)" if "conf_ok n" for n r
      by (rule conf_ok_put [OF that]) (use xs in \<open>simp_all add: new_clients_items\<close>, simp add: new_clients_def is_null_def)
    show ?thesis
      unfolding Inr sum.case Let_def xs(1) yput_Some mbind.simps runtime_sources_def
      by (rule get_obj_ok [OF put [OF m]])
        (auto intro!: moveAll_ok conf_ok_put put simp: m put_back_Some is_null_def sections_def)
  qed simp
  by (simp_all add: upgraded_keys_def sections_def)

lemma up_15: "upgrade_ok 15 migrateTo15"
  unfolding migrateTo15_def
  apply (rule upgrade_okI [where ks = "[''dns'', ''querylog'']"])
    apply (unfold step_ok_def, intro allI impI)
  subgoal for m
    by (rule get_obj_ok) (auto intro!: moveAll_ok conf_ok_put simp: put_back_Some is_null_def sections_def)
  by (simp_all add: upgraded_keys_def sections_def)

lemma up_16: "upgrade_ok 16 migrateTo16"
  unfolding migrateTo16_def stats_conf_def
  apply (rule upgrade_okI [where ks = "[''dns'', ''statistics'']"])
    apply (unfold step_ok_def, intro allI impI)
  subgoal for m
    by (rule get_obj_ok) (auto intro!: get_field_ok conf_ok_put simp: put_back_Some is_null_def sections_def Let_def)
  by (simp_all add: upgraded_keys_def sections_def)

lemma persistent_items:
  assumes "\<And>i ob. mig_ok (f i (YObj (Some ob))) (\<lambda>y. y \<noteq> YObj None)" "\<And>i x. \<forall>ob. x \<noteq> YObj ob \<Longrightarrow> mig_ok (f i x) (\<lambda>y. y \<noteq> YObj None)"
    and "YObj None \<notin> set xs" "gm_get ob ''persistent'' \<noteq> Some YNull"
  shows "mig_ok (mbind (each_item f 0 xs) (\<lambda>ys. put_back ''persistent'' (YArr ys) (Some ob)))
    (\<lambda>r. (\<exists>y. r = Some y) \<and> YObj None \<notin> set (client_items (Some (YObj r))))"
proof -
  have "mig_ok (each_item f 0 xs) (\<lambda>ys. \<forall>y \<in> set ys. y \<noteq> YObj None)"
    using assms(3) by (intro each_item_ok) (metis assms(1,2) not_None_eq)
  then show ?thesis
    unfolding mig_ok_mbind by (rule mig_ok_mono) (use assms(4) in \<open>auto simp: put_back_Some client_items_def\<close>)
qed

lemma moveVal_to: "mig_ok (moveVal T s d (Some src, Some dst)) (\<lambda>(e, src', dst'). src' \<noteq> None \<and> dst' \<noteq> None)"
  by (rule mig_ok_mono [OF moveVal_ok]) auto

lemma items_of_persistent: "gm_get ob ''persistent'' = Some (YArr xs) \<Longrightarrow> client_items (Some (YObj (Some ob))) = xs"
  by (simp add: client_items_def)

lemma up_19: "upgrade_ok 19 migrateTo19"
  unfolding migrateTo19_def
proof (rule upgrade_okI [OF on_obj_ok], goal_cases)
  case (2 ob)
  then have items: "YObj None \<notin> set (client_items (Some (YObj (Some ob))))" by simp
  have loop: "mig_ok (mbind (moveVal TBool ''safesearch_enabled'' ''enabled'' (Some x, all_engines))
      (\<lambda>(_, ob, safe). mbind (yput ''safe_search'' (YObj safe) ob) (\<lambda>ob. Done (YObj ob)))) (\<lambda>y. y \<noteq> YObj None)" for x
    unfolding mig_ok_mbind all_engines_def by (rule mig_ok_mono [OF moveVal_to]) auto
  show ?case
    unfolding simp_thms
    by (rule try_arr) (use items loop in \<open>auto simp: items_of_persistent put_back_null simp del: mig_ok_mbind yput_Some split: yaml.split intro!: persistent_items\<close>)
qed (simp_all add: sections_def upgraded_keys_def)

lemma up_22: "upgrade_ok 22 migrateTo22"
  unfolding migrateTo22_def
proof (rule upgrade_okI [OF on_obj_ok], goal_cases)
  case (2 ob)
  then have items: "YObj None \<notin> set (client_items (Some (YObj (Some ob))))" by simp
  have loop: "mig_ok (get_field TArr (Some x) ''blocked_services'' (Done (YObj (Some x))) (\<lambda>services.
      mbind (yput ''blocked_services'' (YObj (Some [(''ids'', services), (''schedule'', local_schedule)])) (Some x))
        (\<lambda>ob. Done (YObj ob)))) (\<lambda>y. y \<noteq> YObj None)" for x
    by (rule get_field_ok) auto
  show ?case
    unfolding simp_thms
    by (rule get_arr_ok) (use items loop in \<open>auto simp: items_of_persistent put_back_null simp del: mig_ok_mbind yput_Some split: yaml.split intro!: persistent_items\<close>)
qed (simp_all add: sections_def upgraded_keys_def)

lemma up_23: "upgrade_ok 23 (migrateTo23 env)"
  unfolding migrateTo23_def
  apply (rule upgrade_okI [where ks = "[''http'', ''bind_host'', ''bind_port'', ''web_session_ttl'']"])
    apply (unfold step_ok_def, intro allI impI)
  subgoal for m
    by (rule get_field_ok) (auto intro!: conf_ok_put conf_ok_del simp: is_null_def sections_def Let_def split: option.split sum.split)
  by (simp_all add: upgraded_keys_def sections_def)

lemma up_24: "upgrade_ok 24 migrateTo24"
  unfolding migrateTo24_def
  apply (rule upgrade_okI [where ks = "''log'' # map (fst \<circ> snd) log_moves"])
    apply (unfold step_ok_def, intro allI impI)
  subgoal for m
    by (auto intro!: moveAll_conf conf_ok_put simp: sections_def)
  by (simp_all add: upgraded_keys_def sections_def log_moves_def)

lemma up_25: "upgrade_ok 25 migrateTo25"
  unfolding migrateTo25_def
  apply (rule upgrade_okI [where ks = "[''http'', ''debug_pprof'']"])
    apply (unfold step_ok_def, intro allI impI)
  subgoal for m
    by (rule get_obj_ok) (auto intro!: moveAll_conf conf_ok_put simp: put_back_Some is_null_def sections_def no_null_section)
  by (simp_all add: upgraded_keys_def sections_def)

lemma up_26: "upgrade_ok 26 migrateTo26"
  unfolding migrateTo26_def
  apply (rule upgrade_okI [where ks = "[''dns'', ''filtering'']"])
    apply (unfold step_ok_def, intro allI impI)
  subgoal for m
    by (rule get_obj_ok) (auto intro!: moveAll_ok conf_ok_put simp: put_back_Some is_null_def sections_def)
  by (simp_all add: upgraded_keys_def sections_def)

lemma replaceDot_ok: "key \<in> set sections \<Longrightarrow> key \<noteq> ''clients'' \<Longrightarrow> step_ok [key] (replaceDot key)"
  unfolding replaceDot_def by (rule section_obj_ok) (auto intro!: get_arr_ok simp: put_back_def)

lemma up_27: "upgrade_ok 27 migrateTo27"
  unfolding migrateTo27_def
  by (rule upgrade_okI [OF step_ok_bind [OF replaceDot_ok replaceDot_ok]]) (simp_all add: upgraded_keys_def sections_def)

lemma filter_paths_ok: "mig_ok (filter_paths i xs) (\<lambda>_. True)"
  by (induction i xs rule: filter_paths.induct) (auto elim: mig_ok_mono)

lemma up_29: "upgrade_ok 29 (migrateTo29 env)"
  unfolding migrateTo29_def
  apply (rule upgrade_okI [where ks = "[''filtering'']"])
    apply (unfold step_ok_def, intro allI impI)
  subgoal premises m for m
  proof -
    have "step_ok [''filtering''] (on_obj ''filtering'' (yput ''safe_fs_patterns'' (YStrs (me_userfilters env # ps))))" for ps
      by (rule section_obj_ok) (simp_all add: sections_def)
    with m have "mig_ok (on_obj ''filtering'' (yput ''safe_fs_patterns'' (YStrs (me_userfilters env # ps))) (Some m))
       (\<lambda>c. \<exists>m'. c = Some m' \<and> conf_ok m' \<and> (\<forall>k. k \<notin> set [''filtering''] \<longrightarrow> gm_get m' k = gm_get m k))" for ps
      unfolding step_ok_def by blast
    then have "mig_ok (mbind (filter_paths 0 xs) (\<lambda>ps. on_obj ''filtering'' (yput ''safe_fs_patterns'' (YStrs (me_userfilters env # ps))) (Some m)))
       (\<lambda>c. \<exists>m'. c = Some m' \<and> conf_ok m' \<and> (\<forall>k. k \<notin> set [''filtering''] \<longrightarrow> gm_get m' k = gm_get m k))" for xs
      unfolding mig_ok_mbind by (intro mig_ok_mono [OF filter_paths_ok])
    with m show ?thesis by (intro get_arr_ok) (simp_all del: mig_ok_mbind filter_paths.simps each_item.simps)
  qed
  by (simp_all add: upgraded_keys_def sections_def)

section \<open>The whole way\<close>

lemma upgrades_ok: "i < 29 \<Longrightarrow> upgrade_ok (int i + 1) (mig_upgrades env ! i)"
proof -
  have "\<forall>i < length (mig_upgrades env). upgrade_ok (int i + 1) (mig_upgrades env ! i)"
    unfolding mig_upgrades_def
    by (simp add: All_less_Suc up_1 up_2 up_3 up_4 up_5 up_6 up_7 up_8 up_9 up_10 up_11 up_12 up_13 up_14 up_15 up_16 up_17 up_18
        up_19 up_20 up_21 up_22 up_23 up_24 up_25 up_26 up_27 up_28 up_29)
  moreover assume "i < 29"
  ultimately show ?thesis by (simp add: mig_upgrades_def)
qed

lemma run_upgrades_append: "run_upgrades (fs @ gs) c = mbind (run_upgrades fs c) (run_upgrades gs)"
proof (induction fs arbitrary: c)
  case (Cons f fs)
  then show ?case by (cases "f c") simp_all
qed simp

lemma mbind_assoc: "mbind (mbind m f) g = mbind m (\<lambda>x. mbind (f x) g)"
  by (cases m) simp_all

lemma upgrade_steps:
  assumes "c \<le> t" "t \<le> u"
  shows "upgradeConfigSchema env c u x = mbind (upgradeConfigSchema env c t x) (upgradeConfigSchema env t u)"
proof -
  have "take (u - c) (drop c (mig_upgrades env)) =
      take (t - c) (drop c (mig_upgrades env)) @ take (u - t) (drop t (mig_upgrades env))"
    using take_add [of "t - c" "u - t" "drop c (mig_upgrades env)"] assms by simp
  then show ?thesis by (simp add: upgradeConfigSchema_def run_upgrades_append)
qed

lemma upgrade_one: "t < 29 \<Longrightarrow> upgradeConfigSchema env t (Suc t) = mig_upgrades env ! t"
proof -
  assume "t < 29"
  then have "take (Suc t - t) (drop t (mig_upgrades env)) = [mig_upgrades env ! t]"
    by (simp add: mig_upgrades_def flip: Cons_nth_drop_Suc)
  moreover have "mbind m (run_upgrades []) = m" for m :: "yobj mig" by (cases m) simp_all
  ultimately show ?thesis by (simp add: upgradeConfigSchema_def fun_eq_iff)
qed

lemma upgraded_trans: "upgraded_to m n (Some m') \<Longrightarrow> upgraded_to m' n' r \<Longrightarrow> upgraded_to m n' r"
  by (auto simp: upgraded_to_def)

lemma upgrade_reaches:
  assumes "conf_ok m" "c < t" "t \<le> LastSchemaVersion"
  shows "mig_ok (upgradeConfigSchema env c t (Some m)) (upgraded_to m (int t))"
  using assms(2,3)
proof (induction t)
  case (Suc t)
  have step: "mig_ok (upgradeConfigSchema env t (Suc t) (Some m)) (upgraded_to m (int (Suc t)))" if "conf_ok m" for m
    using upgrades_ok [of t env] Suc.prems(2) that by (simp add: upgrade_one upgrade_ok_def LastSchemaVersion_def add.commute)
  show ?case
  proof (cases "c = t")
    case True
    with step [OF assms(1)] show ?thesis by simp
  next
    case False
    with Suc have "mig_ok (upgradeConfigSchema env c t (Some m)) (upgraded_to m (int t))" by simp
    then have "mig_ok (upgradeConfigSchema env c t (Some m))
        (\<lambda>r. mig_ok (upgradeConfigSchema env t (Suc t) r) (upgraded_to m (int (Suc t))))"
    proof (rule mig_ok_mono)
      fix r
      assume r: "upgraded_to m (int t) r"
      then obtain m1 where m1: "r = Some m1" "conf_ok m1" by (auto simp: upgraded_to_def)
      from step [OF m1(2)] show "mig_ok (upgradeConfigSchema env t (Suc t) r) (upgraded_to m (int (Suc t)))"
        unfolding m1(1) by (rule mig_ok_mono) (rule upgraded_trans [OF r [unfolded m1(1)]])
    qed
    with upgrade_steps [of c t "Suc t"] Suc.prems(1) show ?thesis by simp
  qed
qed simp


text \<open>The upgrade of a configuration whose section of DNS settings is null panics, from every version before 12 on.\<close>

theorem null_section_panics:
  assumes "gm_get m ''dns'' = Some YNull" "conf_ok (gm_del ''dns'' m)"
  shows "migrateTo12 (Some m) = Panic"
  using assms by (simp add: migrateTo12_def set_version_def on_obj_def get_obj_def get_field_def fieldVal_def yput_def)

text \<open>The upgrade to version 5 drops the login of a configuration that has a login and no password.\<close>

theorem login_dropped:
  assumes "gm_get m ''auth_name'' = Some (YStr l)" "gm_get m ''auth_pass'' = None"
  shows "migrateTo5 env (Some m) = Done (Some (gm_del ''auth_name'' (gm_put ''schema_version'' (YInt 5) m)))"
  using assms by (simp add: migrateTo5_def set_version_def moveAll_def moveVal_def get_field_def fieldVal_def)

section \<open>Settings that are moved\<close>

lemma fieldVal_del: "s \<noteq> k \<Longrightarrow> fieldVal T (Some (gm_del s m)) k = fieldVal T (Some m) k"
  by (simp add: fieldVal_def)

lemma fieldVal_absent: "gm_get m k = None \<Longrightarrow> fieldVal T (Some m) k = Inr None"
  by (simp add: fieldVal_def)

definition moved_value :: "(string, yaml) gomap \<Rightarrow> (string, yaml) gomap \<Rightarrow> ytype \<times> string \<times> string \<Rightarrow> yaml option" where
  "moved_value src dst tsd = (case tsd of (T, s, d) \<Rightarrow>
     (case fieldVal T (Some src) s of Inr (Some v) \<Rightarrow> Some v | _ \<Rightarrow> gm_get dst d))"

lemma moves_values:
  assumes "distinct (map (fst \<circ> snd) ms)" "distinct (map (snd \<circ> snd) ms)" "\<forall>(T, s, d) \<in> set ms. \<exists>v. fieldVal T (Some src) s = Inr v"
  shows "\<exists>m' n'. moves ms None (Some src, Some dst) = Done (Some m', Some n') \<and>
    (\<forall>(T, s, d) \<in> set ms. gm_get m' s = None \<and> gm_get n' d = moved_value src dst (T, s, d)) \<and>
    (\<forall>k. k \<notin> (fst \<circ> snd) ` set ms \<longrightarrow> gm_get m' k = gm_get src k) \<and>
    (\<forall>k. k \<notin> (snd \<circ> snd) ` set ms \<longrightarrow> gm_get n' k = gm_get dst k)"
  using assms
proof (induction ms arbitrary: src dst)
  case (Cons a ms)
  obtain T s d where a: "a = (T, s, d)" by (cases a)
  from Cons.prems obtain v where v: "fieldVal T (Some src) s = Inr v" by (auto simp: a)
  define src1 where "src1 = (case v of None \<Rightarrow> src | Some _ \<Rightarrow> gm_del s src)"
  define dst1 where "dst1 = (case v of None \<Rightarrow> dst | Some x \<Rightarrow> gm_put d x dst)"
  have head: "moveVal T s d (Some src, Some dst) = Done (None, Some src1, Some dst1)"
    by (cases v) (simp_all add: moveVal_def v src1_def dst1_def)
  have gone: "gm_get src1 s = None" using v by (cases v) (auto simp: src1_def fieldVal_def split: option.splits if_splits)
  have get: "gm_get src1 k = gm_get src k" if "k \<noteq> s" for k using that by (cases v) (simp_all add: src1_def)
  have get': "gm_get dst1 k = gm_get dst k" if "k \<noteq> d" for k using that by (cases v) (simp_all add: dst1_def)
  have val: "gm_get dst1 d = moved_value src dst (T, s, d)" by (cases v) (simp_all add: dst1_def moved_value_def v)
  have same: "fieldVal T' (Some src1) k = fieldVal T' (Some src) k" if "k \<noteq> s" for T' k using get [OF that] by (simp add: fieldVal_def)
  have rest: "s' \<noteq> s \<and> d' \<noteq> d" if "(T', s', d') \<in> set ms" for T' s' d' using that Cons.prems(1,2) by (force simp: a)
  have "\<forall>(T, s, d) \<in> set ms. \<exists>v. fieldVal T (Some src1) s = Inr v" using Cons.prems(3) rest same by (fastforce simp: a)
  with Cons.IH [of src1 dst1] Cons.prems(1,2) obtain m' n' where mn: "moves ms None (Some src1, Some dst1) = Done (Some m', Some n')"
    "\<forall>(T, s, d) \<in> set ms. gm_get m' s = None \<and> gm_get n' d = moved_value src1 dst1 (T, s, d)"
    "\<forall>k. k \<notin> (fst \<circ> snd) ` set ms \<longrightarrow> gm_get m' k = gm_get src1 k" "\<forall>k. k \<notin> (snd \<circ> snd) ` set ms \<longrightarrow> gm_get n' k = gm_get dst1 k"
    by auto
  have "moved_value src1 dst1 (T', s', d') = moved_value src dst (T', s', d')" if "(T', s', d') \<in> set ms" for T' s' d'
    using rest [OF that] same get' by (simp add: moved_value_def split: sum.split option.split)
  with mn(2) have "\<forall>(T, s, d) \<in> set ms. gm_get m' s = None \<and> gm_get n' d = moved_value src dst (T, s, d)" by auto
  moreover have "gm_get m' s = None" "gm_get n' d = moved_value src dst (T, s, d)"
    using mn(3,4) gone val Cons.prems(1,2) by (auto simp: a)
  ultimately show ?case using mn(1,3,4) get get' by (simp add: a head)
qed simp

text \<open>The upgrade to version 26 moves the filtering settings: if none of them has a wrong type, each is taken from the
  DNS section as it is, nulls as zero values, and is found in the new section; the other DNS settings stay.
\<close>

theorem filtering_settings_moved:
  assumes "gm_get m ''dns'' = Some (YObj (Some dns))" "\<forall>(T, k, _) \<in> set filtering_moves. \<exists>v. fieldVal T (Some dns) k = Inr v"
  shows "\<exists>m' dns'. migrateTo26 (Some m) = Done (Some m') \<and> gm_get m' ''dns'' = Some (YObj (Some dns')) \<and>
    (\<forall>(T, k, _) \<in> set filtering_moves. gm_get dns' k = None \<and>
      (\<forall>v. fieldVal T (Some dns) k = Inr (Some v) \<longrightarrow>
        (\<exists>flt. gm_get m' ''filtering'' = Some (YObj (Some flt)) \<and> gm_get flt k = Some v))) \<and>
    (\<forall>k. k \<notin> (fst \<circ> snd) ` set filtering_moves \<longrightarrow> gm_get dns' k = gm_get dns k)"
proof -
  have same: "fst (snd x) = snd (snd x)" if "x \<in> set filtering_moves" for x using that by (auto simp: filtering_moves_def)
  have distinct: "distinct (map (fst \<circ> snd) filtering_moves)" "distinct (map (snd \<circ> snd) filtering_moves)"
    by (simp_all add: filtering_moves_def)
  have "\<forall>(T, s, d) \<in> set filtering_moves. \<exists>v. fieldVal T (Some dns) s = Inr v" using assms(2) by auto
  from moves_values [OF distinct this, of "[]"] obtain dns' flt where
    moved: "moveAll filtering_moves (Some dns) (Some []) = Done (Some dns', Some flt)"
    "\<forall>(T, s, d) \<in> set filtering_moves. gm_get dns' s = None \<and> gm_get flt d = moved_value dns [] (T, s, d)"
    "\<forall>k. k \<notin> (fst \<circ> snd) ` set filtering_moves \<longrightarrow> gm_get dns' k = gm_get dns k"
    unfolding moveAll_def by blast
  define m1 where "m1 = gm_put ''dns'' (YObj (Some dns')) (gm_put ''schema_version'' (YInt 26) m)"
  define m' where "m' = (if flt = [] then m1 else gm_put ''filtering'' (YObj (Some flt)) m1)"
  have run: "migrateTo26 (Some m) = Done (Some m')"
    using assms(1) moved(1)
    by (simp add: migrateTo26_def set_version_def get_obj_def get_field_def fieldVal_def put_back_def m'_def m1_def)
  have found: "\<exists>flt. gm_get m' ''filtering'' = Some (YObj (Some flt)) \<and> gm_get flt k = Some v"
    if "(T, k, d) \<in> set filtering_moves" "fieldVal T (Some dns) k = Inr (Some v)" for T k d v
  proof -
    from that moved(2) same [OF that(1)] have "gm_get flt k = Some v" by (auto simp: moved_value_def)
    then show ?thesis by (auto simp: m'_def)
  qed
  show ?thesis
  proof (intro exI conjI)
    show "gm_get m' ''dns'' = Some (YObj (Some dns'))" by (simp add: m'_def m1_def)
    show "\<forall>(T, k, _) \<in> set filtering_moves. gm_get dns' k = None \<and> (\<forall>v. fieldVal T (Some dns) k = Inr (Some v) \<longrightarrow>
        (\<exists>flt. gm_get m' ''filtering'' = Some (YObj (Some flt)) \<and> gm_get flt k = Some v))"
      using moved(2) found by fastforce
  qed (use run moved(3) in blast)+
qed

text \<open>A configuration of version 25, and one of the first version.\<close>

definition sample_config :: "(string, yaml) gomap" where
  "sample_config = [(''dns'', YObj (Some [(''filtering_enabled'', YBool True), (''bootstrap_dns'', YStr ''1.1.1.1'')])),
     (''filters'', YArr [])]"

theorem filtering_settings_moved_witness:
  "\<exists>m'. migrateTo26 (Some sample_config) = Done (Some m') \<and>
     (\<exists>flt. gm_get m' ''filtering'' = Some (YObj (Some flt)) \<and> gm_get flt ''filtering_enabled'' = Some (YBool True))"
proof -
  let ?dns = "[(''filtering_enabled'', YBool True), (''bootstrap_dns'', YStr ''1.1.1.1'')]"
  have dns: "gm_get sample_config ''dns'' = Some (YObj (Some ?dns))" by (simp add: sample_config_def)
  have typed: "\<forall>(T, k, _) \<in> set filtering_moves. \<exists>v. fieldVal T (Some ?dns) k = Inr v"
    by (simp add: filtering_moves_def fieldVal_def)
  have mem: "(TBool, ''filtering_enabled'', ''filtering_enabled'') \<in> set filtering_moves" by (simp add: filtering_moves_def)
  have val: "fieldVal TBool (Some ?dns) ''filtering_enabled'' = Inr (Some (YBool True))" by (simp add: fieldVal_def)
  from filtering_settings_moved [OF dns typed] mem val show ?thesis by fastforce
qed

definition sample_mig_env :: mig_env where
  "sample_mig_env = \<lparr>me_hash = (\<lambda>_. None), me_url = (\<lambda>_. None), me_url_string = uu_host, me_split_host = (\<lambda>_. None), me_dur_string = dec_int,
     me_userfilters = ''/data/userfilters/*'', me_parse = (\<lambda>_. None), me_encode = (\<lambda>_. None)\<rparr>"


theorem null_section_panics_witness: "migrateTo12 (Some [(''dns'', YNull)]) = Panic"
  by (rule null_section_panics) (simp_all add: conf_ok_def client_items_def)

theorem login_dropped_witness:
  "migrateTo5 sample_mig_env (Some [(''auth_name'', YStr ''admin'')]) = Done (Some [(''schema_version'', YInt 5)])"
  using login_dropped [of "[(''auth_name'', YStr ''admin'')]" "''admin''" sample_mig_env] by simp

end
