(* ===== verification/DhcpSvc.thy ===== *)
theory DhcpSvc
  imports DhcpTypes
begin

text \<open>
  Package \<^verbatim>\<open>internal/dhcpsvc\<close>, the new DHCP service: ranges of addresses (\<^verbatim>\<open>iprange.go\<close>), the configuration and its
  validation (\<^verbatim>\<open>config.go\<close>, \<^verbatim>\<open>v4.go\<close>, \<^verbatim>\<open>v6.go\<close>), the leases of an interface (\<^verbatim>\<open>interface.go\<close>), the index of all
  leases (\<^verbatim>\<open>leaseindex.go\<close>), the server with its database (\<^verbatim>\<open>server.go\<close>, \<^verbatim>\<open>db.go\<close>) and the choice of the handler of a
  packet (\<^verbatim>\<open>handler4.go\<close>, \<^verbatim>\<open>handler6.go\<close>).

  The program shares the objects of leases between the maps and never changes one, so they are values here.  Arguments of
  the model: reading and writing JSON, the format of times, the validation of domain names, the numbers of the options and
  two constant addresses of libraries.
\<close>

section \<open>Ranges of addresses\<close>

record sv_range =
  svr_start :: addr
  svr_end :: addr

datatype sv_range_error = RFamily | ROrder | RLength

definition sv_maxRangeLen :: int where
  "sv_maxRangeLen = 4294967295"

definition sv_newIPRange :: "addr \<Rightarrow> addr \<Rightarrow> (sv_range_error, sv_range) result" where
  "sv_newIPRange start stop =
     (if is4 start \<noteq> is4 stop then Inl RFamily
      else if \<not> start < stop then Inl ROrder
      else
        let diff = addr_num stop - addr_num start in
        if diff < 0 \<or> 2 ^ 64 \<le> diff \<or> sv_maxRangeLen < diff then Inl RLength
        else Inr \<lparr>svr_start = start, svr_end = stop\<rparr>)"

definition svr_contains :: "sv_range \<Rightarrow> addr \<Rightarrow> bool" where
  "svr_contains r ip \<longleftrightarrow> is4 (svr_start r) = is4 ip \<and> \<not> ip < svr_start r \<and> \<not> svr_end r < ip"

text \<open>The next address; behind the last one of a family comes the zero address.\<close>

fun addr_next :: "addr \<Rightarrow> addr" where
  "addr_next ZeroAddr = ZeroAddr"
| "addr_next (Addr4 w) = (if w + 1 = 0 then ZeroAddr else Addr4 (w + 1))"
| "addr_next (Addr6 w z) = (if w + 1 = 0 then ZeroAddr else Addr6 (w + 1) z)"

text \<open>\<^term>\<open>None\<close> is a loop that does not end.\<close>

partial_function (option) svr_find_from :: "sv_range \<Rightarrow> (addr \<Rightarrow> bool) \<Rightarrow> addr \<Rightarrow> addr option" where
  "svr_find_from r p ip =
     (if svr_end r < ip then Some ZeroAddr
      else if p ip then Some ip
      else svr_find_from r p (addr_next ip))"

definition svr_find :: "sv_range \<Rightarrow> (addr \<Rightarrow> bool) \<Rightarrow> addr option" where
  "svr_find r p = svr_find_from r p (svr_start r)"

definition svr_offset :: "sv_range \<Rightarrow> addr \<Rightarrow> 64 word option" where
  "svr_offset r ip =
     (if svr_contains r ip then Some (ucast (word16 ip) - ucast (word16 (svr_start r))) else None)"

section \<open>Leases\<close>

record sv_lease =
  svl_ip :: addr
  svl_expiry :: int
  svl_host :: string
  svl_mac :: mac
  svl_static :: bool

definition svl_Clone :: "sv_lease option \<Rightarrow> sv_lease option" where
  "svl_Clone l = map_option (\<lambda>l. \<lparr>svl_ip = svl_ip l, svl_expiry = svl_expiry l, svl_host = svl_host l, svl_mac = svl_mac l,
     svl_static = svl_static l\<rparr>) l"

type_synonym mac_leases = "(mac, sv_lease) gomap"

datatype sv_error = AddrExists | NameExists | MacExists | NoAddr | NoName | NoMac | NoIface | DBWrite | DBRead | DBDecode

text \<open>A hardware address of another length panics: the outer option.\<close>

definition sv_macToKey :: "mac \<Rightarrow> mac option" where
  "sv_macToKey m = (if length m \<in> {6, 8, 20} then Some m else None)"

definition iface_addLease :: "sv_lease \<Rightarrow> mac_leases \<Rightarrow> (sv_error, mac_leases) result option" where
  "iface_addLease l ls =
     map_option (\<lambda>k. if gm_get ls k \<noteq> None then Inl MacExists else Inr (gm_put k l ls)) (sv_macToKey (svl_mac l))"

definition iface_updateLease :: "sv_lease \<Rightarrow> mac_leases \<Rightarrow> (sv_error, sv_lease \<times> mac_leases) result option" where
  "iface_updateLease l ls =
     map_option (\<lambda>k. case gm_get ls k of None \<Rightarrow> Inl NoMac | Some prev \<Rightarrow> Inr (prev, gm_put k l ls)) (sv_macToKey (svl_mac l))"

definition iface_removeLease :: "sv_lease \<Rightarrow> mac_leases \<Rightarrow> (sv_error, mac_leases) result option" where
  "iface_removeLease l ls =
     map_option (\<lambda>k. if gm_get ls k = None then Inl NoMac else Inr (gm_del k ls)) (sv_macToKey (svl_mac l))"

section \<open>Configuration\<close>

record dhcp_option =
  do_type :: "8 word"
  do_length :: "8 word"
  do_data :: "8 word list"

record sv_conf4 =
  s4c_gateway :: addr
  s4c_mask :: addr
  s4c_start :: addr
  s4c_end :: addr
  s4c_options :: "dhcp_option list"
  s4c_duration :: int
  s4c_enabled :: bool

datatype sv_conf_error =
    NoValue
  | GatewayNot4
  | MaskNot4
  | StartNot4
  | EndNot4
  | StartOutside
  | EndOutside
  | BadRange sv_range_error
  | GatewayInside
  | DurationNotPositive
  | StartNot6
  | TimeoutNegative
  | BadDomain
  | BadPath
  | NoInterfaces
  | InInterface string sv_conf_error

definition if_err :: "bool \<Rightarrow> 'e \<Rightarrow> 'e list" where
  "if_err b e = (if b then [e] else [])"

text \<open>Errors are collected; there is none when the list is empty.\<close>

text \<open>The length of a mask, 0 for one that is not canonical.\<close>

definition sv_mask_size :: "addr \<Rightarrow> int" where
  "sv_mask_size a =
     (case a of
        Addr6 w _ \<Rightarrow> (case find (\<lambda>n. w = push_bit (128 - n) (mask n)) [0..<129] of Some n \<Rightarrow> int n | None \<Rightarrow> 0)
      | _ \<Rightarrow> mask_size a)"

definition validateSubnet :: "sv_conf4 \<Rightarrow> sv_conf_error list" where
  "validateSubnet c =
     (let subnet = prefix_from (s4c_gateway c) (sv_mask_size (s4c_mask c)) in
      if_err (\<not> is4 (s4c_gateway c)) GatewayNot4 @ if_err (\<not> is4 (s4c_mask c)) MaskNot4 @
      if_err (\<not> is4 (s4c_start c)) StartNot4 @ if_err (\<not> is4 (s4c_end c)) EndNot4 @
      (if \<not> prefix_contains subnet (s4c_start c) then [StartOutside]
       else if \<not> prefix_contains subnet (s4c_end c) then [EndOutside] else []) @
      (case sv_newIPRange (s4c_start c) (s4c_end c) of
         Inl e \<Rightarrow> [BadRange e]
       | Inr r \<Rightarrow> if_err (svr_contains r (s4c_gateway c)) GatewayInside))"

definition conf4_Validate :: "sv_conf4 option \<Rightarrow> sv_conf_error list" where
  "conf4_Validate c =
     (case c of
        None \<Rightarrow> [NoValue]
      | Some c \<Rightarrow> if \<not> s4c_enabled c then [] else validateSubnet c @ if_err (s4c_duration c \<le> 0) DurationNotPositive)"

record dhcp6_option =
  do6_code :: "16 word"
  do6_data :: "8 word list"

record sv_conf6 =
  s6c_start :: addr
  s6c_options :: "dhcp6_option list"
  s6c_duration :: int
  s6c_slaac_only :: bool
  s6c_allow_slaac :: bool
  s6c_enabled :: bool

definition conf6_Validate :: "sv_conf6 option \<Rightarrow> sv_conf_error list" where
  "conf6_Validate c =
     (case c of
        None \<Rightarrow> [NoValue]
      | Some c \<Rightarrow>
          if \<not> s6c_enabled c then []
          else if_err (\<not> is6 (s6c_start c)) StartNot6 @ if_err (s6c_duration c \<le> 0) DurationNotPositive)"

record sv_iface_conf =
  sic_v4 :: "sv_conf4 option"
  sic_v6 :: "sv_conf6 option"

definition iface_Validate :: "sv_iface_conf option \<Rightarrow> sv_conf_error list" where
  "iface_Validate c = (case c of None \<Rightarrow> [NoValue] | Some c \<Rightarrow> conf4_Validate (sic_v4 c) @ conf6_Validate (sic_v6 c))"

record sv_conf =
  svc_ifaces :: "(string, sv_iface_conf option) gomap"
  svc_domain :: string
  svc_path_ok :: bool
  svc_timeout :: int
  svc_enabled :: bool

definition sorted_ifaces :: "(string, 'c) gomap \<Rightarrow> (string \<times> 'c) list" where
  "sorted_ifaces m = sort_cmp (\<lambda>a b. cmp_ord (fst a) (fst b)) m"

text \<open>\<open>domain_ok\<close> is the validation of domain names; \<open>svc_path_ok\<close> is that the file can be looked up or does not exist.\<close>

definition svc_Validate :: "(string \<Rightarrow> bool) \<Rightarrow> sv_conf option \<Rightarrow> sv_conf_error list" where
  "svc_Validate domain_ok c =
     (case c of
        None \<Rightarrow> [NoValue]
      | Some c \<Rightarrow>
          if \<not> svc_enabled c then []
          else
            if_err (svc_timeout c < 0) TimeoutNegative @ if_err (\<not> domain_ok (svc_domain c)) BadDomain @
            if_err (\<not> svc_path_ok c) BadPath @
            (if svc_ifaces c = [] then [NoInterfaces]
             else concat (map (\<lambda>(n, ic). map (InInterface n) (iface_Validate ic)) (sorted_ifaces (svc_ifaces c)))))"

section \<open>Options\<close>

definition compareV4OptionCodes :: "dhcp_option \<Rightarrow> dhcp_option \<Rightarrow> int" where
  "compareV4OptionCodes a b = uint (do_type a) - uint (do_type b)"

definition new_option :: "8 word \<Rightarrow> 8 word list \<Rightarrow> dhcp_option" where
  "new_option t d = \<lparr>do_type = t, do_length = of_nat (length d), do_data = d\<rparr>"

fun addr_bytes :: "addr \<Rightarrow> 8 word list" where
  "addr_bytes ZeroAddr = []"
| "addr_bytes (Addr4 w) = map of_nat (octets 4 (uint w))"
| "addr_bytes (Addr6 w _) = map of_nat (octets 16 (uint w))"

text \<open>\<open>code\<close> gives the numbers of the options by the names of their constants.\<close>

definition implicit_options :: "(string \<Rightarrow> 8 word) \<Rightarrow> 8 word list \<Rightarrow> 8 word list \<Rightarrow> sv_conf4 \<Rightarrow> dhcp_option list" where
  "implicit_options code all_routers broadcast c = [
     new_option (code ''SubnetMask'') (addr_bytes (s4c_mask c)),
     new_option (code ''Router'') (addr_bytes (s4c_gateway c)),
     new_option (code ''IPForwarding'') [0],
     new_option (code ''SourceRouting'') [0],
     new_option (code ''DatagramMTU'') [2, 0x40],
     new_option (code ''DefaultTTL'') [0x40],
     new_option (code ''PathMTUAgingTimeout'') [0, 0, 2, 0x58],
     new_option (code ''PathPlateuTableOption'')
       [0, 0x44, 1, 0x28, 1, 0xFC, 3, 0xEE, 5, 0xD4, 7, 0xD2, 0x11, 0, 0x1F, 0xE6, 0x45, 0xFA],
     new_option (code ''AllSubsLocal'') [0],
     new_option (code ''MaskDiscovery'') [0],
     new_option (code ''MaskSupplier'') [0],
     new_option (code ''RouterDiscovery'') [1],
     new_option (code ''SolicitAddr'') all_routers,
     new_option (code ''BroadcastAddr'') broadcast,
     new_option (code ''ARPTrailers'') [0],
     new_option (code ''ARPTimeout'') [0, 0, 0, 0x3C],
     new_option (code ''EthernetEncap'') [0],
     new_option (code ''TCPTTL'') [0, 0, 0, 0x3C],
     new_option (code ''TCPKeepAliveInt'') [0, 0, 0x1C, 0x20],
     new_option (code ''TCPKeepAliveGarbage'') [1]]"

definition insert_at :: "nat \<Rightarrow> 'a \<Rightarrow> 'a list \<Rightarrow> 'a list" where
  "insert_at i x xs = take i xs @ x # drop i xs"

definition delete_at :: "nat \<Rightarrow> 'a list \<Rightarrow> 'a list" where
  "delete_at i xs = take i xs @ drop (i + 1) xs"

definition add_option :: "dhcp_option \<Rightarrow> dhcp_option list \<times> dhcp_option list \<Rightarrow> dhcp_option list \<times> dhcp_option list" where
  "add_option opt ie =
     (case ie of (imp, exp) \<Rightarrow>
       let (i, found) = binary_search compareV4OptionCodes imp opt;
           imp' = (if found then delete_at i imp else imp);
           (j, found') = binary_search compareV4OptionCodes exp opt
       in (imp', if 0 < do_length opt then insert_at j opt exp else if found' then delete_at j exp else exp))"

definition conf4_options :: "dhcp_option list \<Rightarrow> dhcp_option list \<Rightarrow> dhcp_option list \<times> dhcp_option list" where
  "conf4_options base configured = fold add_option configured (sort_cmp compareV4OptionCodes base, [])"

section \<open>The server\<close>

record sv_iface4 =
  s4_gateway :: addr
  s4_subnet :: prefix
  s4_space :: sv_range
  s4_imp :: "dhcp_option list"
  s4_exp :: "dhcp_option list"
  s4_leases :: mac_leases
  s4_name :: string
  s4_ttl :: int

definition no_range :: sv_range where
  "no_range = \<lparr>svr_start = ZeroAddr, svr_end = ZeroAddr\<rparr>"

text \<open>A missing configuration panics: the outer option.\<close>

definition newDHCPInterfaceV4 :: "(sv_conf4 \<Rightarrow> dhcp_option list) \<Rightarrow> string \<Rightarrow> sv_conf4 option \<Rightarrow> sv_iface4 option option" where
  "newDHCPInterfaceV4 base name conf =
     map_option (\<lambda>c.
       if \<not> s4c_enabled c then None
       else Some (case conf4_options (base c) (s4c_options c) of (imp, exp) \<Rightarrow>
         \<lparr>s4_gateway = s4c_gateway c, s4_subnet = prefix_from (s4c_gateway c) (sv_mask_size (s4c_mask c)),
          s4_space = (case sv_newIPRange (s4c_start c) (s4c_end c) of Inl _ \<Rightarrow> no_range | Inr r \<Rightarrow> r),
          s4_imp = imp, s4_exp = exp, s4_leases = [], s4_name = name, s4_ttl = s4c_duration c\<rparr>)) conf"

record sv_iface6 =
  s6_start :: addr
  s6_options :: "dhcp6_option list"
  s6_leases :: mac_leases
  s6_name :: string
  s6_ttl :: int
  s6_slaac_only :: bool
  s6_allow_slaac :: bool

text \<open>The implicit options are empty.\<close>

definition newDHCPInterfaceV6 :: "string \<Rightarrow> sv_conf6 option \<Rightarrow> sv_iface6 option option" where
  "newDHCPInterfaceV6 name conf =
     map_option (\<lambda>c.
       if \<not> s6c_enabled c then None
       else Some \<lparr>s6_start = s6c_start c, s6_options = s6c_options c, s6_leases = [], s6_name = name, s6_ttl = s6c_duration c,
         s6_slaac_only = s6c_slaac_only c, s6_allow_slaac = s6c_allow_slaac c\<rparr>) conf"

fun newInterfaces_loop ::
  "(sv_conf4 \<Rightarrow> dhcp_option list) \<Rightarrow> (string \<times> sv_iface_conf option) list \<Rightarrow> (sv_iface4 list \<times> sv_iface6 list) option" where
  "newInterfaces_loop base [] = Some ([], [])"
| "newInterfaces_loop base ((name, None) # cs) = None"
| "newInterfaces_loop base ((name, Some c) # cs) =
     Option.bind (newDHCPInterfaceV4 base name (sic_v4 c)) (\<lambda>i4.
     Option.bind (newDHCPInterfaceV6 name (sic_v6 c)) (\<lambda>i6.
     map_option (\<lambda>(v4, v6). ((case i4 of None \<Rightarrow> v4 | Some i \<Rightarrow> i # v4), (case i6 of None \<Rightarrow> v6 | Some i \<Rightarrow> i # v6)))
       (newInterfaces_loop base cs)))"

definition newInterfaces ::
  "(sv_conf4 \<Rightarrow> dhcp_option list) \<Rightarrow> (string, sv_iface_conf option) gomap \<Rightarrow> (sv_iface4 list \<times> sv_iface6 list) option" where
  "newInterfaces base m = newInterfaces_loop base (sorted_ifaces m)"

fun sv_index :: "('a \<Rightarrow> bool) \<Rightarrow> 'a list \<Rightarrow> nat option" where
  "sv_index P [] = None"
| "sv_index P (x # xs) = (if P x then Some 0 else map_option Suc (sv_index P xs))"

definition ifaces4_find :: "sv_iface4 list \<Rightarrow> addr \<Rightarrow> nat option" where
  "ifaces4_find ifs ip = sv_index (\<lambda>i. prefix_contains (s4_subnet i) ip) ifs"

definition ifaces6_find :: "sv_iface6 list \<Rightarrow> addr \<Rightarrow> nat option" where
  "ifaces6_find ifs ip = sv_index (\<lambda>i. \<not> ip < s6_start i \<and> prefix_contains (prefix_from (s6_start i) 120) ip) ifs"

text \<open>A lease as it is in the database file.\<close>

record db_lease =
  dl_expiry :: string
  dl_ip :: addr
  dl_host :: string
  dl_mac :: string
  dl_static :: bool

text \<open>The file: missing, unreadable, with content that cannot be decoded, or with leases.\<close>

datatype db_file = DBMissing | DBUnreadable | DBGarbled | DBLeases "db_lease list"

record lease_index =
  li_addr :: "(addr, sv_lease) gomap"
  li_name :: "(string, sv_lease) gomap"

record sv_server =
  sv_idx :: lease_index
  sv_ifaces4 :: "sv_iface4 list"
  sv_ifaces6 :: "sv_iface6 list"
  sv_file :: db_file

datatype iface_ref = IF4 nat | IF6 nat

definition ref_leases :: "iface_ref \<Rightarrow> sv_server \<Rightarrow> mac_leases" where
  "ref_leases r s = (case r of IF4 i \<Rightarrow> s4_leases (sv_ifaces4 s ! i) | IF6 i \<Rightarrow> s6_leases (sv_ifaces6 s ! i))"

definition set_ref_leases :: "iface_ref \<Rightarrow> mac_leases \<Rightarrow> sv_server \<Rightarrow> sv_server" where
  "set_ref_leases r ls s =
     (case r of
        IF4 i \<Rightarrow> s\<lparr>sv_ifaces4 := (sv_ifaces4 s)[i := (sv_ifaces4 s ! i)\<lparr>s4_leases := ls\<rparr>]\<rparr>
      | IF6 i \<Rightarrow> s\<lparr>sv_ifaces6 := (sv_ifaces6 s)[i := (sv_ifaces6 s ! i)\<lparr>s6_leases := ls\<rparr>]\<rparr>)"

definition ifaceForAddr :: "addr \<Rightarrow> sv_server \<Rightarrow> iface_ref option" where
  "ifaceForAddr ip s =
     (if is4 ip then map_option IF4 (ifaces4_find (sv_ifaces4 s) ip) else map_option IF6 (ifaces6_find (sv_ifaces6 s) ip))"

section \<open>The index of leases\<close>

definition newLeaseIndex :: lease_index where
  "newLeaseIndex = \<lparr>li_addr = [], li_name = []\<rparr>"

definition leaseByAddr :: "addr \<Rightarrow> lease_index \<Rightarrow> sv_lease option" where
  "leaseByAddr ip idx = gm_get (li_addr idx) ip"

definition leaseByName :: "string \<Rightarrow> lease_index \<Rightarrow> sv_lease option" where
  "leaseByName n idx = gm_get (li_name idx) (to_lower n)"

definition li_add :: "sv_lease \<Rightarrow> iface_ref \<Rightarrow> sv_server \<Rightarrow> (sv_error, sv_server) result option" where
  "li_add l r s =
     (let idx = sv_idx s; name = to_lower (svl_host l) in
      if gm_get (li_addr idx) (svl_ip l) \<noteq> None then Some (Inl AddrExists)
      else if gm_get (li_name idx) name \<noteq> None then Some (Inl NameExists)
      else map_option (\<lambda>res. bind_result res (\<lambda>ls.
        Inr ((set_ref_leases r ls s)\<lparr>sv_idx := \<lparr>li_addr = gm_put (svl_ip l) l (li_addr idx), li_name = gm_put name l (li_name idx)\<rparr>\<rparr>)))
        (iface_addLease l (ref_leases r s)))"

text \<open>The address, the name and the hardware address are looked up separately.\<close>

definition li_remove :: "sv_lease \<Rightarrow> iface_ref \<Rightarrow> sv_server \<Rightarrow> (sv_error, sv_server) result option" where
  "li_remove l r s =
     (let idx = sv_idx s; name = to_lower (svl_host l) in
      if gm_get (li_addr idx) (svl_ip l) = None then Some (Inl NoAddr)
      else if gm_get (li_name idx) name = None then Some (Inl NoName)
      else map_option (\<lambda>res. bind_result res (\<lambda>ls.
        Inr ((set_ref_leases r ls s)\<lparr>sv_idx := \<lparr>li_addr = gm_del (svl_ip l) (li_addr idx), li_name = gm_del name (li_name idx)\<rparr>\<rparr>)))
        (iface_removeLease l (ref_leases r s)))"

definition li_update :: "sv_lease \<Rightarrow> iface_ref \<Rightarrow> sv_server \<Rightarrow> (sv_error, sv_server) result option" where
  "li_update l r s =
     (let idx = sv_idx s; name = to_lower (svl_host l);
          other = (\<lambda>existing. case existing of None \<Rightarrow> False | Some e \<Rightarrow> svl_mac l \<noteq> svl_mac e) in
      if other (gm_get (li_addr idx) (svl_ip l)) then Some (Inl AddrExists)
      else if other (gm_get (li_name idx) name) then Some (Inl NameExists)
      else map_option (\<lambda>res. bind_result res (\<lambda>(prev, ls).
        Inr ((set_ref_leases r ls s)\<lparr>sv_idx :=
          \<lparr>li_addr = gm_put (svl_ip l) l (gm_del (svl_ip prev) (li_addr idx)),
           li_name = gm_put name l (gm_del (to_lower (svl_host prev)) (li_name idx))\<rparr>\<rparr>)))
        (iface_updateLease l (ref_leases r s)))"

definition li_len :: "lease_index \<Rightarrow> nat" where
  "li_len idx = length (li_addr idx)"

section \<open>The database\<close>

record sv_env =
  sve_format :: "int \<Rightarrow> string"
  sve_parse :: "string \<Rightarrow> int option"
  sve_write :: bool

definition sv_zero_time :: int where
  "sv_zero_time = zero_time"

definition compareNames :: "db_lease \<Rightarrow> db_lease \<Rightarrow> int" where
  "compareNames a b = cmp_ord (dl_host a) (dl_host b)"

definition toDBLease :: "sv_env \<Rightarrow> sv_lease \<Rightarrow> db_lease" where
  "toDBLease env l = \<lparr>dl_expiry = (if svl_static l then [] else sve_format env (svl_expiry l)), dl_ip = svl_ip l, dl_host = svl_host l,
     dl_mac = mac_string (svl_mac l), dl_static = svl_static l\<rparr>"

definition dl_toInternal :: "sv_env \<Rightarrow> db_lease \<Rightarrow> sv_lease option" where
  "dl_toInternal env dl =
     Option.bind (parse_mac (dl_mac dl)) (\<lambda>mac.
       map_option (\<lambda>expiry. \<lparr>svl_ip = dl_ip dl, svl_expiry = expiry, svl_host = dl_host dl, svl_mac = mac, svl_static = dl_static dl\<rparr>)
         (if dl_static dl then Some sv_zero_time else sve_parse env (dl_expiry dl)))"

definition resetLeases :: "sv_server \<Rightarrow> sv_server" where
  "resetLeases s = s\<lparr>sv_ifaces4 := map (\<lambda>i. i\<lparr>s4_leases := []\<rparr>) (sv_ifaces4 s), sv_ifaces6 := map (\<lambda>i. i\<lparr>s6_leases := []\<rparr>) (sv_ifaces6 s),
     sv_idx := newLeaseIndex\<rparr>"

text \<open>Leases that cannot be converted or added are skipped.\<close>

definition addDBLease :: "sv_env \<Rightarrow> db_lease \<Rightarrow> sv_server \<Rightarrow> sv_server option" where
  "addDBLease env dl s =
     (case dl_toInternal env dl of
        None \<Rightarrow> Some s
      | Some l \<Rightarrow>
          (case ifaceForAddr (dl_ip dl) s of
             None \<Rightarrow> Some s
           | Some r \<Rightarrow> map_option (\<lambda>res. case res of Inl _ \<Rightarrow> s | Inr s' \<Rightarrow> s') (li_add l r s)))"

fun addDBLeases :: "sv_env \<Rightarrow> db_lease list \<Rightarrow> sv_server \<Rightarrow> sv_server option" where
  "addDBLeases env [] s = Some s"
| "addDBLeases env (dl # dls) s = Option.bind (addDBLease env dl s) (addDBLeases env dls)"

definition sv_dbLoad :: "sv_env \<Rightarrow> sv_server \<Rightarrow> (sv_error option \<times> sv_server) option" where
  "sv_dbLoad env s =
     (case sv_file s of
        DBMissing \<Rightarrow> Some (None, s)
      | DBUnreadable \<Rightarrow> Some (Some DBRead, s)
      | DBGarbled \<Rightarrow> Some (Some DBDecode, s)
      | DBLeases dls \<Rightarrow> map_option (\<lambda>s'. (None, s')) (addDBLeases env dls (resetLeases s)))"

text \<open>The leases are those of the map by names, whose order is not specified; the file has them in the order of names.\<close>

definition insert_db :: "db_lease \<Rightarrow> db_lease list \<Rightarrow> db_lease list" where
  "insert_db dl dls = insert_at (fst (binary_search compareNames dls dl)) dl dls"

definition sv_dbStore :: "sv_env \<Rightarrow> sv_server \<Rightarrow> sv_error option \<times> sv_server" where
  "sv_dbStore env s =
     (if sve_write env
      then (None, s\<lparr>sv_file := DBLeases (fold (\<lambda>(_, l). insert_db (toDBLease env l)) (li_name (sv_idx s)) [])\<rparr>)
      else (Some DBWrite, s))"

definition sv_New ::
  "sv_env \<Rightarrow> (sv_conf4 \<Rightarrow> dhcp_option list) \<Rightarrow> sv_conf \<Rightarrow> db_file \<Rightarrow> (sv_error, sv_server option) result option" where
  "sv_New env base conf file =
     (if \<not> svc_enabled conf then Some (Inr None)
      else Option.bind (newInterfaces base (svc_ifaces conf)) (\<lambda>(v4, v6).
        map_option (\<lambda>(e, s). case e of None \<Rightarrow> Inr (Some s) | Some e \<Rightarrow> Inl e)
          (sv_dbLoad env \<lparr>sv_idx = newLeaseIndex, sv_ifaces4 = v4, sv_ifaces6 = v6, sv_file = file\<rparr>)))"

section \<open>Operations\<close>

definition sv_Leases :: "sv_server \<Rightarrow> sv_lease list" where
  "sv_Leases s = map snd (li_name (sv_idx s))"

definition sv_HostByIP :: "addr \<Rightarrow> sv_server \<Rightarrow> string" where
  "sv_HostByIP ip s = (case leaseByAddr ip (sv_idx s) of Some l \<Rightarrow> svl_host l | None \<Rightarrow> [])"

definition sv_MACByIP :: "addr \<Rightarrow> sv_server \<Rightarrow> mac" where
  "sv_MACByIP ip s = (case leaseByAddr ip (sv_idx s) of Some l \<Rightarrow> svl_mac l | None \<Rightarrow> [])"

definition sv_IPByHost :: "string \<Rightarrow> sv_server \<Rightarrow> addr" where
  "sv_IPByHost host s = (case leaseByName host (sv_idx s) of Some l \<Rightarrow> svl_ip l | None \<Rightarrow> ZeroAddr)"

text \<open>The result of an operation: the error, if any, and the new state; an error of writing leaves the change in memory.\<close>

definition sv_Reset :: "sv_env \<Rightarrow> sv_server \<Rightarrow> sv_error option \<times> sv_server" where
  "sv_Reset env s = sv_dbStore env (resetLeases s)"

definition and_store :: "sv_env \<Rightarrow> sv_server \<Rightarrow> (sv_error, sv_server) result option \<Rightarrow> (sv_error option \<times> sv_server) option" where
  "and_store env s res = map_option (\<lambda>r. case r of Inl e \<Rightarrow> (Some e, s) | Inr s' \<Rightarrow> sv_dbStore env s') res"

definition sv_AddLease :: "sv_env \<Rightarrow> sv_lease \<Rightarrow> sv_server \<Rightarrow> (sv_error option \<times> sv_server) option" where
  "sv_AddLease env l s =
     (case ifaceForAddr (svl_ip l) s of None \<Rightarrow> Some (Some NoIface, s) | Some r \<Rightarrow> and_store env s (li_add l r s))"

definition sv_UpdateStaticLease :: "sv_env \<Rightarrow> sv_lease \<Rightarrow> sv_server \<Rightarrow> (sv_error option \<times> sv_server) option" where
  "sv_UpdateStaticLease env l s =
     (case ifaceForAddr (svl_ip l) s of None \<Rightarrow> Some (Some NoIface, s) | Some r \<Rightarrow> and_store env s (li_update l r s))"

definition sv_RemoveLease :: "sv_env \<Rightarrow> sv_lease \<Rightarrow> sv_server \<Rightarrow> (sv_error option \<times> sv_server) option" where
  "sv_RemoveLease env l s =
     (case ifaceForAddr (svl_ip l) s of None \<Rightarrow> Some (Some NoIface, s) | Some r \<Rightarrow> and_store env s (li_remove l r s))"

definition removeLeaseByAddr :: "sv_env \<Rightarrow> addr \<Rightarrow> sv_server \<Rightarrow> (sv_error option \<times> sv_server) option" where
  "removeLeaseByAddr env ip s =
     (case ifaceForAddr ip s of
        None \<Rightarrow> Some (Some NoIface, s)
      | Some r \<Rightarrow>
          (case leaseByAddr ip (sv_idx s) of None \<Rightarrow> Some (Some NoAddr, s) | Some l \<Rightarrow> and_store env s (li_remove l r s)))"

section \<open>The handler of a packet\<close>

text \<open>
  The handlers of the interfaces are empty so far, so the model stops at the choice of the interface and the handler.
  \<open>code\<close> gives the numbers of options and of message types by the names of their constants; \<open>m4_client\<close> is the address
  of the client in its short form.
\<close>

record dhcp4_msg =
  m4_is_request :: bool
  m4_options :: "dhcp_option list"
  m4_client :: addr

datatype handled4 =
    Skipped
  | NoMessageType
  | BadMessageType "8 word"
  | ToAll
  | NoHandler
  | Selecting nat addr
  | InitReboot nat addr
  | Renew nat

definition msg4Type :: "(string \<Rightarrow> 8 word) \<Rightarrow> dhcp4_msg \<Rightarrow> 8 word option" where
  "msg4Type code msg =
     map_option (\<lambda>opt. hd (do_data opt)) (find (\<lambda>opt. do_type opt = code ''MessageType'' \<and> do_data opt \<noteq> []) (m4_options msg))"

definition option_addr :: "8 word \<Rightarrow> dhcp4_msg \<Rightarrow> addr option" where
  "option_addr t msg =
     map_option (\<lambda>opt. Addr4 (word_of_int (be_num (map unat (do_data opt)))))
       (find (\<lambda>opt. do_type opt = t \<and> length (do_data opt) = 4) (m4_options msg))"

definition requestedIPv4 :: "(string \<Rightarrow> 8 word) \<Rightarrow> dhcp4_msg \<Rightarrow> addr option" where
  "requestedIPv4 code = option_addr (code ''RequestIP'')"

definition serverID4 :: "(string \<Rightarrow> 8 word) \<Rightarrow> dhcp4_msg \<Rightarrow> addr option" where
  "serverID4 code = option_addr (code ''ServerID'')"

definition sv_handleRequest :: "(string \<Rightarrow> 8 word) \<Rightarrow> sv_iface4 list \<Rightarrow> dhcp4_msg \<Rightarrow> handled4" where
  "sv_handleRequest code ifs msg =
     (let srvID = serverID4 code msg; reqIP = requestedIPv4 code msg;
          given = (\<lambda>ip. ip \<noteq> None \<and> ip \<noteq> Some (Addr4 0));
          handler = (\<lambda>ip h. case ifaces4_find ifs ip of None \<Rightarrow> Skipped | Some i \<Rightarrow> h i);
          req = (case reqIP of None \<Rightarrow> ZeroAddr | Some ip \<Rightarrow> ip) in
      if given srvID then handler (the srvID) (\<lambda>i. Selecting i req)
      else if given reqIP then handler req (\<lambda>i. InitReboot i req)
      else handler (m4_client msg) Renew)"

definition handleDHCPv4 :: "(string \<Rightarrow> 8 word) \<Rightarrow> sv_iface4 list \<Rightarrow> 8 word \<Rightarrow> dhcp4_msg \<Rightarrow> handled4" where
  "handleDHCPv4 code ifs typ msg =
     (if typ = code ''Discover'' then ToAll
      else if typ = code ''Request'' then sv_handleRequest code ifs msg
      else if typ = code ''Release'' \<or> typ = code ''Decline'' then NoHandler
      else BadMessageType typ)"

text \<open>\<^term>\<open>None\<close> is a packet of another protocol.\<close>

definition serveV4 :: "(string \<Rightarrow> 8 word) \<Rightarrow> sv_iface4 list \<Rightarrow> dhcp4_msg option \<Rightarrow> handled4" where
  "serveV4 code ifs pkt =
     (case pkt of
        None \<Rightarrow> Skipped
      | Some msg \<Rightarrow>
          if \<not> m4_is_request msg then Skipped
          else case msg4Type code msg of None \<Rightarrow> NoMessageType | Some typ \<Rightarrow> handleDHCPv4 code ifs typ msg)"

end
