(* ===== verification/DhcpSvcProps.thy ===== *)
theory DhcpSvcProps
  imports "HOL-Library.Multiset" DhcpSvc Bytes
begin

text \<open>
  The index of leases and the leases of the interfaces stay in step, so that the lookups agree; what is stored is what a
  restart loads; and the two operations that break this when they are given a lease that is not stored as it is.
\<close>

section \<open>Interfaces\<close>

lemma sv_index_map: "sv_index P (map f xs) = sv_index (\<lambda>x. P (f x)) xs"
  by (induction xs) auto

lemma sv_index_Some: "sv_index P xs = Some i \<Longrightarrow> i < length xs \<and> P (xs ! i)"
  by (induction xs arbitrary: i) (auto split: if_splits)

definition same_ifaces :: "sv_server \<Rightarrow> sv_server \<Rightarrow> bool" where
  "same_ifaces s s' \<longleftrightarrow> map s4_subnet (sv_ifaces4 s) = map s4_subnet (sv_ifaces4 s') \<and> map s6_start (sv_ifaces6 s) = map s6_start (sv_ifaces6 s')"

definition ref_ok :: "iface_ref \<Rightarrow> sv_server \<Rightarrow> bool" where
  "ref_ok r s = (case r of IF4 i \<Rightarrow> i < length (sv_ifaces4 s) | IF6 i \<Rightarrow> i < length (sv_ifaces6 s))"

lemma same_ifacesD:
  assumes "same_ifaces s s'"
  shows "ifaceForAddr ip s' = ifaceForAddr ip s" "ref_ok r s' = ref_ok r s"
proof -
  have "ifaces4_find (sv_ifaces4 s) ip = sv_index (\<lambda>n. prefix_contains n ip) (map s4_subnet (sv_ifaces4 s))" for s :: sv_server
    by (simp add: ifaces4_find_def sv_index_map)
  moreover have "ifaces6_find (sv_ifaces6 s) ip = sv_index (\<lambda>a. \<not> ip < a \<and> prefix_contains (prefix_from a 120) ip) (map s6_start (sv_ifaces6 s))" for s :: sv_server
    by (simp add: ifaces6_find_def sv_index_map)
  ultimately have find: "ifaces4_find (sv_ifaces4 s') ip = ifaces4_find (sv_ifaces4 s) ip" "ifaces6_find (sv_ifaces6 s') ip = ifaces6_find (sv_ifaces6 s) ip"
    using assms unfolding same_ifaces_def by simp_all
  then show "ifaceForAddr ip s' = ifaceForAddr ip s" by (simp add: ifaceForAddr_def)
  from assms have "length (sv_ifaces4 s') = length (sv_ifaces4 s)" "length (sv_ifaces6 s') = length (sv_ifaces6 s)"
    unfolding same_ifaces_def by (metis length_map)+
  then show "ref_ok r s' = ref_ok r s" by (simp add: ref_ok_def split: iface_ref.split)
qed

lemma same_ifaces_refl [simp]: "same_ifaces s s"
  by (simp add: same_ifaces_def)

lemma same_ifaces_trans: "same_ifaces s s' \<Longrightarrow> same_ifaces s' s'' \<Longrightarrow> same_ifaces s s''"
  by (simp add: same_ifaces_def)

lemma ref_for_addr: "ifaceForAddr ip s = Some r \<Longrightarrow> ref_ok r s"
  by (auto simp: ifaceForAddr_def ref_ok_def ifaces4_find_def ifaces6_find_def dest!: sv_index_Some split: if_splits)

lemma set_ref_leases_simps [simp]:
  "same_ifaces s (set_ref_leases r ls s)" "sv_idx (set_ref_leases r ls s) = sv_idx s" "sv_file (set_ref_leases r ls s) = sv_file s"
  by (auto simp: same_ifaces_def set_ref_leases_def map_update split: iface_ref.split)
    (metis list_update_id map_update nth_map list_update_beyond not_less)+

lemma ref_leases_set [simp]:
  "ref_ok r s \<Longrightarrow> ref_leases r' (set_ref_leases r ls s) = (if r' = r then ls else ref_leases r' s)"
  by (cases r; cases r') (auto simp: ref_leases_def set_ref_leases_def ref_ok_def nth_list_update)

lemma index_update_simps [simp]:
  "ref_leases r (s\<lparr>sv_idx := x\<rparr>) = ref_leases r s" "same_ifaces s (s'\<lparr>sv_idx := x\<rparr>) = same_ifaces s s'" "ref_ok r (s\<lparr>sv_idx := x\<rparr>) = ref_ok r s"
  "ifaceForAddr ip (s\<lparr>sv_idx := x\<rparr>) = ifaceForAddr ip s"
  by (auto simp: ref_leases_def same_ifaces_def ref_ok_def ifaceForAddr_def split: iface_ref.split)

lemma file_update_simps [simp]:
  "ref_leases r (s\<lparr>sv_file := x\<rparr>) = ref_leases r s" "same_ifaces s (s'\<lparr>sv_file := x\<rparr>) = same_ifaces s s'" "ref_ok r (s\<lparr>sv_file := x\<rparr>) = ref_ok r s"
  "ifaceForAddr ip (s\<lparr>sv_file := x\<rparr>) = ifaceForAddr ip s"
  by (auto simp: ref_leases_def same_ifaces_def ref_ok_def ifaceForAddr_def split: iface_ref.split)

section \<open>The invariant\<close>

text \<open>The leases of the interfaces; the index has the same ones under their addresses and names.\<close>

definition lease_set :: "sv_server \<Rightarrow> sv_lease set" where
  "lease_set s = {l. \<exists>r. ref_ok r s \<and> gm_get (ref_leases r s) (svl_mac l) = Some l}"

definition sv_ok :: "sv_server \<Rightarrow> bool" where
  "sv_ok s \<longleftrightarrow> gm_wf (li_addr (sv_idx s)) \<and> gm_wf (li_name (sv_idx s)) \<and>
     (\<forall>r k l. ref_ok r s \<longrightarrow> gm_get (ref_leases r s) k = Some l \<longrightarrow>
        k = svl_mac l \<and> length k \<in> {6, 8, 20} \<and> ifaceForAddr (svl_ip l) s = Some r) \<and>
     (\<forall>ip l. gm_get (li_addr (sv_idx s)) ip = Some l \<longleftrightarrow> l \<in> lease_set s \<and> svl_ip l = ip) \<and>
     (\<forall>n l. gm_get (li_name (sv_idx s)) n = Some l \<longleftrightarrow> l \<in> lease_set s \<and> to_lower (svl_host l) = n)"

lemma sv_okD:
  assumes "sv_ok s"
  shows "gm_wf (li_addr (sv_idx s))" "gm_wf (li_name (sv_idx s))"
    and "ref_ok r s \<Longrightarrow> gm_get (ref_leases r s) k = Some l \<Longrightarrow> k = svl_mac l \<and> length k \<in> {6, 8, 20} \<and> ifaceForAddr (svl_ip l) s = Some r"
    and "gm_get (li_addr (sv_idx s)) ip = Some l \<longleftrightarrow> l \<in> lease_set s \<and> svl_ip l = ip"
    and "gm_get (li_name (sv_idx s)) n = Some l \<longleftrightarrow> l \<in> lease_set s \<and> to_lower (svl_host l) = n"
  using assms unfolding sv_ok_def by blast+

lemma lease_setD:
  assumes "sv_ok s" "l \<in> lease_set s"
  obtains r where "ifaceForAddr (svl_ip l) s = Some r" "gm_get (ref_leases r s) (svl_mac l) = Some l" "length (svl_mac l) \<in> {6, 8, 20}"
  using assms(2) sv_okD(3) [OF assms(1)] that unfolding lease_set_def by blast

lemma lease_set_iff:
  assumes "sv_ok s" "ifaceForAddr (svl_ip l) s = Some r"
  shows "l \<in> lease_set s \<longleftrightarrow> gm_get (ref_leases r s) (svl_mac l) = Some l"
  using assms(2) ref_for_addr [OF assms(2)] lease_setD [OF assms(1)] by (metis (mono_tags, lifting) lease_set_def mem_Collect_eq option.inject)

text \<open>Two leases with the same address, the same name, or the same interface and hardware address are the same.\<close>

lemma same_lease:
  assumes "sv_ok s" "a \<in> lease_set s" "b \<in> lease_set s"
  shows "svl_ip a = svl_ip b \<Longrightarrow> a = b" "to_lower (svl_host a) = to_lower (svl_host b) \<Longrightarrow> a = b"
    and "ifaceForAddr (svl_ip a) s = ifaceForAddr (svl_ip b) s \<Longrightarrow> svl_mac a = svl_mac b \<Longrightarrow> a = b"
proof -
  show "svl_ip a = svl_ip b \<Longrightarrow> a = b"
    using sv_okD(4) [OF assms(1), of "svl_ip a" a] sv_okD(4) [OF assms(1), of "svl_ip b" b] assms(2,3) by simp
  show "to_lower (svl_host a) = to_lower (svl_host b) \<Longrightarrow> a = b"
    using sv_okD(5) [OF assms(1), of "to_lower (svl_host a)" a] sv_okD(5) [OF assms(1), of "to_lower (svl_host b)" b] assms(2,3) by simp
  show "ifaceForAddr (svl_ip a) s = ifaceForAddr (svl_ip b) s \<Longrightarrow> svl_mac a = svl_mac b \<Longrightarrow> a = b"
    using assms lease_setD [OF assms(1), of a] lease_setD [OF assms(1), of b] by (metis option.inject)
qed

section \<open>Adding, removing and updating\<close>

lemma li_add_cases:
  assumes "li_add l r s = Some (Inr s')"
  shows "gm_get (li_addr (sv_idx s)) (svl_ip l) = None" "gm_get (li_name (sv_idx s)) (to_lower (svl_host l)) = None"
    "gm_get (ref_leases r s) (svl_mac l) = None" "length (svl_mac l) \<in> {6, 8, 20}"
    "s' = (set_ref_leases r (gm_put (svl_mac l) l (ref_leases r s)) s)\<lparr>sv_idx :=
       \<lparr>li_addr = gm_put (svl_ip l) l (li_addr (sv_idx s)), li_name = gm_put (to_lower (svl_host l)) l (li_name (sv_idx s))\<rparr>\<rparr>"
  using assms by (auto simp: li_add_def iface_addLease_def sv_macToKey_def Let_def split: if_splits)

lemma li_add_ok:
  assumes "sv_ok s" "ifaceForAddr (svl_ip l) s = Some r" "li_add l r s = Some (Inr s')"
  shows "sv_ok s'" "same_ifaces s s'" "lease_set s' = insert l (lease_set s)" "l \<notin> lease_set s"
proof -
  note new = li_add_cases [OF assms(3)]
  note r = ref_for_addr [OF assms(2)]
  show same: "same_ifaces s s'" by (simp add: new(5))
  have leases: "ref_leases r' s' = (if r' = r then gm_put (svl_mac l) l (ref_leases r s) else ref_leases r' s)" for r'
    by (simp add: new(5) r)
  show set: "lease_set s' = insert l (lease_set s)"
  proof (intro equalityI subsetI)
    fix x
    assume "x \<in> lease_set s'"
    then show "x \<in> insert l (lease_set s)"
      by (auto simp: lease_set_def leases same_ifacesD(2) [OF same] split: if_splits)
  next
    fix x
    assume x: "x \<in> insert l (lease_set s)"
    show "x \<in> lease_set s'"
    proof (cases "x = l")
      case True
      then show ?thesis
        unfolding lease_set_def mem_Collect_eq by (intro exI [of _ r]) (simp add: leases same_ifacesD(2) [OF same] r)
    next
      case False
      then obtain r' where r': "ref_ok r' s" "gm_get (ref_leases r' s) (svl_mac x) = Some x"
        using x by (auto simp: lease_set_def)
      then show ?thesis
        unfolding lease_set_def mem_Collect_eq using new(3)
        by (intro exI [of _ r']) (auto simp: leases same_ifacesD(2) [OF same])
    qed
  qed
  show "l \<notin> lease_set s" using new(1) sv_okD(4) [OF assms(1), of "svl_ip l" l] by auto
  show "sv_ok s'"
    unfolding sv_ok_def
  proof (intro conjI allI impI)
    show "gm_wf (li_addr (sv_idx s'))" "gm_wf (li_name (sv_idx s'))" using sv_okD(1,2) [OF assms(1)] by (simp_all add: new(5))
    show "gm_get (li_addr (sv_idx s')) ip = Some x \<longleftrightarrow> x \<in> lease_set s' \<and> svl_ip x = ip" for ip x
      using new(1) sv_okD(4) [OF assms(1), of ip x] by (auto simp: new(5) set [unfolded new(5)])
    show "gm_get (li_name (sv_idx s')) n = Some x \<longleftrightarrow> x \<in> lease_set s' \<and> to_lower (svl_host x) = n" for n x
      using new(2) sv_okD(5) [OF assms(1), of n x] by (auto simp: new(5) set [unfolded new(5)])
    fix r' k x
    assume x: "ref_ok r' s'" "gm_get (ref_leases r' s') k = Some x"
    then have "(r' = r \<and> k = svl_mac l \<and> x = l) \<or> ref_ok r' s \<and> gm_get (ref_leases r' s) k = Some x"
      by (auto simp: leases same_ifacesD(2) [OF same] split: if_splits)
    then show "k = svl_mac x" "length k \<in> {6, 8, 20}" "ifaceForAddr (svl_ip x) s' = Some r'"
      using sv_okD(3) [OF assms(1), of r' k x] new(4) assms(2) by (auto simp: same_ifacesD(1) [OF same])
  qed
qed

text \<open>A removal names the address, the name and the hardware address of one lease.\<close>

lemma li_remove_cases:
  assumes "li_remove l r s = Some (Inr s')"
  shows "s' = (set_ref_leases r (gm_del (svl_mac l) (ref_leases r s)) s)\<lparr>sv_idx :=
       \<lparr>li_addr = gm_del (svl_ip l) (li_addr (sv_idx s)), li_name = gm_del (to_lower (svl_host l)) (li_name (sv_idx s))\<rparr>\<rparr>"
  using assms by (auto simp: li_remove_def iface_removeLease_def sv_macToKey_def Let_def split: if_splits)

lemma li_remove_ok:
  assumes "sv_ok s" "ifaceForAddr (svl_ip l) s = Some r" "li_remove l r s = Some (Inr s')" "a \<in> lease_set s"
    "svl_ip l = svl_ip a" "to_lower (svl_host l) = to_lower (svl_host a)" "svl_mac l = svl_mac a"
  shows "sv_ok s'" "same_ifaces s s'" "lease_set s' = lease_set s - {a}"
proof -
  note s' = li_remove_cases [OF assms(3)]
  note r = ref_for_addr [OF assms(2)]
  show same: "same_ifaces s s'" by (simp add: s')
  have leases: "ref_leases r' s' = (if r' = r then gm_del (svl_mac l) (ref_leases r s) else ref_leases r' s)" for r'
    by (simp add: s' r)
  have a: "gm_get (ref_leases r s) (svl_mac l) = Some a"
    using assms(4-7) lease_set_iff [OF assms(1), of a r] assms(2) by simp
  show set: "lease_set s' = lease_set s - {a}"
  proof -
    have "x \<in> lease_set s' \<longleftrightarrow> x \<in> lease_set s \<and> x \<noteq> a" for x
    proof (cases "x \<in> lease_set s")
      case True
      then obtain rx where rx: "ifaceForAddr (svl_ip x) s = Some rx" "gm_get (ref_leases rx s) (svl_mac x) = Some x"
        using lease_setD [OF assms(1)] by blast
      have "x \<in> lease_set s' \<longleftrightarrow> \<not> (rx = r \<and> svl_mac x = svl_mac l)"
      proof -
        have only: "r' = rx" if "ref_ok r' s" "gm_get (ref_leases r' s) (svl_mac x) = Some x" for r'
          using sv_okD(3) [OF assms(1) that] rx(1) by simp
        have "x \<in> lease_set s'" if "\<not> (rx = r \<and> svl_mac x = svl_mac l)"
          unfolding lease_set_def mem_Collect_eq using that rx(2) ref_for_addr [OF rx(1)]
          by (intro exI [of _ rx]) (auto simp: leases same_ifacesD(2) [OF same])
        moreover have "\<not> (rx = r \<and> svl_mac x = svl_mac l)" if "x \<in> lease_set s'"
          using that only by (auto simp: lease_set_def leases same_ifacesD(2) [OF same] split: if_splits)
        ultimately show ?thesis by blast
      qed
      also have "\<dots> \<longleftrightarrow> x \<noteq> a" using a rx assms(2,5,7) by auto
      finally show ?thesis using True by simp
    next
      case False
      then show ?thesis by (auto simp: lease_set_def leases same_ifacesD(2) [OF same] split: if_splits)
    qed
    then show ?thesis by auto
  qed
  note others = same_lease(1,2) [OF assms(1) _ assms(4)]
  show "sv_ok s'"
    unfolding sv_ok_def
  proof (intro conjI allI impI)
    show "gm_wf (li_addr (sv_idx s'))" "gm_wf (li_name (sv_idx s'))" using sv_okD(1,2) [OF assms(1)] by (simp_all add: s')
    show "gm_get (li_addr (sv_idx s')) ip = Some x \<longleftrightarrow> x \<in> lease_set s' \<and> svl_ip x = ip" for ip x
      using sv_okD(4) [OF assms(1), of ip x] others(1) [of x] assms(5) unfolding set by (auto simp: s')
    show "gm_get (li_name (sv_idx s')) n = Some x \<longleftrightarrow> x \<in> lease_set s' \<and> to_lower (svl_host x) = n" for n x
      using sv_okD(5) [OF assms(1), of n x] others(2) [of x] assms(6) unfolding set by (auto simp: s')
    fix r' k x
    assume "ref_ok r' s'" "gm_get (ref_leases r' s') k = Some x"
    then have "ref_ok r' s" "gm_get (ref_leases r' s) k = Some x"
      by (auto simp: leases same_ifacesD(2) [OF same] split: if_splits)
    then show "k = svl_mac x" "length k \<in> {6, 8, 20}" "ifaceForAddr (svl_ip x) s' = Some r'"
      using sv_okD(3) [OF assms(1), of r' k x] by (auto simp: same_ifacesD(1) [OF same])
  qed
qed

text \<open>Only the lookups of the maps matter, so an update is a removal of the previous lease followed by an addition.\<close>

lemma sv_ok_cong:
  assumes "sv_ok s" "same_ifaces s s'" "gm_wf (li_addr (sv_idx s'))" "gm_wf (li_name (sv_idx s'))"
    "gm_get (li_addr (sv_idx s')) = gm_get (li_addr (sv_idx s))" "gm_get (li_name (sv_idx s')) = gm_get (li_name (sv_idx s))"
    "\<And>r. ref_ok r s \<Longrightarrow> gm_get (ref_leases r s') = gm_get (ref_leases r s)"
  shows "sv_ok s'" "lease_set s' = lease_set s"
proof -
  note same = same_ifacesD [OF assms(2)]
  show set: "lease_set s' = lease_set s" using assms(7) by (auto simp: lease_set_def same)
  show "sv_ok s'"
    using assms(1) unfolding sv_ok_def set same using assms(3-7) by simp
qed

lemma li_update_cases:
  assumes "li_update l r s = Some (Inr s')"
  obtains prev where "gm_get (ref_leases r s) (svl_mac l) = Some prev"
    and "s' = (set_ref_leases r (gm_put (svl_mac l) l (ref_leases r s)) s)\<lparr>sv_idx :=
          \<lparr>li_addr = gm_put (svl_ip l) l (gm_del (svl_ip prev) (li_addr (sv_idx s))),
           li_name = gm_put (to_lower (svl_host l)) l (gm_del (to_lower (svl_host prev)) (li_name (sv_idx s)))\<rparr>\<rparr>"
    and "\<And>e. gm_get (li_addr (sv_idx s)) (svl_ip l) = Some e \<Longrightarrow> svl_mac e = svl_mac l"
    and "\<And>e. gm_get (li_name (sv_idx s)) (to_lower (svl_host l)) = Some e \<Longrightarrow> svl_mac e = svl_mac l"
proof -
  have addr: "svl_mac e = svl_mac l" if "gm_get (li_addr (sv_idx s)) (svl_ip l) = Some e" for e
    using assms that by (cases "svl_mac e = svl_mac l") (simp_all add: li_update_def)
  have name: "svl_mac e = svl_mac l" if "gm_get (li_name (sv_idx s)) (to_lower (svl_host l)) = Some e" for e
    using assms that by (cases "svl_mac e = svl_mac l") (simp_all add: li_update_def Let_def split: if_split_asm)
  have key: "length (svl_mac l) \<in> {6, 8, 20}"
    using assms by (cases "length (svl_mac l) \<in> {6, 8, 20}") (simp_all add: li_update_def iface_updateLease_def sv_macToKey_def Let_def split: if_split_asm)
  show ?thesis
  proof (cases "gm_get (ref_leases r s) (svl_mac l)")
    case None
    then show ?thesis using assms key by (simp add: li_update_def iface_updateLease_def sv_macToKey_def Let_def split: if_split_asm)
  next
    case (Some prev)
    then show ?thesis
      using assms key by (intro that [OF Some _ addr name])
        (simp_all add: li_update_def iface_updateLease_def sv_macToKey_def Let_def split: if_split_asm)
  qed
qed

lemma li_update_ok:
  assumes "sv_ok s" "ifaceForAddr (svl_ip l) s = Some r" "li_update l r s = Some (Inr s')"
    and names: "\<And>e. e \<in> lease_set s \<Longrightarrow> to_lower (svl_host e) = to_lower (svl_host l) \<Longrightarrow> ifaceForAddr (svl_ip e) s = Some r"
  shows "sv_ok s'" "same_ifaces s s'"
    and "\<exists>prev. prev \<in> lease_set s \<and> svl_mac prev = svl_mac l \<and> ifaceForAddr (svl_ip prev) s = Some r \<and>
           lease_set s' = insert l (lease_set s - {prev})"
proof -
  note r = ref_for_addr [OF assms(2)]
  obtain prev where prev: "gm_get (ref_leases r s) (svl_mac l) = Some prev"
    and s': "s' = (set_ref_leases r (gm_put (svl_mac l) l (ref_leases r s)) s)\<lparr>sv_idx :=
          \<lparr>li_addr = gm_put (svl_ip l) l (gm_del (svl_ip prev) (li_addr (sv_idx s))),
           li_name = gm_put (to_lower (svl_host l)) l (gm_del (to_lower (svl_host prev)) (li_name (sv_idx s)))\<rparr>\<rparr>"
    and other: "\<And>e. gm_get (li_addr (sv_idx s)) (svl_ip l) = Some e \<Longrightarrow> svl_mac e = svl_mac l"
      "\<And>e. gm_get (li_name (sv_idx s)) (to_lower (svl_host l)) = Some e \<Longrightarrow> svl_mac e = svl_mac l"
    using li_update_cases [OF assms(3)] by metis
  have p: "svl_mac prev = svl_mac l" "length (svl_mac l) \<in> {6, 8, 20}" "ifaceForAddr (svl_ip prev) s = Some r"
    using sv_okD(3) [OF assms(1) r prev] by auto
  then have mem: "prev \<in> lease_set s" using prev lease_set_iff [OF assms(1) p(3)] by simp
  obtain s1 where s1: "li_remove prev r s = Some (Inr s1)"
    using sv_okD(4) [OF assms(1), of "svl_ip prev" prev] sv_okD(5) [OF assms(1), of "to_lower (svl_host prev)" prev] mem prev p
    by (auto simp: li_remove_def iface_removeLease_def sv_macToKey_def Let_def)
  note ok1 = li_remove_ok [OF assms(1) p(3) s1 mem refl refl refl]
  have only: "e = prev" if "e \<in> lease_set s" "svl_ip e = svl_ip l \<or> to_lower (svl_host e) = to_lower (svl_host l)" for e
    using that other [of e] sv_okD(4) [OF assms(1), of "svl_ip l" e] sv_okD(5) [OF assms(1), of "to_lower (svl_host l)" e]
      same_lease(3) [OF assms(1) that(1) mem] names [OF that(1)] p assms(2) by auto
  have free: "gm_get (li_addr (sv_idx s1)) (svl_ip l) = None" "gm_get (li_name (sv_idx s1)) (to_lower (svl_host l)) = None"
    using sv_okD(4,5) [OF ok1(1)] only unfolding ok1(3) by (metis Diff_iff insertI1 not_None_eq)+
  have refs: "ref_leases r s1 = gm_del (svl_mac l) (ref_leases r s)"
    by (simp add: li_remove_cases [OF s1] r p(1))
  obtain s2 where s2: "li_add l r s1 = Some (Inr s2)"
    using free p(2) refs by (auto simp: li_add_def iface_addLease_def sv_macToKey_def Let_def)
  have "ifaceForAddr (svl_ip l) s1 = Some r" using assms(2) same_ifacesD(1) [OF ok1(2)] by simp
  note ok2 = li_add_ok [OF ok1(1) this s2]
  show same: "same_ifaces s s'" by (simp add: s')
  have same2: "same_ifaces s s2" using same_ifaces_trans [OF ok1(2) ok2(2)] .
  have same': "same_ifaces s2 s'" using same same2 by (simp add: same_ifaces_def)
  have eqs: "gm_get (li_addr (sv_idx s')) = gm_get (li_addr (sv_idx s2))" "gm_get (li_name (sv_idx s')) = gm_get (li_name (sv_idx s2))"
    by (simp_all add: s' li_add_cases(5) [OF s2] li_remove_cases [OF s1])
  have lss: "gm_get (ref_leases q s') = gm_get (ref_leases q s2)" for q
    using r same_ifacesD(2) [OF ok1(2)] by (simp add: s' li_add_cases(5) [OF s2] refs) (simp add: li_remove_cases [OF s1])
  have wf: "gm_wf (li_addr (sv_idx s'))" "gm_wf (li_name (sv_idx s'))" using sv_okD(1,2) [OF assms(1)] by (simp_all add: s')
  note fin = sv_ok_cong [OF ok2(1) same' wf eqs lss]
  show "sv_ok s'" by (rule fin(1))
  show "\<exists>prev. prev \<in> lease_set s \<and> svl_mac prev = svl_mac l \<and> ifaceForAddr (svl_ip prev) s = Some r \<and>
           lease_set s' = insert l (lease_set s - {prev})"
    using fin(2) ok2(3) ok1(3) mem p by auto
qed

section \<open>Reachable states\<close>

lemma sv_dbStore_simps [simp]:
  "ref_leases r (snd (sv_dbStore env s)) = ref_leases r s" "same_ifaces s' (snd (sv_dbStore env s)) = same_ifaces s' s"
  "sv_idx (snd (sv_dbStore env s)) = sv_idx s"
  by (simp_all add: sv_dbStore_def)

lemma stored_ok: "sv_ok s \<Longrightarrow> sv_ok (snd (sv_dbStore env s))"
  by (rule sv_ok_cong(1)) (auto simp: sv_okD)

lemma lease_set_stored [simp]: "lease_set (snd (sv_dbStore env s)) = lease_set s"
  using same_ifacesD(2) [of s "snd (sv_dbStore env s)"] by (simp add: lease_set_def)

lemma reset_ok: "sv_ok (resetLeases s) \<and> same_ifaces s (resetLeases s) \<and> lease_set (resetLeases s) = {}"
proof -
  have empty: "gm_get (ref_leases r (resetLeases s)) k = None" if "ref_ok r (resetLeases s)" for r k
    using that by (auto simp: ref_leases_def resetLeases_def ref_ok_def split: iface_ref.splits)
  then have "lease_set (resetLeases s) = {}" by (auto simp: lease_set_def)
  then show ?thesis
    using empty by (auto simp: sv_ok_def resetLeases_def newLeaseIndex_def same_ifaces_def comp_def)
qed

lemma addDBLease_ok:
  assumes "sv_ok s" "addDBLease env dl s = Some s'"
  shows "sv_ok s' \<and> same_ifaces s s'"
proof (cases "dl_toInternal env dl")
  case (Some l)
  then have ip: "svl_ip l = dl_ip dl" by (auto simp: dl_toInternal_def bind_eq_Some_conv split: if_splits)
  show ?thesis
  proof (cases "ifaceForAddr (dl_ip dl) s")
    case r: (Some r)
    then obtain res where res: "li_add l r s = Some res" "s' = (case res of Inl _ \<Rightarrow> s | Inr s' \<Rightarrow> s')"
      using assms(2) Some by (auto simp: addDBLease_def)
    show ?thesis
    proof (cases res)
      case (Inr s1)
      then show ?thesis using li_add_ok(1,2) [OF assms(1) _ res(1) [unfolded Inr]] r ip res(2) by simp
    qed (use assms res in simp)
  qed (use assms Some in \<open>simp add: addDBLease_def\<close>)
qed (use assms in \<open>simp add: addDBLease_def\<close>)

lemma addDBLeases_ok: "sv_ok s \<Longrightarrow> addDBLeases env dls s = Some s' \<Longrightarrow> sv_ok s' \<and> same_ifaces s s'"
proof (induction dls arbitrary: s)
  case (Cons dl dls)
  then obtain s1 where "addDBLease env dl s = Some s1" "addDBLeases env dls s1 = Some s'" by (auto simp: bind_eq_Some_conv)
  then show ?case using Cons addDBLease_ok same_ifaces_trans by blast
qed simp

lemma newInterfaces_loop_empty:
  "newInterfaces_loop base cs = Some (v4, v6) \<Longrightarrow> (\<forall>i \<in> set v4. s4_leases i = []) \<and> (\<forall>i \<in> set v6. s6_leases i = [])"
proof (induction base cs arbitrary: v4 v6 rule: newInterfaces_loop.induct)
  case (3 base name c cs)
  then obtain i4 i6 w4 w6 where "newDHCPInterfaceV4 base name (sic_v4 c) = Some i4" "newDHCPInterfaceV6 name (sic_v6 c) = Some i6"
    "newInterfaces_loop base cs = Some (w4, w6)"
    "v4 = (case i4 of None \<Rightarrow> w4 | Some i \<Rightarrow> i # w4)" "v6 = (case i6 of None \<Rightarrow> w6 | Some i \<Rightarrow> i # w6)"
    by (auto simp: bind_eq_Some_conv)
  then show ?case
    using "3.IH" by (auto simp: newDHCPInterfaceV4_def newDHCPInterfaceV6_def split: option.splits if_splits prod.splits)
qed auto

lemma sv_New_ok:
  assumes "sv_New env base conf db = Some (Inr (Some s))"
  shows "sv_ok s"
proof -
  from assms obtain v4 v6 where v: "newInterfaces base (svc_ifaces conf) = Some (v4, v6)"
    and load: "sv_dbLoad env \<lparr>sv_idx = newLeaseIndex, sv_ifaces4 = v4, sv_ifaces6 = v6, sv_file = db\<rparr> = Some (None, s)"
    by (auto simp: sv_New_def bind_eq_Some_conv split: if_splits option.splits)
  let ?s = "\<lparr>sv_idx = newLeaseIndex, sv_ifaces4 = v4, sv_ifaces6 = v6, sv_file = db\<rparr>"
  have empty: "gm_get (ref_leases r ?s) k = None" if "ref_ok r ?s" for r k
    using that newInterfaces_loop_empty [OF v [unfolded newInterfaces_def]]
    by (auto simp: ref_leases_def ref_ok_def split: iface_ref.splits)
  then have "lease_set ?s = {}" by (auto simp: lease_set_def)
  then have "sv_ok ?s" using empty by (auto simp: sv_ok_def newLeaseIndex_def)
  then show ?thesis
    using load reset_ok [of ?s] addDBLeases_ok [of "resetLeases ?s" env] by (auto simp: sv_dbLoad_def split: db_file.splits)
qed

text \<open>
  The states of a server.  An update must not take the name of a lease of another interface, and a removal must name a
  lease as it is stored; the server requires neither.
\<close>

inductive sv_reach :: "sv_env \<Rightarrow> sv_server \<Rightarrow> bool" for env where
  created: "sv_New env base conf db = Some (Inr (Some s)) \<Longrightarrow> sv_reach env s"
| added: "sv_reach env s \<Longrightarrow> sv_AddLease env l s = Some (e, s') \<Longrightarrow> sv_reach env s'"
| updated: "sv_reach env s \<Longrightarrow>
    \<forall>e \<in> set (sv_Leases s). to_lower (svl_host e) = to_lower (svl_host l) \<longrightarrow> ifaceForAddr (svl_ip e) s = ifaceForAddr (svl_ip l) s \<Longrightarrow>
    sv_UpdateStaticLease env l s = Some (e, s') \<Longrightarrow> sv_reach env s'"
| removed: "sv_reach env s \<Longrightarrow> l \<in> set (sv_Leases s) \<Longrightarrow> sv_RemoveLease env l s = Some (e, s') \<Longrightarrow> sv_reach env s'"
| removed_by_addr: "sv_reach env s \<Longrightarrow> removeLeaseByAddr env ip s = Some (e, s') \<Longrightarrow> sv_reach env s'"
| reset: "sv_reach env s \<Longrightarrow> sv_Reset env s = (e, s') \<Longrightarrow> sv_reach env s'"

lemma and_store_cases:
  assumes "and_store env s res = Some (e, s')"
  obtains "s' = s" | s1 where "res = Some (Inr s1)" "s' = snd (sv_dbStore env s1)"
proof -
  from assms obtain x where x: "res = Some x" "(case x of Inl e \<Rightarrow> (Some e, s) | Inr s1 \<Rightarrow> sv_dbStore env s1) = (e, s')"
    by (auto simp: and_store_def)
  show thesis
  proof (cases x)
    case (Inl err)
    then show ?thesis using x that(1) by simp
  next
    case (Inr s1)
    then show ?thesis using x that(2) [of s1] by simp
  qed
qed

lemma Leases_set:
  assumes "sv_ok s"
  shows "set (sv_Leases s) = lease_set s"
proof -
  have "l \<in> set (sv_Leases s) \<longleftrightarrow> l \<in> lease_set s" for l
  proof -
    have "l \<in> set (sv_Leases s) \<longleftrightarrow> (\<exists>n. gm_get (li_name (sv_idx s)) n = Some l)"
      unfolding gm_get_iff [OF sv_okD(2) [OF assms]] by (auto simp: sv_Leases_def image_iff Bex_def)
    then show ?thesis using sv_okD(5) [OF assms, of _ l] by simp
  qed
  then show ?thesis by blast
qed

lemma and_store_ok:
  assumes "and_store env s res = Some (e, s')" "sv_ok s" "\<And>s1. res = Some (Inr s1) \<Longrightarrow> sv_ok s1"
  shows "sv_ok s'"
  using and_store_cases [OF assms(1)] assms(2,3) stored_ok by metis

lemma reach_ok: "sv_reach env s \<Longrightarrow> sv_ok s"
proof (induction rule: sv_reach.induct)
  case (created base conf db s)
  then show ?case by (rule sv_New_ok)
next
  case (added s l e s')
  show ?case
  proof (cases "ifaceForAddr (svl_ip l) s")
    case (Some r)
    then have "and_store env s (li_add l r s) = Some (e, s')" using added.hyps by (simp add: sv_AddLease_def)
    then show ?thesis using added.IH li_add_ok(1) [OF added.IH Some] by (rule and_store_ok)
  qed (use added in \<open>simp add: sv_AddLease_def\<close>)
next
  case (updated s l e s')
  show ?case
  proof (cases "ifaceForAddr (svl_ip l) s")
    case (Some r)
    then have "and_store env s (li_update l r s) = Some (e, s')" using updated.hyps by (simp add: sv_UpdateStaticLease_def)
    moreover have "li_update l r s = Some (Inr s1) \<Longrightarrow> sv_ok s1" for s1
      using li_update_ok(1) [OF updated.IH Some] updated.hyps(2) Some unfolding Leases_set [OF updated.IH] by simp
    ultimately show ?thesis using updated.IH and_store_ok by blast
  qed (use updated in \<open>simp add: sv_UpdateStaticLease_def\<close>)
next
  case (removed s l e s')
  show ?case
  proof (cases "ifaceForAddr (svl_ip l) s")
    case (Some r)
    then have "and_store env s (li_remove l r s) = Some (e, s')" using removed.hyps by (simp add: sv_RemoveLease_def)
    moreover have "li_remove l r s = Some (Inr s1) \<Longrightarrow> sv_ok s1" for s1
      using li_remove_ok(1) [OF removed.IH Some _ _ refl refl refl] removed.hyps(2) unfolding Leases_set [OF removed.IH] by simp
    ultimately show ?thesis using removed.IH and_store_ok by blast
  qed (use removed in \<open>simp add: sv_RemoveLease_def\<close>)
next
  case (removed_by_addr s ip e s')
  show ?case
  proof (cases "ifaceForAddr ip s")
    case (Some r)
    show ?thesis
    proof (cases "leaseByAddr ip (sv_idx s)")
      case l: (Some l)
      then have mem: "l \<in> lease_set s" "svl_ip l = ip" using sv_okD(4) [OF removed_by_addr.IH] by (auto simp: leaseByAddr_def)
      from l Some have "and_store env s (li_remove l r s) = Some (e, s')" using removed_by_addr.hyps by (simp add: removeLeaseByAddr_def)
      moreover have "li_remove l r s = Some (Inr s1) \<Longrightarrow> sv_ok s1" for s1
        using li_remove_ok(1) [OF removed_by_addr.IH, of l r s1 l] mem Some by simp
      ultimately show ?thesis using removed_by_addr.IH and_store_ok by blast
    qed (use removed_by_addr Some in \<open>auto simp: removeLeaseByAddr_def\<close>)
  qed (use removed_by_addr in \<open>auto simp: removeLeaseByAddr_def\<close>)
next
  case (reset s e s')
  then show ?case using stored_ok reset_ok unfolding sv_Reset_def by (metis snd_conv)
qed

section \<open>Properties\<close>


text \<open>A lease that converts and has no conflict is added from the database.\<close>

definition env_keeps :: "sv_env \<Rightarrow> sv_lease \<Rightarrow> bool" where
  "env_keeps env l = (if svl_static l then svl_expiry l = sv_zero_time else sve_parse env (sve_format env (svl_expiry l)) = Some (svl_expiry l))"

lemma toInternal_toDB: "env_keeps env l \<Longrightarrow> length (svl_mac l) \<in> {6, 8, 20} \<Longrightarrow> dl_toInternal env (toDBLease env l) = Some l"
  by (auto simp: env_keeps_def dl_toInternal_def toDBLease_def parse_mac_string split: if_splits)

lemma addDBLease_new:
  assumes "sv_ok s" "env_keeps env l" "length (svl_mac l) \<in> {6, 8, 20}" "ifaceForAddr (svl_ip l) s = Some r"
    "\<And>x. x \<in> lease_set s \<Longrightarrow> svl_ip x \<noteq> svl_ip l \<and> to_lower (svl_host x) \<noteq> to_lower (svl_host l) \<and>
      (ifaceForAddr (svl_ip x) s = Some r \<longrightarrow> svl_mac x \<noteq> svl_mac l)"
  shows "\<exists>s'. addDBLease env (toDBLease env l) s = Some s' \<and> sv_ok s' \<and> same_ifaces s s' \<and> lease_set s' = insert l (lease_set s)"
proof -
  have "gm_get (li_addr (sv_idx s)) (svl_ip l) = None" "gm_get (li_name (sv_idx s)) (to_lower (svl_host l)) = None"
    using sv_okD(4,5) [OF assms(1)] assms(5) by (meson not_None_eq)+
  moreover have "gm_get (ref_leases r s) (svl_mac l) = None"
  proof (rule ccontr)
    assume "gm_get (ref_leases r s) (svl_mac l) \<noteq> None"
    then obtain x where x: "gm_get (ref_leases r s) (svl_mac l) = Some x" by blast
    with sv_okD(3) [OF assms(1) ref_for_addr [OF assms(4)] x] have "x \<in> lease_set s" "svl_mac x = svl_mac l" "ifaceForAddr (svl_ip x) s = Some r"
      using lease_set_iff [OF assms(1), of x r] by auto
    then show False using assms(5) by blast
  qed
  ultimately obtain s' where s': "li_add l r s = Some (Inr s')"
    using assms(3) by (auto simp: li_add_def iface_addLease_def sv_macToKey_def Let_def)
  then have "addDBLease env (toDBLease env l) s = Some s'"
    using toInternal_toDB [OF assms(2,3)] assms(4) by (simp add: addDBLease_def) (simp add: toDBLease_def)
  then show ?thesis using li_add_ok [OF assms(1,4) s'] by blast
qed

lemma addDBLeases_new:
  assumes "sv_ok a"
  shows "sv_ok s \<Longrightarrow> same_ifaces a s \<Longrightarrow> distinct ls \<Longrightarrow> set ls \<union> lease_set s \<subseteq> lease_set a \<Longrightarrow> set ls \<inter> lease_set s = {} \<Longrightarrow>
    \<forall>l \<in> set ls. env_keeps env l \<Longrightarrow>
    \<exists>s'. addDBLeases env (map (toDBLease env) ls) s = Some s' \<and> sv_ok s' \<and> lease_set s' = set ls \<union> lease_set s"
proof (induction ls arbitrary: s)
  case (Cons l ls)
  from Cons.prems have mem: "l \<in> lease_set a" "l \<notin> lease_set s" by auto
  obtain r where r: "ifaceForAddr (svl_ip l) a = Some r" "length (svl_mac l) \<in> {6, 8, 20}"
    using lease_setD [OF assms mem(1)] by metis
  note same = same_ifacesD(1) [OF Cons.prems(2)]
  have "svl_ip x \<noteq> svl_ip l \<and> to_lower (svl_host x) \<noteq> to_lower (svl_host l) \<and> (ifaceForAddr (svl_ip x) s = Some r \<longrightarrow> svl_mac x \<noteq> svl_mac l)"
    if "x \<in> lease_set s" for x
  proof -
    have "x \<in> lease_set a" "x \<noteq> l" using that Cons.prems(4) mem(2) by auto
    then show ?thesis using same_lease [OF assms _ mem(1), of x] r(1) unfolding same by auto
  qed
  then obtain s1 where s1: "addDBLease env (toDBLease env l) s = Some s1" "sv_ok s1" "same_ifaces s s1" "lease_set s1 = insert l (lease_set s)"
    using addDBLease_new [OF Cons.prems(1), of env l r] Cons.prems(6) r same by auto
  have "\<exists>s'. addDBLeases env (map (toDBLease env) ls) s1 = Some s' \<and> sv_ok s' \<and> lease_set s' = set ls \<union> lease_set s1"
    using Cons.prems s1(4) by (intro Cons.IH s1(2) same_ifaces_trans [OF Cons.prems(2) s1(3)]) auto
  then show ?case using s1(1,4) by auto
qed simp

lemma insert_db_map: "\<exists>ls'. insert_db (f l) (map f ls) = map f ls' \<and> mset ls' = add_mset l (mset ls)"
proof -
  obtain i where "insert_db (f l) (map f ls) = map f (insert_at i l ls)"
    by (simp add: insert_db_def insert_at_def take_map drop_map) 
  moreover have "mset (insert_at i l ls) = add_mset l (mset (take i ls @ drop i ls))"
    unfolding insert_at_def by (simp del: append_take_drop_id)
  ultimately show ?thesis by (metis append_take_drop_id)
qed

lemma stored_leases:
  "\<exists>ls'. fold (\<lambda>(_, l). insert_db (f l)) m (map f ls) = map f ls' \<and> mset ls' = mset (map snd m) + mset ls"
proof (induction m arbitrary: ls)
  case (Cons x m)
  obtain n l where x: "x = (n, l)" by (cases x)
  obtain ls1 where "insert_db (f l) (map f ls) = map f ls1" "mset ls1 = add_mset l (mset ls)" using insert_db_map [of f l ls] by blast
  then show ?case using Cons.IH [of ls1] by (simp add: x)
qed auto

lemma Leases_distinct:
  assumes "sv_ok s"
  shows "distinct (sv_Leases s)"
proof -
  have "fst x = to_lower (svl_host (snd x))" if "x \<in> set (li_name (sv_idx s))" for x
    using that sv_okD(5) [OF assms, of "fst x" "snd x"] gm_get_iff [OF sv_okD(2) [OF assms], of "fst x" "snd x"] by simp
  then have "inj_on snd (set (li_name (sv_idx s)))" by (metis inj_onI prod_eqI)
  moreover have "distinct (li_name (sv_idx s))" using sv_okD(2) [OF assms] by (simp add: gm_wf_def distinct_map)
  ultimately show ?thesis by (simp add: sv_Leases_def distinct_map)
qed


text \<open>A removal that names the address of one lease and the name and hardware address of another of the same interface
  is accepted although no such lease is stored, and takes the lookups apart: the first lease is no longer found by its
  address but still by its name, and the second one the other way round.\<close>

theorem dhcpsvc_mixed_removal:
  assumes "sv_reach env s" "a \<in> set (sv_Leases s)" "b \<in> set (sv_Leases s)" "a \<noteq> b"
    "ifaceForAddr (svl_ip a) s = ifaceForAddr (svl_ip b) s"
  shows "\<exists>e s'. sv_RemoveLease env (b\<lparr>svl_ip := svl_ip a\<rparr>) s = Some (e, s') \<and> e \<in> {None, Some DBWrite} \<and>
    sv_HostByIP (svl_ip a) s' = [] \<and> sv_IPByHost (svl_host a) s' = svl_ip a \<and>
    sv_HostByIP (svl_ip b) s' = svl_host b \<and> sv_IPByHost (svl_host b) s' = ZeroAddr"
proof -
  note ok = reach_ok [OF assms(1)]
  have mem: "a \<in> lease_set s" "b \<in> lease_set s" using assms(2,3) by (simp_all add: Leases_set [OF ok])
  obtain r where r: "ifaceForAddr (svl_ip b) s = Some r" "gm_get (ref_leases r s) (svl_mac b) = Some b" "length (svl_mac b) \<in> {6, 8, 20}"
    using lease_setD [OF ok mem(2)] by metis
  have get: "gm_get (li_addr (sv_idx s)) (svl_ip x) = Some x" "gm_get (li_name (sv_idx s)) (to_lower (svl_host x)) = Some x"
    if "x \<in> lease_set s" for x
    using sv_okD(4,5) [OF ok] that by blast+
  have differ: "svl_ip a \<noteq> svl_ip b" "to_lower (svl_host a) \<noteq> to_lower (svl_host b)"
    using same_lease(1,2) [OF ok mem] assms(4) by auto
  let ?l = "b\<lparr>svl_ip := svl_ip a\<rparr>"
  obtain s1 where s1: "li_remove ?l r s = Some (Inr s1)"
    using get(1) [OF mem(1)] get(2) [OF mem(2)] r(2,3)
    by (auto simp: li_remove_def iface_removeLease_def sv_macToKey_def Let_def)
  have "sv_RemoveLease env ?l s = Some (sv_dbStore env s1)"
    using assms(5) r(1) s1 by (simp add: sv_RemoveLease_def and_store_def)
  moreover have "fst (sv_dbStore env s1) \<in> {None, Some DBWrite}" by (simp add: sv_dbStore_def)
  moreover have "sv_idx (snd (sv_dbStore env s1)) =
      \<lparr>li_addr = gm_del (svl_ip a) (li_addr (sv_idx s)), li_name = gm_del (to_lower (svl_host b)) (li_name (sv_idx s))\<rparr>"
    by (simp add: li_remove_cases [OF s1])
  ultimately show ?thesis
    using get [OF mem(1)] get [OF mem(2)] differ
    by (intro exI [of _ "fst (sv_dbStore env s1)"] exI [of _ "snd (sv_dbStore env s1)"])
      (simp add: sv_HostByIP_def sv_IPByHost_def leaseByAddr_def leaseByName_def)
qed

section \<open>Searching a range\<close>

lemma addr4_less [simp]: "Addr4 a < Addr4 b \<longleftrightarrow> a < b"
  by (auto simp: less_addr_def addr_key_def word_less_def)

lemma word_next:
  fixes w b :: "32 word"
  assumes "w \<le> b" "b \<noteq> - 1"
  shows "w + 1 \<noteq> 0" "uint (w + 1) = uint w + 1"
proof -
  have "uint b \<noteq> 2 ^ 32 - 1" using assms(2) by (simp add: word_uint_eq_iff uint_word_ariths)
  then have "uint w + 1 < 2 ^ 32" using assms(1) uint_bounded [of b] by (simp add: word_le_def)
  then show "uint (w + 1) = uint w + 1" by (simp add: uint_word_ariths mod_pos_pos_trivial)
  then show "w + 1 \<noteq> 0" using uint_ge_0 [of w] by fastforce
qed

lemma svr_find_from_spec:
  assumes "b \<noteq> - 1"
  shows "\<exists>x. svr_find_from \<lparr>svr_start = st, svr_end = Addr4 b\<rparr> p (Addr4 w) = Some x \<and>
    (x = ZeroAddr \<and> (\<forall>v. w \<le> v \<longrightarrow> v \<le> b \<longrightarrow> \<not> p (Addr4 v)) \<or>
     (\<exists>v. x = Addr4 v \<and> w \<le> v \<and> v \<le> b \<and> p x \<and> (\<forall>u. w \<le> u \<longrightarrow> u < v \<longrightarrow> \<not> p (Addr4 u))))"
proof (induction "nat (uint b + 1 - uint w)" arbitrary: w rule: less_induct)
  case less
  show ?case
  proof (cases "b < w \<or> p (Addr4 w)")
    case True
    then show ?thesis by (subst svr_find_from.simps) auto
  next
    case False
    then have w: "w \<le> b" "\<not> p (Addr4 w)" by auto
    note next_w = word_next [OF w(1) assms]
    have step: "svr_find_from \<lparr>svr_start = st, svr_end = Addr4 b\<rparr> p (Addr4 w) = svr_find_from \<lparr>svr_start = st, svr_end = Addr4 b\<rparr> p (Addr4 (w + 1))"
      using False next_w(1) by (subst svr_find_from.simps) simp
    have after: "w \<le> v \<longleftrightarrow> v = w \<or> w + 1 \<le> v" for v
      using next_w(2) by (auto simp: word_le_def word_uint_eq_iff)
    have "nat (uint b + 1 - uint (w + 1)) < nat (uint b + 1 - uint w)" using w(1) next_w(2) by (simp add: word_le_def)
    from less.hyps [OF this] show ?thesis using w(2) by (auto simp: step after)
  qed
qed

text \<open>A search of a range of IPv4 addresses that does not end at the last address of all ends: it finds the first address
  of the range with the property, or the zero address when no address of the range has it.\<close>

theorem range_find_first:
  assumes "sv_newIPRange (Addr4 a) (Addr4 b) = Inr r" "b \<noteq> - 1"
  shows "\<exists>x. svr_find r p = Some x \<and>
    (if x = ZeroAddr then \<forall>ip. svr_contains r ip \<longrightarrow> \<not> p ip
     else svr_contains r x \<and> p x \<and> (\<forall>ip. svr_contains r ip \<and> ip < x \<longrightarrow> \<not> p ip))"
proof -
  have r: "r = \<lparr>svr_start = Addr4 a, svr_end = Addr4 b\<rparr>"
    using assms(1) by (auto simp: sv_newIPRange_def Let_def split: if_splits)
  have inside: "svr_contains r ip \<longleftrightarrow> (\<exists>v. ip = Addr4 v \<and> a \<le> v \<and> v \<le> b)" for ip
    by (cases ip) (auto simp: svr_contains_def r)
  obtain x where x: "svr_find r p = Some x" "x = ZeroAddr \<and> (\<forall>v. a \<le> v \<longrightarrow> v \<le> b \<longrightarrow> \<not> p (Addr4 v)) \<or>
     (\<exists>v. x = Addr4 v \<and> a \<le> v \<and> v \<le> b \<and> p x \<and> (\<forall>u. a \<le> u \<longrightarrow> u < v \<longrightarrow> \<not> p (Addr4 u)))"
    using svr_find_from_spec [OF assms(2), of "Addr4 a" p a] unfolding svr_find_def r by auto
  from x(2) show ?thesis
  proof (elim disjE conjE exE)
    assume "x = ZeroAddr" "\<forall>v. a \<le> v \<longrightarrow> v \<le> b \<longrightarrow> \<not> p (Addr4 v)"
    then show ?thesis using x(1) by (auto simp: inside)
  next
    fix v
    assume "x = Addr4 v" "a \<le> v" "v \<le> b" "p x" "\<forall>u. a \<le> u \<longrightarrow> u < v \<longrightarrow> \<not> p (Addr4 u)"
    then show ?thesis using x(1) by (auto simp: inside)
  qed
qed

theorem range_find_first_witness:
  "\<exists>x. svr_find \<lparr>svr_start = Addr4 0xC0A80064, svr_end = Addr4 0xC0A80066\<rparr> (\<lambda>ip. ip = Addr4 0xC0A80065) = Some x \<and> x \<noteq> ZeroAddr"
proof -
  let ?r = "\<lparr>svr_start = Addr4 0xC0A80064, svr_end = Addr4 0xC0A80066\<rparr>"
  have "sv_newIPRange (Addr4 0xC0A80064) (Addr4 0xC0A80066) = Inr ?r" by (simp add: sv_newIPRange_def sv_maxRangeLen_def Let_def)
  moreover have "svr_contains ?r (Addr4 0xC0A80065)" by (simp add: svr_contains_def)
  ultimately show ?thesis
    using range_find_first [of "0xC0A80064" "0xC0A80066" ?r "\<lambda>ip. ip = Addr4 0xC0A80065"] by (auto split: if_splits)
qed

section \<open>Witnesses\<close>

definition dv_env :: sv_env where
  "dv_env = \<lparr>sve_format = (\<lambda>t. if t = 3600 then ''1970-01-01T01:00:00Z'' else []), sve_parse = (\<lambda>s. if s = ''1970-01-01T01:00:00Z'' then Some 3600 else None), sve_write = True\<rparr>"

definition dv_conf :: sv_conf where
  "dv_conf = \<lparr>svc_ifaces = [(''eth0'', Some \<lparr>
       sic_v4 = Some \<lparr>s4c_gateway = Addr4 0xC0A80001, s4c_mask = Addr4 0xFFFFFF00, s4c_start = Addr4 0xC0A80064,
         s4c_end = Addr4 0xC0A800C8, s4c_options = [], s4c_duration = 3600, s4c_enabled = True\<rparr>,
       sic_v6 = Some \<lparr>s6c_start = ZeroAddr, s6c_options = [], s6c_duration = 0, s6c_slaac_only = False, s6c_allow_slaac = False,
         s6c_enabled = False\<rparr>\<rparr>)],
     svc_domain = ''lan'', svc_path_ok = True, svc_timeout = 0, svc_enabled = True\<rparr>"

definition dv_a :: sv_lease where
  "dv_a = \<lparr>svl_ip = Addr4 0xC0A80065, svl_expiry = 3600, svl_host = ''Alpha'', svl_mac = [2, 0, 0, 0, 0, 1], svl_static = False\<rparr>"

definition dv_b :: sv_lease where
  "dv_b = \<lparr>svl_ip = Addr4 0xC0A80066, svl_expiry = sv_zero_time, svl_host = ''beta'', svl_mac = [2, 0, 0, 0, 0, 2], svl_static = True\<rparr>"

definition dv_srv :: "sv_lease list \<Rightarrow> db_file \<Rightarrow> sv_server" where
  "dv_srv ls db = \<lparr>
     sv_idx = \<lparr>li_addr = map (\<lambda>l. (svl_ip l, l)) ls, li_name = map (\<lambda>l. (to_lower (svl_host l), l)) ls\<rparr>,
     sv_ifaces4 = [\<lparr>s4_gateway = Addr4 0xC0A80001, s4_subnet = Prefix (Addr4 0xC0A80001) 24,
       s4_space = \<lparr>svr_start = Addr4 0xC0A80064, svr_end = Addr4 0xC0A800C8\<rparr>, s4_imp = [], s4_exp = [],
       s4_leases = map (\<lambda>l. (svl_mac l, l)) ls, s4_name = ''eth0'', s4_ttl = 3600\<rparr>],
     sv_ifaces6 = [], sv_file = db\<rparr>"

abbreviation dv_added :: sv_server where
  "dv_added \<equiv> dv_srv [dv_a, dv_b] (DBLeases [toDBLease dv_env dv_a, toDBLease dv_env dv_b])"

lemma dv_iface: "ifaceForAddr (svl_ip dv_a) (dv_srv ls db) = Some (IF4 0)" "ifaceForAddr (svl_ip dv_b) (dv_srv ls db) = Some (IF4 0)"
proof -
  have "prefix_contains (Prefix (Addr4 0xC0A80001) 24) (Addr4 0xC0A80065)" "prefix_contains (Prefix (Addr4 0xC0A80001) 24) (Addr4 0xC0A80066)"
    by code_simp+
  then show "ifaceForAddr (svl_ip dv_a) (dv_srv ls db) = Some (IF4 0)" "ifaceForAddr (svl_ip dv_b) (dv_srv ls db) = Some (IF4 0)"
    by (simp_all add: dv_a_def dv_b_def ifaceForAddr_def ifaces4_find_def dv_srv_def)
qed

lemma dv_order: "insert_db (toDBLease dv_env dv_b) [toDBLease dv_env dv_a] = [toDBLease dv_env dv_a, toDBLease dv_env dv_b]"
proof -
  have "cmp_ord ''Alpha'' ''beta'' = -1" by code_simp
  then have "compareNames (toDBLease dv_env dv_a) (toDBLease dv_env dv_b) = -1"
    by (simp add: compareNames_def toDBLease_def dv_a_def dv_b_def)
  then show ?thesis by (simp add: insert_db_def binary_search_def bsearch_loop.simps insert_at_def Let_def)
qed

lemma dv_single: "insert_db dl [] = [dl]"
  by (simp add: insert_db_def binary_search_def bsearch_loop.simps insert_at_def Let_def)

lemma dv_write: "sve_write dv_env"
  by (simp add: dv_env_def)

lemma dv_first: "sv_AddLease dv_env dv_a (dv_srv [] DBMissing) = Some (None, dv_srv [dv_a] (DBLeases [toDBLease dv_env dv_a]))"
proof -
  have "li_add dv_a (IF4 0) (dv_srv [] DBMissing) = Some (Inr (dv_srv [dv_a] DBMissing))"
    by (simp add: li_add_def iface_addLease_def sv_macToKey_def ref_leases_def set_ref_leases_def dv_srv_def Let_def) (simp add: dv_a_def)
  then show ?thesis
    by (simp add: sv_AddLease_def dv_iface and_store_def sv_dbStore_def dv_write) (simp add: dv_srv_def dv_single)
qed

lemma dv_second: "sv_AddLease dv_env dv_b (dv_srv [dv_a] db) = Some (None, dv_added)"
proof -
  have "svl_ip dv_a \<noteq> svl_ip dv_b" "svl_mac dv_a \<noteq> svl_mac dv_b" "length (svl_mac dv_b) = 6" by (simp_all add: dv_a_def dv_b_def)
  moreover have "to_lower (svl_host dv_a) \<noteq> to_lower (svl_host dv_b)" by code_simp
  ultimately have "li_add dv_b (IF4 0) (dv_srv [dv_a] db) = Some (Inr (dv_srv [dv_a, dv_b] db))"
    by (simp add: li_add_def iface_addLease_def sv_macToKey_def ref_leases_def set_ref_leases_def dv_srv_def Let_def)
  then show ?thesis
    by (simp add: sv_AddLease_def dv_iface and_store_def sv_dbStore_def dv_write) (simp add: dv_srv_def dv_single dv_order)
qed

lemma dv_reach: "sv_reach dv_env dv_added"
proof -
  have "sv_New dv_env (\<lambda>_. []) dv_conf DBMissing = Some (Inr (Some (dv_srv [] DBMissing)))" by code_simp
  then show ?thesis using sv_reach.added dv_first dv_second sv_reach.created by metis
qed

lemma dv_leases: "sv_Leases dv_added = [dv_a, dv_b]"
  by (simp add: sv_Leases_def dv_srv_def)



theorem dhcpsvc_mixed_removal_witness:
  "\<exists>e s'. sv_RemoveLease dv_env (dv_b\<lparr>svl_ip := svl_ip dv_a\<rparr>) dv_added = Some (e, s') \<and> sv_IPByHost ''beta'' s' = ZeroAddr"
proof -
  have "dv_a \<noteq> dv_b" "svl_host dv_b = ''beta''" by (simp_all add: dv_a_def dv_b_def)
  then obtain e s' where "sv_RemoveLease dv_env (dv_b\<lparr>svl_ip := svl_ip dv_a\<rparr>) dv_added = Some (e, s')" "sv_IPByHost ''beta'' s' = ZeroAddr"
    using dhcpsvc_mixed_removal [OF dv_reach, of dv_a dv_b] by (auto simp: dv_leases dv_iface)
  then show ?thesis by blast
qed

end
