(* ===== verification/DhcpV6.thy ===== *)
theory DhcpV6
  imports DhcpV4
begin

text \<open>
  The DHCPv6 server of package \<^verbatim>\<open>internal/dhcpd\<close>, \<^verbatim>\<open>v6_unix.go\<close>: the list of leases with the array of taken last bytes,
  static leases, the reservation of addresses and the messages of clients.

  A lease is only changed through its place in the list, so the list has the leases themselves.  A value of type
  \<^verbatim>\<open>net.IP\<close> is an address without a zone, with 4 or 16 bytes; nil is the zero address.  A panic is \<^term>\<open>None\<close>.
  Arguments of the model: the check of hardware addresses and the clock (\<open>dhcp_env\<close>), the DHCPv6 module's reading of
  packets and its making of replies, the rounding of the second timer to a binary fraction, and the sockets.
\<close>

section \<open>State\<close>

record v6_conf =
  v6c_enabled :: bool
  v6c_iface :: string
  v6c_range_start :: addr
  v6c_duration :: "32 word"
  v6c_slaac_only :: bool
  v6c_allow_slaac :: bool
  v6c_ip_start :: addr
  v6c_lease_time :: int
  v6c_dns :: "addr list"

text \<open>The events are those of the callback \<^verbatim>\<open>notify\<close>: a store of the leases, or a change.\<close>

record v6_server =
  v6_conf :: v6_conf
  v6_sid :: "string option"
  v6_leases :: "lease list"
  v6_used :: "8 word \<Rightarrow> bool"
  v6_events :: "lease_event list"

datatype v6_error = V6InvalidIP | V6BadMAC mac | V6StaticExists | V6CantFind mac | V6NotFound | V6BadRangeStart

definition v6_store :: "v6_server \<Rightarrow> v6_server" where
  "v6_store s = s\<lparr>v6_events := v6_events s @ [DBStored (v6_leases s)]\<rparr>"

definition v6_notify :: "lease_change \<Rightarrow> v6_server \<Rightarrow> v6_server" where
  "v6_notify ch s = s\<lparr>v6_events := v6_events s @ [LeaseChanged ch]\<rparr>"

definition last_byte :: "addr \<Rightarrow> 8 word" where
  "last_byte a = ucast (word16 a)"

definition WriteDiskConfig6 :: "v6_server \<Rightarrow> v6_conf" where
  "WriteDiskConfig6 s = v6_conf s"

text \<open>The first 15 bytes of \<open>ip\<close> are taken unchecked.\<close>

definition ip6InRange :: "addr \<Rightarrow> addr \<Rightarrow> bool option" where
  "ip6InRange start ip =
     (case start of
        Addr6 w _ \<Rightarrow>
          (case ip of
             Addr6 v _ \<Rightarrow> Some (drop_bit 8 w = drop_bit 8 v \<and> (ucast w :: 8 word) \<le> ucast v)
           | _ \<Rightarrow> None)
      | _ \<Rightarrow> Some False)"

section \<open>Lookups\<close>

definition v6_HostByIP :: "addr \<Rightarrow> v6_server \<Rightarrow> string" where
  "v6_HostByIP ip s = (case find (\<lambda>l. ls_ip l = ip) (v6_leases s) of Some l \<Rightarrow> ls_hostname l | None \<Rightarrow> [])"

definition v6_IPByHost :: "string \<Rightarrow> v6_server \<Rightarrow> addr" where
  "v6_IPByHost host s = (case find (\<lambda>l. ls_hostname l = host) (v6_leases s) of Some l \<Rightarrow> ls_ip l | None \<Rightarrow> ZeroAddr)"

definition v6_GetLeases :: "bool \<Rightarrow> bool \<Rightarrow> v6_server \<Rightarrow> lease list" where
  "v6_GetLeases getDynamic getStatic s = filter (\<lambda>l. if ls_static l then getStatic else getDynamic) (v6_leases s)"

definition v6_FindMACbyIP :: "int \<Rightarrow> addr \<Rightarrow> v6_server \<Rightarrow> mac option" where
  "v6_FindMACbyIP now ip s =
     (if \<not> is6 ip then None
      else map_option ls_hwaddr (find (\<lambda>l. ls_ip l = ip \<and> (ls_static l \<or> now < ls_expiry l)) (v6_leases s)))"

definition v6_findLease :: "mac \<Rightarrow> v6_server \<Rightarrow> nat option" where
  "v6_findLease m s = find (\<lambda>i. ls_hwaddr (v6_leases s ! i) = m) [0..<length (v6_leases s)]"

text \<open>Instants are compared in whole seconds.\<close>

definition unix_seconds :: "int \<Rightarrow> int" where
  "unix_seconds t = t div second_dur"

definition v6_findExpiredLease :: "int \<Rightarrow> v6_server \<Rightarrow> nat option" where
  "v6_findExpiredLease now s =
     find (\<lambda>i. \<not> ls_static (v6_leases s ! i) \<and> unix_seconds (ls_expiry (v6_leases s ! i)) \<le> unix_seconds now)
       [0..<length (v6_leases s)]"

section \<open>Adding and removing leases\<close>

definition v6_addLease :: "lease \<Rightarrow> v6_server \<Rightarrow> v6_server" where
  "v6_addLease l s = s\<lparr>v6_leases := v6_leases s @ [l], v6_used := (v6_used s)(last_byte (ls_ip l) := True)\<rparr>"

text \<open>The last lease takes the place of the removed one.\<close>

definition leaseRemoveSwapByIndex :: "nat \<Rightarrow> v6_server \<Rightarrow> v6_server" where
  "leaseRemoveSwapByIndex i s =
     s\<lparr>v6_leases := butlast ((v6_leases s)[i := last (v6_leases s)]),
       v6_used := (v6_used s)(last_byte (ls_ip (v6_leases s ! i)) := False)\<rparr>"

function v6_rm_dynamic_loop :: "lease \<Rightarrow> nat \<Rightarrow> v6_server \<Rightarrow> v6_error option \<times> v6_server" where
  "v6_rm_dynamic_loop x i s =
     (if length (v6_leases s) \<le> i then (None, s)
      else
        let hit = (ls_hwaddr (v6_leases s ! i) = ls_hwaddr x);
            s1 = (if hit then leaseRemoveSwapByIndex i s else s)
        in if hit \<and> ls_static (v6_leases s ! i) then (Some V6StaticExists, s)
           else if hit \<and> length (v6_leases s1) = i then (None, s1)
           else if ls_ip (v6_leases s1 ! i) \<noteq> ls_ip x then v6_rm_dynamic_loop x (i + 1) s1
           else if ls_static (v6_leases s1 ! i) then (Some V6StaticExists, s1)
           else v6_rm_dynamic_loop x (i + 1) (leaseRemoveSwapByIndex i s1))"
  by pat_completeness auto
termination
  by (relation "measure (\<lambda>(x, i, s). length (v6_leases s) - i)") (auto simp: leaseRemoveSwapByIndex_def)

declare v6_rm_dynamic_loop.simps [simp del]

definition v6_rmDynamicLease :: "lease \<Rightarrow> v6_server \<Rightarrow> v6_error option \<times> v6_server" where
  "v6_rmDynamicLease x s = v6_rm_dynamic_loop x 0 s"

definition v6_rmLease :: "lease \<Rightarrow> v6_server \<Rightarrow> v6_error option \<times> v6_server" where
  "v6_rmLease x s =
     (case find (\<lambda>i. ls_ip (v6_leases s ! i) = ls_ip x) [0..<length (v6_leases s)] of
        None \<Rightarrow> (Some V6NotFound, s)
      | Some i \<Rightarrow>
          if ls_hwaddr (v6_leases s ! i) \<noteq> ls_hwaddr x \<or> ls_hostname (v6_leases s ! i) \<noteq> ls_hostname x then (Some V6NotFound, s)
          else (None, leaseRemoveSwapByIndex i s))"

section \<open>Static leases\<close>

definition v6_AddStaticLease :: "dhcp_env \<Rightarrow> lease \<Rightarrow> v6_server \<Rightarrow> v6_error option \<times> v6_server" where
  "v6_AddStaticLease env l0 s =
     (if \<not> is6 (ls_ip l0) then (Some V6InvalidIP, s)
      else if \<not> de_valid_mac env (ls_hwaddr l0) then (Some (V6BadMAC (ls_hwaddr l0)), s)
      else
        let l = l0\<lparr>ls_static := True\<rparr>
        in case v6_rmDynamicLease l s of
             (Some e, s1) \<Rightarrow> (Some e, s1)
           | (None, s1) \<Rightarrow> (None, v6_notify LeaseAddedStatic (v6_store (v6_addLease l s1))))"

definition v6_UpdateStaticLease :: "lease \<Rightarrow> v6_server \<Rightarrow> v6_error option \<times> v6_server" where
  "v6_UpdateStaticLease l s =
     (case v6_findLease (ls_hwaddr l) s of
        None \<Rightarrow> (Some (V6CantFind (ls_hwaddr l)), s)
      | Some i \<Rightarrow>
          (case v6_rmLease (v6_leases s ! i) s of
             (Some e, s1) \<Rightarrow> (Some e, s1)
           | (None, s1) \<Rightarrow> (None, v6_notify LeaseRemovedStatic (v6_store (v6_addLease l s1)))))"

definition v6_RemoveStaticLease :: "dhcp_env \<Rightarrow> lease \<Rightarrow> v6_server \<Rightarrow> v6_error option \<times> v6_server" where
  "v6_RemoveStaticLease env l s =
     (if \<not> is6 (ls_ip l) then (Some V6InvalidIP, s)
      else if \<not> de_valid_mac env (ls_hwaddr l) then (Some (V6BadMAC (ls_hwaddr l)), s)
      else case v6_rmLease l s of
        (Some e, s1) \<Rightarrow> (Some e, s1)
      | (None, s1) \<Rightarrow> (None, v6_notify LeaseRemovedStatic (v6_store s1)))"

text \<open>The array of taken bytes is not cleared.\<close>

fun v6_reset_loop :: "lease list \<Rightarrow> v6_server \<Rightarrow> v6_server option" where
  "v6_reset_loop [] s = Some s"
| "v6_reset_loop (l # ls) s =
     (if ls_static l then v6_reset_loop ls (v6_addLease l s)
      else Option.bind (ip6InRange (v6c_ip_start (v6_conf s)) (with_zone [] (ls_ip l)))
        (\<lambda>inRange. v6_reset_loop ls (if inRange then v6_addLease l s else s)))"

definition v6_ResetLeases :: "lease list \<Rightarrow> v6_server \<Rightarrow> v6_server option" where
  "v6_ResetLeases ls s = v6_reset_loop ls (s\<lparr>v6_leases := []\<rparr>)"

section \<open>Reservation\<close>

definition with_last_byte :: "128 word \<Rightarrow> 8 word \<Rightarrow> addr" where
  "with_last_byte w b = Addr6 (or (and w (not 0xFF)) (ucast b)) []"

text \<open>The outer option is a panic, for a start that has not 16 bytes.\<close>

definition findFreeIP :: "v6_server \<Rightarrow> addr option option" where
  "findFreeIP s =
     (case v6c_ip_start (v6_conf s) of
        Addr6 w _ \<Rightarrow>
          Some (map_option (\<lambda>n. with_last_byte w (of_nat n))
            (find (\<lambda>n. \<not> v6_used s (of_nat n)) [unat (ucast w :: 8 word)..<256]))
      | _ \<Rightarrow> None)"

text \<open>The place of the reserved lease.\<close>

definition v6_reserveLease :: "int \<Rightarrow> mac \<Rightarrow> v6_server \<Rightarrow> (nat option \<times> v6_server) option" where
  "v6_reserveLease now m s =
     map_option (\<lambda>free.
       case free of
         Some ip \<Rightarrow>
           (Some (length (v6_leases s)),
            v6_addLease \<lparr>ls_ip = ip, ls_expiry = zero_time, ls_hostname = [], ls_hwaddr = m, ls_static = False\<rparr> s)
       | None \<Rightarrow>
           (case v6_findExpiredLease now s of
              None \<Rightarrow> (None, s)
            | Some i \<Rightarrow>
                let l = v6_leases s ! i
                in (Some i, s\<lparr>v6_leases := (v6_leases s)[i := l\<lparr>ls_hwaddr := copy_mac (ls_hwaddr l) m\<rparr>]\<rparr>)))
       (findFreeIP s)"

definition commitDynamicLease :: "int \<Rightarrow> nat \<Rightarrow> v6_server \<Rightarrow> v6_server" where
  "commitDynamicLease now i s =
     v6_notify LeaseAdded (v6_store
       (s\<lparr>v6_leases := (v6_leases s)[i := (v6_leases s ! i)\<lparr>ls_expiry := now + v6c_lease_time (v6_conf s)\<rparr>]\<rparr>))"

section \<open>Messages\<close>

datatype v6_type = V6Solicit | V6Request | V6Confirm | V6Renew | V6Rebind | V6Release | V6Decline | V6InfoRequest | V6Other nat

text \<open>
  What the module reads from a packet: the identifiers of client and server, the hardware address of the client, the
  first identity association with its first address, and which options are there.
\<close>

record v6_msg =
  vm_type :: v6_type
  vm_has_cid :: bool
  vm_sid :: "string option"
  vm_mac :: "mac option"
  vm_ia :: "(string \<times> addr option) option"
  vm_wants_dns :: bool
  vm_fqdn :: "string option"
  vm_rapid :: bool

record v6_ia =
  via_id :: string
  via_t1 :: int
  via_t2 :: int
  via_addr :: addr
  via_lifetime :: int

record v6_resp =
  vr_advertise :: bool
  vr_sid :: "string option"
  vr_ia :: "v6_ia option"
  vr_dns :: "addr list option"
  vr_fqdn :: "string option"
  vr_success :: bool

definition checkCID :: "v6_msg \<Rightarrow> bool" where
  "checkCID msg \<longleftrightarrow> vm_has_cid msg"

definition checkSID :: "v6_server \<Rightarrow> v6_msg \<Rightarrow> bool" where
  "checkSID s msg =
     (if vm_type msg \<in> {V6Solicit, V6Confirm, V6Rebind} then vm_sid msg = None
      else if vm_type msg \<in> {V6Request, V6Renew, V6Release, V6Decline} then vm_sid msg \<noteq> None \<and> vm_sid msg = v6_sid s
      else True)"

definition checkIA :: "v6_msg \<Rightarrow> lease \<Rightarrow> bool" where
  "checkIA msg l =
     (if vm_type msg \<in> {V6Request, V6Confirm, V6Renew, V6Rebind} then
        (case vm_ia msg of
           None \<Rightarrow> False
         | Some (_, None) \<Rightarrow> False
         | Some (_, Some a) \<Rightarrow> ip_equal a (with_zone [] (ls_ip l)))
      else True)"

text \<open>A difference of instants is cut to 64 bits.\<close>

definition time_until :: "int \<Rightarrow> int \<Rightarrow> int" where
  "time_until now t = max (- (2 ^ 63)) (min (2 ^ 63 - 1) (t - now))"

definition v6_commitLease :: "int \<Rightarrow> v6_msg \<Rightarrow> nat \<Rightarrow> v6_server \<Rightarrow> int \<times> v6_server" where
  "v6_commitLease now msg i s =
     (let lifetime = v6c_lease_time (v6_conf s); l = v6_leases s ! i in
      if vm_type msg = V6Confirm then (time_until now (ls_expiry l), s)
      else if vm_type msg \<in> {V6Request, V6Renew, V6Rebind} \<and> \<not> ls_static l then (lifetime, commitDynamicLease now i s)
      else (lifetime, s))"

definition valueIAID :: string where
  "valueIAID = ''ADGH''"

definition v6_process ::
  "dhcp_env \<Rightarrow> (int \<Rightarrow> int) \<Rightarrow> v6_msg \<Rightarrow> v6_resp \<Rightarrow> v6_server \<Rightarrow> (v6_resp \<times> v6_server) option" where
  "v6_process env t2 msg resp s =
     (if vm_type msg \<notin> {V6Solicit, V6Request, V6Confirm, V6Renew, V6Rebind} then Some (resp, s)
      else case vm_mac msg of
        None \<Rightarrow> Some (resp, s)
      | Some m \<Rightarrow>
          Option.bind
            (case v6_findLease m s of
               Some i \<Rightarrow> Some (Some i, s)
             | None \<Rightarrow> if vm_type msg = V6Solicit then v6_reserveLease (de_now env) m s else Some (None, s))
            (\<lambda>(found, s1).
              case found of
                None \<Rightarrow> Some (resp, s1)
              | Some i \<Rightarrow>
                  if \<not> checkIA msg (v6_leases s1 ! i) then Some (resp, s1)
                  else
                    let (lifetime, s2) = v6_commitLease (de_now env) msg i s1;
                        ia = \<lparr>via_id = (case vm_ia msg of Some (n, _) \<Rightarrow> n | None \<Rightarrow> valueIAID),
                              via_t1 = (if 0 \<le> lifetime then lifetime div 2 else - ((- lifetime) div 2)), via_t2 = t2 lifetime,
                              via_addr = with_zone [] (ls_ip (v6_leases s2 ! i)), via_lifetime = lifetime\<rparr>
                    in Some (resp\<lparr>vr_ia := Some ia,
                          vr_dns := (if vm_wants_dns msg then Some (v6c_dns (v6_conf s2)) else vr_dns resp),
                          vr_fqdn := vm_fqdn msg, vr_success := True\<rparr>, s2)))"

text \<open>
  \<open>inner\<close> is the message of the packet, if it has one; \<open>reply_ok\<close> is whether the module can make a reply for it.  The
  result has the reply that is sent, if any.
\<close>

definition v6_packetHandler ::
  "dhcp_env \<Rightarrow> (int \<Rightarrow> int) \<Rightarrow> bool \<Rightarrow> v6_msg option \<Rightarrow> v6_server \<Rightarrow> (v6_resp option \<times> v6_server) option" where
  "v6_packetHandler env t2 reply_ok inner s =
     (case inner of
        None \<Rightarrow> Some (None, s)
      | Some msg \<Rightarrow>
          if \<not> checkCID msg \<or> \<not> checkSID s msg then Some (None, s)
          else if vm_type msg \<notin> {V6Solicit, V6Request, V6Confirm, V6Renew, V6Rebind, V6Release, V6InfoRequest} then Some (None, s)
          else if \<not> reply_ok then Some (None, s)
          else
            let resp = \<lparr>vr_advertise = (vm_type msg = V6Solicit \<and> \<not> vm_rapid msg), vr_sid = v6_sid s, vr_ia = None,
                        vr_dns = None, vr_fqdn = None, vr_success = False\<rparr>
            in map_option (\<lambda>(resp, s1). (Some resp, s1)) (v6_process env t2 msg resp s))"

section \<open>Creation and start\<close>

definition v6Create :: "v6_conf \<Rightarrow> v6_error option \<times> v6_server" where
  "v6Create conf =
     (let s = \<lparr>v6_conf = conf, v6_sid = None, v6_leases = [], v6_used = (\<lambda>_. False), v6_events = []\<rparr> in
      if \<not> v6c_enabled conf then (None, s)
      else
        let c = conf\<lparr>v6c_ip_start := v6c_range_start conf\<rparr> in
        if v6c_range_start conf = ZeroAddr then (Some V6BadRangeStart, s\<lparr>v6_conf := c\<rparr>)
        else (None, s\<lparr>v6_conf :=
          (if v6c_duration c = 0 then c\<lparr>v6c_lease_time := 86400 * second_dur, v6c_duration := 86400\<rparr>
           else c\<lparr>v6c_lease_time := second_dur * uint (v6c_duration c)\<rparr>)\<rparr>))"

text \<open>
  The start of the server: \<open>addrs\<close> are the addresses of its interface, if it is there, and \<open>mac\<close> is its identifier with
  whether its hardware address is valid; the router advertisements and the socket are started besides.  The result says
  whether the server listens.
\<close>

datatype v6_start_error = V6NoInterface | V6BadInterface

definition v6_Start :: "addr list option \<Rightarrow> string \<Rightarrow> bool \<Rightarrow> v6_server \<Rightarrow> (v6_start_error, bool) result \<times> v6_server" where
  "v6_Start addrs duid mac_ok s =
     (if \<not> v6c_enabled (v6_conf s) then (Inr False, s)
      else case addrs of
        None \<Rightarrow> (Inl V6NoInterface, s)
      | Some [] \<Rightarrow> (Inr False, s)
      | Some as \<Rightarrow>
          let s1 = s\<lparr>v6_conf := (v6_conf s)\<lparr>v6c_dns := as\<rparr>\<rparr> in
          if v6c_slaac_only (v6_conf s1) then (Inr False, s1)
          else if \<not> mac_ok then (Inl V6BadInterface, s1)
          else (Inr True, s1\<lparr>v6_sid := Some duid\<rparr>))"

end
