(* ===== verification/DhcpServer.thy ===== *)
theory DhcpServer
  imports DhcpV6 AghAlg
begin

text \<open>
  The DHCP service of package \<^verbatim>\<open>internal/dhcpd\<close> over both families: the database of leases (\<^verbatim>\<open>db.go\<close>), the migration
  of the old one (\<^verbatim>\<open>migrate.go\<close>), the service (\<^verbatim>\<open>dhcpd.go\<close>) and the handlers of its HTTP interface
  (\<^verbatim>\<open>http_unix.go\<close>) on decoded requests.

  The servers of the two families report to the service by their lists of events.  Arguments of the model: the environment
  of the servers, the format of times, the parser of durations in options, whether the file can be written, and what
  starting and stopping the sockets returns.
\<close>

section \<open>The database\<close>

record stored_lease =
  stl_expiry :: string
  stl_ip :: addr
  stl_host :: string
  stl_mac :: string
  stl_static :: bool

datatype lease_file = LFMissing | LFUnreadable | LFGarbled | LFLeases "stored_lease list"

record ds_env =
  dse_dhcp :: dhcp_env
  dse_format :: "int \<Rightarrow> string"
  dse_parse :: "string \<Rightarrow> int option"
  dse_write :: bool
  dse_duration :: "string \<Rightarrow> int option"

definition fromLease :: "ds_env \<Rightarrow> lease \<Rightarrow> stored_lease" where
  "fromLease env l = \<lparr>stl_expiry = (if ls_static l then [] else dse_format env (ls_expiry l)), stl_ip = ls_ip l,
     stl_host = ls_hostname l, stl_mac = mac_string (ls_hwaddr l), stl_static = ls_static l\<rparr>"

definition toLease :: "ds_env \<Rightarrow> stored_lease \<Rightarrow> lease option" where
  "toLease env dl =
     Option.bind (parse_mac (stl_mac dl)) (\<lambda>m.
       map_option (\<lambda>expiry. \<lparr>ls_ip = stl_ip dl, ls_expiry = expiry, ls_hostname = stl_host dl, ls_hwaddr = m, ls_static = stl_static dl\<rparr>)
         (if stl_static dl then Some zero_time else dse_parse env (stl_expiry dl)))"

section \<open>The service\<close>

record dhcp_server =
  ds_v4 :: v4_server
  ds_v6 :: v6_server
  ds_enabled :: bool
  ds_iface :: string
  ds_domain :: string
  ds_conf4 :: v4_conf
  ds_conf6 :: v6_conf
  ds_file :: lease_file
  ds_changes :: "lease_change list"

datatype ds_error =
    DSReadDB
  | DSDecodeDB
  | DSWriteDB
  | DSBadV4 conf_error
  | DSBadV6 v6_error
  | DSNotConfigured
  | DSInvalidIP
  | DSBadMAC
  | DSLease4 v4_error
  | DSLease6 v6_error
  | DSStop
  | DSStart

definition v4_all :: "v4_server \<Rightarrow> lease list" where
  "v4_all s = map (lease_at s) (v4_leases s)"

definition writeDB :: "ds_env \<Rightarrow> stored_lease list \<Rightarrow> dhcp_server \<Rightarrow> ds_error option \<times> dhcp_server" where
  "writeDB env dls s =
     (if dse_write env then (None, s\<lparr>ds_file := LFLeases (sort_cmp (\<lambda>a b. cmp_ord (stl_host a) (stl_host b)) dls)\<rparr>)
      else (Some DSWriteDB, s))"

definition ds_dbStore :: "ds_env \<Rightarrow> dhcp_server \<Rightarrow> ds_error option \<times> dhcp_server" where
  "ds_dbStore env s = writeDB env (map (fromLease env) (v4_all (ds_v4 s) @ v6_leases (ds_v6 s))) s"

text \<open>Leases that cannot be converted are skipped.\<close>

definition ds_dbLoad :: "ds_env \<Rightarrow> dhcp_server \<Rightarrow> (ds_error option \<times> dhcp_server) option" where
  "ds_dbLoad env s =
     (case ds_file s of
        LFMissing \<Rightarrow> Some (None, s)
      | LFUnreadable \<Rightarrow> Some (Some DSReadDB, s)
      | LFGarbled \<Rightarrow> Some (Some DSDecodeDB, s)
      | LFLeases dls \<Rightarrow>
          (let ls = List.map_filter (toLease env) dls in
           Option.bind (ResetLeases (dse_dhcp env) (filter (\<lambda>l. is4 (ls_ip l)) ls) (ds_v4 s)) (\<lambda>v4.
           map_option (\<lambda>v6. (None, s\<lparr>ds_v4 := v4, ds_v6 := v6\<rparr>))
             (v6_ResetLeases (filter (\<lambda>l. \<not> is4 (ls_ip l)) ls) (ds_v6 s)))))"

text \<open>
  The callback of the servers: a store writes the leases as they are then, of the other family as well; any other event
  is passed on.
\<close>

definition onNotify4 :: "ds_env \<Rightarrow> lease_event \<Rightarrow> dhcp_server \<Rightarrow> dhcp_server" where
  "onNotify4 env ev s =
     (case ev of
        DBStored ls \<Rightarrow> snd (writeDB env (map (fromLease env) (ls @ v6_leases (ds_v6 s))) s)
      | LeaseChanged ch \<Rightarrow> s\<lparr>ds_changes := ds_changes s @ [ch]\<rparr>)"

definition onNotify6 :: "ds_env \<Rightarrow> lease_event \<Rightarrow> dhcp_server \<Rightarrow> dhcp_server" where
  "onNotify6 env ev s =
     (case ev of
        DBStored ls \<Rightarrow> snd (writeDB env (map (fromLease env) (v4_all (ds_v4 s) @ ls)) s)
      | LeaseChanged ch \<Rightarrow> s\<lparr>ds_changes := ds_changes s @ [ch]\<rparr>)"

definition ds_with4 :: "ds_env \<Rightarrow> v4_server \<Rightarrow> dhcp_server \<Rightarrow> dhcp_server" where
  "ds_with4 env v4 s = (fold (onNotify4 env) (v4_events v4) s)\<lparr>ds_v4 := v4\<lparr>v4_events := []\<rparr>\<rparr>"

definition ds_with6 :: "ds_env \<Rightarrow> v6_server \<Rightarrow> dhcp_server \<Rightarrow> dhcp_server" where
  "ds_with6 env v6 s = (fold (onNotify6 env) (v6_events v6) s)\<lparr>ds_v6 := v6\<lparr>v6_events := []\<rparr>\<rparr>"

definition ds_resetLeases :: "ds_env \<Rightarrow> dhcp_server \<Rightarrow> (ds_error option \<times> dhcp_server) option" where
  "ds_resetLeases env s =
     Option.bind (ResetLeases (dse_dhcp env) [] (ds_v4 s)) (\<lambda>v4.
     map_option (\<lambda>v6. ds_dbStore env (s\<lparr>ds_v4 := v4, ds_v6 := v6\<rparr>)) (v6_ResetLeases [] (ds_v6 s)))"

definition ds_Leases :: "int \<Rightarrow> dhcp_server \<Rightarrow> lease list" where
  "ds_Leases now s = GetLeases now True True (ds_v4 s) @ v6_GetLeases True True (ds_v6 s)"

definition ds_MACByIP :: "int \<Rightarrow> addr \<Rightarrow> dhcp_server \<Rightarrow> mac option" where
  "ds_MACByIP now ip s = (if is4 ip then FindMACbyIP now ip (ds_v4 s) else v6_FindMACbyIP now ip (ds_v6 s))"

definition ds_HostByIP :: "addr \<Rightarrow> dhcp_server \<Rightarrow> string" where
  "ds_HostByIP ip s = (if is4 ip then HostByIP ip (ds_v4 s) else [])"

definition ds_IPByHost :: "string \<Rightarrow> dhcp_server \<Rightarrow> addr" where
  "ds_IPByHost host s = IPByHost host (ds_v4 s)"

definition WriteDiskConfig4 :: "v4_server \<Rightarrow> v4_conf \<Rightarrow> v4_conf" where
  "WriteDiskConfig4 s c = (case v4_conf s of Some c' \<Rightarrow> c' | None \<Rightarrow> c)"

definition v4_is_enabled :: "v4_server \<Rightarrow> bool" where
  "v4_is_enabled s \<longleftrightarrow> (case v4_conf s of None \<Rightarrow> False | Some c \<Rightarrow> vc_enabled c)"

section \<open>Migration of the old database\<close>

record old_lease =
  ol_mac :: mac
  ol_ip :: "8 word list"
  ol_host :: string
  ol_exp :: int

definition leaseExpireStatic :: int where
  "leaseExpireStatic = 1"

text \<open>A slice of bytes as an address, if it has 4 or 16 of them, with the form of the fourth version where there is one.\<close>

definition normalizeIP :: "8 word list \<Rightarrow> addr" where
  "normalizeIP bs =
     (if length bs = 4 then Addr4 (word_of_int (be_num (map unat bs)))
      else if length bs = 16 then unmap (Addr6 (word_of_int (be_num (map unat bs))) [])
      else ZeroAddr)"

datatype old_db = OldMissing | OldUnreadable | OldGarbled | OldLeases "old_lease list"

definition migrate_lease :: "ds_env \<Rightarrow> old_lease \<Rightarrow> stored_lease option" where
  "migrate_lease env l =
     (if normalizeIP (ol_ip l) = ZeroAddr then None
      else Some \<lparr>stl_expiry = dse_format env (ol_exp l * second_dur), stl_ip = normalizeIP (ol_ip l), stl_host = ol_host l,
        stl_mac = mac_string (ol_mac l), stl_static = (ol_exp l = leaseExpireStatic)\<rparr>)"

definition migrateDB :: "ds_env \<Rightarrow> old_db \<Rightarrow> dhcp_server \<Rightarrow> (ds_error option \<times> old_db) \<times> dhcp_server" where
  "migrateDB env old s =
     (case old of
        OldMissing \<Rightarrow> ((None, old), s)
      | OldUnreadable \<Rightarrow> ((Some DSReadDB, old), s)
      | OldGarbled \<Rightarrow> ((Some DSDecodeDB, old), s)
      | OldLeases ls \<Rightarrow>
          (case writeDB env (List.map_filter (migrate_lease env) ls) s of
             (Some e, s1) \<Rightarrow> ((Some e, old), s1)
           | (None, s1) \<Rightarrow> ((None, OldMissing), s1)))"

section \<open>Creation\<close>

text \<open>The first result is the error that stops the creation; a DHCPv4 error does so only when that server is wanted.\<close>

definition setServers ::
  "ds_env \<Rightarrow> v4_conf \<Rightarrow> v6_conf \<Rightarrow> dhcp_server \<Rightarrow> ds_error option \<times> bool \<times> bool \<times> dhcp_server" where
  "setServers env conf4 conf6 s =
     (let c4 = conf4\<lparr>vc_enabled := ds_enabled s \<and> vc_range_start conf4 \<noteq> ZeroAddr\<rparr>;
          c6 = conf6\<lparr>v6c_iface := ds_iface s, v6c_enabled := ds_enabled s \<and> v6c_range_start conf6 \<noteq> ZeroAddr\<rparr>;
          (e4, v4) = v4Create (dse_duration env) c4; s1 = s\<lparr>ds_v4 := v4\<rparr>
      in case e4 of
           Some e \<Rightarrow>
             if vc_enabled c4 then (Some (DSBadV4 e), False, False, s1)
             else (case v6Create c6 of
                     (Some e, v6) \<Rightarrow> (Some (DSBadV6 e), vc_enabled c4, False, s1\<lparr>ds_v6 := v6\<rparr>)
                   | (None, v6) \<Rightarrow> (None, vc_enabled c4, v6c_enabled c6, s1\<lparr>ds_v6 := v6\<rparr>))
         | None \<Rightarrow>
             (case v6Create c6 of
                (Some e, v6) \<Rightarrow> (Some (DSBadV6 e), vc_enabled c4, False, s1\<lparr>ds_v6 := v6\<rparr>)
              | (None, v6) \<Rightarrow> (None, vc_enabled c4, v6c_enabled c6, s1\<lparr>ds_v6 := v6\<rparr>)))"

text \<open>\<open>s0\<close> has the settings of the service and the file; the old database is returned as it is left.\<close>

definition ds_Create ::
  "ds_env \<Rightarrow> v4_conf \<Rightarrow> v6_conf \<Rightarrow> old_db \<Rightarrow> dhcp_server \<Rightarrow> ((ds_error, dhcp_server) result \<times> old_db) option" where
  "ds_Create env conf4 conf6 old s0 =
     (case setServers env conf4 conf6 s0 of
        (Some e, _, _, s1) \<Rightarrow> Some (Inl e, old)
      | (None, on4, on6, s1) \<Rightarrow>
          if ds_enabled s1 \<and> \<not> on4 \<and> \<not> on6 then Some (Inl DSNotConfigured, old)
          else
            case migrateDB env old (s1\<lparr>ds_conf4 := conf4, ds_conf6 := conf6\<rparr>) of
              ((Some e, old'), s2) \<Rightarrow> Some (Inl e, old')
            | ((None, old'), s2) \<Rightarrow>
                map_option (\<lambda>(e, s3). (case e of Some e \<Rightarrow> Inl e | None \<Rightarrow> Inr s3, old')) (ds_dbLoad env s2))"

section \<open>The HTTP interface\<close>

text \<open>Leases in the form of the interface.\<close>

record static_json =
  sj_mac :: string
  sj_ip :: addr
  sj_host :: string

record dynamic_json =
  dj_mac :: string
  dj_ip :: addr
  dj_host :: string
  dj_expiry :: string

definition leasesToStatic :: "lease list \<Rightarrow> static_json list" where
  "leasesToStatic = map (\<lambda>l. \<lparr>sj_mac = mac_string (ls_hwaddr l), sj_ip = ls_ip l, sj_host = ls_hostname l\<rparr>)"

definition leasesToDynamic :: "ds_env \<Rightarrow> lease list \<Rightarrow> dynamic_json list" where
  "leasesToDynamic env = map (\<lambda>l. \<lparr>dj_mac = mac_string (ls_hwaddr l), dj_ip = ls_ip l, dj_host = ls_hostname l,
     dj_expiry = dse_format env (ls_expiry l)\<rparr>)"

definition static_toLease :: "static_json \<Rightarrow> lease option" where
  "static_toLease l =
     map_option (\<lambda>m. \<lparr>ls_ip = sj_ip l, ls_expiry = zero_time, ls_hostname = sj_host l, ls_hwaddr = m, ls_static = True\<rparr>)
       (parse_mac (sj_mac l))"

record dhcp_status =
  dst_enabled :: bool
  dst_iface :: string
  dst_conf4 :: v4_conf
  dst_conf6 :: v6_conf
  dst_leases :: "dynamic_json list"
  dst_static :: "static_json list"

definition compareStatic :: "lease \<Rightarrow> lease \<Rightarrow> int" where
  "compareStatic a b = (if ls_static a = ls_static b then 0 else if ls_static a then - 1 else 1)"

definition empty_conf4 :: v4_conf where
  "empty_conf4 = \<lparr>vc_enabled = False, vc_gateway = ZeroAddr, vc_mask = ZeroAddr, vc_broadcast = ZeroAddr, vc_range_start = ZeroAddr,
     vc_range_end = ZeroAddr, vc_lease_duration = 0, vc_icmp_timeout = 0, vc_options = [], vc_range = None, vc_lease_time = 0,
     vc_dns = [], vc_subnet = Prefix ZeroAddr 0\<rparr>"

definition empty_conf6 :: v6_conf where
  "empty_conf6 = \<lparr>v6c_enabled = False, v6c_iface = [], v6c_range_start = ZeroAddr, v6c_duration = 0, v6c_slaac_only = False,
     v6c_allow_slaac = False, v6c_ip_start = ZeroAddr, v6c_lease_time = 0, v6c_dns = []\<rparr>"

definition handleDHCPStatus :: "ds_env \<Rightarrow> dhcp_server \<Rightarrow> dhcp_status" where
  "handleDHCPStatus env s =
     (let ls = sort_cmp compareStatic (ds_Leases (de_now (dse_dhcp env)) s);
          i = length (takeWhile ls_static ls)
      in \<lparr>dst_enabled = ds_enabled s, dst_iface = ds_iface s, dst_conf4 = WriteDiskConfig4 (ds_v4 s) empty_conf4,
          dst_conf6 = WriteDiskConfig6 (ds_v6 s), dst_leases = leasesToDynamic env (drop i ls), dst_static = leasesToStatic (take i ls)\<rparr>)"

text \<open>The lease of a request, and whether it is for the DHCPv4 server.\<close>

definition parseLease :: "static_json \<Rightarrow> (ds_error, bool \<times> lease) result" where
  "parseLease j =
     (if sj_ip j = ZeroAddr then Inl DSInvalidIP
      else case static_toLease (j\<lparr>sj_ip := unmap (sj_ip j)\<rparr>) of
        None \<Rightarrow> Inl DSBadMAC
      | Some l \<Rightarrow> Inr (is4 (ls_ip l), l))"

definition ds_finish4 :: "ds_env \<Rightarrow> dhcp_server \<Rightarrow> v4_error option \<times> v4_server \<Rightarrow> ds_error option \<times> dhcp_server" where
  "ds_finish4 env s r = (map_option DSLease4 (fst r), ds_with4 env (snd r) s)"

definition ds_finish6 :: "ds_env \<Rightarrow> dhcp_server \<Rightarrow> v6_error option \<times> v6_server \<Rightarrow> ds_error option \<times> dhcp_server" where
  "ds_finish6 env s r = (map_option DSLease6 (fst r), ds_with6 env (snd r) s)"

definition handleDHCPAddStaticLease :: "ds_env \<Rightarrow> static_json \<Rightarrow> dhcp_server \<Rightarrow> (ds_error option \<times> dhcp_server) option" where
  "handleDHCPAddStaticLease env j s =
     (case parseLease j of
        Inl e \<Rightarrow> Some (Some e, s)
      | Inr (True, l) \<Rightarrow> map_option (ds_finish4 env s) (AddStaticLease (dse_dhcp env) l (ds_v4 s))
      | Inr (False, l) \<Rightarrow> Some (ds_finish6 env s (v6_AddStaticLease (dse_dhcp env) l (ds_v6 s))))"

definition handleDHCPRemoveStaticLease :: "ds_env \<Rightarrow> static_json \<Rightarrow> dhcp_server \<Rightarrow> ds_error option \<times> dhcp_server" where
  "handleDHCPRemoveStaticLease env j s =
     (case parseLease j of
        Inl e \<Rightarrow> (Some e, s)
      | Inr (True, l) \<Rightarrow> ds_finish4 env s (RemoveStaticLease (dse_dhcp env) l (ds_v4 s))
      | Inr (False, l) \<Rightarrow> ds_finish6 env s (v6_RemoveStaticLease (dse_dhcp env) l (ds_v6 s)))"

definition handleDHCPUpdateStaticLease :: "ds_env \<Rightarrow> static_json \<Rightarrow> dhcp_server \<Rightarrow> ds_error option \<times> dhcp_server" where
  "handleDHCPUpdateStaticLease env j s =
     (case parseLease j of
        Inl e \<Rightarrow> (Some e, s)
      | Inr (True, l) \<Rightarrow> ds_finish4 env s (UpdateStaticLease (dse_dhcp env) l (ds_v4 s))
      | Inr (False, l) \<Rightarrow> ds_finish6 env s (v6_UpdateStaticLease l (ds_v6 s)))"

section \<open>Changing the configuration\<close>

record v4_conf_json =
  cj4_gateway :: addr
  cj4_mask :: addr
  cj4_start :: addr
  cj4_end :: addr
  cj4_duration :: "32 word"

record v6_conf_json =
  cj6_start :: addr
  cj6_duration :: "32 word"

record dhcp_conf_json =
  cj_v4 :: "v4_conf_json option"
  cj_v6 :: "v6_conf_json option"
  cj_iface :: string
  cj_enabled :: null_bool

definition toServerConf :: "v4_conf_json option \<Rightarrow> v4_conf" where
  "toServerConf j =
     (case j of
        None \<Rightarrow> empty_conf4
      | Some j \<Rightarrow> empty_conf4\<lparr>vc_gateway := cj4_gateway j, vc_mask := cj4_mask j, vc_range_start := cj4_start j,
          vc_range_end := cj4_end j, vc_lease_duration := cj4_duration j\<rparr>)"

definition v6JSONToServerConf :: "v6_conf_json option \<Rightarrow> v6_conf" where
  "v6JSONToServerConf j =
     (case j of
        None \<Rightarrow> empty_conf6
      | Some j \<Rightarrow> empty_conf6\<lparr>v6c_range_start := with_zone [] (cj6_start j), v6c_duration := cj6_duration j\<rparr>)"

text \<open>The new server, if there is a configuration, whether it is enabled, and an error.\<close>

definition handleDHCPSetConfigV4 ::
  "ds_env \<Rightarrow> dhcp_conf_json \<Rightarrow> dhcp_server \<Rightarrow> v4_server option \<times> bool \<times> conf_error option" where
  "handleDHCPSetConfigV4 env conf s =
     (if cj_v4 conf = None then (None, False, None)
      else
        let c0 = toServerConf (cj_v4 conf);
            c4 = WriteDiskConfig4 (ds_v4 s)
                   (empty_conf4\<lparr>vc_icmp_timeout := vc_icmp_timeout (ds_conf4 s), vc_options := vc_options (ds_conf4 s)\<rparr>);
            c = c0\<lparr>vc_enabled := cj_enabled conf = NBTrue \<and> vc_range_start c0 \<noteq> ZeroAddr,
                   vc_icmp_timeout := vc_icmp_timeout c4, vc_options := vc_options c4\<rparr>;
            (e, v4) = v4Create (dse_duration env) c
        in (Some v4, v4_is_enabled v4, e))"

definition handleDHCPSetConfigV6 ::
  "dhcp_conf_json \<Rightarrow> dhcp_server \<Rightarrow> v6_server option \<times> bool \<times> v6_error option" where
  "handleDHCPSetConfigV6 conf s =
     (if cj_v6 conf = None then (None, False, None)
      else
        let c0 = v6JSONToServerConf (cj_v6 conf);
            c = c0\<lparr>v6c_enabled := cj_enabled conf = NBTrue \<and> v6c_range_start c0 \<noteq> ZeroAddr,
                   v6c_slaac_only := v6c_slaac_only (ds_conf6 s), v6c_allow_slaac := v6c_allow_slaac (ds_conf6 s),
                   v6c_iface := cj_iface conf\<rparr>;
            (e, v6) = v6Create c
        in (Some v6, v6c_enabled c, e))"

definition createServers ::
  "ds_env \<Rightarrow> dhcp_conf_json \<Rightarrow> dhcp_server \<Rightarrow> (ds_error, v4_server option \<times> v6_server option) result" where
  "createServers env conf s =
     (case handleDHCPSetConfigV4 env conf s of
        (_, _, Some e) \<Rightarrow> Inl (DSBadV4 e)
      | (v4, on4, None) \<Rightarrow>
          (case handleDHCPSetConfigV6 conf s of
             (_, _, Some e) \<Rightarrow> Inl (DSBadV6 e)
           | (v6, on6, None) \<Rightarrow>
               if cj_enabled conf = NBTrue \<and> \<not> on4 \<and> \<not> on6 then Inl DSNotConfigured else Inr (v4, v6)))"

definition setConfFromJSON :: "dhcp_conf_json \<Rightarrow> v4_server option \<Rightarrow> v6_server option \<Rightarrow> dhcp_server \<Rightarrow> dhcp_server" where
  "setConfFromJSON conf v4 v6 s =
     s\<lparr>ds_enabled := (if cj_enabled conf = NBNull then ds_enabled s else cj_enabled conf = NBTrue),
       ds_iface := (if cj_iface conf = [] then ds_iface s else cj_iface conf),
       ds_v4 := (case v4 of None \<Rightarrow> ds_v4 s | Some v \<Rightarrow> v),
       ds_v6 := (case v6 of None \<Rightarrow> ds_v6 s | Some v \<Rightarrow> v)\<rparr>"

text \<open>
  \<open>stop_ok\<close> says whether the sockets can be closed; \<open>start\<close> is the start of the servers with the check for a static address,
  the last step.
\<close>

definition handleDHCPSetConfig ::
  "ds_env \<Rightarrow> bool \<Rightarrow> (dhcp_server \<Rightarrow> ds_error option \<times> dhcp_server) \<Rightarrow> dhcp_conf_json \<Rightarrow> dhcp_server \<Rightarrow>
   (ds_error option \<times> dhcp_server) option" where
  "handleDHCPSetConfig env stop_ok start conf s =
     (case createServers env conf s of
        Inl e \<Rightarrow> Some (Some e, s)
      | Inr (v4, v6) \<Rightarrow>
          if \<not> stop_ok then Some (Some DSStop, s)
          else map_option (\<lambda>(e, s1). case e of Some e \<Rightarrow> (Some e, s1) | None \<Rightarrow> if ds_enabled s1 then start s1 else (None, s1))
                 (ds_dbLoad env (setConfFromJSON conf v4 v6 s)))"

definition DefaultDHCPLeaseTTL :: "32 word" where
  "DefaultDHCPLeaseTTL = 86400"

definition DefaultDHCPTimeoutICMP :: "32 word" where
  "DefaultDHCPTimeoutICMP = 1000"

text \<open>\<open>remove_ok\<close> says whether the file can be removed.\<close>

definition ds_handleReset :: "ds_env \<Rightarrow> bool \<Rightarrow> bool \<Rightarrow> dhcp_server \<Rightarrow> ds_error option \<times> dhcp_server" where
  "ds_handleReset env stop_ok remove_ok s =
     (if \<not> stop_ok then (Some DSStop, s)
      else (None, s\<lparr>ds_file := (if remove_ok then LFMissing else ds_file s), ds_enabled := False, ds_iface := [], ds_conf4 := empty_conf4, ds_conf6 := empty_conf6,
        ds_v4 := snd (v4Create (dse_duration env)
          (empty_conf4\<lparr>vc_lease_duration := DefaultDHCPLeaseTTL, vc_icmp_timeout := DefaultDHCPTimeoutICMP\<rparr>)),
        ds_v6 := snd (v6Create (empty_conf6\<lparr>v6c_duration := DefaultDHCPLeaseTTL\<rparr>))\<rparr>))"

end
