(* ===== verification/DhcpV6Props.thy ===== *)
theory DhcpV6Props
  imports Sorting DhcpServer
begin

text \<open>
  The DHCPv6 server never has two leases with one address as long as static leases are within its network and an update
  does not take an address that is leased; a reset leaves the addresses taken; a static lease can be hidden by a dynamic
  one; and the handlers of static leases write what is in memory.
\<close>

section \<open>Removal by swapping\<close>

lemma remove_leases:
  assumes "i < length (v6_leases s)"
  shows "mset (v6_leases (leaseRemoveSwapByIndex i s)) = mset (v6_leases s) - {#v6_leases s ! i#}"
  using mset_swap_remove [OF assms] by (simp add: leaseRemoveSwapByIndex_def)

lemma remove_simps [simp]:
  "length (v6_leases (leaseRemoveSwapByIndex i s)) = length (v6_leases s) - 1" "v6_conf (leaseRemoveSwapByIndex i s) = v6_conf s"
  "v6_events (leaseRemoveSwapByIndex i s) = v6_events s" "v6_sid (leaseRemoveSwapByIndex i s) = v6_sid s"
  by (simp_all add: leaseRemoveSwapByIndex_def)

lemma add_simps [simp]:
  "v6_leases (v6_addLease l s) = v6_leases s @ [l]" "v6_conf (v6_addLease l s) = v6_conf s" "v6_events (v6_addLease l s) = v6_events s"
  "v6_leases (v6_store s) = v6_leases s" "v6_conf (v6_store s) = v6_conf s" "v6_used (v6_store s) = v6_used s"
  "v6_leases (v6_notify ch s) = v6_leases s" "v6_conf (v6_notify ch s) = v6_conf s" "v6_used (v6_notify ch s) = v6_used s"
  by (simp_all add: v6_addLease_def v6_store_def v6_notify_def)

section \<open>The network of the server\<close>

definition in_net :: "128 word \<Rightarrow> addr \<Rightarrow> bool" where
  "in_net w a \<longleftrightarrow> (\<exists>v. a = Addr6 v [] \<and> drop_bit 8 v = drop_bit 8 w)"

lemma word_split_8:
  fixes v u :: "128 word"
  assumes "drop_bit 8 v = drop_bit 8 u" "(ucast v :: 8 word) = ucast u"
  shows "v = u"
proof (rule bit_word_eqI)
  fix n assume n: "n < LENGTH(128)"
  show "bit v n \<longleftrightarrow> bit u n"
  proof (cases "n < 8")
    case True
    have "bit (ucast v :: 8 word) n \<longleftrightarrow> bit (ucast u :: 8 word) n" using assms(2) by simp
    then show ?thesis using True by (simp add: bit_ucast_iff)
  next
    case False
    have "bit (drop_bit 8 v) (n - 8) \<longleftrightarrow> bit (drop_bit 8 u) (n - 8)" using assms(1) by simp
    then show ?thesis using False by (simp add: bit_drop_bit_eq)
  qed
qed

lemma in_net_last_byte: "in_net w a \<Longrightarrow> in_net w b \<Longrightarrow> last_byte a = last_byte b \<Longrightarrow> a = b"
  using word_split_8 by (auto simp: in_net_def last_byte_def)

lemma with_last_byte_mask: "with_last_byte w b = Addr6 (or (and w (not (mask 8))) (ucast b)) []"
  by (simp add: with_last_byte_def mask_eq_exp_minus_1)

lemma with_last_byte_spec: "in_net w (with_last_byte w b)" "last_byte (with_last_byte w b) = b"
proof -
  have "drop_bit 8 (or (and w (not (mask 8))) (ucast b)) = drop_bit 8 w"
    by (rule bit_word_eqI) (auto simp: bit_simps simp del: drop_bit_or drop_bit_and dest: bit_imp_le_length)
  then show "in_net w (with_last_byte w b)" by (simp add: in_net_def with_last_byte_mask)
  show "last_byte (with_last_byte w b) = b"
    by (rule bit_word_eqI) (auto simp: last_byte_def with_last_byte_mask bit_simps)
qed

section \<open>The invariant\<close>

definition v6_ok :: "128 word \<Rightarrow> v6_server \<Rightarrow> bool" where
  "v6_ok w s \<longleftrightarrow> (\<exists>z. v6c_ip_start (v6_conf s) = Addr6 w z) \<and> distinct (map ls_ip (v6_leases s)) \<and>
     (\<forall>l \<in> set (v6_leases s). in_net w (ls_ip l) \<and> v6_used s (last_byte (ls_ip l)))"

lemma distinct_mset: "mset (map f xs) = mset (map f ys) \<Longrightarrow> distinct (map f xs) \<longleftrightarrow> distinct (map f ys)"
  by (rule mset_eq_imp_distinct_iff)

lemma remove_set:
  assumes "i < length (v6_leases s)" "distinct (map ls_ip (v6_leases s))"
  shows "set (v6_leases (leaseRemoveSwapByIndex i s)) = set (v6_leases s) - {v6_leases s ! i}"
    "distinct (map ls_ip (v6_leases (leaseRemoveSwapByIndex i s)))"
proof -
  let ?ls = "v6_leases s"
  have perm: "mset ?ls = mset (?ls ! i # v6_leases (leaseRemoveSwapByIndex i s))"
    using remove_leases [OF assms(1)] assms(1) by (simp add: nth_mem_mset)
  then have "mset (map ls_ip ?ls) = mset (map ls_ip (?ls ! i # v6_leases (leaseRemoveSwapByIndex i s)))"
    by (metis mset_map)
  then have distinct: "distinct (map ls_ip (?ls ! i # v6_leases (leaseRemoveSwapByIndex i s)))"
    using assms(2) mset_eq_imp_distinct_iff by blast
  then show "distinct (map ls_ip (v6_leases (leaseRemoveSwapByIndex i s)))" by simp
  have "set ?ls = insert (?ls ! i) (set (v6_leases (leaseRemoveSwapByIndex i s)))"
    using mset_eq_setD [OF perm] by simp
  then show "set (v6_leases (leaseRemoveSwapByIndex i s)) = set ?ls - {?ls ! i}" using distinct by auto
qed

lemma remove_ok:
  assumes "v6_ok w s" "i < length (v6_leases s)"
  shows "v6_ok w (leaseRemoveSwapByIndex i s)"
proof -
  let ?x = "v6_leases s ! i"
  note set = remove_set [OF assms(2)]
  have distinct: "distinct (map ls_ip (v6_leases s))" using assms(1) by (simp add: v6_ok_def)
  have "last_byte (ls_ip l) \<noteq> last_byte (ls_ip ?x)" if "l \<in> set (v6_leases s) - {?x}" for l
  proof
    assume "last_byte (ls_ip l) = last_byte (ls_ip ?x)"
    then have "ls_ip l = ls_ip ?x"
      using in_net_last_byte [of w "ls_ip l" "ls_ip ?x"] assms that by (auto simp: v6_ok_def)
    then show False
      using that distinct assms(2) by (metis Diff_iff distinct_map inj_onD insertI1 nth_mem)
  qed
  then show ?thesis
    using assms(1) set(2) [OF distinct] unfolding v6_ok_def set(1) [OF distinct] by (auto simp: leaseRemoveSwapByIndex_def)
qed

lemma add_ok:
  assumes "v6_ok w s" "in_net w (ls_ip l)" "ls_ip l \<notin> ls_ip ` set (v6_leases s)"
  shows "v6_ok w (v6_addLease l s)"
  using assms by (auto simp: v6_ok_def v6_addLease_def)

lemma v6_ok_cong:
  "v6_ok w s \<Longrightarrow> v6c_ip_start (v6_conf s') = v6c_ip_start (v6_conf s) \<Longrightarrow> v6_used s' = v6_used s \<Longrightarrow> map ls_ip (v6_leases s') = map ls_ip (v6_leases s) \<Longrightarrow> v6_ok w s'"
  unfolding v6_ok_def by (metis (no_types, lifting) image_iff list.set_map)

text \<open>After the removal for a new lease no lease before the place of the loop has its address.\<close>

lemma rm_loop_ok:
  "v6_rm_dynamic_loop x i s = (e, s') \<Longrightarrow> v6_ok w s \<Longrightarrow> \<forall>j < i. j < length (v6_leases s) \<longrightarrow> ls_ip (v6_leases s ! j) \<noteq> ls_ip x \<Longrightarrow>
   v6_ok w s' \<and> v6_conf s' = v6_conf s \<and> v6_events s' = v6_events s \<and> set (v6_leases s') \<subseteq> set (v6_leases s) \<and>
   (e = None \<longrightarrow> ls_ip x \<notin> ls_ip ` set (v6_leases s'))"
proof (induction x i s rule: v6_rm_dynamic_loop.induct)
  case (1 x i s)
  show ?case
  proof (cases "length (v6_leases s) \<le> i")
    case True
    then have "\<forall>j < length (v6_leases s). ls_ip (v6_leases s ! j) \<noteq> ls_ip x" using "1.prems"(3) by simp
    then have "ls_ip x \<notin> ls_ip ` set (v6_leases s)" by (force simp: in_set_conv_nth)
    then show ?thesis using True "1.prems" by (auto simp: v6_rm_dynamic_loop.simps)
  next
    case False
    then have i: "i < length (v6_leases s)" by simp
    have sub: "set (v6_leases (leaseRemoveSwapByIndex i s)) \<subseteq> set (v6_leases s)" if "v6_ok w s" "i < length (v6_leases s)" for s
      using remove_set(1) [OF that(2)] that(1) by (auto simp: v6_ok_def)
    have before: "v6_leases (leaseRemoveSwapByIndex i s) ! j = v6_leases s ! j" if "j < i" "i < length (v6_leases s)" for j s
      using that by (simp add: leaseRemoveSwapByIndex_def nth_butlast)
    define hit where "hit = (ls_hwaddr (v6_leases s ! i) = ls_hwaddr x)"
    define s1 where "s1 = (if hit then leaseRemoveSwapByIndex i s else s)"
    have s1: "v6_ok w s1" "v6_conf s1 = v6_conf s" "v6_events s1 = v6_events s" "set (v6_leases s1) \<subseteq> set (v6_leases s)"
      "\<forall>j < i. ls_ip (v6_leases s1 ! j) \<noteq> ls_ip x"
      using "1.prems"(2,3) i remove_ok [OF "1.prems"(2) i] sub [OF "1.prems"(2) i] before [OF _ i] by (auto simp: s1_def)
    have len: "i \<le> length (v6_leases s1)" using i by (auto simp: s1_def)
    have step: "v6_rm_dynamic_loop x i s =
      (if hit \<and> ls_static (v6_leases s ! i) then (Some V6StaticExists, s)
       else if hit \<and> length (v6_leases s1) = i then (None, s1)
       else if ls_ip (v6_leases s1 ! i) \<noteq> ls_ip x then v6_rm_dynamic_loop x (i + 1) s1
       else if ls_static (v6_leases s1 ! i) then (Some V6StaticExists, s1)
       else v6_rm_dynamic_loop x (i + 1) (leaseRemoveSwapByIndex i s1))"
      using False by (subst v6_rm_dynamic_loop.simps) (simp add: hit_def s1_def Let_def)
    note IH = "1.IH" [OF False hit_def s1_def]
    consider (static) "hit \<and> ls_static (v6_leases s ! i)" | (final) "\<not> (hit \<and> ls_static (v6_leases s ! i))" "hit \<and> length (v6_leases s1) = i"
      | (more) "\<not> (hit \<and> ls_static (v6_leases s ! i))" "\<not> (hit \<and> length (v6_leases s1) = i)"
      by blast
    then show ?thesis
    proof cases
      case static
      then show ?thesis using step "1.prems" by auto
    next
      case final
      then have "ls_ip x \<notin> ls_ip ` set (v6_leases s1)" using s1(5) by (auto simp: in_set_conv_nth)
      then show ?thesis using final step "1.prems" s1 by auto
    next
      case more
      then have i1: "i < length (v6_leases s1)" using i len by (auto simp: s1_def)
      show ?thesis
      proof (cases "ls_ip (v6_leases s1 ! i) = ls_ip x")
        case False
        have "\<forall>j < i + 1. j < length (v6_leases s1) \<longrightarrow> ls_ip (v6_leases s1 ! j) \<noteq> ls_ip x" using s1(5) False by (auto simp: less_Suc_eq)
        then show ?thesis
          using IH(1) [OF more(1,2) False] "1.prems"(1) s1 False more unfolding step by auto
      next
        case ip: True
        show ?thesis
        proof (cases "ls_static (v6_leases s1 ! i)")
          case True
          then show ?thesis using step ip more "1.prems"(1) s1 by auto
        next
          case nonstatic: False
          let ?s2 = "leaseRemoveSwapByIndex i s1"
          have distinct: "distinct (map ls_ip (v6_leases s1))" using s1(1) by (simp add: v6_ok_def)
          have "l \<in> set (v6_leases ?s2) \<Longrightarrow> ls_ip l \<noteq> ls_ip x" for l
            using distinct ip i1 unfolding remove_set(1) [OF i1 distinct] by (metis Diff_iff distinct_map inj_onD insertI1 nth_mem)
          then have "\<forall>j < i + 1. j < length (v6_leases ?s2) \<longrightarrow> ls_ip (v6_leases ?s2 ! j) \<noteq> ls_ip x" by simp
          then show ?thesis
            using IH(2) [OF more(1,2)] ip nonstatic "1.prems"(1) s1 more remove_ok [OF s1(1) i1] sub [OF s1(1) i1]
            unfolding step by auto
        qed
      qed
    qed
  qed
qed

section \<open>Operations\<close>

lemma AddStatic_ok:
  assumes "v6_AddStaticLease env l s = (e, s')" "v6_ok w s" "in_net w (ls_ip l)"
  shows "v6_ok w s'"
proof (cases "is6 (ls_ip l) \<and> de_valid_mac env (ls_hwaddr l)")
  case True
  let ?l = "l\<lparr>ls_static := True\<rparr>"
  obtain e1 s1 where s1: "v6_rmDynamicLease ?l s = (e1, s1)" by fastforce
  note rm = rm_loop_ok [OF s1 [unfolded v6_rmDynamicLease_def] assms(2)]
  show ?thesis
  proof (cases e1)
    case None
    then have "v6_ok w (v6_addLease ?l s1)" using rm assms(3) by (intro add_ok) auto
    then have "v6_ok w (v6_notify LeaseAddedStatic (v6_store (v6_addLease ?l s1)))" by (rule v6_ok_cong) simp_all
    then show ?thesis using assms(1) True s1 None by (simp add: v6_AddStaticLease_def)
  qed (use assms(1) True s1 rm in \<open>auto simp: v6_AddStaticLease_def\<close>)
qed (use assms in \<open>auto simp: v6_AddStaticLease_def split: if_splits\<close>)

lemma rmLease_cases:
  assumes "v6_rmLease x s = (e, s')"
  obtains "s' = s" "e \<noteq> None" | i where "i < length (v6_leases s)" "ls_ip (v6_leases s ! i) = ls_ip x" "s' = leaseRemoveSwapByIndex i s" "e = None"
proof (cases "find (\<lambda>i. ls_ip (v6_leases s ! i) = ls_ip x) [0..<length (v6_leases s)]")
  case None
  then have "s' = s" "e = Some V6NotFound" using assms by (simp_all add: v6_rmLease_def)
  then show ?thesis using that(1) by simp
next
  case (Some i)
  then have "i < length (v6_leases s)" "ls_ip (v6_leases s ! i) = ls_ip x" by (auto simp: find_Some_iff)
  moreover have "(e = Some V6NotFound \<and> s' = s) \<or> (e = None \<and> s' = leaseRemoveSwapByIndex i s)"
    using Some assms by (simp add: v6_rmLease_def split: if_split_asm)
  ultimately show ?thesis using that by blast
qed

lemma notify_ok: "v6_ok w s \<Longrightarrow> v6_ok w (v6_notify ch (v6_store s))"
  by (rule v6_ok_cong) simp_all

lemma RemoveStatic_ok:
  assumes "v6_RemoveStaticLease env l s = (e, s')" "v6_ok w s"
  shows "v6_ok w s'"
proof -
  obtain e1 s1 where s1: "v6_rmLease l s = (e1, s1)" by fastforce
  have "v6_ok w s1" using s1 by (rule rmLease_cases) (use assms(2) remove_ok in auto)
  then show ?thesis
    using assms s1 notify_ok by (auto simp: v6_RemoveStaticLease_def split: if_splits option.splits)
qed

text \<open>An update must not take the address of another lease.\<close>

lemma UpdateStatic_ok:
  assumes "v6_UpdateStaticLease l s = (e, s')" "v6_ok w s" "in_net w (ls_ip l)"
    "\<And>x. x \<in> set (v6_leases s) \<Longrightarrow> ls_ip x = ls_ip l \<Longrightarrow> map_option ((!) (v6_leases s)) (v6_findLease (ls_hwaddr l) s) = Some x"
  shows "v6_ok w s'"
proof (cases "v6_findLease (ls_hwaddr l) s")
  case (Some i)
  obtain e1 s1 where s1: "v6_rmLease (v6_leases s ! i) s = (e1, s1)" by fastforce
  have i: "i < length (v6_leases s)" using Some by (auto simp: v6_findLease_def find_Some_iff)
  show ?thesis
    using s1
  proof (rule rmLease_cases)
    assume "s1 = s" "e1 \<noteq> None"
    then show ?thesis using assms(1,2) Some s1 by (auto simp: v6_UpdateStaticLease_def)
  next
    fix j
    assume j: "j < length (v6_leases s)" "ls_ip (v6_leases s ! j) = ls_ip (v6_leases s ! i)" "s1 = leaseRemoveSwapByIndex j s" "e1 = None"
    have distinct: "distinct (map ls_ip (v6_leases s))" using assms(2) by (simp add: v6_ok_def)
    then have "j = i" using j(1,2) i by (metis length_map nth_eq_iff_index_eq nth_map)
    then have set: "set (v6_leases s1) = set (v6_leases s) - {v6_leases s ! i}" using remove_set(1) [OF i distinct] j(3) by simp
    have "ls_ip l \<notin> ls_ip ` set (v6_leases s1)"
    proof
      assume "ls_ip l \<in> ls_ip ` set (v6_leases s1)"
      then obtain x where "ls_ip l = ls_ip x" "x \<in> set (v6_leases s) - {v6_leases s ! i}" unfolding set by (rule imageE)
      then show False using assms(4) [of x] Some by simp
    qed
    then have "v6_ok w (v6_addLease l s1)" using add_ok [of w s1 l] remove_ok [OF assms(2) j(1)] j(3) assms(3) by simp
    then show ?thesis using assms(1) Some s1 j(4) notify_ok by (auto simp: v6_UpdateStaticLease_def)
  qed
qed (use assms in \<open>auto simp: v6_UpdateStaticLease_def\<close>)

lemma reset_loop_ok:
  "v6_reset_loop ls s = Some s' \<Longrightarrow> v6_ok w s \<Longrightarrow> distinct (map ls_ip ls) \<Longrightarrow> ls_ip ` set ls \<inter> ls_ip ` set (v6_leases s) = {} \<Longrightarrow>
   \<forall>l \<in> set ls. (ls_static l \<longrightarrow> in_net w (ls_ip l)) \<and> addr_zone (ls_ip l) = [] \<Longrightarrow> v6_ok w s'"
proof (induction ls s rule: v6_reset_loop.induct)
  case (2 l ls s)
  show ?case
  proof (cases "ls_static l \<or> ip6InRange (v6c_ip_start (v6_conf s)) (with_zone [] (ls_ip l)) = Some True")
    case True
    then have "in_net w (ls_ip l)"
      using "2.prems"(2,5) by (cases "ls_ip l") (auto simp: v6_ok_def ip6InRange_def in_net_def)
    then have "v6_ok w (v6_addLease l s)" using "2.prems" by (intro add_ok) auto
    moreover have "v6_reset_loop ls (v6_addLease l s) = Some s'" using True "2.prems"(1) by (cases "ls_static l") simp_all
    moreover have "ls_ip ` set ls \<inter> ls_ip ` set (v6_leases (v6_addLease l s)) = {}" "distinct (map ls_ip ls)"
      "\<forall>l \<in> set ls. (ls_static l \<longrightarrow> in_net w (ls_ip l)) \<and> addr_zone (ls_ip l) = []"
      using "2.prems"(3-5) by auto
    ultimately show ?thesis
      using "2.IH"(1) "2.IH"(2) [of True] True by (cases "ls_static l") (simp_all only: if_True simp_thms)
  next
    case False
    then show ?thesis using "2.IH"(2) "2.prems" by (auto simp: bind_eq_Some_conv split: if_splits)
  qed
qed simp

lemma ResetLeases_ok:
  assumes "v6_ResetLeases ls s = Some s'" "v6_ok w s" "distinct (map ls_ip ls)"
    "\<forall>l \<in> set ls. (ls_static l \<longrightarrow> in_net w (ls_ip l)) \<and> addr_zone (ls_ip l) = []"
  shows "v6_ok w s'"
proof -
  have "v6_ok w (s\<lparr>v6_leases := []\<rparr>)" using assms(2) by (simp add: v6_ok_def)
  then show ?thesis using reset_loop_ok [OF assms(1) [unfolded v6_ResetLeases_def]] assms(3,4) by simp
qed

lemma findFreeIP_new:
  assumes "v6_ok w s" "findFreeIP s = Some (Some ip)"
  shows "in_net w ip" "ls_ip l \<noteq> ip \<or> l \<notin> set (v6_leases s)" "addr_zone ip = []"
proof -
  from assms obtain b where n: "ip = with_last_byte w b" "\<not> v6_used s b"
    by (auto simp: findFreeIP_def v6_ok_def find_Some_iff)
  then show "in_net w ip" by (simp add: with_last_byte_spec)
  show "ls_ip l \<noteq> ip \<or> l \<notin> set (v6_leases s)"
    using n assms(1) with_last_byte_spec(2) [of w b] by (auto simp: v6_ok_def)
  show "addr_zone ip = []" by (simp add: n(1) with_last_byte_def)
qed

lemma v6_findLease_Some: "v6_findLease m s = Some i \<Longrightarrow> i < length (v6_leases s) \<and> ls_hwaddr (v6_leases s ! i) = m"
  by (auto simp: v6_findLease_def find_Some_iff)

lemma copy_mac_same [simp]: "length a = length m \<Longrightarrow> copy_mac a m = m"
  by (simp add: copy_mac_def)

lemma reserve_ok:
  assumes "v6_reserveLease now m s = Some (r, s')" "v6_ok w s"
  shows "v6_ok w s'" "r = Some i \<Longrightarrow> i < length (v6_leases s')"
    and "r = Some i \<Longrightarrow> \<forall>x \<in> set (v6_leases s). length (ls_hwaddr x) = length m \<Longrightarrow> ls_hwaddr (v6_leases s' ! i) = m"
proof -
  obtain free where free: "findFreeIP s = Some free" using assms(1) by (auto simp: v6_reserveLease_def)
  have "v6_ok w s' \<and> (\<forall>i. r = Some i \<longrightarrow> i < length (v6_leases s') \<and>
      ((\<forall>x \<in> set (v6_leases s). length (ls_hwaddr x) = length m) \<longrightarrow> ls_hwaddr (v6_leases s' ! i) = m))"
  proof (cases free)
    case (Some ip)
    let ?l = "\<lparr>ls_ip = ip, ls_expiry = zero_time, ls_hostname = [], ls_hwaddr = m, ls_static = False\<rparr>"
    have "v6_ok w (v6_addLease ?l s)"
      using findFreeIP_new [OF assms(2), of ip] free Some by (intro add_ok [OF assms(2)]) auto
    then show ?thesis using assms(1) free Some by (auto simp: v6_reserveLease_def)
  next
    case None
    show ?thesis
    proof (cases "v6_findExpiredLease now s")
      case (Some i)
      then have i: "i < length (v6_leases s)" by (auto simp: v6_findExpiredLease_def find_Some_iff)
      let ?s = "s\<lparr>v6_leases := (v6_leases s)[i := (v6_leases s ! i)\<lparr>ls_hwaddr := copy_mac (ls_hwaddr (v6_leases s ! i)) m\<rparr>]\<rparr>"
      have "v6_ok w ?s" using assms(2) by (rule v6_ok_cong) (simp_all add: map_update list_update_same_conv i)
      then show ?thesis using assms(1) free None Some i by (auto simp: v6_reserveLease_def Let_def)
    next
      case none: None
      then show ?thesis using assms free None by (auto simp: v6_reserveLease_def)
    qed
  qed
  then show "v6_ok w s'" "r = Some i \<Longrightarrow> i < length (v6_leases s')"
    "r = Some i \<Longrightarrow> \<forall>x \<in> set (v6_leases s). length (ls_hwaddr x) = length m \<Longrightarrow> ls_hwaddr (v6_leases s' ! i) = m"
    by auto
qed

lemma commit_ok:
  assumes "v6_commitLease now msg i s = (t, s')" "v6_ok w s" "i < length (v6_leases s)"
  shows "v6_ok w s'" "length (v6_leases s') = length (v6_leases s)" "map ls_ip (v6_leases s') = map ls_ip (v6_leases s)"
    "map ls_hwaddr (v6_leases s') = map ls_hwaddr (v6_leases s)" "v6_conf s' = v6_conf s"
proof -
  have "s' = s \<or> s' = commitDynamicLease now i s" using assms(1) by (auto simp: v6_commitLease_def Let_def split: if_splits)
  then have "v6_conf s' = v6_conf s \<and> v6_used s' = v6_used s \<and> map ls_ip (v6_leases s') = map ls_ip (v6_leases s) \<and>
      map ls_hwaddr (v6_leases s') = map ls_hwaddr (v6_leases s)"
    using assms(3) by (auto simp: commitDynamicLease_def map_update list_update_same_conv)
  then show "v6_ok w s'" "map ls_ip (v6_leases s') = map ls_ip (v6_leases s)"
    "map ls_hwaddr (v6_leases s') = map ls_hwaddr (v6_leases s)" "v6_conf s' = v6_conf s"
    using v6_ok_cong [OF assms(2)] by auto
  then show "length (v6_leases s') = length (v6_leases s)" by (metis length_map)
qed

text \<open>What a message does to the leases, and the address that the reply gives out.\<close>

lemma process_ok:
  assumes "v6_process env t2 msg resp s = Some (resp', s')" "v6_ok w s" "vr_ia resp = None"
  shows "v6_ok w s'"
    and "vr_ia resp' = Some ia \<Longrightarrow> \<exists>m i. vm_mac msg = Some m \<and> i < length (v6_leases s') \<and> ls_ip (v6_leases s' ! i) = via_addr ia \<and>
      ((\<forall>x \<in> set (v6_leases s). length (ls_hwaddr x) = length m) \<longrightarrow> ls_hwaddr (v6_leases s' ! i) = m)"
proof -
  have "v6_ok w s' \<and> (\<forall>ia. vr_ia resp' = Some ia \<longrightarrow> (\<exists>m i. vm_mac msg = Some m \<and> i < length (v6_leases s') \<and>
      ls_ip (v6_leases s' ! i) = via_addr ia \<and>
      ((\<forall>x \<in> set (v6_leases s). length (ls_hwaddr x) = length m) \<longrightarrow> ls_hwaddr (v6_leases s' ! i) = m)))"
  proof (cases "vm_type msg \<in> {V6Solicit, V6Request, V6Confirm, V6Renew, V6Rebind} \<and> vm_mac msg \<noteq> None")
    case True
    then obtain m where m: "vm_mac msg = Some m" by blast
    define found where "found = (case v6_findLease m s of
               Some i \<Rightarrow> Some (Some i, s)
             | None \<Rightarrow> if vm_type msg = V6Solicit then v6_reserveLease (de_now env) m s else Some (None, s))"
    have run: "Option.bind found (\<lambda>(found, s1).
              case found of
                None \<Rightarrow> Some (resp, s1)
              | Some i \<Rightarrow>
                  if \<not> checkIA msg (v6_leases s1 ! i) then Some (resp, s1)
                  else
                    let (lifetime, s2) = v6_commitLease (de_now env) msg i s1;
                        ia = \<lparr>via_id = (case vm_ia msg of Some (n, _) \<Rightarrow> n | None \<Rightarrow> valueIAID),
                              via_t1 = (if 0 \<le> lifetime then lifetime div 2 else - ((- lifetime) div 2)), via_t2 = t2 lifetime,
                              via_addr = with_zone [] (ls_ip (v6_leases s2 ! i)), via_lifetime = lifetime\<rparr>
                    in Some (resp\<lparr>vr_ia := Some ia,
                          vr_dns := (if vm_wants_dns msg then Some (v6c_dns (v6_conf s2)) else vr_dns resp),
                          vr_fqdn := vm_fqdn msg, vr_success := True\<rparr>, s2)) = Some (resp', s')"
    proof -
      have "(vm_type msg \<notin> {V6Solicit, V6Request, V6Confirm, V6Renew, V6Rebind}) = False" using True by simp
      then show ?thesis using assms(1) unfolding v6_process_def found_def by (simp only: m option.case if_False)
    qed
    then obtain r s1 where r: "found = Some (r, s1)" by (cases found) auto
    have s1: "v6_ok w s1" "\<And>i. r = Some i \<Longrightarrow> i < length (v6_leases s1)"
      "\<And>i. r = Some i \<Longrightarrow> \<forall>x \<in> set (v6_leases s). length (ls_hwaddr x) = length m \<Longrightarrow> ls_hwaddr (v6_leases s1 ! i) = m"
      using r assms(2) reserve_ok [of "de_now env" m s r s1 w] v6_findLease_Some [of m s]
      by (auto simp: found_def split: option.splits if_splits)
    show ?thesis
    proof (cases r)
      case None
      then show ?thesis using run r s1(1) assms(3) by simp
    next
      case (Some i)
      obtain t s2 where s2: "v6_commitLease (de_now env) msg i s1 = (t, s2)" by fastforce
      note c = commit_ok [OF s2 s1(1) s1(2) [OF Some]]
      have i: "i < length (v6_leases s2)" using s1(2) [OF Some] c(2) by simp
      have "in_net w (ls_ip (v6_leases s2 ! i))" using c(1) i by (simp add: v6_ok_def)
      then have zone: "with_zone [] (ls_ip (v6_leases s2 ! i)) = ls_ip (v6_leases s2 ! i)" by (auto simp: in_net_def)
      have hw: "ls_hwaddr (v6_leases s2 ! i) = ls_hwaddr (v6_leases s1 ! i)"
        using c(4) i c(2) by (metis nth_map)
      have "(s' = s1 \<and> vr_ia resp' = None) \<or> (s' = s2 \<and> (\<exists>ia. vr_ia resp' = Some ia \<and> via_addr ia = ls_ip (v6_leases s2 ! i)))"
        using run r Some s2 zone assms(3) by (auto split: if_splits)
      then show ?thesis
      proof
        assume "s' = s1 \<and> vr_ia resp' = None"
        then show ?thesis using s1(1) by simp
      next
        assume "s' = s2 \<and> (\<exists>ia. vr_ia resp' = Some ia \<and> via_addr ia = ls_ip (v6_leases s2 ! i))"
        then show ?thesis using c(1) i hw s1(3) [OF Some] m by auto
      qed
    qed
  qed (use assms in \<open>auto simp: v6_process_def split: if_splits\<close>)
  then show "v6_ok w s'" "vr_ia resp' = Some ia \<Longrightarrow> \<exists>m i. vm_mac msg = Some m \<and> i < length (v6_leases s') \<and> ls_ip (v6_leases s' ! i) = via_addr ia \<and>
      ((\<forall>x \<in> set (v6_leases s). length (ls_hwaddr x) = length m) \<longrightarrow> ls_hwaddr (v6_leases s' ! i) = m)"
    by blast+
qed

section \<open>Properties\<close>

text \<open>
  The runs of an enabled server.  Static leases are in the network of the server, an update does not take the address of
  another lease, and a database has each address once.
\<close>

inductive v6_run :: "dhcp_env \<Rightarrow> (int \<Rightarrow> int) \<Rightarrow> 128 word \<Rightarrow> v6_server \<Rightarrow> bool" for env t2 w where
  created: "v6Create conf = (None, s) \<Longrightarrow> v6c_enabled conf \<Longrightarrow> v6c_range_start conf = Addr6 w z \<Longrightarrow> v6_run env t2 w s"
| started: "v6_run env t2 w s \<Longrightarrow> v6_Start addrs duid mac_ok s = (r, s') \<Longrightarrow> v6_run env t2 w s'"
| message: "v6_run env t2 w s \<Longrightarrow> v6_packetHandler env t2 ok inner s = Some (r, s') \<Longrightarrow> v6_run env t2 w s'"
| added: "v6_run env t2 w s \<Longrightarrow> in_net w (ls_ip l) \<Longrightarrow> v6_AddStaticLease env l s = (e, s') \<Longrightarrow> v6_run env t2 w s'"
| updated: "v6_run env t2 w s \<Longrightarrow> in_net w (ls_ip l) \<Longrightarrow>
    (\<And>x. x \<in> set (v6_leases s) \<Longrightarrow> ls_ip x = ls_ip l \<Longrightarrow> map_option ((!) (v6_leases s)) (v6_findLease (ls_hwaddr l) s) = Some x) \<Longrightarrow>
    v6_UpdateStaticLease l s = (e, s') \<Longrightarrow> v6_run env t2 w s'"
| removed: "v6_run env t2 w s \<Longrightarrow> v6_RemoveStaticLease env l s = (e, s') \<Longrightarrow> v6_run env t2 w s'"
| reset: "v6_run env t2 w s \<Longrightarrow> distinct (map ls_ip ls) \<Longrightarrow>
    \<forall>l \<in> set ls. (ls_static l \<longrightarrow> in_net w (ls_ip l)) \<and> addr_zone (ls_ip l) = [] \<Longrightarrow>
    v6_ResetLeases ls s = Some s' \<Longrightarrow> v6_run env t2 w s'"

lemma packet_cases:
  assumes "v6_packetHandler env t2 ok inner s = Some (r, s')"
  obtains "s' = s" "r = None" | msg resp resp' where "inner = Some msg" "vr_ia resp = None" "v6_process env t2 msg resp s = Some (resp', s')" "r = Some resp'"
proof (cases "\<exists>msg. inner = Some msg \<and> checkCID msg \<and> checkSID s msg \<and>
    vm_type msg \<in> {V6Solicit, V6Request, V6Confirm, V6Renew, V6Rebind, V6Release, V6InfoRequest} \<and> ok")
  case True
  then obtain msg where msg: "inner = Some msg" "checkCID msg \<and> checkSID s msg \<and>
    vm_type msg \<in> {V6Solicit, V6Request, V6Confirm, V6Renew, V6Rebind, V6Release, V6InfoRequest} \<and> ok" by blast
  let ?resp = "\<lparr>vr_advertise = (vm_type msg = V6Solicit \<and> \<not> vm_rapid msg), vr_sid = v6_sid s, vr_ia = None,
      vr_dns = None, vr_fqdn = None, vr_success = False\<rparr>"
  have "v6_packetHandler env t2 ok inner s = map_option (\<lambda>(resp, s1). (Some resp, s1)) (v6_process env t2 msg ?resp s)"
    using msg by (auto simp: v6_packetHandler_def Let_def)
  then have "map_option (\<lambda>(resp, s1). (Some resp, s1)) (v6_process env t2 msg ?resp s) = Some (r, s')" using assms by simp
  then obtain resp' where "v6_process env t2 msg ?resp s = Some (resp', s')" "r = Some resp'"
    by (auto simp: map_option_eq_Some)
  then show ?thesis using that(2) [of msg ?resp resp'] msg(1) by simp
next
  case False
  have "s' = s \<and> r = None"
  proof (cases inner)
    case (Some msg)
    let ?known = "{V6Solicit, V6Request, V6Confirm, V6Renew, V6Rebind, V6Release, V6InfoRequest}"
    have "\<not> checkCID msg \<or> \<not> checkSID s msg \<or> vm_type msg \<notin> ?known \<or> \<not> ok" using False Some by blast
    then have "v6_packetHandler env t2 ok inner s = Some (None, s)"
      unfolding v6_packetHandler_def Some option.case by (simp only: if_True if_False Let_def cases_simp split: if_split) blast
    then show ?thesis using assms by simp
  qed (use assms in \<open>simp add: v6_packetHandler_def\<close>)
  then show ?thesis using that(1) by simp
qed

lemma run_ok: "v6_run env t2 w s \<Longrightarrow> v6_ok w s"
proof (induction rule: v6_run.induct)
  case (created conf s z)
  then show ?case by (auto simp: v6Create_def v6_ok_def Let_def split: if_splits)
next
  case (started s addrs duid mac_ok r s')
  have "v6c_ip_start (v6_conf s') = v6c_ip_start (v6_conf s) \<and> v6_used s' = v6_used s \<and> v6_leases s' = v6_leases s"
    using started.hyps(2) by (auto simp: v6_Start_def Let_def split: if_splits option.splits list.splits)
  then show ?case using v6_ok_cong [OF started.IH] by simp
next
  case (message s ok inner r s')
  from message.hyps(2) show ?case
    by (rule packet_cases) (use message.IH process_ok(1) in auto)
next
  case (added s l e s')
  then show ?case using AddStatic_ok by blast
next
  case (updated s l e s')
  then show ?case using UpdateStatic_ok by blast
next
  case (removed s l e s')
  then show ?case using RemoveStatic_ok by blast
next
  case (reset s ls s')
  then show ?case using ResetLeases_ok by blast
qed


text \<open>A reset does not free the addresses of the DHCPv6 server: when all of its range is taken, after a reset it has no
  lease, and a client that asks for an address gets none.\<close>

theorem v6_reset_frees_nothing:
  assumes "findFreeIP s = Some None" "v6_ResetLeases [] s = Some s'" "vm_type msg = V6Solicit" "vm_mac msg = Some m"
  shows "v6_leases s' = [] \<and> v6_process env t2 msg resp s' = Some (resp, s')"
proof -
  have s': "s' = s\<lparr>v6_leases := []\<rparr>" using assms(2) by (simp add: v6_ResetLeases_def)
  then have "findFreeIP s' = Some None" using assms(1) by (auto simp: findFreeIP_def split: addr.splits)
  moreover have "v6_findExpiredLease (de_now env) s' = None" "v6_findLease m s' = None"
    by (simp_all add: s' v6_findExpiredLease_def v6_findLease_def)
  ultimately show ?thesis using assms(3,4) by (simp add: s' v6_process_def v6_reserveLease_def)
qed

text \<open>The removal of dynamic leases before a static lease is added skips the lease that takes the place of a removed one:
  here the client keeps its dynamic lease, which hides the static one.\<close>

theorem v6_static_lease_hidden:
  assumes "v6_leases s = [a, b]" "\<not> ls_static a" "\<not> ls_static b" "ls_ip a = ls_ip l" "ls_hwaddr a \<noteq> ls_hwaddr l"
    "ls_hwaddr b = ls_hwaddr l" "is6 (ls_ip l)" "de_valid_mac env (ls_hwaddr l)"
  shows "\<exists>s'. v6_AddStaticLease env l s = (None, s') \<and> v6_leases s' = [b, l\<lparr>ls_static := True\<rparr>] \<and> v6_findLease (ls_hwaddr l) s' = Some 0"
proof -
  let ?l = "l\<lparr>ls_static := True\<rparr>"
  have removed: "v6_leases (leaseRemoveSwapByIndex 0 s) = [b]" using assms(1) by (simp add: leaseRemoveSwapByIndex_def)
  have "v6_rmDynamicLease ?l s = v6_rm_dynamic_loop ?l 1 (leaseRemoveSwapByIndex 0 s)"
    unfolding v6_rmDynamicLease_def using assms by (subst v6_rm_dynamic_loop.simps) (simp add: Let_def)
  also have "\<dots> = (None, leaseRemoveSwapByIndex 0 s)" by (subst v6_rm_dynamic_loop.simps) (simp add: removed)
  finally show ?thesis
    using assms removed by (simp add: v6_AddStaticLease_def v6_findLease_def)
qed

section \<open>Witnesses\<close>

definition w6_conf :: v6_conf where
  "w6_conf = empty_conf6\<lparr>v6c_enabled := True, v6c_range_start := Addr6 0xFD0000000000000000000000000000FE [], v6c_duration := 3600\<rparr>"

definition w6_env :: dhcp_env where
  "w6_env = \<lparr>de_outer = (\<lambda>_. True), de_valid_hostname = (\<lambda>_. True), de_valid_mac = (\<lambda>m. length m = 6), de_in_use = (\<lambda>_. False), de_now = 0\<rparr>"

definition w6_solicit :: v6_msg where
  "w6_solicit = \<lparr>vm_type = V6Solicit, vm_has_cid = True, vm_sid = None, vm_mac = Some [2, 0, 0, 0, 0, 1], vm_ia = None,
     vm_wants_dns = False, vm_fqdn = None, vm_rapid = False\<rparr>"

definition w6_lease :: lease where
  "w6_lease = \<lparr>ls_ip = Addr6 0xFD0000000000000000000000000000FE [], ls_expiry = zero_time, ls_hostname = [],
     ls_hwaddr = [2, 0, 0, 0, 0, 1], ls_static = False\<rparr>"

abbreviation w6_created :: v6_server where
  "w6_created \<equiv> snd (v6Create w6_conf)"

lemma w6_free: "findFreeIP w6_created = Some (Some (ls_ip w6_lease))"
proof -
  have "findFreeIP w6_created = Some (Some (Addr6 0xFD0000000000000000000000000000FE []))" by code_simp
  then show ?thesis by (simp add: w6_lease_def)
qed

lemma w6_created: "v6Create w6_conf = (None, w6_created)" "v6c_enabled w6_conf" "v6c_range_start w6_conf = Addr6 0xFD0000000000000000000000000000FE []"
  "v6_leases w6_created = []" "v6_sid w6_created = None"
  by (simp_all add: v6Create_def w6_conf_def empty_conf6_def Let_def)

lemma w6_solicited:
  "\<exists>resp s' ia. v6_packetHandler w6_env id True (Some w6_solicit) w6_created = Some (Some resp, s') \<and> v6_leases s' = [w6_lease] \<and>
     vr_ia resp = Some ia \<and> via_addr ia = ls_ip w6_lease"
proof -
  have "v6_reserveLease 0 [2, 0, 0, 0, 0, 1] w6_created = Some (Some 0, v6_addLease w6_lease w6_created)"
    by (simp add: v6_reserveLease_def w6_free w6_created(4)) (simp add: w6_lease_def)
  then show ?thesis
    by (simp add: v6_packetHandler_def w6_solicit_def checkCID_def checkSID_def w6_created(4,5) w6_env_def v6_process_def v6_findLease_def
        checkIA_def v6_commitLease_def Let_def) (simp add: w6_lease_def)
qed


theorem v6_reset_frees_nothing_witness:
  "\<exists>s'. v6_leases s' = [] \<and> v6_process w6_env id w6_solicit \<lparr>vr_advertise = True, vr_sid = None, vr_ia = None, vr_dns = None,
     vr_fqdn = None, vr_success = False\<rparr> s' = Some (\<lparr>vr_advertise = True, vr_sid = None, vr_ia = None, vr_dns = None,
     vr_fqdn = None, vr_success = False\<rparr>, s')"
proof -
  let ?s = "w6_created\<lparr>v6_leases := [w6_lease, w6_lease\<lparr>ls_ip := Addr6 0xFD0000000000000000000000000000FF []\<rparr>], v6_used := (\<lambda>_. True)\<rparr>"
  have "v6c_ip_start (v6_conf w6_created) = Addr6 0xFD0000000000000000000000000000FE []"
    by (simp add: v6Create_def w6_conf_def empty_conf6_def Let_def)
  then have "findFreeIP ?s = Some None" by (simp add: findFreeIP_def find_None_iff)
  moreover have "v6_ResetLeases [] ?s = Some (?s\<lparr>v6_leases := []\<rparr>)" by (simp add: v6_ResetLeases_def)
  moreover have "vm_type w6_solicit = V6Solicit" "vm_mac w6_solicit = Some [2, 0, 0, 0, 0, 1]" by (simp_all add: w6_solicit_def)
  ultimately show ?thesis
    using v6_reset_frees_nothing [of ?s "?s\<lparr>v6_leases := []\<rparr>" w6_solicit "[2, 0, 0, 0, 0, 1]" w6_env id]
    by (intro exI [of _ "?s\<lparr>v6_leases := []\<rparr>"]) (simp only: simp_thms)
qed

theorem v6_static_lease_hidden_witness:
  "\<exists>s s'. v6_AddStaticLease w6_env w6_lease s = (None, s') \<and> v6_findLease (ls_hwaddr w6_lease) s' = Some 0 \<and> \<not> ls_static (hd (v6_leases s'))"
proof -
  let ?a = "w6_lease\<lparr>ls_hwaddr := [2, 0, 0, 0, 0, 2]\<rparr>" and ?b = "w6_lease\<lparr>ls_ip := Addr6 0xFD0000000000000000000000000000FF []\<rparr>"
  let ?s = "w6_created\<lparr>v6_leases := [?a, ?b]\<rparr>"
  have "\<exists>s'. v6_AddStaticLease w6_env w6_lease ?s = (None, s') \<and> v6_leases s' = [?b, w6_lease\<lparr>ls_static := True\<rparr>] \<and>
      v6_findLease (ls_hwaddr w6_lease) s' = Some 0"
    by (rule v6_static_lease_hidden [where a = ?a]) (simp_all add: w6_lease_def w6_env_def)
  then obtain s' where s': "v6_AddStaticLease w6_env w6_lease ?s = (None, s')" "v6_leases s' = [?b, w6_lease\<lparr>ls_static := True\<rparr>]"
      "v6_findLease (ls_hwaddr w6_lease) s' = Some 0" by blast
  have "\<not> ls_static (hd (v6_leases s'))" by (simp add: s'(2)) (simp add: w6_lease_def)
  then show ?thesis using s'(1,3) by blast
qed

end
