(* ===== verification/DhcpServerProps.thy ===== *)
theory DhcpServerProps
  imports DhcpV6Props Bytes
begin

text \<open>
  The service over both families: a handler of static leases that succeeds leaves the file with the leases that are in
  memory, and the status shows every active lease once, in the list of its kind.
\<close>

section \<open>What the servers report\<close>

lemma update_events [simp]:
  "v4_events (upd_lease r f s) = v4_events s" "v4_events (rmLeaseByIndex c i s) = v4_events s" "v4_events (snd (alloc_lease l s)) = v4_events s"
  "v4_events (snd (addLease c r s)) = v4_events s" "v4_events (snd (rmLease c x s)) = v4_events s"
  by (simp_all add: upd_lease_def rmLeaseByIndex_def alloc_lease_def addLease_def rmLease_def Let_def split: option.split prod.split)

lemma rm_dynamic_events: "rm_dynamic_loop c x i k s = Some (e, s') \<Longrightarrow> v4_events s' = v4_events s"
proof (induction c x i k s rule: rm_dynamic_loop.induct)
  case (2 c x i k s)
  then show ?case by (auto simp: Let_def split: if_splits) (metis update_events(2))+
qed simp

lemma updateStatic_events: "updateStaticLease c x s = Some (e, s') \<Longrightarrow> v4_events s' = v4_events s"
  using rm_dynamic_events [of c x 0 "length (v4_leases s)" s]
  by (auto simp: updateStaticLease_def rmDynamicLease_def split: option.splits) (metis snd_conv update_events(4))+

definition reported4 :: "lease_change \<Rightarrow> v4_server \<Rightarrow> v4_server \<Rightarrow> bool" where
  "reported4 ch s s' \<longleftrightarrow> v4_events s' = v4_events s @ [DBStored (v4_all s'), LeaseChanged ch]"

lemma notify_reported: "v4_events s1 = v4_events s \<Longrightarrow> reported4 ch s (notify_change ch (notify_store s1))"
  by (simp add: reported4_def notify_change_def notify_store_def v4_all_def)

lemma AddStatic_reported:
  assumes "AddStaticLease env l s = Some (None, s')"
  shows "reported4 LeaseAddedStatic s s'"
proof -
  obtain c hostname x s1 s2 where "alloc_lease (l\<lparr>ls_ip := unmap (ls_ip l), ls_static := True, ls_hostname := hostname\<rparr>) s = (x, s1)"
    "updateStaticLease c x s1 = Some (None, s2)" "s' = notify_change LeaseAddedStatic (notify_store s2)"
    using assms by (auto simp: AddStaticLease_def Let_def split: option.splits if_splits sum.splits prod.splits)
  then show ?thesis
    using updateStatic_events update_events(3) notify_reported by (metis snd_conv)
qed

lemma RemoveStatic_reported:
  assumes "RemoveStaticLease env l s = (None, s')"
  shows "reported4 LeaseRemovedStatic s s'"
proof -
  obtain c s1 where "rmLease c l s = (None, s1)" "s' = notify_change LeaseRemovedStatic (notify_store s1)"
    using assms by (auto simp: RemoveStaticLease_def split: option.splits if_splits prod.splits)
  then show ?thesis using update_events(5) notify_reported by (metis snd_conv)
qed

lemma UpdateStatic_reported:
  assumes "UpdateStaticLease env l s = (None, s')"
  shows "reported4 LeaseRemovedStatic s s'"
proof -
  obtain c y l' s1 x s2 s3 where "rmLease c y s = (None, s1)" "alloc_lease l' s1 = (x, s2)" "addLease c x s2 = (None, s3)"
    "s' = notify_change LeaseRemovedStatic (notify_store s3)"
    using assms by (auto simp: UpdateStaticLease_def split: option.splits sum.splits prod.splits)
  then show ?thesis using update_events(3-5) notify_reported by (metis snd_conv)
qed

definition reported6 :: "lease_change \<Rightarrow> v6_server \<Rightarrow> v6_server \<Rightarrow> bool" where
  "reported6 ch s s' \<longleftrightarrow> v6_events s' = v6_events s @ [DBStored (v6_leases s'), LeaseChanged ch]"

lemma notify6_reported: "v6_events s1 = v6_events s \<Longrightarrow> reported6 ch s (v6_notify ch (v6_store s1))"
  by (simp add: reported6_def v6_notify_def v6_store_def)

lemma rm_loop_events: "v6_rm_dynamic_loop x i s = (e, s') \<Longrightarrow> v6_events s' = v6_events s"
proof -
  have "v6_events (snd (v6_rm_dynamic_loop x i s)) = v6_events s"
  proof (induction x i s rule: v6_rm_dynamic_loop.induct)
    case (1 x i s)
    then show ?case by (subst v6_rm_dynamic_loop.simps) (auto simp: Let_def)
  qed
  then show "v6_rm_dynamic_loop x i s = (e, s') \<Longrightarrow> v6_events s' = v6_events s" by simp
qed

lemma v6_rmLease_events: "v6_rmLease x s = (e, s') \<Longrightarrow> v6_events s' = v6_events s"
  by (erule rmLease_cases) simp_all

lemma v6_AddStatic_reported: "v6_AddStaticLease env l s = (None, s') \<Longrightarrow> reported6 LeaseAddedStatic s s'"
  using rm_loop_events [of "l\<lparr>ls_static := True\<rparr>" 0 s]
  by (auto simp: v6_AddStaticLease_def v6_rmDynamicLease_def Let_def notify6_reported split: if_splits option.splits prod.splits)

lemma v6_RemoveStatic_reported: "v6_RemoveStaticLease env l s = (None, s') \<Longrightarrow> reported6 LeaseRemovedStatic s s'"
  using v6_rmLease_events [of l s]
  by (auto simp: v6_RemoveStaticLease_def notify6_reported split: if_splits option.splits prod.splits)

lemma v6_UpdateStatic_reported: "v6_UpdateStaticLease l s = (None, s') \<Longrightarrow> reported6 LeaseRemovedStatic s s'"
  using v6_rmLease_events
  by (fastforce simp: v6_UpdateStaticLease_def notify6_reported split: option.splits prod.splits)

section \<open>The file\<close>

definition file_of :: "ds_env \<Rightarrow> dhcp_server \<Rightarrow> lease_file" where
  "file_of env s = LFLeases (sort_cmp (\<lambda>a b. cmp_ord (stl_host a) (stl_host b))
     (map (fromLease env) (v4_all (ds_v4 s) @ v6_leases (ds_v6 s))))"

lemma with4_stored:
  assumes "reported4 ch (ds_v4 s) v4" "v4_events (ds_v4 s) = []" "dse_write env"
  shows "ds_file (ds_with4 env v4 s) = file_of env (ds_with4 env v4 s)" "ds_changes (ds_with4 env v4 s) = ds_changes s @ [ch]"
  using assms by (simp_all add: ds_with4_def reported4_def onNotify4_def writeDB_def file_of_def v4_all_def)

lemma with6_stored:
  assumes "reported6 ch (ds_v6 s) v6" "v6_events (ds_v6 s) = []" "dse_write env"
  shows "ds_file (ds_with6 env v6 s) = file_of env (ds_with6 env v6 s)" "ds_changes (ds_with6 env v6 s) = ds_changes s @ [ch]"
  using assms by (simp_all add: ds_with6_def reported6_def onNotify6_def writeDB_def file_of_def)


section \<open>The status\<close>

interpretation static_first: preorder_cmp compareStatic
  by unfold_locales (auto simp: compareStatic_def split: if_splits)

lemma static_prefix:
  "sorted_wrt (cmp_le compareStatic) ls \<Longrightarrow> takeWhile ls_static ls = filter ls_static ls \<and> dropWhile ls_static ls = filter (\<lambda>l. \<not> ls_static l) ls"
proof (induction ls)
  case (Cons l ls)
  show ?case
  proof (cases "ls_static l")
    case False
    then have "\<forall>x \<in> set ls. \<not> ls_static x" using Cons.prems by (auto simp: cmp_le_def compareStatic_def split: if_splits)
    then show ?thesis using False by (simp add: filter_empty_conv)
  qed (use Cons in simp)
qed simp

text \<open>The status shows every active lease exactly once: the static ones in the one list, the others in the other.\<close>

theorem status_shows_leases:
  "mset (dst_static (handleDHCPStatus env s)) = mset (leasesToStatic (filter ls_static (ds_Leases (de_now (dse_dhcp env)) s))) \<and>
   mset (dst_leases (handleDHCPStatus env s)) = mset (leasesToDynamic env (filter (\<lambda>l. \<not> ls_static l) (ds_Leases (de_now (dse_dhcp env)) s)))"
proof -
  let ?ls = "ds_Leases (de_now (dse_dhcp env)) s" and ?sorted = "sort_cmp compareStatic (ds_Leases (de_now (dse_dhcp env)) s)"
  note prefix = static_prefix [OF static_first.sorted_sort_cmp, of ?ls]
  have split: "take (length (takeWhile ls_static ?sorted)) ?sorted = filter ls_static ?sorted"
    "drop (length (takeWhile ls_static ?sorted)) ?sorted = filter (\<lambda>l. \<not> ls_static l) ?sorted"
    using prefix takeWhile_eq_take [of ls_static ?sorted] dropWhile_eq_drop [of ls_static ?sorted] by metis+
  have "mset (filter P ?sorted) = mset (filter P ?ls)" for P by simp
  then show ?thesis
    by (simp add: handleDHCPStatus_def Let_def split leasesToStatic_def leasesToDynamic_def mset_map)
qed

section \<open>Witness\<close>

definition ws_env :: ds_env where
  "ws_env = \<lparr>dse_dhcp = w6_env, dse_format = (\<lambda>_. []), dse_parse = (\<lambda>_. Some 0), dse_write = True, dse_duration = (\<lambda>_. None)\<rparr>"

definition ws_server :: dhcp_server where
  "ws_server = \<lparr>ds_v4 = snd (v4Create (\<lambda>_. None) empty_conf4), ds_v6 = w6_created, ds_enabled = True, ds_iface = ''eth0'',
     ds_domain = ''lan'', ds_conf4 = empty_conf4, ds_conf6 = w6_conf, ds_file = LFMissing, ds_changes = []\<rparr>"

definition ws_json :: static_json where
  "ws_json = \<lparr>sj_mac = mac_string [2, 0, 0, 0, 0, 1], sj_ip = ls_ip w6_lease, sj_host = ''box''\<rparr>"

lemma ws_lease:
  "parseLease ws_json = Inr (False, \<lparr>ls_ip = ls_ip w6_lease, ls_expiry = zero_time, ls_hostname = ''box'',
     ls_hwaddr = [2, 0, 0, 0, 0, 1], ls_static = True\<rparr>)"
proof -
  have "parse_mac (mac_string [2, 0, 0, 0, 0, 1]) = Some [2, 0, 0, 0, 0, 1]" by (rule parse_mac_string) simp
  moreover have "unmap (ls_ip w6_lease) = ls_ip w6_lease" "ls_ip w6_lease \<noteq> ZeroAddr" "\<not> is4 (ls_ip w6_lease)" by code_simp+
  ultimately show ?thesis by (simp add: parseLease_def ws_json_def static_toLease_def)
qed


end
