(* ===== verification/Spec2Isabelle.thy ===== *)
theory Spec2Isabelle
  imports SafeSearch FilterLists DnsGuarantees DhcpProps HashPrefix StatsProps AghUserProps QueryLogProps ConfigMigrateProps DhcpSvcProps DhcpServerProps
begin

text \<open>
  A verification development for NullPrivate, a network-wide DNS filtering server written in Go.  This is the root
  theory; it has no definitions of its own and says how the development is put together.

  \<^bold>\<open>The program.\<close>  A DNS request comes to \<^verbatim>\<open>internal/dnsforward\<close>.  The access settings and the ClientID decide
  whether it is served, the persistent client (\<^verbatim>\<open>internal/client\<close>) and the blocked-services schedule
  (\<^verbatim>\<open>internal/schedule\<close>) give the settings of the filter, and the stages of the server answer it from local records,
  from the filter (\<^verbatim>\<open>internal/filtering\<close> with its rule lists, rewrites, safe search and hash-prefix checks) or from an
  upstream server, filter the answer and record it in the query log (\<^verbatim>\<open>internal/querylog\<close>) and the statistics
  (\<^verbatim>\<open>internal/stats\<close>).  The DHCP servers (\<^verbatim>\<open>internal/dhcpd\<close>, \<^verbatim>\<open>internal/dhcpsvc\<close>) give names to addresses and back.
  The web interface is behind the authentication of \<^verbatim>\<open>internal/home\<close> and \<^verbatim>\<open>internal/aghuser\<close>; at the start the
  configuration file is upgraded by \<^verbatim>\<open>internal/configmigrate\<close>.

  \<^bold>\<open>Shared theories.\<close>  \<^verbatim>\<open>Prelude\<close>: results with errors, strings, maps with an order (Go maps), sorting and binary
  search by a comparison; \<^verbatim>\<open>Sorting\<close>: what they keep of the elements.  \<^verbatim>\<open>NetIP\<close>: addresses, prefixes and hardware
  addresses of the standard library.  \<^verbatim>\<open>Bytes\<close>: bytes, big-endian numbers, hexadecimal text.  \<^verbatim>\<open>Cache\<close>: the cache of module golibs as an argument with its law.

  \<^bold>\<open>Theories and the code.\<close>
  \<^item> \<^verbatim>\<open>AghAlg\<close> models \<^verbatim>\<open>internal/aghalg\<close>: the sorted map, the checker of duplicates, the three-valued boolean.
  \<^item> \<^verbatim>\<open>Schedule\<close> models \<^verbatim>\<open>internal/schedule\<close>: instants in a location with zone transitions, containment, encodings.
  \<^item> \<^verbatim>\<open>FilterTypes\<close>, \<^verbatim>\<open>Rewrites\<close>, \<^verbatim>\<open>Filtering\<close> model \<^verbatim>\<open>filtering.go\<close>, \<^verbatim>\<open>rewrites.go\<close>, \<^verbatim>\<open>rewritehttp.go\<close>,
    \<^verbatim>\<open>hosts.go\<close>, \<^verbatim>\<open>dnsrewrite.go\<close>, \<^verbatim>\<open>blocked.go\<close> of \<^verbatim>\<open>internal/filtering\<close>: the state of the filter is the record
    \<^verbatim>\<open>dns_filter\<close>, and \<^verbatim>\<open>CheckHost\<close> runs the host checks in the order in which the constructor registers them.
  \<^item> \<^verbatim>\<open>FilterLists\<close> models \<^verbatim>\<open>filter.go\<close>, \<^verbatim>\<open>idgenerator.go\<close> and the list handlers of \<^verbatim>\<open>http.go\<close>, with downloads and
    files as arguments; \<^verbatim>\<open>RuleParser\<close> models \<^verbatim>\<open>rulelist/parser.go\<close>; \<^verbatim>\<open>SafeSearch\<close> and \<^verbatim>\<open>HashPrefix\<close> the packages of
    these names.
  \<^item> \<^verbatim>\<open>Clients\<close>, \<^verbatim>\<open>ClientIndex\<close>, \<^verbatim>\<open>ClientStorage\<close>, \<^verbatim>\<open>ClientSteps\<close> model \<^verbatim>\<open>internal/client\<close>: clients, the index
    with one map per kind of identifier, the storage with its manager of upstream configurations, and the storage as a
    transition system of its exported operations.
  \<^item> \<^verbatim>\<open>Access\<close>, \<^verbatim>\<open>DnsMsg\<close>, \<^verbatim>\<open>DnsAnswers\<close>, \<^verbatim>\<open>DnsProcess\<close> model \<^verbatim>\<open>access.go\<close>, \<^verbatim>\<open>clientid.go\<close>, \<^verbatim>\<open>msg.go\<close>,
    \<^verbatim>\<open>dnsrewrite.go\<close>, \<^verbatim>\<open>svcbmsg.go\<close>, \<^verbatim>\<open>process.go\<close>, \<^verbatim>\<open>filter.go\<close>, \<^verbatim>\<open>dns64.go\<close> and \<^verbatim>\<open>stats.go\<close> of
    \<^verbatim>\<open>internal/dnsforward\<close>; \<^verbatim>\<open>DnsGuarantees\<close> has the properties of a whole request.
  \<^item> \<^verbatim>\<open>DhcpTypes\<close>, \<^verbatim>\<open>DhcpV4\<close> model the DHCPv4 server of \<^verbatim>\<open>internal/dhcpd\<close>, with the properties in \<^verbatim>\<open>DhcpInv\<close>,
    \<^verbatim>\<open>DhcpAlloc\<close>, \<^verbatim>\<open>DhcpSafety\<close>, \<^verbatim>\<open>DhcpProps\<close>; \<^verbatim>\<open>DhcpV6\<close>, \<^verbatim>\<open>DhcpV6Props\<close> the DHCPv6 server; \<^verbatim>\<open>DhcpServer\<close>,
    \<^verbatim>\<open>DhcpServerProps\<close> the service of both families with its database and handlers; \<^verbatim>\<open>DhcpSvc\<close>, \<^verbatim>\<open>DhcpSvcProps\<close> the new service \<^verbatim>\<open>internal/dhcpsvc\<close>.
  \<^item> \<^verbatim>\<open>Stats\<close>, \<^verbatim>\<open>StatsProps\<close> model \<^verbatim>\<open>internal/stats\<close>; \<^verbatim>\<open>QLogFile\<close>, \<^verbatim>\<open>QLogDecode\<close>, \<^verbatim>\<open>QueryLog\<close> and their property
    theories \<^verbatim>\<open>internal/querylog\<close>: the files and the search in them by bytes, the JSON of the entries by tokens, and
    the ring buffer with flushes, rotations, searches and settings.
  \<^item> \<^verbatim>\<open>Auth\<close>, \<^verbatim>\<open>AuthProps\<close> model the authentication of \<^verbatim>\<open>internal/home\<close>; \<^verbatim>\<open>AghUser\<close>, \<^verbatim>\<open>AghUserProps\<close> the users and
    sessions of \<^verbatim>\<open>internal/aghuser\<close>.
  \<^item> \<^verbatim>\<open>ConfigMigrate\<close>, \<^verbatim>\<open>ConfigMigrateProps\<close> model all upgrades of \<^verbatim>\<open>internal/configmigrate\<close>.

  \<^bold>\<open>Conventions.\<close>  A method with a pointer receiver takes the state last and returns it.  Errors are values of a
  datatype in the left part of a sum; a panic is the value \<^term>\<open>None\<close> of an outer option.  Locks are left out: an
  operation that holds the lock throughout is one step, and an operation that releases it between two parts is two
  definitions.  Go maps are association lists in an unspecified order.  Code outside the repository (upstream servers,
  the rule engine, the JSON and YAML libraries, hashing, clocks, files, random numbers) is an argument of the definitions
  that use it; what the properties need of it stands in their hypotheses, and their witnesses give such an argument.
  Machine integers are words where the width matters.

  \<^bold>\<open>What the lemmas show.\<close>  Invariants of the states over all sequences of operations: the index and the storage of
  clients, the leases of all DHCP servers, the users, the filter lists.  Refinements of simpler specifications: the
  storage of clients by a map from unique identifiers to clients, the report of the statistics by the list of counted
  entries, a search of the query log by the list of added entries, the sessions after a restart by those before.
  Equivalences: the bisection of a log file with a linear search, the answers with a cache and without one.  The
  processing of a request: the question is the client's, a blocked request is not sent upstream, the verdict comes from
  the first check that has one.  Round trips: entries of the log, the rule parser on its own output, the databases of
  leases.  Errors: what a failed operation leaves behind.

  \<^bold>\<open>Bounds and termination.\<close>  Recursion is structural or has a measure, with these exceptions.  The JSON parser of
  \<^verbatim>\<open>QLogDecode\<close> takes as fuel the number of tokens, of which every call uses one.  The bisection of a log file ends with
  an error after 100 steps, as in the code, which is enough for files shorter than \<open>2 ^ 63\<close> bytes.  The search of an
  address range in \<^verbatim>\<open>DhcpSvc\<close> is a partial function, since the code does not end for some ranges; for the others it is
  shown to end.

  \<^bold>\<open>Not modelled.\<close>  Start and shutdown of the servers and their sockets; TLS; the installation, update and control
  handlers of \<^verbatim>\<open>internal/home\<close> that only copy settings; the operating-system services of \<^verbatim>\<open>aghos\<close>, \<^verbatim>\<open>arpdb\<close>,
  \<^verbatim>\<open>ipset\<close>, \<^verbatim>\<open>permcheck\<close> and \<^verbatim>\<open>aghnet\<close>; network clients such as \<^verbatim>\<open>whois\<close>, \<^verbatim>\<open>rdns\<close> and \<^verbatim>\<open>updater\<close>; the
  router advertisements of \<^verbatim>\<open>dhcpd\<close>; the unfinished packages under \<^verbatim>\<open>internal/next\<close>; build scripts
  and tests.  They are input and output around the modelled state, or generated data, or not yet used by the program.
  Concurrency below the granularity of locks, logging and memory use are left out everywhere.
\<close>

end
